(* ===== verification/Mir_Prelude.thy ===== *)
theory Mir_Prelude
  imports Complex_Main "HOL-Library.Multiset" "HOL-Library.Word"
begin

text \<open>
  The prelude of the Mir development: the vocabulary every component theory shares.

  \<^item> C++ exceptions are values (\<open>exn\<close>); a call that may throw and that mutates an object
    returns the object's state beside an \<open>exn + 'a\<close>, so what was written before the throw
    stays visible.
  \<^item> C++ \<open>int\<close> is a HOL \<open>int\<close>; signed overflow is undefined behaviour in C++, so the
    predicate \<open>int32\<close> says where a value is representable (the intersection of representable
    rectangles is, for one).  Unsigned counters are words.
  \<^item> The generic lemmas are about the idioms the sources use over and over:
    \<open>std::find\<close> followed by \<open>erase\<close>, \<open>std::find_if\<close> followed by an update through the
    iterator, and \<open>std::stable_partition\<close>.
\<close>

section \<open>Exceptions and results\<close>

datatype exn =
    logic_error string
  | runtime_error string
  | invalid_argument string
  | out_of_range string
  | client_visible_error string
  | security_check_error
  | fatal_error string

text \<open>
  \<open>client_visible_error\<close> is \<open>mir::ClientVisibleError\<close> and \<open>security_check_error\<close> is
  \<open>cookie::SecurityCheckError\<close>; both derive from \<open>std::runtime_error\<close>.  \<open>fatal_error\<close> stands for what is not an exception but ends the server: \<open>mir::fatal_error\<close>, which
  aborts by default, and a division by zero or a null pointer, which are undefined.
\<close>

type_synonym 'a result = "exn + 'a"
type_synonym ('s, 'a) outcome = "'a result \<times> 's"

text \<open>Sequencing of calls that may throw; a throw keeps what was written before it.\<close>

definition and_then :: "('s, 'a) outcome \<Rightarrow> ('a \<Rightarrow> 's \<Rightarrow> ('s, 'b) outcome) \<Rightarrow> ('s, 'b) outcome" where
  "and_then r f = (case r of (Inl e, s) \<Rightarrow> (Inl e, s) | (Inr a, s) \<Rightarrow> f a s)"

lemma and_then_simps [simp]:
  "and_then (Inl e, s) f = (Inl e, s)" "and_then (Inr a, s) f = f a s"
  by (simp_all add: and_then_def)

lemma and_then_ok:
  "and_then r f = (Inr b, s') \<longleftrightarrow> (\<exists>a s. r = (Inr a, s) \<and> f a s = (Inr b, s'))"
  by (auto simp: and_then_def split: prod.split sum.split)

section \<open>Collections of rewrite rules\<close>

named_theorems geom_defs \<open>unfolding of the geometry operations\<close>
named_theorems sched_simps \<open>facts about the buffer schedules\<close>
named_theorems arbiter_defs \<open>unfolding of the arbiter operations\<close>
named_theorems stream_defs \<open>unfolding of the stream operations\<close>
named_theorems stack_defs \<open>unfolding of the surface stack operations\<close>

section \<open>Machine integers\<close>

definition INT_MAX :: int where
  "INT_MAX = 2147483647"

definition INT_MIN :: int where
  "INT_MIN = - 2147483648"

definition int32 :: "int \<Rightarrow> bool" where
  "int32 v \<longleftrightarrow> INT_MIN \<le> v \<and> v \<le> INT_MAX"

lemmas int_limits = INT_MAX_def INT_MIN_def int32_def

section \<open>List idioms of the standard library\<close>

text \<open>
  \<open>erase_first P\<close> is \<open>find_if\<close> and then \<open>erase(it)\<close>; \<open>update_first P f\<close> is \<open>find_if\<close>
  and then a write through the iterator.  Both leave the list alone when the search fails.
\<close>

fun erase_first :: "('a \<Rightarrow> bool) \<Rightarrow> 'a list \<Rightarrow> 'a list" where
  "erase_first P [] = []"
| "erase_first P (x # xs) = (if P x then xs else x # erase_first P xs)"

fun update_first :: "('a \<Rightarrow> bool) \<Rightarrow> ('a \<Rightarrow> 'a) \<Rightarrow> 'a list \<Rightarrow> 'a list" where
  "update_first P f [] = []"
| "update_first P f (x # xs) = (if P x then f x # xs else x # update_first P f xs)"

lemma erase_first_eq_remove1: "erase_first (\<lambda>y. y = x) xs = remove1 x xs"
  by (induction xs) auto

lemma erase_first_id: "\<forall>x\<in>set xs. \<not> P x \<Longrightarrow> erase_first P xs = xs"
  by (induction xs) auto

lemma set_erase_first_subset: "set (erase_first P xs) \<subseteq> set xs"
  by (induction xs) auto

lemma map_update_first:
  "(\<And>x. g (f x) = g x) \<Longrightarrow> map g (update_first P f xs) = map g xs"
  by (induction xs) auto

lemma length_update_first [simp]: "length (update_first P f xs) = length xs"
  by (induction xs) auto

lemma update_first_Nil_iff [simp]: "update_first P f xs = [] \<longleftrightarrow> xs = []"
  by (cases xs) auto

lemma update_first_unique:
  assumes "x \<in> set (update_first (\<lambda>x. g x = k) f xs)" and "distinct (map g xs)" and "\<And>x. g (f x) = g x"
  shows "(g x = k \<and> (\<exists>y\<in>set xs. x = f y \<and> g y = k)) \<or> (g x \<noteq> k \<and> x \<in> set xs)"
  using assms(1,2)
proof (induction xs)
  case (Cons y ys)
  show ?case
  proof (cases "g y = k")
    case True
    with Cons.prems assms(3) show ?thesis by auto (metis image_eqI)
  next
    case False
    with Cons show ?thesis by auto
  qed
qed simp

lemma filter_partition_mset:
  "mset (filter (\<lambda>x. \<not> P x) xs @ filter P xs) = mset xs"
  by (induction xs) auto

end
