(* ===== verification/Identifiers.thy ===== *)
theory Identifiers
  imports Mir_Prelude
begin

text \<open>
  The tagged identifiers of \<^verbatim>\<open>include/core/mir/int_wrapper.h\<close>: a value with a phantom tag
  type, compared and ordered by the value.  The ordering is what \<open>std::map\<close> and
  \<open>std::set\<close> use, so the wrapper is an instance of \<open>linorder\<close>.
\<close>

datatype ('tag, 'v) IntWrapper = IntWrapper (as_value: 'v)

instantiation IntWrapper :: (type, linorder) linorder
begin

definition less_eq_IntWrapper :: "('a, 'b) IntWrapper \<Rightarrow> ('a, 'b) IntWrapper \<Rightarrow> bool" where
  "less_eq_IntWrapper a b \<longleftrightarrow> as_value a \<le> as_value b"

definition less_IntWrapper :: "('a, 'b) IntWrapper \<Rightarrow> ('a, 'b) IntWrapper \<Rightarrow> bool" where
  "less_IntWrapper a b \<longleftrightarrow> as_value a < as_value b"

instance
  by standard
    (auto simp: less_eq_IntWrapper_def less_IntWrapper_def intro: IntWrapper.expand)

end

datatype BufferIdTag = BufferIdTag
datatype SessionsSurfaceIdTag = SessionsSurfaceIdTag
datatype SessionsBufferStreamIdTag = SessionsBufferStreamIdTag

type_synonym BufferID = "(BufferIdTag, 32 word) IntWrapper"
type_synonym SurfaceId = "(SessionsSurfaceIdTag, int) IntWrapper"
type_synonym BufferStreamId = "(SessionsBufferStreamIdTag, int) IntWrapper"

text \<open>A compositor is identified by the address of its object (\<open>void const*\<close>).\<close>

type_synonym CompositorID = nat

end
