(* ===== verification/Geometry.thy ===== *)
theory Geometry
  imports Mir_Prelude
begin

text \<open>
  The geometry library of \<^verbatim>\<open>include/core/mir/geometry\<close> and
  \<^verbatim>\<open>src/core/geometry\<close>: points, sizes, displacements, rectangles and collections of
  rectangles.  The wrapper class \<open>IntWrapper<Tag>\<close> only keeps the compiler from mixing
  coordinates with lengths; its values are C++ ints, so \<open>X\<close>, \<open>Y\<close>, \<open>Width\<close> and the
  others are synonyms of \<open>int\<close>, and the operators the header declares are the ones used here.

  The specification is \<open>points_of\<close>, the set of pixels a rectangle covers: containment,
  overlap and intersection are proved against it, \<open>bounding_rectangle\<close> is the least
  enclosing rectangle, \<open>confine\<close> the nearest covered pixel, and the quadratic comparison of
  two collections is equality of multisets.
\<close>

section \<open>Dimensions\<close>

type_synonym X = int
type_synonym Y = int
type_synonym Width = int
type_synonym Height = int
type_synonym DeltaX = int
type_synonym DeltaY = int

definition IntWrapper_as_uint32_t :: "int \<Rightarrow> 32 word" where
  "IntWrapper_as_uint32_t v = word_of_int v"

record Point =
  pt_x :: X
  pt_y :: Y

record Size =
  width :: Width
  height :: Height

record Displacement =
  disp_dx :: DeltaX
  disp_dy :: DeltaY

record Rectangle =
  top_left :: Point
  rect_size :: Size

abbreviation mk_point :: "int \<Rightarrow> int \<Rightarrow> Point" where
  "mk_point a b \<equiv> \<lparr>pt_x = a, pt_y = b\<rparr>"

abbreviation mk_size :: "int \<Rightarrow> int \<Rightarrow> Size" where
  "mk_size w h \<equiv> \<lparr>width = w, height = h\<rparr>"

abbreviation mk_disp :: "int \<Rightarrow> int \<Rightarrow> Displacement" where
  "mk_disp a b \<equiv> \<lparr>disp_dx = a, disp_dy = b\<rparr>"

abbreviation mk_rect :: "Point \<Rightarrow> Size \<Rightarrow> Rectangle" where
  "mk_rect p s \<equiv> \<lparr>top_left = p, rect_size = s\<rparr>"

section \<open>Points and displacements\<close>

definition length_squared :: "Displacement \<Rightarrow> int" where
  [geom_defs]: "length_squared d = disp_dx d * disp_dx d + disp_dy d * disp_dy d"

definition disp_plus :: "Displacement \<Rightarrow> Displacement \<Rightarrow> Displacement" where
  [geom_defs]: "disp_plus a b = mk_disp (disp_dx a + disp_dx b) (disp_dy a + disp_dy b)"

definition disp_minus :: "Displacement \<Rightarrow> Displacement \<Rightarrow> Displacement" where
  [geom_defs]: "disp_minus a b = mk_disp (disp_dx a - disp_dx b) (disp_dy a - disp_dy b)"

definition point_plus :: "Point \<Rightarrow> Displacement \<Rightarrow> Point" where
  [geom_defs]: "point_plus p d = mk_point (pt_x p + disp_dx d) (pt_y p + disp_dy d)"

definition point_minus :: "Point \<Rightarrow> Displacement \<Rightarrow> Point" where
  [geom_defs]: "point_minus p d = mk_point (pt_x p - disp_dx d) (pt_y p - disp_dy d)"

definition point_diff :: "Point \<Rightarrow> Point \<Rightarrow> Displacement" where
  [geom_defs]: "point_diff p q = mk_disp (pt_x p - pt_x q) (pt_y p - pt_y q)"

definition disp_less :: "Displacement \<Rightarrow> Displacement \<Rightarrow> bool" where
  [geom_defs]: "disp_less a b \<longleftrightarrow> length_squared a < length_squared b"

definition point_plus_dx :: "Point \<Rightarrow> DeltaX \<Rightarrow> Point" where
  [geom_defs]: "point_plus_dx p d = mk_point (pt_x p + d) (pt_y p)"

definition point_plus_dy :: "Point \<Rightarrow> DeltaY \<Rightarrow> Point" where
  [geom_defs]: "point_plus_dy p d = mk_point (pt_x p) (pt_y p + d)"

definition as_displacement :: "Size \<Rightarrow> Displacement" where
  [geom_defs]: "as_displacement s = mk_disp (width s) (height s)"

definition as_size :: "Displacement \<Rightarrow> Size" where
  [geom_defs]: "as_size d = mk_size (disp_dx d) (disp_dy d)"

section \<open>Rectangles\<close>

definition default_rectangle :: Rectangle where
  "default_rectangle = mk_rect (mk_point 0 0) (mk_size 0 0)"

definition bottom_right :: "Rectangle \<Rightarrow> Point" where
  [geom_defs]: "bottom_right r = point_plus (top_left r) (as_displacement (rect_size r))"

definition top_right :: "Rectangle \<Rightarrow> Point" where
  [geom_defs]: "top_right r = point_plus_dx (top_left r) (width (rect_size r))"

definition bottom_left :: "Rectangle \<Rightarrow> Point" where
  [geom_defs]: "bottom_left r = point_plus_dy (top_left r) (height (rect_size r))"

definition rect_left :: "Rectangle \<Rightarrow> X" where
  [geom_defs]: "rect_left r = pt_x (top_left r)"

definition rect_right :: "Rectangle \<Rightarrow> X" where
  [geom_defs]: "rect_right r = pt_x (bottom_right r)"

definition rect_top :: "Rectangle \<Rightarrow> Y" where
  [geom_defs]: "rect_top r = pt_y (top_left r)"

definition rect_bottom :: "Rectangle \<Rightarrow> Y" where
  [geom_defs]: "rect_bottom r = pt_y (bottom_right r)"

definition contains_rect :: "Rectangle \<Rightarrow> Rectangle \<Rightarrow> bool" where
  "contains_rect a r \<longleftrightarrow>
     rect_left r \<ge> rect_left a \<and>
     rect_left r + width (rect_size r) \<le> rect_left a + width (rect_size a) \<and>
     rect_top r \<ge> rect_top a \<and>
     rect_top r + height (rect_size r) \<le> rect_top a + height (rect_size a)"

definition contains_point :: "Rectangle \<Rightarrow> Point \<Rightarrow> bool" where
  "contains_point r p \<longleftrightarrow>
     (if width (rect_size r) = 0 \<or> height (rect_size r) = 0 then False
      else let br = bottom_right r in
        pt_x p \<ge> rect_left r \<and> pt_x p < pt_x br \<and>
        pt_y p \<ge> rect_top r \<and> pt_y p < pt_y br)"

definition overlaps :: "Rectangle \<Rightarrow> Rectangle \<Rightarrow> bool" where
  "overlaps a r \<longleftrightarrow>
     \<not> (rect_left r \<ge> rect_right a \<or> rect_right r \<le> rect_left a \<or>
        rect_top r \<ge> rect_bottom a \<or> rect_bottom r \<le> rect_top a \<or>
        width (rect_size a) = 0 \<or> height (rect_size a) = 0 \<or>
        width (rect_size r) = 0 \<or> height (rect_size r) = 0)"

definition intersection_with :: "Rectangle \<Rightarrow> Rectangle \<Rightarrow> Rectangle" where
  "intersection_with a r =
     (let max_left = max (rect_left a) (rect_left r);
          min_right = min (rect_right a) (rect_right r);
          max_top = max (rect_top a) (rect_top r);
          min_bottom = min (rect_bottom a) (rect_bottom r)
      in if max_left < min_right \<and> max_top < min_bottom
         then mk_rect (mk_point max_left max_top) (mk_size (min_right - max_left) (min_bottom - max_top))
         else default_rectangle)"

section \<open>Collections of rectangles\<close>

type_synonym Rectangles = "Rectangle list"

definition Rectangles_add :: "Rectangles \<Rightarrow> Rectangle \<Rightarrow> Rectangles" where
  "Rectangles_add rs r = rs @ [r]"

definition Rectangles_remove :: "Rectangles \<Rightarrow> Rectangle \<Rightarrow> Rectangles" where
  "Rectangles_remove rs r = erase_first (\<lambda>s. s = r) rs"

definition Rectangles_clear :: "Rectangles \<Rightarrow> Rectangles" where
  "Rectangles_clear rs = []"

definition clamp :: "int \<Rightarrow> int \<Rightarrow> int \<Rightarrow> int" where
  [geom_defs]: "clamp v lo hi = min (max v lo) hi"

definition rect_from_points :: "Point \<Rightarrow> Point \<Rightarrow> Rectangle" where
  [geom_defs]: "rect_from_points tlp brp = mk_rect tlp (as_size (point_diff brp tlp))"

definition confined_to :: "Rectangle \<Rightarrow> Point \<Rightarrow> Point" where
  "confined_to r p =
     (let br = bottom_right r
      in mk_point (clamp (pt_x p) (pt_x (top_left r)) (pt_x br - 1))
                  (clamp (pt_y p) (pt_y (top_left r)) (pt_y br - 1)))"

fun confine_loop :: "Point \<Rightarrow> Rectangle list \<Rightarrow> Point \<Rightarrow> Displacement \<Rightarrow> Point" where
  "confine_loop p [] ret_point min_dp = ret_point"
| "confine_loop p (r # rs) ret_point min_dp =
     (if contains_point r p then p
      else if width (rect_size r) > 0 \<and> height (rect_size r) > 0 then
        let confined_point = confined_to r p;
            dp = point_diff confined_point p
        in if disp_less dp min_dp then confine_loop p rs confined_point dp
           else confine_loop p rs ret_point min_dp
      else confine_loop p rs ret_point min_dp)"

definition confine :: "Rectangles \<Rightarrow> Point \<Rightarrow> Point" where
  "confine rs p = confine_loop p rs p (mk_disp INT_MAX INT_MAX)"

fun bounding_loop :: "Rectangle list \<Rightarrow> Point \<Rightarrow> Point \<Rightarrow> bool \<Rightarrow> Point \<times> Point" where
  "bounding_loop [] tlp brp points_initialized = (tlp, brp)"
| "bounding_loop (r # rs) tlp brp points_initialized =
     (let rtl = top_left r; rbr = bottom_right r
      in if \<not> points_initialized then bounding_loop rs rtl rbr True
         else bounding_loop rs
                (mk_point (min (pt_x rtl) (pt_x tlp)) (min (pt_y rtl) (pt_y tlp)))
                (mk_point (max (pt_x rbr) (pt_x brp)) (max (pt_y rbr) (pt_y brp))) True)"

definition bounding_rectangle :: "Rectangles \<Rightarrow> Rectangle" where
  "bounding_rectangle rs =
     (if length rs = 0 then default_rectangle
      else let (tlp, brp) = bounding_loop rs (mk_point 0 0) (mk_point 0 0) False
           in rect_from_points tlp brp)"

fun use_element :: "Rectangle \<Rightarrow> Rectangle list \<Rightarrow> bool list \<Rightarrow> bool list option" where
  "use_element r (s # ss) (u # us) =
     (if \<not> u \<and> s = r then Some (True # us)
      else map_option (Cons u) (use_element r ss us))"
| "use_element r _ _ = None"

fun eq_loop :: "Rectangle list \<Rightarrow> Rectangle list \<Rightarrow> bool list \<Rightarrow> bool" where
  "eq_loop [] others element_used = True"
| "eq_loop (r # rs) others element_used =
     (case use_element r others element_used of
        None \<Rightarrow> False
      | Some element_used' \<Rightarrow> eq_loop rs others element_used')"

definition Rectangles_eq :: "Rectangles \<Rightarrow> Rectangles \<Rightarrow> bool" where
  "Rectangles_eq a b \<longleftrightarrow>
     (if length a \<noteq> length b then False
      else eq_loop a b (replicate (length a) False))"

section \<open>The pixels of a rectangle\<close>

definition points_of :: "Rectangle \<Rightarrow> Point set" where
  "points_of r = {p. rect_left r \<le> pt_x p \<and> pt_x p < rect_right r \<and>
                     rect_top r \<le> pt_y p \<and> pt_y p < rect_bottom r}"

definition rect_nonneg :: "Rectangle \<Rightarrow> bool" where
  "rect_nonneg r \<longleftrightarrow> 0 \<le> width (rect_size r) \<and> 0 \<le> height (rect_size r)"

definition rect_in_range :: "Rectangle \<Rightarrow> bool" where
  "rect_in_range r \<longleftrightarrow> int32 (rect_left r) \<and> int32 (rect_top r) \<and>
     int32 (width (rect_size r)) \<and> int32 (height (rect_size r)) \<and>
     int32 (rect_right r) \<and> int32 (rect_bottom r)"

lemma rect_right_eq [simp]: "rect_right r = rect_left r + width (rect_size r)"
  by (simp add: geom_defs)

lemma rect_bottom_eq [simp]: "rect_bottom r = rect_top r + height (rect_size r)"
  by (simp add: geom_defs)

lemma rect_left_mk [simp]: "rect_left (mk_rect p s) = pt_x p"
  by (simp add: geom_defs)

lemma rect_top_mk [simp]: "rect_top (mk_rect p s) = pt_y p"
  by (simp add: geom_defs)

lemma bottom_right_eq: "bottom_right r = mk_point (rect_right r) (rect_bottom r)"
  by (simp add: geom_defs)

lemma top_left_eq: "top_left r = mk_point (rect_left r) (rect_top r)"
  by (simp add: geom_defs)

lemma rect_eqI:
  "\<lbrakk>rect_left a = rect_left b; rect_top a = rect_top b;
    width (rect_size a) = width (rect_size b); height (rect_size a) = height (rect_size b)\<rbrakk>
   \<Longrightarrow> a = (b :: Rectangle)"
  by (cases a, cases b) (auto simp: geom_defs intro: Point.equality Size.equality)

lemma contains_point_points_of: "contains_point r p \<longleftrightarrow> p \<in> points_of r"
  by (auto simp: contains_point_def points_of_def bottom_right_eq Let_def)

lemma points_of_nonempty_iff:
  "points_of r \<noteq> {} \<longleftrightarrow> 0 < width (rect_size r) \<and> 0 < height (rect_size r)"
proof
  assume "0 < width (rect_size r) \<and> 0 < height (rect_size r)"
  then have "mk_point (rect_left r) (rect_top r) \<in> points_of r"
    by (simp add: points_of_def)
  then show "points_of r \<noteq> {}" by blast
qed (auto simp: points_of_def)

lemma default_rectangle_points [simp]: "points_of default_rectangle = {}"
  by (auto simp: points_of_def default_rectangle_def)

lemma contains_rect_refl: "contains_rect r r"
  by (simp add: contains_rect_def)

lemma contains_rect_trans:
  "\<lbrakk>contains_rect a b; contains_rect b c\<rbrakk> \<Longrightarrow> contains_rect a c"
  by (auto simp: contains_rect_def)

lemma contains_rect_points_of:
  assumes "0 < width (rect_size r)" and "0 < height (rect_size r)"
  shows "contains_rect a r \<longleftrightarrow> points_of r \<subseteq> points_of a"
proof
  assume "contains_rect a r"
  then show "points_of r \<subseteq> points_of a"
    by (auto simp: contains_rect_def points_of_def)
next
  assume sub: "points_of r \<subseteq> points_of a"
  let ?tl = "mk_point (rect_left r) (rect_top r)"
  let ?br = "mk_point (rect_right r - 1) (rect_bottom r - 1)"
  have "?tl \<in> points_of r" and "?br \<in> points_of r"
    using assms by (auto simp: points_of_def)
  then have "?tl \<in> points_of a" and "?br \<in> points_of a"
    using sub by blast+
  then show "contains_rect a r"
    by (auto simp: contains_rect_def points_of_def)
qed

lemma intersection_points_of:
  "points_of (intersection_with a r) = points_of a \<inter> points_of r"
  by (auto simp: intersection_with_def points_of_def Let_def default_rectangle_def
      split: if_splits)

lemma intersection_nonneg: "rect_nonneg (intersection_with a r)"
  by (auto simp: intersection_with_def rect_nonneg_def default_rectangle_def Let_def)

lemma intersection_default_iff:
  "intersection_with a r = default_rectangle \<longleftrightarrow> points_of a \<inter> points_of r = {}"
proof
  assume "intersection_with a r = default_rectangle"
  then show "points_of a \<inter> points_of r = {}"
    using intersection_points_of [of a r] by simp
next
  assume "points_of a \<inter> points_of r = {}"
  then have "points_of (intersection_with a r) = {}"
    by (simp add: intersection_points_of)
  then have "\<not> (0 < width (rect_size (intersection_with a r)) \<and>
                 0 < height (rect_size (intersection_with a r)))"
    using points_of_nonempty_iff by blast
  then show "intersection_with a r = default_rectangle"
    by (auto simp: intersection_with_def Let_def split: if_splits)
qed

lemma intersection_positive:
  "intersection_with a r \<noteq> default_rectangle \<Longrightarrow>
   0 < width (rect_size (intersection_with a r)) \<and> 0 < height (rect_size (intersection_with a r))"
  by (auto simp: intersection_with_def Let_def split: if_splits)

section \<open>Containment, overlap and intersection\<close>

lemma overlaps_points_of:
  assumes "rect_nonneg a" and "rect_nonneg r"
  shows "overlaps a r \<longleftrightarrow> points_of a \<inter> points_of r \<noteq> {}"
proof -
  have "points_of a \<inter> points_of r = points_of (intersection_with a r)"
    by (simp add: intersection_points_of)
  also have "\<dots> \<noteq> {} \<longleftrightarrow> overlaps a r"
    using assms unfolding points_of_nonempty_iff
    by (auto simp: overlaps_def intersection_with_def Let_def default_rectangle_def rect_nonneg_def)
  finally show ?thesis by blast
qed

lemma intersection_contained:
  "intersection_with a r \<noteq> default_rectangle \<Longrightarrow>
   contains_rect a (intersection_with a r) \<and> contains_rect r (intersection_with a r)"
  by (auto simp: intersection_with_def contains_rect_def Let_def split: if_splits)

lemma intersection_in_range:
  assumes "rect_in_range a" and "rect_in_range r" and "rect_nonneg a" and "rect_nonneg r"
  shows "rect_in_range (intersection_with a r)"
  using assms
  by (auto simp: rect_in_range_def rect_nonneg_def intersection_with_def default_rectangle_def
      int_limits Let_def)

section \<open>The bounding rectangle\<close>

lemma bounding_loop_enclosing:
  assumes "bounding_loop rs tlp brp True = (tl', br')"
  shows "pt_x tl' \<le> pt_x tlp \<and> pt_y tl' \<le> pt_y tlp \<and> pt_x brp \<le> pt_x br' \<and> pt_y brp \<le> pt_y br' \<and>
         (\<forall>r\<in>set rs. contains_rect (rect_from_points tl' br') r)"
  using assms
proof (induction rs arbitrary: tlp brp)
  case Nil
  then show ?case by simp
next
  case (Cons r rs)
  then have "bounding_loop rs (mk_point (min (rect_left r) (pt_x tlp)) (min (rect_top r) (pt_y tlp)))
       (mk_point (max (rect_right r) (pt_x brp)) (max (rect_bottom r) (pt_y brp))) True = (tl', br')"
    by (simp add: bottom_right_eq Let_def geom_defs)
  from Cons.IH [OF this] show ?case
    by (auto simp: contains_rect_def rect_from_points_def point_diff_def as_size_def)
qed

lemma bounding_loop_least:
  assumes "bounding_loop rs tlp brp True = (tl', br')" and "\<forall>r\<in>set rs. contains_rect b r"
    and "rect_left b \<le> pt_x tlp" "rect_top b \<le> pt_y tlp" "pt_x brp \<le> rect_right b" "pt_y brp \<le> rect_bottom b"
  shows "contains_rect b (rect_from_points tl' br')"
  using assms
proof (induction rs arbitrary: tlp brp)
  case Nil
  then show ?case
    by (auto simp: contains_rect_def rect_from_points_def point_diff_def as_size_def)
next
  case (Cons r rs)
  from Cons.prems(2) have "contains_rect b r" by simp
  with Cons.prems show ?case
    by (intro Cons.IH [of "mk_point (min (rect_left r) (pt_x tlp)) (min (rect_top r) (pt_y tlp))"
          "mk_point (max (rect_right r) (pt_x brp)) (max (rect_bottom r) (pt_y brp))"])
       (auto simp: bottom_right_eq Let_def contains_rect_def rect_left_def rect_top_def)
qed

lemma bounding_rectangle_Cons:
  "bounding_rectangle (r # rs) =
     (let (tlp, brp) = bounding_loop rs (top_left r) (bottom_right r) True in rect_from_points tlp brp)"
  by (simp add: bounding_rectangle_def Let_def)

lemma bounding_rectangle_encloses:
  assumes "r \<in> set rs"
  shows "contains_rect (bounding_rectangle rs) r"
proof -
  obtain q qs where rs: "rs = q # qs" using assms by (cases rs) auto
  obtain tl' br' where loop: "bounding_loop qs (top_left q) (bottom_right q) True = (tl', br')"
    by fastforce
  from bounding_loop_enclosing [OF loop] have "contains_rect (rect_from_points tl' br') q"
    by (auto simp: contains_rect_def rect_from_points_def point_diff_def as_size_def
        bottom_right_eq rect_left_def rect_top_def)
  with bounding_loop_enclosing [OF loop] assms show ?thesis
    unfolding rs bounding_rectangle_Cons loop by auto
qed

lemma bounding_rectangle_least:
  assumes "rs \<noteq> []" and "\<forall>r\<in>set rs. contains_rect b r"
  shows "contains_rect b (bounding_rectangle rs)"
proof -
  obtain q qs where rs: "rs = q # qs" using assms(1) by (cases rs) auto
  obtain tl' br' where loop: "bounding_loop qs (top_left q) (bottom_right q) True = (tl', br')"
    by fastforce
  have q: "contains_rect b q" using assms(2) rs by simp
  have "contains_rect b (rect_from_points tl' br')"
  proof (rule bounding_loop_least [OF loop])
    show "\<forall>r\<in>set qs. contains_rect b r" using assms(2) rs by simp
  qed (use q in \<open>auto simp: contains_rect_def bottom_right_eq rect_left_def rect_top_def\<close>)
  then show ?thesis unfolding rs bounding_rectangle_Cons loop by simp
qed

section \<open>Confining a point\<close>

abbreviation dist2 :: "Point \<Rightarrow> Point \<Rightarrow> int" where
  "dist2 q p \<equiv> length_squared (point_diff q p)"

lemma clamp_nearest:
  "\<lbrakk>lo \<le> hi; lo \<le> v; v \<le> hi\<rbrakk> \<Longrightarrow> \<bar>clamp x lo hi - x\<bar> \<le> \<bar>v - x\<bar>"
  by (auto simp: clamp_def)

lemma clamp_bounds: "lo \<le> hi \<Longrightarrow> lo \<le> clamp x lo hi \<and> clamp x lo hi \<le> hi"
  by (auto simp: clamp_def)

lemma abs_le_square: "\<bar>a\<bar> \<le> \<bar>b\<bar> \<Longrightarrow> a * a \<le> b * (b :: int)"
  by (metis abs_ge_zero abs_mult_self_eq mult_mono)

lemma confined_to_inside:
  "\<lbrakk>0 < width (rect_size r); 0 < height (rect_size r)\<rbrakk> \<Longrightarrow> confined_to r p \<in> points_of r"
  using clamp_bounds [of "rect_left r" "rect_right r - 1" "pt_x p"]
    clamp_bounds [of "rect_top r" "rect_bottom r - 1" "pt_y p"]
  by (auto simp: confined_to_def points_of_def bottom_right_eq Let_def rect_left_def rect_top_def)

lemma confined_to_nearest:
  assumes "q \<in> points_of r"
  shows "dist2 (confined_to r p) p \<le> dist2 q p"
proof -
  from assms have b: "rect_left r \<le> pt_x q" "pt_x q \<le> rect_right r - 1"
      "rect_top r \<le> pt_y q" "pt_y q \<le> rect_bottom r - 1"
    by (auto simp: points_of_def)
  have "\<bar>clamp (pt_x p) (rect_left r) (rect_right r - 1) - pt_x p\<bar> \<le> \<bar>pt_x q - pt_x p\<bar>"
    using b by (intro clamp_nearest) auto
  moreover have "\<bar>clamp (pt_y p) (rect_top r) (rect_bottom r - 1) - pt_y p\<bar> \<le> \<bar>pt_y q - pt_y p\<bar>"
    using b by (intro clamp_nearest) auto
  ultimately show ?thesis
    by (auto simp: confined_to_def length_squared_def point_diff_def bottom_right_eq Let_def
        top_left_eq intro!: add_mono abs_le_square)
qed

lemma confine_loop_inside: "p \<in> points_of r \<Longrightarrow> confine_loop p (r # rs) ret m = p"
  by (simp add: contains_point_points_of)

lemma confine_loop_empty:
  "points_of r = {} \<Longrightarrow> confine_loop p (r # rs) ret m = confine_loop p rs ret m"
  using points_of_nonempty_iff [of r] by (auto simp: contains_point_points_of)

lemma confine_loop_outside:
  "\<lbrakk>p \<notin> points_of r; points_of r \<noteq> {}\<rbrakk> \<Longrightarrow>
   confine_loop p (r # rs) ret m =
     (if dist2 (confined_to r p) p < length_squared m
      then confine_loop p rs (confined_to r p) (point_diff (confined_to r p) p)
      else confine_loop p rs ret m)"
  by (simp add: contains_point_points_of points_of_nonempty_iff disp_less_def Let_def)

lemma dist2_self: "dist2 p p \<le> dist2 q p"
  by (simp add: length_squared_def point_diff_def)

declare confine_loop.simps(2) [simp del]

text \<open>
  The loop invariant, once a candidate has been found: what the loop returns is never farther
  away than the best candidate so far, nor than any pixel of the rectangles still to come.
\<close>

lemma confine_loop_nearest_candidate:
  "dist2 (confine_loop p rs ret (point_diff ret p)) p \<le> dist2 ret p \<and>
   (\<forall>r\<in>set rs. \<forall>q\<in>points_of r. dist2 (confine_loop p rs ret (point_diff ret p)) p \<le> dist2 q p)"
proof (induction rs arbitrary: ret)
  case Nil
  then show ?case by simp
next
  case (Cons r rs)
  let ?c = "confined_to r p"
  consider (inside) "p \<in> points_of r" | (empty) "points_of r = {}"
    | (outside) "p \<notin> points_of r" "points_of r \<noteq> {}" by blast
  then show ?case
  proof cases
    case inside
    then show ?thesis using dist2_self [of p] by (auto simp: confine_loop_inside)
  next
    case empty
    then show ?thesis using Cons.IH [of ret] by (simp add: confine_loop_empty)
  next
    case outside
    show ?thesis
      using Cons.IH [of ret] Cons.IH [of ?c] confined_to_nearest [of _ r p]
      by (fastforce simp: confine_loop_outside [OF outside])
  qed
qed

lemma confine_loop_nearest:
  assumes "\<forall>r\<in>set rs. \<forall>q\<in>points_of r. dist2 q p < length_squared m" and "r \<in> set rs" "q \<in> points_of r"
  shows "dist2 (confine_loop p rs ret m) p \<le> dist2 q p"
  using assms
proof (induction rs)
  case Nil
  then show ?case by simp
next
  case (Cons s rs)
  let ?c = "confined_to s p"
  consider (inside) "p \<in> points_of s" | (empty) "points_of s = {}"
    | (outside) "p \<notin> points_of s" "points_of s \<noteq> {}" by blast
  then show ?case
  proof cases
    case inside
    then show ?thesis using dist2_self [of p] by (auto simp: confine_loop_inside)
  next
    case empty
    then show ?thesis using Cons by (auto simp: confine_loop_empty)
  next
    case outside
    then have "?c \<in> points_of s"
      by (simp add: confined_to_inside points_of_nonempty_iff)
    then have "dist2 ?c p < length_squared m"
      using Cons.prems(1) by simp
    then show ?thesis
      using confine_loop_nearest_candidate [of p rs ?c] confined_to_nearest [of q s p] Cons.prems(2,3)
      by (fastforce simp: confine_loop_outside [OF outside])
  qed
qed

lemma confine_loop_source:
  "confine_loop p rs ret m \<in> insert ret (\<Union>r\<in>set rs. points_of r)"
proof (induction rs arbitrary: ret m)
  case (Cons r rs)
  show ?case
  proof (cases "points_of r = {} \<or> p \<in> points_of r")
    case True
    then show ?thesis using Cons [of ret m] by (auto simp: confine_loop_empty confine_loop_inside)
  next
    case False
    then have "confined_to r p \<in> points_of r"
      by (simp add: confined_to_inside points_of_nonempty_iff)
    with False show ?thesis
      using Cons [of ret m] Cons [of "confined_to r p" "point_diff (confined_to r p) p"]
      by (auto simp: confine_loop_outside)
  qed
qed simp

lemma confine_loop_fixed:
  "p \<in> (\<Union>r\<in>set rs. points_of r) \<Longrightarrow> confine_loop p rs ret m = p"
  by (induction rs arbitrary: ret m)
    (auto simp: confine_loop.simps(2) contains_point_points_of Let_def)

lemma confine_loop_hits:
  assumes "\<forall>r\<in>set rs. \<forall>q\<in>points_of r. dist2 q p < length_squared m"
    and "r \<in> set rs" and "points_of r \<noteq> {}"
  shows "confine_loop p rs ret m \<in> (\<Union>r\<in>set rs. points_of r)"
  using assms
proof (induction rs)
  case (Cons s rs)
  let ?c = "confined_to s p"
  show ?case
  proof (cases "points_of s = {} \<or> p \<in> points_of s")
    case True
    then show ?thesis using Cons by (auto simp: confine_loop_empty confine_loop_inside)
  next
    case False
    then have c: "?c \<in> points_of s" by (simp add: confined_to_inside points_of_nonempty_iff)
    then have "dist2 ?c p < length_squared m" using Cons.prems(1) by simp
    then have "confine_loop p (s # rs) ret m = confine_loop p rs ?c (point_diff ?c p)"
      using False by (simp add: confine_loop_outside)
    then show ?thesis
      using confine_loop_source [of p rs ?c "point_diff ?c p"] c by auto
  qed
qed simp

section \<open>Comparing two collections\<close>

text \<open>The elements of the other collection not yet matched.\<close>

definition unused :: "Rectangle list \<Rightarrow> bool list \<Rightarrow> Rectangle list" where
  "unused ss us = map fst (filter (\<lambda>(s, u). \<not> u) (zip ss us))"

lemma unused_Nil [simp]: "unused [] us = []" "unused ss [] = []"
  by (simp_all add: unused_def)

lemma unused_Cons [simp]: "unused (s # ss) (u # us) = (if u then unused ss us else s # unused ss us)"
  by (simp add: unused_def)

lemma use_element_None:
  "length ss = length us \<Longrightarrow> use_element r ss us = None \<longleftrightarrow> r \<notin> set (unused ss us)"
  by (induction ss us rule: list_induct2) auto

lemma use_element_Some:
  "\<lbrakk>length ss = length us; use_element r ss us = Some us'\<rbrakk> \<Longrightarrow>
   length us' = length us \<and> mset (unused ss us) = add_mset r (mset (unused ss us'))"
  by (induction ss us arbitrary: us' rule: list_induct2) (auto split: if_splits)

lemma eq_loop_subset:
  "length ss = length us \<Longrightarrow> eq_loop rs ss us \<longleftrightarrow> mset rs \<subseteq># mset (unused ss us)"
proof (induction rs arbitrary: us)
  case (Cons r rs)
  show ?case
  proof (cases "use_element r ss us")
    case None
    with Cons.prems have "r \<notin># mset (unused ss us)"
      by (simp add: use_element_None)
    then show ?thesis using None by (auto dest: mset_subset_eqD)
  next
    case (Some us')
    with Cons.prems have "length us' = length us" "mset (unused ss us) = add_mset r (mset (unused ss us'))"
      using use_element_Some by blast+
    then show ?thesis using Some Cons by simp
  qed
qed simp

lemma unused_all: "unused ss (replicate (length ss) False) = ss"
  by (induction ss) auto

lemma Rectangles_eq_mset: "Rectangles_eq a b \<longleftrightarrow> mset a = mset b"
proof (cases "length a = length b")
  case True
  then have "Rectangles_eq a b \<longleftrightarrow> mset a \<subseteq># mset b"
    by (simp add: Rectangles_eq_def eq_loop_subset unused_all)
  also have "\<dots> \<longleftrightarrow> mset a = mset b"
    using True by (auto simp: subset_mset.le_less dest: mset_subset_size)
  finally show ?thesis .
next
  case False
  then show ?thesis by (auto simp: Rectangles_eq_def dest: mset_eq_length)
qed

section \<open>Properties\<close>

text \<open>
  The intersection of two rectangles covers exactly the pixels both cover; for rectangles
  of non-negative size, \<open>overlaps\<close> says whether there is such a pixel, and then the
  intersection is a non-empty rectangle contained in both.
\<close>

theorem intersection_correct:
  assumes "rect_nonneg a" and "rect_nonneg r"
  shows "points_of (intersection_with a r) = points_of a \<inter> points_of r \<and>
         overlaps a r = (points_of a \<inter> points_of r \<noteq> {}) \<and>
         overlaps a r = (intersection_with a r \<noteq> default_rectangle) \<and>
         (overlaps a r \<longrightarrow> contains_rect a (intersection_with a r) \<and> contains_rect r (intersection_with a r))"
  using overlaps_points_of [OF assms] intersection_default_iff intersection_contained
    intersection_points_of by blast

theorem intersection_correct_witness:
  "points_of (intersection_with (mk_rect (mk_point 0 0) (mk_size 4 4)) (mk_rect (mk_point 2 1) (mk_size 5 2))) =
   points_of (mk_rect (mk_point 0 0) (mk_size 4 4)) \<inter> points_of (mk_rect (mk_point 2 1) (mk_size 5 2))"
  using intersection_correct [of "mk_rect (mk_point 0 0) (mk_size 4 4)" "mk_rect (mk_point 2 1) (mk_size 5 2)"]
  by (simp add: rect_nonneg_def)

text \<open>
  \<open>bounding_rectangle\<close> of a non-empty collection contains every rectangle of it and is
  contained in every rectangle that does.
\<close>

theorem bounding_rectangle_correct:
  assumes "rs \<noteq> []"
  shows "(\<forall>r\<in>set rs. contains_rect (bounding_rectangle rs) r) \<and>
         (\<forall>b. (\<forall>r\<in>set rs. contains_rect b r) \<longrightarrow> contains_rect b (bounding_rectangle rs))"
  using assms bounding_rectangle_encloses bounding_rectangle_least by blast

theorem bounding_rectangle_correct_witness:
  "contains_rect
     (bounding_rectangle [mk_rect (mk_point 0 0) (mk_size 2 2), mk_rect (mk_point 5 1) (mk_size 1 4)])
     (mk_rect (mk_point 5 1) (mk_size 1 4))"
  using bounding_rectangle_correct
    [of "[mk_rect (mk_point 0 0) (mk_size 2 2), mk_rect (mk_point 5 1) (mk_size 1 4)]"] by simp

text \<open>
  Confining a point to a collection that covers some pixel gives a covered pixel, no covered
  pixel is nearer, and a point that is already covered does not move.  The coordinates are
  those of a desktop whose extent is below \<open>INT_MAX\<close>, which is the starting distance of
  the search.
\<close>

theorem confine_correct:
  assumes "\<exists>r\<in>set rs. points_of r \<noteq> {}"
    and "\<forall>r\<in>set rs. \<forall>q\<in>points_of r. \<bar>pt_x q - pt_x p\<bar> < INT_MAX \<and> \<bar>pt_y q - pt_y p\<bar> < INT_MAX"
  shows "confine rs p \<in> (\<Union>r\<in>set rs. points_of r) \<and>
         (\<forall>r\<in>set rs. \<forall>q\<in>points_of r. dist2 (confine rs p) p \<le> dist2 q p) \<and>
         (p \<in> (\<Union>r\<in>set rs. points_of r) \<longrightarrow> confine rs p = p)"
proof -
  have near: "\<forall>r\<in>set rs. \<forall>q\<in>points_of r. dist2 q p < length_squared (mk_disp INT_MAX INT_MAX)"
  proof (intro ballI)
    fix r q assume "r \<in> set rs" "q \<in> points_of r"
    with assms(2) have "\<bar>pt_x q - pt_x p\<bar> < INT_MAX" "\<bar>pt_y q - pt_y p\<bar> < INT_MAX" by auto
    then have "(pt_x q - pt_x p) * (pt_x q - pt_x p) < INT_MAX * INT_MAX"
      and "(pt_y q - pt_y p) * (pt_y q - pt_y p) < INT_MAX * INT_MAX"
      by (metis abs_mult_less abs_mult_self_eq)+
    then show "dist2 q p < length_squared (mk_disp INT_MAX INT_MAX)"
      by (simp add: length_squared_def point_diff_def)
  qed
  obtain r where r: "r \<in> set rs" "points_of r \<noteq> {}" using assms(1) by blast
  show ?thesis
    unfolding confine_def
    using confine_loop_hits [OF near r] confine_loop_nearest [OF near] confine_loop_fixed [of p rs]
    by (intro conjI) simp_all
qed

theorem confine_correct_witness:
  "confine [mk_rect (mk_point 0 0) (mk_size 2 1)] (mk_point 9 9)
     \<in> points_of (mk_rect (mk_point 0 0) (mk_size 2 1))"
proof -
  let ?r = "mk_rect (mk_point 0 0) (mk_size 2 1)"
  have "points_of ?r \<noteq> {}" by (simp add: points_of_nonempty_iff)
  moreover have "\<forall>q\<in>points_of ?r. \<bar>pt_x q - 9\<bar> < INT_MAX \<and> \<bar>pt_y q - 9\<bar> < INT_MAX"
    by (auto simp: points_of_def INT_MAX_def)
  ultimately show ?thesis using confine_correct [of "[?r]" "mk_point 9 9"] by simp
qed

text \<open>
  Comparing two collections with \<open>==\<close> (the loop that marks used elements) is equality of
  the two collections as multisets, whatever their order and duplicates.
\<close>

theorem Rectangles_eq_correct: "Rectangles_eq a b = (mset a = mset b)"
  by (rule Rectangles_eq_mset)

end
