(* ===== verification/Buffer_Map.thy ===== *)
theory Buffer_Map
  imports Identifiers Geometry
begin

text \<open>
  \<open>BufferMap\<close> of \<^verbatim>\<open>src/server/compositor/buffer_map.cpp\<close>: the buffers a client has
  allocated, each owned by the client or by the server, and the messages about them sent to the
  client through the \<open>BufferSink\<close>.  A \<open>shared_ptr<Buffer>\<close> is the record \<open>Buffer\<close>: its
  address makes different objects different and its other fields never change, so pointer equality
  is equality of records.  The sink is reached through a weak pointer (\<open>sink_alive\<close>); whether
  its \<open>add_buffer\<close> throws is a parameter of \<open>add_buffer\<close>.
\<close>

record Buffer =
  buf_addr :: nat
  buf_id :: BufferID
  buf_size :: Size
  buf_format :: nat

datatype Owner = Owner_server | Owner_client

record MapEntry =
  entry_buffer :: Buffer
  entry_owner :: Owner

datatype SinkEvent =
    Sink_add_buffer Buffer
  | Sink_remove_buffer Buffer
  | Sink_update_buffer Buffer
  | Sink_error_buffer Size nat string

record BufferMap =
  buffers :: "BufferID \<rightharpoonup> MapEntry"
  sink_alive :: bool
  sink_log :: "SinkEvent list"

fun what :: "exn \<Rightarrow> string" where
  "what (logic_error s) = s"
| "what (runtime_error s) = s"
| "what (invalid_argument s) = s"
| "what (out_of_range s) = s"
| "what (client_visible_error s) = s"
| "what security_check_error = ''Invalid Cookie''"
| "what (fatal_error s) = s"

definition to_sink :: "SinkEvent \<Rightarrow> BufferMap \<Rightarrow> BufferMap" where
  "to_sink ev m = (if sink_alive m then m\<lparr>sink_log := sink_log m @ [ev]\<rparr> else m)"

definition checked_buffers_find :: "BufferMap \<Rightarrow> BufferID \<Rightarrow> MapEntry result" where
  "checked_buffers_find m i =
     (case buffers m i of
        None \<Rightarrow> Inl (logic_error ''cannot find buffer by id'')
      | Some e \<Rightarrow> Inr e)"

definition add_buffer :: "(Buffer \<Rightarrow> exn option) \<Rightarrow> BufferMap \<Rightarrow> Buffer \<Rightarrow> (BufferMap, BufferID) outcome" where
  "add_buffer sink_add m b =
     (let m1 = m\<lparr>buffers := (buffers m)(buf_id b \<mapsto> \<lparr>entry_buffer = b, entry_owner = Owner_client\<rparr>)\<rparr>
      in case (if sink_alive m1 then sink_add b else None) of
           None \<Rightarrow> (Inr (buf_id b), to_sink (Sink_add_buffer b) m1)
         | Some e \<Rightarrow> (Inl e, to_sink (Sink_error_buffer (buf_size b) (buf_format b) (what e)) m1))"

definition remove_buffer :: "BufferMap \<Rightarrow> BufferID \<Rightarrow> (BufferMap, unit) outcome" where
  "remove_buffer m i =
     (case checked_buffers_find m i of
        Inl e \<Rightarrow> (Inl e, m)
      | Inr entry \<Rightarrow>
          (let m1 = to_sink (Sink_remove_buffer (entry_buffer entry)) m
           in (Inr (), m1\<lparr>buffers := (buffers m1)(i := None)\<rparr>)))"

definition send_buffer :: "BufferMap \<Rightarrow> BufferID \<Rightarrow> BufferMap" where
  "send_buffer m i =
     (case buffers m i of
        None \<Rightarrow> m
      | Some e \<Rightarrow>
          to_sink (Sink_update_buffer (entry_buffer e))
            (m\<lparr>buffers := (buffers m)(i \<mapsto> e\<lparr>entry_owner := Owner_client\<rparr>)\<rparr>))"

definition receive_buffer :: "BufferMap \<Rightarrow> BufferID \<Rightarrow> BufferMap" where
  "receive_buffer m i =
     (case buffers m i of
        None \<Rightarrow> m
      | Some e \<Rightarrow> m\<lparr>buffers := (buffers m)(i \<mapsto> e\<lparr>entry_owner := Owner_server\<rparr>)\<rparr>)"

definition buffer_at :: "BufferMap \<Rightarrow> BufferID \<Rightarrow> Buffer result" where
  "buffer_at m i = map_sum id entry_buffer (checked_buffers_find m i)"

section \<open>Ownership\<close>

definition owner_of :: "BufferMap \<Rightarrow> BufferID \<Rightarrow> Owner option" where
  "owner_of m i = map_option entry_owner (buffers m i)"

definition buffer_of :: "BufferMap \<Rightarrow> BufferID \<Rightarrow> Buffer option" where
  "buffer_of m i = map_option entry_buffer (buffers m i)"

definition send_all :: "BufferMap \<Rightarrow> BufferID list \<Rightarrow> BufferMap" where
  "send_all m is = fold (\<lambda>i m. send_buffer m i) is m"

lemma to_sink_buffers [simp]: "buffers (to_sink ev m) = buffers m"
  by (simp add: to_sink_def)

lemma owner_of_to_sink [simp]: "owner_of (to_sink ev m) i = owner_of m i"
  by (simp add: owner_of_def)

lemma owner_of_send:
  "owner_of (send_buffer m i) j = (if j = i then map_option (\<lambda>_. Owner_client) (owner_of m j) else owner_of m j)"
  by (auto simp: send_buffer_def owner_of_def split: option.splits)

lemma buffer_of_send [simp]: "buffer_of (send_buffer m i) j = buffer_of m j"
  by (auto simp: send_buffer_def buffer_of_def split: option.splits)

lemma owner_of_receive:
  "owner_of (receive_buffer m i) j = (if j = i then map_option (\<lambda>_. Owner_server) (owner_of m j) else owner_of m j)"
  by (auto simp: receive_buffer_def owner_of_def split: option.splits)

lemma buffer_of_receive [simp]: "buffer_of (receive_buffer m i) j = buffer_of m j"
  by (auto simp: receive_buffer_def buffer_of_def split: option.splits)

lemma send_all_Nil [simp]: "send_all m [] = m"
  by (simp add: send_all_def)

lemma send_all_Cons [simp]: "send_all m (i # is) = send_all (send_buffer m i) is"
  by (simp add: send_all_def)

lemma send_all_append: "send_all m (is @ js) = send_all (send_all m is) js"
  by (simp add: send_all_def)

lemma owner_of_send_all:
  "owner_of (send_all m is) j =
     (if j \<in> set is then map_option (\<lambda>_. Owner_client) (owner_of m j) else owner_of m j)"
  by (induction "is" arbitrary: m) (auto simp: owner_of_send option.map_comp comp_def)

lemma buffer_of_send_all [simp]: "buffer_of (send_all m is) j = buffer_of m j"
  by (induction "is" arbitrary: m) auto

lemma buffer_at_buffer_of:
  "buffer_at m i = (case buffer_of m i of None \<Rightarrow> Inl (logic_error ''cannot find buffer by id'') | Some b \<Rightarrow> Inr b)"
  by (simp add: buffer_at_def checked_buffers_find_def buffer_of_def split: option.splits)

lemma owner_of_add:
  "owner_of (snd (add_buffer sink_add m b)) i = (if i = buf_id b then Some Owner_client else owner_of m i)"
  by (auto simp: add_buffer_def owner_of_def Let_def split: option.splits)

lemma owner_of_remove:
  "owner_of (snd (remove_buffer m i)) j = (if j = i then None else owner_of m j)"
  by (auto simp: remove_buffer_def checked_buffers_find_def owner_of_def Let_def split: option.splits)

end
