(* ===== verification/Schedules.thy ===== *)
theory Schedules
  imports Buffer_Map
begin

text \<open>
  The two ways a stream holds submitted buffers until they are composited:
  \<open>QueueingSchedule\<close> keeps all of them in order, \<open>DroppingSchedule\<close> only the latest and
  sends the one it replaces back to the client.  The abstract class \<open>Schedule\<close> is the locale
  \<open>schedule_contract\<close>; both classes and the virtual dispatch over them interpret it.

  Sizes of containers are natural numbers: a queue of \<open>2 ^ 32\<close> entries, where
  \<open>num_scheduled\<close> would wrap, needs as many live buffer objects.
\<close>

section \<open>QueueingSchedule\<close>

definition queueing_schedule :: "Buffer list \<Rightarrow> BufferMap \<Rightarrow> Buffer \<Rightarrow> Buffer list \<times> BufferMap" where
  "queueing_schedule queue m b =
     ((if b \<in> set queue then erase_first (\<lambda>x. x = b) queue else queue) @ [b], m)"

definition queueing_num_scheduled :: "Buffer list \<Rightarrow> nat" where
  "queueing_num_scheduled queue = length queue"

definition queueing_next_buffer :: "Buffer list \<Rightarrow> (Buffer list, Buffer) outcome" where
  "queueing_next_buffer queue =
     (case queue of
        [] \<Rightarrow> (Inl (logic_error ''no buffer scheduled''), queue)
      | b # rest \<Rightarrow> (Inr b, rest))"

section \<open>DroppingSchedule\<close>

definition dropping_schedule :: "Buffer option \<Rightarrow> BufferMap \<Rightarrow> Buffer \<Rightarrow> Buffer option \<times> BufferMap" where
  "dropping_schedule the_only_buffer m b =
     (Some b,
      case the_only_buffer of
        None \<Rightarrow> m
      | Some old \<Rightarrow> (if old \<noteq> b then send_buffer m (buf_id old) else m))"

definition dropping_num_scheduled :: "Buffer option \<Rightarrow> nat" where
  "dropping_num_scheduled the_only_buffer = (case the_only_buffer of None \<Rightarrow> 0 | Some _ \<Rightarrow> 1)"

definition dropping_next_buffer :: "Buffer option \<Rightarrow> (Buffer option, Buffer) outcome" where
  "dropping_next_buffer the_only_buffer =
     (case the_only_buffer of
        None \<Rightarrow> (Inl (logic_error ''no buffer scheduled''), the_only_buffer)
      | Some b \<Rightarrow> (Inr b, None))"

section \<open>Virtual dispatch\<close>

datatype Schedule = QueueingSchedule "Buffer list" | DroppingSchedule "Buffer option"

fun schedule :: "Schedule \<Rightarrow> BufferMap \<Rightarrow> Buffer \<Rightarrow> Schedule \<times> BufferMap" where
  "schedule (QueueingSchedule q) m b = apfst QueueingSchedule (queueing_schedule q m b)"
| "schedule (DroppingSchedule d) m b = apfst DroppingSchedule (dropping_schedule d m b)"

fun num_scheduled :: "Schedule \<Rightarrow> nat" where
  "num_scheduled (QueueingSchedule q) = queueing_num_scheduled q"
| "num_scheduled (DroppingSchedule d) = dropping_num_scheduled d"

fun next_buffer :: "Schedule \<Rightarrow> (Schedule, Buffer) outcome" where
  "next_buffer (QueueingSchedule q) = apsnd QueueingSchedule (queueing_next_buffer q)"
| "next_buffer (DroppingSchedule d) = apsnd DroppingSchedule (dropping_next_buffer d)"

fun contents :: "Schedule \<Rightarrow> Buffer list" where
  "contents (QueueingSchedule q) = q"
| "contents (DroppingSchedule d) = (case d of None \<Rightarrow> [] | Some b \<Rightarrow> [b])"

section \<open>The contract of a schedule\<close>

text \<open>
  \<open>bufs\<close> is the sequence of buffers a schedule would hand out.  Scheduling a buffer puts it
  last, and every buffer that disappears from the sequence is sent back to the client, none is
  lost; \<open>next\<close> takes the first one, or throws when there is none.
\<close>

locale schedule_contract =
  fixes sched :: "'s \<Rightarrow> BufferMap \<Rightarrow> Buffer \<Rightarrow> 's \<times> BufferMap"
    and num :: "'s \<Rightarrow> nat"
    and nxt :: "'s \<Rightarrow> ('s, Buffer) outcome"
    and bufs :: "'s \<Rightarrow> Buffer list"
  assumes num_bufs: "num s = length (bufs s)"
    and next_empty: "bufs s = [] \<Longrightarrow> nxt s = (Inl (logic_error ''no buffer scheduled''), s)"
    and next_Cons: "bufs s = b # bs \<Longrightarrow> \<exists>s'. nxt s = (Inr b, s') \<and> bufs s' = bs"
    and sched_conserves: "sched s m b = (s', m') \<Longrightarrow>
      \<exists>kept dropped. bufs s' = kept @ [b] \<and> mset kept + mset dropped = mset (remove1 b (bufs s)) \<and>
        m' = send_all m (map buf_id dropped)"
begin

lemma num_0_iff: "num s = 0 \<longleftrightarrow> bufs s = []"
  by (simp add: num_bufs)

lemma next_num: "num s > 0 \<Longrightarrow> \<exists>b s'. nxt s = (Inr b, s') \<and> bufs s = b # bufs s' \<and> num s' < num s"
proof -
  assume "num s > 0"
  then obtain b bs where b: "bufs s = b # bs"
    by (cases "bufs s") (auto simp: num_bufs)
  from next_Cons [OF this] obtain s' where "nxt s = (Inr b, s')" "bufs s' = bs" by blast
  with b show ?thesis by (auto simp: num_bufs)
qed

lemma sched_nonempty: "bufs (fst (sched s m b)) \<noteq> []"
  using sched_conserves [of s m b "fst (sched s m b)" "snd (sched s m b)"] by auto

lemma sched_distinct:
  assumes "distinct (map buf_id (bufs s))" and "buf_id b \<notin> buf_id ` set (bufs s)"
    and "sched s m b = (s', m')"
  shows "distinct (map buf_id (bufs s'))"
proof -
  obtain kept dropped where k: "bufs s' = kept @ [b]"
      "mset kept + mset dropped = mset (remove1 b (bufs s))"
    using sched_conserves [OF assms(3)] by blast
  have "b \<notin> set (bufs s)" using assms(2) by blast
  then have eq: "mset kept + mset dropped = mset (bufs s)" using k(2) by (simp add: remove1_idem)
  then have "mset (map buf_id (kept @ dropped)) = mset (map buf_id (bufs s))"
    by (metis mset_append mset_map)
  then have "distinct (map buf_id (kept @ dropped))"
    using assms(1) by (metis mset_eq_imp_distinct_iff)
  moreover have "set kept \<subseteq> set (bufs s)"
    using eq by (metis mset_subset_eq_add_left set_mset_mono set_mset_mset)
  ultimately show ?thesis using assms(2) unfolding k(1) by auto
qed

end

interpretation queueing: schedule_contract
  queueing_schedule queueing_num_scheduled queueing_next_buffer "\<lambda>q. q"
proof
  fix s s' m m' b assume "queueing_schedule s m b = (s', m')"
  then have "s' = remove1 b s @ [b] \<and> m' = m"
    by (auto simp: queueing_schedule_def erase_first_eq_remove1 remove1_idem split: if_splits)
  then show "\<exists>kept dropped. s' = kept @ [b] \<and> mset kept + mset dropped = mset (remove1 b s) \<and>
        m' = send_all m (map buf_id dropped)"
    by (intro exI [of _ "remove1 b s"] exI [of _ "[]"]) simp
qed (auto simp: queueing_num_scheduled_def queueing_next_buffer_def)

interpretation dropping: schedule_contract
  dropping_schedule dropping_num_scheduled dropping_next_buffer "\<lambda>d. contents (DroppingSchedule d)"
proof
  fix s s' m m' b assume "dropping_schedule s m b = (s', m')"
  then have s': "s' = Some b" and m': "m' = (case s of None \<Rightarrow> m | Some old \<Rightarrow> if old \<noteq> b then send_buffer m (buf_id old) else m)"
    by (simp_all add: dropping_schedule_def)
  show "\<exists>kept dropped. contents (DroppingSchedule s') = kept @ [b] \<and>
      mset kept + mset dropped = mset (remove1 b (contents (DroppingSchedule s))) \<and>
      m' = send_all m (map buf_id dropped)"
    by (rule exI [of _ "[]"], rule exI [of _ "remove1 b (contents (DroppingSchedule s))"])
       (auto simp: s' m' split: option.splits)
qed (auto simp: dropping_num_scheduled_def dropping_next_buffer_def split: option.splits)

interpretation virt: schedule_contract schedule num_scheduled next_buffer contents
proof
  show "num_scheduled s = length (contents s)" for s
    by (cases s) (simp_all add: queueing.num_bufs dropping.num_bufs)
  show "next_buffer s = (Inl (logic_error ''no buffer scheduled''), s)" if "contents s = []" for s
    using that by (cases s) (simp_all add: queueing.next_empty dropping.next_empty)
  show "\<exists>s'. next_buffer s = (Inr b, s') \<and> contents s' = bs" if "contents s = b # bs" for s b bs
  proof (cases s)
    case (QueueingSchedule q)
    with that queueing.next_Cons [of q b bs] show ?thesis by auto
  next
    case (DroppingSchedule d)
    with that dropping.next_Cons [of d b bs] show ?thesis by auto
  qed
next
  fix s s' m m' b assume *: "schedule s m b = (s', m')"
  show "\<exists>kept dropped. contents s' = kept @ [b] \<and>
      mset kept + mset dropped = mset (remove1 b (contents s)) \<and> m' = send_all m (map buf_id dropped)"
  proof (cases s)
    case (QueueingSchedule q)
    with * queueing.sched_conserves [of q m b "fst (queueing_schedule q m b)" m']
    show ?thesis by (auto simp: apfst_def map_prod_def split: prod.splits)
  next
    case (DroppingSchedule d)
    with * dropping.sched_conserves [of d m b "fst (dropping_schedule d m b)" m']
    show ?thesis by (auto simp: apfst_def map_prod_def split: prod.splits)
  qed
qed

lemmas [sched_simps] = virt.num_0_iff virt.num_bufs

section \<open>Emptying a schedule\<close>

text \<open>
  \<open>while (schedule->num_scheduled()) transferred.emplace_back(schedule->next_buffer())\<close>: the loop
  of \<open>Stream\<close> that takes every buffer out.
\<close>

function drain :: "Schedule \<Rightarrow> Buffer list \<times> Schedule" where
  "drain s =
     (if num_scheduled s > 0 then
        (case next_buffer s of
           (Inr b, s') \<Rightarrow> apfst (Cons b) (drain s')
         | (Inl e, s') \<Rightarrow> ([], s'))
      else ([], s))"
  by pat_completeness auto
termination
proof (relation "measure num_scheduled")
  fix s r s' b
  assume "num_scheduled s > 0" "(r, s') = next_buffer s" "r = Inr b"
  then show "(s', s) \<in> measure num_scheduled"
    using virt.next_num [of s] by auto
qed simp_all

declare drain.simps [simp del]

lemma drain_contents: "fst (drain s) = contents s \<and> contents (snd (drain s)) = []"
proof (induction s rule: drain.induct)
  case (1 s)
  show ?case
  proof (cases "num_scheduled s > 0")
    case True
    then obtain b s' where n: "next_buffer s = (Inr b, s')" "contents s = b # contents s'"
      using virt.next_num by blast
    from "1.IH" [OF True n(1) [symmetric] refl] n True show ?thesis
      by (simp add: drain.simps [of s])
  next
    case False
    then show ?thesis by (simp add: drain.simps [of s] sched_simps)
  qed
qed

fun same_kind :: "Schedule \<Rightarrow> Schedule \<Rightarrow> bool" where
  "same_kind (QueueingSchedule _) (QueueingSchedule _) = True"
| "same_kind (DroppingSchedule _) (DroppingSchedule _) = True"
| "same_kind _ _ = False"

lemma same_kind_sym: "same_kind s t = same_kind t s"
  by (cases s; cases t) simp_all

lemma same_kind_trans: "same_kind r s \<Longrightarrow> same_kind s t \<Longrightarrow> same_kind r t"
  by (cases r; cases s; cases t) simp_all

lemma same_kind_refl [simp]: "same_kind s s"
  by (cases s) simp_all

lemma same_kind_schedule [simp]: "same_kind (fst (schedule s m b)) s"
  by (cases s) (simp_all add: apfst_def map_prod_def split: prod.splits)

lemma same_kind_next [simp]: "same_kind (snd (next_buffer s)) s"
  by (cases s) (simp_all add: apsnd_def map_prod_def split: prod.splits)

lemma same_kind_drain [simp]: "same_kind (snd (drain s)) s"
proof (induction s rule: drain.induct)
  case (1 s)
  show ?case
  proof (cases "num_scheduled s > 0")
    case True
    then obtain b s' where n: "next_buffer s = (Inr b, s')" using virt.next_num by blast
    from "1.IH" [OF True n [symmetric] refl] have "same_kind (snd (drain s')) s'" by simp
    moreover have "same_kind s' s" using same_kind_next [of s] n by simp
    ultimately show ?thesis using True n same_kind_trans by (simp add: drain.simps [of s])
  next
    case False
    then show ?thesis by (simp add: drain.simps [of s])
  qed
qed

end
