(* ===== verification/Arbiter.thy ===== *)
theory Arbiter
  imports Schedules
begin

text \<open>
  \<open>MultiMonitorArbiter\<close> of \<^verbatim>\<open>src/server/compositor/multi_monitor_arbiter.cpp\<close>: it hands the
  same buffer to every monitor that shows a frame, counts the users of each buffer on screen and
  sends a buffer back to the client when nobody uses it any more.  The state holds what the
  arbiter's pointers refer to: the client's buffer map and the schedule (which the owning stream
  reaches through the same pointer).  \<open>use_count\<close> is an \<open>unsigned int\<close> and wraps.
\<close>

datatype MultiMonitorMode = multi_monitor_sync | single_monitor_fast

record ScheduleEntry =
  se_buffer :: Buffer
  use_count :: "32 word"

record MultiMonitorArbiter =
  arb_mode :: MultiMonitorMode
  arb_map :: BufferMap
  onscreen_buffers :: "ScheduleEntry list"
  current_buffer_users :: "CompositorID set"
  arb_schedule :: Schedule

definition new_arbiter :: "MultiMonitorMode \<Rightarrow> BufferMap \<Rightarrow> Schedule \<Rightarrow> MultiMonitorArbiter" where
  "new_arbiter mode m s =
     \<lparr>arb_mode = mode, arb_map = m, onscreen_buffers = [], current_buffer_users = {}, arb_schedule = s\<rparr>"

text \<open>
  The erasing loop of \<open>clean_onscreen_buffers\<close>.  \<open>at_begin\<close> says that the iterator equals
  \<open>onscreen_buffers.begin()\<close>: it stays there while the entries before it have all been erased.
\<close>

fun clean_loop :: "bool \<Rightarrow> bool \<Rightarrow> ScheduleEntry list \<Rightarrow> BufferMap \<Rightarrow> ScheduleEntry list \<times> BufferMap" where
  "clean_loop at_begin scheduled [] m = ([], m)"
| "clean_loop at_begin scheduled (e # es) m =
     (if use_count e = 0 \<and> (\<not> at_begin \<or> scheduled)
      then clean_loop at_begin scheduled es (send_buffer m (buf_id (se_buffer e)))
      else apfst (Cons e) (clean_loop False scheduled es m))"

definition clean_onscreen_buffers :: "MultiMonitorArbiter \<Rightarrow> MultiMonitorArbiter" where
  [arbiter_defs]: "clean_onscreen_buffers a =
     (let (es, m) = clean_loop True (num_scheduled (arb_schedule a) \<noteq> 0) (onscreen_buffers a) (arb_map a)
      in a\<lparr>onscreen_buffers := es, arb_map := m\<rparr>)"

definition decrease_refcount_for :: "MultiMonitorArbiter \<Rightarrow> BufferID \<Rightarrow> (MultiMonitorArbiter, unit) outcome" where
  [arbiter_defs]: "decrease_refcount_for a i =
     (if \<exists>e\<in>set (onscreen_buffers a). buf_id (se_buffer e) = i
      then (Inr (), a\<lparr>onscreen_buffers :=
              update_first (\<lambda>e. buf_id (se_buffer e) = i) (\<lambda>e. e\<lparr>use_count := use_count e - 1\<rparr>)
                (onscreen_buffers a)\<rparr>)
      else (Inl (logic_error ''buffer not scheduled''), a))"

text \<open>\<open>onscreen_buffers.emplace_front(schedule->next_buffer(), 0)\<close>, called when something is scheduled.\<close>

definition bring_next_onscreen :: "MultiMonitorArbiter \<Rightarrow> MultiMonitorArbiter" where
  [arbiter_defs]: "bring_next_onscreen a =
     (case next_buffer (arb_schedule a) of
        (Inr b, s) \<Rightarrow> a\<lparr>onscreen_buffers := \<lparr>se_buffer = b, use_count = 0\<rparr> # onscreen_buffers a, arb_schedule := s\<rparr>
      | (Inl _, s) \<Rightarrow> a\<lparr>arb_schedule := s\<rparr>)"

definition use_front :: "MultiMonitorArbiter \<Rightarrow> MultiMonitorArbiter" where
  [arbiter_defs]: "use_front a =
     (case onscreen_buffers a of
        [] \<Rightarrow> a
      | e # es \<Rightarrow> a\<lparr>onscreen_buffers := e\<lparr>use_count := use_count e + 1\<rparr> # es\<rparr>)"

definition compositor_acquire :: "MultiMonitorArbiter \<Rightarrow> CompositorID \<Rightarrow> (MultiMonitorArbiter, Buffer) outcome" where
  "compositor_acquire a cid =
     (if onscreen_buffers a = [] \<and> num_scheduled (arb_schedule a) = 0
      then (Inl (logic_error ''no buffer to give to compositor''), a)
      else
        let a1 = (if cid \<in> current_buffer_users a \<or> onscreen_buffers a = []
                  then (if num_scheduled (arb_schedule a) \<noteq> 0 then bring_next_onscreen a else a)
                         \<lparr>current_buffer_users := {}\<rparr>
                  else a);
            a2 = a1\<lparr>current_buffer_users := insert cid (current_buffer_users a1)\<rparr>;
            a3 = use_front a2;
            last_entry_buffer = se_buffer (hd (onscreen_buffers a3))
        in (Inr last_entry_buffer,
            if arb_mode a3 = multi_monitor_sync then clean_onscreen_buffers a3 else a3))"

definition compositor_release :: "MultiMonitorArbiter \<Rightarrow> Buffer \<Rightarrow> (MultiMonitorArbiter, unit) outcome" where
  "compositor_release a b =
     (case decrease_refcount_for a (buf_id b) of
        (Inl e, a1) \<Rightarrow> (Inl e, a1)
      | (Inr _, a1) \<Rightarrow>
          (Inr (),
           if arb_mode a1 = single_monitor_fast \<or> se_buffer (hd (onscreen_buffers a1)) \<noteq> b
           then clean_onscreen_buffers a1 else a1))"

definition snapshot_acquire :: "MultiMonitorArbiter \<Rightarrow> (MultiMonitorArbiter, Buffer) outcome" where
  "snapshot_acquire a =
     (if onscreen_buffers a = [] \<and> num_scheduled (arb_schedule a) = 0
      then (Inl (logic_error ''no buffer to give to snapshotter''), a)
      else
        let a1 = (if onscreen_buffers a = []
                  then (if num_scheduled (arb_schedule a) \<noteq> 0 then bring_next_onscreen a else a)
                  else a);
            a2 = use_front a1
        in (Inr (se_buffer (hd (onscreen_buffers a2))), a2))"

definition snapshot_release :: "MultiMonitorArbiter \<Rightarrow> Buffer \<Rightarrow> (MultiMonitorArbiter, unit) outcome" where
  "snapshot_release a b =
     (case decrease_refcount_for a (buf_id b) of
        (Inl e, a1) \<Rightarrow> (Inl e, a1)
      | (Inr _, a1) \<Rightarrow> (Inr (), clean_onscreen_buffers a1))"

definition set_schedule :: "MultiMonitorArbiter \<Rightarrow> Schedule \<Rightarrow> MultiMonitorArbiter" where
  "set_schedule a s = a\<lparr>arb_schedule := s\<rparr>"

definition set_mode :: "MultiMonitorArbiter \<Rightarrow> MultiMonitorMode \<Rightarrow> MultiMonitorArbiter" where
  "set_mode a mode = a\<lparr>arb_mode := mode\<rparr>"

definition buffer_ready_for :: "MultiMonitorArbiter \<Rightarrow> CompositorID \<Rightarrow> bool" where
  "buffer_ready_for a cid \<longleftrightarrow>
     num_scheduled (arb_schedule a) \<noteq> 0 \<or> (cid \<notin> current_buffer_users a \<and> onscreen_buffers a \<noteq> [])"

definition has_buffer :: "MultiMonitorArbiter \<Rightarrow> bool" where
  "has_buffer a \<longleftrightarrow> onscreen_buffers a \<noteq> []"

definition advance_schedule :: "MultiMonitorArbiter \<Rightarrow> MultiMonitorArbiter" where
  "advance_schedule a =
     (if num_scheduled (arb_schedule a) \<noteq> 0
      then (bring_next_onscreen a)\<lparr>current_buffer_users := {}\<rparr> else a)"

fun send_unused :: "ScheduleEntry list \<Rightarrow> BufferMap \<Rightarrow> BufferMap" where
  "send_unused [] m = m"
| "send_unused (e # es) m =
     send_unused es (if use_count e = 0 then send_buffer m (buf_id (se_buffer e)) else m)"

definition destroy_arbiter :: "MultiMonitorArbiter \<Rightarrow> BufferMap" where
  "destroy_arbiter a = send_unused (onscreen_buffers a) (arb_map a)"

section \<open>What the clean-up keeps and what it sends\<close>

fun clean_kept :: "bool \<Rightarrow> bool \<Rightarrow> ScheduleEntry list \<Rightarrow> ScheduleEntry list" where
  "clean_kept at_begin scheduled [] = []"
| "clean_kept at_begin scheduled (e # es) =
     (if use_count e = 0 \<and> (\<not> at_begin \<or> scheduled) then clean_kept at_begin scheduled es
      else e # filter (\<lambda>e. use_count e \<noteq> 0) es)"

fun clean_sent :: "bool \<Rightarrow> bool \<Rightarrow> ScheduleEntry list \<Rightarrow> ScheduleEntry list" where
  "clean_sent at_begin scheduled [] = []"
| "clean_sent at_begin scheduled (e # es) =
     (if use_count e = 0 \<and> (\<not> at_begin \<or> scheduled) then e # clean_sent at_begin scheduled es
      else filter (\<lambda>e. use_count e = 0) es)"

lemma clean_loop_not_begin:
  "clean_loop False scheduled es m =
     (filter (\<lambda>e. use_count e \<noteq> 0) es, send_all m (map (buf_id \<circ> se_buffer) (filter (\<lambda>e. use_count e = 0) es)))"
  by (induction es arbitrary: m) auto

lemma clean_loop_eq:
  "clean_loop at_begin scheduled es m =
     (clean_kept at_begin scheduled es, send_all m (map (buf_id \<circ> se_buffer) (clean_sent at_begin scheduled es)))"
  by (induction es arbitrary: m) (auto simp: clean_loop_not_begin)

lemma clean_partition: "mset (clean_kept ab sc es) + mset (clean_sent ab sc es) = mset es"
proof (induction es)
  case (Cons e es)
  have "mset (filter (\<lambda>e. use_count e \<noteq> 0) es) + mset (filter (\<lambda>e. use_count e = 0) es) = mset es"
    using filter_partition_mset [of "\<lambda>e. use_count e = 0" es] by (simp del: mset_filter)
  with Cons show ?case
    by (auto simp del: mset_filter)
qed simp

lemma clean_sent_unused: "e \<in> set (clean_sent ab sc es) \<Longrightarrow> use_count e = 0"
  by (induction es) (auto split: if_splits)

lemma clean_kept_used: "\<lbrakk>e \<in> set es; use_count e \<noteq> 0\<rbrakk> \<Longrightarrow> e \<in> set (clean_kept ab sc es)"
  by (induction es) auto

lemma clean_kept_nonempty: "\<lbrakk>\<not> sc; es \<noteq> []\<rbrakk> \<Longrightarrow> clean_kept True sc es \<noteq> []"
  by (cases es) auto

lemma clean_onscreen_simps [simp]:
  "onscreen_buffers (clean_onscreen_buffers a) =
     clean_kept True (num_scheduled (arb_schedule a) \<noteq> 0) (onscreen_buffers a)"
  "arb_map (clean_onscreen_buffers a) =
     send_all (arb_map a) (map (buf_id \<circ> se_buffer)
       (clean_sent True (num_scheduled (arb_schedule a) \<noteq> 0) (onscreen_buffers a)))"
  "arb_schedule (clean_onscreen_buffers a) = arb_schedule a"
  "arb_mode (clean_onscreen_buffers a) = arb_mode a"
  "current_buffer_users (clean_onscreen_buffers a) = current_buffer_users a"
  by (simp_all add: clean_onscreen_buffers_def clean_loop_eq)

lemma use_front_simps [simp]:
  "arb_map (use_front a) = arb_map a" "arb_schedule (use_front a) = arb_schedule a"
  "arb_mode (use_front a) = arb_mode a"
  "map se_buffer (onscreen_buffers (use_front a)) = map se_buffer (onscreen_buffers a)"
  by (simp_all add: use_front_def split: list.splits)

lemma bring_next_onscreen_eq:
  assumes "num_scheduled (arb_schedule a) \<noteq> 0"
  obtains b s where "contents (arb_schedule a) = b # contents s"
    "same_kind s (arb_schedule a)"
    "bring_next_onscreen a =
       a\<lparr>onscreen_buffers := \<lparr>se_buffer = b, use_count = 0\<rparr> # onscreen_buffers a, arb_schedule := s\<rparr>"
proof -
  from assms obtain b s where "next_buffer (arb_schedule a) = (Inr b, s)" "contents (arb_schedule a) = b # contents s"
    using virt.next_num [of "arb_schedule a"] by auto
  with same_kind_next [of "arb_schedule a"] show ?thesis
    by (intro that) (auto simp: bring_next_onscreen_def)
qed

section \<open>The ownership invariant\<close>

text \<open>
  \<open>held\<close> is the multiset of buffers that compositors and snapshots hold: a ghost of the
  \<open>TemporaryCompositorBuffer\<close> and \<open>TemporarySnapshotBuffer\<close> objects alive.
\<close>

definition server_buffers :: "MultiMonitorArbiter \<Rightarrow> Buffer list" where
  "server_buffers a = map se_buffer (onscreen_buffers a) @ contents (arb_schedule a)"

definition unique_buffers :: "MultiMonitorArbiter \<Rightarrow> bool" where
  "unique_buffers a \<longleftrightarrow> distinct (map buf_id (server_buffers a))"

text \<open>
  All streams of a session share its buffer map.  \<open>ew\<close> is the set of the buffers that are
  elsewhere: in the other streams of the session.
\<close>

definition owners_agree :: "BufferID set \<Rightarrow> MultiMonitorArbiter \<Rightarrow> bool" where
  "owners_agree ew a \<longleftrightarrow>
     (\<forall>i w. owner_of (arb_map a) i = Some w \<longrightarrow>
        (w = Owner_server \<longleftrightarrow> i \<in> buf_id ` set (server_buffers a) \<union> ew)) \<and>
     buf_id ` set (server_buffers a) \<inter> ew = {}"

definition counts_agree :: "Buffer multiset \<Rightarrow> MultiMonitorArbiter \<Rightarrow> bool" where
  "counts_agree held a \<longleftrightarrow>
     (\<forall>e\<in>set (onscreen_buffers a). unat (use_count e) = count held (se_buffer e)) \<and>
     set_mset held \<subseteq> se_buffer ` set (onscreen_buffers a)"

definition arb_inv :: "BufferID set \<Rightarrow> Buffer multiset \<Rightarrow> MultiMonitorArbiter \<Rightarrow> bool" where
  "arb_inv ew held a \<longleftrightarrow> unique_buffers a \<and> owners_agree ew a \<and> counts_agree held a"

lemmas arb_inv_defs = arb_inv_def unique_buffers_def owners_agree_def counts_agree_def

lemma unique_buffers_perm:
  "\<lbrakk>mset (server_buffers a) = mset (server_buffers a'); unique_buffers a\<rbrakk> \<Longrightarrow> unique_buffers a'"
  unfolding unique_buffers_def by (metis mset_eq_imp_distinct_iff mset_map)

lemma owners_agree_perm:
  "\<lbrakk>set (server_buffers a) = set (server_buffers a'); arb_map a = arb_map a'; owners_agree ew a\<rbrakk>
   \<Longrightarrow> owners_agree ew a'"
  by (simp add: owners_agree_def)

lemma unique_entry:
  assumes "unique_buffers a" and "e \<in> set (onscreen_buffers a)" and "e' \<in> set (onscreen_buffers a)"
    and "buf_id (se_buffer e) = buf_id (se_buffer e')"
  shows "e = e'"
proof -
  have "distinct (map (buf_id \<circ> se_buffer) (onscreen_buffers a))"
    using assms(1) by (simp add: unique_buffers_def server_buffers_def)
  then have "inj_on (buf_id \<circ> se_buffer) (set (onscreen_buffers a))"
    by (simp add: distinct_map)
  with assms(2-4) show ?thesis by (metis comp_apply inj_onD)
qed

lemma unique_onscreen:
  "unique_buffers a \<Longrightarrow> distinct (map se_buffer (onscreen_buffers a))"
  by (auto simp: unique_buffers_def server_buffers_def distinct_map intro: inj_on_imageI2)

text \<open>
  Sending back a set of buffers keeps the invariant as long as what is sent is exactly what leaves
  the server's lists.
\<close>

lemma owners_agree_send:
  assumes "owners_agree ew a" and "unique_buffers a"
    and "mset (server_buffers a') + mset sent = mset (server_buffers a)"
    and "arb_map a' = send_all (arb_map a) (map buf_id sent)"
  shows "owners_agree ew a' \<and> unique_buffers a'"
proof -
  have set_eq: "set (server_buffers a) = set (server_buffers a') \<union> set sent"
    using assms(3) by (metis set_mset_mset set_mset_union)
  have "distinct (map buf_id (server_buffers a' @ sent))"
    using assms(2,3) unfolding unique_buffers_def
    by (metis mset_append mset_eq_imp_distinct_iff mset_map)
  then have "unique_buffers a'" and disj: "buf_id ` set (server_buffers a') \<inter> buf_id ` set sent = {}"
    by (auto simp: unique_buffers_def)
  moreover have "owners_agree ew a'"
    using assms(1) disj
    by (auto simp: owners_agree_def assms(4) owner_of_send_all set_eq split: if_splits)
  ultimately show ?thesis by blast
qed

lemma clean_onscreen_inv:
  assumes "arb_inv ew held a"
  shows "arb_inv ew held (clean_onscreen_buffers a)"
proof -
  let ?sc = "num_scheduled (arb_schedule a) \<noteq> 0"
  let ?sent = "clean_sent True ?sc (onscreen_buffers a)"
  have part: "mset (clean_kept True ?sc (onscreen_buffers a)) + mset ?sent = mset (onscreen_buffers a)"
    by (rule clean_partition)
  have "mset (map se_buffer (onscreen_buffers a)) =
        mset (map se_buffer (clean_kept True ?sc (onscreen_buffers a))) + mset (map se_buffer ?sent)"
    by (metis part image_mset_union mset_map)
  then have "owners_agree ew (clean_onscreen_buffers a) \<and> unique_buffers (clean_onscreen_buffers a)"
    using assms by (intro owners_agree_send [where a = a and sent = "map se_buffer ?sent"])
      (auto simp: arb_inv_def server_buffers_def ac_simps)
  moreover have "counts_agree held (clean_onscreen_buffers a)"
  proof -
    have kept: "set (clean_kept True ?sc (onscreen_buffers a)) \<subseteq> set (onscreen_buffers a)"
      using part by (metis mset_subset_eq_add_left set_mset_mono set_mset_mset)
    have "b \<in> se_buffer ` set (clean_kept True ?sc (onscreen_buffers a))" if b: "b \<in># held" for b
    proof -
      obtain e where e: "e \<in> set (onscreen_buffers a)" "se_buffer e = b"
        using b assms unfolding arb_inv_defs by blast
      then have "unat (use_count e) = count held b"
        using assms unfolding arb_inv_defs by blast
      then have "use_count e \<noteq> 0" using b by (auto simp: count_eq_zero_iff)
      with e show ?thesis using clean_kept_used by blast
    qed
    with kept assms show ?thesis by (auto simp: arb_inv_defs)
  qed
  ultimately show ?thesis by (simp add: arb_inv_def)
qed

lemma bring_next_inv:
  assumes "arb_inv ew held a" and "num_scheduled (arb_schedule a) \<noteq> 0"
  shows "arb_inv ew held (bring_next_onscreen a)"
proof -
  obtain b s where c: "contents (arb_schedule a) = b # contents s"
    and n: "bring_next_onscreen a =
       a\<lparr>onscreen_buffers := \<lparr>se_buffer = b, use_count = 0\<rparr> # onscreen_buffers a, arb_schedule := s\<rparr>"
    using bring_next_onscreen_eq [OF assms(2)] by metis
  have perm: "mset (server_buffers a) = mset (server_buffers (bring_next_onscreen a))"
    by (simp add: server_buffers_def c n)
  then have "set (server_buffers a) = set (server_buffers (bring_next_onscreen a))"
    by (metis set_mset_mset)
  moreover have "count held b = 0"
    using assms(1) c by (auto simp: arb_inv_defs server_buffers_def count_eq_zero_iff)
  ultimately show ?thesis
    using assms(1) unique_buffers_perm [OF perm] owners_agree_perm [of a "bring_next_onscreen a"]
    by (auto simp: arb_inv_def counts_agree_def n)
qed

lemma use_front_inv:
  assumes "arb_inv ew held a" and "onscreen_buffers a = e # es" and "size held < 2 ^ 32 - 1"
  shows "arb_inv ew (add_mset (se_buffer e) held) (use_front a)"
proof -
  have "unat (use_count e) = count held (se_buffer e)" using assms(1,2) by (simp add: arb_inv_defs)
  also have "\<dots> \<le> size held" by (rule count_le_size)
  finally have "unat (use_count e) + 1 < 2 ^ 32" using assms(3) by simp
  then have cnt: "unat (use_count e + 1) = unat (use_count e) + 1"
    by (simp add: unat_word_ariths)
  have "se_buffer f \<noteq> se_buffer e" if "f \<in> set es" for f
    using unique_onscreen [of a] assms(1,2) that by (auto simp: arb_inv_def) (metis image_eqI)
  with assms cnt show ?thesis
    by (auto simp: arb_inv_def unique_buffers_def owners_agree_def counts_agree_def use_front_def
        server_buffers_def)
qed

lemma held_entry:
  assumes "arb_inv ew held a" and "b \<in># held"
  shows "\<exists>e\<in>set (onscreen_buffers a). se_buffer e = b \<and> use_count e \<noteq> 0"
proof -
  obtain e where e: "e \<in> set (onscreen_buffers a)" "se_buffer e = b"
    using assms unfolding arb_inv_defs by blast
  then have "unat (use_count e) = count held b" using assms(1) unfolding arb_inv_defs by blast
  with e assms(2) show ?thesis by (metis count_eq_zero_iff unat_0)
qed

lemma decrease_refcount_inv:
  assumes "arb_inv ew held a" and b: "b \<in># held"
  obtains a' where "decrease_refcount_for a (buf_id b) = (Inr (), a')" "arb_inv ew (held - {#b#}) a'"
    "onscreen_buffers a' \<noteq> []" "arb_schedule a' = arb_schedule a" "arb_mode a' = arb_mode a"
    "map se_buffer (onscreen_buffers a') = map se_buffer (onscreen_buffers a)"
proof -
  let ?k = "buf_id \<circ> se_buffer" and ?f = "\<lambda>e. e\<lparr>use_count := use_count e - 1\<rparr>"
  let ?es = "update_first (\<lambda>e. ?k e = buf_id b) ?f (onscreen_buffers a)"
  let ?a = "a\<lparr>onscreen_buffers := ?es\<rparr>"
  obtain e where e: "e \<in> set (onscreen_buffers a)" "se_buffer e = b" "use_count e \<noteq> 0"
    using held_entry [OF assms] by blast
  have same: "map se_buffer ?es = map se_buffer (onscreen_buffers a)"
    by (rule map_update_first) simp
  have d: "distinct (map ?k (onscreen_buffers a))"
    using assms(1) by (simp add: arb_inv_def unique_buffers_def server_buffers_def)
  have "unat (use_count x) = count (held - {#b#}) (se_buffer x)" if x: "x \<in> set ?es" for x
  proof (cases "?k x = buf_id b")
    case True
    then obtain y where y: "y \<in> set (onscreen_buffers a)" "x = ?f y" "?k y = buf_id b"
      using update_first_unique [OF x d] by auto
    then have "y = e" using unique_entry [of a y e] assms(1) e by (simp add: arb_inv_def)
    moreover have "unat (use_count e) = count held b"
      using assms(1) e unfolding arb_inv_defs by blast
    ultimately show ?thesis using y(2) e by (simp add: unat_minus_one)
  next
    case False
    then have "x \<in> set (onscreen_buffers a)" using update_first_unique [OF x d] by auto
    moreover have "se_buffer x \<noteq> b" using False by auto
    ultimately show ?thesis using assms(1) unfolding arb_inv_defs by auto
  qed
  moreover have "se_buffer ` set ?es = se_buffer ` set (onscreen_buffers a)"
    using same by (metis list.set_map)
  ultimately have "counts_agree (held - {#b#}) ?a"
    using assms(1) by (auto simp: arb_inv_defs dest: in_diffD)
  moreover have "server_buffers ?a = server_buffers a" by (simp add: server_buffers_def map_update_first)
  then have "unique_buffers ?a" "owners_agree ew ?a"
    using assms(1) unfolding arb_inv_def unique_buffers_def owners_agree_def by simp_all
  ultimately have "arb_inv ew (held - {#b#}) ?a" by (simp add: arb_inv_def)
  moreover have "decrease_refcount_for a (buf_id b) = (Inr (), ?a)"
    using e by (auto simp: decrease_refcount_for_def comp_def)
  moreover have "onscreen_buffers ?a \<noteq> []" using e by auto
  ultimately show ?thesis using that [of ?a] same by simp
qed

section \<open>Acquiring and releasing\<close>

definition displayable :: "MultiMonitorArbiter \<Rightarrow> bool" where
  "displayable a \<longleftrightarrow> onscreen_buffers a \<noteq> [] \<or> contents (arb_schedule a) \<noteq> []"

lemma arb_inv_users [simp]: "arb_inv ew held (a\<lparr>current_buffer_users := us\<rparr>) = arb_inv ew held a"
  by (simp add: arb_inv_defs server_buffers_def)

lemma arb_inv_mode [simp]: "arb_inv ew held (a\<lparr>arb_mode := md\<rparr>) = arb_inv ew held a"
  by (simp add: arb_inv_defs server_buffers_def)

lemma bring_next_simps:
  assumes "num_scheduled (arb_schedule a) \<noteq> 0"
  shows "onscreen_buffers (bring_next_onscreen a) \<noteq> []"
    "same_kind (arb_schedule (bring_next_onscreen a)) (arb_schedule a)"
  using bring_next_onscreen_eq [OF assms] by force+

lemma displayable_clean: "displayable a \<Longrightarrow> displayable (clean_onscreen_buffers a)"
  using clean_kept_nonempty [of False "onscreen_buffers a"]
  by (auto simp: displayable_def sched_simps)

lemma use_front_take:
  assumes "arb_inv ew held a" and "onscreen_buffers a \<noteq> []" and "size held < 2 ^ 32 - 1"
  defines "a3 \<equiv> use_front a"
  shows "arb_inv ew (add_mset (se_buffer (hd (onscreen_buffers a3))) held) a3 \<and> onscreen_buffers a3 \<noteq> []"
proof -
  obtain e es where es: "onscreen_buffers a = e # es" using assms(2) by (cases "onscreen_buffers a") auto
  from use_front_inv [OF assms(1) es assms(3)] show ?thesis
    by (simp add: a3_def) (simp add: use_front_def es)
qed

lemma clean_keeps_used_front:
  assumes "arb_inv ew held a" and "onscreen_buffers a \<noteq> []" and "se_buffer (hd (onscreen_buffers a)) \<in># held"
  shows "hd (onscreen_buffers (clean_onscreen_buffers a)) = hd (onscreen_buffers a)"
proof -
  obtain e es where es: "onscreen_buffers a = e # es" using assms(2) by (cases "onscreen_buffers a") auto
  then have "unat (use_count e) = count held (se_buffer e)" using assms(1) by (simp add: arb_inv_defs)
  moreover have "se_buffer e \<in># held" using assms(3) es by simp
  ultimately have "use_count e \<noteq> 0" by (metis count_eq_zero_iff unat_0)
  then show ?thesis by (simp add: es)
qed

lemma use_front_hd:
  "onscreen_buffers a \<noteq> [] \<Longrightarrow> se_buffer (hd (onscreen_buffers (use_front a))) = se_buffer (hd (onscreen_buffers a))"
  by (cases "onscreen_buffers a") (simp_all add: use_front_def)

lemma users_use_front [simp]: "current_buffer_users (use_front a) = current_buffer_users a"
  by (simp add: use_front_def split: list.splits)

lemma compositor_acquire_inv:
  assumes inv: "arb_inv ew held a" and d: "displayable a" and small: "size held < 2 ^ 32 - 1"
  obtains b a' where "compositor_acquire a cid = (Inr b, a')" "arb_inv ew (add_mset b held) a'"
    "onscreen_buffers a' \<noteq> []" "same_kind (arb_schedule a') (arb_schedule a)"
    "se_buffer (hd (onscreen_buffers a')) = b" "cid \<in> current_buffer_users a'"
proof -
  define a1 where "a1 = (if cid \<in> current_buffer_users a \<or> onscreen_buffers a = []
     then (if num_scheduled (arb_schedule a) \<noteq> 0 then bring_next_onscreen a else a)\<lparr>current_buffer_users := {}\<rparr>
     else a)"
  define a3 where "a3 = use_front (a1\<lparr>current_buffer_users := insert cid (current_buffer_users a1)\<rparr>)"
  let ?b = "se_buffer (hd (onscreen_buffers a3))"
  have a1: "arb_inv ew held a1" "onscreen_buffers a1 \<noteq> []" "same_kind (arb_schedule a1) (arb_schedule a)"
    using inv d bring_next_inv [OF inv] bring_next_simps [of a]
    by (auto simp: a1_def displayable_def sched_simps)
  then have a3: "arb_inv ew (add_mset ?b held) a3" "onscreen_buffers a3 \<noteq> []"
    "arb_schedule a3 = arb_schedule a1"
    using use_front_take [OF _ _ small, of ew "a1\<lparr>current_buffer_users := insert cid (current_buffer_users a1)\<rparr>"]
    by (simp_all add: a3_def)
  let ?a' = "if arb_mode a3 = multi_monitor_sync then clean_onscreen_buffers a3 else a3"
  have "compositor_acquire a cid = (Inr ?b, ?a')"
    using d by (auto simp: compositor_acquire_def a1_def a3_def Let_def displayable_def sched_simps)
  moreover have inv': "arb_inv ew (add_mset ?b held) ?a'" using a3(1) clean_onscreen_inv by simp
  moreover have "onscreen_buffers ?a' \<noteq> []" using held_entry [OF inv', of ?b] by auto
  moreover have "same_kind (arb_schedule ?a') (arb_schedule a)" using a1(3) a3(3) by simp
  moreover have "se_buffer (hd (onscreen_buffers ?a')) = ?b"
    using clean_keeps_used_front [OF a3(1,2)] by (simp del: clean_onscreen_simps(1))
  moreover have "cid \<in> current_buffer_users ?a'" by (simp add: a3_def)
  ultimately show ?thesis by (rule that)
qed

text \<open>Asking again: another monitor gets the front buffer, the same monitor the next one waiting.\<close>

lemma acquire_same_frame:
  "\<lbrakk>onscreen_buffers a \<noteq> []; cid \<notin> current_buffer_users a\<rbrakk> \<Longrightarrow>
   fst (compositor_acquire a cid) = Inr (se_buffer (hd (onscreen_buffers a)))"
  by (simp add: compositor_acquire_def Let_def use_front_hd)

lemma acquire_next_frame:
  assumes "cid \<in> current_buffer_users a" and "contents (arb_schedule a) \<noteq> []"
  shows "fst (compositor_acquire a cid) = Inr (hd (contents (arb_schedule a)))"
proof -
  have n: "num_scheduled (arb_schedule a) \<noteq> 0" using assms(2) by (simp add: sched_simps)
  obtain b s where "contents (arb_schedule a) = b # contents s"
    "bring_next_onscreen a =
       a\<lparr>onscreen_buffers := \<lparr>se_buffer = b, use_count = 0\<rparr> # onscreen_buffers a, arb_schedule := s\<rparr>"
    using bring_next_onscreen_eq [OF n] by metis
  then show ?thesis using assms(1) n by (simp add: compositor_acquire_def Let_def use_front_hd)
qed

lemma compositor_release_inv:
  assumes "arb_inv ew held a" and "b \<in># held"
  obtains a' where "compositor_release a b = (Inr (), a')" "arb_inv ew (held - {#b#}) a'"
    "displayable a'" "arb_schedule a' = arb_schedule a"
proof -
  obtain a1 where a1: "decrease_refcount_for a (buf_id b) = (Inr (), a1)" "arb_inv ew (held - {#b#}) a1"
    "onscreen_buffers a1 \<noteq> []" "arb_schedule a1 = arb_schedule a"
    using decrease_refcount_inv [OF assms] by metis
  let ?a' = "if arb_mode a1 = single_monitor_fast \<or> se_buffer (hd (onscreen_buffers a1)) \<noteq> b
     then clean_onscreen_buffers a1 else a1"
  have "displayable a1" using a1(3) by (simp add: displayable_def)
  then have "displayable ?a'" using displayable_clean by simp
  moreover have "compositor_release a b = (Inr (), ?a')" using a1(1) by (simp add: compositor_release_def)
  moreover have "arb_inv ew (held - {#b#}) ?a'" using a1(2) clean_onscreen_inv by simp
  moreover have "arb_schedule ?a' = arb_schedule a" using a1(4) by simp
  ultimately show ?thesis using that by blast
qed

lemma snapshot_acquire_inv:
  assumes inv: "arb_inv ew held a" and d: "displayable a" and small: "size held < 2 ^ 32 - 1"
  obtains b a' where "snapshot_acquire a = (Inr b, a')" "arb_inv ew (add_mset b held) a'"
    "onscreen_buffers a' \<noteq> []" "same_kind (arb_schedule a') (arb_schedule a)"
proof -
  define a1 where "a1 = (if onscreen_buffers a = []
     then (if num_scheduled (arb_schedule a) \<noteq> 0 then bring_next_onscreen a else a) else a)"
  let ?a' = "use_front a1" let ?b = "se_buffer (hd (onscreen_buffers ?a'))"
  have a1: "arb_inv ew held a1" "onscreen_buffers a1 \<noteq> []" "same_kind (arb_schedule a1) (arb_schedule a)"
    using inv d bring_next_inv [OF inv] bring_next_simps [of a]
    by (auto simp: a1_def displayable_def sched_simps)
  have "snapshot_acquire a = (Inr ?b, ?a')"
    using d by (auto simp: snapshot_acquire_def a1_def Let_def displayable_def sched_simps)
  then show ?thesis
    using that [of ?b ?a'] use_front_take [OF a1(1,2) small] a1(3) by simp
qed

lemma snapshot_release_inv:
  assumes "arb_inv ew held a" and "b \<in># held"
  obtains a' where "snapshot_release a b = (Inr (), a')" "arb_inv ew (held - {#b#}) a'"
    "displayable a'" "arb_schedule a' = arb_schedule a"
proof -
  obtain a1 where a1: "decrease_refcount_for a (buf_id b) = (Inr (), a1)" "arb_inv ew (held - {#b#}) a1"
    "onscreen_buffers a1 \<noteq> []" "arb_schedule a1 = arb_schedule a"
    using decrease_refcount_inv [OF assms] by metis
  have "displayable a1" using a1(3) by (simp add: displayable_def)
  then show ?thesis
    using that [of "clean_onscreen_buffers a1"] a1 clean_onscreen_inv displayable_clean
    by (simp add: snapshot_release_def)
qed

lemma advance_schedule_inv:
  "arb_inv ew held a \<Longrightarrow> arb_inv ew held (advance_schedule a)"
  by (auto simp: advance_schedule_def bring_next_inv)

lemma advance_schedule_simps:
  "displayable a \<Longrightarrow> displayable (advance_schedule a)"
  "same_kind (arb_schedule (advance_schedule a)) (arb_schedule a)"
  using bring_next_simps [of a] by (auto simp: advance_schedule_def displayable_def)

end
