(* ===== verification/Alarm.thy ===== *)
theory Alarm
  imports Mir_Prelude
begin

text \<open>
  One-shot alarms: the interface of \<^verbatim>\<open>include/server/mir/time/alarm.h\<close> as a locale, with the
  guarantees its documentation gives, and the implementation \<open>AlarmImpl\<close> of
  \<^verbatim>\<open>src/server/glib_main_loop.cpp\<close> as the interpretation.  The GLib timer source behind an
  alarm is represented by the time point it was armed with; the main loop's dispatch of that
  source is \<open>alarm_dispatch\<close>, which runs the pre-call hook that marks the alarm triggered.
\<close>

datatype AlarmState = Alarm_pending | Alarm_cancelled | Alarm_triggered

record AlarmImpl =
  alarm_state :: AlarmState
  gsource :: "int option"

definition AlarmImpl_new :: AlarmImpl where
  "AlarmImpl_new = \<lparr>alarm_state = Alarm_cancelled, gsource = None\<rparr>"

definition alarm_cancel :: "AlarmImpl \<Rightarrow> bool \<times> AlarmImpl" where
  "alarm_cancel a =
     (let a' = (if alarm_state a = Alarm_pending
                then a\<lparr>gsource := None, alarm_state := Alarm_cancelled\<rparr> else a)
      in (alarm_state a' = Alarm_cancelled, a'))"

definition alarm_reschedule_for :: "int \<Rightarrow> AlarmImpl \<Rightarrow> bool \<times> AlarmImpl" where
  "alarm_reschedule_for time_point a =
     (alarm_state a = Alarm_pending, a\<lparr>alarm_state := Alarm_pending, gsource := Some time_point\<rparr>)"

definition alarm_reschedule_in :: "int \<Rightarrow> int \<Rightarrow> AlarmImpl \<Rightarrow> bool \<times> AlarmImpl" where
  "alarm_reschedule_in now delay a = alarm_reschedule_for (now + delay) a"

definition alarm_dispatch :: "AlarmImpl \<Rightarrow> AlarmImpl" where
  "alarm_dispatch a = a\<lparr>alarm_state := Alarm_triggered\<rparr>"

section \<open>The contract of an alarm\<close>

locale alarm_contract =
  fixes state_of :: "'al \<Rightarrow> AlarmState"
    and cancel :: "'al \<Rightarrow> bool \<times> 'al"
    and reschedule_in :: "int \<Rightarrow> int \<Rightarrow> 'al \<Rightarrow> bool \<times> 'al"
    and dispatch :: "'al \<Rightarrow> 'al"
  assumes cancel_result: "fst (cancel a) \<longleftrightarrow> state_of (snd (cancel a)) = Alarm_cancelled"
    and cancel_triggered: "state_of a = Alarm_triggered \<Longrightarrow> snd (cancel a) = a"
    and cancel_pending: "state_of a \<noteq> Alarm_triggered \<Longrightarrow> state_of (snd (cancel a)) = Alarm_cancelled"
    and cancel_idempotent: "snd (cancel (snd (cancel a))) = snd (cancel a)"
    and reschedule_pending: "state_of (snd (reschedule_in now delay a)) = Alarm_pending"
    and reschedule_result: "fst (reschedule_in now delay a) \<longleftrightarrow> state_of a = Alarm_pending"
    and dispatch_triggered: "state_of (dispatch a) = Alarm_triggered"
begin

lemma cancel_true_iff: "fst (cancel a) \<longleftrightarrow> state_of a \<noteq> Alarm_triggered"
proof (cases "state_of a = Alarm_triggered")
  case True
  then show ?thesis by (simp add: cancel_result cancel_triggered)
next
  case False
  then show ?thesis by (simp add: cancel_result cancel_pending)
qed

lemma cancel_then_reschedule: "\<not> fst (reschedule_in now delay (snd (cancel a)))"
  by (cases "state_of a = Alarm_triggered")
     (simp_all add: reschedule_result cancel_triggered cancel_pending)

end

interpretation glib_alarm: alarm_contract alarm_state alarm_cancel alarm_reschedule_in alarm_dispatch
  by unfold_locales
    (auto simp: alarm_cancel_def alarm_reschedule_in_def alarm_reschedule_for_def
      alarm_dispatch_def Let_def intro: AlarmState.exhaust)

lemmas alarm_facts =
  glib_alarm.cancel_true_iff glib_alarm.reschedule_pending glib_alarm.reschedule_result
  glib_alarm.dispatch_triggered

end
