(* ===== verification/Frame_Dropping.thy ===== *)
theory Frame_Dropping
  imports Alarm
begin

text \<open>
  \<open>TimeoutFrameDroppingPolicy\<close> of
  \<^verbatim>\<open>src/server/compositor/timeout_frame_dropping_policy_factory.cpp\<close>: when a client's swap
  blocks, an alarm is set that drops a frame when it fires.  \<open>pending_swaps\<close> is an atomic
  \<open>unsigned int\<close> and wraps.  The alarm's handler asserts that a swap is pending; the invariant
  \<open>policy_inv\<close> is why it always is.
\<close>

record DroppingPolicy =
  timeout :: int
  pending_swaps :: "32 word"
  policy_alarm :: AlarmImpl

definition create_policy :: "int \<Rightarrow> DroppingPolicy" where
  "create_policy t = \<lparr>timeout = t, pending_swaps = 0, policy_alarm = AlarmImpl_new\<rparr>"

definition policy_reschedule :: "int \<Rightarrow> DroppingPolicy \<Rightarrow> DroppingPolicy" where
  "policy_reschedule now p =
     p\<lparr>policy_alarm := snd (alarm_reschedule_in now (timeout p) (policy_alarm p))\<rparr>"

definition swap_now_blocking :: "int \<Rightarrow> DroppingPolicy \<Rightarrow> DroppingPolicy" where
  "swap_now_blocking now p =
     (let p' = p\<lparr>pending_swaps := pending_swaps p + 1\<rparr>
      in if pending_swaps p = 0 then policy_reschedule now p' else p')"

definition swap_unblocked :: "int \<Rightarrow> DroppingPolicy \<Rightarrow> DroppingPolicy" where
  "swap_unblocked now p =
     (if alarm_state (policy_alarm p) \<noteq> Alarm_cancelled then
        (let (cancelled, al) = alarm_cancel (policy_alarm p); p1 = p\<lparr>policy_alarm := al\<rparr>
         in if cancelled then
              (let p2 = p1\<lparr>pending_swaps := pending_swaps p1 - 1\<rparr>
               in if pending_swaps p2 > 0 then policy_reschedule now p2 else p2)
            else p1)
      else p)"

text \<open>
  The handler the alarm was created with: the pre-call hook (the assertion, \<open>False\<close> when it
  fails), the wrapped callback (run by the caller, see \<open>Stream\<close>) and the post-call hook.
\<close>

definition policy_alarm_assert :: "DroppingPolicy \<Rightarrow> bool" where
  "policy_alarm_assert p \<longleftrightarrow> pending_swaps p > 0"

definition policy_alarm_post :: "int \<Rightarrow> DroppingPolicy \<Rightarrow> DroppingPolicy" where
  "policy_alarm_post now p =
     (let p' = p\<lparr>pending_swaps := pending_swaps p - 1\<rparr>
      in if pending_swaps p' > 0 then policy_reschedule now p' else p')"

definition policy_alarm_fire :: "int \<Rightarrow> DroppingPolicy \<Rightarrow> bool \<times> DroppingPolicy" where
  "policy_alarm_fire now p =
     (let p1 = p\<lparr>policy_alarm := alarm_dispatch (policy_alarm p)\<rparr>
      in (policy_alarm_assert p1, policy_alarm_post now p1))"

section \<open>A swap is pending exactly while the alarm is\<close>

definition policy_inv :: "DroppingPolicy \<Rightarrow> bool" where
  "policy_inv p \<longleftrightarrow> (pending_swaps p \<noteq> 0 \<longleftrightarrow> alarm_state (policy_alarm p) = Alarm_pending)"

datatype policy_op = Swap_blocking int | Swap_unblocked int | Alarm_fires int

inductive policy_step :: "DroppingPolicy \<Rightarrow> policy_op \<Rightarrow> DroppingPolicy \<Rightarrow> bool" where
  blocking: "pending_swaps p \<noteq> - 1 \<Longrightarrow> policy_step p (Swap_blocking now) (swap_now_blocking now p)"
| unblocked: "policy_step p (Swap_unblocked now) (swap_unblocked now p)"
| fires: "alarm_state (policy_alarm p) = Alarm_pending \<Longrightarrow>
          policy_step p (Alarm_fires now) (snd (policy_alarm_fire now p))"

inductive_cases policy_step_cases: "policy_step p op p'"

inductive policy_reachable :: "int \<Rightarrow> DroppingPolicy \<Rightarrow> bool" for t where
  init: "policy_reachable t (create_policy t)"
| step: "\<lbrakk>policy_reachable t p; policy_step p op p'\<rbrakk> \<Longrightarrow> policy_reachable t p'"

lemma policy_reschedule_simps [simp]:
  "pending_swaps (policy_reschedule now p) = pending_swaps p"
  "timeout (policy_reschedule now p) = timeout p"
  "alarm_state (policy_alarm (policy_reschedule now p)) = Alarm_pending"
  by (simp_all add: policy_reschedule_def alarm_facts)

lemma policy_inv_create: "policy_inv (create_policy t)"
  by (simp add: policy_inv_def create_policy_def AlarmImpl_new_def)

lemma word_plus_1_nonzero: "w \<noteq> - 1 \<Longrightarrow> w + 1 \<noteq> (0 :: 32 word)"
  by (metis add.commute add_diff_cancel diff_0)

lemma swap_now_blocking_inv:
  "\<lbrakk>policy_inv p; pending_swaps p \<noteq> - 1\<rbrakk> \<Longrightarrow> policy_inv (swap_now_blocking now p)"
  by (auto simp: policy_inv_def swap_now_blocking_def Let_def word_plus_1_nonzero)

lemma swap_unblocked_inv: "policy_inv p \<Longrightarrow> policy_inv (swap_unblocked now p)"
  by (cases "alarm_state (policy_alarm p)")
     (auto simp: policy_inv_def swap_unblocked_def alarm_cancel_def Let_def word_neq_0_conv)

lemma policy_fire_inv:
  "\<lbrakk>policy_inv p; alarm_state (policy_alarm p) = Alarm_pending\<rbrakk> \<Longrightarrow> policy_inv (snd (policy_alarm_fire now p))"
  by (auto simp: policy_inv_def policy_alarm_fire_def policy_alarm_post_def Let_def
      alarm_facts word_neq_0_conv)

lemma policy_step_inv: "\<lbrakk>policy_step p op p'; policy_inv p\<rbrakk> \<Longrightarrow> policy_inv p'"
  by (erule policy_step.cases)
     (simp_all add: swap_now_blocking_inv swap_unblocked_inv policy_fire_inv)

lemma policy_reachable_inv: "policy_reachable t p \<Longrightarrow> policy_inv p"
  by (induction rule: policy_reachable.induct) (auto intro: policy_inv_create policy_step_inv)

section \<open>Properties\<close>

text \<open>
  C14: in every run of blocked and unblocked swaps and alarm dispatches (with fewer than
  \<open>2 ^ 32\<close> swaps pending at once) the handler's assertion that a swap is pending holds whenever
  the alarm fires, and whenever a swap is pending the alarm is set, so a blocked client is never
  forgotten.
\<close>

theorem frame_dropping_alarm_iff_pending:
  assumes "policy_reachable t p"
  shows "(alarm_state (policy_alarm p) = Alarm_pending \<longrightarrow> fst (policy_alarm_fire now p)) \<and>
         (pending_swaps p \<noteq> 0 \<longrightarrow> alarm_state (policy_alarm p) = Alarm_pending)"
  using policy_reachable_inv [OF assms]
  by (auto simp: policy_inv_def policy_alarm_fire_def policy_alarm_assert_def Let_def word_neq_0_conv)

theorem frame_dropping_alarm_iff_pending_witness:
  "fst (policy_alarm_fire 20 (swap_now_blocking 0 (create_policy 100)))"
proof -
  have "policy_reachable 100 (swap_now_blocking 0 (create_policy 100))"
    by (rule policy_reachable.step [OF policy_reachable.init], rule policy_step.blocking)
       (simp add: create_policy_def)
  from frame_dropping_alarm_iff_pending [OF this, of 20] show ?thesis
    by (simp add: swap_now_blocking_def create_policy_def policy_reschedule_def alarm_facts)
qed

end
