(* ===== verification/Buffer_Stream.thy ===== *)
theory Buffer_Stream
  imports Arbiter Frame_Dropping
begin

text \<open>
  \<open>Stream\<close> of \<^verbatim>\<open>src/server/compositor/stream.cpp\<close>: a client's sequence of buffers on its way to
  the screen.  The stream and its arbiter share one schedule object and one buffer map through
  pointers that the stream only ever replaces together (constructor and
  \<open>transition_schedule\<close>), so both live in the arbiter's record.  Frames posted to the
  surface observers are kept as a log.  \<open>TemporaryCompositorBuffer\<close> is what
  \<open>lock_compositor_buffer\<close> returns; its destructor is \<open>release_compositor_buffer\<close>.

  The streams of a session share its buffer map; \<open>session_streams\<close> are the runs of all of them,
  \<open>stream_reachable\<close> those of one among the others.  The theorems, for a client that submits only
  buffers it owns: a buffer is owned by the server exactly while it waits in the schedule of one
  stream or is on screen there, a buffer somebody holds is never handed back to the client, every
  release succeeds, and from the first submitted frame on there is always something to show.
\<close>

datatype ScheduleMode = Queueing | Dropping

record Stream =
  drop_policy :: DroppingPolicy
  schedule_mode :: ScheduleMode
  arbiter :: MultiMonitorArbiter
  strm_size :: Size
  stream_pf :: nat
  first_frame_posted :: bool
  associated_buffers :: "BufferID set"
  frames_posted :: "(nat \<times> Size) list"

abbreviation the_schedule :: "Stream \<Rightarrow> Schedule" where
  "the_schedule s \<equiv> arb_schedule (arbiter s)"

abbreviation the_map :: "Stream \<Rightarrow> BufferMap" where
  "the_map s \<equiv> arb_map (arbiter s)"

definition new_Stream :: "int \<Rightarrow> BufferMap \<Rightarrow> Size \<Rightarrow> nat \<Rightarrow> Stream" where
  "new_Stream t m sz format =
     \<lparr>drop_policy = create_policy t, schedule_mode = Queueing,
      arbiter = new_arbiter multi_monitor_sync m (QueueingSchedule []),
      strm_size = sz, stream_pf = format, first_frame_posted = False,
      associated_buffers = {}, frames_posted = []\<rparr>"

definition client_owned_buffer_count :: "Stream \<Rightarrow> 32 word" where
  "client_owned_buffer_count s =
     (let server_count = (of_nat (num_scheduled (the_schedule s)) :: 32 word);
          server_count' = (if has_buffer (arbiter s) then server_count + 1 else server_count)
      in of_nat (card (associated_buffers s)) - server_count')"

definition submit_buffer :: "int \<Rightarrow> Stream \<Rightarrow> Buffer option \<Rightarrow> (Stream, unit) outcome" where
  "submit_buffer now s buffer =
     (case buffer of
        None \<Rightarrow> (Inl (invalid_argument ''cannot submit null buffer''), s)
      | Some b \<Rightarrow>
          let s1 = s\<lparr>first_frame_posted := True,
                     arbiter := (arbiter s)\<lparr>arb_map := receive_buffer (the_map s) (buf_id b)\<rparr>\<rparr>
          in case buffer_at (the_map s1) (buf_id b) of
               Inl e \<Rightarrow> (Inl e, s1)
             | Inr b' \<Rightarrow>
                 let (sch, m) = schedule (the_schedule s1) (the_map s1) b';
                     s2 = s1\<lparr>arbiter := (arbiter s1)\<lparr>arb_schedule := sch, arb_map := m\<rparr>\<rparr>;
                     s3 = (if associated_buffers s2 \<noteq> {} \<and> client_owned_buffer_count s2 = 0
                           then s2\<lparr>drop_policy := swap_now_blocking now (drop_policy s2)\<rparr> else s2)
                 in (Inr (), s3\<lparr>frames_posted := frames_posted s3 @ [(1, buf_size b)]\<rparr>))"

text \<open>
  The callback gets the buffer of a \<open>TemporarySnapshotBuffer\<close>, whose destructor releases it.
\<close>

definition with_most_recent_buffer_do :: "Stream \<Rightarrow> (Stream, Buffer) outcome" where
  "with_most_recent_buffer_do s =
     (case snapshot_acquire (arbiter s) of
        (Inl e, a) \<Rightarrow> (Inl e, s\<lparr>arbiter := a\<rparr>)
      | (Inr b, a) \<Rightarrow> (Inr b, s\<lparr>arbiter := snd (snapshot_release a b)\<rparr>))"

definition lock_compositor_buffer :: "int \<Rightarrow> Stream \<Rightarrow> CompositorID \<Rightarrow> (Stream, Buffer) outcome" where
  "lock_compositor_buffer now s cid =
     (let s1 = s\<lparr>drop_policy := swap_unblocked now (drop_policy s)\<rparr>
      in apsnd (\<lambda>a. s1\<lparr>arbiter := a\<rparr>) (compositor_acquire (arbiter s1) cid))"

definition release_compositor_buffer :: "Stream \<Rightarrow> Buffer \<Rightarrow> (Stream, unit) outcome" where
  "release_compositor_buffer s b =
     apsnd (\<lambda>a. s\<lparr>arbiter := a\<rparr>) (compositor_release (arbiter s) b)"

definition stream_size :: "Stream \<Rightarrow> Size" where
  "stream_size s = strm_size s"

definition resize :: "Stream \<Rightarrow> Size \<Rightarrow> Stream" where
  "resize s new_size = s\<lparr>strm_size := new_size\<rparr>"

text \<open>\<open>for (auto& buffer : transferred_buffers) new_schedule->schedule(buffer)\<close>\<close>

fun schedule_all :: "Schedule \<Rightarrow> BufferMap \<Rightarrow> Buffer list \<Rightarrow> Schedule \<times> BufferMap" where
  "schedule_all sch m [] = (sch, m)"
| "schedule_all sch m (b # bs) = (let (sch', m') = schedule sch m b in schedule_all sch' m' bs)"

definition transition_schedule :: "Stream \<Rightarrow> Schedule \<Rightarrow> Stream" where
  "transition_schedule s new_schedule =
     (let (transferred_buffers, _) = drain (the_schedule s);
          (sch, m) = schedule_all new_schedule (the_map s) transferred_buffers
      in s\<lparr>arbiter := set_schedule ((arbiter s)\<lparr>arb_map := m\<rparr>) sch\<rparr>)"

definition allow_framedropping :: "Stream \<Rightarrow> bool \<Rightarrow> Stream" where
  "allow_framedropping s dropping =
     (if dropping \<and> schedule_mode s = Queueing
      then (transition_schedule s (DroppingSchedule None))\<lparr>schedule_mode := Dropping\<rparr>
      else if \<not> dropping \<and> schedule_mode s = Dropping
      then (transition_schedule s (QueueingSchedule []))\<lparr>schedule_mode := Queueing\<rparr>
      else s)"

definition framedropping :: "Stream \<Rightarrow> bool" where
  "framedropping s \<longleftrightarrow> schedule_mode s = Dropping"

definition buffers_ready_for_compositor :: "Stream \<Rightarrow> CompositorID \<Rightarrow> int" where
  "buffers_ready_for_compositor s cid = (if buffer_ready_for (arbiter s) cid then 1 else 0)"

definition drop_old_buffers :: "Stream \<Rightarrow> Stream" where
  "drop_old_buffers s =
     (let (transferred_buffers, sch0) = drain (the_schedule s);
          (sch, m) = (if transferred_buffers \<noteq> [] then schedule sch0 (the_map s) (last transferred_buffers)
                      else (sch0, the_map s));
          rest = (if transferred_buffers \<noteq> [] then butlast transferred_buffers else transferred_buffers);
          m' = send_all m (map buf_id rest)
      in s\<lparr>arbiter := advance_schedule ((arbiter s)\<lparr>arb_schedule := sch, arb_map := m'\<rparr>)\<rparr>)"

definition has_submitted_buffer :: "Stream \<Rightarrow> bool" where
  "has_submitted_buffer s = first_frame_posted s"

definition associate_buffer :: "Stream \<Rightarrow> BufferID \<Rightarrow> Stream" where
  "associate_buffer s i = s\<lparr>associated_buffers := insert i (associated_buffers s)\<rparr>"

definition disassociate_buffer :: "Stream \<Rightarrow> BufferID \<Rightarrow> Stream" where
  "disassociate_buffer s i = s\<lparr>associated_buffers := associated_buffers s - {i}\<rparr>"

definition drop_frame :: "Stream \<Rightarrow> Stream" where
  "drop_frame s =
     (if num_scheduled (the_schedule s) > 1 then
        (case next_buffer (the_schedule s) of
           (Inr b, sch) \<Rightarrow>
             s\<lparr>arbiter := (arbiter s)\<lparr>arb_schedule := sch, arb_map := send_buffer (the_map s) (buf_id b)\<rparr>\<rparr>
         | (Inl _, sch) \<Rightarrow> s\<lparr>arbiter := (arbiter s)\<lparr>arb_schedule := sch\<rparr>\<rparr>)
      else s)"

text \<open>The alarm of the drop policy fires: the assertion, \<open>drop_frame\<close> and the post-call hook.\<close>

definition drop_alarm_fires :: "int \<Rightarrow> Stream \<Rightarrow> bool \<times> Stream" where
  "drop_alarm_fires now s =
     (let (ok, p) = policy_alarm_fire now (drop_policy s)
      in (ok, (drop_frame s)\<lparr>drop_policy := p\<rparr>))"

text \<open>
  \<open>~Stream\<close> sends back what is scheduled; the arbiter is destroyed with the stream, or later with
  the last compositor's or snapshot's buffer, which keeps it alive.
\<close>

definition close_Stream :: "Stream \<Rightarrow> Stream" where
  "close_Stream s =
     (let (bs, sch) = drain (the_schedule s)
      in s\<lparr>arbiter := (arbiter s)\<lparr>arb_schedule := sch, arb_map := send_all (the_map s) (map buf_id bs)\<rparr>\<rparr>)"

definition destroy_Stream :: "Stream \<Rightarrow> BufferMap" where
  "destroy_Stream s = destroy_arbiter (arbiter (close_Stream s))"

section \<open>The stream invariant\<close>

fun mode_of :: "Schedule \<Rightarrow> ScheduleMode" where
  "mode_of (QueueingSchedule _) = Queueing"
| "mode_of (DroppingSchedule _) = Dropping"

definition stream_inv :: "BufferID set \<Rightarrow> Buffer multiset \<Rightarrow> Stream \<Rightarrow> bool" where
  "stream_inv ew held s \<longleftrightarrow>
     arb_inv ew held (arbiter s) \<and> schedule_mode s = mode_of (the_schedule s) \<and>
     (first_frame_posted s \<longrightarrow> displayable (arbiter s))"

lemma same_kind_mode_of: "same_kind s t \<Longrightarrow> mode_of s = mode_of t"
  by (cases s; cases t) simp_all

lemma arb_inv_frame:
  assumes "arb_inv ew held a" and "onscreen_buffers a' = onscreen_buffers a"
    and "mset (contents (arb_schedule a')) + mset sent = mset (contents (arb_schedule a))"
    and "arb_map a' = send_all (arb_map a) (map buf_id sent)"
  shows "arb_inv ew held a'"
proof -
  have "mset (server_buffers a') + mset sent = mset (server_buffers a)"
    using assms(2,3) by (simp add: server_buffers_def flip: assms(3))
  then show ?thesis
    using owners_agree_send [of ew a a' sent] assms by (auto simp: arb_inv_def counts_agree_def)
qed

lemma schedule_all_conserves:
  "\<lbrakk>schedule_all sch m bs = (sch', m'); distinct bs; set bs \<inter> set (contents sch) = {}\<rbrakk> \<Longrightarrow>
   \<exists>sent. mset (contents sch') + mset sent = mset (contents sch) + mset bs \<and>
     m' = send_all m (map buf_id sent) \<and> (bs \<noteq> [] \<longrightarrow> contents sch' \<noteq> []) \<and> same_kind sch' sch"
proof (induction bs arbitrary: sch m)
  case Nil
  then show ?case by (intro exI [of _ "[]"]) simp
next
  case (Cons b bs)
  obtain sch1 m1 where s1: "schedule sch m b = (sch1, m1)" by fastforce
  obtain kept dropped where k: "contents sch1 = kept @ [b]"
    "mset kept + mset dropped = mset (remove1 b (contents sch))" "m1 = send_all m (map buf_id dropped)"
    using virt.sched_conserves [OF s1] by blast
  have nb: "remove1 b (contents sch) = contents sch" using Cons.prems(3) by (simp add: remove1_idem)
  have sub: "set kept \<subseteq> set (contents sch)"
    using k(2) nb by (metis mset_subset_eq_add_left set_mset_mono set_mset_mset)
  obtain sent where t: "mset (contents sch') + mset sent = mset (contents sch1) + mset bs"
    "m' = send_all m1 (map buf_id sent)" "same_kind sch' sch1" "bs \<noteq> [] \<longrightarrow> contents sch' \<noteq> []"
    using Cons.IH [of sch1 m1] Cons.prems s1 k(1) sub by auto
  have "same_kind sch' sch"
    using t(3) same_kind_schedule [of sch m b] s1 same_kind_trans by (metis fst_conv)
  moreover have "contents sch' \<noteq> []"
    using t(4) k(1) Cons.prems(1) s1 by (cases bs) auto
  moreover have "mset (contents sch') + mset (dropped @ sent) = mset (contents sch) + mset (b # bs)"
    using t(1) k(1,2) nb by (simp add: ac_simps)
  moreover have "m' = send_all m (map buf_id (dropped @ sent))"
    using t(2) k(3) by (simp add: send_all_append)
  ultimately show ?case by blast
qed

section \<open>Every operation keeps the invariant\<close>

lemma client_buffer_not_held:
  "\<lbrakk>arb_inv ew held a; owner_of (arb_map a) i = Some Owner_client\<rbrakk> \<Longrightarrow> i \<notin> buf_id ` set (server_buffers a)"
  by (auto simp: arb_inv_def owners_agree_def)

text \<open>Receiving a client's buffer and queueing it, before the schedule drops anything.\<close>

lemma receive_inv:
  assumes "arb_inv ew held a" and "owner_of (arb_map a) (buf_id b) = Some Owner_client"
  shows "arb_inv ew held (a\<lparr>arb_map := receive_buffer (arb_map a) (buf_id b),
                          arb_schedule := QueueingSchedule (contents (arb_schedule a) @ [b])\<rparr>)"
  using assms client_buffer_not_held [OF assms]
  by (auto simp: arb_inv_def unique_buffers_def owners_agree_def counts_agree_def server_buffers_def
      owner_of_receive split: if_splits)

lemma submit_buffer_inv:
  assumes inv: "stream_inv ew held s"
    and e: "buffers (the_map s) (buf_id b) = Some \<lparr>entry_buffer = b, entry_owner = Owner_client\<rparr>"
  obtains s' where "submit_buffer now s (Some b) = (Inr (), s')" "stream_inv ew held s'"
    "onscreen_buffers (arbiter s') = onscreen_buffers (arbiter s)"
    "(the_schedule s', the_map s') = schedule (the_schedule s) (receive_buffer (the_map s) (buf_id b)) b"
    "frames_posted s' = frames_posted s @ [(1, buf_size b)]" "first_frame_posted s'"
proof -
  let ?m1 = "receive_buffer (the_map s) (buf_id b)"
  obtain sch m where sm: "schedule (the_schedule s) ?m1 b = (sch, m)" by fastforce
  have at: "buffer_at ?m1 (buf_id b) = Inr b"
    by (simp add: buffer_at_buffer_of) (simp add: buffer_of_def e)
  define s2 where "s2 = s\<lparr>first_frame_posted := True, arbiter := (arbiter s)\<lparr>arb_schedule := sch, arb_map := m\<rparr>\<rparr>"
  define s3 where "s3 = (if associated_buffers s2 \<noteq> {} \<and> client_owned_buffer_count s2 = 0
     then s2\<lparr>drop_policy := swap_now_blocking now (drop_policy s2)\<rparr> else s2)"
  define s' where "s' = s3\<lparr>frames_posted := frames_posted s3 @ [(1, buf_size b)]\<rparr>"
  have s': "submit_buffer now s (Some b) = (Inr (), s')"
    by (simp add: submit_buffer_def Let_def at sm s'_def s3_def s2_def)
  have a': "arbiter s' = (arbiter s)\<lparr>arb_schedule := sch, arb_map := m\<rparr>"
    "schedule_mode s' = schedule_mode s" "first_frame_posted s'"
    "frames_posted s' = frames_posted s @ [(1, buf_size b)]"
    by (simp_all add: s'_def s3_def s2_def)
  obtain kept dropped where k: "contents sch = kept @ [b]"
    "mset kept + mset dropped = mset (remove1 b (contents (the_schedule s)))" "m = send_all ?m1 (map buf_id dropped)"
    using virt.sched_conserves [OF sm] by blast
  have own: "owner_of (the_map s) (buf_id b) = Some Owner_client" by (simp add: owner_of_def e)
  have inv_a: "arb_inv ew held (arbiter s)" using inv by (simp add: stream_inv_def)
  have "b \<notin> set (contents (the_schedule s))"
    using client_buffer_not_held [OF inv_a own] by (auto simp: server_buffers_def)
  with k(2) have "mset (contents sch) + mset dropped = mset (contents (the_schedule s) @ [b])"
    by (simp add: k(1) remove1_idem ac_simps)
  with arb_inv_frame [OF receive_inv [OF inv_a own], of "arbiter s'" dropped] k(3) a'(1)
  have "arb_inv ew held (arbiter s')" by simp
  moreover have "mode_of sch = mode_of (the_schedule s)"
    using same_kind_schedule [of "the_schedule s" ?m1 b] sm same_kind_mode_of by (metis fst_conv)
  ultimately have "stream_inv ew held s'"
    using inv a' k(1) by (simp add: stream_inv_def displayable_def)
  with that [OF s'] a' sm show ?thesis by simp
qed

lemma stream_inv_arbiter:
  "\<lbrakk>stream_inv ew held s; arb_inv ew held' a'; mode_of (arb_schedule a') = mode_of (the_schedule s);
    displayable (arbiter s) \<Longrightarrow> displayable a'\<rbrakk> \<Longrightarrow> stream_inv ew held' (s\<lparr>arbiter := a'\<rparr>)"
  by (simp add: stream_inv_def)

lemma stream_inv_policy [simp]: "stream_inv ew held (s\<lparr>drop_policy := p\<rparr>) = stream_inv ew held s"
  by (simp add: stream_inv_def)

lemma lock_compositor_inv:
  assumes "stream_inv ew held s" and "lock_compositor_buffer now s cid = (Inr b, s')" and "size held < 2 ^ 32 - 1"
  shows "stream_inv ew (add_mset b held) s'"
proof -
  from assms(2) obtain a' where a': "compositor_acquire (arbiter s) cid = (Inr b, a')"
    "s' = s\<lparr>drop_policy := swap_unblocked now (drop_policy s), arbiter := a'\<rparr>"
    by (auto simp: lock_compositor_buffer_def Let_def apsnd_def map_prod_def split: prod.splits)
  then have d: "displayable (arbiter s)"
    by (auto simp: compositor_acquire_def displayable_def sched_simps split: if_splits)
  have "arb_inv ew held (arbiter s)" using assms(1) by (simp add: stream_inv_def)
  from compositor_acquire_inv [OF this d assms(3), of cid] a'(1)
  have "arb_inv ew (add_mset b held) a'" "onscreen_buffers a' \<noteq> []" "same_kind (arb_schedule a') (the_schedule s)"
    by (metis Inr_inject prod.inject)+
  then have "stream_inv ew (add_mset b held) (s\<lparr>arbiter := a'\<rparr>)"
    using assms(1) same_kind_mode_of by (intro stream_inv_arbiter) (auto simp: displayable_def)
  then show ?thesis by (simp add: a'(2) stream_inv_def)
qed

lemma release_compositor_inv:
  assumes "stream_inv ew held s" and "b \<in># held"
  obtains s' where "release_compositor_buffer s b = (Inr (), s')" "stream_inv ew (held - {#b#}) s'"
proof -
  have "arb_inv ew held (arbiter s)" using assms(1) by (simp add: stream_inv_def)
  then obtain a' where a': "compositor_release (arbiter s) b = (Inr (), a')" "arb_inv ew (held - {#b#}) a'"
    "displayable a'" "arb_schedule a' = the_schedule s"
    using compositor_release_inv [OF _ assms(2)] by metis
  then have "stream_inv ew (held - {#b#}) (s\<lparr>arbiter := a'\<rparr>)"
    using assms(1) by (intro stream_inv_arbiter) auto
  with that a'(1) show ?thesis by (simp add: release_compositor_buffer_def)
qed

lemma snapshot_lock_inv:
  assumes "stream_inv ew held s" and "snapshot_acquire (arbiter s) = (Inr b, a')" and "size held < 2 ^ 32 - 1"
  shows "stream_inv ew (add_mset b held) (s\<lparr>arbiter := a'\<rparr>)"
proof -
  have d: "displayable (arbiter s)"
    using assms(2) by (auto simp: snapshot_acquire_def displayable_def sched_simps split: if_splits)
  have "arb_inv ew held (arbiter s)" using assms(1) by (simp add: stream_inv_def)
  from snapshot_acquire_inv [OF this d assms(3)] assms(2)
  have "arb_inv ew (add_mset b held) a'" "onscreen_buffers a' \<noteq> []" "same_kind (arb_schedule a') (the_schedule s)"
    by (metis Inr_inject prod.inject)+
  then show ?thesis
    using assms(1) same_kind_mode_of by (intro stream_inv_arbiter) (auto simp: displayable_def)
qed

lemma snapshot_unlock_inv:
  assumes "stream_inv ew held s" and "b \<in># held"
  obtains a' where "snapshot_release (arbiter s) b = (Inr (), a')" "stream_inv ew (held - {#b#}) (s\<lparr>arbiter := a'\<rparr>)"
proof -
  have "arb_inv ew held (arbiter s)" using assms(1) by (simp add: stream_inv_def)
  then obtain a' where a': "snapshot_release (arbiter s) b = (Inr (), a')" "arb_inv ew (held - {#b#}) a'"
    "displayable a'" "arb_schedule a' = the_schedule s"
    using snapshot_release_inv [OF _ assms(2)] by metis
  then have "stream_inv ew (held - {#b#}) (s\<lparr>arbiter := a'\<rparr>)"
    using assms(1) by (intro stream_inv_arbiter) auto
  with that a'(1) show ?thesis by blast
qed

lemma transition_inv:
  assumes "stream_inv ew held s" and "contents new_schedule = []"
  shows "stream_inv ew held ((transition_schedule s new_schedule)\<lparr>schedule_mode := mode_of new_schedule\<rparr>)"
proof -
  let ?bs = "contents (the_schedule s)"
  obtain sch m where sm: "schedule_all new_schedule (the_map s) ?bs = (sch, m)" by fastforce
  have t: "transition_schedule s new_schedule = s\<lparr>arbiter := (arbiter s)\<lparr>arb_map := m, arb_schedule := sch\<rparr>\<rparr>"
    using drain_contents [of "the_schedule s"]
    by (auto simp: transition_schedule_def set_schedule_def sm split: prod.splits)
  have inv: "arb_inv ew held (arbiter s)" using assms(1) by (simp add: stream_inv_def)
  then have "distinct ?bs"
    by (auto simp: arb_inv_def unique_buffers_def server_buffers_def distinct_map)
  then obtain sent where "mset (contents sch) + mset sent = mset ?bs" "m = send_all (the_map s) (map buf_id sent)"
    "?bs \<noteq> [] \<longrightarrow> contents sch \<noteq> []" "same_kind sch new_schedule"
    using schedule_all_conserves [OF sm] assms(2) by auto
  with assms(1) arb_inv_frame [OF inv] show ?thesis
    by (auto simp: t stream_inv_def displayable_def same_kind_mode_of)
qed

lemma allow_framedropping_inv: "stream_inv ew held s \<Longrightarrow> stream_inv ew held (allow_framedropping s d)"
  using transition_inv [of ew held s "DroppingSchedule None"] transition_inv [of ew held s "QueueingSchedule []"]
  by (simp add: allow_framedropping_def)

lemma drop_frame_inv:
  assumes "stream_inv ew held s"
  shows "stream_inv ew held (drop_frame s)"
proof (cases "num_scheduled (the_schedule s) > 1")
  case True
  then obtain b sch where n: "next_buffer (the_schedule s) = (Inr b, sch)" "contents (the_schedule s) = b # contents sch"
    using virt.next_num [of "the_schedule s"] by auto
  let ?a = "(arbiter s)\<lparr>arb_schedule := sch, arb_map := send_buffer (the_map s) (buf_id b)\<rparr>"
  have "arb_inv ew held ?a"
    using assms n(2) arb_inv_frame [of ew held "arbiter s" ?a "[b]"] by (simp add: stream_inv_def)
  moreover have "mode_of sch = mode_of (the_schedule s)"
    using same_kind_next [of "the_schedule s"] n(1) same_kind_mode_of by simp
  moreover have "displayable ?a" using True n(2) by (auto simp: displayable_def sched_simps)
  ultimately show ?thesis
    using True n(1) assms by (simp add: drop_frame_def stream_inv_arbiter)
qed (simp add: drop_frame_def assms)

lemma drop_old_buffers_inv:
  assumes "stream_inv ew held s"
  shows "stream_inv ew held (drop_old_buffers s)"
proof -
  let ?bs = "contents (the_schedule s)"
  obtain sch0 where d: "drain (the_schedule s) = (?bs, sch0)" "contents sch0 = []" "same_kind sch0 (the_schedule s)"
    using drain_contents [of "the_schedule s"] same_kind_drain [of "the_schedule s"] by (metis prod.collapse)
  define sch where "sch = (if ?bs \<noteq> [] then fst (schedule sch0 (the_map s) (last ?bs)) else sch0)"
  let ?a = "(arbiter s)\<lparr>arb_schedule := sch, arb_map := send_all (the_map s) (map buf_id (butlast ?bs))\<rparr>"
  have keep: "contents (fst (schedule sch0 (the_map s) b)) = [b] \<and> snd (schedule sch0 (the_map s) b) = the_map s" for b
    using virt.sched_conserves [of sch0 "the_map s" b] d(2) by (metis append_Nil empty_eq_union
      list.simps(8) mset_zero_iff prod.collapse remove1.simps(1) send_all_Nil)
  have eq: "drop_old_buffers s = s\<lparr>arbiter := advance_schedule ?a\<rparr>"
    using keep [of "last ?bs"] by (auto simp: drop_old_buffers_def d sch_def split: prod.splits)
  have cont: "contents sch = (if ?bs = [] then [] else [last ?bs])" using keep d(2) by (simp add: sch_def)
  then have "mset (contents sch) + mset (butlast ?bs) = mset ?bs"
    by (cases ?bs rule: rev_cases) simp_all
  then have inv: "arb_inv ew held ?a"
    using assms arb_inv_frame [of ew held "arbiter s" ?a "butlast ?bs"] by (simp add: stream_inv_def)
  have "same_kind sch (the_schedule s)"
    using d(3) same_kind_schedule same_kind_trans unfolding sch_def by (metis (full_types))
  then have "mode_of (arb_schedule (advance_schedule ?a)) = mode_of (the_schedule s)"
    using advance_schedule_simps(2) [of ?a] same_kind_mode_of by simp
  then show ?thesis
    unfolding eq using assms advance_schedule_inv [OF inv] advance_schedule_simps(1) [of ?a] cont
    by (intro stream_inv_arbiter) (auto simp: displayable_def)
qed

lemma close_Stream_eq:
  "\<exists>sch. contents sch = [] \<and> same_kind sch (the_schedule s) \<and>
     close_Stream s = s\<lparr>arbiter := (arbiter s)\<lparr>arb_schedule := sch,
       arb_map := send_all (the_map s) (map buf_id (contents (the_schedule s)))\<rparr>\<rparr>"
  using drain_contents [of "the_schedule s"] same_kind_drain [of "the_schedule s"]
  by (intro exI [of _ "snd (drain (the_schedule s))"]) (auto simp: close_Stream_def split: prod.splits)

lemma close_Stream_inv:
  assumes "stream_inv ew held s" and "held \<noteq> {#}"
  shows "stream_inv ew held (close_Stream s)"
proof -
  obtain sch where c: "contents sch = []" "same_kind sch (the_schedule s)"
    "close_Stream s = s\<lparr>arbiter := (arbiter s)\<lparr>arb_schedule := sch,
       arb_map := send_all (the_map s) (map buf_id (contents (the_schedule s)))\<rparr>\<rparr>" (is "_ = s\<lparr>arbiter := ?a\<rparr>")
    using close_Stream_eq [of s] by blast
  have inv: "arb_inv ew held (arbiter s)" using assms(1) by (simp add: stream_inv_def)
  then have "arb_inv ew held ?a"
    using c(1) by (intro arb_inv_frame [OF inv, where sent = "contents (the_schedule s)"]) simp_all
  moreover obtain b where "b \<in># held" using assms(2) by blast
  then have "onscreen_buffers (arbiter s) \<noteq> []" using held_entry [OF inv] by fastforce
  ultimately show ?thesis
    unfolding c(3) using assms(1) same_kind_mode_of [OF c(2)]
    by (intro stream_inv_arbiter) (simp_all add: displayable_def)
qed

text \<open>Once nobody holds a buffer, destroying the stream sends every one of its buffers back.\<close>

lemma send_unused_all:
  "\<forall>e\<in>set es. use_count e = 0 \<Longrightarrow> send_unused es m = send_all m (map (buf_id \<circ> se_buffer) es)"
  by (induction es arbitrary: m) simp_all

lemma destroy_Stream_owner:
  assumes "stream_inv ew {#} s"
  shows "owner_of (destroy_Stream s) i =
           (if i \<in> buf_id ` set (server_buffers (arbiter s))
            then map_option (\<lambda>_. Owner_client) (owner_of (the_map s) i) else owner_of (the_map s) i)"
proof -
  have "\<forall>e\<in>set (onscreen_buffers (arbiter s)). use_count e = 0"
    using assms by (auto simp: stream_inv_def arb_inv_def counts_agree_def unat_eq_zero)
  then have "destroy_Stream s = send_all (the_map s) (map buf_id (contents (the_schedule s)) @
       map (buf_id \<circ> se_buffer) (onscreen_buffers (arbiter s)))"
    using close_Stream_eq [of s]
    by (auto simp: destroy_Stream_def destroy_arbiter_def send_unused_all send_all_append)
  then show ?thesis by (auto simp: owner_of_send_all server_buffers_def)
qed

section \<open>Runs of a stream\<close>

text \<open>
  One rule per operation.  The client submits only buffers it owns (the server does not check this,
  see \<open>resubmitted_buffer_shared\<close> below); compositors and snapshots release what they acquired, in
  any order: a snapshot is an acquisition and, any number of steps of the compositors later, a
  release.  Fewer than \<open>2 ^ 32 - 1\<close> buffers are held at a time, the range of \<open>use_count\<close>.
  \<open>close\<close> is the destruction of a stream whose arbiter somebody still keeps alive.
\<close>

inductive stream_op :: "Stream \<Rightarrow> Buffer multiset \<Rightarrow> Stream \<Rightarrow> Buffer multiset \<Rightarrow> bool" where
  submit: "buffers (the_map s) (buf_id b) = Some \<lparr>entry_buffer = b, entry_owner = Owner_client\<rparr> \<Longrightarrow>
           stream_op s held (snd (submit_buffer now s (Some b))) held"
| lock: "\<lbrakk>lock_compositor_buffer now s cid = (Inr b, s'); size held < 2 ^ 32 - 1\<rbrakk> \<Longrightarrow>
         stream_op s held s' (add_mset b held)"
| release: "b \<in># held \<Longrightarrow>
            stream_op s held (snd (release_compositor_buffer s b)) (held - {#b#})"
| snapshot_lock: "\<lbrakk>snapshot_acquire (arbiter s) = (Inr b, a'); size held < 2 ^ 32 - 1\<rbrakk> \<Longrightarrow>
                  stream_op s held (s\<lparr>arbiter := a'\<rparr>) (add_mset b held)"
| snapshot_unlock: "b \<in># held \<Longrightarrow>
                    stream_op s held (s\<lparr>arbiter := snd (snapshot_release (arbiter s) b)\<rparr>) (held - {#b#})"
| framedropping: "stream_op s held (allow_framedropping s d) held"
| drop_old: "stream_op s held (drop_old_buffers s) held"
| alarm: "stream_op s held (snd (drop_alarm_fires now s)) held"
| associate: "stream_op s held (associate_buffer s i) held"
| disassociate: "stream_op s held (disassociate_buffer s i) held"
| resize: "stream_op s held (resize s sz) held"
| mode: "stream_op s held (s\<lparr>arbiter := set_mode (arbiter s) md\<rparr>) held"
| close: "held \<noteq> {#} \<Longrightarrow> stream_op s held (close_Stream s) held"

text \<open>
  The buffer map is the session's: allocating and freeing buffers, and the session's other streams,
  change it between the operations of a stream.  They may do anything to it but hand one of the
  stream's buffers to the client.
\<close>

abbreviation with_map :: "BufferMap \<Rightarrow> Stream \<Rightarrow> Stream" where
  "with_map m s \<equiv> s\<lparr>arbiter := (arbiter s)\<lparr>arb_map := m\<rparr>\<rparr>"

abbreviation stream_ids :: "Stream \<Rightarrow> BufferID set" where
  "stream_ids s \<equiv> buf_id ` set (server_buffers (arbiter s))"

inductive stream_step :: "Stream \<Rightarrow> Buffer multiset \<Rightarrow> Stream \<Rightarrow> Buffer multiset \<Rightarrow> bool" where
  own: "stream_op s held s' held' \<Longrightarrow> stream_step s held s' held'"
| shared: "\<forall>i\<in>stream_ids s. owner_of m i \<noteq> Some Owner_client \<Longrightarrow> stream_step s held (with_map m s) held"

inductive stream_reachable :: "Stream \<Rightarrow> Buffer multiset \<Rightarrow> bool" where
  init: "stream_reachable (new_Stream t m sz format) {#}"
| step: "\<lbrakk>stream_reachable s held; stream_step s held s' held'\<rbrakk> \<Longrightarrow> stream_reachable s' held'"

lemma stream_inv_new:
  "\<forall>i w. owner_of m i = Some w \<longrightarrow> (w = Owner_server \<longleftrightarrow> i \<in> ew) \<Longrightarrow>
   stream_inv ew {#} (new_Stream t m sz format)"
  by (simp add: stream_inv_def new_Stream_def new_arbiter_def arb_inv_defs server_buffers_def)

lemma stream_inv_remap:
  "\<lbrakk>stream_inv ew held s; stream_ids s \<inter> ew' = {};
    \<forall>i w. owner_of m i = Some w \<longrightarrow> (w = Owner_server \<longleftrightarrow> i \<in> stream_ids s \<union> ew')\<rbrakk>
   \<Longrightarrow> stream_inv ew' held (with_map m s)"
  by (auto simp: stream_inv_def arb_inv_def unique_buffers_def owners_agree_def counts_agree_def
      server_buffers_def displayable_def)

lemma stream_inv_frame [simp]:
  "stream_inv ew held (s\<lparr>associated_buffers := bs\<rparr>) = stream_inv ew held s"
  "stream_inv ew held (s\<lparr>strm_size := sz\<rparr>) = stream_inv ew held s"
  "stream_inv ew held (s\<lparr>arbiter := set_mode (arbiter s) md\<rparr>) = stream_inv ew held s"
  by (simp_all add: stream_inv_def set_mode_def displayable_def)

lemma stream_op_inv:
  "\<lbrakk>stream_op s held s' held'; stream_inv ew held s\<rbrakk> \<Longrightarrow> stream_inv ew held' s'"
proof (induction rule: stream_op.induct)
  case (submit s b held now)
  then show ?case using submit_buffer_inv [of ew held s b now] by (metis snd_conv)
next
  case (release b held s)
  then show ?case using release_compositor_inv [of ew held s b] by (metis snd_conv)
next
  case (snapshot_unlock b held s)
  then show ?case using snapshot_unlock_inv [of ew held s b] by (metis snd_conv)
next
  case (alarm s held now)
  then show ?case by (simp add: drop_alarm_fires_def drop_frame_inv split: prod.splits)
qed (simp_all add: lock_compositor_inv snapshot_lock_inv allow_framedropping_inv drop_old_buffers_inv
    associate_buffer_def disassociate_buffer_def resize_def close_Stream_inv)

lemma stream_step_inv:
  "\<lbrakk>stream_step s held s' held'; stream_inv ew held s\<rbrakk> \<Longrightarrow> \<exists>ew'. stream_inv ew' held' s'"
proof (induction rule: stream_step.induct)
  case (own s held s' held')
  then show ?case using stream_op_inv by blast
next
  case (shared s m held)
  let ?ew = "{i. owner_of m i = Some Owner_server} - stream_ids s"
  have "w = Owner_server \<longleftrightarrow> i \<in> stream_ids s \<union> ?ew" if "owner_of m i = Some w" for i w
    using shared(1) that by (cases w) auto
  then have "stream_inv ?ew held (with_map m s)" using stream_inv_remap [OF shared(2), of ?ew m] by auto
  then show ?case by blast
qed

lemma stream_reachable_inv: "stream_reachable s held \<Longrightarrow> \<exists>ew. stream_inv ew held s"
proof (induction rule: stream_reachable.induct)
  case (init t m sz format)
  have "stream_inv {i. owner_of m i = Some Owner_server} {#} (new_Stream t m sz format)"
    by (rule stream_inv_new) auto
  then show ?case by blast
qed (blast dest: stream_step_inv)

text \<open>Taking a snapshot in one go, as \<open>with_most_recent_buffer_do\<close> does, is two of these steps.\<close>

lemma snapshot_reachable:
  assumes "stream_reachable s held" and "size held < 2 ^ 32 - 1"
  shows "stream_reachable (snd (with_most_recent_buffer_do s)) held"
proof (cases "snapshot_acquire (arbiter s)")
  case (Pair r a')
  show ?thesis
  proof (cases r)
    case (Inl e)
    then have "a' = arbiter s" using Pair by (auto simp: snapshot_acquire_def Let_def split: if_splits)
    then show ?thesis using assms(1) Pair Inl by (simp add: with_most_recent_buffer_do_def)
  next
    case (Inr b)
    have r1: "stream_reachable (s\<lparr>arbiter := a'\<rparr>) (add_mset b held)"
      using stream_reachable.step [OF assms(1) stream_step.own] stream_op.snapshot_lock [OF _ assms(2)] Pair Inr
      by blast
    have "stream_op (s\<lparr>arbiter := a'\<rparr>) (add_mset b held)
        (s\<lparr>arbiter := snd (snapshot_release a' b)\<rparr>) (add_mset b held - {#b#})"
      using stream_op.snapshot_unlock [of b "add_mset b held" "s\<lparr>arbiter := a'\<rparr>"] by simp
    then have "stream_reachable (s\<lparr>arbiter := snd (snapshot_release a' b)\<rparr>) held"
      using stream_reachable.step [OF r1 stream_step.own] by simp
    then show ?thesis using Pair Inr by (simp add: with_most_recent_buffer_do_def)
  qed
qed

section \<open>Runs of a session's streams\<close>

text \<open>
  A session makes all its streams with its one buffer map (\<open>ApplicationSession::buffers\<close>).  Its
  streams are a map from keys to each stream with the buffers held from it; an operation works on
  the shared map and leaves it changed for the others.
\<close>

definition group_ids :: "(nat \<rightharpoonup> Stream \<times> Buffer multiset) \<Rightarrow> BufferID set" where
  "group_ids g = {i. \<exists>k s held. g k = Some (s, held) \<and> i \<in> stream_ids s}"

inductive session_streams :: "BufferMap \<Rightarrow> (nat \<rightharpoonup> Stream \<times> Buffer multiset) \<Rightarrow> bool" where
  init: "\<forall>i. buffers m i = None \<Longrightarrow> session_streams m Map.empty"
| create: "\<lbrakk>session_streams m g; g k = None\<rbrakk> \<Longrightarrow> session_streams m (g(k \<mapsto> (new_Stream t m sz format, {#})))"
| operation: "\<lbrakk>session_streams m g; g k = Some (s, held); stream_op (with_map m s) held s' held'\<rbrakk> \<Longrightarrow>
              session_streams (the_map s') (g(k \<mapsto> (s', held')))"
| add: "\<lbrakk>session_streams m g; buffers m (buf_id b) = None; buf_id b \<notin> group_ids g\<rbrakk> \<Longrightarrow>
        session_streams (snd (add_buffer sink_add m b)) g"
| remove: "session_streams m g \<Longrightarrow> session_streams (snd (remove_buffer m i)) g"
| destroy: "\<lbrakk>session_streams m g; g k = Some (s, {#})\<rbrakk> \<Longrightarrow>
            session_streams (destroy_Stream (with_map m s)) (g(k := None))"

definition group_inv :: "BufferMap \<Rightarrow> (nat \<rightharpoonup> Stream \<times> Buffer multiset) \<Rightarrow> bool" where
  "group_inv m g \<longleftrightarrow>
     (\<forall>k s held. g k = Some (s, held) \<longrightarrow> stream_inv (group_ids (g(k := None))) held (with_map m s)) \<and>
     (\<forall>i w. owner_of m i = Some w \<longrightarrow> (w = Owner_server \<longleftrightarrow> i \<in> group_ids g))"

lemma group_ids_upd:
  "group_ids (g(k \<mapsto> (s, held))) = stream_ids s \<union> group_ids (g(k := None))"
  unfolding group_ids_def by (auto split: if_splits)

lemma group_ids_drop: "g k = Some (s, held) \<Longrightarrow> group_ids g = stream_ids s \<union> group_ids (g(k := None))"
  using group_ids_upd [of g k s held] by (simp add: map_upd_triv)

lemma group_ids_mono: "h \<subseteq>\<^sub>m g \<Longrightarrow> group_ids h \<subseteq> group_ids g"
  unfolding group_ids_def map_le_def by (auto simp: dom_def) (metis imageI option.distinct(1))

lemma group_ids_member: "g k = Some (s, held) \<Longrightarrow> i \<in> stream_ids s \<Longrightarrow> i \<in> group_ids g"
  by (auto simp: group_ids_drop)

lemma server_buffers_with_map [simp]: "server_buffers (a\<lparr>arb_map := m\<rparr>) = server_buffers a"
  by (simp add: server_buffers_def)

lemma stream_inv_disjoint: "stream_inv ew held s \<Longrightarrow> stream_ids s \<inter> ew = {}"
  by (simp add: stream_inv_def arb_inv_def owners_agree_def)

lemma stream_inv_owner:
  "\<lbrakk>stream_inv ew held s; owner_of (the_map s) i = Some w\<rbrakk> \<Longrightarrow> (w = Owner_server) = (i \<in> stream_ids s \<union> ew)"
  by (simp add: stream_inv_def arb_inv_def owners_agree_def)

text \<open>
  Whatever one stream does, or is done to it, keeps the invariant of the group when it keeps its own:
  the other streams see other buffers elsewhere, but the same buffers in all.
\<close>

lemma group_inv_upd:
  assumes "group_inv m g" and "stream_inv (group_ids (g(k := None))) held' s'" and m': "the_map s' = m'"
  shows "group_inv m' (g(k \<mapsto> (s', held')))"
proof -
  let ?g = "g(k \<mapsto> (s', held'))"
  have own: "(w = Owner_server) = (i \<in> group_ids ?g)" if "owner_of m' i = Some w" for i w
    using stream_inv_owner [OF assms(2), of i w] that m' by (simp add: group_ids_upd)
  have "stream_inv (group_ids (?g(j := None))) held (with_map m' s)" if j: "?g j = Some (s, held)" for j s held
  proof (cases "j = k")
    case True
    then show ?thesis using assms(2) j m' by auto
  next
    case False
    then have gj: "g j = Some (s, held)" "?g(j := None) = (g(j := None))(k \<mapsto> (s', held'))"
      using j by (auto simp: fun_upd_twist)
    have inv: "stream_inv (group_ids (g(j := None))) held (with_map m s)"
      using assms(1) gj(1) by (simp add: group_inv_def)
    have ids: "group_ids (?g(j := None)) = stream_ids s' \<union> group_ids (g(k := None, j := None))"
      unfolding gj(2) group_ids_upd by (simp add: fun_upd_twist [OF False [symmetric]] fun_upd_twist)
    have "stream_ids s \<subseteq> group_ids (g(k := None))"
      using group_ids_member [of "g(k := None)" j s held] gj(1) False by auto
    moreover have "group_ids (g(k := None, j := None)) \<subseteq> group_ids (g(j := None))"
      by (rule group_ids_mono) (simp add: map_le_def)
    moreover have "stream_ids s \<inter> group_ids (g(j := None)) = {}" using stream_inv_disjoint [OF inv] by simp
    ultimately have "stream_ids s \<inter> group_ids (?g(j := None)) = {}"
      using stream_inv_disjoint [OF assms(2)] unfolding ids by blast
    moreover have "group_ids ?g = stream_ids s \<union> group_ids (?g(j := None))"
      by (rule group_ids_drop) (rule j)
    ultimately show ?thesis using stream_inv_remap [OF inv, of "group_ids (?g(j := None))" m'] own by simp
  qed
  with own show ?thesis unfolding group_inv_def by blast
qed

lemma group_inv_remap:
  assumes "group_inv m g" and "\<And>i w. owner_of m' i = Some w \<Longrightarrow> (w = Owner_server) = (i \<in> group_ids g)"
  shows "group_inv m' g"
proof -
  have "stream_inv (group_ids (g(k := None))) held (with_map m' s)" if k: "g k = Some (s, held)" for k s held
  proof -
    have inv: "stream_inv (group_ids (g(k := None))) held (with_map m s)"
      using assms(1) k by (simp add: group_inv_def)
    show ?thesis
      using stream_inv_remap [OF inv, of "group_ids (g(k := None))" m'] stream_inv_disjoint [OF inv]
        assms(2) group_ids_drop [of g k s held] k by simp
  qed
  with assms(2) show ?thesis by (simp add: group_inv_def)
qed

lemma group_inv_destroy:
  assumes inv: "group_inv m g" and k: "g k = Some (s, {#})"
  shows "group_inv (destroy_Stream (with_map m s)) (g(k := None))"
proof -
  let ?m = "destroy_Stream (with_map m s)" and ?g = "g(k := None)"
  have sk: "stream_inv (group_ids ?g) {#} (with_map m s)" using assms by (simp add: group_inv_def)
  have own: "(w = Owner_server) = (i \<in> group_ids ?g)" if w: "owner_of ?m i = Some w" for i w
    using w destroy_Stream_owner [OF sk, of i] stream_inv_disjoint [OF sk] stream_inv_owner [OF sk, of i]
    by (auto split: if_splits)
  have "stream_inv (group_ids (?g(j := None))) held (with_map ?m t)" if j: "?g j = Some (t, held)" for j t held
  proof -
    have gj: "g j = Some (t, held)" using j by (auto split: if_splits)
    have inv_j: "stream_inv (group_ids (g(j := None))) held (with_map m t)"
      using inv gj by (simp add: group_inv_def)
    have "group_ids (?g(j := None)) \<subseteq> group_ids (g(j := None))"
      by (rule group_ids_mono) (simp add: map_le_def)
    then show ?thesis
      using stream_inv_remap [OF inv_j, of "group_ids (?g(j := None))" ?m] stream_inv_disjoint [OF inv_j]
        own group_ids_drop [of ?g j t held] j by auto
  qed
  with own show ?thesis by (simp add: group_inv_def)
qed

lemma session_streams_inv: "session_streams m g \<Longrightarrow> group_inv m g"
proof (induction rule: session_streams.induct)
  case (init m)
  then show ?case by (simp add: group_inv_def owner_of_def)
next
  case (create m g k t sz format)
  have "g(k := None) = g" using create(2) by auto
  moreover have "stream_inv (group_ids g) {#} (new_Stream t m sz format)"
    using create.IH by (intro stream_inv_new) (simp add: group_inv_def)
  ultimately show ?case
    by (intro group_inv_upd [OF create.IH]) (simp_all add: new_Stream_def new_arbiter_def)
next
  case (operation m g k s held s' held')
  then have "stream_inv (group_ids (g(k := None))) held (with_map m s)" by (simp add: group_inv_def)
  then have "stream_inv (group_ids (g(k := None))) held' s'" by (rule stream_op_inv [OF operation(3)])
  then show ?case by (rule group_inv_upd [OF operation.IH]) simp
next
  case (add m g b sink_add)
  show ?case
    using add by (intro group_inv_remap [OF add.IH]) (auto simp: owner_of_add group_inv_def split: if_splits)
next
  case (remove m g i)
  show ?case
    using remove by (intro group_inv_remap [OF remove.IH]) (auto simp: owner_of_remove group_inv_def split: if_splits)
next
  case (destroy m g k s)
  show ?case by (rule group_inv_destroy [OF destroy.IH destroy(2)])
qed

text \<open>Seen from one of the streams, a run of the session is a run of the stream.\<close>

lemma stream_reachable_remap:
  assumes "group_inv m' g'" and "g' k = Some (s, held)" and "stream_reachable (with_map m s) held"
  shows "stream_reachable (with_map m' s) held"
proof -
  have "stream_inv (group_ids (g'(k := None))) held (with_map m' s)" using assms(1,2) by (simp add: group_inv_def)
  from stream_inv_owner [OF this]
  have "\<forall>i\<in>stream_ids (with_map m s). owner_of m' i \<noteq> Some Owner_client" by auto
  from stream_reachable.step [OF assms(3) stream_step.shared [OF this]] show ?thesis by simp
qed

lemma session_stream_reachable:
  "\<lbrakk>session_streams m g; g k = Some (s, held)\<rbrakk> \<Longrightarrow> stream_reachable (with_map m s) held"
proof (induction arbitrary: k s held rule: session_streams.induct)
  case (create m g j t sz format)
  then show ?case
    using stream_reachable.init [of t m sz format] by (auto simp: new_Stream_def new_arbiter_def split: if_splits)
next
  case (operation m g j sj heldj s' held')
  show ?case
  proof (cases "k = j")
    case True
    then show ?thesis
      using operation stream_reachable.step [OF operation.IH [OF operation(2)] stream_step.own] by auto
  next
    case False
    have "session_streams (the_map s') (g(j \<mapsto> (s', held')))" by (rule session_streams.operation [OF operation(1-3)])
    moreover have "stream_reachable (with_map m s) held" using operation.IH [of k s held] operation.prems False by simp
    ultimately show ?thesis
      using stream_reachable_remap [of "the_map s'" "g(j \<mapsto> (s', held'))" k s held m] session_streams_inv operation.prems
      by blast
  qed
next
  case (add m g b sink_add)
  then show ?case
    using stream_reachable_remap [OF session_streams_inv [OF session_streams.add [OF add(1-3)]]] by blast
next
  case (remove m g i)
  then show ?case
    using stream_reachable_remap [OF session_streams_inv [OF session_streams.remove [OF remove(1)]]] by blast
next
  case (destroy m g j sj)
  then have "g k = Some (s, held)" by (auto split: if_splits)
  with destroy show ?case
    using stream_reachable_remap [OF session_streams_inv [OF session_streams.destroy [OF destroy(1,2)]]] by blast
qed simp

section \<open>Properties\<close>


text \<open>A small concrete run, for the witnesses: one buffer allocated, submitted and locked.\<close>

abbreviation sample_buffer :: Buffer where
  "sample_buffer \<equiv> \<lparr>buf_addr = 1, buf_id = IntWrapper 7, buf_size = mk_size 4 4, buf_format = 1\<rparr>"

abbreviation sample_map :: BufferMap where
  "sample_map \<equiv> \<lparr>buffers = Map.empty, sink_alive = True, sink_log = []\<rparr>"

definition sample_stream :: Stream where
  "sample_stream =
     (let s0 = new_Stream 100 sample_map (mk_size 4 4) 1;
          s1 = s0\<lparr>arbiter := (arbiter s0)\<lparr>arb_map := snd (add_buffer (\<lambda>_. None) (the_map s0) sample_buffer)\<rparr>\<rparr>
      in snd (submit_buffer 0 s1 (Some sample_buffer)))"

definition sample_locked :: Stream where
  "sample_locked = snd (lock_compositor_buffer 5 sample_stream 3)"

lemmas sample_eval =
  sample_stream_def new_Stream_def new_arbiter_def create_policy_def AlarmImpl_new_def add_buffer_def
  to_sink_def submit_buffer_def receive_buffer_def buffer_at_def checked_buffers_find_def
  queueing_schedule_def Let_def

lemma sample_stream_eval:
  "the_schedule sample_stream = QueueingSchedule [sample_buffer]"
  "onscreen_buffers (arbiter sample_stream) = []" "arb_mode (arbiter sample_stream) = multi_monitor_sync"
  "current_buffer_users (arbiter sample_stream) = {}" "first_frame_posted sample_stream"
  "buffers (the_map sample_stream) (IntWrapper 7) = Some \<lparr>entry_buffer = sample_buffer, entry_owner = Owner_server\<rparr>"
  by (simp_all add: sample_eval)

lemma sample_lock: "lock_compositor_buffer 5 sample_stream 3 = (Inr sample_buffer, sample_locked)"
proof -
  have "fst (lock_compositor_buffer 5 sample_stream 3) = Inr sample_buffer"
    by (simp add: lock_compositor_buffer_def compositor_acquire_def sample_stream_eval
        queueing_num_scheduled_def bring_next_onscreen_def queueing_next_buffer_def use_front_def Let_def)
  then show ?thesis by (simp add: sample_locked_def prod_eq_iff)
qed

lemma sample_session: "session_streams (the_map sample_stream) [0 \<mapsto> (sample_stream, {#})]"
proof -
  let ?m = "snd (add_buffer (\<lambda>_. None) sample_map sample_buffer)"
  let ?s0 = "new_Stream 100 sample_map (mk_size 4 4) 1"
  have "session_streams sample_map [0 \<mapsto> (?s0, {#})]"
    by (rule session_streams.create [OF session_streams.init]) simp_all
  then have "session_streams ?m [0 \<mapsto> (?s0, {#})]"
    by (rule session_streams.add)
       (simp_all add: group_ids_def new_Stream_def new_arbiter_def server_buffers_def)
  moreover have "stream_op (with_map ?m ?s0) {#} sample_stream {#}"
    using stream_op.submit [of "with_map ?m ?s0" sample_buffer "{#}" 0]
    by (simp add: sample_eval)
  ultimately show ?thesis using session_streams.operation [of ?m _ 0 ?s0 "{#}"] by fastforce
qed

lemma sample_stream_reachable: "stream_reachable sample_stream {#}"
  using session_stream_reachable [OF sample_session, of 0 sample_stream "{#}"] by simp

lemma sample_locked_reachable: "stream_reachable sample_locked {#sample_buffer#}"
  using stream_reachable.step [OF sample_stream_reachable stream_step.own, OF stream_op.lock [OF sample_lock]]
  by simp


text \<open>
  The server does not check that a submitted buffer is the client's.  A client that submits a buffer
  again while a compositor shows it gets it back, to write to, while the compositor holds it: the
  buffer is on screen twice, and the entry nobody uses is sent back.
\<close>

lemma resubmitted_buffer_shared:
  "\<exists>s1 s2 s3. submit_buffer 6 sample_locked (Some sample_buffer) = (Inr (), s1) \<and>
     release_compositor_buffer s1 sample_buffer = (Inr (), s2) \<and>
     lock_compositor_buffer 7 s2 3 = (Inr sample_buffer, s3) \<and>
     owner_of (the_map s3) (IntWrapper 7) = Some Owner_client"
  by (simp add: sample_locked_def lock_compositor_buffer_def compositor_acquire_def sample_eval
      release_compositor_buffer_def compositor_release_def decrease_refcount_for_def
      queueing_num_scheduled_def bring_next_onscreen_def queueing_next_buffer_def use_front_def
      clean_onscreen_buffers_def owner_of_def send_buffer_def to_sink_def)





text \<open>
  Submitting a buffer in queueing mode appends it behind every frame still waiting and drops
  nothing; in dropping mode only the new buffer waits, and the one it replaces goes back to the
  client.  Either way the observers see one frame of the buffer's size.
\<close>

theorem submit_buffer_order:
  assumes "stream_reachable s held"
    and "buffers (the_map s) (buf_id b) = Some \<lparr>entry_buffer = b, entry_owner = Owner_client\<rparr>"
  shows "\<exists>s'. submit_buffer now s (Some b) = (Inr (), s') \<and>
           (schedule_mode s = Queueing \<longrightarrow>
              contents (the_schedule s') = contents (the_schedule s) @ [b] \<and>
              the_map s' = receive_buffer (the_map s) (buf_id b)) \<and>
           (schedule_mode s = Dropping \<longrightarrow>
              contents (the_schedule s') = [b] \<and>
              the_map s' = send_all (receive_buffer (the_map s) (buf_id b)) (map buf_id (contents (the_schedule s)))) \<and>
           frames_posted s' = frames_posted s @ [(1, buf_size b)]"
proof -
  obtain ew where inv: "stream_inv ew held s" using stream_reachable_inv [OF assms(1)] by blast
  then have "b \<notin> set (contents (the_schedule s))"
    using client_buffer_not_held [of ew held "arbiter s" "buf_id b"] assms(2)
    by (auto simp: stream_inv_def owner_of_def server_buffers_def)
  moreover obtain s' where "submit_buffer now s (Some b) = (Inr (), s')"
    "(the_schedule s', the_map s') = schedule (the_schedule s) (receive_buffer (the_map s) (buf_id b)) b"
    "frames_posted s' = frames_posted s @ [(1, buf_size b)]"
    using submit_buffer_inv [OF inv assms(2)] by metis
  moreover have "schedule_mode s = mode_of (the_schedule s)" using inv by (simp add: stream_inv_def)
  ultimately show ?thesis
    by (cases "the_schedule s")
       (auto simp: queueing_schedule_def dropping_schedule_def split: option.splits)
qed

theorem submit_buffer_order_witness:
  "\<exists>s'. submit_buffer 0
     ((new_Stream 100 sample_map (mk_size 4 4) 1)\<lparr>arbiter :=
        (arbiter (new_Stream 100 sample_map (mk_size 4 4) 1))
          \<lparr>arb_map := snd (add_buffer (\<lambda>_. None) sample_map sample_buffer)\<rparr>\<rparr>)
     (Some sample_buffer) = (Inr (), s') \<and> contents (the_schedule s') = [sample_buffer]"
proof -
  let ?s0 = "new_Stream 100 sample_map (mk_size 4 4) 1"
  let ?s1 = "?s0\<lparr>arbiter := (arbiter ?s0)\<lparr>arb_map := snd (add_buffer (\<lambda>_. None) sample_map sample_buffer)\<rparr>\<rparr>"
  have "stream_reachable ?s0 {#}" by (rule stream_reachable.init)
  moreover have "stream_step ?s0 {#} ?s1 {#}"
    by (rule stream_step.shared) (simp add: server_buffers_def new_Stream_def new_arbiter_def)
  ultimately have "stream_reachable ?s1 {#}" by (rule stream_reachable.step)
  moreover have "buffers (the_map ?s1) (buf_id sample_buffer) = Some \<lparr>entry_buffer = sample_buffer, entry_owner = Owner_client\<rparr>"
    by (simp add: add_buffer_def to_sink_def Let_def)
  ultimately show ?thesis
    using submit_buffer_order [of ?s1 "{#}" sample_buffer 0]
    by (auto simp: new_Stream_def new_arbiter_def)
qed

text \<open>
  two monitors show the same frame: a second compositor that has not yet used the current frame
  gets the buffer the first one just got, even when newer buffers are waiting.  A compositor that
  asks again gets the next waiting buffer.
\<close>

theorem monitors_share_frame:
  assumes "stream_reachable s held" and "compositor_acquire (arbiter s) c1 = (Inr b, a1)" and "size held < 2 ^ 32 - 1"
  shows "(c2 \<notin> current_buffer_users a1 \<longrightarrow> fst (compositor_acquire a1 c2) = Inr b) \<and>
         (contents (arb_schedule a1) \<noteq> [] \<longrightarrow>
            fst (compositor_acquire a1 c1) = Inr (hd (contents (arb_schedule a1))))"
proof -
  obtain ew where "arb_inv ew held (arbiter s)"
    using stream_reachable_inv [OF assms(1)] by (auto simp: stream_inv_def)
  moreover have "displayable (arbiter s)"
    using assms(2) by (auto simp: compositor_acquire_def displayable_def sched_simps split: if_splits)
  ultimately have "onscreen_buffers a1 \<noteq> []" "se_buffer (hd (onscreen_buffers a1)) = b" "c1 \<in> current_buffer_users a1"
    using compositor_acquire_inv [OF _ _ assms(3), of ew "arbiter s" c1] assms(2)
    by (metis Inr_inject prod.inject)+
  then show ?thesis using acquire_same_frame [of a1 c2] acquire_next_frame [of c1 a1] by simp
qed

theorem monitors_share_frame_witness:
  "fst (compositor_acquire (snd (compositor_acquire (arbiter sample_stream) 3)) 4) = Inr sample_buffer"
proof -
  let ?a1 = "snd (compositor_acquire (arbiter sample_stream) 3)"
  have "compositor_acquire (arbiter sample_stream) 3 = (Inr sample_buffer, ?a1)"
    and "current_buffer_users ?a1 = {3}"
    by (simp_all add: compositor_acquire_def sample_stream_eval queueing_num_scheduled_def
        bring_next_onscreen_def queueing_next_buffer_def use_front_def Let_def)
  then show ?thesis
    using monitors_share_frame [OF sample_stream_reachable, of 3 sample_buffer ?a1 4] by simp
qed

end
