(* ===== verification/Pixel_Format.thy ===== *)
theory Pixel_Format
  imports Mir_Prelude
begin

text \<open>
  Pixel formats: the enumeration of \<^verbatim>\<open>include/core/mir_toolkit/common.h\<close> by its numeric values
  and the table of channel depths of \<^verbatim>\<open>src/platform/graphics/pixel_format_utils.cpp\<close>.
\<close>

type_synonym MirPixelFormat = nat

abbreviation (input) mir_pixel_format_invalid :: MirPixelFormat where "mir_pixel_format_invalid \<equiv> 0"
abbreviation (input) mir_pixel_format_abgr_8888 :: MirPixelFormat where "mir_pixel_format_abgr_8888 \<equiv> 1"
abbreviation (input) mir_pixel_format_xbgr_8888 :: MirPixelFormat where "mir_pixel_format_xbgr_8888 \<equiv> 2"
abbreviation (input) mir_pixel_format_argb_8888 :: MirPixelFormat where "mir_pixel_format_argb_8888 \<equiv> 3"
abbreviation (input) mir_pixel_format_xrgb_8888 :: MirPixelFormat where "mir_pixel_format_xrgb_8888 \<equiv> 4"
abbreviation (input) mir_pixel_format_bgr_888 :: MirPixelFormat where "mir_pixel_format_bgr_888 \<equiv> 5"
abbreviation (input) mir_pixel_format_rgb_888 :: MirPixelFormat where "mir_pixel_format_rgb_888 \<equiv> 6"
abbreviation (input) mir_pixel_format_rgb_565 :: MirPixelFormat where "mir_pixel_format_rgb_565 \<equiv> 7"
abbreviation (input) mir_pixel_format_rgba_5551 :: MirPixelFormat where "mir_pixel_format_rgba_5551 \<equiv> 8"
abbreviation (input) mir_pixel_format_rgba_4444 :: MirPixelFormat where "mir_pixel_format_rgba_4444 \<equiv> 9"
abbreviation (input) mir_pixel_formats :: MirPixelFormat where "mir_pixel_formats \<equiv> 10"

record PixelFormatDetail =
  mir_format :: MirPixelFormat
  red_bits :: int
  green_bits :: int
  blue_bits :: int
  alpha_bits :: int

abbreviation mk_detail :: "MirPixelFormat \<Rightarrow> int \<Rightarrow> int \<Rightarrow> int \<Rightarrow> int \<Rightarrow> PixelFormatDetail" where
  "mk_detail f r g b a \<equiv> \<lparr>mir_format = f, red_bits = r, green_bits = g, blue_bits = b, alpha_bits = a\<rparr>"

definition detail :: "PixelFormatDetail list" where
  "detail =
    [mk_detail mir_pixel_format_invalid   0 0 0 0,
     mk_detail mir_pixel_format_abgr_8888 8 8 8 8,
     mk_detail mir_pixel_format_xbgr_8888 8 8 8 0,
     mk_detail mir_pixel_format_argb_8888 8 8 8 8,
     mk_detail mir_pixel_format_xrgb_8888 8 8 8 0,
     mk_detail mir_pixel_format_bgr_888   8 8 8 0,
     mk_detail mir_pixel_format_rgb_888   8 8 8 0,
     mk_detail mir_pixel_format_rgb_565   5 6 5 0,
     mk_detail mir_pixel_format_rgba_5551 5 5 5 1,
     mk_detail mir_pixel_format_rgba_4444 4 4 4 4]"

definition valid_pixel_format :: "MirPixelFormat \<Rightarrow> bool" where
  "valid_pixel_format f \<longleftrightarrow>
     f > mir_pixel_format_invalid \<and> f < mir_pixel_formats \<and> mir_format (detail ! f) = f"

definition red_channel_depth :: "MirPixelFormat \<Rightarrow> int" where
  "red_channel_depth f = (if valid_pixel_format f then red_bits (detail ! f) else 0)"

definition green_channel_depth :: "MirPixelFormat \<Rightarrow> int" where
  "green_channel_depth f = (if valid_pixel_format f then green_bits (detail ! f) else 0)"

definition blue_channel_depth :: "MirPixelFormat \<Rightarrow> int" where
  "blue_channel_depth f = (if valid_pixel_format f then blue_bits (detail ! f) else 0)"

definition alpha_channel_depth :: "MirPixelFormat \<Rightarrow> int" where
  "alpha_channel_depth f = (if valid_pixel_format f then alpha_bits (detail ! f) else 0)"

definition contains_alpha :: "MirPixelFormat \<Rightarrow> bool" where
  "contains_alpha f \<longleftrightarrow> alpha_channel_depth f \<noteq> 0"

definition MIR_BYTES_PER_PIXEL :: "MirPixelFormat \<Rightarrow> int" where
  "MIR_BYTES_PER_PIXEL f =
     (if f = mir_pixel_format_bgr_888 then 3
      else if f = mir_pixel_format_rgb_888 then 3
      else if f = mir_pixel_format_rgb_565 then 2
      else if f = mir_pixel_format_rgba_5551 then 2
      else if f = mir_pixel_format_rgba_4444 then 2
      else 4)"

section \<open>The table and the enumeration agree\<close>

lemma pixel_format_cases:
  assumes "f < mir_pixel_formats"
  shows "f \<in> {0, 1, 2, 3, 4, 5, 6, 7, 8, 9}"
  using assms by auto

lemma valid_pixel_format_iff: "valid_pixel_format f \<longleftrightarrow> 0 < f \<and> f < mir_pixel_formats"
  using pixel_format_cases [of f] by (auto simp: valid_pixel_format_def detail_def)

lemma channel_depths_fit:
  assumes "valid_pixel_format f"
  shows "red_channel_depth f + green_channel_depth f + blue_channel_depth f + alpha_channel_depth f
           \<le> 8 * MIR_BYTES_PER_PIXEL f"
  using assms pixel_format_cases [of f] unfolding valid_pixel_format_iff
  by (auto simp: red_channel_depth_def green_channel_depth_def blue_channel_depth_def
      alpha_channel_depth_def valid_pixel_format_iff detail_def MIR_BYTES_PER_PIXEL_def)

end
