(* ===== verification/Occlusion.thy ===== *)
theory Occlusion
  imports Geometry "HOL-Library.Sublist"
begin

text \<open>
  Occlusion culling and the default display-buffer compositor
  (\<^verbatim>\<open>src/server/compositor/occlusion.cpp\<close>, \<^verbatim>\<open>default_display_buffer_compositor.cpp\<close>).
  A \<open>Renderable\<close> is what the culling reads of the interface: its position, its opacity (a
  \<open>float\<close>, here the rational it denotes), whether its pixel format has an alpha channel and its
  4x4 transformation.  A scene is a list of elements from bottom to top.

  The specification \<open>seen_at\<close> is what a painter sees at a pixel: the elements covering it from
  the top down to the first opaque one.  Culling does not change it.
\<close>

type_synonym mat4 = "rat list list"

definition identity :: mat4 where
  "identity = [[1, 0, 0, 0], [0, 1, 0, 0], [0, 0, 1, 0], [0, 0, 0, 1]]"

record Renderable =
  renderable_id :: nat
  screen_position :: Rectangle
  alpha :: rat
  transformation :: mat4
  shaped :: bool

fun covered_by :: "Rectangle list \<Rightarrow> Rectangle \<Rightarrow> bool" where
  "covered_by [] clipped_window = False"
| "covered_by (r # rs) clipped_window =
     (if contains_rect r clipped_window then True else covered_by rs clipped_window)"

definition renderable_is_occluded ::
    "Renderable \<Rightarrow> Rectangle \<Rightarrow> Rectangle list \<Rightarrow> bool \<times> Rectangle list" where
  "renderable_is_occluded renderable area coverage =
     (if transformation renderable \<noteq> identity then (False, coverage)
      else
        let window = screen_position renderable;
            clipped_window = intersection_with window area
        in if clipped_window = default_rectangle then (True, coverage)
           else
             let occluded = covered_by coverage clipped_window
             in (occluded,
                 if \<not> occluded \<and> alpha renderable = 1 \<and> \<not> shaped renderable
                 then coverage @ [clipped_window] else coverage))"

text \<open>
  The reverse iteration: the first argument holds the elements not yet visited, top first; the last
  two are the elements kept so far and the occluded ones, bottom first.
\<close>

fun occlusion_loop ::
    "('e \<Rightarrow> Renderable) \<Rightarrow> Rectangle \<Rightarrow> 'e list \<Rightarrow> Rectangle list \<Rightarrow> 'e list \<Rightarrow> 'e list \<Rightarrow> 'e list \<times> 'e list" where
  "occlusion_loop renderable area [] coverage elements occluded = (elements, occluded)"
| "occlusion_loop renderable area (e # es) coverage elements occluded =
     (let (is_occluded, coverage') = renderable_is_occluded (renderable e) area coverage
      in if is_occluded then occlusion_loop renderable area es coverage' elements (e # occluded)
         else occlusion_loop renderable area es coverage' (e # elements) occluded)"

definition filter_occlusions_from ::
    "('e \<Rightarrow> Renderable) \<Rightarrow> 'e list \<Rightarrow> Rectangle \<Rightarrow> 'e list \<times> 'e list" where
  "filter_occlusions_from renderable elements area =
     occlusion_loop renderable area (rev elements) [] [] []"

section \<open>Compositing one frame\<close>

datatype 'e frame_action =
    Began_frame
  | Element_occluded 'e
  | Element_rendered 'e
  | Try_overlay "Renderable list"
  | Renderables_in_frame "Renderable list"
  | Suspend_renderer
  | Set_output_transform
  | Render "Renderable list"
  | Rendered_frame
  | Finished_frame

text \<open>
  \<open>overlay\<close> is the display buffer's answer to \<open>DisplayBuffer::overlay\<close>; the result is the
  sequence of calls the compositor makes.
\<close>

definition composite ::
    "('e \<Rightarrow> Renderable) \<Rightarrow> Rectangle \<Rightarrow> (Renderable list \<Rightarrow> bool) \<Rightarrow> 'e list \<Rightarrow> 'e frame_action list" where
  "composite renderable view_area overlay scene_elements =
     (let (elements, occlusions) = filter_occlusions_from renderable scene_elements view_area;
          renderable_list = map renderable elements
      in [Began_frame] @ map Element_occluded occlusions @ map Element_rendered elements @
         [Try_overlay renderable_list] @
         (if overlay renderable_list
          then [Renderables_in_frame renderable_list, Suspend_renderer]
          else [Set_output_transform, Render renderable_list, Renderables_in_frame renderable_list, Rendered_frame]) @
         [Finished_frame])"

section \<open>What the painter sees\<close>

definition opaque :: "Renderable \<Rightarrow> bool" where
  "opaque r \<longleftrightarrow> transformation r = identity \<and> alpha r = 1 \<and> \<not> shaped r"

definition covers :: "Renderable \<Rightarrow> Point \<Rightarrow> bool" where
  "covers r p \<longleftrightarrow> transformation r \<noteq> identity \<or> p \<in> points_of (screen_position r)"

fun seen_at :: "('e \<Rightarrow> Renderable) \<Rightarrow> Point \<Rightarrow> 'e list \<Rightarrow> 'e list" where
  "seen_at renderable p [] = []"
| "seen_at renderable p (e # es) =
     (if covers (renderable e) p
      then e # (if opaque (renderable e) then [] else seen_at renderable p es)
      else seen_at renderable p es)"

text \<open>The same culling, by list functions: kept and occluded elements, both top first.\<close>

fun kept_of :: "('e \<Rightarrow> Renderable) \<Rightarrow> Rectangle \<Rightarrow> Rectangle list \<Rightarrow> 'e list \<Rightarrow> 'e list" where
  "kept_of renderable area cov [] = []"
| "kept_of renderable area cov (e # es) =
     (let (occ, cov') = renderable_is_occluded (renderable e) area cov
      in (if occ then [] else [e]) @ kept_of renderable area cov' es)"

fun occluded_of :: "('e \<Rightarrow> Renderable) \<Rightarrow> Rectangle \<Rightarrow> Rectangle list \<Rightarrow> 'e list \<Rightarrow> 'e list" where
  "occluded_of renderable area cov [] = []"
| "occluded_of renderable area cov (e # es) =
     (let (occ, cov') = renderable_is_occluded (renderable e) area cov
      in (if occ then [e] else []) @ occluded_of renderable area cov' es)"

lemma occlusion_loop_eq:
  "occlusion_loop f area es cov kept occ = (rev (kept_of f area cov es) @ kept, rev (occluded_of f area cov es) @ occ)"
  by (induction es arbitrary: cov kept occ) (simp_all split: prod.splits)

lemma filter_occlusions_eq:
  "filter_occlusions_from f es area = (rev (kept_of f area [] (rev es)), rev (occluded_of f area [] (rev es)))"
  by (simp add: filter_occlusions_from_def occlusion_loop_eq)

lemma kept_occluded_mset:
  "mset (kept_of f area cov es) + mset (occluded_of f area cov es) = mset es"
  by (induction es arbitrary: cov) (simp_all split: prod.splits)

lemma kept_subseq: "subseq (kept_of f area cov es) es"
  by (induction es arbitrary: cov) (auto split: prod.splits)

lemma subseq_rev: "subseq xs ys \<Longrightarrow> subseq (rev xs) (rev ys)"
  by (induction rule: list_emb.induct) (auto intro: subseq_rev_drop_many list_emb_append_mono)

lemma covered_by_iff: "covered_by rs w \<longleftrightarrow> (\<exists>r\<in>set rs. contains_rect r w)"
  by (induction rs) auto

lemma clipped_pixel:
  "\<lbrakk>p \<in> points_of area; p \<in> points_of w\<rbrakk> \<Longrightarrow> p \<in> points_of (intersection_with w area)"
  by (simp add: intersection_points_of)

text \<open>
  One step of the culling, at a pixel of the view area that nothing opaque covers yet: an occluded
  element does not cover it, and the coverage grows over the pixel exactly when the element is
  opaque and covers it.
\<close>

lemma occluded_not_covering:
  assumes "p \<in> points_of area" and "p \<notin> (\<Union>r\<in>set cov. points_of r)"
    and "renderable_is_occluded r area cov = (True, cov')"
  shows "\<not> covers r p \<and> cov' = cov"
proof -
  let ?w = "intersection_with (screen_position r) area"
  have t: "transformation r = identity" and cov': "cov' = cov"
    using assms(3) by (auto simp: renderable_is_occluded_def Let_def split: if_splits)
  have "p \<notin> points_of ?w"
  proof (cases "?w = default_rectangle")
    case True
    then show ?thesis by simp
  next
    case False
    then obtain c where c: "c \<in> set cov" "contains_rect c ?w"
      using assms(3) t by (auto simp: renderable_is_occluded_def Let_def covered_by_iff split: if_splits)
    then have "points_of ?w \<subseteq> points_of c"
      using intersection_positive [OF False] contains_rect_points_of by blast
    with c(1) assms(2) show ?thesis by blast
  qed
  with clipped_pixel [OF assms(1)] t cov' show ?thesis by (auto simp: covers_def)
qed

lemma kept_coverage:
  assumes "p \<in> points_of area" and "p \<notin> (\<Union>r\<in>set cov. points_of r)"
    and "renderable_is_occluded r area cov = (False, cov')"
  shows "p \<in> (\<Union>r\<in>set cov'. points_of r) \<longleftrightarrow> opaque r \<and> covers r p"
  using assms
  by (auto simp: renderable_is_occluded_def Let_def opaque_def covers_def intersection_points_of split: if_splits)

lemma seen_at_kept:
  assumes "p \<in> points_of area" and "p \<notin> (\<Union>r\<in>set cov. points_of r)"
  shows "seen_at f p (kept_of f area cov es) = seen_at f p es"
  using assms(2)
proof (induction es arbitrary: cov)
  case (Cons e es)
  obtain occ cov' where o: "renderable_is_occluded (f e) area cov = (occ, cov')" by fastforce
  show ?case
  proof (cases occ)
    case True
    with o have "renderable_is_occluded (f e) area cov = (True, cov')" by simp
    from occluded_not_covering [OF assms(1) Cons.prems this] have "\<not> covers (f e) p" "cov' = cov" by simp_all
    with Cons True o show ?thesis by simp
  next
    case False
    with o have "renderable_is_occluded (f e) area cov = (False, cov')" by simp
    from kept_coverage [OF assms(1) Cons.prems this]
    have "p \<in> (\<Union>r\<in>set cov'. points_of r) \<longleftrightarrow> opaque (f e) \<and> covers (f e) p" .
    with Cons.IH [of cov'] False o show ?thesis by auto
  qed
qed simp

section \<open>Properties\<close>

text \<open>
  C20: occlusion culling is invisible.  At every pixel of the view area the painter sees the same
  elements, from the top down to the first opaque one, in the filtered scene as in the whole
  scene; the two results together are the elements of the scene, each in the scene's order.
\<close>

theorem occlusion_invisible:
  assumes "filter_occlusions_from f es area = (kept, occluded)"
  shows "(p \<in> points_of area \<longrightarrow> seen_at f p (rev kept) = seen_at f p (rev es)) \<and>
         mset kept + mset occluded = mset es \<and> subseq kept es"
proof -
  have k: "kept = rev (kept_of f area [] (rev es))" and oc: "occluded = rev (occluded_of f area [] (rev es))"
    using assms by (simp_all add: filter_occlusions_eq)
  have "subseq (rev (kept_of f area [] (rev es))) (rev (rev es))"
    using kept_subseq by (metis subseq_rev)
  moreover have "mset kept + mset occluded = mset es"
    using kept_occluded_mset [of f area "[]" "rev es"] by (simp add: k oc)
  ultimately show ?thesis using seen_at_kept [of p area "[]" f "rev es"] by (simp add: k)
qed

theorem occlusion_invisible_witness:
  "(let r = (\<lambda>i. \<lparr>renderable_id = i, screen_position = mk_rect (mk_point 0 0) (mk_size (int i) 2),
               alpha = 1, transformation = identity, shaped = False\<rparr>);
        area = mk_rect (mk_point 0 0) (mk_size 9 9)
    in filter_occlusions_from r [1, 3] area = ([3], [1]) \<and>
       seen_at r (mk_point 0 0) (rev [3]) = seen_at r (mk_point 0 0) (rev [1, 3]))"
proof -
  let ?r = "\<lambda>i. \<lparr>renderable_id = i, screen_position = mk_rect (mk_point 0 0) (mk_size (int i) 2),
               alpha = 1, transformation = identity, shaped = False\<rparr>"
  let ?area = "mk_rect (mk_point 0 0) (mk_size 9 9)"
  have f: "filter_occlusions_from ?r [1, 3] ?area = ([3], [1])"
    by (simp add: filter_occlusions_from_def renderable_is_occluded_def intersection_with_def
        contains_rect_def default_rectangle_def Let_def)
  have "mk_point 0 0 \<in> points_of ?area" by (simp add: points_of_def)
  with occlusion_invisible [OF f, of "mk_point 0 0"] f show ?thesis by (simp add: Let_def)
qed

end
