(* ===== verification/Basic_Surface.thy ===== *)
theory Basic_Surface
  imports Buffer_Stream Pixel_Format Occlusion
begin

unbundle bit_operations_syntax

text \<open>
  \<open>BasicSurface\<close> of \<^verbatim>\<open>src/server/scene/basic_surface.cpp\<close>: the geometry, the attributes and the
  layers of a window.  Layers refer to buffer streams by pointer and several surfaces may share a
  stream, so the streams live in a store (\<open>StreamStore\<close>) that the operations pass along.
  Enumerations that clients set by number are integers, because \<open>configure\<close> casts any integer to
  them.  What the surface's observers are told is the log \<open>sf_notifications\<close> (frames that are
  posted come from the streams and are in their logs); cursor images and the input channel's
  transport are left out.  Of a \<open>SurfaceSnapshot\<close> the model keeps what occlusion culling reads; the
  buffer it locks lazily is \<^const>\<open>lock_compositor_buffer\<close> on the stream.
\<close>

type_synonym StreamPtr = nat
type_synonym SurfacePtr = nat
type_synonym StreamStore = "StreamPtr \<Rightarrow> Stream"

datatype MirWindowAttrib =
    mir_window_attrib_type
  | mir_window_attrib_state
  | mir_window_attrib_swapinterval
  | mir_window_attrib_focus
  | mir_window_attrib_dpi
  | mir_window_attrib_visibility
  | mir_window_attrib_preferred_orientation
  | mir_window_attribs

abbreviation (input) mir_window_type_normal :: int where "mir_window_type_normal \<equiv> 0"
abbreviation (input) mir_window_type_utility :: int where "mir_window_type_utility \<equiv> 1"
abbreviation (input) mir_window_type_dialog :: int where "mir_window_type_dialog \<equiv> 2"
abbreviation (input) mir_window_type_gloss :: int where "mir_window_type_gloss \<equiv> 3"
abbreviation (input) mir_window_type_freestyle :: int where "mir_window_type_freestyle \<equiv> 4"
abbreviation (input) mir_window_type_menu :: int where "mir_window_type_menu \<equiv> 5"
abbreviation (input) mir_window_type_inputmethod :: int where "mir_window_type_inputmethod \<equiv> 6"
abbreviation (input) mir_window_type_satellite :: int where "mir_window_type_satellite \<equiv> 7"
abbreviation (input) mir_window_type_tip :: int where "mir_window_type_tip \<equiv> 8"
abbreviation (input) mir_window_types :: int where "mir_window_types \<equiv> 9"

abbreviation (input) mir_window_state_unknown :: int where "mir_window_state_unknown \<equiv> 0"
abbreviation (input) mir_window_state_restored :: int where "mir_window_state_restored \<equiv> 1"
abbreviation (input) mir_window_state_minimized :: int where "mir_window_state_minimized \<equiv> 2"
abbreviation (input) mir_window_state_maximized :: int where "mir_window_state_maximized \<equiv> 3"
abbreviation (input) mir_window_state_vertmaximized :: int where "mir_window_state_vertmaximized \<equiv> 4"
abbreviation (input) mir_window_state_fullscreen :: int where "mir_window_state_fullscreen \<equiv> 5"
abbreviation (input) mir_window_state_horizmaximized :: int where "mir_window_state_horizmaximized \<equiv> 6"
abbreviation (input) mir_window_state_hidden :: int where "mir_window_state_hidden \<equiv> 7"
abbreviation (input) mir_window_states :: int where "mir_window_states \<equiv> 8"

abbreviation (input) mir_window_focus_state_unfocused :: int where "mir_window_focus_state_unfocused \<equiv> 0"
abbreviation (input) mir_window_focus_state_focused :: int where "mir_window_focus_state_focused \<equiv> 1"
abbreviation (input) mir_window_visibility_occluded :: int where "mir_window_visibility_occluded \<equiv> 0"
abbreviation (input) mir_window_visibility_exposed :: int where "mir_window_visibility_exposed \<equiv> 1"
abbreviation (input) mir_orientation_mode_any :: int where "mir_orientation_mode_any \<equiv> 15"
abbreviation (input) mir_pointer_unconfined :: int where "mir_pointer_unconfined \<equiv> 0"

datatype InputReceptionMode = reception_normal | receives_all_input

record StreamInfo =
  si_stream :: StreamPtr
  si_displacement :: Displacement
  si_size :: "Size option"

datatype SurfaceNotification =
    Attrib_changed MirWindowAttrib int
  | Resized_to Size
  | Moved_to Point
  | Hidden_set_to bool
  | Alpha_set_to rat
  | Orientation_set_to int
  | Transformation_set_to mat4
  | Reception_mode_set_to InputReceptionMode
  | Client_surface_close_requested
  | Keymap_changed int string string string string
  | Renamed string
  | Placed_relative Rectangle

record BasicSurface =
  sf_name :: string
  sf_rect :: Rectangle
  sf_transformation :: mat4
  sf_alpha :: rat
  sf_hidden :: bool
  sf_input_mode :: InputReceptionMode
  sf_input_rectangles :: "Rectangle list"
  sf_buffer_stream :: StreamPtr
  sf_input_channel :: "int option"
  sf_parent :: "SurfacePtr option"
  sf_layers :: "StreamInfo list"
  sf_type :: int
  sf_state :: int
  sf_swapinterval :: int
  sf_focus :: int
  sf_dpi :: int
  sf_visibility :: int
  sf_pref_orientation :: int
  sf_confine_pointer :: int
  sf_notifications :: "SurfaceNotification list"

definition default_stream :: "StreamInfo list \<Rightarrow> StreamPtr result" where
  "default_stream layers =
     (case layers of
        [] \<Rightarrow> Inl (logic_error ''Surface must have content'')
      | l # _ \<Rightarrow> Inr (si_stream l))"

definition new_BasicSurface ::
    "string \<Rightarrow> Rectangle \<Rightarrow> SurfacePtr option \<Rightarrow> int \<Rightarrow> StreamInfo list \<Rightarrow> int option \<Rightarrow> BasicSurface result" where
  "new_BasicSurface name rect parent confine_state layers channel =
     map_sum id (\<lambda>stream.
       \<lparr>sf_name = name, sf_rect = rect, sf_transformation = identity, sf_alpha = 1, sf_hidden = False,
        sf_input_mode = reception_normal, sf_input_rectangles = [], sf_buffer_stream = stream,
        sf_input_channel = channel, sf_parent = parent, sf_layers = layers,
        sf_type = mir_window_type_normal, sf_state = mir_window_state_restored, sf_swapinterval = 1,
        sf_focus = mir_window_focus_state_unfocused, sf_dpi = 0,
        sf_visibility = mir_window_visibility_occluded, sf_pref_orientation = mir_orientation_mode_any,
        sf_confine_pointer = confine_state, sf_notifications = []\<rparr>) (default_stream layers)"

definition notify :: "SurfaceNotification \<Rightarrow> BasicSurface \<Rightarrow> BasicSurface" where
  "notify n s = s\<lparr>sf_notifications := sf_notifications s @ [n]\<rparr>"

definition surface_move_to :: "BasicSurface \<Rightarrow> Point \<Rightarrow> BasicSurface" where
  "surface_move_to s p = notify (Moved_to p) (s\<lparr>sf_rect := (sf_rect s)\<lparr>top_left := p\<rparr>\<rparr>)"

definition surface_set_hidden :: "BasicSurface \<Rightarrow> bool \<Rightarrow> BasicSurface" where
  "surface_set_hidden s hide = notify (Hidden_set_to hide) (s\<lparr>sf_hidden := hide\<rparr>)"

definition surface_hide :: "BasicSurface \<Rightarrow> BasicSurface" where
  "surface_hide s = surface_set_hidden s True"

definition surface_show :: "BasicSurface \<Rightarrow> BasicSurface" where
  "surface_show s = surface_set_hidden s False"

definition surface_size :: "BasicSurface \<Rightarrow> Size" where
  "surface_size s = rect_size (sf_rect s)"

definition surface_client_size :: "BasicSurface \<Rightarrow> Size" where
  "surface_client_size s = surface_size s"

definition surface_supports_input :: "BasicSurface \<Rightarrow> bool" where
  "surface_supports_input s \<longleftrightarrow> (case sf_input_channel s of None \<Rightarrow> False | Some fd \<Rightarrow> fd \<noteq> - 1)"

definition surface_client_input_fd :: "BasicSurface \<Rightarrow> int result" where
  "surface_client_input_fd s =
     (if \<not> surface_supports_input s then Inl (logic_error ''Surface does not support input'')
      else Inr (the (sf_input_channel s)))"

definition surface_set_input_region :: "BasicSurface \<Rightarrow> Rectangle list \<Rightarrow> BasicSurface" where
  "surface_set_input_region s rects = s\<lparr>sf_input_rectangles := rects\<rparr>"

definition surface_resize :: "BasicSurface \<Rightarrow> StreamStore \<Rightarrow> Size \<Rightarrow> BasicSurface \<times> StreamStore" where
  "surface_resize s st desired_size =
     (let new_size = desired_size\<lparr>width := (if width desired_size \<le> 0 then 1 else width desired_size),
                                  height := (if height desired_size \<le> 0 then 1 else height desired_size)\<rparr>
      in if new_size = surface_size s then (s, st)
         else (notify (Resized_to new_size) (s\<lparr>sf_rect := (sf_rect s)\<lparr>rect_size := new_size\<rparr>\<rparr>),
               st(sf_buffer_stream s := resize (st (sf_buffer_stream s)) new_size)))"

definition surface_visible :: "BasicSurface \<Rightarrow> StreamStore \<Rightarrow> bool" where
  "surface_visible s st \<longleftrightarrow>
     (let visible = fold (\<lambda>info v. v \<or> has_submitted_buffer (st (si_stream info))) (sf_layers s) False
      in \<not> sf_hidden s \<and> visible)"

fun any_contains :: "Rectangle list \<Rightarrow> Point \<Rightarrow> bool" where
  "any_contains [] p = False"
| "any_contains (r # rs) p = (if contains_point r p then True else any_contains rs p)"

definition input_area_contains :: "BasicSurface \<Rightarrow> StreamStore \<Rightarrow> Point \<Rightarrow> bool" where
  "input_area_contains s st point \<longleftrightarrow>
     (if \<not> surface_visible s st then False
      else if sf_input_rectangles s = [] then contains_point (sf_rect s) point
      else any_contains (sf_input_rectangles s)
             (point_plus (mk_point 0 0) (point_diff point (top_left (sf_rect s)))))"

definition surface_set_alpha :: "BasicSurface \<Rightarrow> rat \<Rightarrow> BasicSurface" where
  "surface_set_alpha s a = notify (Alpha_set_to a) (s\<lparr>sf_alpha := a\<rparr>)"

definition surface_set_orientation :: "BasicSurface \<Rightarrow> int \<Rightarrow> BasicSurface" where
  "surface_set_orientation s orientation = notify (Orientation_set_to orientation) s"

definition surface_set_transformation :: "BasicSurface \<Rightarrow> mat4 \<Rightarrow> BasicSurface" where
  "surface_set_transformation s t = notify (Transformation_set_to t) (s\<lparr>sf_transformation := t\<rparr>)"

definition surface_set_reception_mode :: "BasicSurface \<Rightarrow> InputReceptionMode \<Rightarrow> BasicSurface" where
  "surface_set_reception_mode s mode = notify (Reception_mode_set_to mode) (s\<lparr>sf_input_mode := mode\<rparr>)"

section \<open>Attributes\<close>

definition set_type :: "BasicSurface \<Rightarrow> int \<Rightarrow> (BasicSurface, int) outcome" where
  "set_type s t =
     (if t < 0 \<or> t > mir_window_types then (Inl (logic_error ''Invalid surface type.''), s)
      else (Inr t, if sf_type s \<noteq> t
                   then notify (Attrib_changed mir_window_attrib_type t) (s\<lparr>sf_type := t\<rparr>) else s))"

definition set_state :: "BasicSurface \<Rightarrow> int \<Rightarrow> (BasicSurface, int) outcome" where
  "set_state s v =
     (if v < mir_window_state_unknown \<or> v > mir_window_states then (Inl (logic_error ''Invalid surface state.''), s)
      else (Inr v, if sf_state s \<noteq> v
                   then notify (Attrib_changed mir_window_attrib_state v) (s\<lparr>sf_state := v\<rparr>) else s))"

definition for_each_stream :: "(Stream \<Rightarrow> Stream) \<Rightarrow> StreamInfo list \<Rightarrow> StreamStore \<Rightarrow> StreamStore" where
  "for_each_stream f layers st = fold (\<lambda>info st. st(si_stream info := f (st (si_stream info)))) layers st"

definition set_swap_interval ::
    "BasicSurface \<Rightarrow> StreamStore \<Rightarrow> int \<Rightarrow> (BasicSurface \<times> StreamStore, int) outcome" where
  "set_swap_interval s st interval =
     (if interval < 0 then (Inl (logic_error ''Invalid swapinterval''), (s, st))
      else (Inr interval,
            if sf_swapinterval s \<noteq> interval
            then (notify (Attrib_changed mir_window_attrib_swapinterval interval) (s\<lparr>sf_swapinterval := interval\<rparr>),
                  for_each_stream (\<lambda>stream. allow_framedropping stream (interval = 0)) (sf_layers s) st)
            else (s, st)))"

definition set_focus_state :: "BasicSurface \<Rightarrow> int \<Rightarrow> (BasicSurface, int) outcome" where
  "set_focus_state s v =
     (if v \<noteq> mir_window_focus_state_focused \<and> v \<noteq> mir_window_focus_state_unfocused
      then (Inl (logic_error ''Invalid focus state.''), s)
      else (Inr v, if sf_focus s \<noteq> v
                   then notify (Attrib_changed mir_window_attrib_focus v) (s\<lparr>sf_focus := v\<rparr>) else s))"

definition set_preferred_orientation :: "BasicSurface \<Rightarrow> int \<Rightarrow> (BasicSurface, int) outcome" where
  "set_preferred_orientation s v =
     (if (v AND mir_orientation_mode_any) = 0 then (Inl (logic_error ''Invalid orientation mode''), s)
      else (Inr v, if sf_pref_orientation s \<noteq> v
                   then notify (Attrib_changed mir_window_attrib_preferred_orientation v) (s\<lparr>sf_pref_orientation := v\<rparr>)
                   else s))"

definition set_dpi :: "BasicSurface \<Rightarrow> int \<Rightarrow> (BasicSurface, int) outcome" where
  "set_dpi s v =
     (if v < 0 then (Inl (logic_error ''Invalid DPI value''), s)
      else (Inr v, if sf_dpi s \<noteq> v
                   then notify (Attrib_changed mir_window_attrib_dpi v) (s\<lparr>sf_dpi := v\<rparr>) else s))"

definition set_visibility ::
    "BasicSurface \<Rightarrow> StreamStore \<Rightarrow> int \<Rightarrow> (BasicSurface \<times> StreamStore, int) outcome" where
  "set_visibility s st v =
     (if v \<noteq> mir_window_visibility_occluded \<and> v \<noteq> mir_window_visibility_exposed
      then (Inl (logic_error ''Invalid visibility value''), (s, st))
      else (Inr v,
            if sf_visibility s \<noteq> v
            then (notify (Attrib_changed mir_window_attrib_visibility v) (s\<lparr>sf_visibility := v\<rparr>),
                  if v = mir_window_visibility_exposed then for_each_stream drop_old_buffers (sf_layers s) st else st)
            else (s, st)))"

definition with_store :: "StreamStore \<Rightarrow> (BasicSurface, int) outcome \<Rightarrow> (BasicSurface \<times> StreamStore, int) outcome" where
  "with_store st r = (fst r, (snd r, st))"

definition configure ::
    "BasicSurface \<Rightarrow> StreamStore \<Rightarrow> MirWindowAttrib \<Rightarrow> int \<Rightarrow> (BasicSurface \<times> StreamStore, int) outcome" where
  "configure s st attrib value =
     (case attrib of
        mir_window_attrib_type \<Rightarrow> with_store st (set_type s value)
      | mir_window_attrib_state \<Rightarrow> with_store st (set_state s value)
      | mir_window_attrib_focus \<Rightarrow> with_store st (set_focus_state s value)
      | mir_window_attrib_swapinterval \<Rightarrow> set_swap_interval s st value
      | mir_window_attrib_dpi \<Rightarrow> with_store st (set_dpi s value)
      | mir_window_attrib_visibility \<Rightarrow> set_visibility s st value
      | mir_window_attrib_preferred_orientation \<Rightarrow> with_store st (set_preferred_orientation s value)
      | mir_window_attribs \<Rightarrow> (Inl (logic_error ''Invalid surface attribute.''), (s, st)))"

definition query :: "BasicSurface \<Rightarrow> MirWindowAttrib \<Rightarrow> int result" where
  "query s attrib =
     (case attrib of
        mir_window_attrib_type \<Rightarrow> Inr (sf_type s)
      | mir_window_attrib_state \<Rightarrow> Inr (sf_state s)
      | mir_window_attrib_swapinterval \<Rightarrow> Inr (sf_swapinterval s)
      | mir_window_attrib_focus \<Rightarrow> Inr (sf_focus s)
      | mir_window_attrib_dpi \<Rightarrow> Inr (sf_dpi s)
      | mir_window_attrib_visibility \<Rightarrow> Inr (sf_visibility s)
      | mir_window_attrib_preferred_orientation \<Rightarrow> Inr (sf_pref_orientation s)
      | mir_window_attribs \<Rightarrow> Inl (logic_error ''Invalid surface attribute.''))"

section \<open>Rendering\<close>

definition surface_buffers_ready :: "BasicSurface \<Rightarrow> StreamStore \<Rightarrow> CompositorID \<Rightarrow> int" where
  "surface_buffers_ready s st cid =
     fold (\<lambda>info max_buf. max max_buf (buffers_ready_for_compositor (st (si_stream info)) cid)) (sf_layers s) 0"

definition SurfaceSnapshot :: "BasicSurface \<Rightarrow> StreamStore \<Rightarrow> StreamInfo \<Rightarrow> Renderable" where
  "SurfaceSnapshot s st info =
     (let stream = st (si_stream info);
          sz = (case si_size info of Some v \<Rightarrow> v | None \<Rightarrow> stream_size stream)
      in \<lparr>renderable_id = si_stream info,
          screen_position = mk_rect (point_plus (top_left (sf_rect s)) (si_displacement info)) sz,
          alpha = sf_alpha s, transformation = sf_transformation s, shaped = contains_alpha (stream_pf stream)\<rparr>)"

definition generate_renderables :: "BasicSurface \<Rightarrow> StreamStore \<Rightarrow> Renderable list" where
  "generate_renderables s st =
     map (SurfaceSnapshot s st) (filter (\<lambda>info. has_submitted_buffer (st (si_stream info))) (sf_layers s))"

definition surface_set_keymap ::
    "BasicSurface \<Rightarrow> int \<Rightarrow> string \<Rightarrow> string \<Rightarrow> string \<Rightarrow> string \<Rightarrow> BasicSurface" where
  "surface_set_keymap s device_id model layout variant options =
     notify (Keymap_changed device_id model layout variant options) s"

definition surface_rename :: "BasicSurface \<Rightarrow> string \<Rightarrow> BasicSurface" where
  "surface_rename s title =
     (if sf_name s \<noteq> title then notify (Renamed title) (s\<lparr>sf_name := title\<rparr>) else s)"

definition surface_set_streams :: "BasicSurface \<Rightarrow> StreamInfo list \<Rightarrow> BasicSurface" where
  "surface_set_streams s infos = notify (Moved_to (top_left (sf_rect s))) (s\<lparr>sf_layers := infos\<rparr>)"

definition surface_set_confine_pointer_state :: "BasicSurface \<Rightarrow> int \<Rightarrow> BasicSurface" where
  "surface_set_confine_pointer_state s v = s\<lparr>sf_confine_pointer := v\<rparr>"

definition surface_request_close :: "BasicSurface \<Rightarrow> BasicSurface" where
  "surface_request_close s = notify Client_surface_close_requested s"

definition surface_placed_relative :: "BasicSurface \<Rightarrow> Rectangle \<Rightarrow> BasicSurface" where
  "surface_placed_relative s placement = notify (Placed_relative placement) s"

section \<open>Attributes: what \<open>configure\<close> does\<close>

definition accepted_value :: "MirWindowAttrib \<Rightarrow> int \<Rightarrow> bool" where
  "accepted_value attrib v \<longleftrightarrow>
     (case attrib of
        mir_window_attrib_type \<Rightarrow> 0 \<le> v \<and> v \<le> mir_window_types
      | mir_window_attrib_state \<Rightarrow> 0 \<le> v \<and> v \<le> mir_window_states
      | mir_window_attrib_swapinterval \<Rightarrow> 0 \<le> v
      | mir_window_attrib_focus \<Rightarrow> v \<in> {0, 1}
      | mir_window_attrib_dpi \<Rightarrow> 0 \<le> v
      | mir_window_attrib_visibility \<Rightarrow> v \<in> {0, 1}
      | mir_window_attrib_preferred_orientation \<Rightarrow> v AND mir_orientation_mode_any \<noteq> 0
      | mir_window_attribs \<Rightarrow> False)"

definition attribute_change :: "BasicSurface \<Rightarrow> MirWindowAttrib \<Rightarrow> int \<Rightarrow> SurfaceNotification list" where
  "attribute_change s attrib v = (if query s attrib = Inr v then [] else [Attrib_changed attrib v])"

lemmas attribute_defs =
  set_type_def set_state_def set_swap_interval_def set_focus_state_def set_preferred_orientation_def
  set_dpi_def set_visibility_def with_store_def notify_def query_def attribute_change_def

lemma configure_invalid:
  "\<not> accepted_value attrib v \<Longrightarrow> \<exists>msg. configure s st attrib v = (Inl (logic_error msg), (s, st))"
  by (cases attrib) (auto simp: configure_def accepted_value_def attribute_defs)

lemma configure_valid:
  assumes "accepted_value attrib v"
  obtains s' st' where "configure s st attrib v = (Inr v, (s', st'))" "query s' attrib = Inr v"
    "\<And>b. b \<noteq> attrib \<Longrightarrow> query s' b = query s b"
    "sf_notifications s' = sf_notifications s @ attribute_change s attrib v"
    "sf_layers s' = sf_layers s" "sf_rect s' = sf_rect s" "sf_hidden s' = sf_hidden s"
proof -
  obtain r s' st' where c: "configure s st attrib v = (r, (s', st'))" by (metis prod.collapse)
  have "r = Inr v \<and> query s' attrib = Inr v \<and> (\<forall>b. b \<noteq> attrib \<longrightarrow> query s' b = query s b) \<and>
        sf_notifications s' = sf_notifications s @ attribute_change s attrib v \<and>
        sf_layers s' = sf_layers s \<and> sf_rect s' = sf_rect s \<and> sf_hidden s' = sf_hidden s"
    using c assms
    by (cases attrib)
       (auto simp: configure_def accepted_value_def attribute_defs split: if_splits MirWindowAttrib.split)
  with c that show ?thesis by blast
qed


text \<open>
  The bounds checks of \<open>set_type\<close> and \<open>set_state\<close> compare with \<open>>\<close>, so the two enumerators
  that only count the others, \<open>mir_window_types\<close> and \<open>mir_window_states\<close>, pass them: such a window
  has a type and a state that no enumerator names.
\<close>

theorem enumerator_counts_accepted:
  "fst (configure s st mir_window_attrib_type mir_window_types) = Inr mir_window_types \<and>
   query (fst (snd (configure s st mir_window_attrib_type mir_window_types))) mir_window_attrib_type =
     Inr mir_window_types \<and>
   fst (configure s st mir_window_attrib_state mir_window_states) = Inr mir_window_states \<and>
   query (fst (snd (configure s st mir_window_attrib_state mir_window_states))) mir_window_attrib_state =
     Inr mir_window_states"
  by (simp add: configure_def attribute_defs)

section \<open>The streams of a surface\<close>

lemma for_each_stream_invariant:
  "(\<And>x. P x \<Longrightarrow> P (f x)) \<Longrightarrow> P (st i) \<Longrightarrow> P (for_each_stream f layers st i)"
proof (induction layers arbitrary: st)
  case (Cons l layers)
  from Cons.prems have "P ((st(si_stream l := f (st (si_stream l)))) i)" by auto
  then have "P (for_each_stream f layers (st(si_stream l := f (st (si_stream l)))) i)"
    using Cons.IH Cons.prems(1) by metis
  then show ?case by (simp add: for_each_stream_def)
qed (simp add: for_each_stream_def)

lemma for_each_stream_post:
  "(\<And>x. Q (f x)) \<Longrightarrow> i \<in> si_stream ` set layers \<Longrightarrow> Q (for_each_stream f layers st i)"
proof (induction layers arbitrary: st)
  case (Cons l layers)
  show ?case
  proof (cases "i \<in> si_stream ` set layers")
    case True
    with Cons show ?thesis by (simp add: for_each_stream_def)
  next
    case False
    then have "i = si_stream l" using Cons.prems by auto
    then have "Q ((st(si_stream l := f (st (si_stream l)))) i)" using Cons.prems by simp
    moreover have "for_each_stream f (l # layers) st = for_each_stream f layers (st(si_stream l := f (st (si_stream l))))"
      by (simp add: for_each_stream_def)
    ultimately show ?thesis using Cons.prems(1) for_each_stream_invariant [of Q f _ i layers] by metis
  qed
qed simp

lemma for_each_stream_other:
  "i \<notin> si_stream ` set layers \<Longrightarrow> for_each_stream f layers st i = st i"
  unfolding for_each_stream_def by (induction layers arbitrary: st) auto

lemma allow_framedropping_sets: "framedropping (allow_framedropping s d) = d"
  by (cases "schedule_mode s") (simp_all add: framedropping_def allow_framedropping_def)

text \<open>
  A new swap interval reaches every layer: the stream of each layer drops frames exactly for
  interval 0 afterwards, a stream that is not a layer is not touched, and every stream keeps its
  buffer-ownership invariant.
\<close>

theorem swap_interval_reaches_streams:
  assumes "accepted_value mir_window_attrib_swapinterval v" "sf_swapinterval s \<noteq> v"
  shows "\<exists>s' st'. configure s st mir_window_attrib_swapinterval v = (Inr v, (s', st')) \<and>
           (\<forall>info \<in> set (sf_layers s'). framedropping (st' (si_stream info)) \<longleftrightarrow> v = 0) \<and>
           (\<forall>i. i \<notin> si_stream ` set (sf_layers s) \<longrightarrow> st' i = st i) \<and>
           (\<forall>i ew held. stream_inv ew held (st i) \<longrightarrow> stream_inv ew held (st' i))"
proof -
  let ?st = "for_each_stream (\<lambda>stream. allow_framedropping stream (v = 0)) (sf_layers s) st"
  have "configure s st mir_window_attrib_swapinterval v =
          (Inr v, (notify (Attrib_changed mir_window_attrib_swapinterval v) (s\<lparr>sf_swapinterval := v\<rparr>), ?st))"
    using assms by (simp add: configure_def set_swap_interval_def accepted_value_def)
  moreover have "framedropping (?st (si_stream info)) \<longleftrightarrow> v = 0" if "info \<in> set (sf_layers s)" for info
    by (rule for_each_stream_post [where Q = "\<lambda>x. framedropping x \<longleftrightarrow> v = 0"])
       (use that in \<open>auto simp: allow_framedropping_sets\<close>)
  moreover have "stream_inv ew held (?st i)" if "stream_inv ew held (st i)" for i ew held
    by (rule for_each_stream_invariant) (use that allow_framedropping_inv in auto)
  ultimately show ?thesis by (simp add: notify_def for_each_stream_other)
qed

section \<open>Visibility, input and rendering\<close>

lemma surface_visible_iff:
  "surface_visible s st \<longleftrightarrow>
     \<not> sf_hidden s \<and> (\<exists>info \<in> set (sf_layers s). has_submitted_buffer (st (si_stream info)))"
proof -
  have "fold (\<lambda>info v. v \<or> P info) ls b = (b \<or> (\<exists>info \<in> set ls. P info))" for P :: "StreamInfo \<Rightarrow> bool" and ls b
    by (induction ls arbitrary: b) auto
  then show ?thesis by (simp add: surface_visible_def)
qed

lemma any_contains_iff: "any_contains rs p \<longleftrightarrow> (\<exists>r \<in> set rs. p \<in> points_of r)"
  by (induction rs) (auto simp: contains_point_points_of)

text \<open>The pixels of the screen on which a surface takes input.\<close>

definition input_area :: "BasicSurface \<Rightarrow> Point set" where
  "input_area s =
     (if sf_input_rectangles s = [] then points_of (sf_rect s)
      else {p. \<exists>r \<in> set (sf_input_rectangles s).
                 mk_point (pt_x p - pt_x (top_left (sf_rect s))) (pt_y p - pt_y (top_left (sf_rect s)))
                   \<in> points_of r})"

text \<open>
  A surface takes input at a point exactly when it is not hidden, has something to render and
  the point is in its input area: the input rectangles, relative to the window's corner, or the
  window itself if there are none.
\<close>

theorem input_area_contains_correct:
  "input_area_contains s st p \<longleftrightarrow>
     \<not> sf_hidden s \<and> generate_renderables s st \<noteq> [] \<and> p \<in> input_area s"
  by (auto simp: input_area_contains_def surface_visible_iff generate_renderables_def any_contains_iff
        input_area_def contains_point_points_of filter_empty_conv geom_defs)

text \<open>
  \<open>resize\<close> leaves a window whose sides are at least one pixel, keeps a positive requested
  size as it is, resizes the surface's own stream to the same size and no other stream, and tells
  the observers once, unless the size did not change.
\<close>

theorem surface_resize_correct:
  assumes "surface_resize s st desired = (s', st')"
  shows "surface_size s' = mk_size (if width desired \<le> 0 then 1 else width desired)
                                   (if height desired \<le> 0 then 1 else height desired) \<and>
         0 < width (surface_size s') \<and> 0 < height (surface_size s') \<and>
         top_left (sf_rect s') = top_left (sf_rect s) \<and>
         (\<forall>i. i \<noteq> sf_buffer_stream s \<longrightarrow> st' i = st i) \<and>
         (if surface_size s' = surface_size s then s' = s \<and> st' = st
          else strm_size (st' (sf_buffer_stream s)) = surface_size s' \<and>
               sf_notifications s' = sf_notifications s @ [Resized_to (surface_size s')])"
proof -
  define sz where "sz = mk_size (if width desired \<le> 0 then 1 else width desired)
                                (if height desired \<le> 0 then 1 else height desired)"
  have "surface_resize s st desired =
          (if sz = surface_size s then (s, st)
           else (notify (Resized_to sz) (s\<lparr>sf_rect := (sf_rect s)\<lparr>rect_size := sz\<rparr>\<rparr>),
                 st(sf_buffer_stream s := resize (st (sf_buffer_stream s)) sz)))"
    unfolding surface_resize_def sz_def Let_def by (cases desired) simp
  moreover have "0 < width sz" "0 < height sz" by (simp_all add: sz_def)
  ultimately show ?thesis
    using assms by (auto simp: sz_def [symmetric] surface_size_def notify_def resize_def split: if_splits)
qed

definition sample_surface :: BasicSurface where
  "sample_surface =
     (case new_BasicSurface ''window'' (mk_rect (mk_point 10 20) (mk_size 30 40)) None mir_pointer_unconfined
             [\<lparr>si_stream = 1, si_displacement = mk_disp 0 0, si_size = None\<rparr>] None of Inr s \<Rightarrow> s)"

lemma sample_surface_eval:
  "sf_layers sample_surface = [\<lparr>si_stream = 1, si_displacement = mk_disp 0 0, si_size = None\<rparr>]"
  "sf_buffer_stream sample_surface = 1" "surface_size sample_surface = mk_size 30 40"
  "sf_swapinterval sample_surface = 1" "sf_notifications sample_surface = []"
  by (simp_all add: sample_surface_def new_BasicSurface_def default_stream_def surface_size_def)

theorem swap_interval_reaches_streams_witness:
  "\<exists>s' st'. configure sample_surface (\<lambda>_. sample_stream) mir_window_attrib_swapinterval 0 = (Inr 0, (s', st')) \<and>
     (\<forall>info \<in> set (sf_layers s'). framedropping (st' (si_stream info))) \<and> st' 2 = sample_stream"
  using swap_interval_reaches_streams [of 0 sample_surface "\<lambda>_. sample_stream"]
  by (auto simp: accepted_value_def sample_surface_eval)

theorem surface_resize_correct_witness:
  "\<exists>s' st'. surface_resize sample_surface (\<lambda>_. sample_stream) (mk_size (- 5) 7) = (s', st') \<and>
     surface_size s' = mk_size 1 7 \<and> sf_notifications s' = [Resized_to (mk_size 1 7)]"
  using surface_resize_correct [of sample_surface "\<lambda>_. sample_stream" "mk_size (- 5) 7"]
  by (cases "surface_resize sample_surface (\<lambda>_. sample_stream) (mk_size (- 5) 7)")
     (auto simp: sample_surface_eval)

end
