(* ===== verification/Surface_Stack.thy ===== *)
theory Surface_Stack
  imports Basic_Surface "HOL-Library.AList"
begin

text \<open>
  The scene: \<open>RenderingTracker\<close> (\<^verbatim>\<open>src/server/scene/rendering_tracker.cpp\<close>) and
  \<open>SurfaceStack\<close> (\<^verbatim>\<open>surface_stack.cpp\<close>).  Surfaces, streams and trackers are shared
  objects, so they live in stores: a surface pointer that has no entry is a destroyed surface.
  \<open>rendering_trackers\<close> is a \<open>std::map\<close> whose iteration order is that of the pointers; here it is
  an association list in insertion order, and its entries touch disjoint objects.

  A surface that is occluded for every registered compositor has the visibility attribute
  \<open>occluded\<close>; the last theorem follows one frame from the scene through occlusion culling back to
  the trackers.
\<close>

type_synonym TrackerPtr = nat

record SurfaceHeap =
  live_surfaces :: "SurfacePtr \<Rightarrow> BasicSurface option"
  streams :: StreamStore

record RenderingTracker =
  tr_surface :: SurfacePtr
  occlusions :: "CompositorID set"
  active_compositors_set :: "CompositorID set"

definition new_RenderingTracker :: "SurfacePtr \<Rightarrow> RenderingTracker" where
  "new_RenderingTracker p = \<lparr>tr_surface = p, occlusions = {}, active_compositors_set = {}\<rparr>"

definition occluded_in_all_active_compositors :: "RenderingTracker \<Rightarrow> bool" where
  "occluded_in_all_active_compositors t \<longleftrightarrow> occlusions t = active_compositors_set t"

definition configure_visibility :: "RenderingTracker \<Rightarrow> SurfaceHeap \<Rightarrow> int \<Rightarrow> SurfaceHeap" where
  "configure_visibility t h v =
     (case live_surfaces h (tr_surface t) of
        None \<Rightarrow> h
      | Some s \<Rightarrow>
          let (s', st') = snd (configure s (streams h) mir_window_attrib_visibility v)
          in h\<lparr>live_surfaces := (live_surfaces h)(tr_surface t := Some s'), streams := st'\<rparr>)"

definition remove_occlusions_for_inactive_compositors :: "RenderingTracker \<Rightarrow> RenderingTracker" where
  "remove_occlusions_for_inactive_compositors t =
     t\<lparr>occlusions := active_compositors_set t \<inter> occlusions t\<rparr>"

definition ensure_is_active_compositor :: "RenderingTracker \<Rightarrow> CompositorID \<Rightarrow> unit result" where
  "ensure_is_active_compositor t cid =
     (if cid \<notin> active_compositors_set t then Inl (logic_error ''No active compositor with supplied id'')
      else Inr ())"

definition rendered_in ::
    "RenderingTracker \<Rightarrow> SurfaceHeap \<Rightarrow> CompositorID \<Rightarrow> (RenderingTracker \<times> SurfaceHeap, unit) outcome" where
  "rendered_in t h cid =
     (case ensure_is_active_compositor t cid of
        Inl e \<Rightarrow> (Inl e, (t, h))
      | Inr _ \<Rightarrow>
          let t' = t\<lparr>occlusions := occlusions t - {cid}\<rparr>
          in (Inr (), (t', configure_visibility t' h mir_window_visibility_exposed)))"

definition occluded_in ::
    "RenderingTracker \<Rightarrow> SurfaceHeap \<Rightarrow> CompositorID \<Rightarrow> (RenderingTracker \<times> SurfaceHeap, unit) outcome" where
  "occluded_in t h cid =
     (case ensure_is_active_compositor t cid of
        Inl e \<Rightarrow> (Inl e, (t, h))
      | Inr _ \<Rightarrow>
          let t' = t\<lparr>occlusions := insert cid (occlusions t)\<rparr>
          in (Inr (), (t', if occluded_in_all_active_compositors t'
                           then configure_visibility t' h mir_window_visibility_occluded else h)))"

definition active_compositors ::
    "RenderingTracker \<Rightarrow> SurfaceHeap \<Rightarrow> CompositorID set \<Rightarrow> RenderingTracker \<times> SurfaceHeap" where
  "active_compositors t h cids =
     (let t' = remove_occlusions_for_inactive_compositors (t\<lparr>active_compositors_set := cids\<rparr>)
      in (t', if occluded_in_all_active_compositors t'
              then configure_visibility t' h mir_window_visibility_occluded else h))"

definition is_exposed_in :: "RenderingTracker \<Rightarrow> CompositorID \<Rightarrow> bool result" where
  "is_exposed_in t cid =
     (case ensure_is_active_compositor t cid of
        Inl e \<Rightarrow> Inl e
      | Inr _ \<Rightarrow> Inr (if occlusions t = {} then True else cid \<notin> occlusions t))"

section \<open>The surface stack\<close>

type_synonym OverlayPtr = nat

datatype SceneNotification =
    Surface_added SurfacePtr
  | Surface_removed SurfacePtr
  | Surfaces_reordered
  | Scene_changed
  | Surface_exists SurfacePtr

record Scene =
  heap :: SurfaceHeap
  tracker_at :: "TrackerPtr \<Rightarrow> RenderingTracker"
  next_tracker :: TrackerPtr
  surfaces :: "SurfacePtr list"
  rendering_trackers :: "(SurfacePtr \<times> TrackerPtr) list"
  registered_compositors :: "CompositorID set"
  overlays :: "(OverlayPtr \<times> Renderable) list"
  scene_changed :: bool
  scene_notifications :: "SceneNotification list"

datatype SceneElement =
    SurfaceSceneElement string Renderable "TrackerPtr option" CompositorID
  | OverlaySceneElement Renderable

fun element_renderable :: "SceneElement \<Rightarrow> Renderable" where
  "element_renderable (SurfaceSceneElement name r t cid) = r"
| "element_renderable (OverlaySceneElement r) = r"

definition scene_notify :: "SceneNotification \<Rightarrow> Scene \<Rightarrow> Scene" where
  "scene_notify n sc = sc\<lparr>scene_notifications := scene_notifications sc @ [n]\<rparr>"

text \<open>A call on the tracker object \<open>t\<close>.\<close>

definition on_tracker ::
    "(RenderingTracker \<Rightarrow> SurfaceHeap \<Rightarrow> (RenderingTracker \<times> SurfaceHeap, unit) outcome)
       \<Rightarrow> TrackerPtr \<Rightarrow> Scene \<Rightarrow> (Scene, unit) outcome" where
  "on_tracker f t sc =
     apsnd (\<lambda>(tr, h). sc\<lparr>tracker_at := (tracker_at sc)(t := tr), heap := h\<rparr>) (f (tracker_at sc t) (heap sc))"

fun element_rendered :: "SceneElement \<Rightarrow> Scene \<Rightarrow> (Scene, unit) outcome" where
  "element_rendered (SurfaceSceneElement name r (Some t) cid) sc = on_tracker (\<lambda>tr h. rendered_in tr h cid) t sc"
| "element_rendered _ sc = (Inr (), sc)"

fun element_occluded :: "SceneElement \<Rightarrow> Scene \<Rightarrow> (Scene, unit) outcome" where
  "element_occluded (SurfaceSceneElement name r (Some t) cid) sc = on_tracker (\<lambda>tr h. occluded_in tr h cid) t sc"
| "element_occluded _ sc = (Inr (), sc)"

text \<open>The surface object at a pointer the stack holds, which keeps it alive.\<close>

definition surface_of :: "Scene \<Rightarrow> SurfacePtr \<Rightarrow> BasicSurface" where
  "surface_of sc p = the (live_surfaces (heap sc) p)"

definition visible_in :: "Scene \<Rightarrow> SurfacePtr \<Rightarrow> bool" where
  "visible_in sc p = surface_visible (surface_of sc p) (streams (heap sc))"

definition new_SurfaceStack :: "SurfaceHeap \<Rightarrow> Scene" where
  "new_SurfaceStack h =
     \<lparr>heap = h, tracker_at = (\<lambda>p. new_RenderingTracker p), next_tracker = 0, surfaces = [],
      rendering_trackers = [], registered_compositors = {}, overlays = [], scene_changed = False,
      scene_notifications = []\<rparr>"

text \<open>
  \<open>rendering_trackers[surface.get()]\<close> finds an entry, because every surface of the stack has a
  tracker (\<open>stack_inv\<close>); an element without one has \<open>None\<close> here, a null pointer in the code.
\<close>

definition elements_of :: "Scene \<Rightarrow> CompositorID \<Rightarrow> SurfacePtr \<Rightarrow> SceneElement list" where
  "elements_of sc cid p =
     (if visible_in sc p then
        map (\<lambda>r. SurfaceSceneElement (sf_name (surface_of sc p)) r (map_of (rendering_trackers sc) p) cid)
            (generate_renderables (surface_of sc p) (streams (heap sc)))
      else [])"

definition scene_elements_for :: "Scene \<Rightarrow> CompositorID \<Rightarrow> SceneElement list \<times> Scene" where
  "scene_elements_for sc cid =
     (concat (map (elements_of sc cid) (surfaces sc)) @ map (\<lambda>ov. OverlaySceneElement (snd ov)) (overlays sc),
      sc\<lparr>scene_changed := False\<rparr>)"

fun frames_pending_loop :: "Scene \<Rightarrow> CompositorID \<Rightarrow> SurfacePtr list \<Rightarrow> int \<Rightarrow> int result" where
  "frames_pending_loop sc cid [] result = Inr result"
| "frames_pending_loop sc cid (p # ps) result =
     (if visible_in sc p then
        (case map_of (rendering_trackers sc) p of
           None \<Rightarrow> frames_pending_loop sc cid ps result
         | Some t \<Rightarrow>
             (case is_exposed_in (tracker_at sc t) cid of
                Inl e \<Rightarrow> Inl e
              | Inr exposed \<Rightarrow>
                  if exposed then
                    let ready = surface_buffers_ready (surface_of sc p) (streams (heap sc)) cid
                    in frames_pending_loop sc cid ps (if ready > result then ready else result)
                  else frames_pending_loop sc cid ps result))
      else frames_pending_loop sc cid ps result)"

definition frames_pending :: "Scene \<Rightarrow> CompositorID \<Rightarrow> int result" where
  "frames_pending sc cid = frames_pending_loop sc cid (surfaces sc) (if scene_changed sc then 1 else 0)"

fun update_trackers ::
    "CompositorID set \<Rightarrow> TrackerPtr list \<Rightarrow> (TrackerPtr \<Rightarrow> RenderingTracker) \<times> SurfaceHeap
       \<Rightarrow> (TrackerPtr \<Rightarrow> RenderingTracker) \<times> SurfaceHeap" where
  "update_trackers cids [] (trk, h) = (trk, h)"
| "update_trackers cids (t # ts) (trk, h) =
     (let (tr, h') = active_compositors (trk t) h cids
      in update_trackers cids ts (trk(t := tr), h'))"

definition update_rendering_tracker_compositors :: "Scene \<Rightarrow> Scene" where
  "update_rendering_tracker_compositors sc =
     (let (trk, h) = update_trackers (registered_compositors sc) (map snd (rendering_trackers sc))
                       (tracker_at sc, heap sc)
      in sc\<lparr>tracker_at := trk, heap := h\<rparr>)"

definition register_compositor :: "Scene \<Rightarrow> CompositorID \<Rightarrow> Scene" where
  "register_compositor sc cid =
     update_rendering_tracker_compositors
       (sc\<lparr>registered_compositors := insert cid (registered_compositors sc)\<rparr>)"

definition unregister_compositor :: "Scene \<Rightarrow> CompositorID \<Rightarrow> Scene" where
  "unregister_compositor sc cid =
     update_rendering_tracker_compositors
       (sc\<lparr>registered_compositors := registered_compositors sc - {cid}\<rparr>)"

definition emit_scene_changed :: "Scene \<Rightarrow> Scene" where
  "emit_scene_changed sc = scene_notify Scene_changed (sc\<lparr>scene_changed := True\<rparr>)"

definition add_input_visualization :: "Scene \<Rightarrow> OverlayPtr \<Rightarrow> Renderable \<Rightarrow> Scene" where
  "add_input_visualization sc o_ptr r = emit_scene_changed (sc\<lparr>overlays := overlays sc @ [(o_ptr, r)]\<rparr>)"

definition remove_input_visualization :: "Scene \<Rightarrow> OverlayPtr \<Rightarrow> (Scene, unit) outcome" where
  "remove_input_visualization sc o_ptr =
     (if o_ptr \<notin> set (map fst (overlays sc))
      then (Inl (runtime_error ''Attempt to remove an overlay which was never added or which has been previously removed''), sc)
      else (Inr (), emit_scene_changed (sc\<lparr>overlays := erase_first (\<lambda>e. fst e = o_ptr) (overlays sc)\<rparr>)))"

definition create_rendering_tracker_for :: "Scene \<Rightarrow> SurfacePtr \<Rightarrow> Scene" where
  "create_rendering_tracker_for sc p =
     (let t = next_tracker sc;
          (tr, h) = active_compositors (new_RenderingTracker p) (heap sc) (registered_compositors sc)
      in sc\<lparr>tracker_at := (tracker_at sc)(t := tr), heap := h, next_tracker := t + 1,
            rendering_trackers := AList.update p t (rendering_trackers sc)\<rparr>)"

definition add_surface :: "Scene \<Rightarrow> SurfacePtr \<Rightarrow> InputReceptionMode \<Rightarrow> Scene" where
  "add_surface sc p input_mode =
     (let sc1 = create_rendering_tracker_for (sc\<lparr>surfaces := surfaces sc @ [p]\<rparr>) p;
          s = surface_set_reception_mode (surface_of sc1 p) input_mode
      in scene_notify (Surface_added p)
           (sc1\<lparr>heap := (heap sc1)\<lparr>live_surfaces := (live_surfaces (heap sc1))(p := Some s)\<rparr>\<rparr>))"

definition remove_surface :: "Scene \<Rightarrow> SurfacePtr \<Rightarrow> Scene" where
  "remove_surface sc p =
     (if p \<in> set (surfaces sc)
      then scene_notify (Surface_removed p)
             (sc\<lparr>surfaces := remove1 p (surfaces sc), rendering_trackers := AList.delete p (rendering_trackers sc)\<rparr>)
      else sc)"

fun surface_at_loop :: "Scene \<Rightarrow> Point \<Rightarrow> SurfacePtr list \<Rightarrow> SurfacePtr option" where
  "surface_at_loop sc cursor [] = None"
| "surface_at_loop sc cursor (p # ps) =
     (if input_area_contains (surface_of sc p) (streams (heap sc)) cursor then Some p
      else surface_at_loop sc cursor ps)"

definition surface_at :: "Scene \<Rightarrow> Point \<Rightarrow> SurfacePtr option" where
  "surface_at sc cursor = surface_at_loop sc cursor (rev (surfaces sc))"

text \<open>The surfaces \<open>for_each\<close> passes to its callback, in order.\<close>

definition for_each_surface :: "Scene \<Rightarrow> SurfacePtr list" where
  "for_each_surface sc =
     filter (\<lambda>p. query (surface_of sc p) mir_window_attrib_visibility = Inr mir_window_visibility_exposed) (surfaces sc)"

definition raise :: "Scene \<Rightarrow> SurfacePtr \<Rightarrow> (Scene, unit) outcome" where
  "raise sc p =
     (if p \<in> set (surfaces sc)
      then (Inr (), scene_notify Surfaces_reordered (sc\<lparr>surfaces := remove1 p (surfaces sc) @ [p]\<rparr>))
      else (Inl (runtime_error ''Invalid surface''), sc))"

definition raise_set :: "Scene \<Rightarrow> SurfacePtr set \<Rightarrow> Scene" where
  "raise_set sc ss =
     (let old_surfaces = surfaces sc;
          sc' = sc\<lparr>surfaces := filter (\<lambda>p. p \<notin> ss) old_surfaces @ filter (\<lambda>p. p \<in> ss) old_surfaces\<rparr>
      in if old_surfaces \<noteq> surfaces sc' then scene_notify Surfaces_reordered sc' else sc')"

text \<open>What a new observer is told: the surfaces that exist, bottom first.\<close>

definition add_observer :: "Scene \<Rightarrow> SceneNotification list" where
  "add_observer sc = map Surface_exists (surfaces sc)"

section \<open>The visibility attribute\<close>

definition vis :: "SurfaceHeap \<Rightarrow> SurfacePtr \<Rightarrow> int option" where
  "vis h p = map_option sf_visibility (live_surfaces h p)"

lemma vis_configure_visibility:
  assumes "v = mir_window_visibility_occluded \<or> v = mir_window_visibility_exposed"
  shows "vis (configure_visibility t h v) p =
           (if p = tr_surface t then map_option (\<lambda>_. v) (vis h p) else vis h p)"
  using assms
  by (auto simp: vis_def configure_visibility_def configure_def set_visibility_def notify_def
        split: option.split)

lemma vis_None: "vis h p = None \<longleftrightarrow> live_surfaces h p = None"
  by (simp add: vis_def)

definition inactive_removed :: "CompositorID set \<Rightarrow> RenderingTracker \<Rightarrow> RenderingTracker" where
  "inactive_removed cids t = t\<lparr>active_compositors_set := cids, occlusions := cids \<inter> occlusions t\<rparr>"

lemma inactive_removed_simps [simp]:
  "tr_surface (inactive_removed cids t) = tr_surface t"
  "active_compositors_set (inactive_removed cids t) = cids"
  "occlusions (inactive_removed cids t) = cids \<inter> occlusions t"
  "inactive_removed cids (inactive_removed cids t) = inactive_removed cids t"
  by (simp_all add: inactive_removed_def Int_absorb1)

lemma active_compositors_eq:
  "active_compositors t h cids =
     (inactive_removed cids t,
      if cids \<subseteq> occlusions t then configure_visibility (inactive_removed cids t) h mir_window_visibility_occluded else h)"
  by (auto simp: active_compositors_def inactive_removed_def remove_occlusions_for_inactive_compositors_def
        occluded_in_all_active_compositors_def Let_def)

lemma vis_active_compositors:
  "vis (snd (active_compositors t h cids)) p =
     (if p = tr_surface t \<and> cids \<subseteq> occlusions t then map_option (\<lambda>_. mir_window_visibility_occluded) (vis h p)
      else vis h p)"
  by (auto simp: active_compositors_eq vis_configure_visibility)

lemma update_trackers_fst:
  "fst (update_trackers cids ts (trk, h)) = (\<lambda>t. if t \<in> set ts then inactive_removed cids (trk t) else trk t)"
  by (induction ts arbitrary: trk h) (auto simp: active_compositors_eq fun_eq_iff split: prod.split)

lemma update_trackers_vis:
  assumes "distinct ts"
  shows "vis (snd (update_trackers cids ts (trk, h))) p =
           (if \<exists>t \<in> set ts. tr_surface (trk t) = p \<and> cids \<subseteq> occlusions (trk t)
            then map_option (\<lambda>_. mir_window_visibility_occluded) (vis h p) else vis h p)"
  using assms
proof (induction ts arbitrary: trk h)
  case (Cons t ts)
  let ?r = "active_compositors (trk t) h cids"
  have step: "update_trackers cids (t # ts) (trk, h) = update_trackers cids ts (trk(t := fst ?r), snd ?r)"
    by (simp add: Let_def split: prod.split)
  have "(\<exists>u \<in> set ts. tr_surface ((trk(t := fst ?r)) u) = p \<and> cids \<subseteq> occlusions ((trk(t := fst ?r)) u)) \<longleftrightarrow>
        (\<exists>u \<in> set ts. tr_surface (trk u) = p \<and> cids \<subseteq> occlusions (trk u))"
    using Cons.prems by auto
  then have "vis (snd (update_trackers cids ts (trk(t := fst ?r), snd ?r))) p =
     (if \<exists>u \<in> set ts. tr_surface (trk u) = p \<and> cids \<subseteq> occlusions (trk u)
      then map_option (\<lambda>_. mir_window_visibility_occluded) (vis (snd ?r) p) else vis (snd ?r) p)"
    using Cons.IH [of "trk(t := fst ?r)" "snd ?r"] Cons.prems by (simp only: distinct.simps)
  then show ?case
    unfolding step by (auto simp only: vis_active_compositors option.map_comp comp_def list.set split: if_splits)
qed simp

section \<open>The invariant of the stack\<close>

text \<open>
  \<open>T\<close> are the surfaces whose visibility somebody else than the stack has set: a client may, through
  \<open>configure_surface\<close>.
\<close>

definition tracker_ok :: "SurfacePtr set \<Rightarrow> Scene \<Rightarrow> SurfacePtr \<Rightarrow> RenderingTracker \<Rightarrow> bool" where
  "tracker_ok T sc p t \<longleftrightarrow>
     tr_surface t = p \<and> active_compositors_set t = registered_compositors sc \<and>
     occlusions t \<subseteq> registered_compositors sc \<and>
     (p \<notin> T \<and> occlusions t = registered_compositors sc \<longrightarrow> vis (heap sc) p = Some mir_window_visibility_occluded)"

definition stack_inv :: "SurfacePtr set \<Rightarrow> Scene \<Rightarrow> bool" where
  "stack_inv T sc \<longleftrightarrow>
     distinct (surfaces sc) \<and> distinct (map fst (rendering_trackers sc)) \<and>
     distinct (map snd (rendering_trackers sc)) \<and>
     set (map fst (rendering_trackers sc)) = set (surfaces sc) \<and>
     (\<forall>p \<in> set (surfaces sc). vis (heap sc) p \<noteq> None) \<and>
     (\<forall>(p, t) \<in> set (rendering_trackers sc). t < next_tracker sc \<and> tracker_ok T sc p (tracker_at sc t)) \<and>
     (\<forall>t < next_tracker sc. tr_surface (tracker_at sc t) \<in> set (surfaces sc) \<longrightarrow>
        (tr_surface (tracker_at sc t), t) \<in> set (rendering_trackers sc))"

lemma stack_invI:
  assumes "distinct (surfaces sc)" "distinct (map fst (rendering_trackers sc))"
    "distinct (map snd (rendering_trackers sc))"
    "set (map fst (rendering_trackers sc)) = set (surfaces sc)"
    "\<And>p. p \<in> set (surfaces sc) \<Longrightarrow> vis (heap sc) p \<noteq> None"
    "\<And>p t. (p, t) \<in> set (rendering_trackers sc) \<Longrightarrow> t < next_tracker sc"
    "\<And>p t. (p, t) \<in> set (rendering_trackers sc) \<Longrightarrow> tracker_ok T sc p (tracker_at sc t)"
    "\<And>t. t < next_tracker sc \<Longrightarrow> tr_surface (tracker_at sc t) \<in> set (surfaces sc) \<Longrightarrow>
        (tr_surface (tracker_at sc t), t) \<in> set (rendering_trackers sc)"
  shows "stack_inv T sc"
  using assms unfolding stack_inv_def by blast

lemma stack_invD:
  assumes "stack_inv T sc"
  shows "distinct (surfaces sc)" "distinct (map fst (rendering_trackers sc))"
    "distinct (map snd (rendering_trackers sc))"
    "set (map fst (rendering_trackers sc)) = set (surfaces sc)"
    "\<And>p. p \<in> set (surfaces sc) \<Longrightarrow> vis (heap sc) p \<noteq> None"
    "\<And>p t. (p, t) \<in> set (rendering_trackers sc) \<Longrightarrow> t < next_tracker sc"
    "\<And>p t. (p, t) \<in> set (rendering_trackers sc) \<Longrightarrow> tracker_ok T sc p (tracker_at sc t)"
    "\<And>t. t < next_tracker sc \<Longrightarrow> tr_surface (tracker_at sc t) \<in> set (surfaces sc) \<Longrightarrow>
        (tr_surface (tracker_at sc t), t) \<in> set (rendering_trackers sc)"
  using assms unfolding stack_inv_def by blast+

lemma stack_inv_new: "stack_inv T (new_SurfaceStack h)"
  by (rule stack_invI) (simp_all add: new_SurfaceStack_def)

lemma tracker_of_surface:
  assumes "stack_inv T sc" "p \<in> set (surfaces sc)"
  obtains t where "map_of (rendering_trackers sc) p = Some t" "(p, t) \<in> set (rendering_trackers sc)"
    "tracker_ok T sc p (tracker_at sc t)"
proof -
  have "p \<in> fst ` set (rendering_trackers sc)" using assms stack_invD(4) by fastforce
  then obtain t where "(p, t) \<in> set (rendering_trackers sc)" by auto
  with that assms stack_invD(2,7) show ?thesis by (metis map_of_is_SomeI)
qed

text \<open>
  Changes the invariant does not see: the stack's surfaces stay alive, and a change of visibility is noted.
\<close>

lemma stack_inv_frame:
  assumes "stack_inv T sc" "surfaces sc' = surfaces sc" "rendering_trackers sc' = rendering_trackers sc"
    "registered_compositors sc' = registered_compositors sc" "tracker_at sc' = tracker_at sc"
    "next_tracker sc' = next_tracker sc"
    "\<And>p. p \<in> set (surfaces sc) \<Longrightarrow> (vis (heap sc') p = None) = (vis (heap sc) p = None)"
    "T \<subseteq> T'" "\<And>p. \<lbrakk>p \<in> set (surfaces sc); p \<notin> T'\<rbrakk> \<Longrightarrow> vis (heap sc') p = vis (heap sc) p"
  shows "stack_inv T' sc'"
proof (rule stack_invI)
  fix p t assume "(p, t) \<in> set (rendering_trackers sc')"
  then have pt: "(p, t) \<in> set (rendering_trackers sc)" by (simp add: assms(3))
  then have "p \<in> set (map fst (rendering_trackers sc))" by force
  then have "p \<in> set (surfaces sc)" using stack_invD(4) [OF assms(1)] by simp
  with stack_invD(7) [OF assms(1) pt] assms(7-9) show "tracker_ok T' sc' p (tracker_at sc' t)"
    by (auto simp: tracker_ok_def assms(4,5))
qed (use assms stack_invD [OF assms(1)] in auto)

lemma stack_inv_compositors:
  assumes inv: "stack_inv T sc"
  shows "stack_inv T (update_rendering_tracker_compositors (sc\<lparr>registered_compositors := cids\<rparr>))"
proof -
  let ?rt = "rendering_trackers sc"
  define r where "r = update_trackers cids (map snd ?rt) (tracker_at sc, heap sc)"
  have sc': "update_rendering_tracker_compositors (sc\<lparr>registered_compositors := cids\<rparr>) =
               sc\<lparr>registered_compositors := cids, tracker_at := fst r, heap := snd r\<rparr>" (is "_ = ?sc'")
    by (simp add: update_rendering_tracker_compositors_def r_def split: prod.split)
  have trk: "fst r t = (if t \<in> set (map snd ?rt) then inactive_removed cids (tracker_at sc t) else tracker_at sc t)" for t
    by (simp add: r_def update_trackers_fst)
  have v: "vis (snd r) p =
      (if \<exists>t \<in> set (map snd ?rt). tr_surface (tracker_at sc t) = p \<and> cids \<subseteq> occlusions (tracker_at sc t)
       then map_option (\<lambda>_. mir_window_visibility_occluded) (vis (heap sc) p) else vis (heap sc) p)" for p
    unfolding r_def by (rule update_trackers_vis [OF stack_invD(3) [OF inv]])
  have "stack_inv T ?sc'"
  proof (rule stack_invI)
    fix p t assume "(p, t) \<in> set (rendering_trackers ?sc')"
    then have pt: "(p, t) \<in> set ?rt" by simp
    then have mem: "t \<in> set (map snd ?rt)" "p \<in> set (map fst ?rt)" by force+
    then have "vis (heap sc) p \<noteq> None" using stack_invD(4,5) [OF inv] by auto
    moreover have "tr_surface (tracker_at sc t) = p" using stack_invD(7) [OF inv pt] by (simp add: tracker_ok_def)
    ultimately show "tracker_ok T ?sc' p (tracker_at ?sc' t)"
      using mem v [of p] by (auto simp: tracker_ok_def trk)
  next
    fix p assume "p \<in> set (surfaces ?sc')"
    then show "vis (heap ?sc') p \<noteq> None" using stack_invD(5) [OF inv] by (simp add: v)
  qed (use stack_invD [OF inv] in \<open>auto simp: trk split: if_splits\<close>)
  then show ?thesis by (simp add: sc')
qed

lemma register_compositor_inv: "stack_inv T sc \<Longrightarrow> stack_inv T (register_compositor sc cid)"
  by (simp add: register_compositor_def stack_inv_compositors)

lemma unregister_compositor_inv: "stack_inv T sc \<Longrightarrow> stack_inv T (unregister_compositor sc cid)"
  by (simp add: unregister_compositor_def stack_inv_compositors)

text \<open>One call on a tracker that was created by the stack, whether its surface is still there or not.\<close>

lemma stack_inv_tracker:
  assumes inv: "stack_inv T sc" and t: "t < next_tracker sc"
    and tr: "tr_surface tr = tr_surface (tracker_at sc t)"
      "active_compositors_set tr = active_compositors_set (tracker_at sc t)"
      "occlusions (tracker_at sc t) \<subseteq> active_compositors_set tr \<Longrightarrow> occlusions tr \<subseteq> active_compositors_set tr"
    and other: "\<And>q. q \<noteq> tr_surface tr \<Longrightarrow> vis h q = vis (heap sc) q"
    and own: "vis h (tr_surface tr) = None \<longleftrightarrow> vis (heap sc) (tr_surface tr) = None"
      "occlusions tr = active_compositors_set tr \<Longrightarrow> vis h (tr_surface tr) \<noteq> None \<Longrightarrow>
         vis h (tr_surface tr) = Some mir_window_visibility_occluded"
  shows "stack_inv T (sc\<lparr>tracker_at := (tracker_at sc)(t := tr), heap := h\<rparr>)" (is "stack_inv T ?sc'")
proof (rule stack_invI)
  fix p u assume "(p, u) \<in> set (rendering_trackers ?sc')"
  then have pu: "(p, u) \<in> set (rendering_trackers sc)" by simp
  then have "p \<in> set (map fst (rendering_trackers sc))" by force
  then have p: "p \<in> set (surfaces sc)" using stack_invD(4) [OF inv] by simp
  have ok: "tracker_ok T sc p (tracker_at sc u)" by (rule stack_invD(7) [OF inv pu])
  show "tracker_ok T ?sc' p (tracker_at ?sc' u)"
  proof (cases "u = t")
    case True
    then have "vis h p \<noteq> None" using own(1) ok tr(1) stack_invD(5) [OF inv p] by (simp add: tracker_ok_def)
    with True ok tr own(2) show ?thesis by (auto simp: tracker_ok_def)
  next
    case False
    have "tr_surface tr \<noteq> p"
    proof
      assume s: "tr_surface tr = p"
      then have "(p, t) \<in> set (rendering_trackers sc)" using stack_invD(8) [OF inv t] p tr(1) by simp
      with pu stack_invD(2) [OF inv] False show False by (metis map_of_is_SomeI option.inject)
    qed
    then show ?thesis using ok False other by (simp add: tracker_ok_def)
  qed
next
  fix p assume "p \<in> set (surfaces ?sc')"
  then have "p \<in> set (surfaces sc)" by simp
  then show "vis (heap ?sc') p \<noteq> None"
    using stack_invD(5) [OF inv] other own(1) by (cases "p = tr_surface tr") auto
qed (use stack_invD [OF inv] tr(1) in auto)

lemma rendered_in_ok:
  assumes "cid \<in> active_compositors_set t"
  shows "rendered_in t h cid =
           (Inr (), (t\<lparr>occlusions := occlusions t - {cid}\<rparr>,
                     configure_visibility (t\<lparr>occlusions := occlusions t - {cid}\<rparr>) h mir_window_visibility_exposed))"
  using assms by (simp add: rendered_in_def ensure_is_active_compositor_def Let_def)

lemma occluded_in_ok:
  assumes "cid \<in> active_compositors_set t"
  shows "occluded_in t h cid =
           (Inr (), (t\<lparr>occlusions := insert cid (occlusions t)\<rparr>,
                     if insert cid (occlusions t) = active_compositors_set t
                     then configure_visibility (t\<lparr>occlusions := insert cid (occlusions t)\<rparr>) h mir_window_visibility_occluded
                     else h))"
  using assms
  by (simp add: occluded_in_def ensure_is_active_compositor_def occluded_in_all_active_compositors_def Let_def)

lemma inactive_in:
  assumes "cid \<notin> active_compositors_set t"
  shows "rendered_in t h cid = (Inl (logic_error ''No active compositor with supplied id''), (t, h))"
    "occluded_in t h cid = (Inl (logic_error ''No active compositor with supplied id''), (t, h))"
  using assms by (simp_all add: rendered_in_def occluded_in_def ensure_is_active_compositor_def)

lemma on_tracker_rendered_inv:
  assumes "stack_inv T sc" "t < next_tracker sc"
  shows "stack_inv T (snd (on_tracker (\<lambda>tr h. rendered_in tr h cid) t sc))"
proof (cases "cid \<in> active_compositors_set (tracker_at sc t)")
  case True
  show ?thesis
    by (simp add: on_tracker_def rendered_in_ok [OF True], rule stack_inv_tracker [OF assms])
       (use True in \<open>auto simp: vis_configure_visibility\<close>)
qed (use assms in \<open>simp add: on_tracker_def inactive_in\<close>)

lemma on_tracker_occluded_inv:
  assumes "stack_inv T sc" "t < next_tracker sc"
  shows "stack_inv T (snd (on_tracker (\<lambda>tr h. occluded_in tr h cid) t sc))"
proof (cases "cid \<in> active_compositors_set (tracker_at sc t)")
  case True
  show ?thesis
    by (simp only: on_tracker_def occluded_in_ok [OF True] apsnd_conv snd_conv prod.case, rule stack_inv_tracker [OF assms])
       (use True in \<open>auto simp: vis_configure_visibility split: if_splits\<close>)
qed (use assms in \<open>simp add: on_tracker_def inactive_in\<close>)

definition element_tracker :: "SceneElement \<Rightarrow> TrackerPtr option" where
  "element_tracker e = (case e of SurfaceSceneElement _ _ t _ \<Rightarrow> t | OverlaySceneElement _ \<Rightarrow> None)"

lemma element_call_inv:
  assumes "stack_inv T sc" "\<And>t. element_tracker e = Some t \<Longrightarrow> t < next_tracker sc"
  shows "stack_inv T (snd (element_rendered e sc))" "stack_inv T (snd (element_occluded e sc))"
proof -
  consider n r t cid where "e = SurfaceSceneElement n r (Some t) cid" | n r cid where "e = SurfaceSceneElement n r None cid"
    | r where "e = OverlaySceneElement r"
    by (metis SceneElement.exhaust option.exhaust)
  then have "stack_inv T (snd (element_rendered e sc)) \<and> stack_inv T (snd (element_occluded e sc))"
    by cases (use assms in \<open>auto simp: element_tracker_def on_tracker_rendered_inv on_tracker_occluded_inv\<close>)
  then show "stack_inv T (snd (element_rendered e sc))" "stack_inv T (snd (element_occluded e sc))" by blast+
qed

lemma AList_update_fresh: "k \<notin> fst ` set al \<Longrightarrow> AList.update k v al = al @ [(k, v)]"
  by (induction al) auto

lemma stack_inv_fresh:
  assumes "stack_inv T sc" "\<And>t. t < next_tracker sc \<Longrightarrow> tr_surface (tracker_at sc t) \<noteq> p"
  shows "p \<notin> set (surfaces sc)"
proof
  assume "p \<in> set (surfaces sc)"
  from tracker_of_surface [OF assms(1) this] obtain t where
    t: "(p, t) \<in> set (rendering_trackers sc)" "tracker_ok T sc p (tracker_at sc t)" .
  from stack_invD(6) [OF assms(1) t(1)] assms(2) t(2) show False by (simp add: tracker_ok_def)
qed

lemma add_surface_fields:
  assumes p: "p \<notin> set (surfaces sc)" and inv: "stack_inv T sc" and live: "vis (heap sc) p \<noteq> None"
  shows "surfaces (add_surface sc p m) = surfaces sc @ [p]"
    "rendering_trackers (add_surface sc p m) = rendering_trackers sc @ [(p, next_tracker sc)]"
    "next_tracker (add_surface sc p m) = next_tracker sc + 1"
    "registered_compositors (add_surface sc p m) = registered_compositors sc"
    "tracker_at (add_surface sc p m) = (tracker_at sc)(next_tracker sc :=
       \<lparr>tr_surface = p, occlusions = {}, active_compositors_set = registered_compositors sc\<rparr>)"
    "vis (heap (add_surface sc p m)) q =
       (if q = p \<and> registered_compositors sc = {} then Some mir_window_visibility_occluded else vis (heap sc) q)"
proof -
  let ?cids = "registered_compositors sc"
  define h where "h = snd (active_compositors (new_RenderingTracker p) (heap sc) ?cids)"
  have fresh: "p \<notin> fst ` set (rendering_trackers sc)" using p stack_invD(4) [OF inv] by auto
  have ac: "active_compositors (new_RenderingTracker p) (heap sc) ?cids =
          (\<lparr>tr_surface = p, occlusions = {}, active_compositors_set = ?cids\<rparr>, h)"
    by (simp add: h_def active_compositors_eq inactive_removed_def new_RenderingTracker_def)
  have v: "vis h q = (if q = p \<and> ?cids = {} then map_option (\<lambda>_. mir_window_visibility_occluded) (vis (heap sc) q)
                      else vis (heap sc) q)" for q
    by (simp add: h_def vis_active_compositors new_RenderingTracker_def)
  note defs = add_surface_def create_rendering_tracker_for_def ac Let_def scene_notify_def surface_of_def
  show "surfaces (add_surface sc p m) = surfaces sc @ [p]"
    "rendering_trackers (add_surface sc p m) = rendering_trackers sc @ [(p, next_tracker sc)]"
    "next_tracker (add_surface sc p m) = next_tracker sc + 1"
    "registered_compositors (add_surface sc p m) = ?cids"
    "tracker_at (add_surface sc p m) = (tracker_at sc)(next_tracker sc :=
       \<lparr>tr_surface = p, occlusions = {}, active_compositors_set = ?cids\<rparr>)"
    using fresh by (simp_all add: defs AList_update_fresh)
  have "vis (heap (add_surface sc p m)) q =
          (if q = p then Some (sf_visibility (the (live_surfaces h p))) else vis h q)"
    by (simp add: defs vis_def surface_set_reception_mode_def notify_def)
  moreover have "vis h p \<noteq> None" using v [of p] live by simp
  then have "Some (sf_visibility (the (live_surfaces h p))) = vis h p" by (auto simp: vis_def)
  ultimately have "vis (heap (add_surface sc p m)) q = vis h q" by metis
  then show "vis (heap (add_surface sc p m)) q =
       (if q = p \<and> ?cids = {} then Some mir_window_visibility_occluded else vis (heap sc) q)"
    using v [of q] live by auto
qed

lemma add_surface_inv:
  assumes inv: "stack_inv T sc" and live: "vis (heap sc) p \<noteq> None"
    and fresh: "\<And>t. t < next_tracker sc \<Longrightarrow> tr_surface (tracker_at sc t) \<noteq> p"
  shows "stack_inv T (add_surface sc p m)"
proof -
  let ?n = "next_tracker sc"
  have p: "p \<notin> set (surfaces sc)" by (rule stack_inv_fresh [OF inv fresh])
  note sc' = add_surface_fields [OF p inv live, of m]
  have new: "?n \<notin> snd ` set (rendering_trackers sc)" using stack_invD(6) [OF inv] by force
  have pf: "p \<notin> fst ` set (rendering_trackers sc)" using p stack_invD(4) [OF inv] by auto
  show ?thesis
  proof (rule stack_invI)
    fix q t assume "(q, t) \<in> set (rendering_trackers (add_surface sc p m))"
    then consider "(q, t) \<in> set (rendering_trackers sc)" | "q = p" "t = ?n" by (auto simp: sc')
    then show "tracker_ok T (add_surface sc p m) q (tracker_at (add_surface sc p m) t)"
    proof cases
      case 1
      then have "q \<noteq> p" "t \<noteq> ?n" using pf new by force+
      with stack_invD(7) [OF inv 1] show ?thesis by (simp add: tracker_ok_def sc')
    qed (auto simp: tracker_ok_def sc')
  next
    fix q assume "q \<in> set (surfaces (add_surface sc p m))"
    then show "vis (heap (add_surface sc p m)) q \<noteq> None" using stack_invD(5) [OF inv] live by (auto simp: sc')
  next
    fix t assume "t < next_tracker (add_surface sc p m)"
      "tr_surface (tracker_at (add_surface sc p m) t) \<in> set (surfaces (add_surface sc p m))"
    then show "(tr_surface (tracker_at (add_surface sc p m) t), t) \<in> set (rendering_trackers (add_surface sc p m))"
      using stack_invD(8) [OF inv, of t] fresh [of t] by (cases "t = ?n") (auto simp: sc')
  qed (use stack_invD [OF inv] p pf new in \<open>auto simp: sc' less_SucI\<close>)
qed

lemma remove_surface_inv:
  assumes inv: "stack_inv T sc"
  shows "stack_inv T (remove_surface sc p)"
proof (cases "p \<in> set (surfaces sc)")
  case True
  have rt: "rendering_trackers (remove_surface sc p) = filter (\<lambda>e. fst e \<noteq> p) (rendering_trackers sc)"
    "surfaces (remove_surface sc p) = remove1 p (surfaces sc)" "heap (remove_surface sc p) = heap sc"
    "tracker_at (remove_surface sc p) = tracker_at sc" "next_tracker (remove_surface sc p) = next_tracker sc"
    "registered_compositors (remove_surface sc p) = registered_compositors sc"
    using True by (auto simp: remove_surface_def scene_notify_def AList.delete_eq intro: filter_cong)
  have sub: "e \<in> set (rendering_trackers sc)" if "e \<in> set (rendering_trackers (remove_surface sc p))" for e
    using that by (simp add: rt)
  show ?thesis
  proof (rule stack_invI)
    show "set (map fst (rendering_trackers (remove_surface sc p))) = set (surfaces (remove_surface sc p))"
      using stack_invD(1,4) [OF inv] by (auto simp: rt)
  next
    fix q t assume "(q, t) \<in> set (rendering_trackers (remove_surface sc p))"
    from stack_invD(7) [OF inv sub [OF this]]
    show "tracker_ok T (remove_surface sc p) q (tracker_at (remove_surface sc p) t)"
      by (simp add: tracker_ok_def rt)
  next
    fix q assume "q \<in> set (surfaces (remove_surface sc p))"
    then show "vis (heap (remove_surface sc p)) q \<noteq> None"
      using stack_invD(5) [OF inv, of q] by (simp add: rt notin_set_remove1 set_remove1_eq [OF stack_invD(1) [OF inv]])
  next
    fix t assume "t < next_tracker (remove_surface sc p)"
      "tr_surface (tracker_at (remove_surface sc p) t) \<in> set (surfaces (remove_surface sc p))"
    then show "(tr_surface (tracker_at (remove_surface sc p) t), t) \<in> set (rendering_trackers (remove_surface sc p))"
      using stack_invD(8) [OF inv, of t] by (simp add: rt set_remove1_eq [OF stack_invD(1) [OF inv]])
  next
    fix q t assume "(q, t) \<in> set (rendering_trackers (remove_surface sc p))"
    from stack_invD(6) [OF inv sub [OF this]] show "t < next_tracker (remove_surface sc p)" by (simp add: rt)
  qed (use stack_invD(1-3) [OF inv] in \<open>simp_all add: rt distinct_map_filter\<close>)
qed (simp add: remove_surface_def inv)

lemma permute_inv:
  assumes "stack_inv T sc" "mset xs = mset (surfaces sc)"
  shows "stack_inv T (sc\<lparr>surfaces := xs\<rparr>)"
proof -
  have "set xs = set (surfaces sc)" "distinct xs"
    using assms mset_eq_setD mset_eq_imp_distinct_iff [of xs "surfaces sc"] by (auto simp: stack_inv_def)
  then show ?thesis using assms(1) by (simp add: stack_inv_def tracker_ok_def)
qed

lemma stack_inv_frame_simps [simp]:
  "stack_inv T (sc\<lparr>scene_changed := b\<rparr>) = stack_inv T sc"
  "stack_inv T (sc\<lparr>overlays := ovs\<rparr>) = stack_inv T sc"
  "stack_inv T (scene_notify n sc) = stack_inv T sc"
  by (simp_all add: stack_inv_def tracker_ok_def scene_notify_def)

lemma raise_inv: "stack_inv T sc \<Longrightarrow> stack_inv T (snd (raise sc p))"
  by (simp add: raise_def permute_inv)

lemma raise_set_inv: "stack_inv T sc \<Longrightarrow> stack_inv T (raise_set sc ss)"
  by (simp add: raise_set_def permute_inv filter_partition_mset Let_def)

section \<open>Runs of the scene\<close>

text \<open>
  The calls on the scene, in any order.  A surface is added once in its life and is alive then (the
  coordinator makes it and adds it).  Scene elements may be called at any later time, also when
  their surface has left the stack.
\<close>

inductive stack_call :: "Scene \<Rightarrow> Scene \<Rightarrow> bool" where
  add: "\<lbrakk>vis (heap sc) p \<noteq> None; \<forall>t < next_tracker sc. tr_surface (tracker_at sc t) \<noteq> p\<rbrakk>
          \<Longrightarrow> stack_call sc (add_surface sc p m)"
| remove: "stack_call sc (remove_surface sc p)"
| raise: "stack_call sc (snd (raise sc p))"
| raise_set: "stack_call sc (raise_set sc ss)"
| register: "stack_call sc (register_compositor sc cid)"
| unregister: "stack_call sc (unregister_compositor sc cid)"
| elements: "stack_call sc (snd (scene_elements_for sc cid))"
| rendered: "(\<And>t. element_tracker e = Some t \<Longrightarrow> t < next_tracker sc) \<Longrightarrow> stack_call sc (snd (element_rendered e sc))"
| occluded: "(\<And>t. element_tracker e = Some t \<Longrightarrow> t < next_tracker sc) \<Longrightarrow> stack_call sc (snd (element_occluded e sc))"
| add_overlay: "stack_call sc (add_input_visualization sc ov r)"
| remove_overlay: "stack_call sc (snd (remove_input_visualization sc ov))"
| emit: "stack_call sc (emit_scene_changed sc)"

text \<open>
  \<open>others\<close> is everything else that happens to surfaces and streams; the surfaces of the stack, which
  keeps them alive, live on.  It may set the visibility of a surface, as a client can through
  \<open>configure_surface\<close>.
\<close>

inductive scene_step :: "Scene \<Rightarrow> Scene \<Rightarrow> bool" where
  call: "stack_call sc sc' \<Longrightarrow> scene_step sc sc'"
| others: "\<forall>p \<in> set (surfaces sc). (vis h p = None) = (vis (heap sc) p = None) \<Longrightarrow> scene_step sc (sc\<lparr>heap := h\<rparr>)"

inductive scene_reachable :: "Scene \<Rightarrow> bool" where
  start: "scene_reachable (new_SurfaceStack h)"
| step: "\<lbrakk>scene_reachable sc; scene_step sc sc'\<rbrakk> \<Longrightarrow> scene_reachable sc'"

text \<open>
  The same runs, with the surfaces noted whose visibility was set by others while they were on the
  stack.
\<close>

inductive scene_run :: "SurfacePtr set \<Rightarrow> Scene \<Rightarrow> bool" where
  start: "scene_run {} (new_SurfaceStack h)"
| call: "\<lbrakk>scene_run T sc; stack_call sc sc'\<rbrakk> \<Longrightarrow> scene_run T sc'"
| others: "\<lbrakk>scene_run T sc; \<forall>p \<in> set (surfaces sc). (vis h p = None) = (vis (heap sc) p = None)\<rbrakk> \<Longrightarrow>
           scene_run (T \<union> {p \<in> set (surfaces sc). vis h p \<noteq> vis (heap sc) p}) (sc\<lparr>heap := h\<rparr>)"

lemma scene_reachable_run: "scene_reachable sc \<Longrightarrow> \<exists>T. scene_run T sc"
proof (induction rule: scene_reachable.induct)
  case (start h)
  show ?case using scene_run.start by blast
next
  case (step sc sc')
  from step(2,3) show ?case by cases (use scene_run.call scene_run.others in blast)+
qed

lemma scene_run_reachable: "scene_run T sc \<Longrightarrow> scene_reachable sc"
  by (induction rule: scene_run.induct) (blast intro: scene_reachable.intros scene_step.intros)+

lemma scene_reachable_call: "\<lbrakk>scene_reachable sc; stack_call sc sc'\<rbrakk> \<Longrightarrow> scene_reachable sc'"
  by (rule scene_reachable.step [OF _ scene_step.call])

lemma stack_call_inv: "stack_call sc sc' \<Longrightarrow> stack_inv T sc \<Longrightarrow> stack_inv T sc'"
  by (induction rule: stack_call.induct)
     (auto simp: add_surface_inv remove_surface_inv raise_inv raise_set_inv register_compositor_inv
      unregister_compositor_inv element_call_inv scene_elements_for_def add_input_visualization_def
      remove_input_visualization_def emit_scene_changed_def)

lemma scene_run_inv: "scene_run T sc \<Longrightarrow> stack_inv T sc"
proof (induction rule: scene_run.induct)
  case (others T sc h)
  then show ?case by (intro stack_inv_frame [OF others(3)]) auto
qed (auto simp: stack_inv_new stack_call_inv)

lemma stack_inv_mono: "\<lbrakk>stack_inv T sc; T \<subseteq> T'\<rbrakk> \<Longrightarrow> stack_inv T' sc"
  by (rule stack_inv_frame) auto

lemma scene_reachable_inv: "scene_reachable sc \<Longrightarrow> stack_inv UNIV sc"
  using scene_reachable_run scene_run_inv stack_inv_mono by (metis subset_UNIV)


section \<open>Order and lookup\<close>

text \<open>
  Raising a surface of the stack puts it on top and keeps the order of the others; raising one
  that is not on it throws and changes nothing.
\<close>

theorem raise_correct:
  "if p \<in> set (surfaces sc)
   then fst (raise sc p) = Inr () \<and> last (surfaces (snd (raise sc p))) = p \<and>
        butlast (surfaces (snd (raise sc p))) = remove1 p (surfaces sc) \<and>
        mset (surfaces (snd (raise sc p))) = mset (surfaces sc)
   else raise sc p = (Inl (runtime_error ''Invalid surface''), sc)"
  by (simp add: raise_def scene_notify_def)

text \<open>
  Raising a set of surfaces is a stable partition: the set comes on top, both groups keep their
  own order, nothing is lost, and the observers hear of it exactly when the order changed.
\<close>

theorem raise_set_correct:
  "\<exists>below above. surfaces (raise_set sc ss) = below @ above \<and>
      set above \<subseteq> ss \<and> set below \<inter> ss = {} \<and>
      filter (\<lambda>p. p \<in> ss) (surfaces sc) = above \<and> filter (\<lambda>p. p \<notin> ss) (surfaces sc) = below \<and>
      mset (surfaces (raise_set sc ss)) = mset (surfaces sc) \<and>
      scene_notifications (raise_set sc ss) =
        scene_notifications sc @ (if surfaces (raise_set sc ss) = surfaces sc then [] else [Surfaces_reordered])"
  by (rule exI [of _ "filter (\<lambda>p. p \<notin> ss) (surfaces sc)"], rule exI [of _ "filter (\<lambda>p. p \<in> ss) (surfaces sc)"])
     (auto simp: raise_set_def scene_notify_def Let_def filter_partition_mset simp del: mset_filter mset_append)

lemma surface_at_loop_Some:
  "surface_at_loop sc c ps = Some p \<longleftrightarrow>
     (\<exists>xs ys. ps = xs @ p # ys \<and> input_area_contains (surface_of sc p) (streams (heap sc)) c \<and>
        (\<forall>q \<in> set xs. \<not> input_area_contains (surface_of sc q) (streams (heap sc)) c))"
proof (induction ps)
  case (Cons q ps)
  show ?case
  proof (cases "input_area_contains (surface_of sc q) (streams (heap sc)) c")
    case True
    then show ?thesis by (auto simp: Cons_eq_append_conv)
  next
    case False
    then have "surface_at_loop sc c (q # ps) = Some p \<longleftrightarrow>
       (\<exists>xs ys. ps = xs @ p # ys \<and> input_area_contains (surface_of sc p) (streams (heap sc)) c \<and>
        (\<forall>q \<in> set xs. \<not> input_area_contains (surface_of sc q) (streams (heap sc)) c))"
      using Cons.IH by simp
    also have "\<dots> \<longleftrightarrow> (\<exists>xs ys. q # ps = xs @ p # ys \<and> input_area_contains (surface_of sc p) (streams (heap sc)) c \<and>
        (\<forall>q \<in> set xs. \<not> input_area_contains (surface_of sc q) (streams (heap sc)) c))"
      using False by (auto simp: Cons_eq_append_conv) (metis list.set_intros(1) set_ConsD)
    finally show ?thesis .
  qed
qed simp

lemma surface_at_loop_None:
  "surface_at_loop sc c ps = None \<longleftrightarrow>
     (\<forall>q \<in> set ps. \<not> input_area_contains (surface_of sc q) (streams (heap sc)) c)"
  by (induction ps) auto

text \<open>
  \<open>surface_at\<close> finds the topmost surface that takes input at the cursor, and no surface only
  when none does.
\<close>

theorem surface_at_topmost:
  "case surface_at sc c of
     None \<Rightarrow> (\<nexists>p. p \<in> set (surfaces sc) \<and> input_area_contains (surface_of sc p) (streams (heap sc)) c)
   | Some p \<Rightarrow> (\<exists>below above. surfaces sc = below @ p # above \<and>
                  input_area_contains (surface_of sc p) (streams (heap sc)) c \<and>
                  (\<nexists>q. q \<in> set above \<and> input_area_contains (surface_of sc q) (streams (heap sc)) c))"
proof (cases "surface_at sc c")
  case None
  then have "\<forall>q \<in> set (surfaces sc). \<not> input_area_contains (surface_of sc q) (streams (heap sc)) c"
    by (simp add: surface_at_def surface_at_loop_None)
  with None show ?thesis by auto
next
  case (Some p)
  then obtain xs ys where "rev (surfaces sc) = xs @ p # ys"
    and hit: "input_area_contains (surface_of sc p) (streams (heap sc)) c"
      "\<forall>q \<in> set xs. \<not> input_area_contains (surface_of sc q) (streams (heap sc)) c"
    by (auto simp: surface_at_def surface_at_loop_Some)
  then have "surfaces sc = rev ys @ p # rev xs" by (simp add: rev_swap)
  with hit have "\<exists>below above. surfaces sc = below @ p # above \<and>
      input_area_contains (surface_of sc p) (streams (heap sc)) c \<and>
      (\<nexists>q. q \<in> set above \<and> input_area_contains (surface_of sc q) (streams (heap sc)) c)"
    by (intro exI [of _ "rev ys"] exI [of _ "rev xs"]) simp
  with Some show ?thesis by simp
qed

section \<open>Pending frames\<close>

lemma surface_buffers_ready_01: "surface_buffers_ready s st cid \<in> {0, 1}"
proof -
  have "fold (\<lambda>info m. max m (buffers_ready_for_compositor (st (si_stream info)) cid)) ls b \<in> {0, 1}"
    if "b \<in> {0, 1}" for ls :: "StreamInfo list" and b :: int
    using that by (induction ls arbitrary: b) (auto simp: buffers_ready_for_compositor_def max_def)
  then show ?thesis by (simp add: surface_buffers_ready_def)
qed

text \<open>A surface that compositor \<open>cid\<close> would show a new frame of.\<close>

definition has_frame_for :: "Scene \<Rightarrow> CompositorID \<Rightarrow> SurfacePtr \<Rightarrow> bool" where
  "has_frame_for sc cid p \<longleftrightarrow>
     visible_in sc p \<and> (\<exists>t. map_of (rendering_trackers sc) p = Some t \<and> cid \<notin> occlusions (tracker_at sc t)) \<and>
     surface_buffers_ready (surface_of sc p) (streams (heap sc)) cid = 1"

lemma is_exposed_in_active:
  "cid \<in> active_compositors_set t \<Longrightarrow> is_exposed_in t cid = Inr (cid \<notin> occlusions t)"
  by (simp add: is_exposed_in_def ensure_is_active_compositor_def)

lemma frames_pending_loop_registered:
  assumes "\<And>p t. map_of (rendering_trackers sc) p = Some t \<Longrightarrow> cid \<in> active_compositors_set (tracker_at sc t)"
    and "result \<in> {0, 1}"
  shows "frames_pending_loop sc cid ps result =
           Inr (if result = 1 \<or> (\<exists>p \<in> set ps. has_frame_for sc cid p) then 1 else 0)"
  using assms(2)
proof (induction ps arbitrary: result)
  case (Cons p ps)
  let ?ready = "surface_buffers_ready (surface_of sc p) (streams (heap sc)) cid"
  have ready: "?ready = 0 \<or> ?ready = 1" using surface_buffers_ready_01 by auto
  show ?case
  proof (cases "map_of (rendering_trackers sc) p")
    case (Some t)
    note exposed = is_exposed_in_active [OF assms(1) [OF Some]]
    show ?thesis using Cons ready by (auto simp: Some exposed has_frame_for_def Let_def)
  qed (use Cons in \<open>auto simp: has_frame_for_def\<close>)
qed auto

text \<open>
  In every run of the scene, asking for the frames pending on a registered compositor does not
  throw: the answer is 1 if the scene itself changed or a visible surface, not occluded on that
  compositor, has a buffer the compositor has not shown, and 0 otherwise.
\<close>

theorem frames_pending_registered:
  assumes "scene_reachable sc" "cid \<in> registered_compositors sc"
  shows "frames_pending sc cid =
           Inr (if scene_changed sc \<or> (\<exists>p. p \<in> set (surfaces sc) \<and> has_frame_for sc cid p) then 1 else 0)"
proof -
  have inv: "stack_inv UNIV sc" by (rule scene_reachable_inv [OF assms(1)])
  have "cid \<in> active_compositors_set (tracker_at sc t)" if "map_of (rendering_trackers sc) p = Some t" for p t
    using stack_invD(7) [OF inv map_of_SomeD [OF that]] assms(2) by (simp add: tracker_ok_def)
  from frames_pending_loop_registered [OF this] show ?thesis by (auto simp: frames_pending_def)
qed

lemma frames_pending_loop_unregistered:
  assumes "\<And>p. p \<in> set ps \<Longrightarrow> \<exists>t. map_of (rendering_trackers sc) p = Some t \<and>
                                 cid \<notin> active_compositors_set (tracker_at sc t)"
  shows "frames_pending_loop sc cid ps result =
           (if \<exists>p \<in> set ps. visible_in sc p then Inl (logic_error ''No active compositor with supplied id'')
            else Inr result)"
  using assms
proof (induction ps)
  case (Cons p ps)
  obtain t where "map_of (rendering_trackers sc) p = Some t" "cid \<notin> active_compositors_set (tracker_at sc t)"
    using Cons.prems by auto
  then show ?case using Cons by (auto simp: is_exposed_in_def ensure_is_active_compositor_def)
qed simp

text \<open>
  For a compositor that is not registered, \<open>frames_pending\<close> throws as soon as one surface of the
  stack is visible.
\<close>

theorem frames_pending_unregistered:
  assumes "scene_reachable sc" "cid \<notin> registered_compositors sc"
  shows "frames_pending sc cid =
           (if \<exists>p. p \<in> set (surfaces sc) \<and> visible_in sc p
            then Inl (logic_error ''No active compositor with supplied id'')
            else Inr (if scene_changed sc then 1 else 0))"
proof -
  have inv: "stack_inv UNIV sc" by (rule scene_reachable_inv [OF assms(1)])
  have "\<exists>t. map_of (rendering_trackers sc) p = Some t \<and> cid \<notin> active_compositors_set (tracker_at sc t)"
    if "p \<in> set (surfaces sc)" for p
    using tracker_of_surface [OF inv that] assms(2) by (metis tracker_ok_def)
  from frames_pending_loop_unregistered [OF this] show ?thesis by (auto simp: frames_pending_def)
qed

section \<open>One frame of one compositor\<close>

text \<open>
  The compositor's calls that reach the scene: \<open>occluded\<close> on the culled elements, then \<open>rendered\<close> on
  the others (\<^const>\<open>composite\<close>).  A throwing call ends the frame.
\<close>

fun perform :: "SceneElement frame_action list \<Rightarrow> Scene \<Rightarrow> (Scene, unit) outcome" where
  "perform [] sc = (Inr (), sc)"
| "perform (Element_occluded e # as) sc =
     (case element_occluded e sc of (Inl x, sc') \<Rightarrow> (Inl x, sc') | (Inr _, sc') \<Rightarrow> perform as sc')"
| "perform (Element_rendered e # as) sc =
     (case element_rendered e sc of (Inl x, sc') \<Rightarrow> (Inl x, sc') | (Inr _, sc') \<Rightarrow> perform as sc')"
| "perform (_ # as) sc = perform as sc"

definition composite_frame ::
    "Scene \<Rightarrow> CompositorID \<Rightarrow> Rectangle \<Rightarrow> (Renderable list \<Rightarrow> bool) \<Rightarrow> (Scene, unit) outcome" where
  "composite_frame sc cid view_area overlay =
     (let (elements, sc') = scene_elements_for sc cid
      in perform (composite element_renderable view_area overlay elements) sc')"

text \<open>An element whose tracker is one of the stack's and whose compositor is registered.\<close>

definition element_ok :: "Scene \<Rightarrow> CompositorID \<Rightarrow> SceneElement \<Rightarrow> bool" where
  "element_ok sc cid e \<longleftrightarrow>
     cid \<in> registered_compositors sc \<and>
     (case e of
        SurfaceSceneElement _ _ t c \<Rightarrow>
          c = cid \<and> (\<exists>p u. t = Some u \<and> (p, u) \<in> set (rendering_trackers sc))
      | OverlaySceneElement _ \<Rightarrow> True)"

text \<open>The parts of the scene that \<open>rendered\<close> and \<open>occluded\<close> do not touch.\<close>

definition same_stack :: "Scene \<Rightarrow> Scene \<Rightarrow> bool" where
  "same_stack sc sc' \<longleftrightarrow>
     surfaces sc' = surfaces sc \<and> rendering_trackers sc' = rendering_trackers sc \<and>
     registered_compositors sc' = registered_compositors sc \<and> next_tracker sc' = next_tracker sc"

lemma same_stack_refl: "same_stack sc sc" by (simp add: same_stack_def)

lemma same_stack_trans: "same_stack a b \<Longrightarrow> same_stack b c \<Longrightarrow> same_stack a c"
  by (simp add: same_stack_def)

lemma element_ok_same_stack: "same_stack sc sc' \<Longrightarrow> element_ok sc' cid e = element_ok sc cid e"
  by (simp add: same_stack_def element_ok_def cong: SceneElement.case_cong)

lemma element_ok_cases:
  assumes "element_ok sc cid e" "stack_inv T sc"
  obtains (surface) n r t where "e = SurfaceSceneElement n r (Some t) cid" "element_tracker e = Some t"
      "t < next_tracker sc" "cid \<in> active_compositors_set (tracker_at sc t)"
      "active_compositors_set (tracker_at sc t) = registered_compositors sc"
  | (overlay) r where "e = OverlaySceneElement r" "element_tracker e = None"
proof (cases e)
  case (SurfaceSceneElement n r topt c)
  then obtain p t where t: "c = cid" "topt = Some t" "(p, t) \<in> set (rendering_trackers sc)" "cid \<in> registered_compositors sc"
    using assms(1) by (auto simp: element_ok_def)
  with stack_invD(6,7) [OF assms(2) t(3)] surface SurfaceSceneElement show ?thesis
    by (simp add: tracker_ok_def element_tracker_def)
qed (use overlay in \<open>simp add: element_tracker_def\<close>)

fun run_calls :: "(SceneElement \<Rightarrow> Scene \<Rightarrow> (Scene, unit) outcome) \<Rightarrow> SceneElement list \<Rightarrow> Scene \<Rightarrow> (Scene, unit) outcome" where
  "run_calls call [] sc = (Inr (), sc)"
| "run_calls call (e # es) sc =
     (case call e sc of (Inl x, sc') \<Rightarrow> (Inl x, sc') | (Inr _, sc') \<Rightarrow> run_calls call es sc')"

lemma perform_calls:
  "run_calls element_occluded es sc = (Inr (), sc') \<Longrightarrow> perform (map Element_occluded es @ as) sc = perform as sc'"
  "run_calls element_rendered es sc = (Inr (), sc') \<Longrightarrow> perform (map Element_rendered es @ as) sc = perform as sc'"
  by (induction es arbitrary: sc) (auto split: prod.splits sum.splits)

text \<open>
  The contract shared by \<open>rendered\<close> and \<open>occluded\<close>: on an element of a registered compositor the call
  does not throw, stays within the runs of the scene, and changes only the occlusions of the
  element's tracker, by \<open>upd\<close>; \<open>goal\<close> holds of that tracker afterwards and no later call breaks it.
\<close>

locale element_call =
  fixes call :: "SceneElement \<Rightarrow> Scene \<Rightarrow> (Scene, unit) outcome"
    and upd :: "CompositorID \<Rightarrow> CompositorID set \<Rightarrow> CompositorID set"
    and goal :: "Scene \<Rightarrow> TrackerPtr \<Rightarrow> bool"
  assumes upd_idem: "upd c (upd c S) = upd c S"
    and call_ok: "\<lbrakk>scene_reachable sc; element_ok sc cid e\<rbrakk> \<Longrightarrow>
      \<exists>sc'. call e sc = (Inr (), sc') \<and> scene_reachable sc' \<and> same_stack sc sc' \<and>
        (\<forall>t. occlusions (tracker_at sc' t) =
          (if element_tracker e = Some t then upd cid (occlusions (tracker_at sc t)) else occlusions (tracker_at sc t))) \<and>
        (\<forall>t. element_tracker e = Some t \<or> goal sc t \<longrightarrow> goal sc' t)"
begin

lemma run_calls_ok:
  assumes "scene_reachable sc" "\<And>e. e \<in> set es \<Longrightarrow> element_ok sc cid e"
  shows "\<exists>sc'. run_calls call es sc = (Inr (), sc') \<and> scene_reachable sc' \<and> same_stack sc sc' \<and>
    (\<forall>t. occlusions (tracker_at sc' t) =
      (if Some t \<in> element_tracker ` set es then upd cid (occlusions (tracker_at sc t)) else occlusions (tracker_at sc t))) \<and>
    (\<forall>t. Some t \<in> element_tracker ` set es \<or> goal sc t \<longrightarrow> goal sc' t)"
  using assms
proof (induction es arbitrary: sc)
  case Nil
  then show ?case by (simp add: same_stack_refl)
next
  case (Cons e es)
  have "element_ok sc cid e" using Cons.prems by simp
  from call_ok [OF Cons.prems(1) this] obtain sc1 where
    c: "call e sc = (Inr (), sc1)" "scene_reachable sc1" "same_stack sc sc1"
    and o1: "\<And>t. occlusions (tracker_at sc1 t) =
          (if element_tracker e = Some t then upd cid (occlusions (tracker_at sc t)) else occlusions (tracker_at sc t))"
    and g1: "\<And>t. element_tracker e = Some t \<or> goal sc t \<Longrightarrow> goal sc1 t"
    by auto
  have "element_ok sc1 cid e'" if "e' \<in> set es" for e'
    using Cons.prems(2) that element_ok_same_stack [OF c(3)] by simp
  from Cons.IH [OF c(2) this] obtain sc2 where
    r: "run_calls call es sc1 = (Inr (), sc2)" "scene_reachable sc2" "same_stack sc1 sc2"
    and o2: "\<And>t. occlusions (tracker_at sc2 t) =
      (if Some t \<in> element_tracker ` set es then upd cid (occlusions (tracker_at sc1 t)) else occlusions (tracker_at sc1 t))"
    and g2: "\<And>t. Some t \<in> element_tracker ` set es \<or> goal sc1 t \<Longrightarrow> goal sc2 t"
    by blast
  have "occlusions (tracker_at sc2 t) = (if Some t \<in> element_tracker ` set (e # es)
          then upd cid (occlusions (tracker_at sc t)) else occlusions (tracker_at sc t))" for t
    using o1 [of t] o2 [of t] by (auto simp: upd_idem)
  moreover have "goal sc2 t" if "Some t \<in> element_tracker ` set (e # es) \<or> goal sc t" for t
    using that g1 [of t] g2 [of t] by auto
  ultimately show ?case using c r same_stack_trans by auto
qed

end

definition shown :: "Scene \<Rightarrow> TrackerPtr \<Rightarrow> bool" where
  "shown sc t \<longleftrightarrow>
     vis (heap sc) (tr_surface (tracker_at sc t)) \<in> {None, Some mir_window_visibility_exposed}"

lemma element_rendered_reachable:
  "\<lbrakk>scene_reachable sc; element_ok sc cid e\<rbrakk> \<Longrightarrow> scene_reachable (snd (element_rendered e sc))"
  by (rule scene_reachable_call, assumption, rule stack_call.rendered)
     (metis element_ok_cases option.inject option.distinct(1) scene_reachable_inv)

lemma element_occluded_reachable:
  "\<lbrakk>scene_reachable sc; element_ok sc cid e\<rbrakk> \<Longrightarrow> scene_reachable (snd (element_occluded e sc))"
  by (rule scene_reachable_call, assumption, rule stack_call.occluded)
     (metis element_ok_cases option.inject option.distinct(1) scene_reachable_inv)

interpretation rendered_call: element_call element_rendered "\<lambda>c S. S - {c}" shown
proof
  fix sc cid e assume r: "scene_reachable sc" and ok: "element_ok sc cid e"
  from ok scene_reachable_inv [OF r]
  show "\<exists>sc'. element_rendered e sc = (Inr (), sc') \<and> scene_reachable sc' \<and> same_stack sc sc' \<and>
        (\<forall>t. occlusions (tracker_at sc' t) = (if element_tracker e = Some t
           then occlusions (tracker_at sc t) - {cid} else occlusions (tracker_at sc t))) \<and>
        (\<forall>t. element_tracker e = Some t \<or> shown sc t \<longrightarrow> shown sc' t)"
  proof (cases rule: element_ok_cases)
    case (surface n rn t)
    let ?tr = "(tracker_at sc t)\<lparr>occlusions := occlusions (tracker_at sc t) - {cid}\<rparr>"
    let ?h = "configure_visibility ?tr (heap sc) mir_window_visibility_exposed"
    let ?sc = "sc\<lparr>tracker_at := (tracker_at sc)(t := ?tr), heap := ?h\<rparr>"
    have e: "element_rendered e sc = (Inr (), ?sc)"
      using surface by (simp add: on_tracker_def rendered_in_ok)
    have v: "vis ?h p = (if p = tr_surface (tracker_at sc t)
        then map_option (\<lambda>_. mir_window_visibility_exposed) (vis (heap sc) p) else vis (heap sc) p)" for p
      by (simp add: vis_configure_visibility)
    have "shown ?sc u" if "element_tracker e = Some u \<or> shown sc u" for u
      using that surface(2) by (auto simp: shown_def v)
    moreover have "scene_reachable ?sc" using element_rendered_reachable [OF r ok] by (simp add: e)
    ultimately show ?thesis using e surface(2) by (simp add: same_stack_def)
  qed (use r in \<open>simp add: same_stack_refl\<close>)
qed simp

interpretation occluded_call: element_call element_occluded insert "\<lambda>sc t. True"
proof
  fix sc cid e assume r: "scene_reachable sc" and ok: "element_ok sc cid e"
  from ok scene_reachable_inv [OF r]
  show "\<exists>sc'. element_occluded e sc = (Inr (), sc') \<and> scene_reachable sc' \<and> same_stack sc sc' \<and>
        (\<forall>t. occlusions (tracker_at sc' t) = (if element_tracker e = Some t
           then insert cid (occlusions (tracker_at sc t)) else occlusions (tracker_at sc t))) \<and>
        (\<forall>t. element_tracker e = Some t \<or> True \<longrightarrow> True)"
  proof (cases rule: element_ok_cases)
    case (surface n rn t)
    obtain sc' where e: "element_occluded e sc = (Inr (), sc')" and "same_stack sc sc'"
      "tracker_at sc' = (tracker_at sc)(t := (tracker_at sc t)\<lparr>occlusions := insert cid (occlusions (tracker_at sc t))\<rparr>)"
      using surface by (simp add: on_tracker_def occluded_in_ok same_stack_def)
    moreover have "scene_reachable sc'" using element_occluded_reachable [OF r ok] by (simp add: e)
    ultimately show ?thesis using surface(2) by simp
  qed (use r in \<open>simp add: same_stack_refl\<close>)
qed simp

lemma elements_ok:
  assumes inv: "stack_inv T sc" and cid: "cid \<in> registered_compositors sc"
    and e: "e \<in> set (fst (scene_elements_for sc cid))"
  shows "element_ok sc cid e"
proof -
  from e consider p where "p \<in> set (surfaces sc)" "e \<in> set (elements_of sc cid p)"
    | r where "e = OverlaySceneElement r" by (auto simp: scene_elements_for_def)
  then show ?thesis
  proof cases
    case 1
    from tracker_of_surface [OF inv 1(1)] obtain t where
      "map_of (rendering_trackers sc) p = Some t" "(p, t) \<in> set (rendering_trackers sc)" .
    with 1(2) cid show ?thesis by (auto simp: elements_of_def element_ok_def split: if_splits)
  qed (simp add: element_ok_def cid)
qed

lemma visible_has_element:
  assumes inv: "stack_inv T sc" and t: "map_of (rendering_trackers sc) p = Some t"
  shows "visible_in sc p \<longleftrightarrow> Some t \<in> element_tracker ` set (fst (scene_elements_for sc cid))"
proof
  have p: "p \<in> set (surfaces sc)" using map_of_SomeD [OF t] stack_invD(4) [OF inv] by force
  assume v: "visible_in sc p"
  then have "generate_renderables (surface_of sc p) (streams (heap sc)) \<noteq> []"
    by (auto simp: visible_in_def surface_visible_iff generate_renderables_def filter_empty_conv)
  then obtain r where r: "r \<in> set (generate_renderables (surface_of sc p) (streams (heap sc)))"
    using list.set_sel(1) by blast
  let ?e = "SurfaceSceneElement (sf_name (surface_of sc p)) r (Some t) cid"
  have "?e \<in> set (elements_of sc cid p)" using v t r by (simp add: elements_of_def)
  then have "?e \<in> set (fst (scene_elements_for sc cid))" using p by (auto simp: scene_elements_for_def)
  then show "Some t \<in> element_tracker ` set (fst (scene_elements_for sc cid))"
    by (intro image_eqI [of _ _ ?e]) (simp add: element_tracker_def)
next
  assume "Some t \<in> element_tracker ` set (fst (scene_elements_for sc cid))"
  then obtain q r where q: "visible_in sc q" "map_of (rendering_trackers sc) q = Some t"
    by (auto simp: scene_elements_for_def element_tracker_def elements_of_def split: if_splits)
  have "q = p" using map_of_SomeD [OF q(2)] map_of_SomeD [OF t] stack_invD(7) [OF inv]
    by (metis tracker_ok_def)
  with q show "visible_in sc p" by simp
qed

lemma filter_occlusions_set:
  assumes "filter_occlusions_from f es area = (kept, occ)"
  shows "set kept \<union> set occ = set es"
proof -
  have "mset kept + mset occ = mset es"
    using assms kept_occluded_mset [of f area "[]" "rev es"] by (auto simp: filter_occlusions_eq)
  then show ?thesis by (metis set_mset_mset set_mset_union)
qed

lemma composite_frame_calls:
  assumes reach: "scene_reachable sc" and cid: "cid \<in> registered_compositors sc"
    and f: "filter_occlusions_from element_renderable (fst (scene_elements_for sc cid)) area = (kept, occ)"
  obtains sc' where "composite_frame sc cid area overlay = (Inr (), sc')" "scene_reachable sc'" "same_stack sc sc'"
    "\<And>t. occlusions (tracker_at sc' t) =
       (if Some t \<in> element_tracker ` set kept then occlusions (tracker_at sc t) - {cid}
        else if Some t \<in> element_tracker ` set occ then insert cid (occlusions (tracker_at sc t))
        else occlusions (tracker_at sc t))"
    "\<And>t. Some t \<in> element_tracker ` set kept \<Longrightarrow> shown sc' t"
proof -
  define sc0 where "sc0 = snd (scene_elements_for sc cid)"
  note part = filter_occlusions_set [OF f]
  have r0: "scene_reachable sc0" unfolding sc0_def by (rule scene_reachable_call [OF reach stack_call.elements])
  have s0: "same_stack sc sc0" "tracker_at sc0 = tracker_at sc"
    by (simp_all add: sc0_def scene_elements_for_def same_stack_def)
  have ok: "element_ok sc0 cid e" if "e \<in> set kept \<union> set occ" for e
    using elements_ok [OF scene_reachable_inv [OF reach] cid] that part element_ok_same_stack [OF s0(1)] by simp
  obtain sc1 where c1: "run_calls element_occluded occ sc0 = (Inr (), sc1)" "scene_reachable sc1" "same_stack sc0 sc1"
    and o1: "\<And>t. occlusions (tracker_at sc1 t) = (if Some t \<in> element_tracker ` set occ
               then insert cid (occlusions (tracker_at sc0 t)) else occlusions (tracker_at sc0 t))"
    using occluded_call.run_calls_ok [OF r0, of occ cid] ok by auto
  have "element_ok sc1 cid e" if "e \<in> set kept" for e
    using ok that element_ok_same_stack [OF c1(3)] by auto
  from rendered_call.run_calls_ok [OF c1(2) this] obtain sc2 where
    c2: "run_calls element_rendered kept sc1 = (Inr (), sc2)" "scene_reachable sc2" "same_stack sc1 sc2"
    and o2: "\<And>t. occlusions (tracker_at sc2 t) = (if Some t \<in> element_tracker ` set kept
               then occlusions (tracker_at sc1 t) - {cid} else occlusions (tracker_at sc1 t))"
    and shown: "\<And>t. Some t \<in> element_tracker ` set kept \<Longrightarrow> shown sc2 t"
    by blast
  have "composite_frame sc cid area overlay =
          perform (composite element_renderable area overlay (fst (scene_elements_for sc cid))) sc0"
    by (simp add: composite_frame_def sc0_def split: prod.split)
  also have "\<dots> = (Inr (), sc2)"
    by (simp add: composite_def Let_def f perform_calls(1) [OF c1(1)] perform_calls(2) [OF c2(1)])
  finally have "composite_frame sc cid area overlay = (Inr (), sc2)" .
  moreover have "same_stack sc sc2" using same_stack_trans s0(1) c1(3) c2(3) by blast
  ultimately show ?thesis using that [of sc2] c2(2) o1 o2 s0(2) shown by auto
qed

lemma shown_query:
  assumes inv: "stack_inv T sc" and t: "map_of (rendering_trackers sc) p = Some t" and "shown sc t"
  shows "query (surface_of sc p) mir_window_attrib_visibility = Inr mir_window_visibility_exposed"
proof -
  have "p \<in> set (map fst (rendering_trackers sc))" using map_of_SomeD [OF t] by force
  then have "vis (heap sc) p \<noteq> None" using stack_invD(4,5) [OF inv] by simp
  with assms(3) stack_invD(7) [OF inv map_of_SomeD [OF t]]
  have "vis (heap sc) p = Some mir_window_visibility_exposed" by (auto simp: shown_def tracker_ok_def)
  then show ?thesis by (auto simp: vis_def surface_of_def query_def)
qed

text \<open>
  C16: in every run of the scene, a frame of a registered compositor never throws and afterwards every
  surface is right about that compositor.  A surface of which something was kept after occlusion
  culling is exposed and not occluded there.  A visible surface of which everything was culled is
  occluded there.  An invisible surface keeps what it had.
\<close>

theorem composite_frame_visibility:
  assumes reach: "scene_reachable sc" and cid: "cid \<in> registered_compositors sc"
    and kept: "kept = fst (filter_occlusions_from element_renderable (fst (scene_elements_for sc cid)) area)"
  shows "\<exists>sc'. composite_frame sc cid area overlay = (Inr (), sc') \<and> scene_reachable sc' \<and>
           surfaces sc' = surfaces sc \<and>
           (\<forall>p t. map_of (rendering_trackers sc) p = Some t \<longrightarrow>
              (if Some t \<in> element_tracker ` set kept
               then cid \<notin> occlusions (tracker_at sc' t) \<and>
                    query (surface_of sc' p) mir_window_attrib_visibility = Inr mir_window_visibility_exposed
               else if visible_in sc p then cid \<in> occlusions (tracker_at sc' t)
               else occlusions (tracker_at sc' t) = occlusions (tracker_at sc t)))"
proof -
  have inv: "stack_inv UNIV sc" by (rule scene_reachable_inv [OF reach])
  obtain occ where f: "filter_occlusions_from element_renderable (fst (scene_elements_for sc cid)) area = (kept, occ)"
    using kept by (metis prod.collapse)
  obtain sc' where frame: "composite_frame sc cid area overlay = (Inr (), sc')" and r: "scene_reachable sc'"
    and same: "same_stack sc sc'"
    and occl: "\<And>t. occlusions (tracker_at sc' t) =
       (if Some t \<in> element_tracker ` set kept then occlusions (tracker_at sc t) - {cid}
        else if Some t \<in> element_tracker ` set occ then insert cid (occlusions (tracker_at sc t))
        else occlusions (tracker_at sc t))"
    and shown: "\<And>t. Some t \<in> element_tracker ` set kept \<Longrightarrow> shown sc' t"
    using composite_frame_calls [OF reach cid f] by metis
  have "visible_in sc p \<longleftrightarrow> Some t \<in> element_tracker ` set kept \<union> element_tracker ` set occ"
    if "map_of (rendering_trackers sc) p = Some t" for p t
    using visible_has_element [OF inv that, of cid] filter_occlusions_set [OF f] by (metis image_Un)
  moreover have "query (surface_of sc' p) mir_window_attrib_visibility = Inr mir_window_visibility_exposed"
    if "map_of (rendering_trackers sc) p = Some t" "Some t \<in> element_tracker ` set kept" for p t
    using shown_query [OF scene_reachable_inv [OF r]] shown that same by (simp add: same_stack_def)
  ultimately show ?thesis using frame r same occl by (intro exI [of _ sc']) (auto simp: same_stack_def)
qed

section \<open>A concrete scene\<close>

definition sample_heap :: SurfaceHeap where
  "sample_heap = \<lparr>live_surfaces = [5 \<mapsto> sample_surface], streams = (\<lambda>_. sample_stream)\<rparr>"

definition sample_scene :: Scene where
  "sample_scene = register_compositor (add_surface (new_SurfaceStack sample_heap) 5 reception_normal) 3"

lemma sample_scene_run: "scene_run {} sample_scene"
proof -
  have "stack_call (new_SurfaceStack sample_heap) (add_surface (new_SurfaceStack sample_heap) 5 reception_normal)"
    by (rule stack_call.add) (simp_all add: new_SurfaceStack_def sample_heap_def vis_def)
  from scene_run.call [OF scene_run.call [OF scene_run.start this] stack_call.register] show ?thesis
    unfolding sample_scene_def .
qed

lemma sample_scene_reachable: "scene_reachable sample_scene"
  by (rule scene_run_reachable [OF sample_scene_run])

lemma sample_scene_eval:
  "surfaces sample_scene = [5]" "rendering_trackers sample_scene = [(5, 0)]"
  "registered_compositors sample_scene = {3}" "\<not> scene_changed sample_scene"
  "occlusions (tracker_at sample_scene 0) = {}"
  "sf_hidden (surface_of sample_scene 5) = False" "streams (heap sample_scene) = (\<lambda>_. sample_stream)"
  "top_left (sf_rect (surface_of sample_scene 5)) = mk_point 10 20"
  "sf_transformation (surface_of sample_scene 5) = identity"
  "overlays sample_scene = []"
  "sf_layers (surface_of sample_scene 5) = [\<lparr>si_stream = 1, si_displacement = mk_disp 0 0, si_size = None\<rparr>]"
  by (simp_all add: sample_scene_def register_compositor_def update_rendering_tracker_compositors_def
      add_surface_def create_rendering_tracker_for_def new_SurfaceStack_def scene_notify_def Let_def
      active_compositors_eq new_RenderingTracker_def inactive_removed_def surface_of_def sample_heap_def
      configure_visibility_def configure_def set_visibility_def notify_def surface_set_reception_mode_def
      sample_surface_def new_BasicSurface_def default_stream_def)

lemma sample_scene_visible: "visible_in sample_scene 5"
  by (simp add: visible_in_def surface_visible_iff sample_scene_eval has_submitted_buffer_def sample_stream_eval)

lemma sample_ready: "buffers_ready_for_compositor sample_stream 3 = 1"
  by (simp add: buffers_ready_for_compositor_def buffer_ready_for_def sample_stream_eval queueing_num_scheduled_def)


theorem frames_pending_registered_witness: "frames_pending sample_scene 3 = Inr 1"
proof -
  have "has_frame_for sample_scene 3 5"
    by (simp add: has_frame_for_def sample_scene_visible surface_buffers_ready_def sample_scene_eval sample_ready)
  then show ?thesis
    using frames_pending_registered [OF sample_scene_reachable, of 3] by (simp add: sample_scene_eval)
qed

theorem frames_pending_unregistered_witness:
  "frames_pending sample_scene 8 = Inl (logic_error ''No active compositor with supplied id'')"
  using frames_pending_unregistered [OF sample_scene_reachable, of 8]
  by (simp add: sample_scene_eval sample_scene_visible)

theorem composite_frame_visibility_witness:
  "\<exists>sc'. composite_frame sample_scene 3 (mk_rect (mk_point 0 0) (mk_size 5 5)) (\<lambda>_. True) = (Inr (), sc') \<and>
     3 \<in> occlusions (tracker_at sc' 0)"
proof -
  let ?area = "mk_rect (mk_point 0 0) (mk_size 5 5)"
  let ?kept = "fst (filter_occlusions_from element_renderable (fst (scene_elements_for sample_scene 3)) ?area)"
  have "stream_size sample_stream = mk_size 4 4" by (simp add: stream_size_def sample_eval)
  then have k: "?kept = []"
    by (simp add: scene_elements_for_def elements_of_def sample_scene_visible sample_scene_eval
        generate_renderables_def has_submitted_buffer_def sample_stream_eval filter_occlusions_from_def
        renderable_is_occluded_def SurfaceSnapshot_def Let_def point_plus_def intersection_with_def geom_defs)
  show ?thesis
    using composite_frame_visibility [OF sample_scene_reachable, of 3 ?kept ?area "\<lambda>_. True"]
    by (auto simp: sample_scene_eval k sample_scene_visible)
qed

end
