(* ===== verification/Prompt_Sessions.thy ===== *)
theory Prompt_Sessions
  imports Mir_Prelude "HOL-Library.Product_Lexorder"
begin

text \<open>
  Prompt sessions (\<^verbatim>\<open>src/server/scene/prompt_session_impl.cpp\<close>,
  \<^verbatim>\<open>prompt_session_container.cpp\<close>, \<^verbatim>\<open>prompt_session_manager_impl.cpp\<close>): a trusted helper
  runs a prompt on behalf of an application, with any number of prompt providers.

  A session or a prompt session is named by its pointer.  Sessions are owned elsewhere: the
  container holds weak pointers, and \<open>live_sessions\<close> is the set of those that \<open>lock()\<close> finds.  The
  multi-index container is one list with the two orders of its indices computed on demand; the
  counter \<open>insertion_order\<close> is a 32-bit \<open>unsigned\<close> and wraps.  Calls into sessions and into the
  listener are a log.
\<close>

type_synonym SessionPtr = nat
type_synonym PromptSessionPtr = nat

datatype MirPromptSessionState =
    mir_prompt_session_state_stopped
  | mir_prompt_session_state_started
  | mir_prompt_session_state_suspended

datatype ParticipantType = helper | application | prompt_provider

fun participant_rank :: "ParticipantType \<Rightarrow> nat" where
  "participant_rank helper = 0"
| "participant_rank application = 1"
| "participant_rank prompt_provider = 2"

lemma participant_rank_inj: "participant_rank a = participant_rank b \<Longrightarrow> a = b"
  by (cases a; cases b) simp_all

instantiation ParticipantType :: linorder
begin

definition less_eq_ParticipantType :: "ParticipantType \<Rightarrow> ParticipantType \<Rightarrow> bool" where
  "a \<le> b \<longleftrightarrow> participant_rank a \<le> participant_rank b"

definition less_ParticipantType :: "ParticipantType \<Rightarrow> ParticipantType \<Rightarrow> bool" where
  "a < b \<longleftrightarrow> participant_rank a < participant_rank b"

instance
  by standard (auto simp: less_eq_ParticipantType_def less_ParticipantType_def intro: participant_rank_inj)

end

record Participant =
  pa_prompt_session :: PromptSessionPtr
  pa_session :: SessionPtr
  pa_type :: ParticipantType
  pa_insert_order :: "32 word"

datatype PromptEvent =
    Start_prompt_session SessionPtr
  | Stop_prompt_session SessionPtr
  | Suspend_prompt_session SessionPtr
  | Resume_prompt_session SessionPtr
  | Starting PromptSessionPtr
  | Stopping PromptSessionPtr
  | Suspending PromptSessionPtr
  | Resuming PromptSessionPtr
  | Prompt_provider_added PromptSessionPtr SessionPtr
  | Prompt_provider_removed PromptSessionPtr SessionPtr

record PromptSessions =
  live_sessions :: "SessionPtr set"
  app_container :: "(SessionPtr \<times> int) list"
  prompt_sessions :: "PromptSessionPtr set"
  participant_map :: "Participant list"
  insertion_order :: "32 word"
  current_state :: "PromptSessionPtr \<Rightarrow> MirPromptSessionState"
  next_prompt_session :: PromptSessionPtr
  prompt_log :: "PromptEvent list"

definition new_PromptSessionManager :: "(SessionPtr \<times> int) list \<Rightarrow> PromptSessions" where
  "new_PromptSessionManager apps =
     \<lparr>live_sessions = set (map fst apps), app_container = apps, prompt_sessions = {}, participant_map = [],
      insertion_order = 0, current_state = (\<lambda>_. mir_prompt_session_state_stopped), next_prompt_session = 0,
      prompt_log = []\<rparr>"

definition lock :: "PromptSessions \<Rightarrow> SessionPtr \<Rightarrow> SessionPtr option" where
  "lock pm s = (if s \<in> live_sessions pm then Some s else None)"

definition log_event :: "PromptEvent \<Rightarrow> PromptSessions \<Rightarrow> PromptSessions" where
  "log_event e pm = pm\<lparr>prompt_log := prompt_log pm @ [e]\<rparr>"

definition tell_helper :: "(SessionPtr \<Rightarrow> PromptEvent) \<Rightarrow> SessionPtr option \<Rightarrow> PromptSessions \<Rightarrow> PromptSessions" where
  "tell_helper e helper_session pm =
     (case helper_session of None \<Rightarrow> pm | Some s \<Rightarrow> log_event (e s) pm)"

section \<open>The state machine of a prompt session\<close>

definition set_current_state :: "PromptSessionPtr \<Rightarrow> MirPromptSessionState \<Rightarrow> PromptSessions \<Rightarrow> PromptSessions" where
  "set_current_state ps v pm = pm\<lparr>current_state := (current_state pm)(ps := v)\<rparr>"

definition impl_start :: "PromptSessions \<Rightarrow> PromptSessionPtr \<Rightarrow> SessionPtr option \<Rightarrow> PromptSessions" where
  "impl_start pm ps helper_session =
     (if current_state pm ps = mir_prompt_session_state_stopped
      then tell_helper Start_prompt_session helper_session (set_current_state ps mir_prompt_session_state_started pm)
      else pm)"

definition impl_stop :: "PromptSessions \<Rightarrow> PromptSessionPtr \<Rightarrow> SessionPtr option \<Rightarrow> PromptSessions" where
  "impl_stop pm ps helper_session =
     (if current_state pm ps \<noteq> mir_prompt_session_state_stopped
      then tell_helper Stop_prompt_session helper_session (set_current_state ps mir_prompt_session_state_stopped pm)
      else pm)"

definition impl_suspend :: "PromptSessions \<Rightarrow> PromptSessionPtr \<Rightarrow> SessionPtr option \<Rightarrow> PromptSessions" where
  "impl_suspend pm ps helper_session =
     (if current_state pm ps = mir_prompt_session_state_started
      then tell_helper Suspend_prompt_session helper_session (set_current_state ps mir_prompt_session_state_suspended pm)
      else pm)"

definition impl_resume :: "PromptSessions \<Rightarrow> PromptSessionPtr \<Rightarrow> SessionPtr option \<Rightarrow> PromptSessions" where
  "impl_resume pm ps helper_session =
     (if current_state pm ps = mir_prompt_session_state_suspended
      then tell_helper Resume_prompt_session helper_session (set_current_state ps mir_prompt_session_state_started pm)
      else pm)"

section \<open>The container\<close>

definition insert_prompt_session :: "PromptSessions \<Rightarrow> PromptSessionPtr \<Rightarrow> PromptSessions" where
  "insert_prompt_session pm ps = pm\<lparr>prompt_sessions := insert ps (prompt_sessions pm)\<rparr>"

definition remove_prompt_session :: "PromptSessions \<Rightarrow> PromptSessionPtr \<Rightarrow> PromptSessions" where
  "remove_prompt_session pm ps =
     pm\<lparr>participant_map := filter (\<lambda>p. pa_prompt_session p \<noteq> ps) (participant_map pm),
        prompt_sessions := prompt_sessions pm - {ps}\<rparr>"

definition participant_key :: "Participant \<Rightarrow> SessionPtr \<times> ParticipantType \<times> PromptSessionPtr" where
  "participant_key p = (pa_session p, pa_type p, pa_prompt_session p)"

definition insert_participant ::
    "PromptSessions \<Rightarrow> PromptSessionPtr \<Rightarrow> SessionPtr \<Rightarrow> ParticipantType \<Rightarrow> (PromptSessions, bool) outcome" where
  "insert_participant pm ps session ty =
     (if ps \<notin> prompt_sessions pm then (Inl (runtime_error ''Prompt Session does not exist''), pm)
      else
        case lock pm session of
          Some locked_session \<Rightarrow>
            let participant = \<lparr>pa_prompt_session = ps, pa_session = locked_session, pa_type = ty,
                               pa_insert_order = insertion_order pm\<rparr>;
                pm' = pm\<lparr>insertion_order := insertion_order pm + 1\<rparr>
            in if participant_key participant \<in> participant_key ` set (participant_map pm)
               then (Inr False, pm')
               else (Inr True, pm'\<lparr>participant_map := participant_map pm @ [participant]\<rparr>)
        | None \<Rightarrow> (Inr False, pm))"

definition remove_participant ::
    "PromptSessions \<Rightarrow> PromptSessionPtr \<Rightarrow> SessionPtr \<Rightarrow> ParticipantType \<Rightarrow> bool \<times> PromptSessions" where
  "remove_participant pm ps session ty =
     (if (session, ty, ps) \<notin> participant_key ` set (participant_map pm) then (False, pm)
      else (True, pm\<lparr>participant_map := erase_first (\<lambda>p. participant_key p = (session, ty, ps)) (participant_map pm)\<rparr>))"

text \<open>The participants of a prompt session, in the order of the first index.\<close>

definition participants_in :: "PromptSessions \<Rightarrow> PromptSessionPtr \<Rightarrow> Participant list" where
  "participants_in pm ps =
     sort_key pa_insert_order (filter (\<lambda>p. pa_prompt_session p = ps) (participant_map pm))"

text \<open>The prompt sessions of a session, in the order of the second index.\<close>

definition prompt_sessions_with :: "PromptSessions \<Rightarrow> SessionPtr \<Rightarrow> (PromptSessionPtr \<times> ParticipantType) list" where
  "prompt_sessions_with pm session =
     map (\<lambda>p. (pa_prompt_session p, pa_type p))
       (filter (\<lambda>p. pa_prompt_session p \<in> prompt_sessions pm)
         (sort_key (\<lambda>p. (pa_type p, pa_prompt_session p))
           (filter (\<lambda>p. pa_session p = session) (participant_map pm))))"

definition prompt_sessions_with_type :: "PromptSessions \<Rightarrow> SessionPtr \<Rightarrow> ParticipantType \<Rightarrow> PromptSessionPtr list" where
  "prompt_sessions_with_type pm session ty =
     map pa_prompt_session
       (filter (\<lambda>p. pa_prompt_session p \<in> prompt_sessions pm)
         (sort_key pa_prompt_session
           (filter (\<lambda>p. pa_session p = session \<and> pa_type p = ty) (participant_map pm))))"

section \<open>The manager\<close>

text \<open>\<open>application_for\<close> and \<open>helper_for\<close> keep the last participant of the type.\<close>

definition last_of_type :: "PromptSessions \<Rightarrow> PromptSessionPtr \<Rightarrow> ParticipantType \<Rightarrow> SessionPtr option" where
  "last_of_type pm ps ty =
     fold (\<lambda>p found. if pa_type p = ty then lock pm (pa_session p) else found) (participants_in pm ps) None"

definition application_for :: "PromptSessions \<Rightarrow> PromptSessionPtr \<Rightarrow> SessionPtr option" where
  "application_for pm ps = last_of_type pm ps application"

definition helper_for :: "PromptSessions \<Rightarrow> PromptSessionPtr \<Rightarrow> SessionPtr option" where
  "helper_for pm ps = last_of_type pm ps helper"

definition providers_in :: "PromptSessions \<Rightarrow> PromptSessionPtr \<Rightarrow> SessionPtr list" where
  "providers_in pm ps =
     map pa_session
       (filter (\<lambda>p. pa_type p = prompt_provider \<and> lock pm (pa_session p) \<noteq> None) (participants_in pm ps))"

fun remove_providers :: "PromptSessions \<Rightarrow> PromptSessionPtr \<Rightarrow> SessionPtr list \<Rightarrow> PromptSessions" where
  "remove_providers pm ps [] = pm"
| "remove_providers pm ps (s # ss) =
     (let (removed, pm') = remove_participant pm ps s prompt_provider
      in remove_providers (if removed then log_event (Prompt_provider_removed ps s) pm' else pm') ps ss)"

definition stop_prompt_session_locked :: "PromptSessions \<Rightarrow> PromptSessionPtr \<Rightarrow> PromptSessions" where
  "stop_prompt_session_locked pm ps =
     (let pm1 = remove_providers pm ps (providers_in pm ps);
          pm2 = impl_stop pm1 ps (helper_for pm1 ps);
          pm3 = remove_prompt_session pm2 ps
      in log_event (Stopping ps) pm3)"

fun remove_session_loop :: "PromptSessions \<Rightarrow> SessionPtr \<Rightarrow> (PromptSessionPtr \<times> ParticipantType) list \<Rightarrow> PromptSessions" where
  "remove_session_loop pm session [] = pm"
| "remove_session_loop pm session ((ps, ty) # rest) =
     remove_session_loop
       (if ty = helper then stop_prompt_session_locked pm ps
        else let (removed, pm') = remove_participant pm ps session ty
             in if removed \<and> ty = prompt_provider then log_event (Prompt_provider_removed ps session) pm' else pm')
       session rest"

definition remove_session :: "PromptSessions \<Rightarrow> SessionPtr \<Rightarrow> PromptSessions" where
  "remove_session pm session = remove_session_loop pm session (prompt_sessions_with pm session)"

definition stop_prompt_session :: "PromptSessions \<Rightarrow> PromptSessionPtr \<Rightarrow> PromptSessions" where
  "stop_prompt_session pm ps = stop_prompt_session_locked pm ps"

definition suspend_prompt_session :: "PromptSessions \<Rightarrow> PromptSessionPtr \<Rightarrow> PromptSessions" where
  "suspend_prompt_session pm ps = log_event (Suspending ps) (impl_suspend pm ps (helper_for pm ps))"

definition resume_prompt_session :: "PromptSessions \<Rightarrow> PromptSessionPtr \<Rightarrow> PromptSessions" where
  "resume_prompt_session pm ps = log_event (Resuming ps) (impl_resume pm ps (helper_for pm ps))"

definition start_prompt_session_for ::
    "PromptSessions \<Rightarrow> SessionPtr \<Rightarrow> int \<Rightarrow> (PromptSessions, PromptSessionPtr) outcome" where
  "start_prompt_session_for pm session application_pid =
     (let ps = next_prompt_session pm;
          pm0 = set_current_state ps mir_prompt_session_state_stopped (pm\<lparr>next_prompt_session := ps + 1\<rparr>)
      in case fold (\<lambda>(s, pid) found. if pid = application_pid then Some s else found) (app_container pm) None of
           None \<Rightarrow> (Inl (runtime_error ''Could not identify application session''), pm0)
         | Some application_session \<Rightarrow>
             (case insert_participant (insert_prompt_session pm0 ps) ps session helper of
                (Inl e, pm1) \<Rightarrow> (Inl e, pm1)
              | (Inr inserted, pm1) \<Rightarrow>
                  if \<not> inserted then (Inl (runtime_error ''Could not set prompt session helper''), pm1)
                  else
                    let pm2 = log_event (Starting ps) (impl_start pm1 ps (Some session))
                    in (case insert_participant pm2 ps application_session application of
                          (Inl e, pm3) \<Rightarrow> (Inl e, pm3)
                        | (Inr _, pm3) \<Rightarrow> (Inr ps, pm3))))"

definition add_prompt_provider ::
    "PromptSessions \<Rightarrow> PromptSessionPtr \<Rightarrow> SessionPtr \<Rightarrow> (PromptSessions, unit) outcome" where
  "add_prompt_provider pm ps provider =
     (case insert_participant pm ps provider prompt_provider of
        (Inl e, pm') \<Rightarrow> (Inl e, pm')
      | (Inr inserted, pm') \<Rightarrow>
          (Inr (), if inserted then log_event (Prompt_provider_added ps provider) pm' else pm'))"

section \<open>The invariant\<close>

definition of_type :: "PromptSessions \<Rightarrow> PromptSessionPtr \<Rightarrow> ParticipantType \<Rightarrow> Participant list" where
  "of_type pm ps ty = filter (\<lambda>p. pa_prompt_session p = ps \<and> pa_type p = ty) (participant_map pm)"

definition prompt_inv :: "PromptSessions \<Rightarrow> bool" where
  "prompt_inv pm \<longleftrightarrow>
     pa_prompt_session ` set (participant_map pm) \<subseteq> prompt_sessions pm \<and>
     distinct (map participant_key (participant_map pm)) \<and>
     (\<forall>ps. ps \<in> prompt_sessions pm \<longleftrightarrow> current_state pm ps \<noteq> mir_prompt_session_state_stopped) \<and>
     (\<forall>ps \<in> prompt_sessions pm. ps < next_prompt_session pm \<and> length (of_type pm ps helper) = 1 \<and>
        length (of_type pm ps application) \<le> 1)"

lemma log_event_simps [simp]:
  "participant_map (log_event e pm) = participant_map pm" "prompt_sessions (log_event e pm) = prompt_sessions pm"
  "current_state (log_event e pm) = current_state pm" "next_prompt_session (log_event e pm) = next_prompt_session pm"
  "live_sessions (log_event e pm) = live_sessions pm" "insertion_order (log_event e pm) = insertion_order pm"
  "app_container (log_event e pm) = app_container pm" "prompt_log (log_event e pm) = prompt_log pm @ [e]"
  by (simp_all add: log_event_def)

lemma tell_helper_simps [simp]:
  "participant_map (tell_helper e h pm) = participant_map pm" "prompt_sessions (tell_helper e h pm) = prompt_sessions pm"
  "current_state (tell_helper e h pm) = current_state pm" "next_prompt_session (tell_helper e h pm) = next_prompt_session pm"
  "live_sessions (tell_helper e h pm) = live_sessions pm" "insertion_order (tell_helper e h pm) = insertion_order pm"
  "prompt_log (tell_helper e h pm) = prompt_log pm @ map e (case h of None \<Rightarrow> [] | Some s \<Rightarrow> [s])"
  by (simp_all add: tell_helper_def split: option.split)

lemma set_current_state_simps [simp]:
  "participant_map (set_current_state ps v pm) = participant_map pm"
  "prompt_sessions (set_current_state ps v pm) = prompt_sessions pm"
  "current_state (set_current_state ps v pm) = (current_state pm)(ps := v)"
  "next_prompt_session (set_current_state ps v pm) = next_prompt_session pm"
  "live_sessions (set_current_state ps v pm) = live_sessions pm"
  "insertion_order (set_current_state ps v pm) = insertion_order pm"
  "prompt_log (set_current_state ps v pm) = prompt_log pm"
  by (simp_all add: set_current_state_def)

lemma of_type_cong: "participant_map pm' = participant_map pm \<Longrightarrow> of_type pm' = of_type pm"
  by (simp add: of_type_def fun_eq_iff)

lemma erase_first_distinct:
  "distinct (map f xs) \<Longrightarrow> erase_first (\<lambda>x. f x = k) xs = filter (\<lambda>x. f x \<noteq> k) xs"
proof (induction xs)
  case (Cons a xs)
  show ?case
  proof (cases "f a = k")
    case True
    then have "\<forall>x \<in> set xs. f x \<noteq> k" using Cons.prems by (metis distinct.simps(2) image_eqI list.set_map list.simps(9) True)
    then have "filter (\<lambda>x. f x \<noteq> k) xs = xs" by simp
    with True show ?thesis by simp
  qed (use Cons in simp)
qed simp

lemma remove_participant_eq:
  assumes "distinct (map participant_key (participant_map pm))"
  shows "remove_participant pm ps s ty =
           ((s, ty, ps) \<in> participant_key ` set (participant_map pm),
            pm\<lparr>participant_map := filter (\<lambda>p. participant_key p \<noteq> (s, ty, ps)) (participant_map pm)\<rparr>)"
proof (cases "(s, ty, ps) \<in> participant_key ` set (participant_map pm)")
  case False
  then have "filter (\<lambda>p. participant_key p \<noteq> (s, ty, ps)) (participant_map pm) = participant_map pm"
    by (force simp: filter_id_conv)
  with False show ?thesis by (simp add: remove_participant_def)
qed (simp add: remove_participant_def erase_first_distinct [OF assms])

lemma filter_participants_inv:
  assumes "prompt_inv pm" "\<And>p. p \<in> set (participant_map pm) \<Longrightarrow> pa_type p = helper \<Longrightarrow> P p"
  shows "prompt_inv (pm\<lparr>participant_map := filter P (participant_map pm)\<rparr>)"
proof -
  have h: "of_type (pm\<lparr>participant_map := filter P (participant_map pm)\<rparr>) ps helper = of_type pm ps helper" for ps
    using assms(2) by (auto simp: of_type_def intro!: filter_cong)
  have a: "length (of_type (pm\<lparr>participant_map := filter P (participant_map pm)\<rparr>) ps application) \<le> length (of_type pm ps application)" for ps
  proof -
    have "of_type (pm\<lparr>participant_map := filter P (participant_map pm)\<rparr>) ps application = filter P (of_type pm ps application)"
      by (simp add: of_type_def conj_commute)
    then show ?thesis by simp
  qed
  have "length (of_type (pm\<lparr>participant_map := filter P (participant_map pm)\<rparr>) ps application) \<le> 1"
    if "ps \<in> prompt_sessions pm" for ps
    using assms(1) a [of ps] that unfolding prompt_inv_def by (metis order_trans)
  with assms(1) h show ?thesis
    unfolding prompt_inv_def by (auto simp: distinct_map_filter)
qed

lemma remove_participant_inv:
  assumes "prompt_inv pm" "ty \<noteq> helper"
  shows "prompt_inv (snd (remove_participant pm ps s ty))"
proof -
  have "distinct (map participant_key (participant_map pm))" using assms(1) by (simp add: prompt_inv_def)
  then show ?thesis
    using filter_participants_inv [OF assms(1), of "\<lambda>p. participant_key p \<noteq> (s, ty, ps)"] assms(2)
    by (simp add: remove_participant_eq participant_key_def)
qed

lemma log_event_inv [simp]: "prompt_inv (log_event e pm) = prompt_inv pm"
  by (simp add: prompt_inv_def of_type_cong [of "log_event e pm" pm])

text \<open>What \<open>remove_providers\<close> removes and reports.\<close>

lemma remove_providers_eq:
  assumes "distinct (map participant_key (participant_map pm))" "distinct ss"
    "\<And>s. s \<in> set ss \<Longrightarrow> (s, prompt_provider, ps) \<in> participant_key ` set (participant_map pm)"
  shows "remove_providers pm ps ss =
     pm\<lparr>participant_map := filter (\<lambda>p. participant_key p \<notin> (\<lambda>s. (s, prompt_provider, ps)) ` set ss) (participant_map pm),
        prompt_log := prompt_log pm @ map (Prompt_provider_removed ps) ss\<rparr>"
  using assms
proof (induction ss arbitrary: pm)
  case Nil
  then show ?case by simp
next
  case (Cons s ss)
  let ?pm = "log_event (Prompt_provider_removed ps s)
    (pm\<lparr>participant_map := filter (\<lambda>p. participant_key p \<noteq> (s, prompt_provider, ps)) (participant_map pm)\<rparr>)"
  have step: "remove_providers pm ps (s # ss) = remove_providers ?pm ps ss"
    using Cons.prems(3) [of s] by (simp add: remove_participant_eq [OF Cons.prems(1)] Let_def)
  have "(u, prompt_provider, ps) \<in> participant_key ` set (participant_map ?pm)" if u: "u \<in> set ss" for u
  proof -
    obtain q where "q \<in> set (participant_map pm)" "participant_key q = (u, prompt_provider, ps)"
      using Cons.prems(3) [of u] u by (metis imageE list.set_intros(2))
    moreover have "u \<noteq> s" using Cons.prems(2) u by auto
    ultimately show ?thesis by (auto intro!: image_eqI [of _ _ q])
  qed
  then have "remove_providers ?pm ps ss =
     ?pm\<lparr>participant_map := filter (\<lambda>p. participant_key p \<notin> (\<lambda>s. (s, prompt_provider, ps)) ` set ss) (participant_map ?pm),
        prompt_log := prompt_log ?pm @ map (Prompt_provider_removed ps) ss\<rparr>"
    using Cons.prems(1,2) by (intro Cons.IH) (simp_all add: distinct_map_filter)
  then show ?case unfolding step by (simp add: log_event_def conj_commute)
qed

lemma fold_last:
  "fold (\<lambda>p found. if P p then g p else found) xs found = (if filter P xs = [] then found else g (last (filter P xs)))"
  by (induction xs arbitrary: found) auto

lemma last_of_type_eq:
  "last_of_type pm ps ty =
     (if of_type pm ps ty = [] then None else lock pm (pa_session (last (sort_key pa_insert_order (of_type pm ps ty)))))"
proof -
  have "filter (\<lambda>p. pa_type p = ty) (participants_in pm ps) = sort_key pa_insert_order (of_type pm ps ty)"
    by (simp add: participants_in_def filter_sort of_type_def conj_commute)
  moreover have "sort_key pa_insert_order (of_type pm ps ty) = [] \<longleftrightarrow> of_type pm ps ty = []"
    by (metis length_sort length_0_conv)
  ultimately show ?thesis by (simp add: last_of_type_def fold_last)
qed

lemma last_of_type_single: "of_type pm ps ty = [p] \<Longrightarrow> last_of_type pm ps ty = lock pm (pa_session p)"
  by (simp add: last_of_type_eq)

lemma helper_unique:
  assumes "prompt_inv pm" "ps \<in> prompt_sessions pm"
  obtains p where "of_type pm ps helper = [p]" "helper_for pm ps = lock pm (pa_session p)"
    "p \<in> set (participant_map pm)" "pa_prompt_session p = ps" "pa_type p = helper"
proof -
  have "length (of_type pm ps helper) = 1" using assms by (simp add: prompt_inv_def)
  then obtain p where p: "of_type pm ps helper = [p]" by (auto simp: length_Suc_conv)
  then have "p \<in> set (of_type pm ps helper)" by simp
  then have "p \<in> set (participant_map pm) \<and> pa_prompt_session p = ps \<and> pa_type p = helper"
    unfolding of_type_def by simp
  with that p show ?thesis by (simp add: helper_for_def last_of_type_single)
qed

lemma providers_in_properties:
  assumes "distinct (map participant_key (participant_map pm))"
  shows "distinct (providers_in pm ps)"
    "s \<in> set (providers_in pm ps) \<longleftrightarrow>
       s \<in> live_sessions pm \<and> (s, prompt_provider, ps) \<in> participant_key ` set (participant_map pm)"
proof -
  let ?xs = "filter (\<lambda>p. pa_type p = prompt_provider \<and> lock pm (pa_session p) \<noteq> None) (participants_in pm ps)"
  have sub: "set ?xs \<subseteq> {p \<in> set (participant_map pm). pa_prompt_session p = ps \<and> pa_type p = prompt_provider}"
    by (auto simp: participants_in_def)
  have "distinct (participant_map pm)" using assms distinct_map by blast
  then have "distinct ?xs" by (simp add: participants_in_def)
  moreover have "inj_on pa_session (set ?xs)"
  proof (rule inj_onI)
    fix p q assume pq: "p \<in> set ?xs" "q \<in> set ?xs" "pa_session p = pa_session q"
    from subsetD [OF sub pq(1)] subsetD [OF sub pq(2)] pq(3) have "participant_key p = participant_key q" "p \<in> set (participant_map pm)" "q \<in> set (participant_map pm)"
      by (simp_all add: participant_key_def)
    then show "p = q" using assms by (metis distinct_map inj_onD)
  qed
  ultimately show "distinct (providers_in pm ps)" by (simp add: providers_in_def distinct_map)
  show "s \<in> set (providers_in pm ps) \<longleftrightarrow>
       s \<in> live_sessions pm \<and> (s, prompt_provider, ps) \<in> participant_key ` set (participant_map pm)"
    by (auto simp: providers_in_def participants_in_def lock_def participant_key_def image_iff split: if_splits)
qed

definition stopped_log :: "PromptSessions \<Rightarrow> PromptSessionPtr \<Rightarrow> PromptEvent list" where
  "stopped_log pm ps =
     map (Prompt_provider_removed ps) (providers_in pm ps) @
     (if ps \<in> prompt_sessions pm then map Stop_prompt_session (case helper_for pm ps of None \<Rightarrow> [] | Some s \<Rightarrow> [s]) else []) @
     [Stopping ps]"

lemma stop_prompt_session_eq:
  assumes inv: "prompt_inv pm"
  shows "stop_prompt_session_locked pm ps =
     pm\<lparr>participant_map := filter (\<lambda>p. pa_prompt_session p \<noteq> ps) (participant_map pm),
        prompt_sessions := prompt_sessions pm - {ps},
        current_state := (current_state pm)(ps := mir_prompt_session_state_stopped),
        prompt_log := prompt_log pm @ stopped_log pm ps\<rparr>"
proof -
  have d: "distinct (map participant_key (participant_map pm))" using inv by (simp add: prompt_inv_def)
  let ?keep = "\<lambda>p. participant_key p \<notin> (\<lambda>s. (s, prompt_provider, ps)) ` set (providers_in pm ps)"
  define pm1 where "pm1 = remove_providers pm ps (providers_in pm ps)"
  have pm1: "pm1 = pm\<lparr>participant_map := filter ?keep (participant_map pm),
               prompt_log := prompt_log pm @ map (Prompt_provider_removed ps) (providers_in pm ps)\<rparr>"
    unfolding pm1_def by (rule remove_providers_eq) (use d providers_in_properties [OF d] in auto)
  have "of_type pm1 ps helper = of_type pm ps helper"
    by (auto simp: pm1 of_type_def participant_key_def intro!: filter_cong)
  then have h: "helper_for pm1 ps = helper_for pm ps"
    by (simp add: helper_for_def last_of_type_eq pm1 lock_def)
  have f: "filter (\<lambda>p. pa_prompt_session p \<noteq> ps \<and> ?keep p) (participant_map pm) =
           filter (\<lambda>p. pa_prompt_session p \<noteq> ps) (participant_map pm)"
    by (auto simp: participant_key_def intro!: filter_cong)
  have st: "ps \<in> prompt_sessions pm \<longleftrightarrow> current_state pm ps \<noteq> mir_prompt_session_state_stopped"
    using inv by (simp add: prompt_inv_def)
  then have upd: "ps \<notin> prompt_sessions pm \<Longrightarrow>
      (current_state pm)(ps := mir_prompt_session_state_stopped) = current_state pm" by auto
  have "stop_prompt_session_locked pm ps =
      log_event (Stopping ps) (remove_prompt_session (impl_stop pm1 ps (helper_for pm ps)) ps)"
    by (simp add: stop_prompt_session_locked_def Let_def pm1_def [symmetric] h)
  then show ?thesis
    by (cases "helper_for pm ps"; cases "ps \<in> prompt_sessions pm")
       (simp_all add: pm1 impl_stop_def remove_prompt_session_def tell_helper_def log_event_def
          set_current_state_def stopped_log_def st [symmetric] upd f conj_commute)
qed

lemma stop_inv:
  assumes "prompt_inv pm"
  shows "prompt_inv (stop_prompt_session_locked pm ps)"
proof -
  have o: "of_type (stop_prompt_session_locked pm ps) q ty = of_type pm q ty" if "q \<noteq> ps" for q ty
    using that by (auto simp: stop_prompt_session_eq [OF assms] of_type_def intro!: filter_cong)
  show ?thesis
    using assms o unfolding prompt_inv_def by (auto simp: stop_prompt_session_eq [OF assms] distinct_map_filter)
qed

lemma insert_participant_new:
  assumes "ps \<in> prompt_sessions pm" "s \<in> live_sessions pm" "(s, ty, ps) \<notin> participant_key ` set (participant_map pm)"
  shows "insert_participant pm ps s ty =
      (Inr True, pm\<lparr>insertion_order := insertion_order pm + 1,
         participant_map := participant_map pm @
           [\<lparr>pa_prompt_session = ps, pa_session = s, pa_type = ty, pa_insert_order = insertion_order pm\<rparr>]\<rparr>)"
  using assms by (simp add: insert_participant_def lock_def Let_def participant_key_def)

lemma insert_participant_old:
  assumes "ps \<in> prompt_sessions pm" "s \<in> live_sessions pm" "(s, ty, ps) \<in> participant_key ` set (participant_map pm)"
  shows "insert_participant pm ps s ty = (Inr False, pm\<lparr>insertion_order := insertion_order pm + 1\<rparr>)"
  using assms by (simp add: insert_participant_def lock_def Let_def participant_key_def)

lemma insert_participant_dead:
  assumes "ps \<in> prompt_sessions pm" "s \<notin> live_sessions pm"
  shows "insert_participant pm ps s ty = (Inr False, pm)"
  using assms by (simp add: insert_participant_def lock_def)

lemma insert_provider_inv:
  assumes inv: "prompt_inv pm"
  shows "prompt_inv (snd (insert_participant pm ps s prompt_provider))"
proof -
  consider "ps \<notin> prompt_sessions pm" | "ps \<in> prompt_sessions pm" "s \<notin> live_sessions pm"
    | "ps \<in> prompt_sessions pm" "s \<in> live_sessions pm" "(s, prompt_provider, ps) \<in> participant_key ` set (participant_map pm)"
    | "ps \<in> prompt_sessions pm" "s \<in> live_sessions pm" "(s, prompt_provider, ps) \<notin> participant_key ` set (participant_map pm)"
    by blast
  then show ?thesis
  proof cases
    case 3
    then show ?thesis using inv by (simp add: insert_participant_old prompt_inv_def of_type_def)
  next
    case 4
    then show ?thesis
      using inv unfolding insert_participant_new [OF 4]
      by (simp add: prompt_inv_def of_type_def participant_key_def cong: conj_cong)
  qed (use inv in \<open>simp_all add: insert_participant_def lock_def\<close>)
qed

lemma add_prompt_provider_inv: "prompt_inv pm \<Longrightarrow> prompt_inv (snd (add_prompt_provider pm ps s))"
  using insert_provider_inv [of pm ps s]
  by (auto simp: add_prompt_provider_def split: prod.split sum.split)

definition application_session_for :: "PromptSessions \<Rightarrow> int \<Rightarrow> SessionPtr option" where
  "application_session_for pm pid =
     fold (\<lambda>(s, p) found. if p = pid then Some s else found) (app_container pm) None"

lemma start_prompt_session_eq:
  assumes inv: "prompt_inv pm" and s: "s \<in> live_sessions pm"
    and a: "application_session_for pm pid = Some a" and ps: "ps = next_prompt_session pm"
  obtains pm' where "start_prompt_session_for pm s pid = (Inr ps, pm')"
    "participant_map pm' = participant_map pm @
       [\<lparr>pa_prompt_session = ps, pa_session = s, pa_type = helper, pa_insert_order = insertion_order pm\<rparr>] @
       (if a \<in> live_sessions pm
        then [\<lparr>pa_prompt_session = ps, pa_session = a, pa_type = application, pa_insert_order = insertion_order pm + 1\<rparr>]
        else [])"
    "prompt_sessions pm' = insert ps (prompt_sessions pm)"
    "current_state pm' = (current_state pm)(ps := mir_prompt_session_state_started)"
    "next_prompt_session pm' = ps + 1" "live_sessions pm' = live_sessions pm"
    "prompt_log pm' = prompt_log pm @ [Start_prompt_session s, Starting ps]"
proof -
  have "ps \<notin> prompt_sessions pm" using inv ps by (auto simp: prompt_inv_def)
  then have fresh: "\<And>p. p \<in> set (participant_map pm) \<Longrightarrow> pa_prompt_session p \<noteq> ps"
    using inv by (auto simp: prompt_inv_def)
  then have keys: "(u, ty, ps) \<notin> participant_key ` set (participant_map pm)" for u ty
    by (auto simp: participant_key_def)
  define pm0 where "pm0 = insert_prompt_session (set_current_state ps mir_prompt_session_state_stopped
                            (pm\<lparr>next_prompt_session := ps + 1\<rparr>)) ps"
  have pm0: "ps \<in> prompt_sessions pm0" "participant_map pm0 = participant_map pm" "live_sessions pm0 = live_sessions pm"
    by (simp_all add: pm0_def insert_prompt_session_def)
  define h where "h = \<lparr>pa_prompt_session = ps, pa_session = s, pa_type = helper, pa_insert_order = insertion_order pm\<rparr>"
  define pm1 where "pm1 = pm0\<lparr>insertion_order := insertion_order pm + 1, participant_map := participant_map pm @ [h]\<rparr>"
  have i1: "insert_participant pm0 ps s helper = (Inr True, pm1)"
    using s keys pm0 by (subst insert_participant_new) (simp_all add: pm1_def h_def, simp add: pm0_def insert_prompt_session_def)
  define pm2 where "pm2 = log_event (Starting ps) (impl_start pm1 ps (Some s))"
  have pm2: "ps \<in> prompt_sessions pm2" "participant_map pm2 = participant_map pm @ [h]" "live_sessions pm2 = live_sessions pm"
    "prompt_sessions pm2 = insert ps (prompt_sessions pm)" "next_prompt_session pm2 = ps + 1"
    "current_state pm2 = (current_state pm)(ps := mir_prompt_session_state_started)"
    "insertion_order pm2 = insertion_order pm + 1"
    "prompt_log pm2 = prompt_log pm @ [Start_prompt_session s, Starting ps]"
    by (simp_all add: pm2_def pm1_def pm0_def insert_prompt_session_def impl_start_def)
  have start: "start_prompt_session_for pm s pid =
      (case insert_participant pm2 ps a application of (Inl e, pm3) \<Rightarrow> (Inl e, pm3) | (Inr _, pm3) \<Rightarrow> (Inr ps, pm3))"
    using a by (simp add: start_prompt_session_for_def application_session_for_def [symmetric] Let_def
        ps [symmetric] pm0_def [simplified, symmetric] i1 pm2_def)
  show ?thesis
  proof (cases "a \<in> live_sessions pm")
    case True
    have "(a, application, ps) \<notin> participant_key ` set (participant_map pm2)"
      using keys by (auto simp: pm2 h_def participant_key_def)
    from insert_participant_new [OF pm2(1) _ this] True pm2 start that show ?thesis by (simp add: h_def)
  next
    case False
    with insert_participant_dead [OF pm2(1)] pm2 start that show ?thesis by (simp add: h_def)
  qed
qed

lemma start_prompt_session_inv:
  assumes inv: "prompt_inv pm" and s: "s \<in> live_sessions pm"
  shows "prompt_inv (snd (start_prompt_session_for pm s pid))"
proof (cases "application_session_for pm pid")
  case None
  have "current_state pm (next_prompt_session pm) = mir_prompt_session_state_stopped"
    using inv by (auto simp: prompt_inv_def)
  then show ?thesis
    using inv None
    by (auto simp: start_prompt_session_for_def application_session_for_def [symmetric] Let_def prompt_inv_def
        of_type_def)
next
  case (Some a)
  let ?ps = "next_prompt_session pm"
  from start_prompt_session_eq [OF inv s Some refl] obtain pm' where
    pm': "start_prompt_session_for pm s pid = (Inr ?ps, pm')"
    "participant_map pm' = participant_map pm @
       [\<lparr>pa_prompt_session = ?ps, pa_session = s, pa_type = helper, pa_insert_order = insertion_order pm\<rparr>] @
       (if a \<in> live_sessions pm
        then [\<lparr>pa_prompt_session = ?ps, pa_session = a, pa_type = application, pa_insert_order = insertion_order pm + 1\<rparr>]
        else [])"
    "prompt_sessions pm' = insert ?ps (prompt_sessions pm)"
    "current_state pm' = (current_state pm)(?ps := mir_prompt_session_state_started)"
    "next_prompt_session pm' = ?ps + 1" .
  have new: "?ps \<notin> prompt_sessions pm" using inv by (auto simp: prompt_inv_def)
  then have fresh: "pa_prompt_session p \<noteq> ?ps" if "p \<in> set (participant_map pm)" for p
    using inv that by (auto simp: prompt_inv_def)
  then have none: "filter (\<lambda>p. pa_prompt_session p = ?ps \<and> pa_type p = ty) (participant_map pm) = []" for ty
    by (auto simp: filter_empty_conv)
  have old: "of_type pm' q ty = of_type pm q ty" if "q \<noteq> ?ps" for q ty
    using that by (auto simp: of_type_def pm'(2))
  have "distinct (map participant_key (participant_map pm'))"
    using inv fresh by (auto simp: prompt_inv_def pm'(2) participant_key_def)
  moreover have "length (of_type pm' ?ps helper) = 1" "length (of_type pm' ?ps application) \<le> 1"
    by (simp_all add: of_type_def pm'(2) none)
  ultimately have "prompt_inv pm'"
    using inv new old unfolding prompt_inv_def by (auto simp: pm' less_SucI)
  then show ?thesis by (simp add: pm'(1))
qed

lemma suspend_resume_inv:
  assumes "prompt_inv pm"
  shows "prompt_inv (suspend_prompt_session pm ps)" "prompt_inv (resume_prompt_session pm ps)"
  using assms
  by (auto simp: prompt_inv_def suspend_prompt_session_def resume_prompt_session_def impl_suspend_def impl_resume_def of_type_def)

definition session_loop_keeps :: "SessionPtr \<Rightarrow> (PromptSessionPtr \<times> ParticipantType) list \<Rightarrow> Participant \<Rightarrow> bool" where
  "session_loop_keeps s todo p \<longleftrightarrow>
     (\<forall>(ps, ty) \<in> set todo. if ty = helper then pa_prompt_session p \<noteq> ps else participant_key p \<noteq> (s, ty, ps))"

lemma session_loop_keeps_Cons:
  "session_loop_keeps s (x # todo) = (\<lambda>p. session_loop_keeps s [x] p \<and> session_loop_keeps s todo p)"
  by (auto simp: session_loop_keeps_def fun_eq_iff)

lemma remove_session_loop_effect:
  assumes "prompt_inv pm"
  shows "prompt_inv (remove_session_loop pm s todo) \<and>
    participant_map (remove_session_loop pm s todo) = filter (session_loop_keeps s todo) (participant_map pm) \<and>
    prompt_sessions (remove_session_loop pm s todo) = prompt_sessions pm - {ps. (ps, helper) \<in> set todo} \<and>
    current_state (remove_session_loop pm s todo) =
      (\<lambda>ps. if (ps, helper) \<in> set todo then mir_prompt_session_state_stopped else current_state pm ps)"
  using assms
proof (induction todo arbitrary: pm)
  case Nil
  then show ?case by (simp add: session_loop_keeps_def)
next
  case (Cons x todo)
  obtain ps ty where x: "x = (ps, ty)" by fastforce
  define pm1 where "pm1 = (if ty = helper then stop_prompt_session_locked pm ps
        else let (removed, pm') = remove_participant pm ps s ty
             in if removed \<and> ty = prompt_provider then log_event (Prompt_provider_removed ps s) pm' else pm')"
  have step: "remove_session_loop pm s (x # todo) = remove_session_loop pm1 s todo" by (simp add: x pm1_def)
  have inv1: "prompt_inv pm1"
    using Cons.prems stop_inv remove_participant_inv [OF Cons.prems, of ty ps s]
    by (auto simp: pm1_def split: prod.split)
  have d: "distinct (map participant_key (participant_map pm))" using Cons.prems by (simp add: prompt_inv_def)
  have keep1: "session_loop_keeps s [(ps, ty)] =
      (if ty = helper then (\<lambda>p. pa_prompt_session p \<noteq> ps) else (\<lambda>p. participant_key p \<noteq> (s, ty, ps)))"
    by (auto simp: session_loop_keeps_def fun_eq_iff)
  have e1: "participant_map pm1 = filter (session_loop_keeps s [x]) (participant_map pm)"
    "prompt_sessions pm1 = prompt_sessions pm - (if ty = helper then {ps} else {})"
    "current_state pm1 = (if ty = helper then (current_state pm)(ps := mir_prompt_session_state_stopped) else current_state pm)"
    by (auto simp: pm1_def x keep1 stop_prompt_session_eq [OF Cons.prems] remove_participant_eq [OF d] Let_def)
  have "filter (session_loop_keeps s todo) (filter (session_loop_keeps s [x]) (participant_map pm)) =
        filter (session_loop_keeps s (x # todo)) (participant_map pm)"
    by (simp add: session_loop_keeps_Cons [of s x todo])
  with Cons.IH [OF inv1] e1 show ?case unfolding step by (auto simp: x fun_eq_iff)
qed

lemma in_prompt_sessions_with:
  assumes "prompt_inv pm"
  shows "(ps, ty) \<in> set (prompt_sessions_with pm s) \<longleftrightarrow> (s, ty, ps) \<in> participant_key ` set (participant_map pm)"
  using assms by (force simp: prompt_sessions_with_def prompt_inv_def participant_key_def)

section \<open>Runs\<close>

text \<open>
  The manager's calls in any order.  The helper of a new prompt session is the session that asks
  for it, so it is alive; \<open>outside\<close> is what happens to sessions elsewhere, dying included.
\<close>

inductive prompt_step :: "PromptSessions \<Rightarrow> PromptSessions \<Rightarrow> bool" where
  start: "s \<in> live_sessions pm \<Longrightarrow> prompt_step pm (snd (start_prompt_session_for pm s pid))"
| stop: "prompt_step pm (stop_prompt_session pm ps)"
| suspend: "prompt_step pm (suspend_prompt_session pm ps)"
| resume: "prompt_step pm (resume_prompt_session pm ps)"
| add_provider: "prompt_step pm (snd (add_prompt_provider pm ps s))"
| remove_session: "prompt_step pm (remove_session pm s)"
| outside: "prompt_step pm (pm\<lparr>live_sessions := ss, app_container := apps\<rparr>)"

inductive prompt_reachable :: "PromptSessions \<Rightarrow> bool" where
  init: "prompt_reachable (new_PromptSessionManager apps)"
| step: "\<lbrakk>prompt_reachable pm; prompt_step pm pm'\<rbrakk> \<Longrightarrow> prompt_reachable pm'"

lemma prompt_step_inv: "prompt_step pm pm' \<Longrightarrow> prompt_inv pm \<Longrightarrow> prompt_inv pm'"
proof (induction rule: prompt_step.induct)
  case (outside pm ss apps)
  then show ?case by (simp add: prompt_inv_def of_type_def)
qed (simp_all add: start_prompt_session_inv stop_prompt_session_def stop_inv suspend_resume_inv
      add_prompt_provider_inv remove_session_def remove_session_loop_effect)

lemma prompt_reachable_inv: "prompt_reachable pm \<Longrightarrow> prompt_inv pm"
proof (induction rule: prompt_reachable.induct)
  case (init apps)
  then show ?case by (simp add: new_PromptSessionManager_def prompt_inv_def)
qed (rule prompt_step_inv)

text \<open>
  C39: in every run, the prompt sessions of the container are exactly those that are started or
  suspended; each has exactly one helper and at most one application; every participant belongs to
  one of them, and no session takes part twice in the same role.
\<close>

theorem prompt_sessions_consistent:
  assumes "prompt_reachable pm"
  shows "(\<forall>ps. ps \<in> prompt_sessions pm \<longleftrightarrow> current_state pm ps \<noteq> mir_prompt_session_state_stopped) \<and>
         (\<forall>ps. ps \<in> prompt_sessions pm \<longrightarrow>
            (\<exists>h. filter (\<lambda>p. pa_type p = helper) (participants_in pm ps) = [h] \<and>
                 helper_for pm ps = lock pm (pa_session h)) \<and>
            length (filter (\<lambda>p. pa_type p = application) (participants_in pm ps)) \<le> 1) \<and>
         (\<forall>p. p \<in> set (participant_map pm) \<longrightarrow> pa_prompt_session p \<in> prompt_sessions pm) \<and>
         distinct (map participant_key (participant_map pm))"
proof -
  have inv: "prompt_inv pm" by (rule prompt_reachable_inv [OF assms])
  have f: "filter (\<lambda>p. pa_type p = ty) (participants_in pm ps) = sort_key pa_insert_order (of_type pm ps ty)" for ps ty
    by (simp add: participants_in_def filter_sort of_type_def conj_commute)
  have "\<exists>h. sort_key pa_insert_order (of_type pm ps helper) = [h] \<and> helper_for pm ps = lock pm (pa_session h)"
    if "ps \<in> prompt_sessions pm" for ps
    using helper_unique [OF inv that] by (metis sort_key_simps(1,2) insort_key.simps(1))
  then show ?thesis using inv unfolding f prompt_inv_def by auto
qed

text \<open>
  When a session goes away, it takes part in nothing any more; every prompt session it helped is
  stopped and gone with all its participants; every other prompt session keeps its state and its
  other participants.
\<close>

theorem remove_session_correct:
  assumes "prompt_reachable pm" and pm': "pm' = remove_session pm s"
  shows "(\<forall>p. p \<in> set (participant_map pm') \<longrightarrow> pa_session p \<noteq> s) \<and>
         (\<forall>ps. if (s, helper, ps) \<in> participant_key ` set (participant_map pm)
               then ps \<notin> prompt_sessions pm' \<and> current_state pm' ps = mir_prompt_session_state_stopped \<and>
                    participants_in pm' ps = []
               else (ps \<in> prompt_sessions pm' \<longleftrightarrow> ps \<in> prompt_sessions pm) \<and>
                    current_state pm' ps = current_state pm ps \<and>
                    participants_in pm' ps = filter (\<lambda>p. pa_session p \<noteq> s) (participants_in pm ps))"
proof -
  have inv: "prompt_inv pm" by (rule prompt_reachable_inv [OF assms(1)])
  let ?todo = "prompt_sessions_with pm s"
  note todo = in_prompt_sessions_with [OF inv, of _ _ s]
  have e: "participant_map pm' = filter (session_loop_keeps s ?todo) (participant_map pm)"
    "prompt_sessions pm' = prompt_sessions pm - {ps. (ps, helper) \<in> set ?todo}"
    "current_state pm' = (\<lambda>ps. if (ps, helper) \<in> set ?todo then mir_prompt_session_state_stopped else current_state pm ps)"
    using remove_session_loop_effect [OF inv, of s ?todo] by (simp_all add: pm' remove_session_def)
  have keeps: "session_loop_keeps s ?todo p \<longleftrightarrow>
      pa_session p \<noteq> s \<and> (s, helper, pa_prompt_session p) \<notin> participant_key ` set (participant_map pm)"
    if "p \<in> set (participant_map pm)" for p
  proof -
    define K where "K = participant_key ` set (participant_map pm)"
    have key: "(pa_session p, pa_type p, pa_prompt_session p) \<in> K"
      using that by (auto simp: participant_key_def K_def)
    have "session_loop_keeps s ?todo p \<longleftrightarrow>
        (\<forall>ps ty. (s, ty, ps) \<in> K \<longrightarrow>
           (if ty = helper then pa_prompt_session p \<noteq> ps else participant_key p \<noteq> (s, ty, ps)))"
      unfolding session_loop_keeps_def K_def todo [symmetric] by auto
    also have "\<dots> \<longleftrightarrow> pa_session p \<noteq> s \<and> (s, helper, pa_prompt_session p) \<notin> K"
      using key unfolding participant_key_def [of p] by (cases "pa_type p = helper") auto
    finally show ?thesis by (simp add: K_def)
  qed
  have "participants_in pm' ps = (if (s, helper, ps) \<in> participant_key ` set (participant_map pm) then []
          else filter (\<lambda>p. pa_session p \<noteq> s) (participants_in pm ps))" for ps
    using keeps
    by (auto simp: participants_in_def e filter_sort conj_commute intro!: arg_cong [of _ _ "sort_key pa_insert_order"] filter_cong)
  with keeps show ?thesis by (auto simp: e todo)
qed

text \<open>
  Stopping a prompt session reports the removal of each of its live providers, then tells the
  helper to stop, if it still runs and its helper is alive, then tells the listener; afterwards it
  is stopped, gone and has no participants, and no other prompt session changed.
\<close>

theorem stop_prompt_session_correct:
  assumes "prompt_reachable pm" and pm': "pm' = stop_prompt_session pm ps"
  shows "prompt_log pm' = prompt_log pm @ map (Prompt_provider_removed ps) (providers_in pm ps) @
           (if current_state pm ps \<noteq> mir_prompt_session_state_stopped
            then (case helper_for pm ps of None \<Rightarrow> [] | Some s \<Rightarrow> [Stop_prompt_session s]) else []) @
           [Stopping ps] \<and>
         ps \<notin> prompt_sessions pm' \<and> current_state pm' ps = mir_prompt_session_state_stopped \<and>
         participants_in pm' ps = [] \<and>
         (\<forall>q. q \<noteq> ps \<longrightarrow> current_state pm' q = current_state pm q \<and> participants_in pm' q = participants_in pm q)"
proof -
  have inv: "prompt_inv pm" by (rule prompt_reachable_inv [OF assms(1)])
  then have "ps \<in> prompt_sessions pm \<longleftrightarrow> current_state pm ps \<noteq> mir_prompt_session_state_stopped"
    by (simp add: prompt_inv_def)
  moreover have "filter (\<lambda>p. pa_prompt_session p = q \<and> pa_prompt_session p \<noteq> ps) (participant_map pm) =
      filter (\<lambda>p. pa_prompt_session p = q) (participant_map pm)" if "q \<noteq> ps" for q
    using that by (auto intro: filter_cong)
  ultimately show ?thesis
    by (auto simp: pm' stop_prompt_session_def stop_prompt_session_eq [OF inv] stopped_log_def participants_in_def
        conj_commute split: option.split)
qed

text \<open>
  A started prompt session that is suspended and resumed is started again, its helper has been
  told to suspend and to resume, and neither its participants nor any other prompt session changed;
  resuming a session that is not suspended only tells the listener.
\<close>

theorem suspend_resume_roundtrip:
  assumes "prompt_reachable pm" "current_state pm ps = mir_prompt_session_state_started"
    and h: "helper_for pm ps = Some h"
  shows "let pm1 = suspend_prompt_session pm ps; pm2 = resume_prompt_session pm1 ps
         in current_state pm1 ps = mir_prompt_session_state_suspended \<and>
            pm2 = pm\<lparr>prompt_log := prompt_log pm @
                      [Suspend_prompt_session h, Suspending ps, Resume_prompt_session h, Resuming ps]\<rparr> \<and>
            resume_prompt_session pm ps = log_event (Resuming ps) pm"
proof -
  let ?pm1 = "suspend_prompt_session pm ps"
  have pm1: "?pm1 = pm\<lparr>current_state := (current_state pm)(ps := mir_prompt_session_state_suspended),
                       prompt_log := prompt_log pm @ [Suspend_prompt_session h, Suspending ps]\<rparr>"
    using assms by (simp add: suspend_prompt_session_def impl_suspend_def tell_helper_def log_event_def set_current_state_def)
  have "of_type ?pm1 ps helper = of_type pm ps helper" by (rule fun_cong [OF fun_cong [OF of_type_cong]]) (simp add: pm1)
  moreover have "lock ?pm1 = lock pm" by (simp add: lock_def fun_eq_iff pm1)
  ultimately have "helper_for ?pm1 ps = helper_for pm ps" by (simp add: helper_for_def last_of_type_eq)
  then have "helper_for ?pm1 ps = Some h" using h by simp
  moreover have "(current_state pm)(ps := mir_prompt_session_state_started) = current_state pm" using assms(2) by auto
  ultimately have "resume_prompt_session ?pm1 ps = pm\<lparr>prompt_log := prompt_log pm @
      [Suspend_prompt_session h, Suspending ps, Resume_prompt_session h, Resuming ps]\<rparr>"
    by (simp add: resume_prompt_session_def impl_resume_def tell_helper_def log_event_def set_current_state_def pm1)
  moreover have "resume_prompt_session pm ps = log_event (Resuming ps) pm"
    using assms(2) by (simp add: resume_prompt_session_def impl_resume_def)
  ultimately show ?thesis by (simp add: Let_def, simp add: pm1)
qed

section \<open>A concrete run\<close>

definition sample_prompts :: PromptSessions where
  "sample_prompts =
     snd (add_prompt_provider
       (snd (start_prompt_session_for (new_PromptSessionManager [(1, 100), (2, 200), (3, 300)]) 1 200)) 0 3)"

lemma sample_prompts_reachable: "prompt_reachable sample_prompts"
proof -
  let ?pm = "new_PromptSessionManager [(1, 100), (2, 200), (3, 300)]"
  have "prompt_step ?pm (snd (start_prompt_session_for ?pm 1 200))"
    by (rule prompt_step.start) (simp add: new_PromptSessionManager_def)
  then show ?thesis
    unfolding sample_prompts_def by (meson prompt_reachable.init prompt_reachable.step prompt_step.add_provider)
qed

lemma sample_prompts_eval:
  "prompt_sessions sample_prompts = {0}"
  "current_state sample_prompts 0 = mir_prompt_session_state_started"
  "participant_map sample_prompts =
     [\<lparr>pa_prompt_session = 0, pa_session = 1, pa_type = helper, pa_insert_order = 0\<rparr>,
      \<lparr>pa_prompt_session = 0, pa_session = 2, pa_type = application, pa_insert_order = 1\<rparr>,
      \<lparr>pa_prompt_session = 0, pa_session = 3, pa_type = prompt_provider, pa_insert_order = 2\<rparr>]"
  "live_sessions sample_prompts = {1, 2, 3}"
  "prompt_log sample_prompts = [Start_prompt_session 1, Starting 0, Prompt_provider_added 0 3]"
  by (simp_all add: sample_prompts_def add_prompt_provider_def start_prompt_session_for_def new_PromptSessionManager_def
      insert_participant_def insert_prompt_session_def lock_def Let_def participant_key_def impl_start_def
      tell_helper_def log_event_def set_current_state_def)

lemma sample_prompts_participants:
  "helper_for sample_prompts 0 = Some 1" "providers_in sample_prompts 0 = [3]"
  by (simp_all add: helper_for_def last_of_type_def providers_in_def participants_in_def sample_prompts_eval lock_def)

theorem prompt_sessions_consistent_witness:
  "0 \<in> prompt_sessions sample_prompts \<and> distinct (map participant_key (participant_map sample_prompts))"
  using prompt_sessions_consistent [OF sample_prompts_reachable] by (simp add: sample_prompts_eval)

theorem remove_session_correct_witness:
  "0 \<notin> prompt_sessions (remove_session sample_prompts 1) \<and> participants_in (remove_session sample_prompts 1) 0 = []"
proof -
  have "(1, helper, 0) \<in> participant_key ` set (participant_map sample_prompts)"
    by (simp add: sample_prompts_eval participant_key_def)
  then show ?thesis
    using remove_session_correct [OF sample_prompts_reachable refl, of 1] by metis
qed

theorem stop_prompt_session_correct_witness:
  "prompt_log (stop_prompt_session sample_prompts 0) =
     [Start_prompt_session 1, Starting 0, Prompt_provider_added 0 3,
      Prompt_provider_removed 0 3, Stop_prompt_session 1, Stopping 0]"
  using stop_prompt_session_correct [OF sample_prompts_reachable refl, of 0]
  by (simp add: sample_prompts_eval sample_prompts_participants)

theorem suspend_resume_roundtrip_witness:
  "prompt_log (resume_prompt_session (suspend_prompt_session sample_prompts 0) 0) =
     [Start_prompt_session 1, Starting 0, Prompt_provider_added 0 3,
      Suspend_prompt_session 1, Suspending 0, Resume_prompt_session 1, Resuming 0]"
  using suspend_resume_roundtrip [OF sample_prompts_reachable sample_prompts_eval(2) sample_prompts_participants(1)]
  by (simp add: Let_def sample_prompts_eval)

end
