(* ===== verification/Display_Config.thy ===== *)
theory Display_Config
  imports Geometry Identifiers Pixel_Format
begin

text \<open>
  Display configurations: outputs, their extents and validity
  (\<^verbatim>\<open>src/platform/graphics/display_configuration.cpp\<close>), the default configuration policies
  (\<^verbatim>\<open>src/server/graphics/default_display_configuration_policy.cpp\<close>), the grouping of overlapping
  outputs (\<^verbatim>\<open>src/platform/graphics/overlapping_output_grouping.cpp\<close>) and the placement of windows
  on outputs (\<^verbatim>\<open>src/server/shell/graphics_display_layout.cpp\<close>).

  \<open>DisplayConfiguration\<close> is an interface of the platforms; the model is what it promises, a list of
  cards and a list of outputs that \<open>for_each_output\<close> visits in order.  The iteration order of an
  \<open>unordered_set\<close> is not specified; here it is the order of insertion, and the theorems do not
  depend on it.
\<close>

type_synonym MirOrientation = int
type_synonym MirPowerMode = int

abbreviation (input) mir_power_mode_on :: MirPowerMode where "mir_power_mode_on \<equiv> 0"
abbreviation (input) mir_power_mode_off :: MirPowerMode where "mir_power_mode_off \<equiv> 3"
abbreviation (input) mir_orientation_normal :: MirOrientation where "mir_orientation_normal \<equiv> 0"
abbreviation (input) mir_orientation_inverted :: MirOrientation where "mir_orientation_inverted \<equiv> 180"

record DisplayConfigurationCard =
  dcc_id :: int
  max_simultaneous_outputs :: nat

record DisplayConfigurationMode =
  mode_size :: Size
  vrefresh_hz :: rat

record DisplayConfigurationOutput =
  out_id :: int
  card_id :: int
  out_type :: int
  pixel_formats :: "MirPixelFormat list"
  modes :: "DisplayConfigurationMode list"
  preferred_mode_index :: nat
  physical_size_mm :: Size
  connected :: bool
  used :: bool
  out_top_left :: Point
  current_mode_index :: nat
  current_format :: MirPixelFormat
  power_mode :: MirPowerMode
  orientation :: MirOrientation
  scale :: rat
  form_factor :: int
  subpixel_arrangement :: int
  gamma :: "nat list \<times> nat list \<times> nat list"
  gamma_supported :: int
  edid :: "nat list"

record DisplayConfiguration =
  cards :: "DisplayConfigurationCard list"
  outputs :: "DisplayConfigurationOutput list"

section \<open>Comparison, extents and validity\<close>

definition card_eq :: "DisplayConfigurationCard \<Rightarrow> DisplayConfigurationCard \<Rightarrow> bool" where
  "card_eq a b \<longleftrightarrow> dcc_id a = dcc_id b \<and> max_simultaneous_outputs a = max_simultaneous_outputs b"

definition mode_eq :: "DisplayConfigurationMode \<Rightarrow> DisplayConfigurationMode \<Rightarrow> bool" where
  "mode_eq a b \<longleftrightarrow> mode_size a = mode_size b \<and> vrefresh_hz a = vrefresh_hz b"

definition output_eq :: "DisplayConfigurationOutput \<Rightarrow> DisplayConfigurationOutput \<Rightarrow> bool" where
  "output_eq a b \<longleftrightarrow>
     out_id a = out_id b \<and> card_id a = card_id b \<and> out_type a = out_type b \<and>
     physical_size_mm a = physical_size_mm b \<and> preferred_mode_index a = preferred_mode_index b \<and>
     connected a = connected b \<and> used a = used b \<and> out_top_left a = out_top_left b \<and>
     orientation a = orientation b \<and> current_mode_index a = current_mode_index b \<and>
     length (modes a) = length (modes b) \<and> scale a = scale b \<and> form_factor a = form_factor b \<and>
     list_all2 mode_eq (modes a) (modes b)"

definition configuration_eq :: "DisplayConfiguration \<Rightarrow> DisplayConfiguration \<Rightarrow> bool" where
  "configuration_eq lhs rhs \<longleftrightarrow>
     list_all2 card_eq (cards lhs) (cards rhs) \<and> list_all2 output_eq (outputs lhs) (outputs rhs)"

definition extents_of ::
    "DisplayConfigurationMode list \<Rightarrow> nat \<Rightarrow> MirOrientation \<Rightarrow> Point \<Rightarrow> Rectangle" where
  "extents_of ms index orient tlp =
     (if index \<ge> length ms then default_rectangle
      else let sz = mode_size (ms ! index)
           in if orient = mir_orientation_normal \<or> orient = mir_orientation_inverted
              then mk_rect tlp sz
              else mk_rect tlp (mk_size (height sz) (width sz)))"

definition extents :: "DisplayConfigurationOutput \<Rightarrow> Rectangle" where
  "extents out = extents_of (modes out) (current_mode_index out) (orientation out) (out_top_left out)"

definition output_valid :: "DisplayConfigurationOutput \<Rightarrow> bool" where
  "output_valid out =
     (if \<not> connected out then \<not> used out
      else if current_format out \<notin> set (pixel_formats out) then False
      else if current_mode_index out \<ge> length (modes out) then False
      else True)"

definition configuration_valid :: "DisplayConfiguration \<Rightarrow> bool" where
  "configuration_valid conf =
     fold (\<lambda>out all_valid. if \<not> output_valid out then False else all_valid) (outputs conf) True"

section \<open>The default policies\<close>

definition select_mode_index :: "nat \<Rightarrow> DisplayConfigurationMode list \<Rightarrow> nat" where
  "select_mode_index mode_index ms =
     (if ms = [] then 2 ^ 64 - 1 else if mode_index \<ge> length ms then 0 else mode_index)"

definition select_opaque_format :: "MirPixelFormat \<Rightarrow> MirPixelFormat list \<Rightarrow> MirPixelFormat" where
  "select_opaque_format format formats =
     (let format_in_formats = format \<in> set formats
      in if \<not> contains_alpha format \<and> format_in_formats then format
         else case find (\<lambda>f. \<not> contains_alpha f) formats of
                Some first_opaque \<Rightarrow> first_opaque
              | None \<Rightarrow> if format_in_formats then format
                        else if formats \<noteq> [] then formats ! 0
                        else mir_pixel_format_invalid)"

text \<open>The fields \<open>current_mode_index\<close> are 32 bits wide; the policies store a \<open>size_t\<close> in them.\<close>

definition uint32 :: "nat \<Rightarrow> nat" where
  "uint32 n = n mod 2 ^ 32"

definition clone_output :: "DisplayConfigurationOutput \<Rightarrow> DisplayConfigurationOutput" where
  "clone_output out =
     (if \<not> connected out \<or> modes out = [] then out\<lparr>used := False, power_mode := mir_power_mode_on\<rparr>
      else
        let index = select_mode_index (preferred_mode_index out) (modes out);
            format = select_opaque_format (current_format out) (pixel_formats out)
        in out\<lparr>used := True, out_top_left := mk_point 0 0, current_mode_index := uint32 index,
               current_format := format, power_mode := mir_power_mode_on,
               orientation := mir_orientation_normal\<rparr>)"

definition CloneDisplayConfigurationPolicy :: "DisplayConfiguration \<Rightarrow> DisplayConfiguration" where
  "CloneDisplayConfigurationPolicy conf = conf\<lparr>outputs := map clone_output (outputs conf)\<rparr>"

fun side_by_side_loop :: "int \<Rightarrow> DisplayConfigurationOutput list \<Rightarrow> DisplayConfigurationOutput list" where
  "side_by_side_loop max_x [] = []"
| "side_by_side_loop max_x (out # outs) =
     (if connected out \<and> length (modes out) > 0 then
        let index = select_mode_index (preferred_mode_index out) (modes out)
        in out\<lparr>used := True, out_top_left := mk_point max_x 0, current_mode_index := uint32 index,
               power_mode := mir_power_mode_on, orientation := mir_orientation_normal\<rparr>
           # side_by_side_loop (max_x + width (mode_size (modes out ! index))) outs
      else out\<lparr>used := False, power_mode := mir_power_mode_off\<rparr> # side_by_side_loop max_x outs)"

definition SideBySideDisplayConfigurationPolicy :: "DisplayConfiguration \<Rightarrow> DisplayConfiguration" where
  "SideBySideDisplayConfigurationPolicy conf = conf\<lparr>outputs := side_by_side_loop 0 (outputs conf)\<rparr>"

fun single_loop :: "bool \<Rightarrow> DisplayConfigurationOutput list \<Rightarrow> DisplayConfigurationOutput list" where
  "single_loop finished [] = []"
| "single_loop finished (out # outs) =
     (if \<not> finished \<and> connected out \<and> length (modes out) > 0 then
        let index = select_mode_index (preferred_mode_index out) (modes out)
        in out\<lparr>used := True, out_top_left := mk_point 0 0, current_mode_index := uint32 index,
               power_mode := mir_power_mode_on\<rparr> # single_loop True outs
      else out\<lparr>used := False, power_mode := mir_power_mode_off\<rparr> # single_loop finished outs)"

definition SingleDisplayConfigurationPolicy :: "DisplayConfiguration \<Rightarrow> DisplayConfiguration" where
  "SingleDisplayConfigurationPolicy conf = conf\<lparr>outputs := single_loop False (outputs conf)\<rparr>"

section \<open>Grouping of overlapping outputs\<close>

type_synonym OverlappingOutputGroup = "DisplayConfigurationOutput list"

definition group_bounding_rectangle :: "OverlappingOutputGroup \<Rightarrow> Rectangle" where
  "group_bounding_rectangle grp = bounding_rectangle (fold (\<lambda>out rs. Rectangles_add rs (extents out)) grp [])"

text \<open>Insertion into the \<open>unordered_set\<close> that compares outputs by their id.\<close>

definition insert_output :: "DisplayConfigurationOutput \<Rightarrow> OverlappingOutputGroup \<Rightarrow> OverlappingOutputGroup" where
  "insert_output out grp = (if out_id out \<in> out_id ` set grp then grp else grp @ [out])"

definition joins :: "DisplayConfigurationOutput \<Rightarrow> DisplayConfigurationOutput \<Rightarrow> bool" where
  "joins conf_o conf_output \<longleftrightarrow>
     overlaps (extents conf_o) (extents conf_output) \<and> orientation conf_o = orientation conf_output"

definition group_overlaps :: "OverlappingOutputGroup \<Rightarrow> DisplayConfigurationOutput \<Rightarrow> bool" where
  "group_overlaps grp conf_output =
     fold (\<lambda>conf_o found. if joins conf_o conf_output then True else found) grp False"

text \<open>
  The overlapping groups are visited from the last to the first, so that erasing one does not move
  the others that are still to be visited.
\<close>

definition add_output ::
    "OverlappingOutputGroup list \<Rightarrow> DisplayConfigurationOutput \<Rightarrow> OverlappingOutputGroup list" where
  "add_output groups conf_output =
     (let overlapping = rev (filter (\<lambda>g. group_overlaps g conf_output) groups);
          rest = filter (\<lambda>g. \<not> group_overlaps g conf_output) groups
      in if overlapping \<noteq> []
         then rest @ [insert_output conf_output (fold (\<lambda>g new_group. fold insert_output g new_group) overlapping [])]
         else rest @ [[conf_output]])"

definition groupable :: "DisplayConfigurationOutput \<Rightarrow> bool" where
  "groupable out \<longleftrightarrow>
     connected out \<and> used out \<and> power_mode out = mir_power_mode_on \<and> current_mode_index out < length (modes out)"

definition OverlappingOutputGrouping :: "DisplayConfiguration \<Rightarrow> OverlappingOutputGroup list" where
  "OverlappingOutputGrouping conf =
     fold (\<lambda>out groups. if groupable out then add_output groups out else groups) (outputs conf) []"

section \<open>Placement on outputs\<close>

text \<open>The view areas of all display buffers, in the order of the sync groups.\<close>

definition get_output_for :: "Rectangle list \<Rightarrow> Rectangle \<Rightarrow> Rectangle" where
  "get_output_for view_areas rect =
     fst (fold (\<lambda>screen (best, max_area).
            let overlap = intersection_with rect screen;
                area = width (rect_size overlap) * height (rect_size overlap)
            in if area > max_area then (screen, area) else (best, max_area)) view_areas (rect, - 1))"

definition clip_to_output :: "Rectangle list \<Rightarrow> Rectangle \<Rightarrow> Rectangle" where
  "clip_to_output view_areas rect =
     (let out = get_output_for view_areas rect
      in if width (rect_size out) > 0 \<and> height (rect_size out) > 0 \<and>
            width (rect_size rect) > 0 \<and> height (rect_size rect) > 0
         then
           let tl_closed = confine (Rectangles_add [] out) (top_left rect);
               br_closed = confine (Rectangles_add [] out) (point_minus (bottom_right rect) (mk_disp 1 1))
           in rect\<lparr>top_left := tl_closed,
                   rect_size := as_size (disp_plus (point_diff br_closed tl_closed) (mk_disp 1 1))\<rparr>
         else rect\<lparr>rect_size := mk_size 0 0\<rparr>)"

definition size_to_output :: "Rectangle list \<Rightarrow> Rectangle \<Rightarrow> Rectangle" where
  "size_to_output view_areas rect = get_output_for view_areas rect"

definition place_in_output :: "DisplayConfiguration \<Rightarrow> int \<Rightarrow> Rectangle \<Rightarrow> bool \<times> Rectangle" where
  "place_in_output conf i rect =
     fold (\<lambda>out (placed, r).
            if out_id out = i \<and> current_mode_index out < length (modes out)
            then (True, r\<lparr>top_left := out_top_left out, rect_size := rect_size (extents out)\<rparr>)
            else (placed, r)) (outputs conf) (False, rect)"

section \<open>Properties of the policies\<close>

definition usable :: "DisplayConfigurationOutput \<Rightarrow> bool" where
  "usable out \<longleftrightarrow> connected out \<and> modes out \<noteq> []"

definition selected_mode :: "DisplayConfigurationOutput \<Rightarrow> nat" where
  "selected_mode out = (if preferred_mode_index out < length (modes out) then preferred_mode_index out else 0)"

lemma select_mode_index_usable:
  "modes out \<noteq> [] \<Longrightarrow> select_mode_index (preferred_mode_index out) (modes out) = selected_mode out"
  by (simp add: select_mode_index_def selected_mode_def)

lemma selected_mode_in_range: "modes out \<noteq> [] \<Longrightarrow> selected_mode out < length (modes out)"
  by (simp add: selected_mode_def)

text \<open>The index of an output is stored in 32 bits; the preferred one arrives in 32 bits.\<close>

definition index_fits :: "DisplayConfigurationOutput \<Rightarrow> bool" where
  "index_fits out \<longleftrightarrow> preferred_mode_index out < 2 ^ 32"

lemma uint32_selected: "index_fits out \<Longrightarrow> uint32 (selected_mode out) = selected_mode out"
  by (simp add: uint32_def index_fits_def selected_mode_def)

lemma select_opaque_format_in:
  "formats \<noteq> [] \<Longrightarrow> select_opaque_format format formats \<in> set formats"
  by (auto simp: select_opaque_format_def Let_def find_None_iff find_Some_iff split: option.split)

text \<open>
  \<open>select_opaque_format\<close> returns a supported format whenever there is one; an opaque one whenever
  an opaque one is supported; and the requested format itself whenever it is supported and is opaque
  or nothing supported is.
\<close>

theorem select_opaque_format_correct:
  "(if formats = [] then select_opaque_format format formats = mir_pixel_format_invalid
    else select_opaque_format format formats \<in> set formats) \<and>
   (contains_alpha (select_opaque_format format formats) \<and> formats \<noteq> [] \<longleftrightarrow>
      formats \<noteq> [] \<and> list_all contains_alpha formats) \<and>
   (format \<in> set formats \<and> (if contains_alpha format then list_all contains_alpha formats else True) \<longleftrightarrow>
      format \<in> set formats \<and> select_opaque_format format formats = format)"
proof (cases "formats = []")
  case False
  have "contains_alpha (select_opaque_format format formats) \<longleftrightarrow> list_all contains_alpha formats"
    using False select_opaque_format_in [OF False, of format]
    by (auto simp: select_opaque_format_def Let_def list_all_iff find_None_iff find_Some_iff split: option.splits)
  moreover have "select_opaque_format format formats = format"
    if "format \<in> set formats" "if contains_alpha format then list_all contains_alpha formats else True"
    using that
    by (auto simp: select_opaque_format_def list_all_iff find_None_iff find_Some_iff split: option.split if_splits)
  ultimately show ?thesis using False select_opaque_format_in [OF False, of format] by auto
qed (simp add: select_opaque_format_def)

lemma configuration_valid_iff: "configuration_valid conf \<longleftrightarrow> (\<forall>out \<in> set (outputs conf). output_valid out)"
proof -
  have "fold (\<lambda>out ok. if \<not> output_valid out then False else ok) outs b = (b \<and> (\<forall>out \<in> set outs. output_valid out))"
    for outs b by (induction outs arbitrary: b) auto
  then show ?thesis by (simp add: configuration_valid_def)
qed

text \<open>
  The clone policy uses exactly the connected outputs that have a mode, all at the origin and
  powered on; the configuration it makes is valid if every connected output has a mode and a pixel
  format.
\<close>

theorem clone_policy_correct:
  assumes "\<forall>out \<in> set (outputs conf). index_fits out"
    and conf': "conf' = CloneDisplayConfigurationPolicy conf"
  shows "length (outputs conf') = length (outputs conf) \<and>
         (\<forall>i < length (outputs conf).
            used (outputs conf' ! i) = usable (outputs conf ! i) \<and>
            power_mode (outputs conf' ! i) = mir_power_mode_on \<and>
            (usable (outputs conf ! i) \<longrightarrow>
               extents (outputs conf' ! i) =
                 mk_rect (mk_point 0 0) (mode_size (modes (outputs conf ! i) ! selected_mode (outputs conf ! i))))) \<and>
         ((\<forall>out \<in> set (outputs conf). connected out \<longrightarrow> modes out \<noteq> [] \<and> pixel_formats out \<noteq> []) \<longrightarrow>
            configuration_valid conf')"
proof -
  have fits: "uint32 (selected_mode out) = selected_mode out" if "out \<in> set (outputs conf)" for out
    using assms(1) that uint32_selected by blast
  have "extents (clone_output out) = mk_rect (mk_point 0 0) (mode_size (modes out ! selected_mode out))"
    if "usable out" "out \<in> set (outputs conf)" for out
    using that fits selected_mode_in_range [of out]
    by (simp add: clone_output_def usable_def select_mode_index_usable Let_def extents_def extents_of_def)
  moreover have "used (clone_output out) = usable out \<and> power_mode (clone_output out) = mir_power_mode_on" for out
    by (simp add: clone_output_def usable_def Let_def)
  moreover have "output_valid (clone_output out)"
    if "out \<in> set (outputs conf)" "connected out \<longrightarrow> modes out \<noteq> [] \<and> pixel_formats out \<noteq> []" for out
    using that fits selected_mode_in_range [of out] select_opaque_format_in [of "pixel_formats out" "current_format out"]
    by (auto simp: clone_output_def output_valid_def select_mode_index_usable Let_def)
  ultimately show ?thesis
    by (simp add: conf' CloneDisplayConfigurationPolicy_def configuration_valid_iff)
qed

lemma side_by_side_length: "length (side_by_side_loop x outs) = length outs"
  by (induction x outs rule: side_by_side_loop.induct) (simp_all add: Let_def)

text \<open>The position of an output in the row: the widths of the usable outputs before it.\<close>

definition row_offset :: "DisplayConfigurationOutput list \<Rightarrow> nat \<Rightarrow> int" where
  "row_offset outs i =
     sum_list (map (\<lambda>out. width (mode_size (modes out ! selected_mode out))) (filter usable (take i outs)))"

lemma side_by_side_nth:
  assumes "i < length outs" "\<forall>out \<in> set outs. index_fits out"
  shows "if usable (outs ! i)
         then used (side_by_side_loop x outs ! i) \<and> power_mode (side_by_side_loop x outs ! i) = mir_power_mode_on \<and>
              extents (side_by_side_loop x outs ! i) =
                mk_rect (mk_point (x + row_offset outs i) 0)
                  (mode_size (modes (outs ! i) ! selected_mode (outs ! i)))
         else \<not> used (side_by_side_loop x outs ! i) \<and> power_mode (side_by_side_loop x outs ! i) = mir_power_mode_off"
  using assms
proof (induction outs arbitrary: x i)
  case (Cons out outs)
  have m: "usable out \<Longrightarrow> select_mode_index (preferred_mode_index out) (modes out) = selected_mode out"
    "usable out \<Longrightarrow> selected_mode out < length (modes out)"
    by (simp_all add: usable_def select_mode_index_usable selected_mode_in_range)
  have u: "connected out \<and> modes out \<noteq> [] \<longleftrightarrow> usable out" by (simp add: usable_def)
  show ?case
  proof (cases i)
    case 0
    then show ?thesis
      using m Cons.prems uint32_selected [of out]
      by (cases "usable out") (simp_all add: u Let_def extents_def extents_of_def row_offset_def)
  next
    case (Suc j)
    then have j: "j < length outs" "\<forall>out \<in> set outs. index_fits out" using Cons.prems by auto
    show ?thesis
    proof (cases "usable out")
      case True
      from Cons.IH [OF j, of "x + width (mode_size (modes out ! selected_mode out))"] True Suc m(1) show ?thesis
        by (simp add: u Let_def row_offset_def algebra_simps)
    next
      case False
      from Cons.IH [OF j, of x] False Suc show ?thesis by (simp add: u Let_def row_offset_def)
    qed
  qed
qed simp

lemma row_offset_mono:
  assumes "i < j" "j < length outs" "usable (outs ! i)"
    "\<forall>out \<in> set outs. \<forall>m \<in> set (modes out). 0 \<le> width (mode_size m)"
  shows "row_offset outs i + width (mode_size (modes (outs ! i) ! selected_mode (outs ! i))) \<le> row_offset outs j"
proof -
  define rest where "rest = take (j - Suc i) (drop (Suc i) outs)"
  have "j = i + (Suc 0 + (j - Suc i))" using assms(1) by simp
  then have "take j outs = take i outs @ [outs ! i] @ rest"
    using assms(1,2) unfolding rest_def
    by (metis (no_types, lifting) Cons_nth_drop_Suc One_nat_def append_Cons append_Nil order.strict_trans take_Suc_Cons take_add
        plus_1_eq_Suc)
  then have "row_offset outs j = row_offset outs i + width (mode_size (modes (outs ! i) ! selected_mode (outs ! i))) +
      sum_list (map (\<lambda>out. width (mode_size (modes out ! selected_mode out))) (filter usable rest))"
    using assms(3) by (simp add: row_offset_def)
  moreover have "0 \<le> width (mode_size (modes out ! selected_mode out))" if "out \<in> set (filter usable rest)" for out
  proof -
    have "out \<in> set outs" using that unfolding rest_def by (auto dest: in_set_takeD in_set_dropD)
    moreover have "selected_mode out < length (modes out)" using that by (simp add: usable_def selected_mode_in_range)
    ultimately show ?thesis using assms(4) nth_mem by blast
  qed
  then have "0 \<le> sum_list (map (\<lambda>out. width (mode_size (modes out ! selected_mode out))) (filter usable rest))"
    by (intro sum_list_nonneg) auto
  ultimately show ?thesis by simp
qed

text \<open>
  The side-by-side policy uses exactly the connected outputs that have a mode and lays them out in
  a row from left to right: each begins where the widths of the earlier ones end, so that no two
  outputs in use overlap, provided no mode has a negative width.
\<close>

theorem side_by_side_correct:
  assumes fits: "\<forall>out \<in> set (outputs conf). index_fits out"
    and nonneg: "\<forall>out \<in> set (outputs conf). \<forall>m \<in> set (modes out). 0 \<le> width (mode_size m)"
    and outs': "outs' = outputs (SideBySideDisplayConfigurationPolicy conf)"
  shows "length outs' = length (outputs conf) \<and>
         (\<forall>i < length outs'. used (outs' ! i) = usable (outputs conf ! i)) \<and>
         (\<forall>i < length outs'. used (outs' ! i) \<longrightarrow>
            extents (outs' ! i) =
              mk_rect (mk_point (row_offset (outputs conf) i) 0)
                (mode_size (modes (outputs conf ! i) ! selected_mode (outputs conf ! i)))) \<and>
         (\<forall>i j. i < j \<and> j < length outs' \<and> used (outs' ! i) \<and> used (outs' ! j) \<longrightarrow>
            \<not> overlaps (extents (outs' ! i)) (extents (outs' ! j)))"
proof -
  let ?outs = "outputs conf"
  have outs: "outs' = side_by_side_loop 0 ?outs" by (simp add: outs' SideBySideDisplayConfigurationPolicy_def)
  have len: "length outs' = length ?outs" by (simp add: outs side_by_side_length)
  have u: "used (outs' ! i) = usable (?outs ! i)" if "i < length ?outs" for i
    using side_by_side_nth [OF that fits, of 0] by (auto simp: outs split: if_splits)
  have e: "extents (outs' ! i) = mk_rect (mk_point (row_offset ?outs i) 0)
      (mode_size (modes (?outs ! i) ! selected_mode (?outs ! i)))" if "i < length ?outs" "usable (?outs ! i)" for i
    using side_by_side_nth [OF that(1) fits, of 0] that(2) by (simp add: outs)
  have "\<not> overlaps (extents (outs' ! i)) (extents (outs' ! j))"
    if ij: "i < j" "j < length outs'" "used (outs' ! i)" "used (outs' ! j)" for i j
  proof -
    have "i < length ?outs" "j < length ?outs" using ij len by auto
    with ij u have "usable (?outs ! i)" "usable (?outs ! j)" by simp_all
    with row_offset_mono [OF ij(1) _ _ nonneg] e [of i] e [of j] ij len show ?thesis by (auto simp: overlaps_def)
  qed
  then have "\<forall>i j. i < j \<and> j < length outs' \<and> used (outs' ! i) \<and> used (outs' ! j) \<longrightarrow>
      \<not> overlaps (extents (outs' ! i)) (extents (outs' ! j))" by blast
  moreover have "\<forall>i < length outs'. used (outs' ! i) = usable (?outs ! i)" using len u by simp
  moreover have "\<forall>i < length outs'. used (outs' ! i) \<longrightarrow>
      extents (outs' ! i) = mk_rect (mk_point (row_offset ?outs i) 0)
        (mode_size (modes (?outs ! i) ! selected_mode (?outs ! i)))" using len u e by simp
  ultimately show ?thesis using len by blast
qed

lemma single_loop_finished: "single_loop True outs = map (\<lambda>out. out\<lparr>used := False, power_mode := mir_power_mode_off\<rparr>) outs"
  by (induction outs) simp_all

lemma single_loop_length: "length (single_loop b outs) = length outs"
  by (induction b outs rule: single_loop.induct) (simp_all add: Let_def)

text \<open>
  The single-display policy uses the first connected output that has a mode and no other one; the
  outputs not in use are powered off.
\<close>

theorem single_policy_correct:
  assumes "i < length (outputs conf)"
  shows "used (outputs (SingleDisplayConfigurationPolicy conf) ! i) =
           (usable (outputs conf ! i) \<and> \<not> list_ex usable (take i (outputs conf))) \<and>
         power_mode (outputs (SingleDisplayConfigurationPolicy conf) ! i) =
           (if used (outputs (SingleDisplayConfigurationPolicy conf) ! i) then mir_power_mode_on else mir_power_mode_off)"
proof -
  have "used (single_loop False outs ! i) = (usable (outs ! i) \<and> \<not> list_ex usable (take i outs)) \<and>
        power_mode (single_loop False outs ! i) =
          (if used (single_loop False outs ! i) then mir_power_mode_on else mir_power_mode_off)"
    if "i < length outs" for outs
    using that
  proof (induction outs arbitrary: i)
    case (Cons out outs)
    have u: "connected out \<and> modes out \<noteq> [] \<longleftrightarrow> usable out" by (simp add: usable_def)
    show ?case
      using Cons by (cases i; cases "usable out") (simp_all add: u Let_def single_loop_finished)
  qed simp
  then show ?thesis using assms by (simp add: SingleDisplayConfigurationPolicy_def)
qed

text \<open>
  \<open>operator==\<close> on outputs does not look at the power mode, the pixel format, the gamma curves, the
  subpixel arrangement, the pixel formats or the EDID, so two configurations that differ only there
  compare equal; \<open>nested/display.cpp\<close> drops such a configuration of its initial policy.
\<close>

theorem configuration_eq_ignores:
  "configuration_eq conf
     (conf\<lparr>outputs := map (\<lambda>out. out\<lparr>power_mode := p out, current_format := f out, gamma := g out,
                                     subpixel_arrangement := s out\<rparr>) (outputs conf)\<rparr>)"
proof -
  have "output_eq out (out\<lparr>power_mode := p out, current_format := f out, gamma := g out, subpixel_arrangement := s out\<rparr>)" for out
    by (simp add: output_eq_def mode_eq_def list_all2_same)
  then show ?thesis by (simp add: configuration_eq_def card_eq_def list_all2_map2 list_all2_same)
qed

section \<open>Groups are connected components\<close>

text \<open>The relation whose components the groups are, on the outputs seen so far.\<close>

definition joined :: "DisplayConfigurationOutput set \<Rightarrow> (DisplayConfigurationOutput \<times> DisplayConfigurationOutput) set" where
  "joined S = {(a, b). a \<in> S \<and> b \<in> S \<and> joins a b}"

definition groups_inv :: "DisplayConfigurationOutput list \<Rightarrow> OverlappingOutputGroup list \<Rightarrow> bool" where
  "groups_inv seen gs \<longleftrightarrow>
     mset (concat gs) = mset seen \<and>
     (\<forall>g \<in> set gs. \<forall>a \<in> set g. \<forall>b \<in> set g. (a, b) \<in> (joined (set seen))\<^sup>*) \<and>
     (\<forall>g \<in> set gs. \<forall>a \<in> set g. \<forall>b \<in> set seen. joins a b \<longrightarrow> b \<in> set g)"

lemma joins_sym: "joins a b \<longleftrightarrow> joins b a"
  by (auto simp: joins_def overlaps_def)

lemma joined_mono: "S \<subseteq> T \<Longrightarrow> (joined S)\<^sup>* \<subseteq> (joined T)\<^sup>*"
  by (rule rtrancl_mono) (auto simp: joined_def)

lemma joined_sym: "(a, b) \<in> (joined S)\<^sup>* \<Longrightarrow> (b, a) \<in> (joined S)\<^sup>*"
proof -
  have "sym (joined S)" using joins_sym by (auto simp: joined_def sym_def)
  then show "(a, b) \<in> (joined S)\<^sup>* \<Longrightarrow> (b, a) \<in> (joined S)\<^sup>*" by (metis sym_rtrancl symD)
qed

lemma group_overlaps_iff: "group_overlaps g out \<longleftrightarrow> (\<exists>a \<in> set g. joins a out)"
proof -
  have "fold (\<lambda>a found. if joins a out then True else found) g b = (b \<or> (\<exists>a \<in> set g. joins a out))" for b
    by (induction g arbitrary: b) auto
  then show ?thesis by (simp add: group_overlaps_def)
qed

lemma fold_insert_output:
  assumes "distinct (map out_id (acc @ g))"
  shows "fold insert_output g acc = acc @ g"
  using assms by (induction g arbitrary: acc) (auto simp: insert_output_def)

lemma fold_insert_groups:
  assumes "distinct (map out_id (acc @ concat gs))"
  shows "fold (\<lambda>g new_group. fold insert_output g new_group) gs acc = acc @ concat gs"
  using assms
proof (induction gs arbitrary: acc)
  case (Cons g gs)
  then have "distinct (map out_id (acc @ g))" by auto
  then have "fold insert_output g acc = acc @ g" by (rule fold_insert_output)
  with Cons.IH [of "acc @ g"] Cons.prems show ?case by (auto simp: Int_Un_distrib)
qed simp

lemma mset_concat_rev: "mset (concat (rev xs)) = mset (concat xs)"
  by (induction xs) simp_all

lemma distinct_concat_filter:
  "distinct (map f (concat gs)) \<Longrightarrow> distinct (map f (concat (rev (filter P gs))))"
proof -
  assume d: "distinct (map f (concat gs))"
  have "mset (map f (concat (rev (filter P gs)))) = mset (map f (concat (filter P gs)))"
    by (simp only: mset_map mset_concat_rev)
  moreover have "distinct (map f (concat (filter P gs)))" using d by (induction gs) auto
  ultimately show ?thesis by (metis mset_eq_imp_distinct_iff)
qed

text \<open>With distinct ids nothing is lost when groups are united.\<close>

lemma add_output_eq:
  assumes "distinct (map out_id (out # concat gs))"
  shows "add_output gs out =
           filter (\<lambda>g. \<not> group_overlaps g out) gs @
           [concat (rev (filter (\<lambda>g. group_overlaps g out) gs)) @ [out]]"
proof -
  let ?ov = "rev (filter (\<lambda>g. group_overlaps g out) gs)"
  have d: "distinct (map out_id (concat ?ov))" "set (concat ?ov) \<subseteq> set (concat gs)"
    using assms distinct_concat_filter [of out_id gs "\<lambda>g. group_overlaps g out"] by auto
  then have f: "fold (\<lambda>g new_group. fold insert_output g new_group) ?ov [] = concat ?ov"
    using fold_insert_groups [of "[]" ?ov] by simp
  moreover have "out_id out \<notin> out_id ` set (concat ?ov)" using assms d(2) by auto
  ultimately show ?thesis by (simp add: add_output_def Let_def insert_output_def)
qed

lemma mset_concat_partition:
  "mset (concat (filter (\<lambda>g. \<not> P g) gs)) + mset (concat (filter P gs)) = mset (concat gs)"
  by (induction gs) auto

lemma add_output_inv:
  assumes inv: "groups_inv seen gs" and d: "distinct (map out_id (seen @ [out]))"
  shows "groups_inv (seen @ [out]) (add_output gs out)"
proof -
  have m: "mset (concat gs) = mset seen" using inv by (simp add: groups_inv_def)
  then have s: "set (concat gs) = set seen" by (metis set_mset_mset)
  have "mset (map out_id (out # concat gs)) = mset (map out_id (seen @ [out]))" using m by simp
  then have "distinct (map out_id (out # concat gs))" using d by (metis mset_eq_imp_distinct_iff)
  then have eq: "add_output gs out = filter (\<lambda>g. \<not> group_overlaps g out) gs @
           [concat (rev (filter (\<lambda>g. group_overlaps g out) gs)) @ [out]]" (is "_ = ?rest @ [?new]")
    by (rule add_output_eq)
  let ?R = "(joined (set (seen @ [out])))\<^sup>*"
  have mono: "(a, b) \<in> ?R" if "(a, b) \<in> (joined (set seen))\<^sup>*" for a b
    using joined_mono [of "set seen" "set (seen @ [out])"] that by auto
  have to_out: "(a, out) \<in> ?R" if a: "a \<in> set ?new" for a
  proof (cases "a = out")
    case False
    then obtain g where g: "g \<in> set gs" "group_overlaps g out" "a \<in> set g" using a by auto
    then obtain c where c: "c \<in> set g" "joins c out" by (auto simp: group_overlaps_iff)
    have "(a, c) \<in> ?R" using inv g c unfolding groups_inv_def by (blast intro: mono)
    moreover have "(c, out) \<in> joined (set (seen @ [out]))" using c g s by (auto simp: joined_def)
    ultimately show ?thesis by (rule rtrancl.rtrancl_into_rtrancl)
  qed simp
  have mset: "mset (concat (?rest @ [?new])) = mset (seen @ [out])"
  proof -
    have "mset (concat (?rest @ [?new])) =
        (mset (concat ?rest) + mset (concat (filter (\<lambda>g. group_overlaps g out) gs))) + mset [out]"
      by (simp only: concat_append concat.simps mset_append mset_concat_rev append_Nil2 union_assoc)
    also have "\<dots> = mset seen + mset [out]" by (simp only: mset_concat_partition m)
    finally show ?thesis by simp
  qed
  have conn: "(a, b) \<in> ?R" if "g \<in> set (?rest @ [?new])" "a \<in> set g" "b \<in> set g" for g a b
  proof (cases "g = ?new")
    case True
    then have "(a, out) \<in> ?R" "(out, b) \<in> ?R" using that to_out joined_sym by blast+
    then show ?thesis by (rule rtrancl_trans)
  next
    case False
    then have "g \<in> set gs" using that by auto
    with inv that show ?thesis unfolding groups_inv_def by (blast intro: mono)
  qed
  have edge: "b \<in> set g" if g: "g \<in> set (?rest @ [?new])" "a \<in> set g" "b \<in> set (seen @ [out])" "joins a b" for g a b
  proof (cases "g = ?new")
    case True
    consider "b = out" | h where "b \<in> set seen" "h \<in> set gs" "group_overlaps h out" "a \<in> set h" | "b \<in> set seen" "a = out"
      using g True by auto
    then show ?thesis
    proof cases
      case 2
      then have "b \<in> set h" using inv g(4) by (auto simp: groups_inv_def)
      with 2 True show ?thesis by auto
    next
      case 3
      then obtain h where "h \<in> set gs" "b \<in> set h" using s by auto
      moreover have "joins b out" using g(4) 3 joins_sym by blast
      ultimately show ?thesis using True by (auto simp: group_overlaps_iff)
    qed (use True in simp)
  next
    case False
    then have h: "g \<in> set gs" "\<not> group_overlaps g out" using g(1) by auto
    then have "b \<noteq> out" using g(2,4) by (auto simp: group_overlaps_iff)
    then have "b \<in> set seen" using g(3) by simp
    with inv h(1) g(2,4) show ?thesis unfolding groups_inv_def by blast
  qed
  show ?thesis unfolding groups_inv_def eq using mset conn edge by blast
qed

lemma grouping_fold_inv:
  assumes "groups_inv seen gs" "distinct (map out_id (seen @ filter groupable outs))"
  shows "groups_inv (seen @ filter groupable outs)
           (fold (\<lambda>out groups. if groupable out then add_output groups out else groups) outs gs)"
  using assms
proof (induction outs arbitrary: seen gs)
  case (Cons out outs)
  show ?case
  proof (cases "groupable out")
    case True
    then have "groups_inv (seen @ [out]) (add_output gs out)" using Cons.prems by (intro add_output_inv) auto
    with Cons.IH [of "seen @ [out]" "add_output gs out"] Cons.prems True show ?thesis by simp
  qed (use Cons in simp)
qed simp

lemma groups_inv_component:
  assumes inv: "groups_inv seen gs" and a: "g \<in> set gs" "a \<in> set g" and r: "(a, b) \<in> (joined (set seen))\<^sup>*"
  shows "b \<in> set g"
  using r
proof (induction rule: rtrancl_induct)
  case (step b c)
  then show ?case using inv a(1) by (auto simp: joined_def groups_inv_def)
qed (rule a(2))

text \<open>
  C40: for outputs with distinct ids, the grouping puts every connected, used, powered output with a
  current mode into exactly one group, and two of them are in the same group exactly when a chain of
  such outputs links them in which neighbours overlap and have the same orientation.
\<close>

theorem grouping_correct:
  assumes d: "distinct (map out_id (outputs conf))"
  shows "mset (concat (OverlappingOutputGrouping conf)) = mset (filter groupable (outputs conf)) \<and>
         (\<forall>a b. a \<in> set (outputs conf) \<and> groupable a \<longrightarrow>
            ((\<exists>g. g \<in> set (OverlappingOutputGrouping conf) \<and> a \<in> set g \<and> b \<in> set g) \<longleftrightarrow>
             (a, b) \<in> {(x, y). {x, y} \<subseteq> {out \<in> set (outputs conf). groupable out} \<and>
                                overlaps (extents x) (extents y) \<and> orientation x = orientation y}\<^sup>*))"
proof -
  let ?seen = "filter groupable (outputs conf)" and ?gs = "OverlappingOutputGrouping conf"
  have "groups_inv [] []" by (simp add: groups_inv_def)
  moreover have "distinct (map out_id ([] @ ?seen))" using d by (simp add: distinct_map_filter)
  ultimately have "groups_inv ([] @ ?seen) ?gs" unfolding OverlappingOutputGrouping_def by (rule grouping_fold_inv)
  then have inv: "groups_inv ?seen ?gs" by simp
  have rel: "{(x, y). {x, y} \<subseteq> {out \<in> set (outputs conf). groupable out} \<and>
      overlaps (extents x) (extents y) \<and> orientation x = orientation y} = joined (set ?seen)"
    by (auto simp: joined_def joins_def)
  have m: "mset (concat ?gs) = mset ?seen" using inv by (simp add: groups_inv_def)
  then have s: "set (concat ?gs) = set ?seen" by (metis set_mset_mset)
  have "(\<exists>g. g \<in> set ?gs \<and> a \<in> set g \<and> b \<in> set g) \<longleftrightarrow> (a, b) \<in> (joined (set ?seen))\<^sup>*" if "a \<in> set ?seen" for a b
  proof
    assume "\<exists>g. g \<in> set ?gs \<and> a \<in> set g \<and> b \<in> set g"
    then show "(a, b) \<in> (joined (set ?seen))\<^sup>*" using inv by (auto simp: groups_inv_def)
  next
    assume r: "(a, b) \<in> (joined (set ?seen))\<^sup>*"
    have "a \<in> set (concat ?gs)" using that unfolding s .
    then obtain g where "g \<in> set ?gs" "a \<in> set g" by auto
    with groups_inv_component [OF inv _ _ r] show "\<exists>g. g \<in> set ?gs \<and> a \<in> set g \<and> b \<in> set g" by blast
  qed
  with m show ?thesis unfolding rel by simp
qed

section \<open>Placement\<close>

definition overlap_area :: "Rectangle \<Rightarrow> Rectangle \<Rightarrow> int" where
  "overlap_area rect screen = width (rect_size (intersection_with rect screen)) * height (rect_size (intersection_with rect screen))"

lemma overlap_area_nonneg: "0 \<le> overlap_area rect screen"
  using intersection_nonneg [of rect screen] by (simp add: overlap_area_def rect_nonneg_def)

lemma get_output_fold:
  "\<exists>best' area'. fold (\<lambda>screen (best, max_area).
            let overlap = intersection_with rect screen;
                area = width (rect_size overlap) * height (rect_size overlap)
            in if area > max_area then (screen, area) else (best, max_area)) screens (best, area) = (best', area') \<and>
     area \<le> area' \<and> (\<forall>s \<in> set screens. overlap_area rect s \<le> area') \<and>
     (area' = area \<and> best' = best \<or> best' \<in> set screens \<and> overlap_area rect best' = area')"
proof (induction screens arbitrary: best area)
  case (Cons s screens)
  show ?case
    using Cons.IH [of s "overlap_area rect s"] Cons.IH [of best area]
    by (auto simp: Let_def overlap_area_def [symmetric])
qed simp

lemma get_output_for_best:
  assumes "screens \<noteq> []"
  shows "get_output_for screens rect \<in> set screens \<and>
         (\<forall>s \<in> set screens. overlap_area rect s \<le> overlap_area rect (get_output_for screens rect))"
proof -
  obtain best area where f: "fold (\<lambda>screen (best, max_area).
            let overlap = intersection_with rect screen;
                area = width (rect_size overlap) * height (rect_size overlap)
            in if area > max_area then (screen, area) else (best, max_area)) screens (rect, - 1) = (best, area)"
    and m: "\<forall>s \<in> set screens. overlap_area rect s \<le> area"
    and b: "area = - 1 \<and> best = rect \<or> best \<in> set screens \<and> overlap_area rect best = area"
    using get_output_fold [of rect screens rect "- 1"] by blast
  obtain s where "s \<in> set screens" using assms by (meson list.set_sel(1))
  then have "area \<noteq> - 1" using m overlap_area_nonneg [of rect s] by force
  with b m f show ?thesis by (simp add: get_output_for_def)
qed

text \<open>Rectangles well inside the range of \<open>int\<close>, as those of a desktop are.\<close>

definition on_desktop :: "Rectangle \<Rightarrow> bool" where
  "on_desktop r \<longleftrightarrow> 0 < width (rect_size r) \<and> 0 < height (rect_size r) \<and>
     - (2 ^ 29) \<le> rect_left r \<and> rect_right r \<le> 2 ^ 29 \<and> - (2 ^ 29) \<le> rect_top r \<and> rect_bottom r \<le> 2 ^ 29"

lemma confine_single:
  assumes "on_desktop out" "\<bar>pt_x p\<bar> \<le> 2 ^ 29" "\<bar>pt_y p\<bar> \<le> 2 ^ 29"
  shows "confine [out] p = confined_to out p"
proof (cases "p \<in> points_of out")
  case True
  then have "confined_to out p = p"
    by (cases p) (auto simp: confined_to_def points_of_def clamp_def bottom_right_eq Let_def rect_left_def rect_top_def)
  with True show ?thesis by (simp add: confine_def confine_loop_inside del: confine_loop.simps)
next
  case False
  have pos: "0 < width (rect_size out)" "0 < height (rect_size out)" using assms(1) by (simp_all add: on_desktop_def)
  let ?c = "confined_to out p"
  have "?c \<in> points_of out" by (rule confined_to_inside [OF pos])
  then have "\<bar>pt_x ?c - pt_x p\<bar> \<le> 2 ^ 30" "\<bar>pt_y ?c - pt_y p\<bar> \<le> 2 ^ 30"
    using assms unfolding points_of_def on_desktop_def by auto
  then have "(pt_x ?c - pt_x p) * (pt_x ?c - pt_x p) \<le> 2 ^ 30 * 2 ^ 30" "(pt_y ?c - pt_y p) * (pt_y ?c - pt_y p) \<le> 2 ^ 30 * 2 ^ 30"
    using abs_le_square [of "pt_x ?c - pt_x p" "2 ^ 30"] abs_le_square [of "pt_y ?c - pt_y p" "2 ^ 30"] by simp_all
  then have "dist2 ?c p < length_squared (mk_disp INT_MAX INT_MAX)"
    by (simp add: length_squared_def point_diff_def INT_MAX_def)
  then show ?thesis
    using False pos by (simp add: confine_def confine_loop_outside points_of_nonempty_iff)
qed

lemma clip_corners:
  assumes out: "on_desktop out" and rect: "on_desktop rect" and g: "get_output_for screens rect = out"
  shows "clip_to_output screens rect =
     (let x = clamp (rect_left rect) (rect_left out) (rect_right out - 1);
          y = clamp (rect_top rect) (rect_top out) (rect_bottom out - 1);
          x' = clamp (rect_right rect - 1) (rect_left out) (rect_right out - 1);
          y' = clamp (rect_bottom rect - 1) (rect_top out) (rect_bottom out - 1)
      in mk_rect (mk_point x y) (mk_size (x' - x + 1) (y' - y + 1)))"
proof -
  have pos: "0 < width (rect_size out)" "0 < height (rect_size out)" "0 < width (rect_size rect)" "0 < height (rect_size rect)"
    using out rect by (simp_all add: on_desktop_def)
  have "confine [out] (top_left rect) = confined_to out (top_left rect)"
    using rect by (intro confine_single [OF out]) (auto simp: on_desktop_def rect_left_def rect_top_def)
  moreover have "confine [out] (point_minus (bottom_right rect) (mk_disp 1 1)) =
      confined_to out (point_minus (bottom_right rect) (mk_disp 1 1))"
    using rect by (intro confine_single [OF out]) (auto simp: on_desktop_def point_minus_def bottom_right_eq)
  ultimately show ?thesis
    using pos g
    by (cases rect) (simp add: clip_to_output_def Rectangles_add_def confined_to_def bottom_right_eq point_minus_def
        point_diff_def disp_plus_def as_size_def top_left_eq Let_def)
qed

text \<open>
  A window is clipped to the screen it overlaps most.  The clipped window is not empty and lies
  within that screen, and it is exactly the part of the window on the screen if they overlap at all.
\<close>

theorem clip_to_output_correct:
  assumes "screens \<noteq> []" "\<forall>s \<in> set screens. on_desktop s" "on_desktop rect"
    and out: "out = get_output_for screens rect" and clip: "clip = clip_to_output screens rect"
  shows "out \<in> set screens \<and> (\<forall>s \<in> set screens. overlap_area rect s \<le> overlap_area rect out) \<and>
         points_of clip \<noteq> {} \<and> points_of clip \<subseteq> points_of out \<and>
         (overlaps rect out \<longrightarrow> clip = intersection_with rect out)"
proof -
  have b: "out \<in> set screens \<and> (\<forall>s \<in> set screens. overlap_area rect s \<le> overlap_area rect out)"
    unfolding out by (rule get_output_for_best [OF assms(1)])
  then have d: "on_desktop out" using assms(2) by blast
  have c: "clip = (let x = clamp (rect_left rect) (rect_left out) (rect_right out - 1);
          y = clamp (rect_top rect) (rect_top out) (rect_bottom out - 1);
          x' = clamp (rect_right rect - 1) (rect_left out) (rect_right out - 1);
          y' = clamp (rect_bottom rect - 1) (rect_top out) (rect_bottom out - 1)
      in mk_rect (mk_point x y) (mk_size (x' - x + 1) (y' - y + 1)))"
    unfolding clip by (rule clip_corners [OF d assms(3) out [symmetric]])
  have pos: "0 < width (rect_size out)" "0 < height (rect_size out)" "0 < width (rect_size rect)" "0 < height (rect_size rect)"
    using d assms(3) by (simp_all add: on_desktop_def)
  have "points_of clip \<noteq> {}"
    using pos by (auto simp: points_of_nonempty_iff c Let_def clamp_def)
  moreover have "points_of clip \<subseteq> points_of out"
    using pos by (auto simp: points_of_def c Let_def clamp_def)
  moreover have "clip = intersection_with rect out" if "overlaps rect out"
    using that pos by (auto simp: c overlaps_def intersection_with_def Let_def clamp_def)
  ultimately show ?thesis using b by blast
qed

section \<open>A concrete configuration\<close>

definition sample_output :: "int \<Rightarrow> int \<Rightarrow> DisplayConfigurationOutput" where
  "sample_output i x =
     \<lparr>out_id = i, card_id = 0, out_type = 0, pixel_formats = [1, 2],
      modes = [\<lparr>mode_size = mk_size 8 6, vrefresh_hz = 60\<rparr>], preferred_mode_index = 0,
      physical_size_mm = mk_size 30 20, connected = True, used = True, out_top_left = mk_point x 0,
      current_mode_index = 0, current_format = 1, power_mode = mir_power_mode_on,
      orientation = mir_orientation_normal, scale = 1, form_factor = 0, subpixel_arrangement = 0,
      gamma = ([], [], []), gamma_supported = 0, edid = []\<rparr>"

definition sample_configuration :: DisplayConfiguration where
  "sample_configuration = \<lparr>cards = [], outputs = [sample_output 1 0, sample_output 2 5, sample_output 3 20]\<rparr>"

lemma sample_outputs:
  "outputs sample_configuration = [sample_output 1 0, sample_output 2 5, sample_output 3 20]"
  by (simp add: sample_configuration_def)

lemma sample_output_facts [simp]:
  "index_fits (sample_output i x)" "usable (sample_output i x)" "groupable (sample_output i x)"
  "modes (sample_output i x) = [\<lparr>mode_size = mk_size 8 6, vrefresh_hz = 60\<rparr>]" "selected_mode (sample_output i x) = 0"
  "connected (sample_output i x)" "pixel_formats (sample_output i x) = [1, 2]" "out_id (sample_output i x) = i"
  "sample_output i x = sample_output j y \<longleftrightarrow> i = j \<and> x = y"
  "joins (sample_output i x) (sample_output j y) \<longleftrightarrow> \<bar>x - y\<bar> < 8"
  by (auto simp: sample_output_def index_fits_def usable_def groupable_def selected_mode_def joins_def extents_def
      extents_of_def overlaps_def)

theorem clone_policy_correct_witness: "configuration_valid (CloneDisplayConfigurationPolicy sample_configuration)"
  using clone_policy_correct [of sample_configuration, OF _ refl] by (simp add: sample_outputs)

theorem side_by_side_correct_witness:
  "extents (outputs (SideBySideDisplayConfigurationPolicy sample_configuration) ! 2) =
     mk_rect (mk_point 16 0) (mk_size 8 6)"
  using side_by_side_correct [of sample_configuration, OF _ _ refl]
  by (auto simp: sample_outputs row_offset_def numeral_2_eq_2)

theorem single_policy_correct_witness:
  "used (outputs (SingleDisplayConfigurationPolicy sample_configuration) ! 0) \<and>
   \<not> used (outputs (SingleDisplayConfigurationPolicy sample_configuration) ! 1)"
  using single_policy_correct [of 0 sample_configuration] single_policy_correct [of 1 sample_configuration]
  by (simp add: sample_outputs)

theorem grouping_correct_witness:
  "\<exists>g. g \<in> set (OverlappingOutputGrouping sample_configuration) \<and> sample_output 1 0 \<in> set g \<and> sample_output 2 5 \<in> set g"
proof -
  have "(sample_output 1 0, sample_output 2 5) \<in>
      {(x, y). {x, y} \<subseteq> {out \<in> set (outputs sample_configuration). groupable out} \<and>
         overlaps (extents x) (extents y) \<and> orientation x = orientation y}\<^sup>*"
    by (rule r_into_rtrancl) (simp add: sample_outputs flip: joins_def)
  then show ?thesis
    using grouping_correct [of sample_configuration] by (simp add: sample_outputs)
qed

theorem clip_to_output_correct_witness:
  "clip_to_output [mk_rect (mk_point 0 0) (mk_size 10 10)] (mk_rect (mk_point 5 5) (mk_size 20 20)) =
     mk_rect (mk_point 5 5) (mk_size 5 5)"
proof -
  let ?s = "mk_rect (mk_point 0 0) (mk_size 10 10)" and ?r = "mk_rect (mk_point 5 5) (mk_size 20 20)"
  have "on_desktop ?s" "on_desktop ?r" by (simp_all add: on_desktop_def)
  moreover have "get_output_for [?s] ?r = ?s" "overlaps ?r ?s" "intersection_with ?r ?s = mk_rect (mk_point 5 5) (mk_size 5 5)"
    by (simp_all add: get_output_for_def intersection_with_def overlaps_def Let_def)
  ultimately show ?thesis using clip_to_output_correct [of "[?s]" ?r, OF _ _ _ refl refl] by simp
qed

end
