(* ===== verification/Input_Events.thy ===== *)
theory Input_Events
  imports Mir_Prelude
begin

text \<open>
  The actions and modifiers of input events (\<^verbatim>\<open>include/client/mir_toolkit/events/input\<close>) and the state
  of one touch contact (\<^verbatim>\<open>src/include/common/mir/events/contact_state.h\<close>), which the window manager and
  the input components share.  Axis values are whole numbers.
\<close>

datatype MirKeyboardAction =
  mir_keyboard_action_up | mir_keyboard_action_down | mir_keyboard_action_repeat | mir_keyboard_actions

datatype MirTouchAction =
  mir_touch_action_up | mir_touch_action_down | mir_touch_action_change | mir_touch_actions

datatype MirPointerAction =
  mir_pointer_action_button_up | mir_pointer_action_button_down | mir_pointer_action_enter
  | mir_pointer_action_leave | mir_pointer_action_motion | mir_pointer_actions

record ContactState =
  touch_id :: int
  contact_action :: MirTouchAction
  tooltype :: nat
  contact_x :: int
  contact_y :: int
  pressure :: int
  touch_major :: int
  touch_minor :: int
  contact_orientation :: int

text \<open>\<open>MirInputEventModifier\<close>, \<open>MirPointerButton\<close> and the Linux scan codes the server knows.\<close>

abbreviation (input) mir_input_event_modifier_none :: nat where "mir_input_event_modifier_none \<equiv> 1"
abbreviation (input) mir_input_event_modifier_alt :: nat where "mir_input_event_modifier_alt \<equiv> 2"
abbreviation (input) mir_input_event_modifier_shift :: nat where "mir_input_event_modifier_shift \<equiv> 16"
abbreviation (input) mir_input_event_modifier_sym :: nat where "mir_input_event_modifier_sym \<equiv> 128"
abbreviation (input) mir_input_event_modifier_ctrl :: nat where "mir_input_event_modifier_ctrl \<equiv> 512"
abbreviation (input) mir_input_event_modifier_meta :: nat where "mir_input_event_modifier_meta \<equiv> 4096"
abbreviation (input) mir_pointer_button_primary :: nat where "mir_pointer_button_primary \<equiv> 1"
abbreviation (input) mir_pointer_button_tertiary :: nat where "mir_pointer_button_tertiary \<equiv> 4"
abbreviation (input) KEY_TAB :: int where "KEY_TAB \<equiv> 15"
abbreviation (input) KEY_GRAVE :: int where "KEY_GRAVE \<equiv> 41"
abbreviation (input) KEY_F4 :: int where "KEY_F4 \<equiv> 62"
abbreviation (input) KEY_F11 :: int where "KEY_F11 \<equiv> 87"

end
