(* ===== verification/Input_Validator.thy ===== *)
theory Input_Validator
  imports Input_Events
begin

text \<open>
  \<open>input::Validator\<close> (\<^verbatim>\<open>src/server/input/validator.cpp\<close>) repairs the touch events of a device: a
  contact must not vanish without being released and must not appear without coming down.  What it
  passes to \<open>dispatch_valid_event\<close> is the list of events the functions return.

  \<open>valid_stream\<close> is that protocol.  The lemmas show that whatever a device sends, the events
  dispatched for it follow the protocol, and that a device that follows it is not interfered with.
\<close>

record TouchEvent =
  tev_device :: nat
  tev_time :: nat
  tev_cookie :: "nat list"
  tev_modifiers :: nat
  tev_contacts :: "ContactState list"

datatype MirEvent = Touch_event TouchEvent | Other_event nat

record Validator =
  last_event_by_device :: "nat \<Rightarrow> ContactState list"

definition new_Validator :: Validator where
  "new_Validator = \<lparr>last_event_by_device = (\<lambda>_. [])\<rparr>"

definition get_contact_state :: "TouchEvent \<Rightarrow> ContactState list" where
  "get_contact_state ev = map (\<lambda>c. c\<lparr>contact_orientation := 0\<rparr>) (tev_contacts ev)"

definition touch_ids :: "ContactState list \<Rightarrow> int set" where
  "touch_ids cs = touch_id ` set cs"

definition changed_ids :: "ContactState list \<Rightarrow> int set" where
  "changed_ids cs = touch_id ` {c \<in> set cs. contact_action c \<noteq> mir_touch_action_down}"

text \<open>The loop over \<open>missing_up\<close>: one event per contact, then the contact is forgotten.\<close>

fun release_missing :: "int list \<Rightarrow> ContactState list \<Rightarrow> ContactState list list \<times> ContactState list" where
  "release_missing [] last_state = ([], last_state)"
| "release_missing (i # ids) last_state =
     (let l1 = update_first (\<lambda>c. touch_id c = i) (\<lambda>c. c\<lparr>contact_action := mir_touch_action_up\<rparr>) last_state;
          l2 = erase_first (\<lambda>c. touch_id c = i) l1
      in apfst (Cons l1) (release_missing ids l2))"

text \<open>The loop over \<open>missing_down\<close>; the ids are those of contacts of the new event.\<close>

fun press_missing ::
    "ContactState list \<Rightarrow> int list \<Rightarrow> ContactState list \<Rightarrow> ContactState list list \<times> ContactState list" where
  "press_missing new_event [] last_state = ([], last_state)"
| "press_missing new_event (i # ids) last_state =
     (let c = the (find (\<lambda>c. touch_id c = i) new_event);
          l1 = last_state @ [c\<lparr>contact_action := mir_touch_action_down\<rparr>];
          l2 = last_state @ [c\<lparr>contact_action := mir_touch_action_change\<rparr>]
      in apfst (Cons l1) (press_missing new_event ids l2))"

definition ensure_stream_validity ::
    "ContactState list \<Rightarrow> ContactState list \<Rightarrow> ContactState list list \<times> ContactState list" where
  "ensure_stream_validity new_event last_state =
     (let expected = touch_ids last_state;
          missing_up = sorted_list_of_set (expected - touch_ids new_event);
          missing_down = sorted_list_of_set (changed_ids new_event - expected);
          (ups, l1) = release_missing missing_up last_state;
          (downs, l2) = press_missing new_event missing_down l1
      in (ups @ downs, l2))"

text \<open>\<open>remove_if\<close> with the predicate that turns a contact that came down into one that changes.\<close>

definition remembered :: "ContactState list \<Rightarrow> ContactState list" where
  "remembered cs =
     filter (\<lambda>c. contact_action c \<noteq> mir_touch_action_up)
       (map (\<lambda>c. if contact_action c = mir_touch_action_down then c\<lparr>contact_action := mir_touch_action_change\<rparr> else c) cs)"

text \<open>
  The time of an injected event is made from the modifiers of the event it is injected for:
  \<open>nanoseconds{mir_touch_event_modifiers(touch_event)}\<close>.
\<close>

definition injected_event :: "TouchEvent \<Rightarrow> ContactState list \<Rightarrow> MirEvent" where
  "injected_event ev contacts =
     Touch_event \<lparr>tev_device = tev_device ev, tev_time = tev_modifiers ev, tev_cookie = [],
                  tev_modifiers = tev_modifiers ev, tev_contacts = contacts\<rparr>"

definition validator_touch_event :: "Validator \<Rightarrow> TouchEvent \<Rightarrow> Validator \<times> MirEvent list" where
  "validator_touch_event v ev =
     (let new_state = get_contact_state ev;
          (injected, l) = ensure_stream_validity new_state (last_event_by_device v (tev_device ev))
      in (v\<lparr>last_event_by_device := (last_event_by_device v)(tev_device ev := remembered new_state)\<rparr>,
          map (injected_event ev) injected @ [Touch_event ev]))"

definition validate_and_dispatch :: "Validator \<Rightarrow> MirEvent \<Rightarrow> Validator \<times> MirEvent list" where
  "validate_and_dispatch v event =
     (case event of
        Touch_event ev \<Rightarrow> validator_touch_event v ev
      | Other_event n \<Rightarrow> (v, [event]))"

fun validate_all :: "Validator \<Rightarrow> MirEvent list \<Rightarrow> Validator \<times> MirEvent list" where
  "validate_all v [] = (v, [])"
| "validate_all v (e # es) =
     (let (v1, out1) = validate_and_dispatch v e; (v2, out2) = validate_all v1 es in (v2, out1 @ out2))"

section \<open>The protocol\<close>

text \<open>The ids of the contacts that are down after an event, and a sequence of events that follows it.\<close>

definition down_after :: "ContactState list \<Rightarrow> int set" where
  "down_after cs = touch_id ` {c \<in> set cs. contact_action c \<noteq> mir_touch_action_up}"

definition follows :: "int set \<Rightarrow> ContactState list \<Rightarrow> bool" where
  "follows down cs \<longleftrightarrow>
     down \<subseteq> touch_ids cs \<and> (\<forall>c \<in> set cs. touch_id c \<notin> down \<longrightarrow> contact_action c = mir_touch_action_down)"

fun valid_stream :: "int set \<Rightarrow> ContactState list list \<Rightarrow> bool" where
  "valid_stream down [] \<longleftrightarrow> True"
| "valid_stream down (cs # css) \<longleftrightarrow> follows down cs \<and> valid_stream (down_after cs) css"

definition down_at_end :: "int set \<Rightarrow> ContactState list list \<Rightarrow> int set" where
  "down_at_end down css = (if css = [] then down else down_after (last css))"

text \<open>The touch events of one device in a sequence of events.\<close>

definition contacts_of :: "nat \<Rightarrow> MirEvent list \<Rightarrow> ContactState list list" where
  "contacts_of d es =
     List.map_filter (\<lambda>e. case e of Touch_event ev \<Rightarrow> if tev_device ev = d then Some (tev_contacts ev) else None
                                 | Other_event _ \<Rightarrow> None) es"

definition distinct_contacts :: "MirEvent \<Rightarrow> bool" where
  "distinct_contacts e \<longleftrightarrow>
     (case e of Touch_event ev \<Rightarrow> distinct (map touch_id (tev_contacts ev)) | Other_event _ \<Rightarrow> True)"

lemma valid_stream_append:
  "valid_stream down (xs @ ys) \<longleftrightarrow> valid_stream down xs \<and> valid_stream (down_at_end down xs) ys"
  by (induction xs arbitrary: down) (auto simp: down_at_end_def)

lemma down_at_end_Cons [simp]: "down_at_end down (cs # css) = down_at_end (down_after cs) css"
  by (simp add: down_at_end_def)

lemma down_at_end_Nil [simp]: "down_at_end down [] = down"
  by (simp add: down_at_end_def)

text \<open>
  What the validator remembers: contacts that are down and distinct.
\<close>

definition held :: "ContactState list \<Rightarrow> bool" where
  "held cs \<longleftrightarrow> distinct (map touch_id cs) \<and> (\<forall>c \<in> set cs. contact_action c \<noteq> mir_touch_action_up)"

lemma down_after_simps [simp]:
  "down_after [] = {}"
  "down_after (c # cs) = (if contact_action c = mir_touch_action_up then down_after cs else insert (touch_id c) (down_after cs))"
  "down_after (cs @ cs') = down_after cs \<union> down_after cs'"
  by (auto simp: down_after_def)

lemma touch_ids_simps [simp]:
  "touch_ids [] = {}" "touch_ids (c # cs) = insert (touch_id c) (touch_ids cs)"
  "touch_ids (cs @ cs') = touch_ids cs \<union> touch_ids cs'"
  by (auto simp: touch_ids_def)

lemma changed_ids_simps [simp]:
  "changed_ids [] = {}"
  "changed_ids (c # cs) =
     (if contact_action c = mir_touch_action_down then changed_ids cs else insert (touch_id c) (changed_ids cs))"
  by (auto simp: changed_ids_def)

lemma down_after_released:
  "\<forall>c \<in> set cs. contact_action c \<noteq> mir_touch_action_up \<Longrightarrow>
     down_after (map (\<lambda>c. if touch_id c = i then c\<lparr>contact_action := mir_touch_action_up\<rparr> else c) cs) = touch_ids cs - {i}"
  by (induction cs) auto

lemma held_down_after: "held cs \<Longrightarrow> down_after cs = touch_ids cs"
  by (auto simp: held_def down_after_def touch_ids_def image_iff)

lemma erase_id_filter:
  "distinct (map touch_id cs) \<Longrightarrow> erase_first (\<lambda>c. touch_id c = i) cs = filter (\<lambda>c. touch_id c \<noteq> i) cs"
proof (induction cs)
  case (Cons c cs)
  then show ?case by (auto simp: image_iff intro!: filter_True [symmetric])
qed simp

lemma update_id_map:
  "distinct (map touch_id cs) \<Longrightarrow>
     update_first (\<lambda>c. touch_id c = i) f cs = map (\<lambda>c. if touch_id c = i then f c else c) cs"
proof (induction cs)
  case (Cons c cs)
  then have "touch_id c \<notin> touch_id ` set cs" by simp
  then have "map (\<lambda>d. if touch_id d = touch_id c then f d else d) cs = cs" by (auto simp: image_iff intro!: map_idI)
  with Cons show ?case by auto
qed simp

lemma release_one:
  assumes "held cs" "i \<in> touch_ids cs"
  defines "l1 \<equiv> update_first (\<lambda>c. touch_id c = i) (\<lambda>c. c\<lparr>contact_action := mir_touch_action_up\<rparr>) cs"
  shows "follows (touch_ids cs) l1" "down_after l1 = touch_ids cs - {i}"
    "held (erase_first (\<lambda>c. touch_id c = i) l1)" "touch_ids (erase_first (\<lambda>c. touch_id c = i) l1) = touch_ids cs - {i}"
proof -
  have l1: "l1 = map (\<lambda>c. if touch_id c = i then c\<lparr>contact_action := mir_touch_action_up\<rparr> else c) cs"
    using assms(1) by (simp add: l1_def update_id_map held_def)
  have ids: "map touch_id l1 = map touch_id cs" by (simp add: l1)
  then have t: "touch_ids l1 = touch_ids cs" unfolding touch_ids_def by (metis set_map)
  have "touch_id c \<in> touch_ids cs" if "c \<in> set l1" for c using that t by (auto simp: touch_ids_def)
  then show "follows (touch_ids cs) l1" using t by (auto simp: follows_def)
  show "down_after l1 = touch_ids cs - {i}"
    using assms(1) by (simp add: l1 down_after_released held_def)
  have e: "erase_first (\<lambda>c. touch_id c = i) l1 = filter (\<lambda>c. touch_id c \<noteq> i) l1"
    using assms(1) by (intro erase_id_filter) (simp add: ids held_def)
  have "distinct (map touch_id l1)" using assms(1) ids by (simp add: held_def)
  then have "distinct (map touch_id (filter (\<lambda>c. touch_id c \<noteq> i) l1))" by (rule distinct_map_filter)
  then show "held (erase_first (\<lambda>c. touch_id c = i) l1)"
    unfolding e using assms(1) by (auto simp: held_def l1 split: if_splits)
  show "touch_ids (erase_first (\<lambda>c. touch_id c = i) l1) = touch_ids cs - {i}"
    unfolding e using t by (auto simp: touch_ids_def)
qed

lemma release_missing_valid:
  assumes "release_missing ids cs = (out, l)" "held cs" "distinct ids" "set ids \<subseteq> touch_ids cs"
  shows "valid_stream (touch_ids cs) out \<and> down_at_end (touch_ids cs) out = touch_ids cs - set ids \<and>
    held l \<and> touch_ids l = touch_ids cs - set ids"
  using assms
proof (induction ids arbitrary: cs out l)
  case (Cons i ids)
  define l1 where "l1 = update_first (\<lambda>c. touch_id c = i) (\<lambda>c. c\<lparr>contact_action := mir_touch_action_up\<rparr>) cs"
  obtain out' where out: "out = l1 # out'" "release_missing ids (erase_first (\<lambda>c. touch_id c = i) l1) = (out', l)"
    using Cons.prems(1) by (auto simp: l1_def Let_def apfst_def map_prod_def split: prod.splits)
  have i: "i \<in> touch_ids cs" "i \<notin> set ids" "distinct ids" "set ids \<subseteq> touch_ids cs - {i}"
    using Cons.prems(3,4) by auto
  note one = release_one [OF Cons.prems(2) i(1), folded l1_def]
  have "valid_stream (touch_ids cs - {i}) out' \<and> down_at_end (touch_ids cs - {i}) out' = touch_ids cs - {i} - set ids \<and>
      held l \<and> touch_ids l = touch_ids cs - {i} - set ids"
    using Cons.IH [OF out(2) one(3) i(3)] i(4) one(4) by simp
  then show ?case using one(1,2) by (auto simp: out(1))
qed simp

lemma find_id: "i \<in> touch_ids cs \<Longrightarrow> \<exists>c. find (\<lambda>c. touch_id c = i) cs = Some c \<and> touch_id c = i"
  by (induction cs) (auto simp: touch_ids_def)

lemma press_missing_valid:
  assumes "press_missing new ids cs = (out, l)" "held cs" "distinct ids" "set ids \<inter> touch_ids cs = {}"
    "set ids \<subseteq> touch_ids new"
  shows "valid_stream (touch_ids cs) out \<and> down_at_end (touch_ids cs) out = touch_ids cs \<union> set ids \<and> held l \<and>
    touch_ids l = touch_ids cs \<union> set ids"
  using assms
proof (induction ids arbitrary: cs out l)
  case (Cons i ids)
  obtain c where c: "find (\<lambda>c. touch_id c = i) new = Some c" "touch_id c = i"
    using Cons.prems(5) find_id [of i new] by auto
  let ?l1 = "cs @ [c\<lparr>contact_action := mir_touch_action_down\<rparr>]" and ?l2 = "cs @ [c\<lparr>contact_action := mir_touch_action_change\<rparr>]"
  obtain out' where out: "out = ?l1 # out'" "press_missing new ids ?l2 = (out', l)"
    using Cons.prems(1) c by (auto simp: Let_def apfst_def map_prod_def split: prod.splits)
  have i: "i \<notin> touch_ids cs" "i \<notin> set ids" "distinct ids" "set ids \<subseteq> touch_ids new" "set ids \<inter> touch_ids cs = {}"
    using Cons.prems(3-5) by auto
  have l2: "touch_ids ?l2 = insert i (touch_ids cs)" "held ?l2" "set ids \<inter> touch_ids ?l2 = {}"
    using i c(2) Cons.prems(2) by (auto simp: touch_ids_def held_def)
  have "follows (touch_ids cs) ?l1" using c(2) by (auto simp: follows_def touch_ids_def)
  moreover have "down_after ?l1 = insert i (touch_ids cs)"
    using Cons.prems(2) c(2) by (simp add: held_down_after)
  ultimately show ?case using Cons.IH [OF out(2) l2(2) i(3) l2(3) i(4)] by (auto simp: out(1) l2(1) c(2))
qed simp

lemma get_contact_state_fields [simp]:
  "touch_ids (get_contact_state ev) = touch_ids (tev_contacts ev)"
  "changed_ids (get_contact_state ev) = changed_ids (tev_contacts ev)"
  "map touch_id (get_contact_state ev) = map touch_id (tev_contacts ev)"
  "down_after (get_contact_state ev) = down_after (tev_contacts ev)"
  "follows S (get_contact_state ev) = follows S (tev_contacts ev)"
  by (force simp: get_contact_state_def touch_ids_def changed_ids_def down_after_def follows_def image_def)+

lemma remembered_held:
  assumes "distinct (map touch_id cs)"
  shows "held (remembered cs)"
proof -
  let ?f = "\<lambda>c. if contact_action c = mir_touch_action_down then c\<lparr>contact_action := mir_touch_action_change\<rparr> else c"
  have "map touch_id (map ?f cs) = map touch_id cs" by (induction cs) auto
  then have "distinct (map touch_id (map ?f cs))" using assms by metis
  then have "distinct (map touch_id (remembered cs))" unfolding remembered_def by (rule distinct_map_filter)
  then show ?thesis by (auto simp: held_def remembered_def)
qed

lemma remembered_ids: "touch_ids (remembered cs) = down_after cs"
  by (induction cs) (auto simp: remembered_def)

lemma ensure_valid:
  assumes "ensure_stream_validity new cs = (out, l)" "held cs" "distinct (map touch_id new)"
  shows "valid_stream (touch_ids cs) (out @ [new])"
proof -
  let ?up = "sorted_list_of_set (touch_ids cs - touch_ids new)"
    and ?down = "sorted_list_of_set (changed_ids new - touch_ids cs)"
  have fin: "finite (touch_ids cs - touch_ids new)" "finite (changed_ids new - touch_ids cs)"
    by (simp_all add: touch_ids_def changed_ids_def)
  have sub: "changed_ids new \<subseteq> touch_ids new" by (auto simp: changed_ids_def touch_ids_def)
  obtain ups l1 downs where r: "release_missing ?up cs = (ups, l1)" "press_missing new ?down l1 = (downs, l)"
    "out = ups @ downs"
    using assms(1) by (auto simp: ensure_stream_validity_def Let_def split: prod.splits)
  have 1: "valid_stream (touch_ids cs) ups" "down_at_end (touch_ids cs) ups = touch_ids cs \<inter> touch_ids new"
    "held l1" "touch_ids l1 = touch_ids cs \<inter> touch_ids new"
    using release_missing_valid [OF r(1) assms(2)] fin by auto
  have 2: "valid_stream (touch_ids l1) downs" "down_at_end (touch_ids l1) downs = touch_ids l1 \<union> (changed_ids new - touch_ids cs)"
    using press_missing_valid [OF r(2) 1(3)] fin sub 1(4) by auto
  have "follows (touch_ids l1 \<union> (changed_ids new - touch_ids cs)) new"
    using sub 1(4) by (auto simp: follows_def changed_ids_def touch_ids_def)
  then show ?thesis using 1 2 by (simp add: r(3) valid_stream_append)
qed

lemma contacts_of_simps [simp]:
  "contacts_of d [] = []" "contacts_of d (es @ es') = contacts_of d es @ contacts_of d es'"
  "contacts_of d (Touch_event ev # es) = (if tev_device ev = d then [tev_contacts ev] else []) @ contacts_of d es"
  "contacts_of d (Other_event n # es) = contacts_of d es"
  by (auto simp: contacts_of_def map_filter_def)

lemma contacts_of_injected:
  "contacts_of d (map (injected_event ev) css) = (if tev_device ev = d then css else [])"
  by (induction css) (auto simp: injected_event_def)

text \<open>One event: what a device has dispatched stays valid, and the validator knows what is down.\<close>

lemma touch_event_valid:
  assumes "validator_touch_event v ev = (v', out)" "distinct (map touch_id (tev_contacts ev))"
    "\<And>d. held (last_event_by_device v d)"
  shows "valid_stream (touch_ids (last_event_by_device v d)) (contacts_of d out) \<and>
    down_at_end (touch_ids (last_event_by_device v d)) (contacts_of d out) = touch_ids (last_event_by_device v' d) \<and>
    held (last_event_by_device v' d)"
proof -
  obtain inj l where r: "ensure_stream_validity (get_contact_state ev) (last_event_by_device v (tev_device ev)) = (inj, l)"
    by fastforce
  have v: "v' = v\<lparr>last_event_by_device := (last_event_by_device v)(tev_device ev := remembered (get_contact_state ev))\<rparr>"
    "out = map (injected_event ev) inj @ [Touch_event ev]"
    using assms(1) by (auto simp: validator_touch_event_def r Let_def)
  have "valid_stream (touch_ids (last_event_by_device v (tev_device ev))) (inj @ [get_contact_state ev])"
    using ensure_valid [OF r assms(3)] assms(2) by simp
  then show ?thesis
    using assms(2,3) remembered_held [of "get_contact_state ev"]
    by (auto simp: v contacts_of_injected valid_stream_append remembered_ids down_at_end_def)
qed

lemma validate_event_valid:
  assumes "validate_and_dispatch v e = (v', out)" "distinct_contacts e" "\<And>d. held (last_event_by_device v d)"
  shows "valid_stream (touch_ids (last_event_by_device v d)) (contacts_of d out) \<and>
    down_at_end (touch_ids (last_event_by_device v d)) (contacts_of d out) = touch_ids (last_event_by_device v' d) \<and>
    held (last_event_by_device v' d)"
  using assms touch_event_valid
  by (cases e) (auto simp: validate_and_dispatch_def distinct_contacts_def)

lemma down_at_end_append: "down_at_end S (xs @ ys) = down_at_end (down_at_end S xs) ys"
  by (auto simp: down_at_end_def)

lemma validate_all_valid:
  assumes "validate_all v es = (v', out)" "list_all distinct_contacts es" "\<And>d. held (last_event_by_device v d)"
  shows "valid_stream (touch_ids (last_event_by_device v d)) (contacts_of d out) \<and>
    down_at_end (touch_ids (last_event_by_device v d)) (contacts_of d out) = touch_ids (last_event_by_device v' d)"
  using assms
proof (induction es arbitrary: v out)
  case (Cons e es)
  obtain v1 out1 out2 where r: "validate_and_dispatch v e = (v1, out1)" "validate_all v1 es = (v', out2)" "out = out1 @ out2"
    using Cons.prems(1) by (auto simp: Let_def split: prod.splits)
  note one = validate_event_valid [OF r(1) _ Cons.prems(3)]
  have "held (last_event_by_device v1 d)" for d using one Cons.prems(2) by simp
  then have "valid_stream (touch_ids (last_event_by_device v1 d)) (contacts_of d out2) \<and>
      down_at_end (touch_ids (last_event_by_device v1 d)) (contacts_of d out2) = touch_ids (last_event_by_device v' d)"
    using Cons.IH [OF r(2)] Cons.prems(2) by simp
  then show ?case using one [of d] Cons.prems(2) by (simp add: r(3) valid_stream_append down_at_end_append)
qed simp

text \<open>
  C24: whatever touch events the devices send, with no contact twice in one event, the events the
  validator dispatches for each device follow the protocol: no contact vanishes without a release and
  none appears without coming down.
\<close>

theorem validator_refines_protocol:
  assumes "list_all distinct_contacts es"
  shows "valid_stream {} (contacts_of d (snd (validate_all new_Validator es)))"
  using validate_all_valid [of new_Validator es _ _ d] assms
  by (cases "validate_all new_Validator es") (simp add: new_Validator_def held_def)

text \<open>A device that follows the protocol gets no events injected.\<close>

lemma ensure_transparent:
  assumes "follows (touch_ids cs) new"
  shows "ensure_stream_validity new cs = ([], cs)"
proof -
  have e: "touch_ids cs - touch_ids new = {}" "changed_ids new - touch_ids cs = {}"
    using assms by (auto simp: follows_def changed_ids_def)
  show ?thesis unfolding ensure_stream_validity_def Let_def e by simp
qed

lemma validate_all_transparent:
  assumes "\<And>d. valid_stream (touch_ids (last_event_by_device v d)) (contacts_of d es)"
  shows "snd (validate_all v es) = es"
  using assms
proof (induction es arbitrary: v)
  case (Cons e es)
  have "snd (validate_and_dispatch v e) = [e] \<and>
      (\<forall>d. valid_stream (touch_ids (last_event_by_device (fst (validate_and_dispatch v e)) d)) (contacts_of d es))"
  proof (cases e)
    case (Touch_event ev)
    have f: "follows (touch_ids (last_event_by_device v (tev_device ev))) (get_contact_state ev)"
      "valid_stream (down_after (tev_contacts ev)) (contacts_of (tev_device ev) es)"
      using Cons.prems [of "tev_device ev"] by (simp_all add: Touch_event)
    have "valid_stream (touch_ids (last_event_by_device v d)) (contacts_of d es)" if "d \<noteq> tev_device ev" for d
      using Cons.prems [of d] that by (simp add: Touch_event)
    then show ?thesis
      using f by (simp add: Touch_event validate_and_dispatch_def validator_touch_event_def ensure_transparent remembered_ids)
  next
    case (Other_event n)
    then show ?thesis using Cons.prems by (simp add: validate_and_dispatch_def)
  qed
  then show ?case
    using Cons.IH [of "fst (validate_and_dispatch v e)"]
    by (cases "validate_and_dispatch v e"; cases "validate_all (fst (validate_and_dispatch v e)) es") simp
qed simp

text \<open>
  When every device follows the protocol, the validator passes its events on unchanged.
\<close>

theorem validator_transparent:
  assumes "\<And>d. valid_stream {} (contacts_of d es)"
  shows "snd (validate_all new_Validator es) = es"
  by (rule validate_all_transparent) (simp add: new_Validator_def assms)

text \<open>
  An event the validator injects is stamped with the modifiers of the event it was injected for,
  not with its time.
\<close>

theorem injected_time_is_modifiers:
  assumes "Touch_event iev \<in> set (butlast (snd (validate_and_dispatch v (Touch_event ev))))"
  shows "tev_time iev = tev_modifiers ev"
  using assms
  by (auto simp: validate_and_dispatch_def validator_touch_event_def injected_event_def Let_def butlast_append
      split: prod.splits)

section \<open>A concrete device\<close>

definition contact :: "int \<Rightarrow> MirTouchAction \<Rightarrow> ContactState" where
  "contact i a = \<lparr>touch_id = i, contact_action = a, tooltype = 0, contact_x = 0, contact_y = 0, pressure = 0,
     touch_major = 0, touch_minor = 0, contact_orientation = 0\<rparr>"

definition touch :: "ContactState list \<Rightarrow> MirEvent" where
  "touch cs = Touch_event \<lparr>tev_device = 1, tev_time = 7, tev_cookie = [], tev_modifiers = 2, tev_contacts = cs\<rparr>"

lemmas validator_eval =
  validate_and_dispatch_def validator_touch_event_def ensure_stream_validity_def new_Validator_def touch_def contact_def
  get_contact_state_def injected_event_def remembered_def Let_def

theorem validator_refines_protocol_witness:
  "list_all distinct_contacts [touch [contact 4 mir_touch_action_change]] \<and>
   snd (validate_all new_Validator [touch [contact 4 mir_touch_action_change]]) =
     [injected_event \<lparr>tev_device = 1, tev_time = 7, tev_cookie = [], tev_modifiers = 2,
        tev_contacts = [contact 4 mir_touch_action_change]\<rparr> [contact 4 mir_touch_action_down],
      touch [contact 4 mir_touch_action_change]] \<and>
   valid_stream {} (contacts_of 1 (snd (validate_all new_Validator [touch [contact 4 mir_touch_action_change]])))"
  using validator_refines_protocol [of "[touch [contact 4 mir_touch_action_change]]" 1]
  by (simp add: distinct_contacts_def touch_def) (simp add: validator_eval)

theorem validator_transparent_witness:
  "snd (validate_all new_Validator [touch [contact 4 mir_touch_action_down], touch [contact 4 mir_touch_action_up]]) =
     [touch [contact 4 mir_touch_action_down], touch [contact 4 mir_touch_action_up]]"
  by (rule validator_transparent) (simp add: touch_def contact_def follows_def)

theorem injected_time_is_modifiers_witness:
  "\<exists>iev. Touch_event iev \<in> set (butlast (snd (validate_and_dispatch new_Validator (touch [contact 4 mir_touch_action_change])))) \<and>
     tev_time iev = 2"
proof -
  let ?ev = "\<lparr>tev_device = 1, tev_time = 7, tev_cookie = [], tev_modifiers = 2,
    tev_contacts = [contact 4 mir_touch_action_change]\<rparr>"
  have "injected_event ?ev [contact 4 mir_touch_action_down] \<in>
      set (butlast (snd (validate_and_dispatch new_Validator (Touch_event ?ev))))"
    by (simp add: validator_eval)
  then show ?thesis
    using injected_time_is_modifiers [of _ new_Validator ?ev] by (auto simp: touch_def injected_event_def)
qed

end
