(* ===== verification/Std_Map.thy ===== *)
theory Std_Map
  imports Mir_Prelude
begin

text \<open>
  \<open>std::map\<close> as the list of its entries in the order of the keys, the order iterators visit them.
  \<open>map_of\<close> is \<open>find\<close> and \<open>at\<close>, \<open>map_put\<close> is \<open>m[k] = v\<close>, \<open>map_erase\<close> is \<open>erase(k)\<close>.
\<close>

type_synonym ('k, 'v) std_map = "('k \<times> 'v) list"

fun map_put :: "'k :: linorder \<Rightarrow> 'v \<Rightarrow> ('k, 'v) std_map \<Rightarrow> ('k, 'v) std_map" where
  "map_put k v [] = [(k, v)]"
| "map_put k v ((k', v') # m) =
     (if k < k' then (k, v) # (k', v') # m
      else if k = k' then (k, v) # m
      else (k', v') # map_put k v m)"

definition map_erase :: "'k \<Rightarrow> ('k, 'v) std_map \<Rightarrow> ('k, 'v) std_map" where
  "map_erase k m = filter (\<lambda>e. fst e \<noteq> k) m"

definition ordered :: "('k :: linorder, 'v) std_map \<Rightarrow> bool" where
  "ordered m \<longleftrightarrow> sorted_wrt (<) (map fst m)"

lemma map_of_put [simp]: "map_of (map_put k v m) = (map_of m)(k \<mapsto> v)"
  by (induction k v m rule: map_put.induct) (auto simp: fun_eq_iff)

lemma map_of_erase [simp]: "map_of (map_erase k m) = (map_of m)(k := None)"
  by (induction m) (auto simp: map_erase_def fun_eq_iff)

lemma keys_put [simp]: "fst ` set (map_put k v m) = insert k (fst ` set m)"
  by (induction k v m rule: map_put.induct) auto

lemma keys_erase [simp]: "fst ` set (map_erase k m) = fst ` set m - {k}"
  by (auto simp: map_erase_def)

lemma put_put [simp]: "map_put k v (map_put k v' m) = map_put k v m"
  by (induction k v' m rule: map_put.induct) auto

lemma ordered_Nil [simp]: "ordered []"
  by (simp add: ordered_def)

lemma ordered_put [simp]: "ordered m \<Longrightarrow> ordered (map_put k v m)"
proof (induction k v m rule: map_put.induct)
  case (2 k v k' v' m)
  then have "\<forall>x \<in> fst ` set m. k' < x" "ordered m" by (auto simp: ordered_def)
  with 2 show ?case by (auto simp: ordered_def dest: order.strict_trans)
qed (simp add: ordered_def)

lemma ordered_erase [simp]: "ordered m \<Longrightarrow> ordered (map_erase k m)"
  by (induction m) (auto simp: ordered_def map_erase_def)

lemma ordered_distinct: "ordered m \<Longrightarrow> distinct (map fst m)"
  by (simp add: ordered_def strict_sorted_iff)

lemma ordered_map_of: "ordered m \<Longrightarrow> (k, v) \<in> set m \<longleftrightarrow> map_of m k = Some v"
  using ordered_distinct by (metis map_of_SomeD map_of_is_SomeI)

lemma length_put_new: "k \<notin> fst ` set m \<Longrightarrow> length (map_put k v m) = Suc (length m)"
  by (induction k v m rule: map_put.induct) auto

lemma length_put_old: "ordered m \<Longrightarrow> k \<in> fst ` set m \<Longrightarrow> length (map_put k v m) = length m"
  by (induction k v m rule: map_put.induct) (auto simp: ordered_def)

lemma erase_missing: "k \<notin> fst ` set m \<Longrightarrow> map_erase k m = m"
  by (metis (mono_tags, lifting) filter_True image_eqI map_erase_def)

lemma length_erase: "ordered m \<Longrightarrow> k \<in> fst ` set m \<Longrightarrow> Suc (length (map_erase k m)) = length m"
proof (induction m)
  case (Cons e m)
  then have "ordered m" "fst e \<notin> fst ` set m" by (auto simp: ordered_def)
  then show ?case using Cons erase_missing [of "fst e" m] by (cases "fst e = k") (auto simp: map_erase_def)
qed simp

end
