(* ===== verification/Client_Buffers.thy ===== *)
theory Client_Buffers
  imports Geometry Std_Map
begin

text \<open>
  What the client library keeps of the buffers it shares with the server: \<open>client::Buffer\<close>
  (\<^verbatim>\<open>src/client/buffer.cpp\<close>) with the age of \<open>AgingBuffer\<close>, the maps of \<open>ConnectionSurfaceMap\<close>
  (\<^verbatim>\<open>connection_surface_map.cpp\<close>), the outstanding requests of \<open>BufferFactory\<close>
  (\<^verbatim>\<open>buffer_factory.cpp\<close>) and \<open>MirWaitHandle\<close> (\<^verbatim>\<open>mir_wait_handle.cpp\<close>).  Windows, streams and chains
  are addresses; the callback of a buffer is the context it was registered with.
\<close>

section \<open>Buffers\<close>

record ClientBuffer =
  cb_id :: int
  cb_size :: Size
  cb_age :: nat
  cb_owned :: bool
  cb_mapped :: bool
  cb_usage :: nat
  cb_context :: "nat option"

definition new_Buffer :: "nat option \<Rightarrow> int \<Rightarrow> Size \<Rightarrow> nat \<Rightarrow> ClientBuffer" where
  "new_Buffer context i sz usage =
     \<lparr>cb_id = i, cb_size = sz, cb_age = 0, cb_owned = False, cb_mapped = False, cb_usage = usage, cb_context = context\<rparr>"

definition increment_age :: "ClientBuffer \<Rightarrow> ClientBuffer" where
  "increment_age b = (if cb_age b \<noteq> 0 then b\<lparr>cb_age := Suc (cb_age b)\<rparr> else b)"

definition mark_as_submitted :: "ClientBuffer \<Rightarrow> ClientBuffer" where
  "mark_as_submitted b = b\<lparr>cb_age := 1\<rparr>"

definition submitted :: "ClientBuffer \<Rightarrow> ClientBuffer result" where
  "submitted b =
     (if \<not> cb_owned b then Inl (logic_error ''cannot submit unowned buffer'')
      else Inr ((mark_as_submitted b)\<lparr>cb_mapped := False, cb_owned := False\<rparr>))"

text \<open>\<open>received\<close> marks the buffer as owned; its caller then runs the callback.\<close>

definition received :: "ClientBuffer \<Rightarrow> ClientBuffer" where
  "received b = (if \<not> cb_owned b then b\<lparr>cb_owned := True\<rparr> else b)"

definition map_region :: "ClientBuffer \<Rightarrow> ClientBuffer" where
  "map_region b = b\<lparr>cb_mapped := True\<rparr>"

definition unmap_region :: "ClientBuffer \<Rightarrow> ClientBuffer" where
  "unmap_region b = b\<lparr>cb_mapped := False\<rparr>"

definition set_callback :: "nat option \<Rightarrow> ClientBuffer \<Rightarrow> ClientBuffer" where
  "set_callback context b = b\<lparr>cb_context := context\<rparr>"

section \<open>The maps of a connection\<close>

record ConnectionSurfaceMap =
  csm_surfaces :: "int \<rightharpoonup> nat"
  csm_streams :: "(int, nat) std_map"
  csm_chains :: "int \<rightharpoonup> nat"
  csm_buffers :: "int \<rightharpoonup> ClientBuffer"
  csm_render_surfaces :: "nat \<rightharpoonup> nat"

definition new_ConnectionSurfaceMap :: ConnectionSurfaceMap where
  "new_ConnectionSurfaceMap =
     \<lparr>csm_surfaces = Map.empty, csm_streams = [], csm_chains = Map.empty, csm_buffers = Map.empty,
      csm_render_surfaces = Map.empty\<rparr>"

definition csm_surface :: "ConnectionSurfaceMap \<Rightarrow> int \<Rightarrow> nat option" where
  "csm_surface m i = csm_surfaces m i"

definition insert_surface :: "int \<Rightarrow> nat \<Rightarrow> ConnectionSurfaceMap \<Rightarrow> ConnectionSurfaceMap" where
  "insert_surface i w m = m\<lparr>csm_surfaces := (csm_surfaces m)(i \<mapsto> w)\<rparr>"

definition erase_surface :: "int \<Rightarrow> ConnectionSurfaceMap \<Rightarrow> ConnectionSurfaceMap" where
  "erase_surface i m = m\<lparr>csm_surfaces := (csm_surfaces m)(i := None)\<rparr>"

definition csm_stream :: "ConnectionSurfaceMap \<Rightarrow> int \<Rightarrow> nat option" where
  "csm_stream m i = map_of (csm_streams m) i"

definition with_all_streams_do :: "(nat \<Rightarrow> 's \<Rightarrow> 's) \<Rightarrow> ConnectionSurfaceMap \<Rightarrow> 's \<Rightarrow> 's" where
  "with_all_streams_do f m = fold f (map snd (csm_streams m))"

definition insert_stream :: "int \<Rightarrow> nat \<Rightarrow> ConnectionSurfaceMap \<Rightarrow> ConnectionSurfaceMap" where
  "insert_stream i s m = m\<lparr>csm_streams := map_put i s (csm_streams m)\<rparr>"

definition insert_chain :: "int \<Rightarrow> nat \<Rightarrow> ConnectionSurfaceMap \<Rightarrow> ConnectionSurfaceMap" where
  "insert_chain i c m = m\<lparr>csm_chains := (csm_chains m)(i \<mapsto> c)\<rparr>"

definition erase_stream :: "int \<Rightarrow> ConnectionSurfaceMap \<Rightarrow> ConnectionSurfaceMap" where
  "erase_stream i m = m\<lparr>csm_streams := map_erase i (csm_streams m), csm_chains := (csm_chains m)(i := None)\<rparr>"

definition insert_buffer :: "int \<Rightarrow> ClientBuffer \<Rightarrow> ConnectionSurfaceMap \<Rightarrow> ConnectionSurfaceMap" where
  "insert_buffer i b m = m\<lparr>csm_buffers := (csm_buffers m)(i \<mapsto> b)\<rparr>"

definition erase_buffer :: "int \<Rightarrow> ConnectionSurfaceMap \<Rightarrow> ConnectionSurfaceMap" where
  "erase_buffer i m = m\<lparr>csm_buffers := (csm_buffers m)(i := None)\<rparr>"

definition csm_buffer :: "ConnectionSurfaceMap \<Rightarrow> int \<Rightarrow> ClientBuffer result" where
  "csm_buffer m i =
     (case csm_buffers m i of Some b \<Rightarrow> Inr b | None \<Rightarrow> Inl (runtime_error ''could not find buffer''))"

definition insert_render_surface :: "nat \<Rightarrow> nat \<Rightarrow> ConnectionSurfaceMap \<Rightarrow> ConnectionSurfaceMap" where
  "insert_render_surface k r m = m\<lparr>csm_render_surfaces := (csm_render_surfaces m)(k \<mapsto> r)\<rparr>"

definition erase_render_surface :: "nat \<Rightarrow> ConnectionSurfaceMap \<Rightarrow> ConnectionSurfaceMap" where
  "erase_render_surface k m = m\<lparr>csm_render_surfaces := (csm_render_surfaces m)(k := None)\<rparr>"

definition csm_render_surface :: "ConnectionSurfaceMap \<Rightarrow> nat \<Rightarrow> nat result" where
  "csm_render_surface m k =
     (case csm_render_surfaces m k of
        Some r \<Rightarrow> Inr r | None \<Rightarrow> Inl (runtime_error ''could not find render surface''))"

section \<open>The buffer factory\<close>

record AllocationRequest =
  req_size :: Size
  req_sw :: "(nat \<times> nat) option"
  req_native :: "(nat \<times> nat) option"
  req_context :: "nat option"

record BufferFactory =
  allocation_requests :: "AllocationRequest list"
  error_id :: int

text \<open>A buffer as the server announces it; \<open>has_error\<close> is an error message instead of a buffer.\<close>

record ProtobufBuffer =
  pb_id :: int
  pb_size :: Size
  pb_error :: "string option"

datatype GeneratedBuffer = Generated ClientBuffer | Generated_error int string "nat option"

definition expect_buffer_sw :: "Size \<Rightarrow> nat \<Rightarrow> nat \<Rightarrow> nat option \<Rightarrow> BufferFactory \<Rightarrow> BufferFactory" where
  "expect_buffer_sw sz format usage context f =
     f\<lparr>allocation_requests := allocation_requests f @
         [\<lparr>req_size = sz, req_sw = Some (format, usage), req_native = None, req_context = context\<rparr>]\<rparr>"

definition expect_buffer_native :: "Size \<Rightarrow> nat \<Rightarrow> nat \<Rightarrow> nat option \<Rightarrow> BufferFactory \<Rightarrow> BufferFactory" where
  "expect_buffer_native sz format flags context f =
     f\<lparr>allocation_requests := allocation_requests f @
         [\<lparr>req_size = sz, req_sw = None, req_native = Some (format, flags), req_context = context\<rparr>]\<rparr>"

abbreviation (input) mir_buffer_usage_hardware :: nat where "mir_buffer_usage_hardware \<equiv> 1"

definition generate_buffer :: "ProtobufBuffer \<Rightarrow> BufferFactory \<Rightarrow> (BufferFactory, GeneratedBuffer) outcome" where
  "generate_buffer buffer f =
     (case find (\<lambda>r. req_size r = pb_size buffer) (allocation_requests f) of
        None \<Rightarrow> (Inl (logic_error ''unrequested buffer received''), f)
      | Some r \<Rightarrow>
          let f' = f\<lparr>allocation_requests := erase_first (\<lambda>r. req_size r = pb_size buffer) (allocation_requests f)\<rparr>
          in (case pb_error buffer of
                Some message \<Rightarrow>
                  (Inr (Generated_error (error_id f) message (req_context r)), f'\<lparr>error_id := error_id f - 1\<rparr>)
              | None \<Rightarrow>
                  (case (req_native r, req_sw r) of
                     (Some _, _) \<Rightarrow> (Inr (Generated (new_Buffer (req_context r) (pb_id buffer) (pb_size buffer)
                                        mir_buffer_usage_hardware)), f')
                   | (None, Some (format, usage)) \<Rightarrow>
                       (Inr (Generated (new_Buffer (req_context r) (pb_id buffer) (req_size r) usage)), f')
                   | (None, None) \<Rightarrow> (Inl (logic_error ''could not create buffer''), f))))"

definition cancel_requests_with_context :: "nat option \<Rightarrow> BufferFactory \<Rightarrow> BufferFactory" where
  "cancel_requests_with_context context f =
     f\<lparr>allocation_requests := filter (\<lambda>r. req_context r \<noteq> context) (allocation_requests f)\<rparr>"

section \<open>Wait handles\<close>

text \<open>A wait that blocks is a wait that cannot return yet: \<open>None\<close>.\<close>

record MirWaitHandle =
  expecting :: int
  wh_received :: int

definition new_MirWaitHandle :: MirWaitHandle where
  "new_MirWaitHandle = \<lparr>expecting = 0, wh_received = 0\<rparr>"

definition expect_result :: "MirWaitHandle \<Rightarrow> MirWaitHandle" where
  "expect_result w = w\<lparr>expecting := expecting w + 1\<rparr>"

definition result_received :: "MirWaitHandle \<Rightarrow> MirWaitHandle" where
  "result_received w = w\<lparr>wh_received := wh_received w + 1\<rparr>"

definition wait_for_all :: "MirWaitHandle \<Rightarrow> MirWaitHandle option" where
  "wait_for_all w = (if wh_received w = expecting w then Some new_MirWaitHandle else None)"

definition wait_for_one :: "MirWaitHandle \<Rightarrow> MirWaitHandle option" where
  "wait_for_one w =
     (if wh_received w \<noteq> 0 then Some \<lparr>expecting = expecting w - 1, wh_received = wh_received w - 1\<rparr> else None)"

definition has_result :: "MirWaitHandle \<Rightarrow> bool" where
  "has_result w \<longleftrightarrow> wh_received w > 0"

definition is_pending :: "MirWaitHandle \<Rightarrow> bool" where
  "is_pending w \<longleftrightarrow> expecting w > 0 \<and> wh_received w \<noteq> expecting w"

end
