(* ===== verification/Buffer_Vault.thy ===== *)
theory Buffer_Vault
  imports Client_Buffers
begin

text \<open>
  \<open>client::BufferVault\<close> (\<^verbatim>\<open>src/client/buffer_vault.cpp\<close>): the buffers of one client stream.  The client
  withdraws a buffer, fills it, deposits it and transfers it to the server, which sends it back later.

  The entries of \<open>buffers\<close> are in the order of the ids, as in \<open>std::map\<close>.  The counters are \<open>int\<close>s:
  the invariant shows that they never fall below zero, so that the \<open>size_t\<close> of the code does not wrap.
  \<open>surface_map\<close> is a weak pointer: \<open>None\<close> is a connection that is gone.  What the vault asks of the
  server, of the buffer factory and of its callers is the log \<open>vault_log\<close>.  A promise is a number;
  \<open>Fulfilled n i\<close> says that promise \<open>n\<close> got buffer \<open>i\<close>.
\<close>

datatype VaultOwner = Owner_Server | Owner_Self | Owner_ContentProducer | Owner_SelfWithContent

datatype VaultEvent =
    Expect_buffer Size nat nat
  | Allocate_buffer Size nat nat
  | Free_buffer int
  | Submit_buffer int
  | Fulfilled nat int
  | Callback nat
  | Cancel_requests

record BufferVault =
  surface_map :: "ConnectionSurfaceMap option"
  vault_format :: nat
  vault_usage :: nat
  vault_buffers :: "(int, VaultOwner) std_map"
  promises :: "nat list"
  next_promise :: nat
  vault_size :: Size
  is_disconnected :: bool
  current_buffer_count :: int
  needed_buffer_count :: int
  initial_buffer_count :: int
  last_received_id :: int
  interval :: int
  swap_buffers_wait_handle :: MirWaitHandle
  deferred_cb :: "nat option"
  vault_log :: "VaultEvent list"

definition log_vault :: "VaultEvent \<Rightarrow> BufferVault \<Rightarrow> BufferVault" where
  "log_vault e v = v\<lparr>vault_log := vault_log v @ [e]\<rparr>"

definition alloc_buffer :: "Size \<Rightarrow> BufferVault \<Rightarrow> BufferVault" where
  "alloc_buffer sz v =
     log_vault (Allocate_buffer sz (vault_format v) (vault_usage v))
       (log_vault (Expect_buffer sz (vault_format v) (vault_usage v)) v)"

definition free_buffer :: "int \<Rightarrow> BufferVault \<Rightarrow> BufferVault" where
  "free_buffer i = log_vault (Free_buffer i)"

definition realloc_buffer :: "int \<Rightarrow> Size \<Rightarrow> BufferVault \<Rightarrow> BufferVault" where
  "realloc_buffer i sz v = alloc_buffer sz (free_buffer i v)"

definition new_BufferVault :: "ConnectionSurfaceMap option \<Rightarrow> Size \<Rightarrow> nat \<Rightarrow> nat \<Rightarrow> nat \<Rightarrow> BufferVault" where
  "new_BufferVault smap sz format usage initial_nbuffers =
     (alloc_buffer sz ^^ initial_nbuffers)
       \<lparr>surface_map = smap, vault_format = format, vault_usage = usage, vault_buffers = [], promises = [],
        next_promise = 0, vault_size = sz, is_disconnected = False, current_buffer_count = int initial_nbuffers,
        needed_buffer_count = int initial_nbuffers, initial_buffer_count = int initial_nbuffers,
        last_received_id = 0, interval = 1, swap_buffers_wait_handle = new_MirWaitHandle, deferred_cb = None,
        vault_log = []\<rparr>"

definition checked_buffer_from_map :: "BufferVault \<Rightarrow> int \<Rightarrow> ClientBuffer result" where
  "checked_buffer_from_map v i =
     (case surface_map v of
        None \<Rightarrow> Inl (logic_error ''connection resources lost; cannot access buffer'')
      | Some m \<Rightarrow> csm_buffer m i)"

definition update_buffer :: "int \<Rightarrow> (ClientBuffer \<Rightarrow> ClientBuffer) \<Rightarrow> BufferVault \<Rightarrow> BufferVault" where
  "update_buffer i f v =
     v\<lparr>surface_map := map_option (\<lambda>m. m\<lparr>csm_buffers := (csm_buffers m)(i := map_option f (csm_buffers m i))\<rparr>)
                        (surface_map v)\<rparr>"

definition set_owner :: "int \<Rightarrow> VaultOwner \<Rightarrow> BufferVault \<Rightarrow> BufferVault" where
  "set_owner i ow v = v\<lparr>vault_buffers := map_put i ow (vault_buffers v)\<rparr>"

section \<open>Looking for a buffer\<close>

fun find_available :: "BufferVault \<Rightarrow> (int \<Rightarrow> bool) \<Rightarrow> (int \<times> VaultOwner) list \<Rightarrow> int option result" where
  "find_available v P [] = Inr None"
| "find_available v P ((i, ow) # es) =
     (if ow = Owner_Self
      then (case checked_buffer_from_map v i of
              Inl e \<Rightarrow> Inl e
            | Inr b \<Rightarrow> if cb_size b = vault_size v \<and> P i then Inr (Some i) else find_available v P es)
      else find_available v P es)"

definition available_buffer :: "BufferVault \<Rightarrow> int option result" where
  "available_buffer v =
     (case find_available v (\<lambda>i. i \<noteq> last_received_id v) (vault_buffers v) of
        Inr None \<Rightarrow> find_available v (\<lambda>_. True) (vault_buffers v)
      | r \<Rightarrow> r)"

section \<open>Withdrawing\<close>

fun free_wrong_sizes :: "(int \<times> VaultOwner) list \<Rightarrow> BufferVault \<Rightarrow> (BufferVault, int list) outcome" where
  "free_wrong_sizes [] v = (Inr [], v)"
| "free_wrong_sizes ((i, ow) # es) v =
     (case checked_buffer_from_map v i of
        Inl e \<Rightarrow> (Inl e, v)
      | Inr b \<Rightarrow>
          if ow = Owner_Self \<and> cb_size b \<noteq> vault_size v
          then and_then (free_wrong_sizes es
                   (v\<lparr>current_buffer_count := current_buffer_count v - 1, vault_buffers := map_erase i (vault_buffers v)\<rparr>))
                 (\<lambda>ids v. (Inr (i # ids), v))
          else free_wrong_sizes es v)"

text \<open>The future \<open>withdraw\<close> returns is a promise: fulfilled at once, or left waiting.\<close>

definition take_buffer :: "int option \<Rightarrow> BufferVault \<Rightarrow> (BufferVault, nat) outcome" where
  "take_buffer found v =
     (let n = next_promise v; v1 = v\<lparr>next_promise := Suc n\<rparr>
      in case found of
           Some i \<Rightarrow>
             let v2 = set_owner i Owner_ContentProducer v1
             in (case checked_buffer_from_map v2 i of
                   Inl e \<Rightarrow> (Inl e, v2)
                 | Inr b \<Rightarrow> (Inr n, log_vault (Fulfilled n i) v2))
         | None \<Rightarrow>
             let v2 = v1\<lparr>promises := promises v1 @ [n]\<rparr>
             in (Inr n,
                 if current_buffer_count v2 < needed_buffer_count v2
                 then alloc_buffer (vault_size v2) (v2\<lparr>current_buffer_count := current_buffer_count v2 + 1\<rparr>)
                 else v2))"

definition withdraw :: "BufferVault \<Rightarrow> (BufferVault, nat) outcome" where
  "withdraw v =
     (if is_disconnected v then (Inl (logic_error ''server_disconnected''), v)
      else and_then (free_wrong_sizes (vault_buffers v) v) (\<lambda>free_ids v.
        case available_buffer v of
          Inl e \<Rightarrow> (Inl e, v)
        | Inr found \<Rightarrow> and_then (take_buffer found v) (\<lambda>n v. (Inr n, fold free_buffer free_ids v))))"

section \<open>Depositing and transferring\<close>

definition deposit :: "int \<Rightarrow> BufferVault \<Rightarrow> (BufferVault, unit) outcome" where
  "deposit i v =
     (if map_of (vault_buffers v) i \<noteq> Some Owner_ContentProducer
      then (Inl (logic_error ''buffer cannot be deposited''), v)
      else
        let v1 = set_owner i Owner_SelfWithContent v
        in (case checked_buffer_from_map v1 i of
              Inl e \<Rightarrow> (Inl e, v1)
            | Inr _ \<Rightarrow> (Inr (), update_buffer i increment_age v1)))"

text \<open>
  The transfer gives up the lock while it talks to the server: \<open>outbound_send\<close> is the part before
  and \<open>outbound_wait\<close> the part after, between which the server may already answer.
\<close>

definition outbound_send :: "int \<Rightarrow> BufferVault \<Rightarrow> (BufferVault, unit) outcome" where
  "outbound_send i v =
     (if map_of (vault_buffers v) i \<noteq> Some Owner_SelfWithContent
      then (Inl (logic_error ''buffer cannot be transferred''), v)
      else
        let v1 = set_owner i Owner_Server v
        in (case checked_buffer_from_map v1 i of
              Inl e \<Rightarrow> (Inl e, v1)
            | Inr b \<Rightarrow>
                (case submitted b of
                   Inl e \<Rightarrow> (Inl e, v1)
                 | Inr b' \<Rightarrow> (Inr (), log_vault (Submit_buffer i) (update_buffer i (\<lambda>_. b') v1)))))"

definition outbound_wait :: "nat \<Rightarrow> BufferVault \<Rightarrow> (BufferVault, unit) outcome" where
  "outbound_wait done_cb v =
     (if is_disconnected v then (Inl (logic_error ''server_disconnected''), v)
      else
        case available_buffer v of
          Inl e \<Rightarrow> (Inl e, v)
        | Inr (Some _) \<Rightarrow> (Inr (), log_vault (Callback done_cb) v)
        | Inr None \<Rightarrow>
            (Inr (), v\<lparr>swap_buffers_wait_handle := expect_result (swap_buffers_wait_handle v), deferred_cb := Some done_cb\<rparr>))"

definition wire_transfer_outbound :: "int \<Rightarrow> nat \<Rightarrow> BufferVault \<Rightarrow> (BufferVault, unit) outcome" where
  "wire_transfer_outbound i done_cb v = and_then (outbound_send i v) (\<lambda>_. outbound_wait done_cb)"

definition trigger_callback :: "BufferVault \<Rightarrow> BufferVault" where
  "trigger_callback v =
     (case deferred_cb v of
        None \<Rightarrow> v
      | Some cb \<Rightarrow>
          let v1 = log_vault (Callback cb) (v\<lparr>deferred_cb := None\<rparr>)
          in v1\<lparr>swap_buffers_wait_handle := result_received (swap_buffers_wait_handle v1)\<rparr>)"

definition hand_over :: "int \<Rightarrow> BufferVault \<Rightarrow> BufferVault" where
  "hand_over i v =
     (case promises v of
        [] \<Rightarrow> v
      | n # ns \<Rightarrow> log_vault (Fulfilled n i) ((set_owner i Owner_ContentProducer v)\<lparr>promises := ns\<rparr>))"

definition wire_transfer_inbound :: "int \<Rightarrow> BufferVault \<Rightarrow> (BufferVault, unit) outcome" where
  "wire_transfer_inbound i v =
     (let v0 = v\<lparr>last_received_id := i\<rparr>
      in case checked_buffer_from_map v0 i of
           Inl e \<Rightarrow> (Inl e, v0)
         | Inr b \<Rightarrow>
             if map_of (vault_buffers v0) i = None
             then if cb_size b \<noteq> vault_size v0 then (Inr (), realloc_buffer i (vault_size v0) v0)
                  else (Inr (), trigger_callback (hand_over i (set_owner i Owner_Self v0)))
             else
               let should_decrease_count = (current_buffer_count v0 > needed_buffer_count v0)
               in if vault_size v0 \<noteq> cb_size b \<or> should_decrease_count
                  then let v1 = v0\<lparr>vault_buffers := map_erase i (vault_buffers v0)\<rparr>;
                           v2 = (if should_decrease_count
                                 then v1\<lparr>current_buffer_count := current_buffer_count v1 - 1\<rparr> else v1);
                           v3 = free_buffer i v2
                       in (Inr (), if \<not> should_decrease_count then alloc_buffer (vault_size v3) v3 else v3)
                  else (Inr (), trigger_callback (hand_over i (set_owner i Owner_Self v0))))"

definition disconnected :: "BufferVault \<Rightarrow> BufferVault" where
  "disconnected v = trigger_callback (v\<lparr>is_disconnected := True, promises := []\<rparr>)"

section \<open>Size and interval\<close>

definition vault_set_size :: "Size \<Rightarrow> BufferVault \<Rightarrow> BufferVault" where
  "vault_set_size sz v = v\<lparr>vault_size := sz\<rparr>"

definition trunc :: "rat \<Rightarrow> int" where
  "trunc x = (if x < 0 then \<lceil>x\<rceil> else \<lfloor>x\<rfloor>)"

definition set_scale :: "rat \<Rightarrow> BufferVault \<Rightarrow> BufferVault" where
  "set_scale scale v =
     vault_set_size (mk_size (trunc (scale * of_int (width (vault_size v)))) (trunc (scale * of_int (height (vault_size v))))) v"

definition first_self :: "BufferVault \<Rightarrow> int option" where
  "first_self v = map_option fst (find (\<lambda>e. snd e = Owner_Self) (vault_buffers v))"

lemma first_self_in: "first_self v = Some i \<Longrightarrow> (i, Owner_Self) \<in> set (vault_buffers v)"
  unfolding first_self_def by (metis (mono_tags, lifting) find_Some_iff map_option_eq_Some nth_mem prod.collapse)

function shrink :: "BufferVault \<Rightarrow> BufferVault" where
  "shrink v =
     (if current_buffer_count v > needed_buffer_count v
      then (case first_self v of
              None \<Rightarrow> v
            | Some i \<Rightarrow> shrink (free_buffer i (v\<lparr>current_buffer_count := current_buffer_count v - 1,
                                                vault_buffers := map_erase i (vault_buffers v)\<rparr>)))
      else v)"
  by auto
termination
proof (relation "measure (\<lambda>v. length (vault_buffers v))", goal_cases)
  case (2 v i)
  then show ?case
    using first_self_in [of v i] length_filter_less [of "(i, Owner_Self)" "vault_buffers v" "\<lambda>e. fst e \<noteq> i"]
    by (simp add: free_buffer_def log_vault_def map_erase_def)
qed simp

definition set_interval :: "int \<Rightarrow> BufferVault \<Rightarrow> BufferVault" where
  "set_interval i v =
     (if i = interval v then v
      else
        let v1 = v\<lparr>interval := i\<rparr>
        in if i = 0
           then alloc_buffer (vault_size v1)
                  (v1\<lparr>current_buffer_count := current_buffer_count v1 + 1, needed_buffer_count := needed_buffer_count v1 + 1\<rparr>)
           else shrink (v1\<lparr>needed_buffer_count := initial_buffer_count v1\<rparr>))"

text \<open>The destructor; what throws for one buffer is swallowed.\<close>

definition release_entry :: "int \<times> VaultOwner \<Rightarrow> BufferVault \<Rightarrow> BufferVault" where
  "release_entry e v =
     (case surface_map v of
        Some m \<Rightarrow>
          (case csm_buffer m (fst e) of
             Inl _ \<Rightarrow> v
           | Inr b \<Rightarrow>
               let v1 = update_buffer (fst e) (set_callback None) v
               in if \<not> is_disconnected v1 then free_buffer (fst e) v1 else v1)
      | None \<Rightarrow> if \<not> is_disconnected v then free_buffer (fst e) v else v)"

definition delete_BufferVault :: "BufferVault \<Rightarrow> BufferVault" where
  "delete_BufferVault v = fold release_entry (vault_buffers v) (log_vault Cancel_requests v)"

section \<open>The invariant\<close>

text \<open>
  Allocations are asynchronous: the vault asks for a buffer, and it arrives later.  \<open>n\<close> counts the
  buffers that have arrived, so \<open>allocations v - n\<close> of them are on their way.
\<close>

definition allocations :: "BufferVault \<Rightarrow> nat" where
  "allocations v = length (filter (\<lambda>e. case e of Allocate_buffer _ _ _ \<Rightarrow> True | _ \<Rightarrow> False) (vault_log v))"

definition known_buffer :: "BufferVault \<Rightarrow> int \<times> VaultOwner \<Rightarrow> bool" where
  "known_buffer v e \<longleftrightarrow>
     (case surface_map v of
        None \<Rightarrow> True
      | Some m \<Rightarrow> (case csm_buffers m (fst e) of
                     None \<Rightarrow> False
                   | Some b \<Rightarrow> cb_id b = fst e \<and> (snd e \<noteq> Owner_Server \<longrightarrow> cb_owned b)))"

definition vault_inv :: "BufferVault \<Rightarrow> nat \<Rightarrow> bool" where
  "vault_inv v n \<longleftrightarrow>
     ordered (vault_buffers v) \<and>
     n \<le> allocations v \<and> current_buffer_count v = int (length (vault_buffers v)) + int (allocations v - n) \<and>
     1 \<le> initial_buffer_count v \<and> initial_buffer_count v \<le> needed_buffer_count v \<and>
     (promises v \<noteq> [] \<longrightarrow> Owner_Self \<notin> snd ` set (vault_buffers v) \<and> 1 \<le> current_buffer_count v) \<and>
     (\<forall>e \<in> set (vault_buffers v). known_buffer v e)"

lemma allocations_simps [simp]:
  "allocations (log_vault e v) =
     (case e of Allocate_buffer _ _ _ \<Rightarrow> Suc (allocations v) | _ \<Rightarrow> allocations v)"
  "allocations (alloc_buffer sz v) = Suc (allocations v)" "allocations (free_buffer i v) = allocations v"
  by (simp_all add: allocations_def log_vault_def alloc_buffer_def free_buffer_def split: VaultEvent.split)

lemma allocations_frame:
  "vault_log v' = vault_log v \<Longrightarrow> allocations v' = allocations v"
  by (simp add: allocations_def)

lemma log_vault_fields [simp]:
  "surface_map (log_vault e v) = surface_map v" "vault_buffers (log_vault e v) = vault_buffers v"
  "promises (log_vault e v) = promises v" "vault_size (log_vault e v) = vault_size v"
  "current_buffer_count (log_vault e v) = current_buffer_count v" "needed_buffer_count (log_vault e v) = needed_buffer_count v"
  "initial_buffer_count (log_vault e v) = initial_buffer_count v" "is_disconnected (log_vault e v) = is_disconnected v"
  "last_received_id (log_vault e v) = last_received_id v"
  by (simp_all add: log_vault_def)

lemma alloc_fields [simp]:
  "surface_map (alloc_buffer sz v) = surface_map v" "vault_buffers (alloc_buffer sz v) = vault_buffers v"
  "promises (alloc_buffer sz v) = promises v" "vault_size (alloc_buffer sz v) = vault_size v"
  "current_buffer_count (alloc_buffer sz v) = current_buffer_count v"
  "needed_buffer_count (alloc_buffer sz v) = needed_buffer_count v"
  "initial_buffer_count (alloc_buffer sz v) = initial_buffer_count v"
  by (simp_all add: alloc_buffer_def)

lemma free_fields [simp]:
  "surface_map (free_buffer i v) = surface_map v" "vault_buffers (free_buffer i v) = vault_buffers v"
  "promises (free_buffer i v) = promises v" "vault_size (free_buffer i v) = vault_size v"
  "current_buffer_count (free_buffer i v) = current_buffer_count v"
  "needed_buffer_count (free_buffer i v) = needed_buffer_count v"
  "initial_buffer_count (free_buffer i v) = initial_buffer_count v"
  by (simp_all add: free_buffer_def)

lemma set_owner_fields [simp]:
  "surface_map (set_owner i ow v) = surface_map v" "vault_buffers (set_owner i ow v) = map_put i ow (vault_buffers v)"
  "promises (set_owner i ow v) = promises v" "vault_size (set_owner i ow v) = vault_size v"
  "current_buffer_count (set_owner i ow v) = current_buffer_count v"
  "needed_buffer_count (set_owner i ow v) = needed_buffer_count v"
  "initial_buffer_count (set_owner i ow v) = initial_buffer_count v" "allocations (set_owner i ow v) = allocations v"
  by (simp_all add: set_owner_def allocations_def)

lemma known_buffer_frame: "surface_map v' = surface_map v \<Longrightarrow> known_buffer v' e = known_buffer v e"
  by (simp add: known_buffer_def)

lemma field_updates [simp]:
  "allocations (v\<lparr>vault_buffers := x1\<rparr>) = allocations v" "known_buffer (v\<lparr>vault_buffers := x1\<rparr>) = known_buffer v"
  "allocations (v\<lparr>promises := x2\<rparr>) = allocations v" "known_buffer (v\<lparr>promises := x2\<rparr>) = known_buffer v"
  "allocations (v\<lparr>next_promise := x3\<rparr>) = allocations v" "known_buffer (v\<lparr>next_promise := x3\<rparr>) = known_buffer v"
  "allocations (v\<lparr>vault_size := x4\<rparr>) = allocations v" "known_buffer (v\<lparr>vault_size := x4\<rparr>) = known_buffer v"
  "allocations (v\<lparr>is_disconnected := x5\<rparr>) = allocations v" "known_buffer (v\<lparr>is_disconnected := x5\<rparr>) = known_buffer v"
  "allocations (v\<lparr>current_buffer_count := x6\<rparr>) = allocations v" "known_buffer (v\<lparr>current_buffer_count := x6\<rparr>) = known_buffer v"
  "allocations (v\<lparr>needed_buffer_count := x7\<rparr>) = allocations v" "known_buffer (v\<lparr>needed_buffer_count := x7\<rparr>) = known_buffer v"
  "allocations (v\<lparr>last_received_id := x8\<rparr>) = allocations v" "known_buffer (v\<lparr>last_received_id := x8\<rparr>) = known_buffer v"
  "allocations (v\<lparr>interval := x9\<rparr>) = allocations v" "known_buffer (v\<lparr>interval := x9\<rparr>) = known_buffer v"
  "allocations (v\<lparr>swap_buffers_wait_handle := x10\<rparr>) = allocations v" "known_buffer (v\<lparr>swap_buffers_wait_handle := x10\<rparr>) = known_buffer v"
  "allocations (v\<lparr>deferred_cb := x11\<rparr>) = allocations v" "known_buffer (v\<lparr>deferred_cb := x11\<rparr>) = known_buffer v"
  "allocations (v\<lparr>surface_map := m\<rparr>) = allocations v"
  by (simp_all add: allocations_def known_buffer_def fun_eq_iff)

lemma known_log [simp]:
  "known_buffer (log_vault ev v) = known_buffer v" "known_buffer (alloc_buffer sz v) = known_buffer v"
  "known_buffer (free_buffer i v) = known_buffer v" "known_buffer (set_owner i ow v) = known_buffer v"
  by (simp_all add: known_buffer_def fun_eq_iff)

text \<open>Operations that leave the counted fields alone keep the invariant.\<close>

lemma vault_inv_frame:
  assumes "vault_inv v n" "surface_map v' = surface_map v" "vault_buffers v' = vault_buffers v" "promises v' = promises v"
    "current_buffer_count v' = current_buffer_count v" "needed_buffer_count v' = needed_buffer_count v"
    "initial_buffer_count v' = initial_buffer_count v" "allocations v' = allocations v"
  shows "vault_inv v' n"
  using assms(1) unfolding vault_inv_def known_buffer_def assms(2-8) .

lemma set_put: "ordered m \<Longrightarrow> set (map_put k v m) = insert (k, v) {e \<in> set m. fst e \<noteq> k}"
proof -
  assume m: "ordered m"
  have "(i, ow) \<in> set (map_put k v m) \<longleftrightarrow> (i, ow) \<in> insert (k, v) {e \<in> set m. fst e \<noteq> k}" for i ow
    using m by (auto simp: ordered_map_of)
  then show ?thesis by auto
qed

lemma set_erase: "set (map_erase k m) = {e \<in> set m. fst e \<noteq> k}"
  by (auto simp: map_erase_def)

text \<open>Changing the owner of a buffer the vault has.\<close>

lemma vault_inv_owner:
  assumes "vault_inv v n" "i \<in> fst ` set (vault_buffers v)" "known_buffer v (i, ow)"
    "promises v \<noteq> [] \<longrightarrow> ow \<noteq> Owner_Self"
  shows "vault_inv (set_owner i ow v) n"
proof -
  have o: "ordered (vault_buffers v)" using assms(1) by (simp add: vault_inv_def)
  show ?thesis
    using assms unfolding vault_inv_def
    by (auto simp: o length_put_old set_put)
qed

lemma vault_inv_erase:
  assumes "vault_inv v n" "i \<in> fst ` set (vault_buffers v)" "promises v \<noteq> [] \<longrightarrow> 2 \<le> current_buffer_count v"
  shows "vault_inv (v\<lparr>current_buffer_count := current_buffer_count v - 1, vault_buffers := map_erase i (vault_buffers v)\<rparr>) n"
proof -
  have "ordered (vault_buffers v)" using assms(1) by (simp add: vault_inv_def)
  from length_erase [OF this assms(2)] have "int (length (map_erase i (vault_buffers v))) = int (length (vault_buffers v)) - 1"
    by simp
  then show ?thesis
    using assms unfolding vault_inv_def by (auto simp: set_erase)
qed

section \<open>Every operation keeps it\<close>

lemma known_checked:
  assumes "known_buffer v (i, ow)" "checked_buffer_from_map v i = Inr b"
  shows "cb_id b = i" "ow \<noteq> Owner_Server \<Longrightarrow> cb_owned b"
  using assms by (auto simp: known_buffer_def checked_buffer_from_map_def csm_buffer_def split: option.splits)

lemma checked_frame: "surface_map v' = surface_map v \<Longrightarrow> checked_buffer_from_map v' i = checked_buffer_from_map v i"
  by (simp add: checked_buffer_from_map_def)

lemma known_owner: "known_buffer v (i, ow) \<Longrightarrow> ow \<noteq> Owner_Server \<Longrightarrow> known_buffer v (i, ow')"
  by (auto simp: known_buffer_def split: option.splits)

lemma vault_inv_known: "vault_inv v n \<Longrightarrow> map_of (vault_buffers v) i = Some ow \<Longrightarrow> known_buffer v (i, ow)"
  by (auto simp: vault_inv_def dest: map_of_SomeD)

lemma in_keys: "(i, ow) \<in> set m \<Longrightarrow> i \<in> fst ` set m"
  by force

lemma vault_inv_free [simp]: "vault_inv (free_buffer i v) n = vault_inv v n"
  by (simp add: vault_inv_def)

lemma vault_inv_log_other: "(case e of Allocate_buffer _ _ _ \<Rightarrow> False | _ \<Rightarrow> True) \<Longrightarrow> vault_inv (log_vault e v) n = vault_inv v n"
  by (cases e) (simp_all add: vault_inv_def)

lemma fold_free_inv: "vault_inv (fold free_buffer ids v) n = vault_inv v n"
  by (induction ids arbitrary: v) auto

text \<open>Asking for one more buffer, counted in advance.\<close>

lemma vault_inv_alloc:
  assumes "vault_inv v n"
  shows "vault_inv (alloc_buffer sz (v\<lparr>current_buffer_count := current_buffer_count v + 1\<rparr>)) n"
  using assms by (auto simp: vault_inv_def)

lemma free_wrong_sizes_spec:
  assumes "free_wrong_sizes es v = (r, v')" "vault_inv v n" "set es \<subseteq> set (vault_buffers v)" "distinct (map fst es)"
  shows "vault_inv v' n \<and> surface_map v' = surface_map v \<and> promises v' = promises v \<and> vault_size v' = vault_size v \<and>
    set (vault_buffers v') \<subseteq> set (vault_buffers v) \<and> is_disconnected v' = is_disconnected v \<and>
    (isl r \<or> (\<forall>i b. (i, Owner_Self) \<in> set es \<inter> set (vault_buffers v') \<longrightarrow>
                checked_buffer_from_map v i = Inr b \<longrightarrow> cb_size b = vault_size v))"
  using assms
proof (induction es arbitrary: v r v')
  case (Cons e es)
  obtain i ow where e: "e = (i, ow)" by fastforce
  show ?case
  proof (cases "checked_buffer_from_map v i")
    case (Inl x)
    then show ?thesis using Cons.prems by (auto simp: e)
  next
    case b: (Inr b)
    show ?thesis
    proof (cases "ow = Owner_Self \<and> cb_size b \<noteq> vault_size v")
      case True
      let ?v = "v\<lparr>current_buffer_count := current_buffer_count v - 1, vault_buffers := map_erase i (vault_buffers v)\<rparr>"
      obtain r1 where r1: "free_wrong_sizes es ?v = (r1, v')" "isl r = isl r1"
        using Cons.prems(1) True b by (cases "free_wrong_sizes es ?v"; cases "fst (free_wrong_sizes es ?v)") (auto simp: e)
      have "promises v = []" using Cons.prems(2,3) True by (force simp: vault_inv_def e)
      moreover have "i \<in> fst ` set (vault_buffers v)" using Cons.prems(3) by (force simp: e)
      ultimately have inv: "vault_inv ?v n" using vault_inv_erase [OF Cons.prems(2)] by simp
      have sub: "set es \<subseteq> set (vault_buffers ?v)" "distinct (map fst es)"
        using Cons.prems(3,4) by (auto simp: set_erase e)
      have "(i, Owner_Self) \<notin> set (vault_buffers ?v)" by (simp add: set_erase)
      then show ?thesis
        using Cons.IH [OF r1(1) inv sub] r1(2) by (auto simp: e set_erase checked_frame [of ?v v])
    next
      case False
      then have r1: "free_wrong_sizes es v = (r, v')" using Cons.prems(1) b by (auto simp: e)
      have "set es \<subseteq> set (vault_buffers v)" "distinct (map fst es)" using Cons.prems(3,4) by auto
      from Cons.IH [OF r1 Cons.prems(2) this] show ?thesis using False b by (auto simp: e)
    qed
  qed
qed auto

lemma find_available_Some:
  "find_available v P es = Inr (Some i) \<Longrightarrow>
     (i, Owner_Self) \<in> set es \<and> P i \<and> (\<exists>b. checked_buffer_from_map v i = Inr b \<and> cb_size b = vault_size v)"
  by (induction v P es rule: find_available.induct) (auto split: if_splits sum.splits)

lemma find_available_None:
  "find_available v P es = Inr None \<Longrightarrow> (i, Owner_Self) \<in> set es \<Longrightarrow>
     \<exists>b. checked_buffer_from_map v i = Inr b \<and> (cb_size b = vault_size v \<longrightarrow> \<not> P i)"
  by (induction v P es rule: find_available.induct) (auto split: if_splits sum.splits)

lemma available_Some:
  "available_buffer v = Inr (Some i) \<Longrightarrow>
     (i, Owner_Self) \<in> set (vault_buffers v) \<and> (\<exists>b. checked_buffer_from_map v i = Inr b \<and> cb_size b = vault_size v)"
  by (auto simp: available_buffer_def split: sum.splits option.splits dest: find_available_Some)

lemma available_None:
  assumes "available_buffer v = Inr None" "(i, Owner_Self) \<in> set (vault_buffers v)"
  shows "\<exists>b. checked_buffer_from_map v i = Inr b \<and> cb_size b \<noteq> vault_size v"
proof -
  have "find_available v (\<lambda>_. True) (vault_buffers v) = Inr None"
    using assms(1) by (auto simp: available_buffer_def split: sum.splits option.splits)
  from find_available_None [OF this assms(2)] show ?thesis by auto
qed

lemma take_buffer_Some_inv:
  assumes "vault_inv v n" "(i, Owner_Self) \<in> set (vault_buffers v)"
  shows "vault_inv (snd (take_buffer (Some i) v)) n"
proof -
  let ?v = "v\<lparr>next_promise := Suc (next_promise v)\<rparr>"
  have inv: "vault_inv ?v n" by (rule vault_inv_frame [OF assms(1)]) simp_all
  have "known_buffer v (i, Owner_Self)" using assms by (auto simp: vault_inv_def)
  then have "known_buffer ?v (i, Owner_ContentProducer)" using known_owner by fastforce
  then have "vault_inv (set_owner i Owner_ContentProducer ?v) n"
    using inv in_keys [OF assms(2)] by (intro vault_inv_owner) auto
  then show ?thesis by (simp add: take_buffer_def Let_def vault_inv_log_other split: sum.split)
qed

lemma take_buffer_None_inv:
  assumes "vault_inv v n" "Owner_Self \<notin> snd ` set (vault_buffers v)"
  shows "vault_inv (snd (take_buffer None v)) n"
proof -
  let ?v = "v\<lparr>next_promise := Suc (next_promise v), promises := promises v @ [next_promise v]\<rparr>"
  have c: "0 \<le> current_buffer_count v" using assms(1) by (simp add: vault_inv_def)
  show ?thesis
  proof (cases "current_buffer_count v < needed_buffer_count v")
    case True
    have "vault_inv (alloc_buffer (vault_size v) (?v\<lparr>current_buffer_count := current_buffer_count v + 1\<rparr>)) n"
      using assms c by (auto simp: vault_inv_def)
    then show ?thesis using True by (simp add: take_buffer_def Let_def)
  next
    case False
    then have "vault_inv ?v n" using assms by (auto simp: vault_inv_def)
    then show ?thesis using False by (simp add: take_buffer_def Let_def)
  qed
qed

lemma withdraw_inv:
  assumes "vault_inv v n"
  shows "vault_inv (snd (withdraw v)) n"
proof (cases "is_disconnected v")
  case False
  obtain r v1 where f: "free_wrong_sizes (vault_buffers v) v = (r, v1)" by fastforce
  have o: "distinct (map fst (vault_buffers v))" using assms ordered_distinct by (auto simp: vault_inv_def)
  note spec = free_wrong_sizes_spec [OF f assms subset_refl o]
  show ?thesis
  proof (cases r)
    case (Inl e)
    then show ?thesis using False f spec by (simp add: withdraw_def)
  next
    case (Inr ids)
    show ?thesis
    proof (cases "available_buffer v1")
      case (Inl e)
      then show ?thesis using False f spec Inr by (simp add: withdraw_def)
    next
      case a: (Inr found)
      have "vault_inv (snd (take_buffer found v1)) n"
      proof (cases found)
        case None
        have "(i, Owner_Self) \<notin> set (vault_buffers v1)" for i
        proof
          assume i: "(i, Owner_Self) \<in> set (vault_buffers v1)"
          then obtain b where "checked_buffer_from_map v1 i = Inr b" "cb_size b \<noteq> vault_size v1"
            using available_None a None by blast
          moreover have "(i, Owner_Self) \<in> set (vault_buffers v) \<inter> set (vault_buffers v1)" using i spec by blast
          ultimately show False using spec Inr checked_frame [of v1 v] by auto
        qed
        then have "Owner_Self \<notin> snd ` set (vault_buffers v1)" by auto
        then show ?thesis unfolding None by (rule take_buffer_None_inv [OF spec [THEN conjunct1]])
      qed (use take_buffer_Some_inv available_Some a spec in auto)
      then show ?thesis
        using False f Inr a by (cases "take_buffer found v1"; cases "fst (take_buffer found v1)")
          (auto simp: withdraw_def fold_free_inv)
    qed
  qed
qed (simp add: withdraw_def assms)

lemma update_buffer_fields [simp]:
  "vault_buffers (update_buffer i f v) = vault_buffers v" "promises (update_buffer i f v) = promises v"
  "current_buffer_count (update_buffer i f v) = current_buffer_count v"
  "needed_buffer_count (update_buffer i f v) = needed_buffer_count v"
  "initial_buffer_count (update_buffer i f v) = initial_buffer_count v"
  "allocations (update_buffer i f v) = allocations v" "vault_size (update_buffer i f v) = vault_size v"
  by (simp_all add: update_buffer_def)

text \<open>Changing a buffer object: its id stays, and it may lose its owner only while the server has it.\<close>

lemma update_buffer_inv:
  assumes "vault_inv v n" "\<And>b. cb_id (f b) = cb_id b"
    "\<And>b. map_of (vault_buffers v) i \<noteq> Some Owner_Server \<Longrightarrow> cb_owned b \<Longrightarrow> cb_owned (f b)"
  shows "vault_inv (update_buffer i f v) n"
proof -
  have o: "ordered (vault_buffers v)" using assms(1) by (simp add: vault_inv_def)
  have "known_buffer (update_buffer i f v) e" if "e \<in> set (vault_buffers v)" for e
  proof -
    have "known_buffer v e" using assms(1) that by (simp add: vault_inv_def)
    moreover have "map_of (vault_buffers v) (fst e) = Some (snd e)" using ordered_map_of [OF o, of "fst e" "snd e"] that by simp
    ultimately show ?thesis
      using assms(2,3) by (auto simp: known_buffer_def update_buffer_def split: option.splits)
  qed
  then show ?thesis using assms(1) by (auto simp: vault_inv_def)
qed

lemma deposit_inv:
  assumes "vault_inv v n"
  shows "vault_inv (snd (deposit i v)) n"
proof (cases "map_of (vault_buffers v) i = Some Owner_ContentProducer")
  case True
  have "known_buffer v (i, Owner_SelfWithContent)" using vault_inv_known [OF assms True] known_owner by fastforce
  then have "vault_inv (set_owner i Owner_SelfWithContent v) n"
    using assms True by (intro vault_inv_owner) (auto dest: map_of_SomeD intro: rev_image_eqI)
  then have "vault_inv (update_buffer i increment_age (set_owner i Owner_SelfWithContent v)) n"
    by (rule update_buffer_inv) (simp_all add: increment_age_def)
  then show ?thesis
    using True \<open>vault_inv (set_owner i Owner_SelfWithContent v) n\<close> by (simp add: deposit_def Let_def split: sum.split)
qed (simp add: deposit_def assms)

lemma outbound_send_inv:
  assumes "vault_inv v n"
  shows "vault_inv (snd (outbound_send i v)) n"
proof (cases "map_of (vault_buffers v) i = Some Owner_SelfWithContent")
  case True
  let ?v = "set_owner i Owner_Server v"
  have "known_buffer v (i, Owner_Server)" using vault_inv_known [OF assms True] known_owner by fastforce
  then have inv: "vault_inv ?v n"
    using assms True by (intro vault_inv_owner) (auto dest: map_of_SomeD intro: rev_image_eqI)
  have "vault_inv (update_buffer i (\<lambda>_. b') ?v) n"
    if "checked_buffer_from_map ?v i = Inr b" "submitted b = Inr b'" for b b'
  proof -
    have "cb_id b = i" using known_checked(1) [of ?v i Owner_Server b] that(1) \<open>known_buffer v (i, Owner_Server)\<close> by simp
    then have "cb_id b' = i" using that(2) by (auto simp: submitted_def mark_as_submitted_def split: if_splits)
    have "update_buffer i (\<lambda>_. b') ?v = update_buffer i (\<lambda>c. if cb_id c = i then b' else c) ?v"
      using that(1) \<open>cb_id b = i\<close>
      by (auto simp: update_buffer_def checked_buffer_from_map_def csm_buffer_def split: option.splits)
    then show ?thesis using update_buffer_inv [OF inv, of "\<lambda>c. if cb_id c = i then b' else c" i] \<open>cb_id b' = i\<close> by auto
  qed
  then show ?thesis using True inv by (auto simp: outbound_send_def Let_def vault_inv_log_other split: sum.split)
qed (simp add: outbound_send_def assms)

lemma vault_inv_updates [simp]:
  "vault_inv (v\<lparr>next_promise := x1\<rparr>) n = vault_inv v n" "vault_inv (v\<lparr>vault_size := x2\<rparr>) n = vault_inv v n"
  "vault_inv (v\<lparr>is_disconnected := x3\<rparr>) n = vault_inv v n" "vault_inv (v\<lparr>last_received_id := x4\<rparr>) n = vault_inv v n"
  "vault_inv (v\<lparr>interval := x5\<rparr>) n = vault_inv v n" "vault_inv (v\<lparr>swap_buffers_wait_handle := x6\<rparr>) n = vault_inv v n"
  "vault_inv (v\<lparr>deferred_cb := x7\<rparr>) n = vault_inv v n"
  by (simp_all add: vault_inv_def)

lemma outbound_wait_inv: "vault_inv v n \<Longrightarrow> vault_inv (snd (outbound_wait cb v)) n"
  by (simp add: outbound_wait_def vault_inv_log_other split: sum.split option.split)

lemma trigger_callback_inv [simp]: "vault_inv (trigger_callback v) n = vault_inv v n"
  by (simp add: trigger_callback_def Let_def vault_inv_log_other split: option.split)

lemma hand_over_self_inv:
  assumes "vault_inv v n" "i \<in> fst ` set (vault_buffers v)" "known_buffer v (i, Owner_Self)"
  shows "vault_inv (hand_over i (set_owner i Owner_Self v)) n"
proof (cases "promises v")
  case Nil
  then show ?thesis using vault_inv_owner [OF assms] by (simp add: hand_over_def)
next
  case (Cons p ps)
  have "known_buffer v (i, Owner_ContentProducer)" using assms(3) known_owner by fastforce
  then have "vault_inv (set_owner i Owner_ContentProducer v) n" using assms by (intro vault_inv_owner) auto
  then have "vault_inv ((set_owner i Owner_ContentProducer v)\<lparr>promises := ps\<rparr>) n"
    using Cons by (auto simp: vault_inv_def)
  moreover have "set_owner i Owner_ContentProducer (set_owner i Owner_Self v) = set_owner i Owner_ContentProducer v"
    by (simp add: set_owner_def)
  ultimately show ?thesis using Cons by (simp add: hand_over_def vault_inv_log_other)
qed

text \<open>A buffer that comes back.\<close>

lemma inbound_returned_inv:
  assumes "vault_inv v n" "i \<in> fst ` set (vault_buffers v)" "known_buffer v (i, Owner_Self)"
  shows "vault_inv (snd (wire_transfer_inbound i v)) n"
proof (cases "checked_buffer_from_map v i")
  case (Inl e)
  then show ?thesis using assms(1) by (simp add: wire_transfer_inbound_def checked_frame [of "v\<lparr>last_received_id := i\<rparr>" v])
next
  case b: (Inr b)
  let ?v = "v\<lparr>last_received_id := i\<rparr>"
  have known: "map_of (vault_buffers v) i \<noteq> None" using assms(2) by (auto simp: map_of_eq_None_iff)
  have o: "ordered (vault_buffers v)" using assms(1) by (simp add: vault_inv_def)
  show ?thesis
  proof (cases "vault_size v \<noteq> cb_size b \<or> current_buffer_count v > needed_buffer_count v")
    case False
    then have "snd (wire_transfer_inbound i v) = trigger_callback (hand_over i (set_owner i Owner_Self ?v))"
      using b known by (auto simp: wire_transfer_inbound_def checked_frame [of ?v v] Let_def)
    then show ?thesis using hand_over_self_inv [of ?v n i] assms by simp
  next
    case True
    show ?thesis
    proof (cases "current_buffer_count v > needed_buffer_count v")
      case d: True
      have "vault_inv (?v\<lparr>vault_buffers := map_erase i (vault_buffers v), current_buffer_count := current_buffer_count v - 1\<rparr>) n"
        using vault_inv_erase [of ?v n i] assms d by (auto simp: vault_inv_def)
      then show ?thesis using b known d by (auto simp: wire_transfer_inbound_def checked_frame [of ?v v] Let_def)
    next
      case d: False
      have "vault_inv (alloc_buffer (vault_size v) (free_buffer i (?v\<lparr>vault_buffers := map_erase i (vault_buffers v)\<rparr>))) n"
        using assms(1,2) length_erase [OF o assms(2)] by (auto simp: vault_inv_def set_erase)
      then show ?thesis using b known d True by (auto simp: wire_transfer_inbound_def checked_frame [of ?v v] Let_def)
    qed
  qed
qed

text \<open>A buffer that arrives for the first time.\<close>

lemma inbound_arrived_inv:
  assumes "vault_inv v n" "n < allocations v" "i \<notin> fst ` set (vault_buffers v)" "known_buffer v (i, Owner_Self)"
    "checked_buffer_from_map v i = Inr b"
  shows "vault_inv (snd (wire_transfer_inbound i v)) (Suc n)"
proof -
  let ?v = "v\<lparr>last_received_id := i\<rparr>"
  have new: "map_of (vault_buffers v) i = None" using assms(3) by (simp add: map_of_eq_None_iff)
  show ?thesis
  proof (cases "cb_size b = vault_size v")
    case False
    have "vault_inv (realloc_buffer i (vault_size v) ?v) (Suc n)"
      using assms(1,2) by (auto simp: vault_inv_def realloc_buffer_def)
    then show ?thesis using False new assms(5) by (simp add: wire_transfer_inbound_def checked_frame [of ?v v] Let_def)
  next
    case True
    have o: "ordered (vault_buffers v)" using assms(1) by (simp add: vault_inv_def)
    have cp: "known_buffer v (i, Owner_ContentProducer)" using assms(4) known_owner by fastforce
    have "vault_inv (set_owner i Owner_ContentProducer ?v) (Suc n)"
      using assms o cp by (auto simp: vault_inv_def length_put_new set_put)
    then have "vault_inv (hand_over i (set_owner i Owner_Self ?v)) (Suc n)"
      using assms o cp
      by (cases "promises v")
         (auto simp: vault_inv_def hand_over_def set_owner_def length_put_new set_put)
    then show ?thesis using True new assms(5) by (simp add: wire_transfer_inbound_def checked_frame [of ?v v] Let_def)
  qed
qed

lemma shrink_inv: "vault_inv v n \<Longrightarrow> vault_inv (shrink v) n"
proof (induction v rule: shrink.induct)
  case (1 v)
  show ?case
  proof (cases "current_buffer_count v > needed_buffer_count v \<and> first_self v \<noteq> None")
    case True
    then obtain i where i: "first_self v = Some i" "current_buffer_count v > needed_buffer_count v" by auto
    have "(i, Owner_Self) \<in> set (vault_buffers v)" using first_self_in i(1) by blast
    then have "vault_inv (v\<lparr>current_buffer_count := current_buffer_count v - 1, vault_buffers := map_erase i (vault_buffers v)\<rparr>) n"
      using 1(2) i(2) by (intro vault_inv_erase) (auto simp: vault_inv_def intro: rev_image_eqI)
    then show ?thesis using 1(1) i by (subst shrink.simps) simp
  next
    case False
    then show ?thesis using 1(2) by (subst shrink.simps) auto
  qed
qed

lemma set_interval_inv:
  assumes "vault_inv v n"
  shows "vault_inv (set_interval i v) n"
proof -
  have "vault_inv (shrink (v\<lparr>interval := i, needed_buffer_count := initial_buffer_count v\<rparr>)) n"
    by (rule shrink_inv) (use assms in \<open>auto simp: vault_inv_def\<close>)
  moreover have "vault_inv (alloc_buffer (vault_size v) (v\<lparr>interval := 0, current_buffer_count := current_buffer_count v + 1,
      needed_buffer_count := needed_buffer_count v + 1\<rparr>)) n"
    using assms by (auto simp: vault_inv_def)
  ultimately show ?thesis using assms by (auto simp: set_interval_def Let_def)
qed

lemma disconnected_inv: "vault_inv v n \<Longrightarrow> vault_inv (disconnected v) n"
  by (auto simp: disconnected_def vault_inv_def [of "v\<lparr>is_disconnected := True, promises := []\<rparr>"] vault_inv_def [of v])

section \<open>Runs\<close>

text \<open>
  The steps: the client's calls, and what the connection does.  A requested buffer \<open>arrives\<close> with an
  id the vault does not have, of any size (the size may have changed since the request); a buffer the
  server has is \<open>returned\<close>; a buffer the vault no longer has is \<open>removed\<close> from the map; and the
  connection may be \<open>lost\<close>.
\<close>

inductive vault_step :: "BufferVault \<Rightarrow> nat \<Rightarrow> BufferVault \<Rightarrow> nat \<Rightarrow> bool" where
  withdraw: "vault_step v n (snd (withdraw v)) n"
| deposit: "vault_step v n (snd (deposit i v)) n"
| send: "vault_step v n (snd (outbound_send i v)) n"
| wait: "vault_step v n (snd (outbound_wait cb v)) n"
| arrives: "\<lbrakk>n < allocations v; i \<notin> fst ` set (vault_buffers v); surface_map v = Some m; cb_id b = i;
             v' = v\<lparr>surface_map := Some (insert_buffer i (received b) m)\<rparr>\<rbrakk>
            \<Longrightarrow> vault_step v n (snd (wire_transfer_inbound i v')) (Suc n)"
| returned: "\<lbrakk>map_of (vault_buffers v) i = Some Owner_Server; v' = update_buffer i received v\<rbrakk>
            \<Longrightarrow> vault_step v n (snd (wire_transfer_inbound i v')) n"
| removed: "\<lbrakk>i \<notin> fst ` set (vault_buffers v); surface_map v = Some m\<rbrakk>
            \<Longrightarrow> vault_step v n (v\<lparr>surface_map := Some (erase_buffer i m)\<rparr>) n"
| lost: "vault_step v n (v\<lparr>surface_map := None\<rparr>) n"
| set_size: "vault_step v n (vault_set_size sz v) n"
| set_scale: "vault_step v n (set_scale sc v) n"
| set_interval: "vault_step v n (set_interval k v) n"
| disconnected: "vault_step v n (disconnected v) n"

inductive vault_reachable :: "BufferVault \<Rightarrow> nat \<Rightarrow> bool" where
  start: "0 < k \<Longrightarrow> vault_reachable (new_BufferVault smap sz format usage k) 0"
| step: "vault_reachable v n \<Longrightarrow> vault_step v n v' n' \<Longrightarrow> vault_reachable v' n'"

lemma new_vault_inv: "0 < k \<Longrightarrow> vault_inv (new_BufferVault smap sz format usage k) 0"
proof -
  have "allocations ((alloc_buffer sz ^^ k) v) = k + allocations v \<and> vault_buffers ((alloc_buffer sz ^^ k) v) = vault_buffers v \<and>
      promises ((alloc_buffer sz ^^ k) v) = promises v \<and>
      current_buffer_count ((alloc_buffer sz ^^ k) v) = current_buffer_count v \<and>
      needed_buffer_count ((alloc_buffer sz ^^ k) v) = needed_buffer_count v \<and>
      initial_buffer_count ((alloc_buffer sz ^^ k) v) = initial_buffer_count v" for v
    by (induction k) auto
  then show "0 < k \<Longrightarrow> ?thesis" by (simp add: new_BufferVault_def vault_inv_def) (simp add: allocations_def)
qed

lemma vault_inv_map:
  assumes "vault_inv v n" "surface_map v = Some m" "i \<notin> fst ` set (vault_buffers v)"
  shows "vault_inv (v\<lparr>surface_map := Some (m\<lparr>csm_buffers := (csm_buffers m)(i := x)\<rparr>)\<rparr>) n"
proof -
  have "known_buffer (v\<lparr>surface_map := Some (m\<lparr>csm_buffers := (csm_buffers m)(i := x)\<rparr>)\<rparr>) e"
    if "e \<in> set (vault_buffers v)" for e
    using assms that by (auto simp: vault_inv_def known_buffer_def)
  then show ?thesis using assms(1) by (auto simp: vault_inv_def)
qed

lemma vault_step_inv: "vault_step v n v' n' \<Longrightarrow> vault_inv v n \<Longrightarrow> vault_inv v' n'"
proof (induction rule: vault_step.induct)
  case (arrives n v i m b v')
  have "vault_inv v' n" using vault_inv_map [of v n m i "Some (received b)"] arrives by (simp add: insert_buffer_def)
  moreover have "checked_buffer_from_map v' i = Inr (received b)"
    using arrives by (simp add: checked_buffer_from_map_def csm_buffer_def insert_buffer_def)
  moreover have "known_buffer v' (i, Owner_Self)"
    using arrives by (auto simp: known_buffer_def insert_buffer_def received_def)
  ultimately show ?case using arrives by (intro inbound_arrived_inv) auto
next
  case (returned v i v' n)
  have "vault_inv v' n" using returned update_buffer_inv [of v n received i] by (auto simp: received_def)
  moreover have "known_buffer v' (i, Owner_Self)"
    using vault_inv_known [OF returned(3,1)] by (auto simp: returned(2) known_buffer_def update_buffer_def received_def split: option.splits)
  ultimately show ?case
    using returned(1,2) by (intro inbound_returned_inv) (auto dest: map_of_SomeD intro: rev_image_eqI)
next
  case (removed i v m n)
  then show ?case using vault_inv_map [of v n m i None] by (simp add: erase_buffer_def)
next
  case (lost v n)
  then show ?case by (auto simp: vault_inv_def known_buffer_def)
qed (simp_all add: withdraw_inv deposit_inv outbound_send_inv outbound_wait_inv set_interval_inv disconnected_inv
      vault_set_size_def set_scale_def)

lemma vault_reachable_inv: "vault_reachable v n \<Longrightarrow> vault_inv v n"
  by (induction rule: vault_reachable.induct) (auto simp: new_vault_inv intro: vault_step_inv)


lemma vault_checked:
  assumes "vault_inv v n" "map_of (vault_buffers v) i = Some ow" "surface_map v \<noteq> None"
  obtains b where "checked_buffer_from_map v i = Inr b" "cb_id b = i" "ow \<noteq> Owner_Server \<Longrightarrow> cb_owned b"
  using vault_inv_known [OF assms(1,2)] assms(3) that
  by (auto simp: known_buffer_def checked_buffer_from_map_def csm_buffer_def split: option.splits)

text \<open>
  C22: a buffer the client has withdrawn can be deposited and then sent, without an exception while the
  connection lives; it is then the server's.
\<close>

theorem withdrawn_buffer_can_be_sent:
  assumes "vault_reachable v n" "map_of (vault_buffers v) i = Some Owner_ContentProducer" "surface_map v \<noteq> None"
  shows "\<exists>v1 v2. deposit i v = (Inr (), v1) \<and> outbound_send i v1 = (Inr (), v2) \<and>
    map_of (vault_buffers v2) i = Some Owner_Server \<and> last (vault_log v2) = Submit_buffer i"
proof -
  have inv: "vault_inv v n" by (rule vault_reachable_inv [OF assms(1)])
  obtain b where b: "checked_buffer_from_map v i = Inr b" "cb_owned b"
    by (rule vault_checked [OF inv assms(2,3)]) simp
  obtain m where m: "surface_map v = Some m" "csm_buffers m i = Some b"
    using b(1) by (auto simp: checked_buffer_from_map_def csm_buffer_def split: option.splits)
  let ?v1 = "update_buffer i increment_age (set_owner i Owner_SelfWithContent v)"
  have 1: "deposit i v = (Inr (), ?v1)"
    using assms(2) b(1) by (simp add: deposit_def checked_frame [of "set_owner i Owner_SelfWithContent v" v])
  have "checked_buffer_from_map (set_owner i Owner_Server ?v1) i = Inr (increment_age b)"
    using m by (simp add: checked_buffer_from_map_def csm_buffer_def update_buffer_def)
  moreover have "cb_owned (increment_age b)" using b(2) by (simp add: increment_age_def)
  ultimately show ?thesis
    using 1 by (simp add: outbound_send_def submitted_def log_vault_def Let_def)
qed

lemma free_wrong_sizes_total:
  assumes "vault_inv v n" "surface_map v \<noteq> None" "set es \<subseteq> set (vault_buffers v)" "distinct (map fst es)"
  shows "\<not> isl (fst (free_wrong_sizes es v))"
  using assms
proof (induction es arbitrary: v)
  case (Cons e es)
  obtain i ow where e: "e = (i, ow)" by fastforce
  have o: "ordered (vault_buffers v)" using Cons.prems(1) by (simp add: vault_inv_def)
  have i: "map_of (vault_buffers v) i = Some ow" using Cons.prems(3) ordered_map_of [OF o] by (auto simp: e)
  obtain b where b: "checked_buffer_from_map v i = Inr b" by (rule vault_checked [OF Cons.prems(1) i Cons.prems(2)])
  let ?v = "v\<lparr>current_buffer_count := current_buffer_count v - 1, vault_buffers := map_erase i (vault_buffers v)\<rparr>"
  show ?case
  proof (cases "ow = Owner_Self \<and> cb_size b \<noteq> vault_size v")
    case True
    have "promises v = []" using Cons.prems(1,3) True by (force simp: vault_inv_def e)
    then have "vault_inv ?v n" using vault_inv_erase [OF Cons.prems(1), of i] i by (force dest: map_of_SomeD)
    then have "\<not> isl (fst (free_wrong_sizes es ?v))"
      using Cons.IH [of ?v] Cons.prems(2-4) by (auto simp: set_erase e)
    then show ?thesis using True b by (cases "free_wrong_sizes es ?v"; cases "fst (free_wrong_sizes es ?v)") (auto simp: e)
  next
    case False
    then show ?thesis using Cons b by (auto simp: e)
  qed
qed simp

definition usable_buffer :: "BufferVault \<Rightarrow> int \<Rightarrow> bool" where
  "usable_buffer v i \<longleftrightarrow> (i, Owner_Self) \<in> set (vault_buffers v) \<and>
     (case checked_buffer_from_map v i of Inl _ \<Rightarrow> False | Inr b \<Rightarrow> cb_size b = vault_size v)"

lemma free_wrong_sizes_usable:
  assumes "free_wrong_sizes es v = (r, v')" "usable_buffer v i"
  shows "usable_buffer v' i"
  using assms
proof (induction es v arbitrary: r v' rule: free_wrong_sizes.induct)
  case (2 j ow es v)
  show ?case
  proof (cases "checked_buffer_from_map v j")
    case (Inl e)
    then show ?thesis using 2 by auto
  next
    case b: (Inr b)
    let ?v = "v\<lparr>current_buffer_count := current_buffer_count v - 1, vault_buffers := map_erase j (vault_buffers v)\<rparr>"
    show ?thesis
    proof (cases "ow = Owner_Self \<and> cb_size b \<noteq> vault_size v")
      case True
      then have "usable_buffer ?v i" using 2(4) b by (auto simp: usable_buffer_def set_erase checked_frame [of ?v v] split: sum.splits)
      moreover obtain r1 where "free_wrong_sizes es ?v = (r1, v')"
        using 2(3) True b by (cases "free_wrong_sizes es ?v"; cases "fst (free_wrong_sizes es ?v)") auto
      ultimately show ?thesis using 2(1) [OF b True] by simp
    next
      case False
      then show ?thesis using 2(2) [OF b False] 2(3,4) b by auto
    qed
  qed
qed simp

lemma find_available_total:
  assumes "vault_inv v n" "surface_map v \<noteq> None" "set es \<subseteq> set (vault_buffers v)"
  shows "\<exists>r. find_available v P es = Inr r"
  using assms(3)
proof (induction es)
  case (Cons e es)
  obtain i ow where e: "e = (i, ow)" by fastforce
  have "ordered (vault_buffers v)" using assms(1) by (simp add: vault_inv_def)
  then have i: "map_of (vault_buffers v) i = Some ow" using Cons.prems ordered_map_of [of "vault_buffers v" i ow] by (simp add: e)
  obtain b where "checked_buffer_from_map v i = Inr b" by (rule vault_checked [OF assms(1) i assms(2)])
  then show ?case using Cons by (auto simp: e)
qed simp

lemma available_total:
  assumes "vault_inv v n" "surface_map v \<noteq> None"
  shows "\<exists>r. available_buffer v = Inr r"
  using find_available_total [OF assms subset_refl] unfolding available_buffer_def
  by (metis (no_types, lifting) option.exhaust option.simps(4,5) sum.simps(6))

lemma available_usable: "available_buffer v = Inr (Some i) \<Longrightarrow> usable_buffer v i"
  using available_Some [of v i] by (auto simp: usable_buffer_def)

lemma available_none_usable: "available_buffer v = Inr None \<Longrightarrow> \<not> usable_buffer v i"
  using available_None [of v i] by (auto simp: usable_buffer_def)

lemma fold_free_fields:
  "vault_buffers (fold free_buffer ids v) = vault_buffers v" "promises (fold free_buffer ids v) = promises v"
  "set (vault_log v) \<subseteq> set (vault_log (fold free_buffer ids v))"
  by (induction ids arbitrary: v) (auto simp: free_buffer_def log_vault_def subset_iff)

lemma alloc_promises [simp]: "promises (alloc_buffer sz v) = promises v"
  by simp

lemma free_wrong_sizes_promise:
  "free_wrong_sizes es v = (r, v') \<Longrightarrow> next_promise v' = next_promise v"
proof (induction es v arbitrary: r v' rule: free_wrong_sizes.induct)
  case (2 j ow es v)
  then show ?case
    by (cases "checked_buffer_from_map v j")
       (auto simp: and_then_def split: if_splits prod.splits sum.splits)
qed simp

text \<open>
  While the connection lives, \<open>withdraw\<close> does not throw.  It takes an idle buffer of the right
  size when there is one, and only otherwise leaves the client waiting, behind those who wait
  already.
\<close>

theorem withdraw_correct:
  assumes "vault_reachable v n" "\<not> is_disconnected v" "surface_map v \<noteq> None"
  shows "\<exists>v'. withdraw v = (Inr (next_promise v), v') \<and>
    (if \<exists>i. usable_buffer v i
     then \<exists>i. usable_buffer v i \<and> map_of (vault_buffers v') i = Some Owner_ContentProducer \<and>
            Fulfilled (next_promise v) i \<in> set (vault_log v') \<and> promises v' = promises v
     else promises v' = promises v @ [next_promise v])"
proof -
  have inv: "vault_inv v n" by (rule vault_reachable_inv [OF assms(1)])
  have o: "distinct (map fst (vault_buffers v))" using inv ordered_distinct by (auto simp: vault_inv_def)
  obtain ids v1 where f: "free_wrong_sizes (vault_buffers v) v = (Inr ids, v1)"
    using free_wrong_sizes_total [OF inv assms(3) subset_refl o]
    by (cases "free_wrong_sizes (vault_buffers v) v"; cases "fst (free_wrong_sizes (vault_buffers v) v)") auto
  note spec = free_wrong_sizes_spec [OF f inv subset_refl o] and p = free_wrong_sizes_promise [OF f]
  have usable_buffer: "usable_buffer v1 i = usable_buffer v i" for i
  proof
    assume "usable_buffer v1 i"
    moreover have "checked_buffer_from_map v1 i = checked_buffer_from_map v i" using spec by (intro checked_frame) simp
    ultimately show "usable_buffer v i" using spec by (auto simp: usable_buffer_def split: sum.splits)
  qed (rule free_wrong_sizes_usable [OF f])
  have "surface_map v1 \<noteq> None" using spec assms(3) by simp
  then obtain found where a: "available_buffer v1 = Inr found" using available_total spec by blast
  show ?thesis
  proof (cases found)
    case None
    then have "\<not> usable_buffer v i" for i using available_none_usable a usable_buffer by blast
    then show ?thesis
      using assms(2) f a None spec p by (auto simp: withdraw_def take_buffer_def Let_def fold_free_fields)
  next
    case (Some i)
    then have u: "usable_buffer v1 i" using available_usable a by blast
    then obtain b where "checked_buffer_from_map v1 i = Inr b" by (auto simp: usable_buffer_def split: sum.splits)
    then have b: "checked_buffer_from_map (set_owner i Owner_ContentProducer (v1\<lparr>next_promise := Suc (next_promise v1)\<rparr>)) i = Inr b"
      by (simp add: checked_buffer_from_map_def)
    let ?v2 = "log_vault (Fulfilled (next_promise v1) i)
      (set_owner i Owner_ContentProducer (v1\<lparr>next_promise := Suc (next_promise v1)\<rparr>))"
    have "withdraw v = (Inr (next_promise v), fold free_buffer ids ?v2)"
      using assms(2) f a Some b p by (simp add: withdraw_def take_buffer_def Let_def)
    moreover have "Fulfilled (next_promise v1) i \<in> set (vault_log ?v2)" by (simp add: log_vault_def)
    then have "Fulfilled (next_promise v) i \<in> set (vault_log (fold free_buffer ids ?v2))"
      using fold_free_fields(3) [of ?v2 ids] p by auto
    ultimately show ?thesis using u usable_buffer spec by (auto simp: fold_free_fields)
  qed
qed

section \<open>A concrete vault\<close>

definition arrive :: "int \<Rightarrow> BufferVault \<Rightarrow> BufferVault" where
  "arrive i v =
     snd (wire_transfer_inbound i (v\<lparr>surface_map :=
       Some (insert_buffer i (received (new_Buffer (Some 1) i (mk_size 4 4) 2)) (the (surface_map v)))\<rparr>))"

definition sample_vault :: BufferVault where
  "sample_vault = arrive 7 (new_BufferVault (Some new_ConnectionSurfaceMap) (mk_size 4 4) 1 2 1)"

lemmas vault_eval =
  arrive_def new_BufferVault_def wire_transfer_inbound_def checked_buffer_from_map_def csm_buffer_def insert_buffer_def
  received_def new_Buffer_def new_ConnectionSurfaceMap_def set_owner_def hand_over_def trigger_callback_def
  alloc_buffer_def log_vault_def Let_def

lemma sample_vault_eval:
  "vault_buffers sample_vault = [(7, Owner_Self)]" "surface_map sample_vault \<noteq> None" "\<not> is_disconnected sample_vault"
  "promises sample_vault = []" "next_promise sample_vault = 0" "usable_buffer sample_vault i \<longleftrightarrow> i = 7"
  by (auto simp: sample_vault_def vault_eval usable_buffer_def)

lemma sample_vault_reachable: "vault_reachable sample_vault 1"
proof -
  let ?v = "new_BufferVault (Some new_ConnectionSurfaceMap) (mk_size 4 4) 1 2 1"
  have "vault_step ?v 0 sample_vault (Suc 0)"
    unfolding sample_vault_def arrive_def
    by (rule vault_step.arrives [OF _ _ _ _ refl]) (simp_all add: vault_eval allocations_def)
  moreover have "vault_reachable ?v 0" by (rule vault_reachable.start) simp
  ultimately show ?thesis using vault_reachable.step by fastforce
qed

theorem withdraw_correct_witness:
  "\<exists>v'. withdraw sample_vault = (Inr 0, v') \<and> map_of (vault_buffers v') 7 = Some Owner_ContentProducer"
proof -
  obtain v' where "withdraw sample_vault = (Inr 0, v')" "\<exists>i. i = 7 \<and> map_of (vault_buffers v') i = Some Owner_ContentProducer"
    using withdraw_correct [OF sample_vault_reachable sample_vault_eval(3,2)] by (auto simp: sample_vault_eval)
  then show ?thesis by blast
qed


theorem withdrawn_buffer_can_be_sent_witness:
  "\<exists>v v1 v2. v = snd (withdraw sample_vault) \<and> deposit 7 v = (Inr (), v1) \<and> outbound_send 7 v1 = (Inr (), v2) \<and>
     last (vault_log v2) = Submit_buffer 7"
proof -
  let ?v = "snd (withdraw sample_vault)"
  have r: "vault_reachable ?v 1" using sample_vault_reachable vault_step.withdraw by (rule vault_reachable.step)
  have "surface_map ?v \<noteq> None" "map_of (vault_buffers ?v) 7 = Some Owner_ContentProducer"
    by (simp_all add: withdraw_def sample_vault_def vault_eval available_buffer_def take_buffer_def)
  then show ?thesis using withdrawn_buffer_can_be_sent [OF r, of 7] by blast
qed

end
