(* ===== verification/Frame_Clock.thy ===== *)
theory Frame_Clock
  imports Mir_Prelude "HOL-Library.Signed_Division"
begin

text \<open>
  \<open>client::FrameClock\<close> (\<^verbatim>\<open>src/client/frame_clock.cpp\<close>) with \<open>PosixTimestamp\<close>
  (\<^verbatim>\<open>include/common/mir/time/posix_timestamp.h\<close>): when a client should draw its next frame.

  The clock of the system and the callback that asks for the last hardware frame are parameters:
  \<open>now1\<close> is what \<open>get_current_time\<close> answers at its first call, \<open>now_cb\<close> what it answers to the
  fallback callback, and \<open>now2\<close> what it answers after the callback.  The lemmas assume of them only that \<open>get_current_time(c)\<close> is a time
  of clock \<open>c\<close>.  \<open>assert(target > now)\<close> is the error \<open>fatal_error\<close>.
\<close>

record PosixTimestamp =
  clock_id :: nat
  nanoseconds :: int

abbreviation (input) CLOCK_MONOTONIC :: nat where "CLOCK_MONOTONIC \<equiv> 1"

definition assert_same_clock :: "PosixTimestamp \<Rightarrow> PosixTimestamp \<Rightarrow> 'a \<Rightarrow> 'a result" where
  "assert_same_clock a b x =
     (if clock_id a \<noteq> clock_id b then Inl (logic_error ''Can't compare different time domains'') else Inr x)"

definition ts_plus :: "PosixTimestamp \<Rightarrow> int \<Rightarrow> PosixTimestamp" where
  "ts_plus a ns = a\<lparr>nanoseconds := nanoseconds a + ns\<rparr>"

definition ts_minus :: "PosixTimestamp \<Rightarrow> int \<Rightarrow> PosixTimestamp" where
  "ts_minus a ns = a\<lparr>nanoseconds := nanoseconds a - ns\<rparr>"

definition ts_diff :: "PosixTimestamp \<Rightarrow> PosixTimestamp \<Rightarrow> int result" where
  "ts_diff a b = assert_same_clock a b (nanoseconds a - nanoseconds b)"

definition ts_greater :: "PosixTimestamp \<Rightarrow> PosixTimestamp \<Rightarrow> bool result" where
  "ts_greater a b = assert_same_clock a b (nanoseconds a > nanoseconds b)"

definition ts_mod :: "PosixTimestamp \<Rightarrow> int \<Rightarrow> int" where
  "ts_mod a ns = nanoseconds a smod ns"

record FrameClock =
  config_changed :: bool
  period :: int
  resync_callback :: "PosixTimestamp option"

definition new_FrameClock :: FrameClock where
  "new_FrameClock = \<lparr>config_changed = False, period = 0, resync_callback = None\<rparr>"

definition set_period :: "int \<Rightarrow> FrameClock \<Rightarrow> FrameClock" where
  "set_period ns c = c\<lparr>period := ns, config_changed := True\<rparr>"

text \<open>The callback is its next answer; \<open>None\<close> is the fallback.\<close>

definition set_resync_callback :: "PosixTimestamp \<Rightarrow> FrameClock \<Rightarrow> FrameClock" where
  "set_resync_callback answer c = c\<lparr>resync_callback := Some answer, config_changed := True\<rparr>"

definition fallback_resync_callback :: "(nat \<Rightarrow> PosixTimestamp) \<Rightarrow> FrameClock \<Rightarrow> PosixTimestamp" where
  "fallback_resync_callback get_current_time c =
     (let now = get_current_time CLOCK_MONOTONIC
      in if period c \<noteq> 0 then ts_minus now (ts_mod now (period c)) else now)"

definition resync :: "(nat \<Rightarrow> PosixTimestamp) \<Rightarrow> FrameClock \<Rightarrow> PosixTimestamp" where
  "resync get_current_time c =
     (case resync_callback c of Some answer \<Rightarrow> answer | None \<Rightarrow> fallback_resync_callback get_current_time c)"

definition resync_target :: "int \<Rightarrow> PosixTimestamp \<Rightarrow> PosixTimestamp \<Rightarrow> PosixTimestamp result" where
  "resync_target per server_frame now =
     (case ts_greater server_frame now of
        Inl e \<Rightarrow> Inl e
      | Inr True \<Rightarrow> Inr server_frame
      | Inr False \<Rightarrow>
          (case ts_diff now server_frame of
             Inl e \<Rightarrow> Inl e
           | Inr age_ns \<Rightarrow> Inr (ts_plus server_frame ((age_ns sdiv per + 1) * per))))"

definition missed_frames :: "int \<Rightarrow> PosixTimestamp \<Rightarrow> PosixTimestamp \<Rightarrow> int result" where
  "missed_frames per now target =
     (case ts_greater now target of
        Inl e \<Rightarrow> Inl e
      | Inr True \<Rightarrow> map_sum id (\<lambda>d. d sdiv per) (ts_diff now target)
      | Inr False \<Rightarrow> Inr 0)"

definition next_frame_after ::
    "(nat \<Rightarrow> PosixTimestamp) \<Rightarrow> (nat \<Rightarrow> PosixTimestamp) \<Rightarrow> (nat \<Rightarrow> PosixTimestamp) \<Rightarrow> PosixTimestamp \<Rightarrow> FrameClock \<Rightarrow>
       (FrameClock, PosixTimestamp) outcome" where
  "next_frame_after now1 now_cb now2 prev c =
     (if period c = 0 then (Inr prev, c)
      else
        let target = ts_plus prev (period c); now = now1 (clock_id target)
        in case missed_frames (period c) now target of
             Inl e \<Rightarrow> (Inl e, c)
           | Inr missed \<Rightarrow>
               if missed > 1 \<or> config_changed c
               then
                 let server_frame = resync now_cb c; now = now2 (clock_id server_frame)
                 in case resync_target (period c) server_frame now of
                      Inl e \<Rightarrow> (Inl e, c)
                    | Inr target \<Rightarrow>
                        (case ts_greater target now of
                           Inr True \<Rightarrow> (Inr target, c\<lparr>config_changed := False\<rparr>)
                         | _ \<Rightarrow> (Inl (fatal_error ''assertion target > now''), c))
               else if missed > 0 then (Inr (ts_plus target (missed * period c)), c)
               else (Inr target, c))"

section \<open>What a client can rely on\<close>

definition clocks_ok :: "(nat \<Rightarrow> PosixTimestamp) \<Rightarrow> bool" where
  "clocks_ok now \<longleftrightarrow> (\<forall>c. clock_id (now c) = c)"

lemma sdiv_pos: "0 \<le> a \<Longrightarrow> 0 < b \<Longrightarrow> a sdiv b = a div (b :: int)"
  by (cases "a = 0") (simp_all add: signed_divide_int_def)

lemma missed_frames_eq:
  assumes "clock_id now = clock_id target" "0 < per"
  shows "missed_frames per now target =
    Inr (if nanoseconds now > nanoseconds target then (nanoseconds now - nanoseconds target) div per else 0)"
  using assms by (simp add: missed_frames_def ts_greater_def ts_diff_def assert_same_clock_def sdiv_pos)

lemma div_step: "0 < (b :: int) \<Longrightarrow> a < (a div b + 1) * b \<and> (a div b + 1) * b \<le> a + b"
  by (metis add.commute add_diff_cancel_left' add_left_mono distrib_right le_add_same_cancel1 less_add_same_cancel1
      minus_mod_eq_div_mult mult.commute mult_1 pos_mod_bound pos_mod_sign diff_add_cancel diff_less_eq le_diff_eq
      less_diff_eq add_diff_eq diff_diff_eq2 group_cancel.sub1 linorder_not_le)

lemma div_ge_iff:
  assumes "0 < (b :: int)"
  shows "k \<le> a div b \<longleftrightarrow> k * b \<le> a"
proof
  assume "k \<le> a div b"
  then have "k * b \<le> (a div b) * b" using assms by (intro mult_right_mono) auto
  then show "k * b \<le> a" using div_step [OF assms, of a] unfolding distrib_right by linarith
next
  assume "k * b \<le> a"
  then have "k * b < (a div b + 1) * b" using div_step [OF assms, of a] by linarith
  then show "k \<le> a div b" using assms by (simp add: mult_less_cancel_right_disj)
qed

lemma resync_target_correct:
  assumes "clock_id now = clock_id f" "0 < per"
  obtains t where "resync_target per f now = Inr t" "clock_id t = clock_id f" "nanoseconds now < nanoseconds t"
    "nanoseconds t \<le> max (nanoseconds f) (nanoseconds now + per)" "\<exists>k. nanoseconds t = nanoseconds f + k * per"
proof (cases "nanoseconds f > nanoseconds now")
  case True
  then show ?thesis
    using assms that [of f] by (auto simp: resync_target_def ts_greater_def assert_same_clock_def intro: exI [of _ 0])
next
  case False
  let ?k = "(nanoseconds now - nanoseconds f) div per + 1"
  have "resync_target per f now = Inr (ts_plus f (?k * per))"
    using False assms by (simp add: resync_target_def ts_greater_def ts_diff_def assert_same_clock_def sdiv_pos)
  then show ?thesis
    using that div_step [OF assms(2), of "nanoseconds now - nanoseconds f"] by (force simp: ts_plus_def)
qed


definition steady :: "int \<Rightarrow> nat \<Rightarrow> PosixTimestamp" where
  "steady t c = \<lparr>clock_id = c, nanoseconds = t\<rparr>"


end
