(* ===== verification/Key_Repeat.thy ===== *)
theory Key_Repeat
  imports Alarm Input_Events
begin

text \<open>
  \<open>input::KeyRepeatDispatcher\<close> (\<^verbatim>\<open>src/server/input/key_repeat_dispatcher.cpp\<close>): a stage of the input
  pipeline that makes repeat events for the keys that are held down.  The calls it makes on the next
  dispatcher are a log, with the result of \<open>dispatch\<close> there a parameter, as are the cookies the
  authority makes.  Every held key has an alarm, which stands with the values its callback captured.

  \<open>held_after\<close> and \<open>passed_on\<close> are the specification: the set of held keys, and what is sent on.  The
  lemmas show that the dispatcher implements it and that the alarm of a held key is always set.
\<close>

record KeyEvent =
  kev_device :: nat
  kev_time :: int
  kev_cookie :: "nat list"
  kev_action :: MirKeyboardAction
  kev_key_code :: nat
  kev_scan_code :: int
  kev_modifiers :: nat

datatype DispatchedEvent = Key_event KeyEvent | Not_key_event nat

datatype NextCall = Next_dispatch DispatchedEvent | Next_start | Next_stop

record RepeatAlarm =
  repeat_alarm :: AlarmImpl
  captured_key_code :: nat
  captured_modifiers :: nat

record KeyRepeatDispatcher =
  repeat_enabled :: bool
  repeat_timeout :: int
  repeat_delay :: int
  disable_repeat_on_touchscreen :: bool
  touch_button_device :: "nat option"
  repeat_state_by_device :: "nat \<Rightarrow> (int \<Rightarrow> RepeatAlarm option) option"
  next_calls :: "NextCall list"

definition new_KeyRepeatDispatcher :: "bool \<Rightarrow> int \<Rightarrow> int \<Rightarrow> bool \<Rightarrow> KeyRepeatDispatcher" where
  "new_KeyRepeatDispatcher enabled timeout delay disable_on_touchscreen =
     \<lparr>repeat_enabled = enabled, repeat_timeout = timeout, repeat_delay = delay,
      disable_repeat_on_touchscreen = disable_on_touchscreen, touch_button_device = None,
      repeat_state_by_device = Map.empty, next_calls = []\<rparr>"

definition next_call :: "NextCall \<Rightarrow> KeyRepeatDispatcher \<Rightarrow> KeyRepeatDispatcher" where
  "next_call c k = k\<lparr>next_calls := next_calls k @ [c]\<rparr>"

section \<open>Devices\<close>

definition set_touch_button_device :: "nat \<Rightarrow> KeyRepeatDispatcher \<Rightarrow> KeyRepeatDispatcher" where
  "set_touch_button_device i k = k\<lparr>touch_button_device := Some i\<rparr>"

definition remove_device :: "nat \<Rightarrow> KeyRepeatDispatcher \<Rightarrow> KeyRepeatDispatcher" where
  "remove_device i k =
     k\<lparr>repeat_state_by_device := (repeat_state_by_device k)(i := None),
       touch_button_device := (if touch_button_device k = Some i then None else touch_button_device k)\<rparr>"

text \<open>The observer \<open>DeviceRemovalFilter\<close> that the dispatcher registers with the device hub.\<close>

definition filter_device_added :: "string \<Rightarrow> nat \<Rightarrow> KeyRepeatDispatcher \<Rightarrow> KeyRepeatDispatcher" where
  "filter_device_added name i k = (if name = ''mtk-tpd'' then set_touch_button_device i k else k)"

definition filter_device_removed :: "nat \<Rightarrow> KeyRepeatDispatcher \<Rightarrow> KeyRepeatDispatcher" where
  "filter_device_removed i k = remove_device i k"

section \<open>Events\<close>

definition ensure_state_for_device :: "nat \<Rightarrow> KeyRepeatDispatcher \<Rightarrow> KeyRepeatDispatcher" where
  "ensure_state_for_device i k =
     k\<lparr>repeat_state_by_device := (repeat_state_by_device k)
         (i := Some (case repeat_state_by_device k i of Some m \<Rightarrow> m | None \<Rightarrow> Map.empty))\<rparr>"

definition device_state :: "nat \<Rightarrow> KeyRepeatDispatcher \<Rightarrow> int \<Rightarrow> RepeatAlarm option" where
  "device_state i k = (case repeat_state_by_device k i of Some m \<Rightarrow> m | None \<Rightarrow> Map.empty)"

definition set_repeat :: "nat \<Rightarrow> int \<Rightarrow> RepeatAlarm option \<Rightarrow> KeyRepeatDispatcher \<Rightarrow> KeyRepeatDispatcher" where
  "set_repeat i scan_code a k =
     k\<lparr>repeat_state_by_device := (repeat_state_by_device k)(i \<mapsto> (device_state i k)(scan_code := a))\<rparr>"

definition clone_event ::
  "(int \<Rightarrow> nat list) \<Rightarrow> int \<Rightarrow> nat \<Rightarrow> int \<Rightarrow> nat \<Rightarrow> nat \<Rightarrow> KeyRepeatDispatcher \<Rightarrow> KeyRepeatDispatcher" where
  "clone_event make_cookie now i scan_code key_code modifiers k =
     next_call (Next_dispatch (Key_event
       \<lparr>kev_device = i, kev_time = now, kev_cookie = make_cookie now, kev_action = mir_keyboard_action_repeat,
        kev_key_code = key_code, kev_scan_code = scan_code, kev_modifiers = modifiers\<rparr>)) k"

definition handle_key_input ::
  "(int \<Rightarrow> nat list) \<Rightarrow> int \<Rightarrow> nat \<Rightarrow> KeyEvent \<Rightarrow> KeyRepeatDispatcher \<Rightarrow> (KeyRepeatDispatcher, bool) outcome" where
  "handle_key_input make_cookie now i kev k =
     (let k = ensure_state_for_device i k;
          scan_code = kev_scan_code kev
      in case kev_action kev of
           mir_keyboard_action_up \<Rightarrow>
             (case device_state i k scan_code of
                None \<Rightarrow> (Inr False, k)
              | Some _ \<Rightarrow> (Inr False, set_repeat i scan_code None k))
         | mir_keyboard_action_down \<Rightarrow>
             (case device_state i k scan_code of
                Some _ \<Rightarrow> (Inr True, clone_event make_cookie now i scan_code (kev_key_code kev) (kev_modifiers kev) k)
              | None \<Rightarrow>
                  (Inr False,
                   set_repeat i scan_code
                     (Some \<lparr>repeat_alarm = snd (alarm_reschedule_in now (repeat_timeout k) AlarmImpl_new),
                            captured_key_code = kev_key_code kev, captured_modifiers = kev_modifiers kev\<rparr>) k))
         | mir_keyboard_action_repeat \<Rightarrow> (Inr False, k)
         | _ \<Rightarrow> (Inl (logic_error ''Unexpected key event action''), k))"

text \<open>The callback of an alarm, when the main loop dispatches it.\<close>

definition repeat_alarm_fires ::
  "(int \<Rightarrow> nat list) \<Rightarrow> int \<Rightarrow> nat \<Rightarrow> int \<Rightarrow> KeyRepeatDispatcher \<Rightarrow> KeyRepeatDispatcher" where
  "repeat_alarm_fires make_cookie now i scan_code k =
     (case device_state i k scan_code of
        None \<Rightarrow> k
      | Some a \<Rightarrow>
          let k = clone_event make_cookie now i scan_code (captured_key_code a) (captured_modifiers a) k
          in set_repeat i scan_code
               (Some (a\<lparr>repeat_alarm := snd (alarm_reschedule_in now (repeat_delay k) (alarm_dispatch (repeat_alarm a)))\<rparr>)) k)"

definition krd_dispatch ::
  "(DispatchedEvent \<Rightarrow> bool) \<Rightarrow> (int \<Rightarrow> nat list) \<Rightarrow> int \<Rightarrow> DispatchedEvent \<Rightarrow> KeyRepeatDispatcher \<Rightarrow>
     (KeyRepeatDispatcher, bool) outcome" where
  "krd_dispatch handled_next make_cookie now ev k =
     (let forward = (\<lambda>k. (Inr (handled_next ev), next_call (Next_dispatch ev) k))
      in if \<not> repeat_enabled k then forward k
         else case ev of
           Not_key_event _ \<Rightarrow> forward k
         | Key_event kev \<Rightarrow>
             if disable_repeat_on_touchscreen k \<and> touch_button_device k = Some (kev_device kev) then forward k
             else and_then (handle_key_input make_cookie now (kev_device kev) kev k)
                    (\<lambda>handled k. if \<not> handled then forward k else (Inr True, k)))"

definition krd_start :: "KeyRepeatDispatcher \<Rightarrow> KeyRepeatDispatcher" where
  "krd_start k = next_call Next_start k"

definition krd_stop :: "KeyRepeatDispatcher \<Rightarrow> KeyRepeatDispatcher" where
  "krd_stop k = next_call Next_stop (k\<lparr>repeat_state_by_device := Map.empty\<rparr>)"

section \<open>What it should do\<close>

definition held_keys :: "KeyRepeatDispatcher \<Rightarrow> (nat \<times> int) set" where
  "held_keys k = {(i, scan_code). device_state i k scan_code \<noteq> None}"

definition repeats_for :: "KeyRepeatDispatcher \<Rightarrow> KeyEvent \<Rightarrow> bool" where
  "repeats_for k kev \<longleftrightarrow>
     repeat_enabled k \<and> \<not> (disable_repeat_on_touchscreen k \<and> touch_button_device k = Some (kev_device kev))"

definition held_after :: "KeyEvent \<Rightarrow> (nat \<times> int) set \<Rightarrow> (nat \<times> int) set" where
  "held_after kev H =
     (case kev_action kev of
        mir_keyboard_action_down \<Rightarrow> insert (kev_device kev, kev_scan_code kev) H
      | mir_keyboard_action_up \<Rightarrow> H - {(kev_device kev, kev_scan_code kev)}
      | _ \<Rightarrow> H)"

definition passed_on :: "(int \<Rightarrow> nat list) \<Rightarrow> int \<Rightarrow> KeyEvent \<Rightarrow> (nat \<times> int) set \<Rightarrow> KeyEvent list" where
  "passed_on make_cookie now kev H =
     (if kev_action kev = mir_keyboard_actions then []
      else if kev_action kev = mir_keyboard_action_down \<and> (kev_device kev, kev_scan_code kev) \<in> H
      then [kev\<lparr>kev_time := now, kev_cookie := make_cookie now, kev_action := mir_keyboard_action_repeat\<rparr>]
      else [kev])"

lemma device_state_set_repeat [simp]:
  "device_state i (set_repeat j c a k) = (if i = j then (device_state j k)(c := a) else device_state i k)"
  by (simp add: device_state_def set_repeat_def)

lemma device_state_ensure [simp]: "device_state i (ensure_state_for_device j k) = device_state i k"
  by (simp add: device_state_def ensure_state_for_device_def split: option.split)

lemma device_state_next_call [simp]: "device_state i (next_call c k) = device_state i k"
  by (simp add: device_state_def next_call_def)

lemma device_state_remove_device [simp]:
  "device_state i (remove_device j k) = (if i = j then Map.empty else device_state i k)"
  by (simp add: device_state_def remove_device_def)

lemma held_keys_next_call [simp]: "held_keys (next_call c k) = held_keys k"
  by (simp add: held_keys_def)

lemma settings_kept [simp]:
  "next_calls (ensure_state_for_device j k) = next_calls k"
  "next_calls (set_repeat j c a k) = next_calls k"
  "next_calls (next_call nc k) = next_calls k @ [nc]"
  "repeat_timeout (ensure_state_for_device j k) = repeat_timeout k"
  "repeat_delay (ensure_state_for_device j k) = repeat_delay k"
  "repeat_delay (next_call nc k) = repeat_delay k"
  by (simp_all add: ensure_state_for_device_def set_repeat_def next_call_def)

lemma dispatch_repeating:
  assumes "repeats_for k kev"
    and "r = krd_dispatch handled_next make_cookie now (Key_event kev) k"
  shows "held_keys (snd r) = held_after kev (held_keys k)"
    and "next_calls (snd r) = next_calls k @ map (Next_dispatch \<circ> Key_event) (passed_on make_cookie now kev (held_keys k))"
    and "isl (fst r) \<longleftrightarrow> kev_action kev = mir_keyboard_actions"
  using assms(1) unfolding assms(2)
  by (cases "kev_action kev"; cases "device_state (kev_device kev) k (kev_scan_code kev)";
      auto simp: krd_dispatch_def repeats_for_def handle_key_input_def held_keys_def held_after_def passed_on_def
        clone_event_def split: if_splits)+

lemma dispatch_not_repeating:
  assumes "\<forall>kev. ev = Key_event kev \<longrightarrow> \<not> repeats_for k kev"
  shows "krd_dispatch handled_next make_cookie now ev k = (Inr (handled_next ev), next_call (Next_dispatch ev) k)"
  using assms by (cases ev) (auto simp: krd_dispatch_def repeats_for_def)

text \<open>
  C25: The dispatcher implements its specification: a key event of a device that repeats leaves the
  keys held that should be, and sends on what should be sent, in which a second press of a held key
  has become a repeat; only an action that is no action throws, and it sends nothing.  Events of the touch
  button device, events that are no key events, and all events when repeating is off are sent on as they
  are and hold no key.
\<close>

theorem key_repeat_refines:
  "(\<forall>kev. repeats_for k kev \<longrightarrow>
      (let (result, k') = krd_dispatch handled_next make_cookie now (Key_event kev) k
       in held_keys k' = held_after kev (held_keys k) \<and>
          next_calls k' = next_calls k @ map (Next_dispatch \<circ> Key_event) (passed_on make_cookie now kev (held_keys k)) \<and>
          (isl result \<longleftrightarrow> kev_action kev = mir_keyboard_actions))) \<and>
   ((\<forall>kev. ev = Key_event kev \<longrightarrow> \<not> repeats_for k kev) \<longrightarrow>
      (let (result, k') = krd_dispatch handled_next make_cookie now ev k
       in result = Inr (handled_next ev) \<and> held_keys k' = held_keys k \<and> next_calls k' = next_calls k @ [Next_dispatch ev]))"
  by (auto simp: case_prod_unfold dispatch_repeating [OF _ refl] dispatch_not_repeating)

section \<open>The alarms\<close>

definition alarms_set :: "KeyRepeatDispatcher \<Rightarrow> bool" where
  "alarms_set k \<longleftrightarrow> (\<forall>i c a. device_state i k c = Some a \<longrightarrow> alarm_state (repeat_alarm a) = Alarm_pending)"

inductive krd_reachable :: "KeyRepeatDispatcher \<Rightarrow> bool" where
  Start: "krd_reachable (new_KeyRepeatDispatcher enabled timeout delay dis)"
| Dispatch: "krd_reachable k \<Longrightarrow> krd_reachable (snd (krd_dispatch handled_next make_cookie now ev k))"
| Fire: "krd_reachable k \<Longrightarrow> krd_reachable (repeat_alarm_fires make_cookie now i scan_code k)"
| Added: "krd_reachable k \<Longrightarrow> krd_reachable (filter_device_added name i k)"
| Removed: "krd_reachable k \<Longrightarrow> krd_reachable (filter_device_removed i k)"
| Started: "krd_reachable k \<Longrightarrow> krd_reachable (krd_start k)"
| Stopped: "krd_reachable k \<Longrightarrow> krd_reachable (krd_stop k)"

lemma alarms_set_repeat:
  assumes "alarms_set k" and "\<And>b. a = Some b \<Longrightarrow> alarm_state (repeat_alarm b) = Alarm_pending"
  shows "alarms_set (set_repeat i c a k)"
  using assms by (auto simp: alarms_set_def)

lemma alarms_set_kept [simp]:
  "alarms_set (ensure_state_for_device j k) = alarms_set k" "alarms_set (next_call c k) = alarms_set k"
  "alarms_set k \<Longrightarrow> alarms_set (remove_device j k)"
  by (auto simp: alarms_set_def)

lemma alarms_set_dispatch: "alarms_set k \<Longrightarrow> alarms_set (snd (krd_dispatch handled_next make_cookie now ev k))"
  by (auto simp: krd_dispatch_def handle_key_input_def clone_event_def Let_def and_then_def alarm_facts
        intro!: alarms_set_repeat split: DispatchedEvent.split MirKeyboardAction.split option.split prod.split)

lemma alarms_set_reachable: "krd_reachable k \<Longrightarrow> alarms_set k"
proof (induction rule: krd_reachable.induct)
  case (Start enabled timeout delay dis)
  then show ?case by (simp add: alarms_set_def new_KeyRepeatDispatcher_def device_state_def)
next
  case (Fire k make_cookie now i scan_code)
  then show ?case
    by (auto simp: repeat_alarm_fires_def clone_event_def Let_def alarm_facts intro!: alarms_set_repeat split: option.split)
next
  case (Added k name i)
  then show ?case by (auto simp: filter_device_added_def set_touch_button_device_def alarms_set_def device_state_def)
next
  case (Stopped k)
  then show ?case by (auto simp: krd_stop_def alarms_set_def device_state_def next_call_def)
qed (simp_all add: alarms_set_dispatch filter_device_removed_def krd_start_def)

text \<open>
  In every run a held key repeats for as long as it is held: its alarm is set, and when it fires it
  sends one repeat event and is set again, \<open>repeat_delay\<close> later, with no key more or less held.  A key
  that is not held does not repeat.
\<close>

theorem held_key_repeats:
  assumes "krd_reachable k" and "(i, scan_code) \<in> held_keys k"
  shows "\<exists>a k'. device_state i k scan_code = Some a \<and> alarm_state (repeat_alarm a) = Alarm_pending \<and>
           k' = repeat_alarm_fires make_cookie now i scan_code k \<and>
           next_calls k' = next_calls k @ [Next_dispatch (Key_event
             \<lparr>kev_device = i, kev_time = now, kev_cookie = make_cookie now, kev_action = mir_keyboard_action_repeat,
              kev_key_code = captured_key_code a, kev_scan_code = scan_code, kev_modifiers = captured_modifiers a\<rparr>)] \<and>
           held_keys k' = held_keys k \<and>
           map_option (gsource \<circ> repeat_alarm) (device_state i k' scan_code) = Some (Some (now + repeat_delay k))"
proof -
  obtain a where a: "device_state i k scan_code = Some a" using assms(2) by (auto simp: held_keys_def)
  moreover have "alarm_state (repeat_alarm a) = Alarm_pending"
    using alarms_set_reachable [OF assms(1)] a unfolding alarms_set_def by blast
  ultimately show ?thesis
    by (auto simp: repeat_alarm_fires_def clone_event_def held_keys_def alarm_reschedule_in_def
        alarm_reschedule_for_def set_eq_iff)
qed

section \<open>An example\<close>

definition key :: "MirKeyboardAction \<Rightarrow> KeyEvent" where
  "key action = \<lparr>kev_device = 1, kev_time = 0, kev_cookie = [], kev_action = action, kev_key_code = 30,
                 kev_scan_code = 30, kev_modifiers = 1\<rparr>"

definition keyboard :: KeyRepeatDispatcher where
  "keyboard = new_KeyRepeatDispatcher True 500 50 False"

theorem key_repeat_refines_witness:
  "repeats_for keyboard (key mir_keyboard_action_down) \<and>
   held_keys (snd (krd_dispatch (\<lambda>_. True) (\<lambda>_. []) 7 (Key_event (key mir_keyboard_action_down)) keyboard)) = {(1, 30)}"
proof -
  have r: "repeats_for keyboard (key mir_keyboard_action_down)"
    by (simp add: repeats_for_def keyboard_def new_KeyRepeatDispatcher_def)
  moreover have "held_keys keyboard = {}"
    by (simp add: held_keys_def keyboard_def new_KeyRepeatDispatcher_def device_state_def)
  ultimately show ?thesis
    using key_repeat_refines [of keyboard "\<lambda>_. True" "\<lambda>_. []" 7 "Not_key_event 0", THEN conjunct1, rule_format, OF r]
    by (simp add: held_after_def key_def case_prod_unfold Let_def)
qed

theorem held_key_repeats_witness:
  "held_keys (repeat_alarm_fires (\<lambda>_. []) 9 1 30
     (snd (krd_dispatch (\<lambda>_. True) (\<lambda>_. []) 7 (Key_event (key mir_keyboard_action_down)) keyboard))) = {(1, 30)}"
proof -
  let ?k = "snd (krd_dispatch (\<lambda>_. True) (\<lambda>_. []) 7 (Key_event (key mir_keyboard_action_down)) keyboard)"
  have "krd_reachable ?k" unfolding keyboard_def by (intro krd_reachable.intros)
  moreover have "held_keys ?k = {(1, 30)}"
    using dispatch_repeating(1) [OF _ refl, of keyboard "key mir_keyboard_action_down" "\<lambda>_. True" "\<lambda>_. []" 7]
    by (simp add: repeats_for_def keyboard_def new_KeyRepeatDispatcher_def held_after_def key_def held_keys_def device_state_def)
  ultimately show ?thesis using held_key_repeats [of ?k 1 30 "\<lambda>_. []" 9] by auto
qed

end
