(* ===== verification/Window_Info.thy ===== *)
theory Window_Info
  imports Basic_Surface "HOL-Library.Signed_Division"
begin

text \<open>
  \<open>SurfaceInfo\<close>, what the window managers know of a window
  (\<^verbatim>\<open>src/server/shell/window_management_info.cpp\<close>): the rules of the window types and the
  constraints on a resize.  Quotients round towards zero as in C++ (\<open>sdiv\<close>, \<open>smod\<close>); the fields are
  \<open>int\<close> and the products are computed in \<open>long\<close>, so no product wraps.  A division by zero, which a
  size increment or an aspect ratio with a zero gives, is a \<open>fatal_error\<close>.  The titlebar of the
  example shells is left out.
\<close>

record SurfaceAspectRatio =
  ar_width :: nat
  ar_height :: nat

record SurfaceInfo =
  info_type :: int
  info_state :: int
  restore_rect :: Rectangle
  info_session :: nat
  info_parent :: "SurfacePtr option"
  children :: "SurfacePtr list"
  min_width :: int
  min_height :: int
  max_width :: int
  max_height :: int
  width_inc :: "int option"
  height_inc :: "int option"
  min_aspect :: "SurfaceAspectRatio option"
  max_aspect :: "SurfaceAspectRatio option"
  info_output_id :: "int option"
  confine_pointer :: "int option"

record SurfaceCreationParameters =
  par_name :: string
  par_size :: Size
  par_top_left :: Point
  par_output_id :: int
  par_state :: "int option"
  par_type :: "int option"
  par_parent :: "SurfacePtr option"
  par_aux_rect :: "Rectangle option"
  par_edge_attachment :: "nat option"
  par_min_width :: "int option"
  par_min_height :: "int option"
  par_max_width :: "int option"
  par_max_height :: "int option"
  par_width_inc :: "int option"
  par_height_inc :: "int option"
  par_min_aspect :: "SurfaceAspectRatio option"
  par_max_aspect :: "SurfaceAspectRatio option"

definition value_or :: "'a option \<Rightarrow> 'a \<Rightarrow> 'a" where
  "value_or x d = (case x of Some v \<Rightarrow> v | None \<Rightarrow> d)"

definition new_SurfaceInfo :: "nat \<Rightarrow> BasicSurface \<Rightarrow> SurfaceCreationParameters \<Rightarrow> SurfaceInfo" where
  "new_SurfaceInfo session surface params =
     \<lparr>info_type = sf_type surface, info_state = sf_state surface,
      restore_rect = mk_rect (top_left (sf_rect surface)) (surface_size surface),
      info_session = session, info_parent = par_parent params, children = [],
      min_width = value_or (par_min_width params) 0, min_height = value_or (par_min_height params) 0,
      max_width = value_or (par_max_width params) INT_MAX, max_height = value_or (par_max_height params) INT_MAX,
      width_inc = par_width_inc params, height_inc = par_height_inc params,
      min_aspect = par_min_aspect params, max_aspect = par_max_aspect params,
      info_output_id = (if par_output_id params \<noteq> 0 then Some (par_output_id params) else None),
      confine_pointer = None\<rparr>"

section \<open>The rules of the window types\<close>

definition can_be_active :: "SurfaceInfo \<Rightarrow> bool" where
  "can_be_active info \<longleftrightarrow>
     info_type info \<in> {mir_window_type_normal, mir_window_type_utility, mir_window_type_dialog,
                       mir_window_type_satellite, mir_window_type_freestyle, mir_window_type_menu,
                       mir_window_type_inputmethod}"

definition must_have_parent :: "SurfaceInfo \<Rightarrow> bool" where
  "must_have_parent info \<longleftrightarrow>
     info_type info \<in> {mir_window_type_gloss, mir_window_type_inputmethod, mir_window_type_satellite,
                       mir_window_type_tip}"

definition can_morph_to :: "SurfaceInfo \<Rightarrow> int \<Rightarrow> bool" where
  "can_morph_to info new_type =
     (if new_type \<in> {mir_window_type_normal, mir_window_type_utility, mir_window_type_satellite}
      then info_type info \<in> {mir_window_type_normal, mir_window_type_utility, mir_window_type_dialog,
                             mir_window_type_satellite}
      else if new_type = mir_window_type_dialog
      then info_type info \<in> {mir_window_type_normal, mir_window_type_utility, mir_window_type_dialog,
                             mir_window_type_menu, mir_window_type_satellite}
      else False)"

definition must_not_have_parent :: "SurfaceInfo \<Rightarrow> bool" where
  "must_not_have_parent info \<longleftrightarrow> info_type info \<in> {mir_window_type_normal, mir_window_type_utility}"

definition is_visible :: "SurfaceInfo \<Rightarrow> bool" where
  "is_visible info \<longleftrightarrow> info_state info \<notin> {mir_window_state_hidden, mir_window_state_minimized}"

definition needs_titlebar :: "int \<Rightarrow> bool" where
  "needs_titlebar t \<longleftrightarrow>
     t \<notin> {mir_window_type_freestyle, mir_window_type_menu, mir_window_type_inputmethod, mir_window_type_gloss,
          mir_window_type_tip}"

section \<open>Constraining a resize\<close>

definition long_div :: "int \<Rightarrow> int \<Rightarrow> int result" where
  "long_div a b = (if b = 0 then Inl (fatal_error ''division by zero'') else Inr (a sdiv b))"

text \<open>
  The two corrections of a size whose aspect ratio is off by \<open>error\<close>, rounded up.
\<close>

definition corrections :: "int \<Rightarrow> SurfaceAspectRatio \<Rightarrow> (int \<times> int) result" where
  "corrections err ar =
     (case long_div (err + (int (ar_height ar) - 1)) (int (ar_height ar)) of
        Inl e \<Rightarrow> Inl e
      | Inr width_correction \<Rightarrow>
          (case long_div (err + (int (ar_width ar) - 1)) (int (ar_width ar)) of
             Inl e \<Rightarrow> Inl e
           | Inr height_correction \<Rightarrow> Inr (width_correction, height_correction)))"

definition apply_min_aspect :: "SurfaceAspectRatio option \<Rightarrow> Size \<Rightarrow> Size result" where
  "apply_min_aspect aspect new_size =
     (case aspect of
        None \<Rightarrow> Inr new_size
      | Some ar \<Rightarrow>
          let err = height new_size * int (ar_width ar) - width new_size * int (ar_height ar)
          in if err > 0 then
               map_sum id (\<lambda>(width_correction, height_correction).
                 if width_correction < height_correction
                 then new_size\<lparr>width := width new_size + width_correction\<rparr>
                 else new_size\<lparr>height := height new_size - height_correction\<rparr>) (corrections err ar)
             else Inr new_size)"

definition apply_max_aspect :: "SurfaceAspectRatio option \<Rightarrow> Size \<Rightarrow> Size result" where
  "apply_max_aspect aspect new_size =
     (case aspect of
        None \<Rightarrow> Inr new_size
      | Some ar \<Rightarrow>
          let err = width new_size * int (ar_height ar) - height new_size * int (ar_width ar)
          in if err > 0 then
               map_sum id (\<lambda>(width_correction, height_correction).
                 if width_correction < height_correction
                 then new_size\<lparr>width := width new_size - width_correction\<rparr>
                 else new_size\<lparr>height := height new_size + height_correction\<rparr>) (corrections err ar)
             else Inr new_size)"

definition apply_limits :: "SurfaceInfo \<Rightarrow> Size \<Rightarrow> Size" where
  "apply_limits info new_size =
     (let s1 = (if min_width info > width new_size then new_size\<lparr>width := min_width info\<rparr> else new_size);
          s2 = (if min_height info > height s1 then s1\<lparr>height := min_height info\<rparr> else s1);
          s3 = (if max_width info < width s2 then s2\<lparr>width := max_width info\<rparr> else s2)
      in if max_height info < height s3 then s3\<lparr>height := max_height info\<rparr> else s3)"

text \<open>The nearest value of the form \<open>minimum + k * inc\<close>.\<close>

definition round_to_increment :: "int option \<Rightarrow> int \<Rightarrow> int \<Rightarrow> int result" where
  "round_to_increment increment minimum v =
     (case increment of
        None \<Rightarrow> Inr v
      | Some inc \<Rightarrow>
          if inc = 0 then Inl (fatal_error ''division by zero'')
          else let w = v - minimum
               in if w smod inc \<noteq> 0 then Inr (minimum + inc * (((2 * w + inc) sdiv 2) sdiv inc)) else Inr v)"

definition anchor_to_surface :: "SurfaceInfo \<Rightarrow> BasicSurface \<Rightarrow> Point \<times> Size \<Rightarrow> Point \<times> Size" where
  "anchor_to_surface info surface = (\<lambda>(new_pos, new_size).
     let tlp = top_left (sf_rect surface); sz = surface_size surface
     in if info_state info = mir_window_state_restored then (new_pos, new_size)
        else if info_state info = mir_window_state_vertmaximized
        then (new_pos\<lparr>pt_y := pt_y tlp\<rparr>, new_size\<lparr>height := height sz\<rparr>)
        else if info_state info = mir_window_state_horizmaximized
        then (new_pos\<lparr>pt_x := pt_x tlp\<rparr>, new_size\<lparr>width := width sz\<rparr>)
        else (new_pos\<lparr>pt_x := pt_x tlp, pt_y := pt_y tlp\<rparr>, new_size\<lparr>width := width sz, height := height sz\<rparr>))"

definition constrain_size :: "SurfaceInfo \<Rightarrow> Size \<Rightarrow> Size result" where
  "constrain_size info requested_size =
     (case apply_min_aspect (min_aspect info) requested_size of
        Inl e \<Rightarrow> Inl e
      | Inr s1 \<Rightarrow>
          (case apply_max_aspect (max_aspect info) s1 of
             Inl e \<Rightarrow> Inl e
           | Inr s2 \<Rightarrow>
               let s3 = apply_limits info s2
               in (case round_to_increment (width_inc info) (min_width info) (width s3) of
                     Inl e \<Rightarrow> Inl e
                   | Inr w \<Rightarrow>
                       (case round_to_increment (height_inc info) (min_height info) (height s3) of
                          Inl e \<Rightarrow> Inl e
                        | Inr h \<Rightarrow> Inr (s3\<lparr>width := w, height := h\<rparr>)))))"

definition constrain_resize ::
    "SurfaceInfo \<Rightarrow> BasicSurface \<Rightarrow> Point \<Rightarrow> Size \<Rightarrow> bool \<Rightarrow> bool \<Rightarrow> (Point \<times> Size) result" where
  "constrain_resize info surface requested_pos requested_size left_resize top_resize =
     map_sum id (\<lambda>new_size.
       let p1 = (if left_resize
                 then requested_pos\<lparr>pt_x := pt_x requested_pos + (width new_size - width requested_size)\<rparr>
                 else requested_pos);
           p2 = (if top_resize
                 then p1\<lparr>pt_y := pt_y p1 + (height new_size - height requested_size)\<rparr> else p1)
       in anchor_to_surface info surface (p2, new_size)) (constrain_size info requested_size)"

section \<open>What a constrained resize guarantees\<close>

lemma sdiv_nonneg: "0 \<le> a \<Longrightarrow> 0 < b \<Longrightarrow> a sdiv b = a div (b :: int)"
  by (cases "a = 0") (simp_all add: signed_divide_int_def)

lemma smod_nonneg: "0 \<le> a \<Longrightarrow> 0 < b \<Longrightarrow> a smod b = a mod (b :: int)"
  by (cases "a = 0") (simp_all add: signed_modulo_int_def signed_divide_int_def minus_div_mult_eq_mod)

definition increment_ok :: "int option \<Rightarrow> bool" where
  "increment_ok inc \<longleftrightarrow> (case inc of None \<Rightarrow> True | Some i \<Rightarrow> 0 < i)"

definition aspect_ok :: "SurfaceAspectRatio option \<Rightarrow> bool" where
  "aspect_ok a \<longleftrightarrow> (case a of None \<Rightarrow> True | Some r \<Rightarrow> 0 < ar_width r \<and> 0 < ar_height r)"

text \<open>A side after the limits \<open>lo\<close> and \<open>hi\<close> and the increment: on the grid and near the limits.\<close>

definition side_ok :: "int option \<Rightarrow> int \<Rightarrow> int \<Rightarrow> int \<Rightarrow> bool" where
  "side_ok inc lo hi v \<longleftrightarrow>
     lo \<le> v \<and> (case inc of None \<Rightarrow> v \<le> hi | Some i \<Rightarrow> i dvd (v - lo) \<and> 2 * v \<le> 2 * hi + i)"

lemma round_nearest:
  fixes w inc :: int
  assumes "0 \<le> w" "0 < inc"
  defines "r \<equiv> inc * (((2 * w + inc) sdiv 2) sdiv inc)"
  shows "inc dvd r" "0 \<le> r" "2 * r \<le> 2 * w + inc"
proof -
  let ?q = "(2 * w + inc) div (2 * inc)"
  have "(2 * w + inc) sdiv 2 = (2 * w + inc) div 2" using assms by (intro sdiv_nonneg) auto
  moreover have "((2 * w + inc) div 2) sdiv inc = (2 * w + inc) div 2 div inc" using assms by (intro sdiv_nonneg) auto
  ultimately have r: "r = inc * ?q" using assms(2) zdiv_zmult2_eq [of inc "2 * w + inc" 2] by (simp add: r_def)
  show "inc dvd r" by (simp add: r)
  have "0 \<le> ?q" using assms by (simp add: pos_imp_zdiv_nonneg_iff)
  then show "0 \<le> r" using assms(2) by (simp add: r)
  have "2 * inc * ?q + (2 * w + inc) mod (2 * inc) = 2 * w + inc" by (rule mult_div_mod_eq)
  moreover have "0 \<le> (2 * w + inc) mod (2 * inc)" using assms(2) by simp
  ultimately have "2 * inc * ?q \<le> 2 * w + inc" by linarith
  then show "2 * r \<le> 2 * w + inc" by (simp add: r)
qed

lemma round_to_increment_ok:
  assumes "increment_ok inc" "lo \<le> v" "v \<le> hi"
  obtains v' where "round_to_increment inc lo v = Inr v'" "side_ok inc lo hi v'"
proof (cases inc)
  case None
  with assms that show ?thesis by (simp add: round_to_increment_def side_ok_def)
next
  case (Some i)
  then have i: "0 < i" using assms(1) by (simp add: increment_ok_def)
  define w where "w = v - lo"
  have w: "0 \<le> w" using assms(2) by (simp add: w_def)
  show ?thesis
  proof (cases "w mod i = 0")
    case True
    then have "round_to_increment inc lo v = Inr v" using Some i w by (simp add: round_to_increment_def w_def smod_nonneg)
    moreover have "side_ok inc lo hi v" using True Some i assms by (simp add: side_ok_def w_def mod_eq_0_iff_dvd)
    ultimately show ?thesis by (rule that)
  next
    case False
    let ?r = "i * (((2 * w + i) sdiv 2) sdiv i)"
    have "round_to_increment inc lo v = Inr (lo + ?r)" using False Some i w by (simp add: round_to_increment_def w_def smod_nonneg)
    moreover have "side_ok inc lo hi (lo + ?r)" using round_nearest [OF w i] Some assms by (simp add: side_ok_def w_def)
    ultimately show ?thesis by (rule that)
  qed
qed

lemma corrections_total: "0 < ar_width ar \<Longrightarrow> 0 < ar_height ar \<Longrightarrow> \<exists>c. corrections err ar = Inr c"
  by (simp add: corrections_def long_div_def)

lemma aspect_total:
  assumes "aspect_ok a"
  shows "\<exists>s'. apply_min_aspect a s = Inr s'" "\<exists>s'. apply_max_aspect a s = Inr s'"
proof -
  have "\<exists>s'. apply_min_aspect a s = Inr s' \<and> (\<exists>s'. apply_max_aspect a s = Inr s')"
  proof (cases a)
    case (Some ar)
    then have ar: "0 < ar_width ar" "0 < ar_height ar" using assms by (simp_all add: aspect_ok_def)
    obtain c c' where
      "corrections (height s * int (ar_width ar) - width s * int (ar_height ar)) ar = Inr c"
      "corrections (width s * int (ar_height ar) - height s * int (ar_width ar)) ar = Inr c'"
      using corrections_total [OF ar] by metis
    then show ?thesis by (simp add: apply_min_aspect_def apply_max_aspect_def Some Let_def)
  qed (simp add: apply_min_aspect_def apply_max_aspect_def)
  then show "\<exists>s'. apply_min_aspect a s = Inr s'" "\<exists>s'. apply_max_aspect a s = Inr s'" by blast+
qed

lemma apply_limits_bounds:
  assumes "min_width info \<le> max_width info" "min_height info \<le> max_height info"
  shows "min_width info \<le> width (apply_limits info s) \<and> width (apply_limits info s) \<le> max_width info \<and>
         min_height info \<le> height (apply_limits info s) \<and> height (apply_limits info s) \<le> max_height info"
  using assms by (auto simp: apply_limits_def Let_def)

definition constraints_ok :: "SurfaceInfo \<Rightarrow> bool" where
  "constraints_ok info \<longleftrightarrow>
     increment_ok (width_inc info) \<and> increment_ok (height_inc info) \<and>
     aspect_ok (min_aspect info) \<and> aspect_ok (max_aspect info) \<and>
     min_width info \<le> max_width info \<and> min_height info \<le> max_height info"

lemma constrain_size_ok:
  assumes "constraints_ok info"
  obtains s' where "constrain_size info s = Inr s'"
    "side_ok (width_inc info) (min_width info) (max_width info) (width s')"
    "side_ok (height_inc info) (min_height info) (max_height info) (height s')"
proof -
  obtain s1 where s1: "apply_min_aspect (min_aspect info) s = Inr s1"
    using aspect_total(1) [of "min_aspect info" s] assms by (auto simp: constraints_ok_def)
  obtain s2 where s2: "apply_max_aspect (max_aspect info) s1 = Inr s2"
    using aspect_total(2) [of "max_aspect info" s1] assms by (auto simp: constraints_ok_def)
  let ?s3 = "apply_limits info s2"
  have b: "min_width info \<le> width ?s3" "width ?s3 \<le> max_width info" "min_height info \<le> height ?s3" "height ?s3 \<le> max_height info"
    using apply_limits_bounds assms by (auto simp: constraints_ok_def)
  obtain w where w: "round_to_increment (width_inc info) (min_width info) (width ?s3) = Inr w"
    "side_ok (width_inc info) (min_width info) (max_width info) w"
    using round_to_increment_ok [OF _ b(1,2)] assms by (auto simp: constraints_ok_def)
  obtain h where h: "round_to_increment (height_inc info) (min_height info) (height ?s3) = Inr h"
    "side_ok (height_inc info) (min_height info) (max_height info) h"
    using round_to_increment_ok [OF _ b(3,4)] assms by (auto simp: constraints_ok_def)
  show ?thesis using that [of "?s3\<lparr>width := w, height := h\<rparr>"] s1 s2 w h by (simp add: constrain_size_def Let_def)
qed

text \<open>
  with sensible constraints (positive increments and ratios, minimum not above maximum) a resize
  always gives a result.  A restored window gets sides that are not below the minimum, on the grid of
  the increment, and at most the maximum, or half an increment above it when there is an increment.
  A window maximised in one direction keeps its position and its side in that direction; in any other
  state the window does not change.
\<close>

theorem constrain_resize_correct:
  assumes "constraints_ok info"
  shows "\<exists>p s. constrain_resize info surface pos sz lft tp = Inr (p, s) \<and>
     (if info_state info = mir_window_state_restored
      then side_ok (width_inc info) (min_width info) (max_width info) (width s) \<and>
           side_ok (height_inc info) (min_height info) (max_height info) (height s)
      else if info_state info = mir_window_state_vertmaximized
      then pt_y p = pt_y (top_left (sf_rect surface)) \<and> height s = height (surface_size surface) \<and>
           side_ok (width_inc info) (min_width info) (max_width info) (width s)
      else if info_state info = mir_window_state_horizmaximized
      then pt_x p = pt_x (top_left (sf_rect surface)) \<and> width s = width (surface_size surface) \<and>
           side_ok (height_inc info) (min_height info) (max_height info) (height s)
      else p = top_left (sf_rect surface) \<and> s = surface_size surface)"
proof -
  obtain s' where s': "constrain_size info sz = Inr s'"
    "side_ok (width_inc info) (min_width info) (max_width info) (width s')"
    "side_ok (height_inc info) (min_height info) (max_height info) (height s')"
    using constrain_size_ok [OF assms] by metis
  show ?thesis
    by (cases "top_left (sf_rect surface)"; cases "surface_size surface"; cases pos; cases s')
       (use s' in \<open>auto simp: constrain_resize_def anchor_to_surface_def Let_def\<close>)
qed

text \<open>
  The increment is applied after the maximum, so a window can become larger than the maximum its
  client asked for.
\<close>

theorem increment_exceeds_maximum:
  "\<exists>info s. constraints_ok info \<and> max_width info = 15 \<and> constrain_size info (mk_size 15 1) = Inr s \<and> width s = 20"
proof -
  let ?info = "\<lparr>info_type = 0, info_state = 1, restore_rect = default_rectangle, info_session = 0, info_parent = None,
    children = [], min_width = 0, min_height = 0, max_width = 15, max_height = 15, width_inc = Some 10, height_inc = None,
    min_aspect = None, max_aspect = None, info_output_id = None, confine_pointer = None\<rparr>"
  have "constraints_ok ?info" by (simp add: constraints_ok_def increment_ok_def aspect_ok_def)
  moreover have "constrain_size ?info (mk_size 15 1) = Inr (mk_size 20 1)"
    by (simp add: constrain_size_def apply_min_aspect_def apply_max_aspect_def apply_limits_def round_to_increment_def
        signed_divide_int_def signed_modulo_int_def)
  ultimately show ?thesis by (intro exI [of _ ?info] exI [of _ "mk_size 20 1"]) simp
qed

text \<open>
  While its left edge is dragged, the right edge of a restored window ought to stay; the correction
  of the position is added instead of taken away, so the right edge moves by twice the difference
  between the constrained and the requested width.
\<close>

theorem left_resize_right_edge:
  assumes "constrain_resize info surface pos sz True tp = Inr (p, s)" "info_state info = mir_window_state_restored"
  shows "pt_x p + width s = (pt_x pos + width sz) + 2 * (width s - width sz)"
  using assms
  by (auto simp: constrain_resize_def anchor_to_surface_def Let_def constrain_size_def split: sum.splits if_splits)

definition sample_info :: SurfaceInfo where
  "sample_info =
     \<lparr>info_type = mir_window_type_normal, info_state = mir_window_state_restored,
      restore_rect = mk_rect (mk_point 0 0) (mk_size 20 20), info_session = 1, info_parent = None, children = [],
      min_width = 0, min_height = 0, max_width = 10, max_height = 10, width_inc = None, height_inc = Some 4,
      min_aspect = None, max_aspect = None, info_output_id = None, confine_pointer = None\<rparr>"

lemma sample_info_ok: "constraints_ok sample_info"
  by (simp add: sample_info_def constraints_ok_def increment_ok_def aspect_ok_def)

lemma sample_resize:
  "constrain_resize sample_info sample_surface (mk_point 0 0) (mk_size 20 7) True False =
     Inr (mk_point (- 10) 0, mk_size 10 8)"
  by (simp add: constrain_resize_def constrain_size_def apply_min_aspect_def apply_max_aspect_def apply_limits_def
      round_to_increment_def anchor_to_surface_def sample_info_def signed_divide_int_def signed_modulo_int_def)

theorem constrain_resize_correct_witness:
  "constraints_ok sample_info \<and> side_ok None 0 10 10 \<and> side_ok (Some 4) 0 10 8"
  using constrain_resize_correct [OF sample_info_ok, of sample_surface "mk_point 0 0" "mk_size 20 7" True False]
  by (simp add: sample_resize sample_info_ok, simp add: sample_info_def)

theorem left_resize_right_edge_witness: "- 10 + width (mk_size 10 8) = (0 + 20) + 2 * (10 - 20 :: int)"
  using left_resize_right_edge [OF sample_resize] by (simp add: sample_info_def)

end
