(* ===== verification/Window_Manager.thy ===== *)
theory Window_Manager
  imports Surface_Stack Window_Info Display_Config
begin

unbundle bit_operations_syntax

text \<open>
  The window manager: \<open>BasicWindowManager\<close> (\<^verbatim>\<open>src/server/shell/basic_window_manager.cpp\<close>) with
  \<open>CanonicalWindowManagerPolicy\<close> (\<^verbatim>\<open>canonical_window_manager.cpp\<close>) as its policy.

  The state is one record: the windows and their streams (\<^typ>\<open>SurfaceHeap\<close>), the \<open>SurfaceInfo\<close> and
  \<open>SessionInfo\<close> maps, the displays, and what the policy remembers.  The maps are association lists,
  so \<open>at\<close> on a missing key is the error \<open>out_of_range\<close>.  \<open>FocusController\<close> and \<open>scene::Session\<close>
  are interfaces the window manager is written against: a record of the operations it calls over a
  state of any type \<open>'f\<close>, the sessions being numbers.
  \<open>GraphicsDisplayLayout\<close> is its model in \<open>Display_Config\<close>.  Using a destroyed window is a null
  pointer, a \<open>fatal_error\<close>.

  \<open>move_tree\<close> and the collection of children recurse over the children of a window.  They run with
  fuel, one more than the number of known windows; running out of fuel is the endless recursion that
  a cycle of children would be.  For windows that form a tree the fuel is enough
  (\<open>move_tree_moves\<close>).
\<close>

record StreamSpecification =
  ss_stream_id :: nat
  ss_displacement :: Displacement
  ss_size :: "Size option"

record 'f FocusController =
  fc_focused_session :: "'f \<Rightarrow> nat option"
  fc_focused_surface :: "'f \<Rightarrow> SurfacePtr option"
  fc_surface_at :: "'f \<Rightarrow> Point \<Rightarrow> SurfacePtr option"
  fc_set_focus_to :: "nat option \<Rightarrow> SurfacePtr option \<Rightarrow> 'f \<Rightarrow> 'f"
  fc_focus_next_session :: "'f \<Rightarrow> 'f"
  fc_raise :: "SurfacePtr set \<Rightarrow> 'f \<Rightarrow> 'f"
  session_default_surface :: "'f \<Rightarrow> nat \<Rightarrow> SurfacePtr option"
  session_configure_streams :: "'f \<Rightarrow> nat \<Rightarrow> BasicSurface \<Rightarrow> StreamSpecification list \<Rightarrow> BasicSurface result"
  session_destroy_surface :: "nat \<Rightarrow> SurfacePtr \<Rightarrow> 'f \<Rightarrow> ('f, unit) outcome"
  session_surface_after :: "'f \<Rightarrow> nat \<Rightarrow> SurfacePtr \<Rightarrow> SurfacePtr option result"
  session_kill :: "nat \<Rightarrow> 'f \<Rightarrow> 'f"

record SurfaceSpecification =
  spec_width :: "int option"
  spec_height :: "int option"
  spec_name :: "string option"
  spec_output_id :: "int option"
  spec_type :: "int option"
  spec_state :: "int option"
  spec_min_width :: "int option"
  spec_min_height :: "int option"
  spec_max_width :: "int option"
  spec_max_height :: "int option"
  spec_width_inc :: "int option"
  spec_height_inc :: "int option"
  spec_min_aspect :: "SurfaceAspectRatio option"
  spec_max_aspect :: "SurfaceAspectRatio option"
  spec_streams :: "StreamSpecification list option"
  spec_parent :: "SurfacePtr option option"
  spec_input_shape :: "Rectangle list option"
  spec_confine_pointer :: "int option"

record 'f WindowManager =
  wm_heap :: SurfaceHeap
  wm_surface_info :: "(SurfacePtr \<times> SurfaceInfo) list"
  wm_session_info :: "(nat \<times> SurfacePtr list) list"
  wm_displays :: Rectangles
  wm_configuration :: DisplayConfiguration
  wm_view_areas :: "Rectangle list"
  wm_cursor :: Point
  wm_last_input_event_timestamp :: nat
  wm_focus :: 'f
  wm_display_area :: Rectangle
  wm_old_cursor :: Point
  wm_fullscreen_surfaces :: "SurfacePtr list"
  wm_resizing :: bool
  wm_left_resize :: bool
  wm_top_resize :: bool
  wm_active_surface :: "SurfacePtr option"
  wm_ready_observers :: "SurfacePtr list"

definition live :: "'f WindowManager \<Rightarrow> SurfacePtr \<Rightarrow> BasicSurface option" where
  "live wm p = live_surfaces (wm_heap wm) p"

definition lock_surface :: "'f WindowManager \<Rightarrow> SurfacePtr option \<Rightarrow> SurfacePtr option" where
  "lock_surface wm w = (case w of None \<Rightarrow> None | Some p \<Rightarrow> if live wm p = None then None else Some p)"

definition put_surface :: "SurfacePtr \<Rightarrow> BasicSurface \<Rightarrow> 'f WindowManager \<Rightarrow> 'f WindowManager" where
  "put_surface p s wm = wm\<lparr>wm_heap := (wm_heap wm)\<lparr>live_surfaces := (live_surfaces (wm_heap wm))(p := Some s)\<rparr>\<rparr>"

definition with_surface ::
    "SurfacePtr \<Rightarrow> (BasicSurface \<Rightarrow> 'f WindowManager \<Rightarrow> ('f WindowManager, 'a) outcome) \<Rightarrow>
       'f WindowManager \<Rightarrow> ('f WindowManager, 'a) outcome" where
  "with_surface p f wm =
     (case live wm p of None \<Rightarrow> (Inl (fatal_error ''null pointer''), wm) | Some s \<Rightarrow> f s wm)"

definition update_surface ::
    "SurfacePtr \<Rightarrow> (BasicSurface \<Rightarrow> BasicSurface) \<Rightarrow> 'f WindowManager \<Rightarrow> ('f WindowManager, unit) outcome" where
  "update_surface p f = with_surface p (\<lambda>s wm. (Inr (), put_surface p (f s) wm))"

definition resize_surface :: "SurfacePtr \<Rightarrow> Size \<Rightarrow> 'f WindowManager \<Rightarrow> ('f WindowManager, unit) outcome" where
  "resize_surface p sz = with_surface p (\<lambda>s wm.
     let (s', st') = surface_resize s (streams (wm_heap wm)) sz
     in (Inr (), put_surface p s' (wm\<lparr>wm_heap := (wm_heap wm)\<lparr>streams := st'\<rparr>\<rparr>)))"

definition configure_surface ::
    "SurfacePtr \<Rightarrow> MirWindowAttrib \<Rightarrow> int \<Rightarrow> 'f WindowManager \<Rightarrow> ('f WindowManager, int) outcome" where
  "configure_surface p attrib v = with_surface p (\<lambda>s wm.
     case configure s (streams (wm_heap wm)) attrib v of
       (r, (s', st')) \<Rightarrow> (r, put_surface p s' (wm\<lparr>wm_heap := (wm_heap wm)\<lparr>streams := st'\<rparr>\<rparr>)))"

section \<open>\<open>BasicWindowManager\<close> as the policy's tools\<close>

definition info_for :: "SurfacePtr \<Rightarrow> 'f WindowManager \<Rightarrow> ('f WindowManager, SurfaceInfo) outcome" where
  "info_for p wm =
     (case map_of (wm_surface_info wm) p of
        None \<Rightarrow> (Inl (out_of_range ''map::at''), wm)
      | Some i \<Rightarrow> (Inr i, wm))"

definition set_info :: "SurfacePtr \<Rightarrow> SurfaceInfo \<Rightarrow> 'f WindowManager \<Rightarrow> 'f WindowManager" where
  "set_info p i wm = wm\<lparr>wm_surface_info := AList.update p i (wm_surface_info wm)\<rparr>"

definition session_info_for :: "nat \<Rightarrow> 'f WindowManager \<Rightarrow> ('f WindowManager, SurfacePtr list) outcome" where
  "session_info_for session wm =
     (case map_of (wm_session_info wm) session of
        None \<Rightarrow> (Inl (out_of_range ''map::at''), wm)
      | Some ss \<Rightarrow> (Inr ss, wm))"

definition set_session_info :: "nat \<Rightarrow> SurfacePtr list \<Rightarrow> 'f WindowManager \<Rightarrow> 'f WindowManager" where
  "set_session_info session ss wm = wm\<lparr>wm_session_info := AList.update session ss (wm_session_info wm)\<rparr>"

definition best_display :: "Rectangle \<Rightarrow> Rectangles \<Rightarrow> Rectangle" where
  "best_display surface_rect displays =
     fst (fold (\<lambda>display (result, max_overlap_area).
            let intersection = rect_size (intersection_with surface_rect display)
            in if width intersection * height intersection > max_overlap_area
               then (display, width intersection * height intersection) else (result, max_overlap_area))
          displays (default_rectangle, - 1))"

definition active_display :: "'f FocusController \<Rightarrow> 'f WindowManager \<Rightarrow> Rectangle" where
  "active_display fc wm =
     (case lock_surface wm (fc_focused_surface fc (wm_focus wm)) of
        Some p \<Rightarrow> best_display (sf_rect (the (live wm p))) (wm_displays wm)
      | None \<Rightarrow>
          (case find (\<lambda>display. contains_point display (wm_cursor wm)) (wm_displays wm) of
             Some display \<Rightarrow> display
           | None \<Rightarrow> (case wm_displays wm of [] \<Rightarrow> default_rectangle | display # _ \<Rightarrow> display)))"

text \<open>The surfaces \<open>raise_tree\<close> collects.\<close>

function (sequential) add_children ::
    "nat \<Rightarrow> 'f WindowManager \<Rightarrow> SurfacePtr \<Rightarrow> SurfacePtr set result"
  and add_children_list :: "nat \<Rightarrow> 'f WindowManager \<Rightarrow> SurfacePtr list \<Rightarrow> SurfacePtr set result" where
  "add_children 0 wm p = Inl (fatal_error ''stack overflow'')"
| "add_children (Suc n) wm p =
     (case map_of (wm_surface_info wm) p of
        None \<Rightarrow> Inl (out_of_range ''map::at'')
      | Some i \<Rightarrow> map_sum id (\<lambda>ss. set (children i) \<union> ss) (add_children_list n wm (children i)))"
| "add_children_list n wm [] = Inr {}"
| "add_children_list n wm (c # cs) =
     (case add_children n wm c of
        Inl e \<Rightarrow> Inl e
      | Inr ss \<Rightarrow> map_sum id (\<lambda>ss'. ss \<union> ss') (add_children_list n wm cs))"
  by pat_completeness auto
termination
  by (relation "measures [\<lambda>x. case x of Inl (n, _) \<Rightarrow> n | Inr (n, _) \<Rightarrow> n,
                          \<lambda>x. case x of Inl _ \<Rightarrow> 0 | Inr (_, _, cs) \<Rightarrow> Suc (length cs)]") auto

definition tree_fuel :: "'f WindowManager \<Rightarrow> nat" where
  "tree_fuel wm = Suc (length (wm_surface_info wm))"

definition raise_tree :: "'f FocusController \<Rightarrow> SurfacePtr \<Rightarrow> 'f WindowManager \<Rightarrow> ('f WindowManager, unit) outcome" where
  "raise_tree fc root_p wm =
     (case add_children (tree_fuel wm) wm root_p of
        Inl e \<Rightarrow> (Inl e, wm)
      | Inr ss \<Rightarrow> (Inr (), wm\<lparr>wm_focus := fc_raise fc (insert root_p ss) (wm_focus wm)\<rparr>))"

section \<open>Moving and resizing\<close>

function (sequential) move_tree ::
    "nat \<Rightarrow> SurfacePtr \<Rightarrow> Displacement \<Rightarrow> 'f WindowManager \<Rightarrow> ('f WindowManager, unit) outcome"
  and move_children ::
    "nat \<Rightarrow> SurfacePtr list \<Rightarrow> Displacement \<Rightarrow> 'f WindowManager \<Rightarrow> ('f WindowManager, unit) outcome" where
  "move_tree 0 root_p movement wm = (Inl (fatal_error ''stack overflow''), wm)"
| "move_tree (Suc n) root_p movement wm =
     (case live wm root_p of
        None \<Rightarrow> (Inl (fatal_error ''null pointer''), wm)
      | Some s \<Rightarrow>
          let wm1 = put_surface root_p (surface_move_to s (point_plus (top_left (sf_rect s)) movement)) wm
          in (case map_of (wm_surface_info wm1) root_p of
                None \<Rightarrow> (Inl (out_of_range ''map::at''), wm1)
              | Some i \<Rightarrow> move_children n (children i) movement wm1))"
| "move_children n [] movement wm = (Inr (), wm)"
| "move_children n (c # cs) movement wm =
     (case move_tree n c movement wm of
        (Inl e, wm') \<Rightarrow> (Inl e, wm')
      | (Inr _, wm') \<Rightarrow> move_children n cs movement wm')"
  by pat_completeness auto
termination
  by (relation "measures [\<lambda>x. case x of Inl (n, _) \<Rightarrow> n | Inr (n, _) \<Rightarrow> n,
                          \<lambda>x. case x of Inl _ \<Rightarrow> 0 | Inr (_, cs, _) \<Rightarrow> Suc (length cs)]") auto

definition apply_resize :: "SurfacePtr \<Rightarrow> Point \<Rightarrow> Size \<Rightarrow> 'f WindowManager \<Rightarrow> ('f WindowManager, unit) outcome" where
  "apply_resize p new_pos new_size wm =
     and_then (resize_surface p new_size wm) (\<lambda>_. with_surface p (\<lambda>s wm.
       move_tree (tree_fuel wm) p (point_diff new_pos (top_left (sf_rect s))) wm))"

definition drag_surface :: "SurfacePtr option \<Rightarrow> Point \<Rightarrow> Point \<Rightarrow> 'f WindowManager \<Rightarrow> ('f WindowManager, bool) outcome" where
  "drag_surface surface to_point from_point wm =
     (case surface of
        None \<Rightarrow> (Inr False, wm)
      | Some p \<Rightarrow> with_surface p (\<lambda>s wm.
          if \<not> input_area_contains s (streams (wm_heap wm)) from_point then (Inr False, wm)
          else and_then (info_for p wm) (\<lambda>info wm.
            let movement = point_diff to_point from_point
            in if info_state info = mir_window_state_restored
               then and_then (move_tree (tree_fuel wm) p movement wm) (\<lambda>_ wm. (Inr True, wm))
               else if info_state info = mir_window_state_vertmaximized
               then and_then (move_tree (tree_fuel wm) p (movement\<lparr>disp_dy := 0\<rparr>) wm) (\<lambda>_ wm. (Inr True, wm))
               else if info_state info = mir_window_state_horizmaximized
               then and_then (move_tree (tree_fuel wm) p (movement\<lparr>disp_dx := 0\<rparr>) wm) (\<lambda>_ wm. (Inr True, wm))
               else (Inr True, wm))) wm)"

definition resize_anchor :: "Rectangle \<Rightarrow> Point \<Rightarrow> Point" where
  "resize_anchor old_pos old_cursor =
     fold (\<lambda>corner anchor.
            if length_squared (point_diff old_cursor anchor) < length_squared (point_diff old_cursor corner)
            then corner else anchor)
       [top_right old_pos, bottom_left old_pos, top_left old_pos] (bottom_right old_pos)"

definition start_resize :: "Point \<Rightarrow> Point \<Rightarrow> 'f WindowManager \<Rightarrow> 'f WindowManager" where
  "start_resize anchor tlp wm =
     (if \<not> wm_resizing wm
      then wm\<lparr>wm_left_resize := (pt_x anchor \<noteq> pt_x tlp), wm_top_resize := (pt_y anchor \<noteq> pt_y tlp)\<rparr> else wm)"

text \<open>The position and size a movement of the pointer by \<open>delta\<close> asks for, before the constraints.\<close>

definition requested_resize :: "SurfaceInfo \<Rightarrow> Rectangle \<Rightarrow> Displacement \<Rightarrow> bool \<Rightarrow> bool \<Rightarrow> Point \<times> Size" where
  "requested_resize info old_pos delta left_resize top_resize =
     (let x_sign = (if left_resize then - 1 else 1);
          y_sign = (if top_resize then - 1 else 1);
          new_width = width (rect_size old_pos) + x_sign * disp_dx delta;
          new_height = height (rect_size old_pos) + y_sign * disp_dy delta;
          least_width = max (min_width info) 5;
          least_height = max (min_height info) 5;
          (new_width, delta) =
            (if new_width < least_width
             then (least_width, if disp_dx delta > 0 then delta\<lparr>disp_dx := 0\<rparr> else delta) else (new_width, delta));
          (new_height, delta) =
            (if new_height < least_height
             then (least_height, if disp_dy delta > 0 then delta\<lparr>disp_dy := 0\<rparr> else delta) else (new_height, delta))
      in (mk_point (pt_x (top_left old_pos) + (if left_resize then disp_dx delta else 0))
                   (pt_y (top_left old_pos) + (if top_resize then disp_dy delta else 0)),
          mk_size new_width new_height))"

definition resize_active ::
    "SurfacePtr option \<Rightarrow> Point \<Rightarrow> Point \<Rightarrow> 'f WindowManager \<Rightarrow> ('f WindowManager, bool) outcome" where
  "resize_active surface cursor old_cursor wm =
     (case surface of
        None \<Rightarrow> (Inr False, wm)
      | Some p \<Rightarrow> and_then (info_for p wm) (\<lambda>info. with_surface p (\<lambda>s wm.
          let old_pos = mk_rect (top_left (sf_rect s)) (surface_size s);
              wm1 = start_resize (resize_anchor old_pos old_cursor) (top_left (sf_rect s)) wm;
              (new_pos, new_size) =
                requested_resize info old_pos (point_diff cursor old_cursor) (wm_left_resize wm1) (wm_top_resize wm1)
          in (case constrain_resize info s new_pos new_size (wm_left_resize wm1) (wm_top_resize wm1) of
                Inl e \<Rightarrow> (Inl e, wm1)
              | Inr (pos, sz) \<Rightarrow> and_then (apply_resize p pos sz wm1) (\<lambda>_ wm. (Inr True, wm))))))"

section \<open>Focus\<close>

text \<open>The recursion goes to the parent; its fuel runs out only on a cycle of parents.\<close>

fun select_active_surface ::
    "nat \<Rightarrow> 'f FocusController \<Rightarrow> SurfacePtr option \<Rightarrow> 'f WindowManager \<Rightarrow> ('f WindowManager, unit) outcome" where
  "select_active_surface fuel fc None wm =
     (Inr (), (if lock_surface wm (wm_active_surface wm) \<noteq> None
               then wm\<lparr>wm_focus := fc_set_focus_to fc None None (wm_focus wm)\<rparr> else wm)\<lparr>wm_active_surface := None\<rparr>)"
| "select_active_surface 0 fc (Some p) wm = (Inl (fatal_error ''stack overflow''), wm)"
| "select_active_surface (Suc n) fc (Some p) wm =
     (case map_of (wm_surface_info wm) p of
        None \<Rightarrow> (Inl (out_of_range ''map::at''), wm)
      | Some info \<Rightarrow>
          if can_be_active info
          then and_then (raise_tree fc p (wm\<lparr>wm_focus := fc_set_focus_to fc (Some (info_session info)) (Some p) (wm_focus wm)\<rparr>))
                 (\<lambda>_ wm. (Inr (), wm\<lparr>wm_active_surface := Some p\<rparr>))
          else (case lock_surface wm (info_parent info) of
                  Some parent \<Rightarrow> select_active_surface n fc (Some parent) wm
                | None \<Rightarrow> (Inr (), wm)))"

definition select_active ::
    "'f FocusController \<Rightarrow> SurfacePtr option \<Rightarrow> 'f WindowManager \<Rightarrow> ('f WindowManager, unit) outcome" where
  "select_active fc p wm = select_active_surface (tree_fuel wm) fc p wm"

definition active_surface :: "'f FocusController \<Rightarrow> 'f WindowManager \<Rightarrow> SurfacePtr option" where
  "active_surface fc wm =
     (case lock_surface wm (wm_active_surface wm) of
        Some p \<Rightarrow> Some p
      | None \<Rightarrow>
          (case fc_focused_session fc (wm_focus wm) of
             None \<Rightarrow> None
           | Some session \<Rightarrow> session_default_surface fc (wm_focus wm) session))"

definition click :: "'f FocusController \<Rightarrow> Point \<Rightarrow> 'f WindowManager \<Rightarrow> ('f WindowManager, unit) outcome" where
  "click fc cursor wm =
     and_then (case fc_surface_at fc (wm_focus wm) cursor of
                 Some p \<Rightarrow> select_active fc (Some p) wm
               | None \<Rightarrow> (Inr (), wm))
       (\<lambda>_ wm. (Inr (), wm\<lparr>wm_old_cursor := cursor\<rparr>))"

definition policy_resize :: "'f FocusController \<Rightarrow> Point \<Rightarrow> 'f WindowManager \<Rightarrow> ('f WindowManager, unit) outcome" where
  "policy_resize fc cursor wm =
     and_then (if \<not> wm_resizing wm then select_active fc (fc_surface_at fc (wm_focus wm) (wm_old_cursor wm)) wm
               else (Inr (), wm))
       (\<lambda>_ wm. and_then (resize_active (active_surface fc wm) cursor (wm_old_cursor wm) wm)
         (\<lambda>_ wm. (Inr (), wm\<lparr>wm_old_cursor := cursor\<rparr>)))"

definition policy_drag :: "'f FocusController \<Rightarrow> Point \<Rightarrow> 'f WindowManager \<Rightarrow> ('f WindowManager, unit) outcome" where
  "policy_drag fc cursor wm =
     and_then (select_active fc (fc_surface_at fc (wm_focus wm) (wm_old_cursor wm)) wm)
       (\<lambda>_ wm. and_then (drag_surface (active_surface fc wm) cursor (wm_old_cursor wm) wm)
         (\<lambda>_ wm. (Inr (), wm\<lparr>wm_old_cursor := cursor\<rparr>)))"

section \<open>States\<close>

definition known_states :: "int set" where
  "known_states = {mir_window_state_restored, mir_window_state_maximized, mir_window_state_vertmaximized,
     mir_window_state_horizmaximized, mir_window_state_fullscreen, mir_window_state_hidden, mir_window_state_minimized}"

text \<open>
  What the handler notes before it looks at the new state: the rectangle to restore, and whether the
  window counts as fullscreen.
\<close>

definition note_old_state :: "SurfacePtr \<Rightarrow> SurfaceInfo \<Rightarrow> BasicSurface \<Rightarrow> 'f WindowManager \<Rightarrow> SurfaceInfo \<times> 'f WindowManager" where
  "note_old_state p info s wm =
     (let info1 = (if info_state info = mir_window_state_restored
                   then info\<lparr>restore_rect := mk_rect (top_left (sf_rect s)) (surface_size s)\<rparr> else info)
      in if info_state info \<noteq> mir_window_state_fullscreen
         then let info2 = info1\<lparr>info_output_id := None\<rparr>
              in (info2, set_info p info2 (wm\<lparr>wm_fullscreen_surfaces := removeAll p (wm_fullscreen_surfaces wm)\<rparr>))
         else (info1, set_info p info1 (wm\<lparr>wm_fullscreen_surfaces := List.insert p (wm_fullscreen_surfaces wm)\<rparr>)))"

text \<open>The rectangle a window gets in the new state.\<close>

definition target_rect :: "SurfaceInfo \<Rightarrow> int \<Rightarrow> Rectangle \<Rightarrow> 'f WindowManager \<Rightarrow> Rectangle" where
  "target_rect info v old wm =
     (let area = wm_display_area wm; restore = restore_rect info
      in if v = mir_window_state_restored then restore
         else if v = mir_window_state_maximized then area
         else if v = mir_window_state_horizmaximized
         then mk_rect (mk_point (pt_x (top_left area)) (pt_y (top_left restore)))
                      (mk_size (width (rect_size area)) (height (rect_size restore)))
         else if v = mir_window_state_vertmaximized
         then mk_rect (mk_point (pt_x (top_left restore)) (pt_y (top_left area)))
                      (mk_size (width (rect_size restore)) (height (rect_size area)))
         else (case info_output_id info of
                 Some i \<Rightarrow> snd (place_in_output (wm_configuration wm) i old)
               | None \<Rightarrow> size_to_output (wm_view_areas wm) old))"

definition handle_set_state :: "SurfacePtr \<Rightarrow> int \<Rightarrow> 'f WindowManager \<Rightarrow> ('f WindowManager, int) outcome" where
  "handle_set_state p v wm =
     and_then (info_for p wm) (\<lambda>info wm.
       if v \<notin> known_states then (Inr (info_state info), wm)
       else with_surface p (\<lambda>s wm.
         let (info1, wm1) = note_old_state p info s wm
         in if info_state info1 = v then (Inr (info_state info1), wm1)
            else if v = mir_window_state_hidden \<or> v = mir_window_state_minimized
            then and_then (update_surface p surface_hide wm1)
                   (\<lambda>_ wm. (Inr v, set_info p (info1\<lparr>info_state := v\<rparr>) wm))
            else
              let old_pos = top_left (sf_rect s);
                  rect = target_rect info1 v (mk_rect old_pos (surface_size s)) wm1
              in and_then (resize_surface p (rect_size rect) wm1)
                   (\<lambda>_ wm. and_then (move_tree (tree_fuel wm) p (point_diff (top_left rect) old_pos) wm)
                     (\<lambda>_ wm. let info2 = info1\<lparr>info_state := v\<rparr>; wm = set_info p info2 wm
                             in if is_visible info2
                                then and_then (update_surface p surface_show wm) (\<lambda>_ wm. (Inr v, wm))
                                else (Inr v, wm)))) wm)"

definition toggle :: "'f FocusController \<Rightarrow> int \<Rightarrow> 'f WindowManager \<Rightarrow> ('f WindowManager, unit) outcome" where
  "toggle fc state wm =
     (case active_surface fc wm of
        None \<Rightarrow> (Inr (), wm)
      | Some p \<Rightarrow>
          and_then (info_for p wm) (\<lambda>info wm.
            and_then (handle_set_state p (if info_state info = state then mir_window_state_restored else state) wm)
              (\<lambda>v wm. and_then (configure_surface p mir_window_attrib_state v wm) (\<lambda>_ wm. (Inr (), wm)))))"

text \<open>\<open>value()\<close> of an unset optional calls \<open>fatal_error\<close>.\<close>

fun place_fullscreen :: "SurfacePtr list \<Rightarrow> 'f WindowManager \<Rightarrow> ('f WindowManager, unit) outcome" where
  "place_fullscreen [] wm = (Inr (), wm)"
| "place_fullscreen (p # ps) wm =
     (case live wm p of
        None \<Rightarrow> place_fullscreen ps wm
      | Some s \<Rightarrow>
          and_then (info_for p wm) (\<lambda>info wm.
            case info_output_id info of
              None \<Rightarrow> (Inl (fatal_error ''Accessing value of unset optional''), wm)
            | Some i \<Rightarrow>
                let rect = snd (place_in_output (wm_configuration wm) i (mk_rect (top_left (sf_rect s)) (surface_size s)))
                in and_then (update_surface p (\<lambda>s. surface_move_to s (top_left rect)) wm)
                     (\<lambda>_ wm. and_then (resize_surface p (rect_size rect) wm) (\<lambda>_ wm. place_fullscreen ps wm))))"

definition handle_displays_updated :: "'f WindowManager \<Rightarrow> ('f WindowManager, unit) outcome" where
  "handle_displays_updated wm =
     (let wm1 = wm\<lparr>wm_display_area := bounding_rectangle (wm_displays wm)\<rparr>
      in place_fullscreen (wm_fullscreen_surfaces wm1) wm1)"

definition add_display :: "Rectangle \<Rightarrow> 'f WindowManager \<Rightarrow> ('f WindowManager, unit) outcome" where
  "add_display area wm = handle_displays_updated (wm\<lparr>wm_displays := Rectangles_add (wm_displays wm) area\<rparr>)"

definition remove_display :: "Rectangle \<Rightarrow> 'f WindowManager \<Rightarrow> ('f WindowManager, unit) outcome" where
  "remove_display area wm = handle_displays_updated (wm\<lparr>wm_displays := Rectangles_remove (wm_displays wm) area\<rparr>)"

section \<open>New windows\<close>

abbreviation (input) title_bar_height :: int where "title_bar_height \<equiv> 10"

text \<open>The two functions of \<^verbatim>\<open>canonical_window_manager.cpp\<close> that are asked before there is a window.\<close>

definition type_must_not_have_parent :: "int \<Rightarrow> bool" where
  "type_must_not_have_parent t \<longleftrightarrow> t \<in> {mir_window_type_normal, mir_window_type_utility}"

definition type_must_have_parent :: "int \<Rightarrow> bool" where
  "type_must_have_parent t \<longleftrightarrow> t \<in> {mir_window_type_gloss, mir_window_type_satellite, mir_window_type_tip}"

definition optically_centred :: "Rectangle \<Rightarrow> Size \<Rightarrow> Point" where
  "optically_centred area sz =
     mk_point (pt_x (top_left area) + (width (rect_size area) - width sz) sdiv 2)
              (pt_y (top_left area) + (height (rect_size area) - height sz) sdiv 2 -
                 (height (rect_size area) - height sz) sdiv 6)"

definition attach_to_edge ::
    "Rectangle \<Rightarrow> Point \<Rightarrow> Rectangle \<Rightarrow> nat \<Rightarrow> int \<Rightarrow> int \<Rightarrow> Point \<times> bool \<Rightarrow> Point \<times> bool" where
  "attach_to_edge display parent_tl aux_rect edges w h start =
     (let at_parent = (\<lambda>p. point_plus parent_tl (point_diff p (mk_point 0 0)));
          tlp = at_parent (top_left aux_rect);
          trp = at_parent (top_right aux_rect);
          blp = at_parent (bottom_left aux_rect);
          r1 = (if edges AND 1 \<noteq> 0 then
                  if contains_point display (point_plus trp (mk_disp w h)) then (trp, True)
                  else if contains_point display (point_plus tlp (mk_disp (- w) h))
                  then (point_plus tlp (mk_disp (- w) 0), True) else start
                else start)
      in if edges AND 2 \<noteq> 0 then
           if contains_point display (point_plus blp (mk_disp w h)) then (blp, True)
           else if contains_point display (point_plus tlp (mk_disp w (- h)))
           then (point_plus tlp (mk_disp 0 (- h)), True) else r1
         else r1)"

definition place_unpositioned :: "Rectangle \<Rightarrow> Rectangle \<Rightarrow> SurfaceCreationParameters \<Rightarrow> SurfaceCreationParameters" where
  "place_unpositioned display area params =
     (let centred = optically_centred display (par_size params);
          st = the (par_state params);
          placed =
            (if st = mir_window_state_fullscreen \<or> st = mir_window_state_maximized
             then params\<lparr>par_top_left := top_left display, par_size := rect_size display\<rparr>
             else if st = mir_window_state_vertmaximized
             then params\<lparr>par_top_left := centred\<lparr>pt_y := pt_y (top_left display)\<rparr>,
                         par_size := (par_size params)\<lparr>height := height (rect_size display)\<rparr>\<rparr>
             else if st = mir_window_state_horizmaximized
             then params\<lparr>par_top_left := centred\<lparr>pt_x := pt_x (top_left display)\<rparr>,
                         par_size := (par_size params)\<lparr>width := width (rect_size display)\<rparr>\<rparr>
             else params\<lparr>par_top_left := centred\<rparr>)
      in if pt_y (par_top_left placed) < pt_y (top_left area)
         then placed\<lparr>par_top_left := (par_top_left placed)\<lparr>pt_y := pt_y (top_left area)\<rparr>\<rparr> else placed)"

definition handle_place_new_surface ::
    "'f FocusController \<Rightarrow> nat \<Rightarrow> SurfaceCreationParameters \<Rightarrow> 'f WindowManager \<Rightarrow> SurfaceCreationParameters result" where
  "handle_place_new_surface fc session request wm =
     (case par_type request of
        None \<Rightarrow> Inl (runtime_error ''Surface type must be provided'')
      | Some t \<Rightarrow>
          let params = (if par_state request = None then request\<lparr>par_state := Some mir_window_state_restored\<rparr> else request);
              display = active_display fc wm;
              w = width (par_size params); h = height (par_size params);
              parent = lock_surface wm (par_parent params)
          in if type_must_not_have_parent t \<and> parent \<noteq> None then Inl (runtime_error ''Surface type cannot have parent'')
             else if type_must_have_parent t \<and> parent = None then Inl (runtime_error ''Surface type must have parent'')
             else
               let (params1, positioned1) =
                     (if par_output_id params \<noteq> 0 then
                        let rect = snd (place_in_output (wm_configuration wm) (par_output_id params)
                                          (mk_rect (par_top_left params) (par_size params)))
                        in (params\<lparr>par_top_left := top_left rect, par_size := rect_size rect,
                                   par_state := Some mir_window_state_fullscreen\<rparr>, True)
                      else
                        case (parent, session_default_surface fc (wm_focus wm) session) of
                          (None, Some d) \<Rightarrow>
                            let ds = the (live wm d);
                                tlp = point_plus (top_left (sf_rect ds)) (mk_disp title_bar_height title_bar_height);
                                app_display = size_to_output (wm_view_areas wm) (mk_rect (top_left (sf_rect ds)) (surface_size ds))
                            in (params\<lparr>par_top_left := tlp\<rparr>, overlaps app_display (mk_rect tlp (par_size params)))
                        | _ \<Rightarrow> (params, False));
                   (params2, positioned2) =
                     (case parent of
                        None \<Rightarrow> (params1, positioned1)
                      | Some q \<Rightarrow>
                          let ps = the (live wm q)
                          in (case (par_aux_rect params1, par_edge_attachment params1) of
                                (Some aux, Some edges) \<Rightarrow>
                                  let (tlp, pos) = attach_to_edge display (top_left (sf_rect ps)) aux edges w h
                                                     (par_top_left params1, positioned1)
                                  in (params1\<lparr>par_top_left := tlp\<rparr>, pos)
                              | _ \<Rightarrow>
                                  let area = mk_rect (top_left (sf_rect ps)) (surface_size ps);
                                      ph = height (surface_size ps);
                                      tlp = mk_point
                                        (pt_x (top_left area) + (width (surface_size ps) - width (par_size params1)) sdiv 2)
                                        (pt_y (top_left area) + (ph - height (par_size params1)) sdiv 2 - (ph - h) sdiv 6)
                                  in (params1\<lparr>par_top_left := tlp\<rparr>, True)))
               in Inr (if positioned2 then params2 else place_unpositioned display (wm_display_area wm) params2))"

text \<open>
  A window that can be active gets a \<open>SurfaceReadyObserver\<close>: \<open>wm_ready_observers\<close> lists the windows
  that still have one, and \<open>frame_posted\<close> is what it does at the window's next frame.
\<close>

definition handle_new_surface :: "nat \<Rightarrow> SurfacePtr \<Rightarrow> 'f WindowManager \<Rightarrow> ('f WindowManager, unit) outcome" where
  "handle_new_surface session p wm =
     and_then (info_for p wm) (\<lambda>info wm.
       and_then
         (case lock_surface wm (info_parent info) of
            None \<Rightarrow> (Inr (), wm)
          | Some q \<Rightarrow> and_then (info_for q wm)
              (\<lambda>pinfo wm. (Inr (), set_info q (pinfo\<lparr>children := children pinfo @ [p]\<rparr>) wm)))
         (\<lambda>_ wm. and_then (session_info_for session wm)
           (\<lambda>ss wm. let wm0 = set_session_info session (ss @ [p]) wm;
                        wm1 = (if can_be_active info then wm0\<lparr>wm_ready_observers := wm_ready_observers wm0 @ [p]\<rparr> else wm0)
                    in (Inr (), if info_state info = mir_window_state_fullscreen
                                then wm1\<lparr>wm_fullscreen_surfaces := List.insert p (wm_fullscreen_surfaces wm1)\<rparr>
                                else wm1))))"

definition frame_posted :: "'f FocusController \<Rightarrow> SurfacePtr \<Rightarrow> 'f WindowManager \<Rightarrow> ('f WindowManager, unit) outcome" where
  "frame_posted fc p wm =
     (if p \<notin> set (wm_ready_observers wm) then (Inr (), wm)
      else (case lock_surface wm (Some p) of
              None \<Rightarrow> (Inr (), wm)
            | Some q \<Rightarrow> and_then (select_active fc (Some q) wm)
                (\<lambda>_ wm. (Inr (), wm\<lparr>wm_ready_observers := remove1 p (wm_ready_observers wm)\<rparr>))))"

section \<open>Changing and closing windows\<close>

definition copy_if_set :: "'a option \<Rightarrow> ('a \<Rightarrow> SurfaceInfo \<Rightarrow> SurfaceInfo) \<Rightarrow> SurfaceInfo \<Rightarrow> SurfaceInfo" where
  "copy_if_set v f info = (case v of None \<Rightarrow> info | Some x \<Rightarrow> f x info)"

definition copy_constraints :: "SurfaceSpecification \<Rightarrow> SurfaceInfo \<Rightarrow> SurfaceInfo" where
  "copy_constraints m info =
     (copy_if_set (spec_confine_pointer m) (\<lambda>v i. i\<lparr>confine_pointer := Some v\<rparr>) \<circ>
      copy_if_set (spec_output_id m) (\<lambda>v i. i\<lparr>info_output_id := Some v\<rparr>) \<circ>
      copy_if_set (spec_max_aspect m) (\<lambda>v i. i\<lparr>max_aspect := Some v\<rparr>) \<circ>
      copy_if_set (spec_min_aspect m) (\<lambda>v i. i\<lparr>min_aspect := Some v\<rparr>) \<circ>
      copy_if_set (spec_height_inc m) (\<lambda>v i. i\<lparr>height_inc := Some v\<rparr>) \<circ>
      copy_if_set (spec_width_inc m) (\<lambda>v i. i\<lparr>width_inc := Some v\<rparr>) \<circ>
      copy_if_set (spec_max_height m) (\<lambda>v i. i\<lparr>max_height := v\<rparr>) \<circ>
      copy_if_set (spec_max_width m) (\<lambda>v i. i\<lparr>max_width := v\<rparr>) \<circ>
      copy_if_set (spec_min_height m) (\<lambda>v i. i\<lparr>min_height := v\<rparr>) \<circ>
      copy_if_set (spec_min_width m) (\<lambda>v i. i\<lparr>min_width := v\<rparr>)) info"

definition modified_type :: "SurfaceSpecification \<Rightarrow> SurfaceInfo \<Rightarrow> 'f WindowManager \<Rightarrow> (SurfaceInfo \<times> int option) result" where
  "modified_type m info wm =
     (case spec_type m of
        None \<Rightarrow> Inr (info, None)
      | Some t \<Rightarrow>
          if info_type info = t then Inr (info, None)
          else if \<not> can_morph_to info t then Inl (runtime_error ''Unsupported surface type change'')
          else
            let info1 = info\<lparr>info_type := t\<rparr>
            in if must_not_have_parent info1 then
                 (if spec_parent m \<noteq> None then Inl (runtime_error ''Target surface type does not support parent'')
                  else Inr (info1\<lparr>info_parent := None\<rparr>, Some t))
               else if must_have_parent info1 \<and> lock_surface wm (info_parent info1) = None
               then Inl (runtime_error ''Target surface type requires parent'')
               else Inr (info1, Some t))"

definition clip_input_shape :: "Rectangle \<Rightarrow> Rectangle list \<Rightarrow> Rectangle list" where
  "clip_input_shape window rects =
     (let d = point_diff (top_left window) (mk_point 0 0)
      in map (\<lambda>r. let r1 = intersection_with (r\<lparr>top_left := point_plus (top_left r) d\<rparr>) window
                  in r1\<lparr>top_left := point_minus (top_left r1) d\<rparr>) rects)"

text \<open>
  After \<open>std::swap(surface_info, surface_info_old)\<close> the map holds the new information and the local
  variable \<open>surface_info\<close> the old one, which is the one the resize below it uses.
\<close>

definition modify_size ::
    "SurfacePtr \<Rightarrow> SurfaceInfo \<Rightarrow> SurfaceSpecification \<Rightarrow> 'f WindowManager \<Rightarrow> ('f WindowManager, unit) outcome" where
  "modify_size p surface_info m wm =
     (if spec_width m = None \<and> spec_height m = None then (Inr (), wm)
      else with_surface p (\<lambda>s wm.
        let sz = surface_size s;
            new_size = mk_size (value_or (spec_width m) (width sz)) (value_or (spec_height m) (height sz))
        in (case constrain_resize surface_info s (top_left (sf_rect s)) new_size False False of
              Inl e \<Rightarrow> (Inl e, wm)
            | Inr (pos, sz') \<Rightarrow> apply_resize p pos sz' wm)) wm)"

definition configure_streams ::
    "'f FocusController \<Rightarrow> nat \<Rightarrow> SurfacePtr \<Rightarrow> StreamSpecification list \<Rightarrow> 'f WindowManager \<Rightarrow> ('f WindowManager, unit) outcome" where
  "configure_streams fc session p l = with_surface p (\<lambda>s wm.
     case session_configure_streams fc (wm_focus wm) session s l of
       Inl e \<Rightarrow> (Inl e, wm)
     | Inr s' \<Rightarrow> (Inr (), put_surface p s' wm))"

definition handle_modify_surface ::
    "'f FocusController \<Rightarrow> nat \<Rightarrow> SurfacePtr \<Rightarrow> SurfaceSpecification \<Rightarrow> 'f WindowManager \<Rightarrow>
       ('f WindowManager, unit) outcome" where
  "handle_modify_surface fc session p m wm =
     and_then (info_for p wm) (\<lambda>surface_info_old wm.
       let info0 = (case spec_parent m of None \<Rightarrow> surface_info_old | Some q \<Rightarrow> surface_info_old\<lparr>info_parent := q\<rparr>)
       in (case modified_type m info0 wm of
             Inl e \<Rightarrow> (Inl e, wm)
           | Inr (info1, new_type) \<Rightarrow>
               and_then (case new_type of
                           None \<Rightarrow> (Inr 0, wm)
                         | Some t \<Rightarrow> configure_surface p mir_window_attrib_type t wm)
                 (\<lambda>_ wm. let wm = set_info p (copy_constraints m info1) wm in
               and_then (case spec_name m of None \<Rightarrow> (Inr (), wm) | Some n \<Rightarrow> update_surface p (\<lambda>s. surface_rename s n) wm)
                 (\<lambda>_ wm.
               and_then (case spec_streams m of None \<Rightarrow> (Inr (), wm) | Some l \<Rightarrow> configure_streams fc session p l wm)
                 (\<lambda>_ wm.
               and_then (modify_size p surface_info_old m wm)
                 (\<lambda>_ wm.
               and_then (case spec_input_shape m of
                           None \<Rightarrow> (Inr (), wm)
                         | Some rects \<Rightarrow> update_surface p (\<lambda>s. surface_set_input_region s
                             (clip_input_shape (mk_rect (top_left (sf_rect s)) (surface_size s)) rects)) wm)
                 (\<lambda>_ wm.
               and_then (case spec_state m of
                           None \<Rightarrow> (Inr 0, wm)
                         | Some v \<Rightarrow> and_then (handle_set_state p v wm)
                             (\<lambda>state wm. configure_surface p mir_window_attrib_state state wm))
                 (\<lambda>_ wm.
                 (case spec_confine_pointer m of
                    None \<Rightarrow> (Inr (), wm)
                  | Some c \<Rightarrow> update_surface p (\<lambda>s. surface_set_confine_pointer_state s c) wm)))))))))"

text \<open>
  \<open>session->destroy_surface\<close> takes the window out of the session and the scene.  The window itself
  lives until the shell, which holds it during the call, lets go of it; the searches compare
  \<open>lock()\<close>ed pointers, so that they find it in the lists.
\<close>

definition destroy_surface ::
    "'f FocusController \<Rightarrow> nat \<Rightarrow> SurfacePtr \<Rightarrow> 'f WindowManager \<Rightarrow> ('f WindowManager, unit) outcome" where
  "destroy_surface fc session p wm =
     (case session_destroy_surface fc session p (wm_focus wm) of (r, f') \<Rightarrow> (r, wm\<lparr>wm_focus := f'\<rparr>))"

definition same_lock :: "'f WindowManager \<Rightarrow> SurfacePtr \<Rightarrow> SurfacePtr \<Rightarrow> bool" where
  "same_lock wm p q \<longleftrightarrow> lock_surface wm (Some p) = lock_surface wm (Some q)"

definition handle_delete_surface ::
    "'f FocusController \<Rightarrow> nat \<Rightarrow> SurfacePtr \<Rightarrow> 'f WindowManager \<Rightarrow> ('f WindowManager, unit) outcome" where
  "handle_delete_surface fc session p wm =
     (let wm0 = wm\<lparr>wm_fullscreen_surfaces := removeAll p (wm_fullscreen_surfaces wm)\<rparr>;
          is_active = (lock_surface wm0 (Some p) = active_surface fc wm0)
      in and_then (info_for p wm0) (\<lambda>info wm.
           and_then (case lock_surface wm (info_parent info) of
                       None \<Rightarrow> (Inr (), wm)
                     | Some q \<Rightarrow> and_then (info_for q wm) (\<lambda>pinfo wm.
                         (Inr (), set_info q (pinfo\<lparr>children := erase_first (same_lock wm p) (children pinfo)\<rparr>) wm)))
             (\<lambda>_ wm. and_then (destroy_surface fc session p wm)
             (\<lambda>_ wm. and_then (session_info_for session wm)
             (\<lambda>ss wm. let ss' = erase_first (same_lock wm p) ss; wm = set_session_info session ss' wm
               in if is_active
                  then let wm = wm\<lparr>wm_active_surface := None\<rparr>
                       in (case ss' of
                             [] \<Rightarrow> let wm = wm\<lparr>wm_focus := fc_focus_next_session fc (wm_focus wm)\<rparr>
                                   in select_active fc (fc_focused_surface fc (wm_focus wm)) wm
                           | q # _ \<Rightarrow> select_active fc (lock_surface wm (Some q)) wm)
                  else (Inr (), wm))))))"

definition wm_add_session :: "nat \<Rightarrow> 'f WindowManager \<Rightarrow> 'f WindowManager" where
  "wm_add_session session wm = set_session_info session [] wm"

definition wm_remove_session :: "nat \<Rightarrow> 'f WindowManager \<Rightarrow> 'f WindowManager" where
  "wm_remove_session session wm = wm\<lparr>wm_session_info := AList.delete session (wm_session_info wm)\<rparr>"

text \<open>\<open>build\<close> is the callback that makes the window; its result is the new window and where it is.\<close>

definition wm_add_surface ::
    "'f FocusController \<Rightarrow> nat \<Rightarrow> SurfaceCreationParameters \<Rightarrow>
       (SurfaceCreationParameters \<Rightarrow> 'f WindowManager \<Rightarrow> ('f WindowManager, SurfacePtr) outcome) \<Rightarrow>
       'f WindowManager \<Rightarrow> ('f WindowManager, SurfacePtr) outcome" where
  "wm_add_surface fc session params build wm =
     (case handle_place_new_surface fc session params wm of
        Inl e \<Rightarrow> (Inl e, wm)
      | Inr placed \<Rightarrow>
          and_then (build placed wm) (\<lambda>p. with_surface p (\<lambda>s wm.
            let wm1 = (if map_of (wm_surface_info wm) p = None
                       then set_info p (new_SurfaceInfo session s placed) wm else wm)
            in and_then (handle_new_surface session p wm1) (\<lambda>_ wm. (Inr p, wm)))))"

definition wm_remove_surface ::
    "'f FocusController \<Rightarrow> nat \<Rightarrow> SurfacePtr \<Rightarrow> 'f WindowManager \<Rightarrow> ('f WindowManager, unit) outcome" where
  "wm_remove_surface fc session p wm =
     and_then (handle_delete_surface fc session p wm)
       (\<lambda>_ wm. (Inr (), wm\<lparr>wm_surface_info := AList.delete p (wm_surface_info wm)\<rparr>))"

definition wm_handle_raise_surface ::
    "'f FocusController \<Rightarrow> SurfacePtr \<Rightarrow> nat \<Rightarrow> 'f WindowManager \<Rightarrow> ('f WindowManager, unit) outcome" where
  "wm_handle_raise_surface fc p timestamp wm =
     (if timestamp \<ge> wm_last_input_event_timestamp wm then select_active fc (Some p) wm else (Inr (), wm))"

definition wm_set_surface_attribute ::
    "SurfacePtr \<Rightarrow> MirWindowAttrib \<Rightarrow> int \<Rightarrow> 'f WindowManager \<Rightarrow> ('f WindowManager, int) outcome" where
  "wm_set_surface_attribute p attrib v wm =
     (case attrib of
        mir_window_attrib_state \<Rightarrow>
          and_then (handle_set_state p v wm) (\<lambda>state wm. configure_surface p attrib state wm)
      | _ \<Rightarrow> configure_surface p attrib v wm)"

section \<open>Trees of windows\<close>

text \<open>
  \<open>tree_of infos alive p S\<close>: the window \<open>p\<close> with its children, their children and so on are exactly
  the windows \<open>S\<close>; each occurs once, is known and is alive.
\<close>

inductive tree_of :: "(SurfacePtr \<times> SurfaceInfo) list \<Rightarrow> SurfacePtr set \<Rightarrow> SurfacePtr \<Rightarrow> SurfacePtr set \<Rightarrow> bool"
  and forest_of :: "(SurfacePtr \<times> SurfaceInfo) list \<Rightarrow> SurfacePtr set \<Rightarrow> SurfacePtr list \<Rightarrow> SurfacePtr set \<Rightarrow> bool"
  for infos alive where
  node: "\<lbrakk>map_of infos p = Some i; p \<in> alive; forest_of infos alive (children i) S; p \<notin> S\<rbrakk>
           \<Longrightarrow> tree_of infos alive p (insert p S)"
| nil: "forest_of infos alive [] {}"
| cons: "\<lbrakk>tree_of infos alive c S; forest_of infos alive cs T; S \<inter> T = {}\<rbrakk>
           \<Longrightarrow> forest_of infos alive (c # cs) (S \<union> T)"

lemma tree_of_bounds:
  "tree_of infos alive p S \<Longrightarrow> finite S \<and> S \<subseteq> fst ` set infos \<and> S \<subseteq> alive \<and> p \<in> S"
  "forest_of infos alive ps S \<Longrightarrow> finite S \<and> S \<subseteq> fst ` set infos \<and> S \<subseteq> alive"
  by (induction rule: tree_of_forest_of.inducts) (auto simp: map_of_eq_None_iff dest!: map_of_SomeD intro: rev_image_eqI)

definition shift_surfaces ::
    "SurfacePtr set \<Rightarrow> Displacement \<Rightarrow> (SurfacePtr \<Rightarrow> BasicSurface option) \<Rightarrow> SurfacePtr \<Rightarrow> BasicSurface option" where
  "shift_surfaces S mv f = (\<lambda>q.
     if q \<in> S then map_option (\<lambda>s. surface_move_to s (point_plus (top_left (sf_rect s)) mv)) (f q) else f q)"

definition shift :: "SurfacePtr set \<Rightarrow> Displacement \<Rightarrow> 'f WindowManager \<Rightarrow> 'f WindowManager" where
  "shift S mv wm = wm\<lparr>wm_heap := (wm_heap wm)\<lparr>live_surfaces := shift_surfaces S mv (live_surfaces (wm_heap wm))\<rparr>\<rparr>"

definition alive :: "'f WindowManager \<Rightarrow> SurfacePtr set" where
  "alive wm = dom (live_surfaces (wm_heap wm))"

lemma shift_simps [simp]:
  "wm_surface_info (shift S mv wm) = wm_surface_info wm" "alive (shift S mv wm) = alive wm"
  "live (shift S mv wm) q = (if q \<in> S then map_option (\<lambda>s. surface_move_to s (point_plus (top_left (sf_rect s)) mv)) (live wm q)
     else live wm q)"
  "streams (wm_heap (shift S mv wm)) = streams (wm_heap wm)"
  by (auto simp: shift_def shift_surfaces_def alive_def live_def split: if_splits)

lemma shift_shift: "S \<inter> T = {} \<Longrightarrow> shift T mv (shift S mv wm) = shift (S \<union> T) mv wm"
proof -
  assume "S \<inter> T = {}"
  then have "shift_surfaces T mv (shift_surfaces S mv f) = shift_surfaces (S \<union> T) mv f" for f
    by (auto simp: shift_surfaces_def fun_eq_iff)
  then show ?thesis by (simp add: shift_def)
qed

lemma shift_empty: "shift {} mv wm = wm"
  by (simp add: shift_def shift_surfaces_def)

lemma put_moved:
  "live wm p = Some s \<Longrightarrow> put_surface p (surface_move_to s (point_plus (top_left (sf_rect s)) mv)) wm = shift {p} mv wm"
proof -
  assume "live wm p = Some s"
  then have "(live_surfaces (wm_heap wm))(p := Some (surface_move_to s (point_plus (top_left (sf_rect s)) mv))) =
      shift_surfaces {p} mv (live_surfaces (wm_heap wm))"
    by (auto simp: live_def shift_surfaces_def fun_eq_iff)
  then show ?thesis by (simp add: put_surface_def shift_def)
qed

lemma move_tree_fuel:
  "tree_of infos A p S \<Longrightarrow> \<forall>n (wm :: 'f WindowManager). card S \<le> n \<and> wm_surface_info wm = infos \<and> alive wm = A \<longrightarrow>
     move_tree n p mv wm = (Inr (), shift S mv wm)"
  "forest_of infos A ps S \<Longrightarrow> \<forall>n (wm :: 'f WindowManager). card S \<le> n \<and> wm_surface_info wm = infos \<and> alive wm = A \<longrightarrow>
     move_children n ps mv wm = (Inr (), shift S mv wm)"
proof (induction rule: tree_of_forest_of.inducts)
  case (node p i S)
  show ?case
  proof (intro allI impI)
    fix n and wm :: "'f WindowManager"
    assume pre: "card (insert p S) \<le> n \<and> wm_surface_info wm = infos \<and> alive wm = A"
    have "finite S" using tree_of_bounds(2) node by blast
    then have "card (insert p S) = Suc (card S)" using node by simp
    with pre obtain m where m: "n = Suc m" "card S \<le> m" by (cases n) auto
    obtain s where s: "live wm p = Some s" using node pre by (auto simp: alive_def live_def)
    have "move_children m (children i) mv (shift {p} mv wm) = (Inr (), shift S mv (shift {p} mv wm))"
      using node m pre by simp
    also have "shift S mv (shift {p} mv wm) = shift (insert p S) mv wm"
      using shift_shift [of "{p}" S mv wm] node by simp
    finally show "move_tree n p mv wm = (Inr (), shift (insert p S) mv wm)"
      using node pre s by (simp add: m put_moved Let_def)
  qed
next
  case nil
  then show ?case by (simp add: shift_empty)
next
  case (cons c S cs T)
  show ?case
  proof (intro allI impI)
    fix n and wm :: "'f WindowManager"
    assume pre: "card (S \<union> T) \<le> n \<and> wm_surface_info wm = infos \<and> alive wm = A"
    have "finite S" "finite T" using tree_of_bounds cons by blast+
    then have "card S \<le> n" "card T \<le> n" using pre by (meson card_mono finite_UnI le_trans sup_ge1 sup_ge2)+
    then have "move_tree n c mv wm = (Inr (), shift S mv wm)"
      "move_children n cs mv (shift S mv wm) = (Inr (), shift T mv (shift S mv wm))"
      using cons pre by simp_all
    then show "move_children n (c # cs) mv wm = (Inr (), shift (S \<union> T) mv wm)" using shift_shift [of S T] cons by simp
  qed
qed

lemma move_tree_shift:
  assumes "tree_of (wm_surface_info wm) (alive wm) p S"
  shows "move_tree (tree_fuel wm) p mv wm = (Inr (), shift S mv wm)"
proof -
  have "S \<subseteq> fst ` set (wm_surface_info wm)" using tree_of_bounds(1) [OF assms] by blast
  then have "card S \<le> card (fst ` set (wm_surface_info wm))" by (rule card_mono [rotated]) simp
  also have "\<dots> \<le> length (wm_surface_info wm)" by (metis card_image_le card_length finite_set le_trans)
  finally have "card S \<le> tree_fuel wm" by (simp add: tree_fuel_def)
  then show ?thesis by (intro move_tree_fuel(1) [OF assms, rule_format]) simp
qed

text \<open>
  moving a tree of windows terminates without error and moves every window of the tree, and no
  other, by the same displacement, keeping its size.
\<close>

theorem move_tree_moves:
  assumes "tree_of (wm_surface_info wm) (alive wm) p S"
  shows "\<exists>wm'. move_tree (tree_fuel wm) p mv wm = (Inr (), wm') \<and>
     wm_surface_info wm' = wm_surface_info wm \<and>
     (\<forall>q. if q \<in> S
          then \<exists>s s'. live wm q = Some s \<and> live wm' q = Some s' \<and> surface_size s' = surface_size s \<and>
                 top_left (sf_rect s') = point_plus (top_left (sf_rect s)) mv
          else live wm' q = live wm q)"
proof -
  have "\<exists>s. live wm q = Some s" if "q \<in> S" for q
    using tree_of_bounds(1) [OF assms] that by (auto simp: alive_def live_def)
  then have "if q \<in> S
      then \<exists>s s'. live wm q = Some s \<and> live (shift S mv wm) q = Some s' \<and> surface_size s' = surface_size s \<and>
             top_left (sf_rect s') = point_plus (top_left (sf_rect s)) mv
      else live (shift S mv wm) q = live wm q" for q
    by (fastforce simp: surface_move_to_def notify_def surface_size_def)
  then show ?thesis using move_tree_shift [OF assms] by fastforce
qed

section \<open>What a change of state does\<close>

lemma tree_of_children_cong:
  assumes "\<And>q. map_option children (map_of infos' q) = map_option children (map_of infos q)"
  shows "tree_of infos A p S \<Longrightarrow> tree_of infos' A p S" "forest_of infos A ps S \<Longrightarrow> forest_of infos' A ps S"
proof (induction rule: tree_of_forest_of.inducts)
  case (node p i S)
  obtain i' where "map_of infos' p = Some i'" "children i' = children i"
    using assms [of p] node by (auto simp: map_option_case split: option.splits)
  with node show ?case by (auto intro: tree_of_forest_of.node)
qed (auto intro: tree_of_forest_of.intros)

definition at_least_one :: "Size \<Rightarrow> Size" where
  "at_least_one sz = mk_size (if width sz \<le> 0 then 1 else width sz) (if height sz \<le> 0 then 1 else height sz)"

lemma at_least_one_id: "0 < width sz \<Longrightarrow> 0 < height sz \<Longrightarrow> at_least_one sz = sz"
  by (cases sz) (simp add: at_least_one_def)

lemma surface_resize_fields:
  assumes "surface_resize s st d = (s', st')"
  shows "sf_rect s' = (sf_rect s)\<lparr>rect_size := at_least_one d\<rparr>"
proof -
  have "surface_resize s st d =
      (if at_least_one d = surface_size s then (s, st)
       else (notify (Resized_to (at_least_one d)) (s\<lparr>sf_rect := (sf_rect s)\<lparr>rect_size := at_least_one d\<rparr>\<rparr>),
             st(sf_buffer_stream s := resize (st (sf_buffer_stream s)) (at_least_one d))))"
    unfolding surface_resize_def at_least_one_def Let_def by (cases d) simp
  with assms show ?thesis by (auto simp: notify_def surface_size_def split: if_splits)
qed

lemma resize_surface_effect:
  assumes "live wm p = Some s"
  obtains s' wm' where "resize_surface p sz wm = (Inr (), wm')"
    "live wm' = (live wm)(p := Some s')" "sf_rect s' = (sf_rect s)\<lparr>rect_size := at_least_one sz\<rparr>"
    "wm_surface_info wm' = wm_surface_info wm" "alive wm' = alive wm"
    "wm_fullscreen_surfaces wm' = wm_fullscreen_surfaces wm" "wm_display_area wm' = wm_display_area wm"
    "wm_view_areas wm' = wm_view_areas wm" "wm_configuration wm' = wm_configuration wm"
proof -
  obtain s' st' where r: "surface_resize s (streams (wm_heap wm)) sz = (s', st')" by fastforce
  let ?wm = "put_surface p s' (wm\<lparr>wm_heap := (wm_heap wm)\<lparr>streams := st'\<rparr>\<rparr>)"
  have "resize_surface p sz wm = (Inr (), ?wm)" using assms by (simp add: resize_surface_def with_surface_def r)
  moreover have "live ?wm = (live wm)(p := Some s')" by (auto simp: live_def put_surface_def fun_eq_iff)
  moreover have "alive ?wm = alive wm" using assms by (auto simp: alive_def put_surface_def live_def)
  ultimately show ?thesis using that [of ?wm s'] surface_resize_fields [OF r] by (simp add: put_surface_def)
qed

lemma alive_put: "live wm p = Some t \<Longrightarrow> alive (put_surface p s wm) = alive wm"
  by (auto simp: alive_def live_def put_surface_def)

lemma set_info_simps [simp]:
  "live (set_info p i wm) = live wm" "alive (set_info p i wm) = alive wm"
  "wm_fullscreen_surfaces (set_info p i wm) = wm_fullscreen_surfaces wm"
  "wm_display_area (set_info p i wm) = wm_display_area wm" "wm_view_areas (set_info p i wm) = wm_view_areas wm"
  "wm_configuration (set_info p i wm) = wm_configuration wm"
  "map_of (wm_surface_info (set_info p i wm)) = (map_of (wm_surface_info wm))(p := Some i)"
  by (simp_all add: set_info_def live_def alive_def fun_eq_iff update_conv)

lemma fullscreen_frame [simp]:
  "live (wm\<lparr>wm_fullscreen_surfaces := fs\<rparr>) = live wm" "alive (wm\<lparr>wm_fullscreen_surfaces := fs\<rparr>) = alive wm"
  by (simp_all add: live_def alive_def fun_eq_iff)

lemma shift_fields [simp]:
  "wm_fullscreen_surfaces (shift S mv wm) = wm_fullscreen_surfaces wm"
  "wm_display_area (shift S mv wm) = wm_display_area wm" "wm_view_areas (shift S mv wm) = wm_view_areas wm"
  "wm_configuration (shift S mv wm) = wm_configuration wm"
  by (simp_all add: shift_def)

text \<open>The information \<open>note_old_state\<close> leaves, and the list of fullscreen windows.\<close>

definition noted_info :: "SurfaceInfo \<Rightarrow> BasicSurface \<Rightarrow> SurfaceInfo" where
  "noted_info info s =
     (let info1 = (if info_state info = mir_window_state_restored then info\<lparr>restore_rect := sf_rect s\<rparr> else info)
      in if info_state info \<noteq> mir_window_state_fullscreen then info1\<lparr>info_output_id := None\<rparr> else info1)"

definition noted_fullscreen :: "SurfacePtr \<Rightarrow> SurfaceInfo \<Rightarrow> SurfacePtr list \<Rightarrow> SurfacePtr list" where
  "noted_fullscreen p info fs =
     (if info_state info \<noteq> mir_window_state_fullscreen then removeAll p fs else List.insert p fs)"

lemma note_old_state_eq:
  "note_old_state p info s wm =
     (noted_info info s,
      set_info p (noted_info info s) (wm\<lparr>wm_fullscreen_surfaces := noted_fullscreen p info (wm_fullscreen_surfaces wm)\<rparr>))"
  by (cases "sf_rect s") (auto simp: note_old_state_def noted_info_def noted_fullscreen_def surface_size_def Let_def)

lemma noted_info_fields [simp]:
  "children (noted_info info s) = children info" "info_state (noted_info info s) = info_state info"
  by (simp_all add: noted_info_def Let_def)

definition new_rect :: "SurfaceInfo \<Rightarrow> BasicSurface \<Rightarrow> int \<Rightarrow> 'f WindowManager \<Rightarrow> Rectangle" where
  "new_rect info s v wm = target_rect (noted_info info s) v (sf_rect s) wm"

lemma set_state_effect:
  assumes info: "map_of (wm_surface_info wm) p = Some info" and s: "live wm p = Some s"
    and tree: "tree_of (wm_surface_info wm) (alive wm) p S"
    and v: "v \<in> known_states" "v \<noteq> info_state info" "v \<noteq> mir_window_state_hidden" "v \<noteq> mir_window_state_minimized"
    and rect: "rect = new_rect info s v wm"
  obtains wm' where "handle_set_state p v wm = (Inr v, wm')"
    "map_of (wm_surface_info wm') = (map_of (wm_surface_info wm))(p := Some ((noted_info info s)\<lparr>info_state := v\<rparr>))"
    "\<exists>s'. live wm' p = Some s' \<and> sf_rect s' = rect\<lparr>rect_size := at_least_one (rect_size rect)\<rparr> \<and> \<not> sf_hidden s'"
    "\<And>q. q \<noteq> p \<Longrightarrow> live wm' q = live (shift S (point_diff (top_left rect) (top_left (sf_rect s))) wm) q"
    "wm_fullscreen_surfaces wm' = noted_fullscreen p info (wm_fullscreen_surfaces wm)"
    "alive wm' = alive wm" "wm_display_area wm' = wm_display_area wm" "wm_view_areas wm' = wm_view_areas wm"
proof -
  let ?i = "noted_info info s" and ?mv = "point_diff (top_left rect) (top_left (sf_rect s))"
  define wm1 where "wm1 = set_info p ?i (wm\<lparr>wm_fullscreen_surfaces := noted_fullscreen p info (wm_fullscreen_surfaces wm)\<rparr>)"
  have wm1: "live wm1 = live wm" "alive wm1 = alive wm" by (simp_all add: wm1_def)
  have t1: "tree_of (wm_surface_info wm1) (alive wm) p S"
    by (rule tree_of_children_cong(1) [OF _ tree]) (simp add: wm1_def info)
  have r: "target_rect ?i v (mk_rect (top_left (sf_rect s)) (surface_size s)) wm1 = rect"
    by (cases "sf_rect s") (simp add: rect new_rect_def wm1_def target_rect_def surface_size_def Let_def split: option.split)
  obtain s2 wm2 where w2: "resize_surface p (rect_size rect) wm1 = (Inr (), wm2)" "live wm2 = (live wm1)(p := Some s2)"
    "sf_rect s2 = (sf_rect s)\<lparr>rect_size := at_least_one (rect_size rect)\<rparr>" "wm_surface_info wm2 = wm_surface_info wm1"
    "alive wm2 = alive wm1" "wm_fullscreen_surfaces wm2 = wm_fullscreen_surfaces wm1"
    "wm_display_area wm2 = wm_display_area wm1" "wm_view_areas wm2 = wm_view_areas wm1"
    using resize_surface_effect [of wm1 p s "rect_size rect"] s wm1 by metis
  have "move_tree (tree_fuel wm2) p ?mv wm2 = (Inr (), shift S ?mv wm2)"
    by (rule move_tree_shift) (simp add: w2 wm1 t1)
  define wm3 where "wm3 = set_info p (?i\<lparr>info_state := v\<rparr>) (shift S ?mv wm2)"
  define s3 where "s3 = surface_move_to s2 (point_plus (top_left (sf_rect s2)) ?mv)"
  have p: "p \<in> S" using tree_of_bounds(1) [OF tree] by blast
  then have l3: "live wm3 p = Some s3" by (simp add: wm3_def w2 s3_def)
  define wm4 where "wm4 = put_surface p (surface_show s3) wm3"
  have vis: "is_visible (?i\<lparr>info_state := v\<rparr>)" using v by (simp add: is_visible_def)
  have "handle_set_state p v wm = (Inr v, wm4)"
    using v \<open>move_tree (tree_fuel wm2) p ?mv wm2 = (Inr (), shift S ?mv wm2)\<close>
    by (simp add: handle_set_state_def info_for_def info with_surface_def s note_old_state_eq
        wm1_def [symmetric] r w2(1,2) p wm3_def s3_def vis update_surface_def wm4_def Let_def)
  moreover have "sf_rect (surface_show s3) = rect\<lparr>rect_size := at_least_one (rect_size rect)\<rparr>"
    by (cases rect) (simp add: surface_show_def surface_set_hidden_def notify_def s3_def surface_move_to_def w2 geom_defs)
  moreover have "live wm4 p = Some (surface_show s3)" "\<not> sf_hidden (surface_show s3)"
    by (simp_all add: wm4_def put_surface_def live_def surface_show_def surface_set_hidden_def notify_def)
  moreover have "live wm4 q = live (shift S ?mv wm) q" if "q \<noteq> p" for q
  proof -
    have "live wm4 q = live wm3 q" using that by (simp add: wm4_def put_surface_def live_def)
    then show ?thesis using that by (simp add: wm3_def w2 wm1)
  qed
  moreover have "alive wm4 = alive wm"
    using alive_put [OF l3, of "surface_show s3"] by (simp add: wm4_def) (simp add: wm3_def w2 wm1)
  ultimately show ?thesis
    by (intro that [of wm4]) (auto simp: wm4_def put_surface_def wm3_def w2 wm1_def set_info_def update_conv fun_eq_iff)
qed


text \<open>
  a window that becomes fullscreen forgets the output its client asked for before it is placed:
  it always gets the output it overlaps most, and it is not among the windows that are placed again
  when the displays change.
\<close>

theorem fullscreen_ignores_output:
  assumes "map_of (wm_surface_info wm) p = Some info" "info_state info \<noteq> mir_window_state_fullscreen"
    and s: "live wm p = Some s" and tree: "tree_of (wm_surface_info wm) (alive wm) p S"
  shows "\<exists>wm' s' info'. handle_set_state p mir_window_state_fullscreen wm = (Inr mir_window_state_fullscreen, wm') \<and>
     map_of (wm_surface_info wm') p = Some info' \<and> info_output_id info' = None \<and>
     p \<notin> set (wm_fullscreen_surfaces wm') \<and>
     live wm' p = Some s' \<and> top_left (sf_rect s') = top_left (get_output_for (wm_view_areas wm) (sf_rect s))"
proof -
  have pf: "mir_window_state_fullscreen \<in> known_states" "mir_window_state_fullscreen \<noteq> info_state info"
    "mir_window_state_fullscreen \<noteq> mir_window_state_hidden" "mir_window_state_fullscreen \<noteq> mir_window_state_minimized"
    using assms(2) by (auto simp: known_states_def)
  obtain wm' where
    "handle_set_state p mir_window_state_fullscreen wm = (Inr mir_window_state_fullscreen, wm')"
    "map_of (wm_surface_info wm') p = Some ((noted_info info s)\<lparr>info_state := mir_window_state_fullscreen\<rparr>)"
    "wm_fullscreen_surfaces wm' = noted_fullscreen p info (wm_fullscreen_surfaces wm)"
    "\<exists>s'. live wm' p = Some s' \<and> top_left (sf_rect s') = top_left (new_rect info s mir_window_state_fullscreen wm)"
    by (rule set_state_effect [OF assms(1) s tree pf refl]) (fastforce intro: that)
  moreover have "info_output_id (noted_info info s) = None" using assms(2) by (simp add: noted_info_def Let_def)
  moreover have "new_rect info s mir_window_state_fullscreen wm = get_output_for (wm_view_areas wm) (sf_rect s)"
    using assms(2) by (simp add: new_rect_def target_rect_def noted_info_def size_to_output_def Let_def)
  ultimately show ?thesis using assms(2) by (simp add: noted_fullscreen_def)
qed

text \<open>
  A window that is created fullscreen without naming an output brings the server down when a
  display is added: the policy takes the value of an output that was never set.
\<close>

theorem new_fullscreen_window_fatal:
  assumes "map_of (wm_surface_info wm) p = Some info" "info_state info = mir_window_state_fullscreen"
    "info_output_id info = None" "info_parent info = None" "live wm p \<noteq> None"
    "map_of (wm_session_info wm) session = Some ss" "wm_fullscreen_surfaces wm = []"
  shows "fst (add_display area (snd (handle_new_surface session p wm))) =
           Inl (fatal_error ''Accessing value of unset optional'')"
proof -
  define obs where "obs = (if can_be_active info then wm_ready_observers wm @ [p] else wm_ready_observers wm)"
  let ?wm = "(set_session_info session (ss @ [p]) wm)\<lparr>wm_ready_observers := obs, wm_fullscreen_surfaces := [p]\<rparr>"
  have "handle_new_surface session p wm = (Inr (), ?wm)"
    using assms by (simp add: handle_new_surface_def info_for_def session_info_for_def lock_surface_def Let_def
        set_session_info_def obs_def)
  moreover obtain s where "live wm p = Some s" using assms(5) by blast
  ultimately show ?thesis
    using assms by (simp add: add_display_def handle_displays_updated_def info_for_def live_def set_session_info_def Let_def)
qed

lemma apply_resize_effect:
  assumes s: "live wm p = Some s" and tree: "tree_of (wm_surface_info wm) (alive wm) p S"
  obtains wm' where "apply_resize p pos sz wm = (Inr (), wm')" "wm_surface_info wm' = wm_surface_info wm"
    "\<exists>s'. live wm' p = Some s' \<and> sf_rect s' = mk_rect pos (at_least_one sz)"
proof -
  obtain s1 wm1 where w1: "resize_surface p sz wm = (Inr (), wm1)" "live wm1 = (live wm)(p := Some s1)"
    "sf_rect s1 = (sf_rect s)\<lparr>rect_size := at_least_one sz\<rparr>" "wm_surface_info wm1 = wm_surface_info wm" "alive wm1 = alive wm"
    by (rule resize_surface_effect [OF s])
  let ?mv = "point_diff pos (top_left (sf_rect s1))"
  have "move_tree (tree_fuel wm1) p ?mv wm1 = (Inr (), shift S ?mv wm1)"
    by (rule move_tree_shift) (simp add: w1 tree)
  then have "apply_resize p pos sz wm = (Inr (), shift S ?mv wm1)"
    by (simp add: apply_resize_def w1 with_surface_def)
  moreover have "p \<in> S" using tree_of_bounds(1) [OF tree] by blast
  then have "\<exists>s'. live (shift S ?mv wm1) p = Some s' \<and> sf_rect s' = mk_rect pos (at_least_one sz)"
    by (cases pos) (simp add: w1 surface_move_to_def notify_def geom_defs)
  ultimately show ?thesis using that w1(4) by simp
qed

text \<open>
  A request that changes the constraints of a window and its size is resized with the constraints
  the window had before: the new ones are stored, but they do not bound the new size.
\<close>

theorem modify_uses_old_constraints:
  assumes info: "map_of (wm_surface_info wm) p = Some info" and s: "live wm p = Some s"
    and tree: "tree_of (wm_surface_info wm) (alive wm) p S"
    and plain: "spec_type m = None" "spec_parent m = None" "spec_name m = None" "spec_streams m = None"
      "spec_input_shape m = None" "spec_state m = None" "spec_confine_pointer m = None"
    and w: "spec_width m = Some w"
    and old: "constrain_resize info s (top_left (sf_rect s)) (mk_size w (value_or (spec_height m) (height (surface_size s))))
                False False = Inr (pos, sz)"
  shows "\<exists>wm' s'. handle_modify_surface fc session p m wm = (Inr (), wm') \<and>
     map_of (wm_surface_info wm') p = Some (copy_constraints m info) \<and>
     live wm' p = Some s' \<and> sf_rect s' = mk_rect pos (at_least_one sz)"
proof -
  let ?wm = "set_info p (copy_constraints m info) wm"
  have "children (copy_constraints m info) = children info"
    by (simp add: copy_constraints_def copy_if_set_def split: option.split)
  then have "tree_of (wm_surface_info ?wm) (alive ?wm) p S"
    by (simp, intro tree_of_children_cong(1) [OF _ tree]) (simp add: info)
  then obtain wm' where "apply_resize p pos sz ?wm = (Inr (), wm')" "wm_surface_info wm' = wm_surface_info ?wm"
    "\<exists>s'. live wm' p = Some s' \<and> sf_rect s' = mk_rect pos (at_least_one sz)"
    using apply_resize_effect [of ?wm p s] s by (metis set_info_simps(1))
  moreover from this have "handle_modify_surface fc session p m wm = (Inr (), wm')"
    using plain w old info s
    by (simp add: handle_modify_surface_def info_for_def modified_type_def modify_size_def with_surface_def value_or_def Let_def)
  ultimately show ?thesis by auto
qed

section \<open>A concrete window manager\<close>

definition sample_fc :: "unit FocusController" where
  "sample_fc =
     \<lparr>fc_focused_session = (\<lambda>_. None), fc_focused_surface = (\<lambda>_. None), fc_surface_at = (\<lambda>_ _. None),
      fc_set_focus_to = (\<lambda>_ _ f. f), fc_focus_next_session = id, fc_raise = (\<lambda>_ f. f),
      session_default_surface = (\<lambda>_ _. None), session_configure_streams = (\<lambda>_ _ s _. Inr s),
      session_destroy_surface = (\<lambda>_ _ f. (Inr (), f)), session_surface_after = (\<lambda>_ _ _. Inr None),
      session_kill = (\<lambda>_ f. f)\<rparr>"

definition window_info :: "int \<Rightarrow> SurfacePtr option \<Rightarrow> SurfacePtr list \<Rightarrow> SurfaceInfo" where
  "window_info st par cs =
     sample_info\<lparr>info_state := st, info_parent := par, children := cs, max_width := 100, max_height := 100,
                 height_inc := None\<rparr>"

definition sample_wm :: "int \<Rightarrow> unit WindowManager" where
  "sample_wm st =
     \<lparr>wm_heap = \<lparr>live_surfaces = [5 \<mapsto> sample_surface, 6 \<mapsto> sample_surface], streams = (\<lambda>_. sample_stream)\<rparr>,
      wm_surface_info = [(5, window_info st None [6]), (6, window_info mir_window_state_restored (Some 5) [])],
      wm_session_info = [(1, [])], wm_displays = [mk_rect (mk_point 0 0) (mk_size 80 60)],
      wm_configuration = sample_configuration, wm_view_areas = [mk_rect (mk_point 0 0) (mk_size 80 60)],
      wm_cursor = mk_point 0 0, wm_last_input_event_timestamp = 0, wm_focus = (),
      wm_display_area = mk_rect (mk_point 0 0) (mk_size 80 60), wm_old_cursor = mk_point 0 0,
      wm_fullscreen_surfaces = [], wm_resizing = False, wm_left_resize = False, wm_top_resize = False,
      wm_active_surface = None, wm_ready_observers = []\<rparr>"

lemma sample_wm_eval [simp]:
  "map_of (wm_surface_info (sample_wm st)) 5 = Some (window_info st None [6])"
  "map_of (wm_surface_info (sample_wm st)) 6 = Some (window_info mir_window_state_restored (Some 5) [])"
  "live (sample_wm st) 5 = Some sample_surface" "live (sample_wm st) 6 = Some sample_surface"
  "wm_fullscreen_surfaces (sample_wm st) = []" "map_of (wm_session_info (sample_wm st)) 1 = Some []"
  "wm_view_areas (sample_wm st) = [mk_rect (mk_point 0 0) (mk_size 80 60)]"
  "info_state (window_info v q cs) = v" "info_parent (window_info v q cs) = q" "children (window_info v q cs) = cs"
  "info_output_id (window_info v q cs) = None"
  by (simp_all add: sample_wm_def live_def window_info_def sample_info_def)

lemma sample_surface_rect [simp]: "sf_rect sample_surface = mk_rect (mk_point 10 20) (mk_size 30 40)"
  by (simp add: sample_surface_def new_BasicSurface_def default_stream_def)

lemma sample_tree: "tree_of (wm_surface_info (sample_wm st)) (alive (sample_wm st)) 5 {5, 6}"
proof -
  have a: "alive (sample_wm st) = {5, 6}" by (auto simp: alive_def sample_wm_def)
  have "tree_of (wm_surface_info (sample_wm st)) (alive (sample_wm st)) 6 {6}"
    by (rule tree_of_forest_of.node [of _ _ "window_info mir_window_state_restored (Some 5) []" _ "{}", simplified])
       (simp_all add: a tree_of_forest_of.nil)
  then have "forest_of (wm_surface_info (sample_wm st)) (alive (sample_wm st)) [6] {6}"
    using tree_of_forest_of.cons [OF _ tree_of_forest_of.nil] by fastforce
  then show ?thesis
    by (intro tree_of_forest_of.node [of _ _ "window_info st None [6]"]) (simp_all add: a)
qed

theorem move_tree_moves_witness:
  "\<exists>wm' s'. move_tree (tree_fuel (sample_wm 1)) 5 (mk_disp 3 4) (sample_wm 1) = (Inr (), wm') \<and>
     live wm' 6 = Some s' \<and> top_left (sf_rect s') = mk_point 13 24"
proof -
  obtain wm' where "move_tree (tree_fuel (sample_wm 1)) 5 (mk_disp 3 4) (sample_wm 1) = (Inr (), wm')"
    "\<exists>s s'. live (sample_wm 1) 6 = Some s \<and> live wm' 6 = Some s' \<and>
       top_left (sf_rect s') = point_plus (top_left (sf_rect s)) (mk_disp 3 4)"
    using move_tree_moves [OF sample_tree, of 1 "mk_disp 3 4"] by (metis insertI1 insertI2)
  then show ?thesis by (auto simp: geom_defs)
qed


theorem fullscreen_ignores_output_witness:
  "\<exists>wm' s'. handle_set_state 5 mir_window_state_fullscreen (sample_wm mir_window_state_restored) =
       (Inr mir_window_state_fullscreen, wm') \<and> 5 \<notin> set (wm_fullscreen_surfaces wm') \<and>
     live wm' 5 = Some s' \<and> top_left (sf_rect s') = mk_point 0 0"
proof -
  have "get_output_for (wm_view_areas (sample_wm mir_window_state_restored)) (sf_rect sample_surface) =
      mk_rect (mk_point 0 0) (mk_size 80 60)"
    by (simp add: get_output_for_def intersection_with_def Let_def geom_defs)
  then show ?thesis
    using fullscreen_ignores_output [OF sample_wm_eval(1) _ sample_wm_eval(3) sample_tree [of mir_window_state_restored]]
    by simp blast
qed

theorem new_fullscreen_window_fatal_witness:
  "fst (add_display (mk_rect (mk_point 80 0) (mk_size 10 10))
     (snd (handle_new_surface 1 5 (sample_wm mir_window_state_fullscreen)))) =
   Inl (fatal_error ''Accessing value of unset optional'')"
  by (rule new_fullscreen_window_fatal [OF sample_wm_eval(1) _ _ _ _ sample_wm_eval(6)]) simp_all

definition shrink_spec :: SurfaceSpecification where
  "shrink_spec =
     \<lparr>spec_width = Some 50, spec_height = None, spec_name = None, spec_output_id = None, spec_type = None,
      spec_state = None, spec_min_width = None, spec_min_height = None, spec_max_width = Some 10,
      spec_max_height = None, spec_width_inc = None, spec_height_inc = None, spec_min_aspect = None,
      spec_max_aspect = None, spec_streams = None, spec_parent = None, spec_input_shape = None,
      spec_confine_pointer = None\<rparr>"

theorem modify_uses_old_constraints_witness:
  "\<exists>wm' s' info'. handle_modify_surface sample_fc 1 5 shrink_spec (sample_wm mir_window_state_restored) = (Inr (), wm') \<and>
     map_of (wm_surface_info wm') 5 = Some info' \<and> max_width info' = 10 \<and>
     live wm' 5 = Some s' \<and> width (rect_size (sf_rect s')) = 50"
proof -
  let ?info = "window_info mir_window_state_restored None [6]"
  have "constrain_resize ?info sample_surface (top_left (sf_rect sample_surface))
      (mk_size 50 (value_or (spec_height shrink_spec) (height (surface_size sample_surface)))) False False =
      Inr (mk_point 10 20, mk_size 50 40)"
    by (simp add: constrain_resize_def constrain_size_def apply_min_aspect_def apply_max_aspect_def apply_limits_def
        round_to_increment_def anchor_to_surface_def window_info_def sample_info_def shrink_spec_def value_or_def
        surface_size_def)
  moreover have "max_width (copy_constraints shrink_spec ?info) = 10"
    by (simp add: copy_constraints_def copy_if_set_def shrink_spec_def)
  ultimately show ?thesis
    using modify_uses_old_constraints [OF sample_wm_eval(1,3) sample_tree, of shrink_spec]
    by (fastforce simp: shrink_spec_def at_least_one_def)
qed

end
