(* ===== verification/Output_Cache.thy ===== *)
theory Output_Cache
  imports Basic_Surface Display_Config
begin

text \<open>
  What a client learns about the outputs its windows are on:
  \<open>OutputPropertiesCache\<close> (\<^verbatim>\<open>src/server/scene/output_properties_cache.cpp\<close>) and \<open>SurfaceEventSource\<close>
  (\<^verbatim>\<open>surface_event_source.cpp\<close>), the observer that turns what happens to a surface into events for the
  client.

  \<open>properties_for\<close> returns a pointer into the cached vector.  Here it is the number of the vector,
  counted by \<open>update_from\<close>, with an index; a pointer the event source remembers has expired when the
  vector has been replaced.  Floating-point numbers are rationals or reals.
\<close>

record OutputProperties =
  op_extents :: Rectangle
  op_dpi :: int
  op_scale :: rat
  op_refresh_rate :: rat
  op_form_factor :: int
  op_id :: int

record OutputPropertiesCache =
  cache_generation :: nat
  cache :: "OutputProperties list option"

definition new_OutputPropertiesCache :: OutputPropertiesCache where
  "new_OutputPropertiesCache = \<lparr>cache_generation = 0, cache = None\<rparr>"

text \<open>The conversion of a floating-point number to \<open>int\<close> truncates.\<close>

definition calculate_dpi :: "Size \<Rightarrow> Size \<Rightarrow> int" where
  "calculate_dpi resolution sz =
     (let diagonal_mm = sqrt (of_int (height sz * height sz + width sz * width sz));
          diagonal_px = sqrt (of_int (height resolution * height resolution + width resolution * width resolution))
      in \<lfloor>diagonal_px / diagonal_mm * 25.4\<rfloor>)"

definition output_properties :: "DisplayConfigurationOutput \<Rightarrow> OutputProperties list" where
  "output_properties out =
     (if current_mode_index out < length (modes out)
      then let mode = modes out ! current_mode_index out
           in [\<lparr>op_extents = extents out, op_dpi = calculate_dpi (mode_size mode) (physical_size_mm out),
                op_scale = scale out, op_refresh_rate = vrefresh_hz mode, op_form_factor = form_factor out,
                op_id = out_id out\<rparr>]
      else [])"

definition update_from :: "DisplayConfiguration \<Rightarrow> OutputPropertiesCache \<Rightarrow> OutputPropertiesCache" where
  "update_from config c =
     c\<lparr>cache_generation := Suc (cache_generation c), cache := Some (concat (map output_properties (outputs config)))\<rparr>"

text \<open>The loop of \<open>properties_for\<close>; \<open>i\<close> is the index of the first of the remaining outputs.\<close>

fun matching_output ::
  "Rectangle \<Rightarrow> OutputProperties list \<Rightarrow> nat \<Rightarrow> (nat \<times> OutputProperties) option \<Rightarrow> (nat \<times> OutputProperties) option" where
  "matching_output r [] i matching = matching"
| "matching_output r (out # outs) i matching =
     matching_output r outs (Suc i)
       (if overlaps (op_extents out) r \<and>
           (case matching of None \<Rightarrow> True | Some (_, m) \<Rightarrow> op_scale out > op_scale m)
        then Some (i, out) else matching)"

definition properties_for :: "Rectangle \<Rightarrow> OutputPropertiesCache \<Rightarrow> (nat \<times> OutputProperties) option" where
  "properties_for r c =
     (case cache c of None \<Rightarrow> None | Some temp_properties \<Rightarrow> matching_output r temp_properties 0 None)"

section \<open>Events for the client\<close>

datatype ClientEvent =
    Resize_event int Size
  | Output_event int OutputProperties
  | Attrib_event int MirWindowAttrib int
  | Orientation_event int int
  | Close_event int
  | Keymap_event int int string string string string
  | Placement_event int Rectangle
  | Prompt_session_event nat
  | Display_config_change DisplayConfiguration
  | Input_config_change nat
  | Lifecycle_event int
  | Error_buffer Size nat string
  | Client_error nat
  | Ping_event int

record SurfaceEventSource =
  source_id :: int
  last_output :: "(nat \<times> nat) option"

definition new_SurfaceEventSource :: "int \<Rightarrow> SurfaceEventSource" where
  "new_SurfaceEventSource i = \<lparr>source_id = i, last_output = None\<rparr>"

definition source_moved_to ::
  "OutputPropertiesCache \<Rightarrow> Size \<Rightarrow> Point \<Rightarrow> SurfaceEventSource \<Rightarrow> SurfaceEventSource \<times> ClientEvent list" where
  "source_moved_to c sz tlp src =
     (case properties_for (mk_rect tlp sz) c of
        None \<Rightarrow> (src, [])
      | Some (i, props) \<Rightarrow>
          if last_output src \<noteq> Some (cache_generation c, i)
          then (src\<lparr>last_output := Some (cache_generation c, i)\<rparr>, [Output_event (source_id src) props])
          else (src, []))"

text \<open>The observer's methods; what it does not override does nothing.\<close>

definition source_notified ::
  "OutputPropertiesCache \<Rightarrow> Size \<Rightarrow> SurfaceNotification \<Rightarrow> SurfaceEventSource \<Rightarrow> SurfaceEventSource \<times> ClientEvent list" where
  "source_notified c sz n src =
     (case n of
        Resized_to new_size \<Rightarrow> (src, [Resize_event (source_id src) new_size])
      | Moved_to p \<Rightarrow> source_moved_to c sz p src
      | Attrib_changed attrib v \<Rightarrow> (src, [Attrib_event (source_id src) attrib v])
      | Orientation_set_to orient \<Rightarrow> (src, [Orientation_event (source_id src) orient])
      | Client_surface_close_requested \<Rightarrow> (src, [Close_event (source_id src)])
      | Keymap_changed d m l v opts \<Rightarrow> (src, [Keymap_event (source_id src) d m l v opts])
      | Placed_relative r \<Rightarrow> (src, [Placement_event (source_id src) r])
      | _ \<Rightarrow> (src, []))"

section \<open>The output a window is on\<close>

lemma matching_output_acc:
  assumes "\<And>j m. matching = Some (j, m) \<Longrightarrow> overlaps (op_extents m) r"
  shows "case matching_output r outs i matching of
           None \<Rightarrow> matching = None \<and> (\<forall>out \<in> set outs. \<not> overlaps (op_extents out) r)
         | Some (k, out) \<Rightarrow>
             overlaps (op_extents out) r \<and>
             (matching = Some (k, out) \<or> (i \<le> k \<and> k - i < length outs \<and> outs ! (k - i) = out)) \<and>
             (\<forall>m \<in> set outs \<union> snd ` set_option matching. overlaps (op_extents m) r \<longrightarrow> op_scale m \<le> op_scale out)"
  using assms
proof (induction r outs i matching rule: matching_output.induct)
  case (1 r i matching)
  then show ?case by (cases matching) auto
next
  case (2 r out outs i matching)
  let ?better = "overlaps (op_extents out) r \<and> (case matching of None \<Rightarrow> True | Some (_, m) \<Rightarrow> op_scale out > op_scale m)"
  show ?case
  proof (cases ?better)
    case True
    then have IH: "case matching_output r outs (Suc i) (Some (i, out)) of
           None \<Rightarrow> False
         | Some (k, o') \<Rightarrow> overlaps (op_extents o') r \<and>
             (Some (i, out) = Some (k, o') \<or> (Suc i \<le> k \<and> k - Suc i < length outs \<and> outs ! (k - Suc i) = o')) \<and>
             (\<forall>m \<in> insert out (set outs). overlaps (op_extents m) r \<longrightarrow> op_scale m \<le> op_scale o')"
      using 2 by (auto split: option.splits)
    then obtain k o' where m: "matching_output r outs (Suc i) (Some (i, out)) = Some (k, o')"
      by (cases "matching_output r outs (Suc i) (Some (i, out))") auto
    have "outs ! (k - Suc i) = (out # outs) ! (k - i)" if "Suc i \<le> k" using that by (simp add: Suc_diff_le)
    then show ?thesis using True IH m by (auto split: option.splits prod.splits simp: Suc_diff_le)
  next
    case False
    then have eq: "matching_output r (out # outs) i matching = matching_output r outs (Suc i) matching" by auto
    have "outs ! (k - Suc i) = (out # outs) ! (k - i)" if "Suc i \<le> k" for k using that by (simp add: Suc_diff_le)
    then show ?thesis using 2 False unfolding eq by (auto split: option.splits prod.splits simp: Suc_diff_le)
  qed
qed

lemma properties_for_correct:
  assumes "cache c = Some outs"
  shows "case properties_for r c of
           None \<Rightarrow> \<forall>out \<in> set outs. \<not> overlaps (op_extents out) r
         | Some (k, out) \<Rightarrow> k < length outs \<and> outs ! k = out \<and> overlaps (op_extents out) r \<and>
             (\<forall>m \<in> set outs. overlaps (op_extents m) r \<longrightarrow> op_scale m \<le> op_scale out)"
  using matching_output_acc [of None r outs 0] assms by (auto simp: properties_for_def split: option.splits)

text \<open>The client hears of an output once, and again after the configuration has changed.\<close>

lemma source_moved_to_once:
  assumes "source_moved_to c sz p src = (src', evs)"
  shows "source_moved_to c sz p src' = (src', [])"
    and "properties_for (mk_rect p sz) (update_from config c) = Some (i, props) \<Longrightarrow>
           last_output src' \<in> {None} \<union> Some ` {(g, j). g \<le> cache_generation c} \<Longrightarrow>
           snd (source_moved_to (update_from config c) sz p src') = [Output_event (source_id src') props]"
  using assms by (auto simp: source_moved_to_def update_from_def split: option.splits prod.splits if_splits)

end
