(* ===== verification/Anr_Detector.thy ===== *)
theory Anr_Detector
  imports Alarm
begin

text \<open>
  \<open>scene::TimeoutApplicationNotRespondingDetector\<close>
  (\<^verbatim>\<open>src/server/scene/timeout_application_not_responding_detector.cpp\<close>): every period it pings the
  sessions that answered the last ping and reports those that did not.  Sessions and observers
  are named by numbers (their addresses), the calls made on pingers and observers are a log.
  The sessions are kept in a list; the order in which the code's hash table visits them is not
  specified and decides only the order of the reports.
\<close>

record ANRContext =
  replied_since_last_ping :: bool
  flagged_as_unresponsive :: bool

datatype AnrCall = Ping nat | Session_unresponsive nat nat | Session_now_responsive nat nat

record AnrDetector =
  anr_sessions :: "(nat \<times> ANRContext) list"
  anr_observers :: "nat list"
  anr_period :: int
  anr_alarm :: AlarmImpl
  anr_log :: "AnrCall list"

definition new_ANRContext :: ANRContext where
  "new_ANRContext = \<lparr>replied_since_last_ping = True, flagged_as_unresponsive = False\<rparr>"

definition new_AnrDetector :: "int \<Rightarrow> AnrDetector" where
  "new_AnrDetector period =
     \<lparr>anr_sessions = [], anr_observers = [], anr_period = period, anr_alarm = AlarmImpl_new, anr_log = []\<rparr>"

definition reschedule_alarm :: "int \<Rightarrow> AnrDetector \<Rightarrow> AnrDetector" where
  "reschedule_alarm now d = d\<lparr>anr_alarm := snd (alarm_reschedule_in now (anr_period d) (anr_alarm d))\<rparr>"

definition observers_session_unresponsive :: "nat \<Rightarrow> AnrDetector \<Rightarrow> AnrDetector" where
  "observers_session_unresponsive session d =
     d\<lparr>anr_log := anr_log d @ map (\<lambda>ob. Session_unresponsive ob session) (anr_observers d)\<rparr>"

definition observers_session_now_responsive :: "nat \<Rightarrow> AnrDetector \<Rightarrow> AnrDetector" where
  "observers_session_now_responsive session d =
     d\<lparr>anr_log := anr_log d @ map (\<lambda>ob. Session_now_responsive ob session) (anr_observers d)\<rparr>"

text \<open>\<open>sessions[k] = v\<close> and \<open>sessions.erase(k)\<close>.\<close>

definition put_session :: "nat \<Rightarrow> ANRContext \<Rightarrow> AnrDetector \<Rightarrow> AnrDetector" where
  "put_session session ctx d =
     d\<lparr>anr_sessions :=
         (if map_of (anr_sessions d) session = None then anr_sessions d @ [(session, ctx)]
          else map (\<lambda>(s, c). (s, if s = session then ctx else c)) (anr_sessions d))\<rparr>"

definition register_session :: "int \<Rightarrow> nat \<Rightarrow> AnrDetector \<Rightarrow> AnrDetector" where
  "register_session now session d =
     (let d = put_session session new_ANRContext d
      in if alarm_state (anr_alarm d) \<noteq> Alarm_pending then reschedule_alarm now d else d)"

definition unregister_session :: "nat \<Rightarrow> AnrDetector \<Rightarrow> AnrDetector" where
  "unregister_session session d = d\<lparr>anr_sessions := filter (\<lambda>e. fst e \<noteq> session) (anr_sessions d)\<rparr>"

definition pong_received :: "int \<Rightarrow> nat \<Rightarrow> AnrDetector \<Rightarrow> (AnrDetector, unit) outcome" where
  "pong_received now session d =
     (case map_of (anr_sessions d) session of
        None \<Rightarrow> (Inl (out_of_range ''_Map_base::at''), d)
      | Some ctx \<Rightarrow>
          let d = put_session session (ctx\<lparr>flagged_as_unresponsive := False, replied_since_last_ping := True\<rparr>) d;
              d = (if flagged_as_unresponsive ctx then observers_session_now_responsive session d else d)
          in (Inr (), if alarm_state (anr_alarm d) \<noteq> Alarm_pending then reschedule_alarm now d else d))"

definition register_observer :: "nat \<Rightarrow> AnrDetector \<Rightarrow> AnrDetector" where
  "register_observer ob d =
     d\<lparr>anr_observers := anr_observers d @ [ob],
       anr_log := anr_log d @
         map (\<lambda>e. Session_unresponsive ob (fst e)) (filter (\<lambda>e. flagged_as_unresponsive (snd e)) (anr_sessions d))\<rparr>"

definition unregister_observer :: "nat \<Rightarrow> AnrDetector \<Rightarrow> AnrDetector" where
  "unregister_observer ob d = d\<lparr>anr_observers := remove1 ob (anr_observers d)\<rparr>"

text \<open>The loop of \<open>handle_ping_cycle\<close>: the sessions after it, those found unresponsive, those pinged.\<close>

fun ping_sessions :: "(nat \<times> ANRContext) list \<Rightarrow> (nat \<times> ANRContext) list \<times> nat list \<times> nat list" where
  "ping_sessions [] = ([], [], [])"
| "ping_sessions ((s, ctx) # ss) =
     (let (ss', unresponsive, pinged) = ping_sessions ss;
          newly_unresponsive = (\<not> replied_since_last_ping ctx \<and> \<not> flagged_as_unresponsive ctx);
          needs_ping = replied_since_last_ping ctx
      in if newly_unresponsive then ((s, ctx\<lparr>flagged_as_unresponsive := True\<rparr>) # ss', s # unresponsive, pinged)
         else if needs_ping then ((s, ctx\<lparr>replied_since_last_ping := False\<rparr>) # ss', unresponsive, s # pinged)
         else ((s, ctx) # ss', unresponsive, pinged))"

definition handle_ping_cycle :: "int \<Rightarrow> AnrDetector \<Rightarrow> AnrDetector" where
  "handle_ping_cycle now d =
     (let (ss, unresponsive, pinged) = ping_sessions (anr_sessions d);
          d = d\<lparr>anr_sessions := ss, anr_log := anr_log d @ map Ping pinged\<rparr>;
          d = fold observers_session_unresponsive unresponsive d
      in if pinged \<noteq> [] then reschedule_alarm now d else d)"

definition anr_alarm_fires :: "int \<Rightarrow> AnrDetector \<Rightarrow> AnrDetector" where
  "anr_alarm_fires now d = handle_ping_cycle now (d\<lparr>anr_alarm := alarm_dispatch (anr_alarm d)\<rparr>)"

section \<open>What observers believe\<close>

text \<open>What an observer knows of a session is the last report it got.\<close>

fun believes :: "nat \<Rightarrow> nat \<Rightarrow> bool \<Rightarrow> AnrCall list \<Rightarrow> bool" where
  "believes ob s b [] = b"
| "believes ob s b (Session_unresponsive o' s' # cs) = believes ob s (b \<or> (o' = ob \<and> s' = s)) cs"
| "believes ob s b (Session_now_responsive o' s' # cs) = believes ob s (b \<and> \<not> (o' = ob \<and> s' = s)) cs"
| "believes ob s b (Ping s' # cs) = believes ob s b cs"

lemma believes_append: "believes ob s b (xs @ ys) = believes ob s (believes ob s b xs) ys"
  by (induction ob s b xs rule: believes.induct) auto

lemma believes_pings [simp]: "believes ob s b (map Ping ss) = b"
  by (induction ss) auto

lemma believes_unresponsive:
  "believes ob s b (map (\<lambda>o'. Session_unresponsive o' s') obs) = (b \<or> (ob \<in> set obs \<and> s' = s))"
  by (induction obs arbitrary: b) auto

lemma believes_responsive:
  "believes ob s b (map (\<lambda>o'. Session_now_responsive o' s') obs) = (b \<and> \<not> (ob \<in> set obs \<and> s' = s))"
  by (induction obs arbitrary: b) auto

lemma believes_registered:
  "believes ob s b (map (\<lambda>e. Session_unresponsive o' (fst e)) es) = (b \<or> (o' = ob \<and> s \<in> fst ` set es))"
  by (induction es arbitrary: b) auto

fun mentions :: "nat \<Rightarrow> nat \<Rightarrow> AnrCall \<Rightarrow> bool" where
  "mentions ob s (Session_unresponsive o' s') \<longleftrightarrow> o' = ob \<and> s' = s"
| "mentions ob s (Session_now_responsive o' s') \<longleftrightarrow> o' = ob \<and> s' = s"
| "mentions ob s (Ping s') \<longleftrightarrow> False"

lemma believes_unmentioned: "\<forall>c \<in> set cs. \<not> mentions ob s c \<Longrightarrow> believes ob s b cs = b"
proof (induction cs arbitrary: b)
  case (Cons c cs)
  then show ?case by (cases c) auto
qed simp

section \<open>The invariant\<close>

declare map_of_eq_Some_iff [simp del]

definition anr_inv :: "AnrDetector \<Rightarrow> bool" where
  "anr_inv d \<longleftrightarrow>
     distinct (map fst (anr_sessions d)) \<and>
     (\<forall>s ctx. map_of (anr_sessions d) s = Some ctx \<longrightarrow>
        (if flagged_as_unresponsive ctx then \<not> replied_since_last_ping ctx else alarm_state (anr_alarm d) = Alarm_pending) \<and>
        (\<forall>ob \<in> set (anr_observers d). believes ob s False (anr_log d) = flagged_as_unresponsive ctx))"

text \<open>
  The runs.  A session registers once and an observer too: the addresses they are known by are new
  to the detector.
\<close>

definition new_address :: "nat \<Rightarrow> AnrDetector \<Rightarrow> bool" where
  "new_address s d \<longleftrightarrow> s \<notin> fst ` set (anr_sessions d) \<and> (\<forall>ob. \<forall>c \<in> set (anr_log d). \<not> mentions ob s c)"

definition new_observer :: "nat \<Rightarrow> AnrDetector \<Rightarrow> bool" where
  "new_observer ob d \<longleftrightarrow> ob \<notin> set (anr_observers d) \<and> (\<forall>s. \<forall>c \<in> set (anr_log d). \<not> mentions ob s c)"

inductive anr_reachable :: "AnrDetector \<Rightarrow> bool" where
  Start: "anr_reachable (new_AnrDetector period)"
| Register: "anr_reachable d \<Longrightarrow> new_address s d \<Longrightarrow> anr_reachable (register_session now s d)"
| Unregister: "anr_reachable d \<Longrightarrow> anr_reachable (unregister_session s d)"
| Pong: "anr_reachable d \<Longrightarrow> anr_reachable (snd (pong_received now s d))"
| Observe: "anr_reachable d \<Longrightarrow> new_observer ob d \<Longrightarrow> anr_reachable (register_observer ob d)"
| Unobserve: "anr_reachable d \<Longrightarrow> anr_reachable (unregister_observer ob d)"
| Fire: "anr_reachable d \<Longrightarrow> anr_reachable (anr_alarm_fires now d)"

lemma reschedule_alarm_simps [simp]:
  "anr_sessions (reschedule_alarm now d) = anr_sessions d" "anr_observers (reschedule_alarm now d) = anr_observers d"
  "anr_log (reschedule_alarm now d) = anr_log d" "alarm_state (anr_alarm (reschedule_alarm now d)) = Alarm_pending"
  by (simp_all add: reschedule_alarm_def alarm_facts)

lemma put_session_simps [simp]:
  "anr_observers (put_session s c d) = anr_observers d" "anr_log (put_session s c d) = anr_log d"
  "anr_alarm (put_session s c d) = anr_alarm d"
  by (simp_all add: put_session_def)

lemma map_of_overwrite:
  "map_of (map (\<lambda>(t, x). (t, if t = s then c else x)) es) t =
     (if t = s \<and> map_of es t \<noteq> None then Some c else map_of es t)"
  by (induction es) auto

lemma fst_overwrite: "map fst (map (\<lambda>(t, x). (t, if t = s then c else x)) es) = map fst es"
  by (induction es) auto

lemma map_of_put_session [simp]:
  "map_of (anr_sessions (put_session s c d)) = (map_of (anr_sessions d))(s \<mapsto> c)"
  by (auto simp: put_session_def map_of_overwrite fun_eq_iff map_add_def split: option.split)

lemma distinct_put_session [simp]:
  "distinct (map fst (anr_sessions d)) \<Longrightarrow> distinct (map fst (anr_sessions (put_session s c d)))"
  by (auto simp: put_session_def fst_overwrite map_of_eq_None_iff simp del: map_map)

lemma observers_calls_simps [simp]:
  "anr_sessions (observers_session_now_responsive s d) = anr_sessions d"
  "anr_observers (observers_session_now_responsive s d) = anr_observers d"
  "anr_alarm (observers_session_now_responsive s d) = anr_alarm d"
  "anr_log (observers_session_now_responsive s d) =
     anr_log d @ map (\<lambda>ob. Session_now_responsive ob s) (anr_observers d)"
  by (simp_all add: observers_session_now_responsive_def)

lemma anr_inv_register:
  assumes "anr_inv d" and "new_address s d"
  shows "anr_inv (register_session now s d)"
proof -
  have "believes ob s False (anr_log d) = False" for ob
    using assms(2) by (intro believes_unmentioned) (auto simp: new_address_def)
  with assms show ?thesis
    by (auto simp: anr_inv_def register_session_def Let_def new_ANRContext_def)
qed

lemma anr_inv_pong:
  assumes "anr_inv d"
  shows "anr_inv (snd (pong_received now s d))"
proof (cases "map_of (anr_sessions d) s")
  case (Some c)
  with assms show ?thesis
    by (auto simp: anr_inv_def pong_received_def Let_def believes_append believes_responsive)
qed (simp add: pong_received_def assms)

lemma pong_received_ok:
  assumes "map_of (anr_sessions d) s = Some ctx"
  shows "fst (pong_received now s d) = Inr ()"
    and "map_of (anr_sessions (snd (pong_received now s d))) s =
           Some (ctx\<lparr>flagged_as_unresponsive := False, replied_since_last_ping := True\<rparr>)"
  using assms by (simp_all add: pong_received_def Let_def)

lemma map_of_filter_key: "map_of (filter (\<lambda>e. fst e \<noteq> s) es) = (map_of es)(s := None)"
  by (induction es) auto

lemma anr_inv_unregister: "anr_inv d \<Longrightarrow> anr_inv (unregister_session s d)"
  by (auto simp: anr_inv_def unregister_session_def map_of_filter_key distinct_map_filter)

lemma anr_inv_observe:
  assumes "anr_inv d" and "new_observer ob d"
  shows "anr_inv (register_observer ob d)"
proof -
  let ?fl = "filter (\<lambda>e. flagged_as_unresponsive (snd e)) (anr_sessions d)"
  have "believes ob s False (anr_log d) = False" for s
    using assms(2) by (intro believes_unmentioned) (auto simp: new_observer_def)
  moreover have "s \<in> fst ` set ?fl \<longleftrightarrow> flagged_as_unresponsive ctx" if "map_of (anr_sessions d) s = Some ctx" for s ctx
    using that assms(1) by (force simp: anr_inv_def dest: map_of_SomeD)
  ultimately show ?thesis
    using assms unfolding anr_inv_def register_observer_def
    by (auto simp: new_observer_def believes_append believes_registered simp del: set_filter)
qed

lemma anr_inv_unobserve: "anr_inv d \<Longrightarrow> anr_inv (unregister_observer ob d)"
  using set_remove1_subset [of ob "anr_observers d"] unfolding anr_inv_def unregister_observer_def by auto

text \<open>One session of a ping cycle.\<close>

definition ping_one :: "ANRContext \<Rightarrow> ANRContext" where
  "ping_one ctx =
     (if replied_since_last_ping ctx then ctx\<lparr>replied_since_last_ping := False\<rparr>
      else ctx\<lparr>flagged_as_unresponsive := True\<rparr>)"

lemma ping_sessions_spec:
  "ping_sessions ss =
     (map (\<lambda>(s, ctx). (s, ping_one ctx)) ss,
      map fst (filter (\<lambda>e. \<not> replied_since_last_ping (snd e) \<and> \<not> flagged_as_unresponsive (snd e)) ss),
      map fst (filter (\<lambda>e. replied_since_last_ping (snd e)) ss))"
  by (induction ss rule: ping_sessions.induct) (auto simp: ping_one_def Let_def)

lemma fold_unresponsive:
  "fold observers_session_unresponsive us d =
     d\<lparr>anr_log := anr_log d @ concat (map (\<lambda>s. map (\<lambda>ob. Session_unresponsive ob s) (anr_observers d)) us)\<rparr>"
  by (induction us arbitrary: d) (auto simp: observers_session_unresponsive_def)

lemma believes_cycle:
  "ob \<in> set obs \<Longrightarrow>
     believes ob s b (concat (map (\<lambda>s. map (\<lambda>ob. Session_unresponsive ob s) obs) us)) = (b \<or> s \<in> set us)"
  by (induction us arbitrary: b) (auto simp: believes_append believes_unresponsive)

lemma cycle_facts:
  fixes now :: int and d :: AnrDetector
  defines "d' \<equiv> anr_alarm_fires now d"
  shows "anr_sessions d' = map (\<lambda>(s, ctx). (s, ping_one ctx)) (anr_sessions d)"
    and "anr_observers d' = anr_observers d"
    and "anr_log d' = anr_log d @ map Ping (map fst (filter (\<lambda>e. replied_since_last_ping (snd e)) (anr_sessions d))) @
           concat (map (\<lambda>s. map (\<lambda>ob. Session_unresponsive ob s) (anr_observers d))
             (map fst (filter (\<lambda>e. \<not> replied_since_last_ping (snd e) \<and> \<not> flagged_as_unresponsive (snd e)) (anr_sessions d))))"
    and "\<exists>e \<in> set (anr_sessions d). replied_since_last_ping (snd e) \<Longrightarrow> alarm_state (anr_alarm d') = Alarm_pending"
  unfolding d'_def anr_alarm_fires_def handle_ping_cycle_def
  by (simp_all add: ping_sessions_spec Let_def fold_unresponsive filter_empty_conv)

lemma map_of_ping: "map_of (map (\<lambda>(s, ctx). (s, ping_one ctx)) es) s = map_option ping_one (map_of es s)"
  by (induction es) auto

lemma anr_inv_fire:
  assumes "anr_inv d"
  shows "anr_inv (anr_alarm_fires now d)"
proof -
  let ?new = "map fst (filter (\<lambda>e. \<not> replied_since_last_ping (snd e) \<and> \<not> flagged_as_unresponsive (snd e)) (anr_sessions d))"
  have new: "s \<in> set ?new \<longleftrightarrow> \<not> replied_since_last_ping ctx \<and> \<not> flagged_as_unresponsive ctx"
    if "map_of (anr_sessions d) s = Some ctx" for s ctx
    using that assms by (force simp: anr_inv_def dest: map_of_SomeD)
  have "distinct (map fst (anr_sessions d))" using assms by (simp add: anr_inv_def)
  moreover have "map fst (map (\<lambda>(s, ctx). (s, ping_one ctx)) es) = map fst es" for es :: "(nat \<times> ANRContext) list"
    by (induction es) auto
  moreover have "(if flagged_as_unresponsive ctx' then \<not> replied_since_last_ping ctx'
                  else alarm_state (anr_alarm (anr_alarm_fires now d)) = Alarm_pending) \<and>
    (\<forall>ob \<in> set (anr_observers d). believes ob s False (anr_log (anr_alarm_fires now d)) = flagged_as_unresponsive ctx')"
    if "map_of (anr_sessions d) s = Some ctx" and "ctx' = ping_one ctx" for s ctx ctx'
  proof -
    have "(s, ctx) \<in> set (anr_sessions d)" using that(1) by (rule map_of_SomeD)
    then have "replied_since_last_ping ctx \<Longrightarrow> alarm_state (anr_alarm (anr_alarm_fires now d)) = Alarm_pending"
      by (intro cycle_facts(4)) force
    with assms that new [OF that(1)] show ?thesis
      unfolding cycle_facts(3) believes_append believes_pings
      by (auto simp: anr_inv_def ping_one_def believes_cycle simp del: set_map map_map)
  qed
  ultimately show ?thesis
    unfolding anr_inv_def cycle_facts(1,2) map_of_ping map_option_eq_Some by metis
qed

lemma anr_inv_reachable: "anr_reachable d \<Longrightarrow> anr_inv d"
proof (induction rule: anr_reachable.induct)
  case (Start period)
  then show ?case by (simp add: anr_inv_def new_AnrDetector_def)
qed (simp_all add: anr_inv_register anr_inv_unregister anr_inv_pong anr_inv_observe anr_inv_unobserve anr_inv_fire)


text \<open>
  A session that does not answer is found out: two ping cycles without a pong flag it and every
  observer knows; the first pong after that takes the flag back and every observer knows that too.
\<close>

theorem silent_session_flagged:
  assumes "anr_reachable d" and "map_of (anr_sessions d) s = Some ctx"
  shows "(let d' = anr_alarm_fires now2 (anr_alarm_fires now1 d)
          in map_option flagged_as_unresponsive (map_of (anr_sessions d') s) = Some True \<and>
             (\<forall>ob \<in> set (anr_observers d'). believes ob s False (anr_log d')) \<and>
             (case pong_received now3 s d' of
                (Inr _, d'') \<Rightarrow>
                  map_option flagged_as_unresponsive (map_of (anr_sessions d'') s) = Some False \<and>
                  (\<forall>ob \<in> set (anr_observers d''). \<not> believes ob s False (anr_log d'')) \<and>
                  alarm_state (anr_alarm d'') = Alarm_pending
              | (Inl _, _) \<Rightarrow> False))"
proof -
  let ?d' = "anr_alarm_fires now2 (anr_alarm_fires now1 d)"
  let ?d'' = "snd (pong_received now3 s ?d')"
  let ?ctx = "ping_one (ping_one ctx)"
  have ctx: "map_of (anr_sessions ?d') s = Some ?ctx"
    using assms(2) by (simp add: cycle_facts(1) map_of_ping del: map_map)
  note pong = pong_received_ok [OF ctx, of now3]
  have fl: "flagged_as_unresponsive ?ctx"
    using anr_inv_reachable [OF assms(1)] assms(2) by (auto simp: ping_one_def anr_inv_def)
  have "anr_inv ?d'" "anr_inv ?d''"
    using assms(1) by (auto intro!: anr_inv_reachable anr_reachable.intros)
  then have "\<forall>ob \<in> set (anr_observers ?d'). believes ob s False (anr_log ?d')"
    "\<forall>ob \<in> set (anr_observers ?d''). \<not> believes ob s False (anr_log ?d'')" "alarm_state (anr_alarm ?d'') = Alarm_pending"
    using ctx fl pong(2) unfolding anr_inv_def by fastforce+
  with ctx fl pong show ?thesis
    unfolding Let_def by (cases "pong_received now3 s ?d'") simp
qed

section \<open>An example\<close>

definition watched :: AnrDetector where
  "watched = register_session 0 7 (register_observer 3 (new_AnrDetector 1000))"

lemma watched_reachable: "anr_reachable watched" and watched_session: "map_of (anr_sessions watched) 7 = Some new_ANRContext"
  unfolding watched_def
  by (intro anr_reachable.intros; simp add: new_observer_def new_address_def new_AnrDetector_def register_observer_def)
     (simp add: register_session_def Let_def)


theorem silent_session_flagged_witness:
  "map_option flagged_as_unresponsive (map_of (anr_sessions (anr_alarm_fires 2000 (anr_alarm_fires 1000 watched))) 7) = Some True"
  using silent_session_flagged [OF watched_reachable watched_session, of 2000 1000 2500] unfolding Let_def by blast

end
