(* ===== verification/Sessions.thy ===== *)
theory Sessions
  imports Window_Manager Std_Map Output_Cache Anr_Detector
begin

text \<open>
  Application sessions and the session manager: \<^verbatim>\<open>src/server/scene/application_session.cpp\<close>,
  \<^verbatim>\<open>default_session_container.cpp\<close>, \<^verbatim>\<open>session_manager.cpp\<close>, \<^verbatim>\<open>surface_allocator.cpp\<close>,
  \<^verbatim>\<open>broadcasting_session_event_sink.cpp\<close>.

  A session owns surfaces and streams, known to its client by numbers from one counter.  The surfaces
  and streams live in the scene's heap; \<open>SceneWorld\<close> is the scene with the next free addresses, the
  calls made on the session listener, and the input channel factory as a parameter.  A session
  operation works on the pair of both.  Clients' event sinks are logs.  A session that is closed lives
  on until its last user lets go of it; then its destructor runs (\<open>delete_ApplicationSession\<close>).
\<close>

section \<open>The world a session works on\<close>

record SessionSurfaceParameters = SurfaceCreationParameters +
  par_input_mode :: InputReceptionMode
  par_preferred_orientation :: "int option"
  par_parent_id :: "nat option"
  par_content_id :: "nat option"
  par_input_shape :: "Rectangle list option"
  par_streams :: "StreamSpecification list option"
  par_confine_pointer :: "int option"

datatype SessionListenerCall =
    Starting nat | Stopping nat | Focused nat | Unfocused
  | Surface_created nat SurfacePtr | Destroying_surface nat SurfacePtr

record SceneWorld =
  w_scene :: Scene
  w_next_surface :: SurfacePtr
  w_next_stream :: StreamPtr
  w_listener :: "SessionListenerCall list"
  w_make_input_channel :: "SurfacePtr \<Rightarrow> int option"

definition listener_call :: "SessionListenerCall \<Rightarrow> SceneWorld \<Rightarrow> SceneWorld" where
  "listener_call c w = w\<lparr>w_listener := w_listener w @ [c]\<rparr>"

definition map_scene :: "(Scene \<Rightarrow> Scene) \<Rightarrow> SceneWorld \<Rightarrow> SceneWorld" where
  "map_scene f w = w\<lparr>w_scene := f (w_scene w)\<rparr>"

definition world_stream :: "SceneWorld \<Rightarrow> StreamPtr \<Rightarrow> Stream" where
  "world_stream w = streams (heap (w_scene w))"

definition world_surface :: "SceneWorld \<Rightarrow> SurfacePtr \<Rightarrow> BasicSurface" where
  "world_surface w = surface_of (w_scene w)"

definition map_heap :: "(SurfaceHeap \<Rightarrow> SurfaceHeap) \<Rightarrow> SceneWorld \<Rightarrow> SceneWorld" where
  "map_heap f = map_scene (\<lambda>sc. sc\<lparr>heap := f (heap sc)\<rparr>)"

definition put_stream :: "StreamPtr \<Rightarrow> Stream \<Rightarrow> SceneWorld \<Rightarrow> SceneWorld" where
  "put_stream q st = map_heap (\<lambda>h. h\<lparr>streams := (streams h)(q := st)\<rparr>)"

definition write_surface :: "SurfacePtr \<Rightarrow> BasicSurface \<Rightarrow> SceneWorld \<Rightarrow> SceneWorld" where
  "write_surface p s = map_heap (\<lambda>h. h\<lparr>live_surfaces := (live_surfaces h)(p \<mapsto> s)\<rparr>)"

definition map_surface :: "(BasicSurface \<Rightarrow> BasicSurface) \<Rightarrow> SurfacePtr \<Rightarrow> SceneWorld \<Rightarrow> SceneWorld" where
  "map_surface f p w = write_surface p (f (world_surface w p)) w"

definition world_configure :: "SurfacePtr \<Rightarrow> MirWindowAttrib \<Rightarrow> int \<Rightarrow> SceneWorld \<Rightarrow> (SceneWorld, int) outcome" where
  "world_configure p attrib v w =
     (case configure (world_surface w p) (streams (heap (w_scene w))) attrib v of
        (r, (s', st')) \<Rightarrow> (r, write_surface p s' (map_heap (\<lambda>h. h\<lparr>streams := st'\<rparr>) w)))"

definition configure_if_set ::
  "SurfacePtr \<Rightarrow> MirWindowAttrib \<Rightarrow> int option \<Rightarrow> SceneWorld \<Rightarrow> (SceneWorld, unit) outcome" where
  "configure_if_set p attrib v w =
     (case v of
        None \<Rightarrow> (Inr (), w)
      | Some x \<Rightarrow> and_then (world_configure p attrib x w) (\<lambda>_ w. (Inr (), w)))"

text \<open>\<open>SurfaceAllocator::create_surface\<close>; the new surface gets the next address.\<close>

definition allocate_surface ::
  "StreamInfo list \<Rightarrow> SessionSurfaceParameters \<Rightarrow> SceneWorld \<Rightarrow> (SceneWorld, SurfacePtr) outcome" where
  "allocate_surface infos params w =
     (let p = w_next_surface w;
          confine = (case par_confine_pointer params of Some c \<Rightarrow> c | None \<Rightarrow> mir_pointer_unconfined)
      in case new_BasicSurface (par_name params) (mk_rect (par_top_left params) (par_size params))
                (par_parent params) confine infos (w_make_input_channel w p) of
           Inl e \<Rightarrow> (Inl e, w)
         | Inr s \<Rightarrow> (Inr p, write_surface p s (w\<lparr>w_next_surface := Suc p\<rparr>)))"

section \<open>The session\<close>

record ApplicationSession =
  ses_self :: nat
  ses_pid :: int
  ses_name :: string
  ses_surfaces :: "(nat, SurfacePtr) std_map"
  ses_streams :: "(nat, StreamPtr) std_map"
  default_content_map :: "(nat, nat) std_map"
  next_surface_id :: nat
  output_cache :: OutputPropertiesCache
  ses_buffers :: BufferMap
  event_sink :: "ClientEvent list"
  surface_sink :: "ClientEvent list"

type_synonym session_state = "ApplicationSession \<times> SceneWorld"

definition new_ApplicationSession ::
  "nat \<Rightarrow> int \<Rightarrow> string \<Rightarrow> DisplayConfiguration \<Rightarrow> ApplicationSession" where
  "new_ApplicationSession self pid name initial_config =
     \<lparr>ses_self = self, ses_pid = pid, ses_name = name, ses_surfaces = [], ses_streams = [], default_content_map = [],
      next_surface_id = 0, output_cache = update_from initial_config new_OutputPropertiesCache,
      ses_buffers = \<lparr>buffers = Map.empty, sink_alive = True, sink_log = []\<rparr>, event_sink = [], surface_sink = []\<rparr>"

definition next_id :: "ApplicationSession \<Rightarrow> nat \<times> ApplicationSession" where
  "next_id s = (next_surface_id s, s\<lparr>next_surface_id := Suc (next_surface_id s)\<rparr>)"

definition find_surface :: "ApplicationSession \<Rightarrow> nat \<Rightarrow> SurfacePtr result" where
  "find_surface s i =
     (case map_of (ses_surfaces s) i of None \<Rightarrow> Inl (runtime_error ''Invalid SurfaceId'') | Some p \<Rightarrow> Inr p)"

definition find_stream :: "ApplicationSession \<Rightarrow> nat \<Rightarrow> StreamPtr result" where
  "find_stream s i =
     (case map_of (ses_streams s) i of None \<Rightarrow> Inl (runtime_error ''Invalid BufferStreamId'') | Some q \<Rightarrow> Inr q)"

fun stream_infos :: "ApplicationSession \<Rightarrow> StreamSpecification list \<Rightarrow> StreamInfo list result" where
  "stream_infos s [] = Inr []"
| "stream_infos s (sp # sps) =
     (case find_stream s (ss_stream_id sp) of
        Inl e \<Rightarrow> Inl e
      | Inr q \<Rightarrow>
          map_sum id (\<lambda>infos. \<lparr>si_stream = q, si_displacement = ss_displacement sp, si_size = ss_size sp\<rparr> # infos)
            (stream_infos s sps))"

text \<open>The content of a new surface: the default stream, and the stream list for the factory.\<close>

definition default_content :: "SessionSurfaceParameters \<Rightarrow> nat option" where
  "default_content params =
     (case par_content_id params of
        Some i \<Rightarrow> Some i
      | None \<Rightarrow> (case par_streams params of Some (sp # _) \<Rightarrow> Some (ss_stream_id sp) | _ \<Rightarrow> None))"

definition content_streams :: "ApplicationSession \<Rightarrow> SessionSurfaceParameters \<Rightarrow> StreamInfo list result" where
  "content_streams s params =
     (case par_content_id params of
        Some i \<Rightarrow>
          map_sum id (\<lambda>q. [\<lparr>si_stream = q, si_displacement = \<lparr>disp_dx = 0, disp_dy = 0\<rparr>, si_size = None\<rparr>]) (find_stream s i)
      | None \<Rightarrow> stream_infos s (case par_streams params of Some sps \<Rightarrow> sps | None \<Rightarrow> []))"

definition resize_content :: "StreamPtr \<Rightarrow> SessionSurfaceParameters \<Rightarrow> SceneWorld \<Rightarrow> SceneWorld" where
  "resize_content q params w =
     (if par_content_id params \<noteq> None \<and> par_size params \<noteq> stream_size (world_stream w q)
      then put_stream q (resize (world_stream w q) (par_size params)) w else w)"

definition with_parent :: "ApplicationSession \<Rightarrow> SessionSurfaceParameters \<Rightarrow> SessionSurfaceParameters result" where
  "with_parent s params =
     (case par_parent_id params of
        None \<Rightarrow> Inr params
      | Some i \<Rightarrow> map_sum id (\<lambda>p. params\<lparr>par_parent := Some p\<rparr>) (find_surface s i))"

definition configure_new_surface :: "SurfacePtr \<Rightarrow> SessionSurfaceParameters \<Rightarrow> SceneWorld \<Rightarrow> (SceneWorld, unit) outcome" where
  "configure_new_surface p params w =
     and_then (configure_if_set p mir_window_attrib_state (par_state params) w) (\<lambda>_ w.
     and_then (configure_if_set p mir_window_attrib_type (par_type params) w) (\<lambda>_ w.
     and_then (configure_if_set p mir_window_attrib_preferred_orientation (par_preferred_orientation params) w) (\<lambda>_ w.
       (Inr (), case par_input_shape params of
                  None \<Rightarrow> w
                | Some rects \<Rightarrow> map_surface (\<lambda>s. surface_set_input_region s rects) p w))))"

text \<open>The end of \<open>create_surface\<close>: the surface becomes the session's, and everybody hears of it.\<close>

definition adopt_surface :: "nat \<Rightarrow> SurfacePtr \<Rightarrow> nat \<Rightarrow> ApplicationSession \<Rightarrow> SceneWorld \<Rightarrow> session_state" where
  "adopt_surface i p stream_id s w =
     (let surface = world_surface w p;
          (_, evs) = source_moved_to (output_cache s) (surface_size surface) (top_left (sf_rect surface))
                       (new_SurfaceEventSource (int i))
      in (s\<lparr>ses_surfaces := map_put i p (ses_surfaces s),
            default_content_map := map_put i stream_id (default_content_map s),
            surface_sink := surface_sink s @ evs\<rparr>,
          listener_call (Surface_created (ses_self s) p) w))"

definition create_surface :: "SessionSurfaceParameters \<Rightarrow> session_state \<Rightarrow> (session_state, nat) outcome" where
  "create_surface the_params sw =
     (let (i, s) = next_id (fst sw); w = snd sw
      in case default_content the_params of
           None \<Rightarrow> (Inl (logic_error ''surface must have content''), (s, w))
         | Some stream_id \<Rightarrow>
             (case find_stream s stream_id of
                Inl e \<Rightarrow> (Inl e, (s, w))
              | Inr q \<Rightarrow>
                  let w = resize_content q the_params w
                  in case with_parent s the_params of
                       Inl e \<Rightarrow> (Inl e, (s, w))
                     | Inr params \<Rightarrow>
                         (case content_streams s params of
                            Inl e \<Rightarrow> (Inl e, (s, w))
                          | Inr infos \<Rightarrow>
                              (case allocate_surface infos params w of
                                 (Inl e, w) \<Rightarrow> (Inl e, (s, w))
                               | (Inr p, w) \<Rightarrow>
                                   let w = map_scene (\<lambda>sc. add_surface sc p (par_input_mode params)) w
                                   in (case configure_new_surface p params w of
                                         (Inl e, w) \<Rightarrow> (Inl e, (s, w))
                                       | (Inr _, w) \<Rightarrow> (Inr i, adopt_surface i p stream_id s w))))))"

text \<open>The private \<open>destroy_surface\<close> the public ones end in.\<close>

definition destroy_entry :: "nat \<Rightarrow> SurfacePtr \<Rightarrow> session_state \<Rightarrow> session_state" where
  "destroy_entry i p sw =
     (let (s, w) = sw;
          w = listener_call (Destroying_surface (ses_self s) p) w;
          s = s\<lparr>ses_surfaces := map_erase i (ses_surfaces s), default_content_map := map_erase i (default_content_map s)\<rparr>
      in (s, map_scene (\<lambda>sc. remove_surface sc p) w))"

definition ses_destroy_surface_id :: "nat \<Rightarrow> session_state \<Rightarrow> (session_state, unit) outcome" where
  "ses_destroy_surface_id i sw =
     (case find_surface (fst sw) i of Inl e \<Rightarrow> (Inl e, sw) | Inr p \<Rightarrow> (Inr (), destroy_entry i p sw))"

definition ses_destroy_surface :: "SurfacePtr \<Rightarrow> session_state \<Rightarrow> (session_state, unit) outcome" where
  "ses_destroy_surface surface sw =
     (case find (\<lambda>e. snd e = surface) (ses_surfaces (fst sw)) of
        None \<Rightarrow> (Inl (runtime_error ''Invalid Surface''), sw)
      | Some (i, p) \<Rightarrow> (Inr (), destroy_entry i p sw))"

definition delete_ApplicationSession :: "session_state \<Rightarrow> SceneWorld" where
  "delete_ApplicationSession sw =
     fold (\<lambda>(_, p) w. map_scene (\<lambda>sc. remove_surface sc p) (listener_call (Destroying_surface (ses_self (fst sw)) p) w))
       (ses_surfaces (fst sw)) (snd sw)"

definition default_surface :: "ApplicationSession \<Rightarrow> SurfacePtr option" where
  "default_surface s = (case ses_surfaces s of [] \<Rightarrow> None | (_, p) # _ \<Rightarrow> Some p)"

text \<open>The types that \<open>surface_after\<close> stops at.\<close>

definition can_take_focus :: "int \<Rightarrow> bool" where
  "can_take_focus t \<longleftrightarrow>
     t \<in> {mir_window_type_normal, mir_window_type_utility, mir_window_type_dialog, mir_window_type_satellite,
           mir_window_type_freestyle, mir_window_type_menu, mir_window_type_inputmethod}"

text \<open>
  After \<open>++current\<close> the iterator is behind the given surface: the first search covers what follows, the
  second what precedes up to and including the given surface.  A search that fails returns the end
  of its range, which for the second is \<open>current\<close> and not the end of the map.
\<close>

definition surface_after :: "SceneWorld \<Rightarrow> SurfacePtr \<Rightarrow> ApplicationSession \<Rightarrow> SurfacePtr option result" where
  "surface_after w before s =
     (let ps = map snd (ses_surfaces s);
          ok = (\<lambda>p. can_take_focus (sf_type (world_surface w p)))
      in if before \<notin> set ps
         then Inl (runtime_error ''surface_after: surface is not a member of this session'')
         else
           let preceding = takeWhile (\<lambda>p. p \<noteq> before) ps @ [before];
               following = drop (length preceding) ps
           in case find ok following of
                Some p \<Rightarrow> Inr (Some p)
              | None \<Rightarrow>
                  (case find ok preceding of
                     Some p \<Rightarrow> Inr (Some p)
                   | None \<Rightarrow> Inr (case following of p # _ \<Rightarrow> Some p | [] \<Rightarrow> None)))"

definition ses_hide :: "session_state \<Rightarrow> session_state" where
  "ses_hide sw = (fst sw, fold (\<lambda>(_, p). map_surface surface_hide p) (ses_surfaces (fst sw)) (snd sw))"

definition ses_show :: "session_state \<Rightarrow> session_state" where
  "ses_show sw = (fst sw, fold (\<lambda>(_, p). map_surface surface_show p) (ses_surfaces (fst sw)) (snd sw))"

text \<open>The stream a snapshot of the session is taken of.\<close>

definition snapshot_stream :: "ApplicationSession \<Rightarrow> StreamPtr option result" where
  "snapshot_stream s =
     (case default_surface s of
        None \<Rightarrow> Inr None
      | Some p \<Rightarrow>
          (case find (\<lambda>e. snd e = p) (ses_surfaces s) of
             None \<Rightarrow> Inr None
           | Some (i, _) \<Rightarrow>
               map_sum id Some (find_stream s (case map_of (default_content_map s) i of Some k \<Rightarrow> k | None \<Rightarrow> 0))))"

section \<open>Events for the client\<close>

definition sink_event :: "ClientEvent \<Rightarrow> ApplicationSession \<Rightarrow> ApplicationSession" where
  "sink_event ev s = s\<lparr>event_sink := event_sink s @ [ev]\<rparr>"

definition send_display_config :: "DisplayConfiguration \<Rightarrow> session_state \<Rightarrow> session_state" where
  "send_display_config info sw =
     (let (s, w) = sw;
          s = sink_event (Display_config_change info) (s\<lparr>output_cache := update_from info (output_cache s)\<rparr>);
          tell = (\<lambda>(i, p) s.
            case properties_for (mk_rect (top_left (sf_rect (world_surface w p))) (surface_size (world_surface w p)))
                   (output_cache s) of
              None \<Rightarrow> s
            | Some (_, props) \<Rightarrow> sink_event (Output_event (int i) props) s)
      in (fold tell (ses_surfaces s) s, w))"

definition send_input_config :: "nat \<Rightarrow> ApplicationSession \<Rightarrow> ApplicationSession" where
  "send_input_config config s = sink_event (Input_config_change config) s"

definition set_lifecycle_state :: "int \<Rightarrow> ApplicationSession \<Rightarrow> ApplicationSession" where
  "set_lifecycle_state state s = sink_event (Lifecycle_event state) s"

definition ses_start_prompt_session :: "ApplicationSession \<Rightarrow> ApplicationSession" where
  "ses_start_prompt_session s = sink_event (Prompt_session_event 1) s"

definition ses_stop_prompt_session :: "ApplicationSession \<Rightarrow> ApplicationSession" where
  "ses_stop_prompt_session s = sink_event (Prompt_session_event 0) s"

definition ses_suspend_prompt_session :: "ApplicationSession \<Rightarrow> ApplicationSession" where
  "ses_suspend_prompt_session s = sink_event (Prompt_session_event 2) s"

definition ses_resume_prompt_session :: "ApplicationSession \<Rightarrow> ApplicationSession" where
  "ses_resume_prompt_session s = ses_start_prompt_session s"

definition send_error :: "nat \<Rightarrow> ApplicationSession \<Rightarrow> ApplicationSession" where
  "send_error err s = sink_event (Client_error err) s"

section \<open>Streams and buffers\<close>

definition create_buffer_stream :: "int \<Rightarrow> Size \<Rightarrow> nat \<Rightarrow> session_state \<Rightarrow> session_state \<times> nat" where
  "create_buffer_stream policy_timeout sz format sw =
     (let (i, s) = next_id (fst sw); w = snd sw; q = w_next_stream w;
          w = put_stream q (new_Stream policy_timeout (ses_buffers s) sz format) (w\<lparr>w_next_stream := Suc q\<rparr>)
      in ((s\<lparr>ses_streams := map_put i q (ses_streams s)\<rparr>, w), i))"

definition destroy_buffer_stream :: "nat \<Rightarrow> ApplicationSession \<Rightarrow> (ApplicationSession, unit) outcome" where
  "destroy_buffer_stream i s =
     (case map_of (ses_streams s) i of
        None \<Rightarrow> (Inl (runtime_error ''cannot destroy stream: Invalid BufferStreamId''), s)
      | Some q \<Rightarrow> (Inr (), s\<lparr>ses_streams := map_erase i (ses_streams s)\<rparr>))"

definition ses_configure_streams ::
  "ApplicationSession \<Rightarrow> SurfacePtr \<Rightarrow> StreamSpecification list \<Rightarrow> SceneWorld \<Rightarrow> (SceneWorld, unit) outcome" where
  "ses_configure_streams s p specs w =
     (case stream_infos s specs of
        Inl e \<Rightarrow> (Inl e, w)
      | Inr infos \<Rightarrow> (Inr (), map_surface (\<lambda>surface. surface_set_streams surface infos) p w))"

text \<open>The three overloads differ in the call on the allocator, whose result is a parameter.\<close>

definition create_buffer ::
  "(Buffer \<Rightarrow> exn option) \<Rightarrow> Buffer result \<Rightarrow> Size \<Rightarrow> nat \<Rightarrow> ApplicationSession \<Rightarrow> (ApplicationSession, BufferID) outcome" where
  "create_buffer sink_add allocated sz format s =
     (let failed = (\<lambda>e s. (Inl e, sink_event (Error_buffer sz format (what e)) s))
      in case allocated of
           Inl e \<Rightarrow> failed e s
         | Inr b \<Rightarrow>
             (case add_buffer sink_add (ses_buffers s) b of
                (Inl e, m) \<Rightarrow> failed e (s\<lparr>ses_buffers := m\<rparr>)
              | (Inr i, m) \<Rightarrow> (Inr i, s\<lparr>ses_buffers := m\<rparr>)))"

definition destroy_buffer :: "BufferID \<Rightarrow> ApplicationSession \<Rightarrow> (ApplicationSession, unit) outcome" where
  "destroy_buffer i s = apsnd (\<lambda>m. s\<lparr>ses_buffers := m\<rparr>) (remove_buffer (ses_buffers s) i)"

definition get_buffer :: "BufferID \<Rightarrow> ApplicationSession \<Rightarrow> Buffer result" where
  "get_buffer i s = buffer_at (ses_buffers s) i"

section \<open>The container of the sessions\<close>

definition insert_session :: "nat \<Rightarrow> nat list \<Rightarrow> nat list" where
  "insert_session session apps = apps @ [session]"

definition container_remove_session :: "nat \<Rightarrow> nat list \<Rightarrow> (nat list, unit) outcome" where
  "container_remove_session session apps =
     (if session \<in> set apps then (Inr (), remove1 session apps)
      else (Inl (logic_error ''Invalid Session''), apps))"

fun successor_loop :: "nat list \<Rightarrow> nat \<Rightarrow> nat list \<Rightarrow> nat option" where
  "successor_loop apps session [] = None"
| "successor_loop apps session (x # xs) =
     (if x = session then Some (case xs of [] \<Rightarrow> hd apps | y # _ \<Rightarrow> y) else successor_loop apps session xs)"

definition successor_of :: "nat option \<Rightarrow> nat list \<Rightarrow> nat option result" where
  "successor_of session apps =
     (case session of
        None \<Rightarrow> Inr (if apps \<noteq> [] then Some (last apps) else None)
      | Some s \<Rightarrow>
          (case successor_loop apps s apps of
             Some t \<Rightarrow> Inr (Some t)
           | None \<Rightarrow> Inl (logic_error ''Invalid session'')))"

section \<open>The event sink of the session manager\<close>

text \<open>Handlers are numbers; what they are called with is a log.\<close>

datatype HandlerCall = Focus_change nat nat | No_focus nat | Session_stopping nat nat

record BroadcastingSessionEventSink =
  focus_change_handlers :: "nat list"
  no_focus_handlers :: "nat list"
  session_stopping_handlers :: "nat list"
  handler_calls :: "HandlerCall list"

definition new_BroadcastingSessionEventSink :: BroadcastingSessionEventSink where
  "new_BroadcastingSessionEventSink =
     \<lparr>focus_change_handlers = [], no_focus_handlers = [], session_stopping_handlers = [], handler_calls = []\<rparr>"

definition handle_focus_change :: "nat \<Rightarrow> BroadcastingSessionEventSink \<Rightarrow> BroadcastingSessionEventSink" where
  "handle_focus_change session k =
     k\<lparr>handler_calls := handler_calls k @ map (\<lambda>h. Focus_change h session) (focus_change_handlers k)\<rparr>"

definition handle_no_focus :: "BroadcastingSessionEventSink \<Rightarrow> BroadcastingSessionEventSink" where
  "handle_no_focus k = k\<lparr>handler_calls := handler_calls k @ map No_focus (no_focus_handlers k)\<rparr>"

definition handle_session_stopping :: "nat \<Rightarrow> BroadcastingSessionEventSink \<Rightarrow> BroadcastingSessionEventSink" where
  "handle_session_stopping session k =
     k\<lparr>handler_calls := handler_calls k @ map (\<lambda>h. Session_stopping h session) (session_stopping_handlers k)\<rparr>"

definition register_focus_change_handler :: "nat \<Rightarrow> BroadcastingSessionEventSink \<Rightarrow> BroadcastingSessionEventSink" where
  "register_focus_change_handler h k = k\<lparr>focus_change_handlers := focus_change_handlers k @ [h]\<rparr>"

definition register_no_focus_handler :: "nat \<Rightarrow> BroadcastingSessionEventSink \<Rightarrow> BroadcastingSessionEventSink" where
  "register_no_focus_handler h k = k\<lparr>no_focus_handlers := no_focus_handlers k @ [h]\<rparr>"

definition register_session_stopping_handler :: "nat \<Rightarrow> BroadcastingSessionEventSink \<Rightarrow> BroadcastingSessionEventSink" where
  "register_session_stopping_handler h k = k\<lparr>session_stopping_handlers := session_stopping_handlers k @ [h]\<rparr>"

section \<open>The session manager\<close>

record SessionManager =
  sm_world :: SceneWorld
  sm_objects :: "nat \<Rightarrow> ApplicationSession option"
  sm_next :: nat
  sm_apps :: "nat list"
  sm_event_sink :: BroadcastingSessionEventSink
  sm_anr_detector :: AnrDetector
  sm_display_configuration :: DisplayConfiguration

definition new_SessionManager ::
  "SceneWorld \<Rightarrow> BroadcastingSessionEventSink \<Rightarrow> AnrDetector \<Rightarrow> DisplayConfiguration \<Rightarrow> SessionManager" where
  "new_SessionManager w k anr config =
     \<lparr>sm_world = w, sm_objects = Map.empty, sm_next = 0, sm_apps = [], sm_event_sink = k, sm_anr_detector = anr,
      sm_display_configuration = config\<rparr>"

definition sm_listener :: "SessionListenerCall \<Rightarrow> SessionManager \<Rightarrow> SessionManager" where
  "sm_listener c m = m\<lparr>sm_world := listener_call c (sm_world m)\<rparr>"

definition open_session :: "int \<Rightarrow> int \<Rightarrow> string \<Rightarrow> SessionManager \<Rightarrow> SessionManager \<times> nat" where
  "open_session now client_pid name m =
     (let i = sm_next m;
          m = m\<lparr>sm_next := Suc i,
                sm_objects := (sm_objects m)(i \<mapsto> new_ApplicationSession i client_pid name (sm_display_configuration m))\<rparr>;
          m = sm_listener (Starting i) (m\<lparr>sm_apps := insert_session i (sm_apps m)\<rparr>)
      in (m\<lparr>sm_anr_detector := register_session now i (sm_anr_detector m)\<rparr>, i))"

definition sm_set_focus_to :: "nat \<Rightarrow> SessionManager \<Rightarrow> SessionManager" where
  "sm_set_focus_to i m = sm_listener (Focused i) (m\<lparr>sm_event_sink := handle_focus_change i (sm_event_sink m)\<rparr>)"

definition sm_unset_focus :: "SessionManager \<Rightarrow> SessionManager" where
  "sm_unset_focus m = sm_listener Unfocused (m\<lparr>sm_event_sink := handle_no_focus (sm_event_sink m)\<rparr>)"

definition close_session :: "nat \<Rightarrow> SessionManager \<Rightarrow> (SessionManager, unit) outcome" where
  "close_session i m =
     (let m = m\<lparr>sm_anr_detector := unregister_session i (sm_anr_detector m)\<rparr>;
          m = m\<lparr>sm_event_sink := handle_session_stopping i (sm_event_sink m)\<rparr>;
          m = sm_listener (Stopping i) m
      in apsnd (\<lambda>apps. m\<lparr>sm_apps := apps\<rparr>) (container_remove_session i (sm_apps m)))"

definition sm_successor_of :: "nat option \<Rightarrow> SessionManager \<Rightarrow> nat option result" where
  "sm_successor_of session m = successor_of session (sm_apps m)"

text \<open>The destructor closes what is still open; a throw there ends the server.\<close>

definition delete_SessionManager :: "SessionManager \<Rightarrow> SessionManager" where
  "delete_SessionManager m = fold (\<lambda>i m. snd (close_session i m)) (sm_apps m) m"

text \<open>An operation of one session, and the end of a session's life.\<close>

definition on_session :: "(session_state \<Rightarrow> (session_state, 'a) outcome) \<Rightarrow> nat \<Rightarrow> SessionManager \<Rightarrow> (SessionManager, 'a) outcome" where
  "on_session f i m =
     (case sm_objects m i of
        None \<Rightarrow> (Inl (fatal_error ''null pointer''), m)
      | Some s \<Rightarrow>
          apsnd (\<lambda>(s', w'). m\<lparr>sm_objects := (sm_objects m)(i \<mapsto> s'), sm_world := w'\<rparr>) (f (s, sm_world m)))"

definition release_session :: "nat \<Rightarrow> SessionManager \<Rightarrow> SessionManager" where
  "release_session i m =
     (case sm_objects m i of
        None \<Rightarrow> m
      | Some s \<Rightarrow>
          m\<lparr>sm_world := delete_ApplicationSession (s, sm_world m), sm_objects := (sm_objects m)(i := None)\<rparr>)"

section \<open>Cycling through surfaces and sessions\<close>

lemma find_append: "find P (xs @ ys) = (case find P xs of Some x \<Rightarrow> Some x | None \<Rightarrow> find P ys)"
  by (induction xs) auto

text \<open>
  \<open>surface_after\<close> goes round the surfaces of the session in the order of their identifiers, starting
  behind the given one and ending with it, and returns the first that can take focus.  When none of them
  can it should return nothing, but it returns the surface behind the given one if there is one.
\<close>

theorem surface_after_cycles:
  assumes "map snd (ses_surfaces s) = xs @ before # ys" and "before \<notin> set xs"
  shows "surface_after w before s =
           Inr (case find (\<lambda>p. can_take_focus (sf_type (world_surface w p))) (ys @ xs @ [before]) of
                  Some p \<Rightarrow> Some p
                | None \<Rightarrow> (case ys of [] \<Rightarrow> None | p # _ \<Rightarrow> Some p))"
proof -
  have "takeWhile (\<lambda>p. p \<noteq> before) (xs @ before # ys) = xs"
    using assms(2) by (simp add: takeWhile_append)
  then show ?thesis
    using assms by (simp add: surface_after_def find_append Let_def split: option.split)
qed

text \<open>In a container of distinct sessions the successor is the next one, and after the last one the first.\<close>

lemma successor_loop_suffix:
  "distinct xs \<Longrightarrow> i < length xs \<Longrightarrow> apps \<noteq> [] \<Longrightarrow>
     successor_loop apps (xs ! i) xs = Some (if Suc i < length xs then xs ! Suc i else apps ! 0)"
proof (induction xs arbitrary: i)
  case (Cons x xs)
  show ?case
  proof (cases i)
    case 0
    with Cons show ?thesis by (cases xs) (auto simp: hd_conv_nth)
  next
    case (Suc j)
    with Cons have "(x # xs) ! i \<noteq> x" by auto
    with Suc Cons.IH [of j] Cons.prems show ?thesis by simp
  qed
qed simp

lemma successor_of_nth:
  assumes "distinct apps" "i < length apps"
  shows "successor_of (Some (apps ! i)) apps = Inr (Some (apps ! (Suc i mod length apps)))"
proof -
  have ne: "apps \<noteq> []" using assms(2) by auto
  have "Suc i < length apps \<or> Suc i = length apps" using assms(2) by linarith
  then show ?thesis
    unfolding successor_of_def option.case successor_loop_suffix [OF assms ne] by auto
qed

lemma successor_of_missing: "s \<notin> set apps \<Longrightarrow> successor_of (Some s) apps = Inl (logic_error ''Invalid session'')"
proof -
  assume "s \<notin> set apps"
  then have "successor_loop ys s apps = None" for ys by (induction apps) auto
  then show ?thesis by (simp add: successor_of_def)
qed

end
