(* ===== verification/Session_Ownership.thy ===== *)
theory Session_Ownership
  imports Sessions
begin

text \<open>
  Who owns the surfaces of the scene: in every run of the session manager each surface of the stack
  belongs to exactly one session.
\<close>

section \<open>What leaves the scene alone\<close>

definition scene_kept :: "SceneWorld \<Rightarrow> SceneWorld \<Rightarrow> bool" where
  "scene_kept w w' \<longleftrightarrow>
     surfaces (w_scene w') = surfaces (w_scene w) \<and>
     rendering_trackers (w_scene w') = rendering_trackers (w_scene w) \<and>
     registered_compositors (w_scene w') = registered_compositors (w_scene w) \<and>
     tracker_at (w_scene w') = tracker_at (w_scene w) \<and> next_tracker (w_scene w') = next_tracker (w_scene w) \<and>
     (\<forall>p \<in> set (surfaces (w_scene w)). vis (heap (w_scene w)) p \<noteq> None \<longrightarrow>
        vis (heap (w_scene w')) p = vis (heap (w_scene w)) p) \<and>
     w_next_surface w \<le> w_next_surface w'"

definition world_ok :: "SceneWorld \<Rightarrow> bool" where
  "world_ok w \<longleftrightarrow>
     stack_inv UNIV (w_scene w) \<and> (\<forall>p \<in> set (surfaces (w_scene w)). p < w_next_surface w) \<and>
     (\<forall>t < next_tracker (w_scene w). tr_surface (tracker_at (w_scene w) t) < w_next_surface w)"

lemma scene_kept_refl [simp]: "scene_kept w w"
  by (simp add: scene_kept_def)

lemma scene_kept_trans [trans]: "scene_kept w w' \<Longrightarrow> scene_kept w' w'' \<Longrightarrow> scene_kept w w''"
  unfolding scene_kept_def by auto

lemma world_ok_kept: "world_ok w \<Longrightarrow> scene_kept w w' \<Longrightarrow> world_ok w'"
  unfolding world_ok_def scene_kept_def
  using stack_inv_frame [of UNIV "w_scene w" "w_scene w'" UNIV] stack_invD(5) [of UNIV "w_scene w"]
  by (auto intro: less_le_trans)

lemma kept_surfaces: "scene_kept w w' \<Longrightarrow> surfaces (w_scene w') = surfaces (w_scene w)"
  by (simp add: scene_kept_def)

lemmas world_defs = map_heap_def map_scene_def put_stream_def write_surface_def map_surface_def listener_call_def

lemma kept_listener [simp]: "scene_kept w (listener_call c w)"
  and kept_put_stream [simp]: "scene_kept w (put_stream q st w)"
  and kept_next_stream [simp]: "scene_kept w (w\<lparr>w_next_stream := n\<rparr>)"
  by (simp_all add: scene_kept_def world_defs vis_def)

lemma kept_write_surface:
  "vis (heap (w_scene w)) p = Some (sf_visibility s) \<or> vis (heap (w_scene w)) p = None \<or> p \<notin> set (surfaces (w_scene w)) \<Longrightarrow>
     scene_kept w (write_surface p s w)"
  by (auto simp: scene_kept_def world_defs vis_def)

lemma kept_map_surface:
  assumes "\<And>s. sf_visibility (f s) = sf_visibility s"
  shows "scene_kept w (map_surface f p w)"
  unfolding map_surface_def
  by (rule kept_write_surface) (auto simp: assms world_surface_def surface_of_def vis_def)

lemma configure_visibility_kept:
  assumes "attrib \<noteq> mir_window_attrib_visibility"
  shows "sf_visibility (fst (snd (configure s st attrib v))) = sf_visibility s"
  using assms by (cases attrib) (auto simp: configure_def attribute_defs)

lemma kept_world_configure:
  assumes "attrib \<noteq> mir_window_attrib_visibility"
  shows "scene_kept w (snd (world_configure p attrib v w))"
proof -
  let ?c = "configure (world_surface w p) (streams (heap (w_scene w))) attrib v"
  have "scene_kept w (map_heap (\<lambda>h. h\<lparr>streams := snd (snd ?c)\<rparr>) w)" (is "scene_kept w ?w")
    by (simp add: scene_kept_def world_defs vis_def)
  also have "scene_kept ?w (write_surface p (fst (snd ?c)) ?w)"
    by (rule kept_write_surface)
       (auto simp: configure_visibility_kept [OF assms] world_surface_def surface_of_def vis_def world_defs)
  finally show ?thesis by (simp add: world_configure_def case_prod_unfold)
qed

lemma kept_configure_if_set:
  "attrib \<noteq> mir_window_attrib_visibility \<Longrightarrow> scene_kept w (snd (configure_if_set p attrib v w))"
  using kept_world_configure [of attrib w p]
  by (auto simp: configure_if_set_def and_then_def case_prod_unfold split: option.split sum.split)

lemma configure_if_set_throws:
  "isl (fst (configure_if_set p attrib v w)) \<longleftrightarrow> (\<exists>x. v = Some x \<and> \<not> accepted_value attrib x)"
proof (cases v)
  case (Some x)
  show ?thesis
  proof (cases "accepted_value attrib x")
    case True
    obtain s' st' where "configure (world_surface w p) (streams (heap (w_scene w))) attrib x = (Inr x, (s', st'))"
      by (rule configure_valid [OF True, of "world_surface w p" "streams (heap (w_scene w))"])
    with True show ?thesis by (simp add: configure_if_set_def world_configure_def Some)
  next
    case False
    then show ?thesis
      using configure_invalid [OF False, of "world_surface w p" "streams (heap (w_scene w))"]
      by (auto simp: configure_if_set_def world_configure_def Some)
  qed
qed (simp add: configure_if_set_def)

definition valid_creation :: "SessionSurfaceParameters \<Rightarrow> bool" where
  "valid_creation params \<longleftrightarrow>
     (\<forall>x. par_state params = Some x \<longrightarrow> accepted_value mir_window_attrib_state x) \<and>
     (\<forall>x. par_type params = Some x \<longrightarrow> accepted_value mir_window_attrib_type x) \<and>
     (\<forall>x. par_preferred_orientation params = Some x \<longrightarrow> accepted_value mir_window_attrib_preferred_orientation x)"

lemma configure_new_surface_effect:
  shows "scene_kept w (snd (configure_new_surface p params w))"
    and "isl (fst (configure_new_surface p params w)) \<longleftrightarrow> \<not> valid_creation params"
proof -
  obtain r1 w1 where 1: "configure_if_set p mir_window_attrib_state (par_state params) w = (r1, w1)" by fastforce
  obtain r2 w2 where 2: "configure_if_set p mir_window_attrib_type (par_type params) w1 = (r2, w2)" by fastforce
  obtain r3 w3 where 3: "configure_if_set p mir_window_attrib_preferred_orientation (par_preferred_orientation params) w2 = (r3, w3)"
    by fastforce
  have k: "scene_kept w w1" "scene_kept w1 w2" "scene_kept w2 w3"
    using 1 2 3 kept_configure_if_set by (metis MirWindowAttrib.distinct snd_conv)+
  have k4: "scene_kept w3 (map_surface (\<lambda>s. surface_set_input_region s rects) p w3)" for rects
    by (rule kept_map_surface) (simp add: surface_set_input_region_def)
  note t = configure_if_set_throws [of p mir_window_attrib_state "par_state params" w, unfolded 1]
    configure_if_set_throws [of p mir_window_attrib_type "par_type params" w1, unfolded 2]
    configure_if_set_throws [of p mir_window_attrib_preferred_orientation "par_preferred_orientation params" w2, unfolded 3]
  show "scene_kept w (snd (configure_new_surface p params w))"
    using k k4 by (cases r1; cases r2; cases r3)
      (auto simp: configure_new_surface_def 1 2 3 split: option.split intro: scene_kept_trans)
  show "isl (fst (configure_new_surface p params w)) \<longleftrightarrow> \<not> valid_creation params"
    using t by (cases r1; cases r2; cases r3) (auto simp: configure_new_surface_def 1 2 3 valid_creation_def)
qed

section \<open>Creating a surface\<close>

lemma allocate_surface_effect:
  assumes "allocate_surface infos params w = (r, w')" and "world_ok w"
  shows "(\<exists>e. r = Inl e \<and> w' = w) \<or>
         (r = Inr (w_next_surface w) \<and> scene_kept w w' \<and> w_next_surface w' = Suc (w_next_surface w) \<and>
          vis (heap (w_scene w')) (w_next_surface w) \<noteq> None)"
proof -
  let ?p = "w_next_surface w"
  have "scene_kept w (w\<lparr>w_next_surface := Suc ?p\<rparr>)" (is "scene_kept w ?w") by (simp add: scene_kept_def)
  moreover have "?p \<notin> set (surfaces (w_scene ?w))" using assms(2) by (auto simp: world_ok_def)
  then have "scene_kept ?w (write_surface ?p s ?w)" for s by (intro kept_write_surface) simp
  ultimately have "scene_kept w (write_surface ?p s ?w)" for s by (rule scene_kept_trans)
  moreover have "w_next_surface (write_surface ?p s ?w) = Suc ?p" "vis (heap (w_scene (write_surface ?p s ?w))) ?p \<noteq> None" for s
    by (simp_all add: world_defs vis_def)
  ultimately show ?thesis
    using assms(1) by (auto simp: allocate_surface_def Let_def split: sum.splits)
qed

lemma add_surface_effect:
  assumes "world_ok w" "p \<notin> set (surfaces (w_scene w))" "p < w_next_surface w" "vis (heap (w_scene w)) p \<noteq> None"
    and fresh: "\<forall>t < next_tracker (w_scene w). tr_surface (tracker_at (w_scene w) t) \<noteq> p"
    and w': "w' = map_scene (\<lambda>sc. add_surface sc p m) w"
  shows "world_ok w'" "surfaces (w_scene w') = surfaces (w_scene w) @ [p]"
proof -
  have inv: "stack_inv UNIV (w_scene w)" using assms(1) by (simp add: world_ok_def)
  have "stack_inv UNIV (add_surface (w_scene w) p m)" by (rule add_surface_inv) (use inv assms(4) fresh in auto)
  with add_surface_fields [OF assms(2) inv assms(4), of m] assms(1,3)
  show "world_ok w'" "surfaces (w_scene w') = surfaces (w_scene w) @ [p]"
    by (auto simp: world_ok_def w' map_scene_def less_Suc_eq)
qed

lemma kept_resize_content: "scene_kept w (resize_content q params w)"
  by (simp add: resize_content_def)

lemma with_parent_valid: "with_parent s params = Inr params' \<Longrightarrow> valid_creation params' = valid_creation params"
  by (auto simp: with_parent_def valid_creation_def find_surface_def split: option.splits)

text \<open>
  The outcomes of \<open>create_surface\<close>: a surface on top of the stack that belongs to the session; an error
  that leaves stack and session alone; or, for an attribute value that \<open>configure\<close> rejects, an error
  that leaves the new surface on the stack.
\<close>

lemma create_surface_cases:
  assumes "create_surface params (s, w) = (r, (s', w'))" and ok: "world_ok w"
  obtains
    (created) "r = Inr (next_surface_id s)" "valid_creation params" "world_ok w'"
      "surfaces (w_scene w') = surfaces (w_scene w) @ [w_next_surface w]"
      "ses_surfaces s' = map_put (next_surface_id s) (w_next_surface w) (ses_surfaces s)"
      "\<exists>k. default_content_map s' = map_put (next_surface_id s) k (default_content_map s)"
      "ses_streams s' = ses_streams s" "next_surface_id s' = Suc (next_surface_id s)"
  | (rejected) e where "r = Inl e" "world_ok w'" "surfaces (w_scene w') = surfaces (w_scene w)"
      "s' = s\<lparr>next_surface_id := Suc (next_surface_id s)\<rparr>"
  | (leaked) e where "r = Inl e" "\<not> valid_creation params" "world_ok w'"
      "surfaces (w_scene w') = surfaces (w_scene w) @ [w_next_surface w]"
      "s' = s\<lparr>next_surface_id := Suc (next_surface_id s)\<rparr>"
proof -
  let ?s = "s\<lparr>next_surface_id := Suc (next_surface_id s)\<rparr>"
  show thesis
  proof (cases "isl r \<and> s' = ?s \<and> scene_kept w w'")
    case True
    then show thesis using rejected [of "projl r"] world_ok_kept [OF ok] kept_surfaces by (auto simp: isl_def)
  next
    case False
    note create = assms(1) [unfolded create_surface_def next_id_def, simplified]
    obtain stream_id where c1: "default_content params = Some stream_id"
      using False create by (cases "default_content params") auto
    moreover obtain q where c2: "find_stream ?s stream_id = Inr q"
      using False create c1 by (cases "find_stream ?s stream_id") (simp_all, metis sum.disc(1))
    moreover obtain params' where c3: "with_parent ?s params = Inr params'"
      using False create c1 c2 kept_resize_content [of w q params] by (cases "with_parent ?s params") (simp_all add: Let_def, metis sum.disc(1))
    moreover obtain infos where "content_streams ?s params' = Inr infos"
      using False create c1 c2 c3 kept_resize_content [of w q params]
      by (cases "content_streams ?s params'") (simp_all add: Let_def, metis sum.disc(1))
    ultimately have c: "default_content params = Some stream_id" "find_stream ?s stream_id = Inr q"
      "with_parent ?s params = Inr params'" "content_streams ?s params' = Inr infos" by simp_all
    let ?w1 = "resize_content q params w"
    have k1: "scene_kept w ?w1" by (rule kept_resize_content)
    have n1: "w_next_surface ?w1 = w_next_surface w" by (simp add: resize_content_def put_stream_def map_heap_def map_scene_def)
    have ok1: "world_ok ?w1" by (rule world_ok_kept [OF ok k1])
    obtain r2 w2 where al: "allocate_surface infos params' ?w1 = (r2, w2)" by fastforce
    from allocate_surface_effect [OF al ok1] have r2: "r2 = Inr (w_next_surface w)" "scene_kept ?w1 w2"
      "w_next_surface w2 = Suc (w_next_surface w)" "vis (heap (w_scene w2)) (w_next_surface w) \<noteq> None"
      using False create c al k1 n1 by (auto simp: Let_def)
    let ?p = "w_next_surface w" and ?w3 = "map_scene (\<lambda>sc. add_surface sc (w_next_surface w) (par_input_mode params')) w2"
    have k2: "scene_kept w w2" by (rule scene_kept_trans [OF k1 r2(2)])
    have "world_ok w2" by (rule world_ok_kept [OF ok k2])
    moreover have "?p \<notin> set (surfaces (w_scene w2))" "\<forall>t < next_tracker (w_scene w2). tr_surface (tracker_at (w_scene w2) t) \<noteq> ?p"
      using ok k2 by (auto simp: world_ok_def scene_kept_def)
    ultimately have w3: "world_ok ?w3" "surfaces (w_scene ?w3) = surfaces (w_scene w) @ [?p]"
      using add_surface_effect [OF _ _ _ r2(4) _ refl] r2(3) kept_surfaces [OF k2] by simp_all
    obtain r4 w4 where cf: "configure_new_surface ?p params' ?w3 = (r4, w4)" by fastforce
    from configure_new_surface_effect(1) [of ?w3 ?p params'] configure_new_surface_effect(2) [of ?p params' ?w3] cf have k4: "scene_kept ?w3 w4"
      and r4: "isl r4 \<longleftrightarrow> \<not> valid_creation params'" by simp_all
    have w4: "world_ok w4" "surfaces (w_scene w4) = surfaces (w_scene w) @ [?p]"
      using world_ok_kept [OF w3(1) k4] kept_surfaces [OF k4] w3(2) by simp_all
    have result: "(r, (s', w')) = (case r4 of Inl e \<Rightarrow> (Inl e, (?s, w4))
        | Inr _ \<Rightarrow> (Inr (next_surface_id s), adopt_surface (next_surface_id s) ?p stream_id ?s w4))"
      using create c al r2(1) cf by (cases r4) (simp_all add: Let_def)
    show thesis
    proof (cases r4)
      case (Inl e)
      with result r4 w4 with_parent_valid [OF c(3)] show thesis by (intro leaked) auto
    next
      case (Inr u)
      with result have "r = Inr (next_surface_id s)" "(s', w') = adopt_surface (next_surface_id s) ?p stream_id ?s w4"
        by (simp_all add: Let_def)
      moreover have "valid_creation params" using Inr r4 with_parent_valid [OF c(3)] by simp
      moreover have "world_ok (listener_call ev w4)" "surfaces (w_scene (listener_call ev w4)) = surfaces (w_scene w) @ [?p]" for ev
        using world_ok_kept [OF w4(1) kept_listener] w4(2) kept_surfaces [OF kept_listener] by simp_all
      ultimately show thesis
        by (intro created) (auto simp: adopt_surface_def case_prod_unfold Let_def)
    qed
  qed
qed

section \<open>A well-formed session\<close>

definition own :: "ApplicationSession \<Rightarrow> SurfacePtr set" where
  "own s = snd ` set (ses_surfaces s)"

definition session_wf :: "ApplicationSession \<Rightarrow> bool" where
  "session_wf s \<longleftrightarrow>
     ordered (ses_surfaces s) \<and> ordered (ses_streams s) \<and> ordered (default_content_map s) \<and>
     (\<forall>i \<in> fst ` set (ses_surfaces s) \<union> fst ` set (ses_streams s). i < next_surface_id s) \<and>
     fst ` set (ses_surfaces s) \<inter> fst ` set (ses_streams s) = {} \<and>
     fst ` set (default_content_map s) = fst ` set (ses_surfaces s) \<and>
     distinct (map snd (ses_surfaces s))"

lemma mset_put_new: "k \<notin> fst ` set m \<Longrightarrow> mset (map_put k v m) = add_mset (k, v) (mset m)"
  by (induction k v m rule: map_put.induct) auto

lemma put_new_values:
  assumes "k \<notin> fst ` set m"
  shows "snd ` set (map_put k v m) = insert v (snd ` set m)"
    and "distinct (map snd (map_put k v m)) \<longleftrightarrow> v \<notin> snd ` set m \<and> distinct (map snd m)"
proof -
  have "set (map_put k v m) = insert (k, v) (set m)"
    using mset_put_new [OF assms, of v] by (metis set_mset_add_mset_insert set_mset_mset)
  then show "snd ` set (map_put k v m) = insert v (snd ` set m)" by auto
  have "mset (map snd (map_put k v m)) = mset (v # map snd m)" using mset_put_new [OF assms, of v] by simp
  then have "distinct (map snd (map_put k v m)) \<longleftrightarrow> distinct (v # map snd m)" by (rule mset_eq_imp_distinct_iff)
  then show "distinct (map snd (map_put k v m)) \<longleftrightarrow> v \<notin> snd ` set m \<and> distinct (map snd m)" by simp
qed

lemma erase_values:
  assumes "ordered m" "map_of m k = Some v" "distinct (map snd m)"
  shows "snd ` set (map_erase k m) = snd ` set m - {v}" "distinct (map snd (map_erase k m))"
proof -
  have "(k', v') \<in> set m \<Longrightarrow> v' = v \<longleftrightarrow> k' = k" for k' v'
    using assms by (metis distinct_map inj_onD map_of_SomeD ordered_map_of snd_conv prod.inject option.inject)
  then show "snd ` set (map_erase k m) = snd ` set m - {v}" by (force simp: map_erase_def)
  show "distinct (map snd (map_erase k m))" using assms(3) by (simp add: map_erase_def distinct_map_filter)
qed

lemma session_wf_new: "session_wf (new_ApplicationSession i pid name config)" "own (new_ApplicationSession i pid name config) = {}"
  by (simp_all add: session_wf_def own_def new_ApplicationSession_def)

lemma session_wf_fresh: "session_wf s \<Longrightarrow> next_surface_id s \<notin> fst ` set (ses_surfaces s) \<union> fst ` set (ses_streams s)"
  unfolding session_wf_def by auto

lemma session_wf_created:
  assumes "session_wf s" "p \<notin> own s" "ses_surfaces s' = map_put (next_surface_id s) p (ses_surfaces s)"
    "default_content_map s' = map_put (next_surface_id s) k (default_content_map s)" "ses_streams s' = ses_streams s"
    "next_surface_id s' = Suc (next_surface_id s)"
  shows "session_wf s'" "own s' = insert p (own s)"
  using assms session_wf_fresh [OF assms(1)]
  by (auto simp: session_wf_def own_def put_new_values less_Suc_eq)

lemma session_wf_skip: "session_wf s \<Longrightarrow> session_wf (s\<lparr>next_surface_id := Suc (next_surface_id s)\<rparr>)"
  by (auto simp: session_wf_def less_Suc_eq)

lemma session_wf_erase_stream: "session_wf s \<Longrightarrow> session_wf (s\<lparr>ses_streams := map_erase i (ses_streams s)\<rparr>)"
  unfolding session_wf_def by (simp, blast)

lemma destroy_entry_effect:
  assumes "session_wf s" "world_ok w" "map_of (ses_surfaces s) i = Some p" "destroy_entry i p (s, w) = (s', w')"
  shows "session_wf s'" "own s' = own s - {p}" "world_ok w'"
    "set (surfaces (w_scene w')) = set (surfaces (w_scene w)) - {p}"
proof -
  have s': "s' = s\<lparr>ses_surfaces := map_erase i (ses_surfaces s), default_content_map := map_erase i (default_content_map s)\<rparr>"
    using assms(4) by (simp add: destroy_entry_def Let_def)
  have ord: "ordered (ses_surfaces s)" "distinct (map snd (ses_surfaces s))" using assms(1) by (simp_all add: session_wf_def)
  note v = erase_values [OF ord(1) assms(3) ord(2)]
  show "own s' = own s - {p}" using v(1) by (simp add: s' own_def)
  show "session_wf s'" using assms(1) v(2) unfolding session_wf_def s' by (auto simp del: distinct_map)
  have inv: "stack_inv UNIV (w_scene w)" using assms(2) by (simp add: world_ok_def)
  then have "set (surfaces (remove_surface (w_scene w) p)) = set (surfaces (w_scene w)) - {p}"
    "tracker_at (remove_surface (w_scene w) p) = tracker_at (w_scene w)"
    "next_tracker (remove_surface (w_scene w) p) = next_tracker (w_scene w)"
    using stack_invD(1) by (auto simp: remove_surface_def scene_notify_def)
  with remove_surface_inv [OF inv, of p] assms(2,4)
  show "world_ok w'" "set (surfaces (w_scene w')) = set (surfaces (w_scene w)) - {p}"
    by (auto simp: destroy_entry_def world_ok_def map_scene_def listener_call_def)
qed

section \<open>The contract of a session operation\<close>

abbreviation stack :: "SceneWorld \<Rightarrow> SurfacePtr set" where
  "stack w \<equiv> set (surfaces (w_scene w))"

definition sm_ok :: "SessionManager \<Rightarrow> bool" where
  "sm_ok m \<longleftrightarrow>
     world_ok (sm_world m) \<and>
     (\<forall>i s. sm_objects m i = Some s \<longrightarrow> session_wf s \<and> i < sm_next m) \<and>
     (\<forall>i j s t. sm_objects m i = Some s \<longrightarrow> sm_objects m j = Some t \<longrightarrow> i \<noteq> j \<longrightarrow> own s \<inter> own t = {}) \<and>
     stack (sm_world m) = (\<Union>s \<in> ran (sm_objects m). own s) \<and>
     distinct (sm_apps m) \<and> set (sm_apps m) \<subseteq> dom (sm_objects m) \<and>
     fst ` set (anr_sessions (sm_anr_detector m)) = set (sm_apps m)"

lemma sm_okD:
  assumes "sm_ok m"
  shows "world_ok (sm_world m)" "stack (sm_world m) = (\<Union>s \<in> ran (sm_objects m). own s)"
    "fst ` set (anr_sessions (sm_anr_detector m)) = set (sm_apps m)" "set (sm_apps m) \<subseteq> dom (sm_objects m)"
  using assms by (simp_all add: sm_ok_def)

lemma sm_ok_session:
  assumes "sm_ok m" "sm_objects m i = Some s"
  shows "session_wf s" "i < sm_next m" "own s \<subseteq> stack (sm_world m)"
  using assms(1) assms(2) sm_okD(2) [OF assms(1)] by (simp_all add: sm_ok_def) (auto simp: ran_def)

lemma sm_ok_disjoint:
  assumes "sm_ok m" "sm_objects m i = Some s" "sm_objects m j = Some t" "i \<noteq> j"
  shows "own s \<inter> own t = {}"
proof -
  have "\<forall>i j s t. sm_objects m i = Some s \<longrightarrow> sm_objects m j = Some t \<longrightarrow> i \<noteq> j \<longrightarrow> own s \<inter> own t = {}"
    using assms(1) by (simp add: sm_ok_def)
  with assms(2-) show ?thesis by blast
qed

text \<open>An operation takes surfaces that are nobody's, gives up its own, and touches no others.\<close>

definition effect :: "session_state \<Rightarrow> session_state \<Rightarrow> bool" where
  "effect sw sw' \<longleftrightarrow>
     session_wf (fst sw') \<and> world_ok (snd sw') \<and>
     own (fst sw') \<inter> (stack (snd sw) - own (fst sw)) = {} \<and>
     stack (snd sw') = (stack (snd sw) - own (fst sw)) \<union> own (fst sw')"

lemma effect_lifts:
  assumes ok: "sm_ok m" and i: "sm_objects m i = Some s" and eff: "effect (s, sm_world m) (s', w')"
  shows "sm_ok (m\<lparr>sm_objects := (sm_objects m)(i \<mapsto> s'), sm_world := w'\<rparr>)"
proof -
  let ?o = "(sm_objects m)(i \<mapsto> s')"
  have others: "own t \<inter> own s = {} \<and> own t \<subseteq> stack (sm_world m)" if "j \<noteq> i" "sm_objects m j = Some t" for j t
    using sm_ok_disjoint [OF ok that(2) i that(1)] sm_ok_session(3) [OF ok that(2)] by simp
  have disj: "own t \<inter> own s' = {}" if "j \<noteq> i" "sm_objects m j = Some t" for j t
    using others [OF that] eff by (auto simp: effect_def)
  have "stack (sm_world m) - own s = (\<Union>t \<in> {t. \<exists>j. j \<noteq> i \<and> sm_objects m j = Some t}. own t)"
  proof -
    have "ran (sm_objects m) = insert s {t. \<exists>j. j \<noteq> i \<and> sm_objects m j = Some t}"
      using i by (auto simp: ran_def) (metis option.inject)
    then show ?thesis using ok others unfolding sm_ok_def by auto
  qed
  moreover have "ran ?o = insert s' {t. \<exists>j. j \<noteq> i \<and> sm_objects m j = Some t}" by (auto simp: ran_def)
  ultimately have "stack w' = (\<Union>s \<in> ran ?o. own s)" using eff by (auto simp: effect_def)
  then show ?thesis
    using ok eff disj i unfolding sm_ok_def effect_def by (auto simp: Int_commute)
qed

locale session_operation =
  fixes allowed :: bool and f :: "session_state \<Rightarrow> (session_state, 'a) outcome"
  assumes contract: "\<lbrakk>allowed; session_wf s; world_ok w; own s \<subseteq> stack w\<rbrakk> \<Longrightarrow> effect (s, w) (snd (f (s, w)))"
begin

lemma keeps_ok:
  assumes "sm_ok m" allowed
  shows "sm_ok (snd (on_session f i m))"
proof (cases "sm_objects m i")
  case None
  then show ?thesis using assms by (simp add: on_session_def)
next
  case (Some s)
  obtain r s' w' where f: "f (s, sm_world m) = (r, (s', w'))" by (metis prod.exhaust)
  have "own s \<subseteq> stack (sm_world m)" using assms(1) Some by (auto simp: sm_ok_def ran_def)
  then have "effect (s, sm_world m) (s', w')"
    using contract [OF assms(2), of s "sm_world m"] assms(1) Some f by (auto simp: sm_ok_def)
  with effect_lifts [OF assms(1) Some] f Some show ?thesis by (simp add: on_session_def)
qed

end

lemma effect_kept:
  assumes "session_wf s'" "world_ok w" "ses_surfaces s' = ses_surfaces s" "scene_kept w w'" "own s \<subseteq> stack w"
  shows "effect (s, w) (s', w')"
  using assms world_ok_kept [OF assms(2,4)] kept_surfaces [OF assms(4)] by (auto simp: effect_def own_def)

lemma create_surface_effect:
  assumes "valid_creation params" "session_wf s" "world_ok w" "own s \<subseteq> stack w"
  shows "effect (s, w) (snd (create_surface params (s, w)))"
proof -
  obtain r s' w' where c: "create_surface params (s, w) = (r, (s', w'))" by (metis prod.exhaust)
  have fresh: "w_next_surface w \<notin> stack w" using assms(3) by (auto simp: world_ok_def)
  from c assms(3) show ?thesis
  proof (cases rule: create_surface_cases)
    case created
    then obtain k where "default_content_map s' = map_put (next_surface_id s) k (default_content_map s)" by blast
    moreover have "w_next_surface w \<notin> own s" using fresh assms(4) by blast
    ultimately have "session_wf s'" "own s' = insert (w_next_surface w) (own s)"
      using session_wf_created [OF assms(2)] created by simp_all
    with created fresh assms(4) show ?thesis by (auto simp: effect_def c)
  next
    case (rejected e)
    then show ?thesis using session_wf_skip [OF assms(2)] assms(4) by (auto simp: effect_def c own_def)
  qed (use assms(1) in simp)
qed

lemma destroy_effect:
  assumes "session_wf s" "world_ok w" "own s \<subseteq> stack w" "map_of (ses_surfaces s) i = Some p"
  shows "effect (s, w) (destroy_entry i p (s, w))"
proof -
  obtain s' w' where d: "destroy_entry i p (s, w) = (s', w')" by fastforce
  have "p \<in> own s" using map_of_SomeD [OF assms(4)] by (force simp: own_def)
  with destroy_entry_effect [OF assms(1,2,4) d] d assms(3) show ?thesis by (auto simp: effect_def)
qed

lemma effect_nothing: "session_wf s \<Longrightarrow> world_ok w \<Longrightarrow> own s \<subseteq> stack w \<Longrightarrow> effect (s, w) (s, w)"
  by (simp add: effect_kept)

lemma kept_fold: "(\<And>e w. scene_kept w (g e w)) \<Longrightarrow> scene_kept w (fold g es w)"
  by (induction es arbitrary: w) (auto intro: scene_kept_trans)

interpretation create: session_operation "valid_creation params" "create_surface params" for params
  by unfold_locales (rule create_surface_effect)

interpretation destroy_id: session_operation True "ses_destroy_surface_id i" for i
  by unfold_locales
     (auto simp: ses_destroy_surface_id_def find_surface_def destroy_effect effect_nothing split: option.split sum.split)

interpretation destroy: session_operation True "ses_destroy_surface p" for p
proof
  fix s w assume a: "session_wf s" "world_ok w" "own s \<subseteq> stack w"
  show "effect (s, w) (snd (ses_destroy_surface p (s, w)))"
  proof (cases "find (\<lambda>e. snd e = p) (ses_surfaces s)")
    case None
    then show ?thesis using a by (simp add: ses_destroy_surface_def effect_nothing)
  next
    case (Some e)
    then have "e \<in> set (ses_surfaces s)" by (metis find_Some_iff nth_mem)
    then have "map_of (ses_surfaces s) (fst e) = Some (snd e)"
      using a(1) by (metis prod.collapse ordered_map_of session_wf_def)
    then show ?thesis using a Some by (simp add: ses_destroy_surface_def destroy_effect case_prod_unfold)
  qed
qed

interpretation stream: session_operation True "\<lambda>sw. prod.swap (apsnd Inr (create_buffer_stream t sz format sw))" for t sz format
proof
  fix s w assume a: "session_wf s" "world_ok w" "own s \<subseteq> stack w"
  show "effect (s, w) (snd (prod.swap (apsnd Inr (create_buffer_stream t sz format (s, w)))))"
  proof -
    let ?i = "next_surface_id s" and ?q = "w_next_stream w"
    have "session_wf (s\<lparr>next_surface_id := Suc ?i, ses_streams := map_put ?i ?q (ses_streams s)\<rparr>)"
      using a(1) by (auto simp: session_wf_def less_Suc_eq)
    moreover have "scene_kept w (put_stream ?q st (w\<lparr>w_next_stream := Suc ?q\<rparr>))" for st
      by (rule scene_kept_trans [OF kept_next_stream kept_put_stream])
    ultimately show ?thesis
      using a(2,3) by (simp add: create_buffer_stream_def next_id_def Let_def prod.swap_def effect_kept)
  qed
qed

interpretation destroy_stream: session_operation True "\<lambda>(s, w). apsnd (\<lambda>s'. (s', w)) (destroy_buffer_stream i s)" for i
  by unfold_locales
     (auto simp: destroy_buffer_stream_def intro!: effect_kept session_wf_erase_stream split: option.split)

interpretation conceal: session_operation True "\<lambda>sw. (Inr (), ses_hide sw)"
  by unfold_locales
     (auto simp: ses_hide_def case_prod_unfold surface_hide_def surface_set_hidden_def notify_def
       intro!: effect_kept kept_fold kept_map_surface)

interpretation reveal: session_operation True "\<lambda>sw. (Inr (), ses_show sw)"
  by unfold_locales
     (auto simp: ses_show_def case_prod_unfold surface_show_def surface_set_hidden_def notify_def
       intro!: effect_kept kept_fold kept_map_surface)

interpretation streams: session_operation True "\<lambda>(s, w). apsnd (Pair s) (ses_configure_streams s p specs w)" for p specs
  by unfold_locales
     (auto simp: ses_configure_streams_def surface_set_streams_def notify_def
       intro!: effect_kept kept_map_surface split: sum.split)

lemma send_display_config_fields:
  "\<exists>c evs. send_display_config info (s, w) = (s\<lparr>output_cache := c, event_sink := evs\<rparr>, w)"
proof -
  let ?tell = "\<lambda>(i, p) s.
    case properties_for (mk_rect (top_left (sf_rect (world_surface w p))) (surface_size (world_surface w p))) (output_cache s) of
      None \<Rightarrow> s | Some (_, props) \<Rightarrow> sink_event (Output_event (int i) props) s"
  have "\<exists>evs. fold ?tell es t = t\<lparr>event_sink := evs\<rparr>" for es t
  proof (induction es arbitrary: t)
    case Nil
    have "t = t\<lparr>event_sink := event_sink t\<rparr>" by simp
    then show ?case unfolding fold_Nil id_apply by (rule exI)
  next
    case (Cons e es)
    then obtain evs where "fold ?tell es (?tell e t) = (?tell e t)\<lparr>event_sink := evs\<rparr>" by blast
    moreover have "(?tell e t)\<lparr>event_sink := evs\<rparr> = t\<lparr>event_sink := evs\<rparr>"
      by (simp add: sink_event_def split: prod.split option.split)
    ultimately show ?case by auto
  qed
  from this [of "ses_surfaces s" "sink_event (Display_config_change info) (s\<lparr>output_cache := update_from info (output_cache s)\<rparr>)"]
  show ?thesis
    by (auto simp: send_display_config_def Let_def sink_event_def)
qed

lemma session_wf_update [simp]:
  "session_wf (s\<lparr>output_cache := c\<rparr>) = session_wf s" "session_wf (s\<lparr>ses_buffers := b\<rparr>) = session_wf s"
  "session_wf (s\<lparr>event_sink := evs\<rparr>) = session_wf s"
  by (simp_all add: session_wf_def)

interpretation display: session_operation True "\<lambda>sw. (Inr (), send_display_config info sw)" for info
proof
  fix s w assume a: "session_wf s" "world_ok w" "own s \<subseteq> stack w"
  show "effect (s, w) (snd (Inr (), send_display_config info (s, w)))"
    using send_display_config_fields [of info s w] a by (auto intro!: effect_kept)
qed

interpretation buffer: session_operation True "\<lambda>(s, w). apsnd (\<lambda>s'. (s', w)) (create_buffer sink_add allocated sz format s)"
  for sink_add allocated sz format
  by unfold_locales
     (auto simp: create_buffer_def Let_def sink_event_def intro!: effect_kept split: sum.split prod.split)

interpretation unbuffer: session_operation True "\<lambda>(s, w). apsnd (\<lambda>s'. (s', w)) (destroy_buffer i s)" for i
  by unfold_locales (auto simp: destroy_buffer_def intro!: effect_kept)

section \<open>The session manager\<close>

lemma delete_entries:
  "world_ok w \<Longrightarrow>
     world_ok (fold (\<lambda>(_, p) w. map_scene (\<lambda>sc. remove_surface sc p) (listener_call (Destroying_surface k p) w)) es w) \<and>
     stack (fold (\<lambda>(_, p) w. map_scene (\<lambda>sc. remove_surface sc p) (listener_call (Destroying_surface k p) w)) es w) =
       stack w - snd ` set es"
proof (induction es arbitrary: w)
  case (Cons e es)
  let ?w = "map_scene (\<lambda>sc. remove_surface sc (snd e)) (listener_call (Destroying_surface k (snd e)) w)"
  have inv: "stack_inv UNIV (w_scene w)" using Cons.prems by (simp add: world_ok_def)
  have "stack ?w = stack w - {snd e}" "tracker_at (w_scene ?w) = tracker_at (w_scene w)"
    "next_tracker (w_scene ?w) = next_tracker (w_scene w)"
    using stack_invD(1) [OF inv] by (auto simp: remove_surface_def scene_notify_def map_scene_def listener_call_def)
  moreover have "stack_inv UNIV (w_scene ?w)" using remove_surface_inv [OF inv] by (simp add: map_scene_def listener_call_def)
  ultimately have "world_ok ?w" "stack ?w = stack w - {snd e}"
    using Cons.prems by (auto simp: world_ok_def map_scene_def listener_call_def)
  with Cons.IH [of ?w] show ?case by (auto simp: case_prod_unfold)
qed simp

lemma sm_ok_release:
  assumes "sm_ok m" "i \<notin> set (sm_apps m)"
  shows "sm_ok (release_session i m)"
proof (cases "sm_objects m i")
  case None
  then show ?thesis using assms by (simp add: release_session_def)
next
  case (Some s)
  let ?w = "delete_ApplicationSession (s, sm_world m)"
  have w: "world_ok ?w" "stack ?w = stack (sm_world m) - own s"
    using delete_entries [of "sm_world m" "ses_self s" "ses_surfaces s"] assms(1)
    by (simp_all add: delete_ApplicationSession_def sm_ok_def own_def)
  have "ran (sm_objects m) = insert s (ran ((sm_objects m)(i := None)))" using Some by (auto simp: ran_def) (metis option.inject)
  moreover have "own t \<inter> own s = {}" if "t \<in> ran ((sm_objects m)(i := None))" for t
  proof -
    from that obtain j where "j \<noteq> i" "sm_objects m j = Some t" by (auto simp: ran_def split: if_splits)
    then show ?thesis using sm_ok_disjoint [OF assms(1) _ Some] by blast
  qed
  moreover note sm_okD(2) [OF assms(1)]
  ultimately have "stack ?w = (\<Union>t \<in> ran ((sm_objects m)(i := None)). own t)" unfolding w(2) by auto
  then show ?thesis using w(1) assms Some unfolding sm_ok_def release_session_def by auto
qed

lemma sm_listener_fields [simp]:
  "sm_objects (sm_listener c m) = sm_objects m" "sm_next (sm_listener c m) = sm_next m" "sm_apps (sm_listener c m) = sm_apps m"
  "sm_anr_detector (sm_listener c m) = sm_anr_detector m" "w_scene (sm_world (sm_listener c m)) = w_scene (sm_world m)"
  "world_ok (sm_world (sm_listener c m)) = world_ok (sm_world m)"
  by (simp_all add: sm_listener_def listener_call_def world_ok_def)

lemma register_session_keys:
  "fst ` set (anr_sessions (register_session now i d)) = insert i (fst ` set (anr_sessions d))"
  by (auto simp: register_session_def Let_def put_session_def map_of_eq_None_iff) (force simp: map_of_eq_None_iff)+

lemma sm_ok_open:
  assumes "sm_ok m"
  shows "sm_ok (fst (open_session now pid name m))"
proof -
  have fresh: "sm_objects m (sm_next m) = None" using assms unfolding sm_ok_def by (metis less_irrefl not_Some_eq)
  moreover have "sm_next m \<notin> set (sm_apps m)" using assms fresh unfolding sm_ok_def by auto
  moreover have "ran ((sm_objects m)(sm_next m \<mapsto> s)) = insert s (ran (sm_objects m))" for s
    using fresh by (simp add: ran_map_upd)
  ultimately show ?thesis
    using assms unfolding sm_ok_def open_session_def
    by (auto simp: Let_def session_wf_new register_session_keys insert_session_def less_SucI)
qed

lemma sm_ok_close: "sm_ok m \<Longrightarrow> sm_ok (snd (close_session i m))"
  unfolding sm_ok_def close_session_def
  by (auto simp: Let_def container_remove_session_def unregister_session_def)

text \<open>
  The runs of the session manager.  Clients create and destroy surfaces, streams and buffers in any
  order; \<open>others\<close> is whatever else happens to the scene (\<open>scene_step\<close>) that neither adds a surface to
  the stack nor removes one: compositors come and go and show frames, the window manager raises
  surfaces, and anything may happen to the surfaces and streams themselves.
\<close>

inductive sm_reachable :: "SessionManager \<Rightarrow> bool" where
  start: "sm_reachable (new_SessionManager \<lparr>w_scene = new_SurfaceStack h, w_next_surface = 0, w_next_stream = n,
            w_listener = [], w_make_input_channel = ch\<rparr> k (new_AnrDetector period) config)"
| open_session: "sm_reachable m \<Longrightarrow> sm_reachable (fst (open_session now pid name m))"
| close_session: "sm_reachable m \<Longrightarrow> sm_reachable (snd (close_session i m))"
| release: "sm_reachable m \<Longrightarrow> i \<notin> set (sm_apps m) \<Longrightarrow> sm_reachable (release_session i m)"
| create_surface: "sm_reachable m \<Longrightarrow> valid_creation params \<Longrightarrow> sm_reachable (snd (on_session (create_surface params) i m))"
| destroy_surface_id: "sm_reachable m \<Longrightarrow> sm_reachable (snd (on_session (ses_destroy_surface_id j) i m))"
| destroy_surface: "sm_reachable m \<Longrightarrow> sm_reachable (snd (on_session (ses_destroy_surface p) i m))"
| create_stream: "sm_reachable m \<Longrightarrow>
    sm_reachable (snd (on_session (\<lambda>sw. prod.swap (apsnd Inr (create_buffer_stream t sz format sw))) i m))"
| destroy_stream: "sm_reachable m \<Longrightarrow>
    sm_reachable (snd (on_session (\<lambda>(s, w). apsnd (\<lambda>s'. (s', w)) (destroy_buffer_stream j s)) i m))"
| configure_streams: "sm_reachable m \<Longrightarrow>
    sm_reachable (snd (on_session (\<lambda>(s, w). apsnd (Pair s) (ses_configure_streams s p specs w)) i m))"
| create_buffer: "sm_reachable m \<Longrightarrow>
    sm_reachable (snd (on_session (\<lambda>(s, w). apsnd (\<lambda>s'. (s', w)) (create_buffer sink_add allocated sz format s)) i m))"
| destroy_buffer: "sm_reachable m \<Longrightarrow>
    sm_reachable (snd (on_session (\<lambda>(s, w). apsnd (\<lambda>s'. (s', w)) (destroy_buffer b s)) i m))"
| hide: "sm_reachable m \<Longrightarrow> sm_reachable (snd (on_session (\<lambda>sw. (Inr (), ses_hide sw)) i m))"
| unhide: "sm_reachable m \<Longrightarrow> sm_reachable (snd (on_session (\<lambda>sw. (Inr (), ses_show sw)) i m))"
| display_config: "sm_reachable m \<Longrightarrow> sm_reachable (snd (on_session (\<lambda>sw. (Inr (), send_display_config info sw)) i m))"
| focus: "sm_reachable m \<Longrightarrow> sm_reachable (sm_set_focus_to i m)"
| unfocus: "sm_reachable m \<Longrightarrow> sm_reachable (sm_unset_focus m)"
| others: "\<lbrakk>sm_reachable m; scene_step (w_scene (sm_world m)) sc'; set (surfaces sc') = set (surfaces (w_scene (sm_world m)));
             w_next_surface (sm_world m) \<le> n\<rbrakk> \<Longrightarrow>
    sm_reachable (m\<lparr>sm_world := (sm_world m)\<lparr>w_scene := sc', w_next_surface := n, w_next_stream := k, w_listener := calls\<rparr>\<rparr>)"

lemma raise_set_fields:
  "set (surfaces (raise_set sc ps)) = set (surfaces sc)" "next_tracker (raise_set sc ps) = next_tracker sc"
  "tracker_at (raise_set sc ps) = tracker_at sc"
  by (auto simp: raise_set_def Let_def scene_notify_def)

text \<open>Which surface a tracker belongs to never changes, and only adding a surface makes a tracker.\<close>

lemma update_trackers_surfaces: "tr_surface (fst (update_trackers cids ts (trk, h)) t) = tr_surface (trk t)"
  by (simp add: update_trackers_fst inactive_removed_def)

lemma compositors_trackers:
  "next_tracker (update_rendering_tracker_compositors sc) = next_tracker sc"
  "tr_surface (tracker_at (update_rendering_tracker_compositors sc) t) = tr_surface (tracker_at sc t)"
  using update_trackers_surfaces [of "registered_compositors sc" "map snd (rendering_trackers sc)" "tracker_at sc" "heap sc" t]
  by (simp_all add: update_rendering_tracker_compositors_def Let_def case_prod_unfold)

lemma element_call_trackers:
  "next_tracker (snd (element_rendered e sc)) = next_tracker sc \<and>
   tr_surface (tracker_at (snd (element_rendered e sc)) t) = tr_surface (tracker_at sc t)"
  "next_tracker (snd (element_occluded e sc)) = next_tracker sc \<and>
   tr_surface (tracker_at (snd (element_occluded e sc)) t) = tr_surface (tracker_at sc t)"
  by (cases "(e, sc)" rule: element_rendered.cases;
      auto simp: on_tracker_def rendered_in_def ensure_is_active_compositor_def Let_def split: sum.splits if_splits)
     (cases "(e, sc)" rule: element_occluded.cases;
      auto simp: on_tracker_def occluded_in_def ensure_is_active_compositor_def Let_def split: sum.splits if_splits)

lemma stack_call_trackers:
  assumes "stack_call sc sc'" "stack_inv T sc" "set (surfaces sc') = set (surfaces sc)"
  shows "next_tracker sc' = next_tracker sc \<and> (\<forall>t. tr_surface (tracker_at sc' t) = tr_surface (tracker_at sc t))"
  using assms
proof (cases rule: stack_call.cases)
  case (add p m)
  have "p \<notin> set (surfaces sc)" by (rule stack_inv_fresh [OF assms(2)]) (use add in blast)
  moreover have "p \<in> set (surfaces sc')"
    using add_surface_fields(1) [OF calculation assms(2), of m] add by simp
  ultimately show ?thesis using assms(3) by simp
qed (simp_all add: remove_surface_def raise_def raise_set_fields register_compositor_def unregister_compositor_def
      compositors_trackers scene_elements_for_def element_call_trackers add_input_visualization_def
      remove_input_visualization_def emit_scene_changed_def scene_notify_def)

lemma world_ok_others:
  assumes "world_ok w" "scene_step (w_scene w) sc'" "set (surfaces sc') = set (surfaces (w_scene w))" "w_next_surface w \<le> n"
  shows "world_ok (w\<lparr>w_scene := sc', w_next_surface := n, w_next_stream := k, w_listener := calls\<rparr>)"
proof -
  have inv: "stack_inv UNIV (w_scene w)" using assms(1) by (simp add: world_ok_def)
  from assms(2) have "stack_inv UNIV sc' \<and> next_tracker sc' = next_tracker (w_scene w) \<and>
      (\<forall>t. tr_surface (tracker_at sc' t) = tr_surface (tracker_at (w_scene w) t))"
  proof cases
    case call
    then show ?thesis using stack_call_inv [OF call inv] stack_call_trackers [OF call inv assms(3)] by blast
  next
    case (others h)
    then show ?thesis using stack_inv_frame [OF inv, of sc' UNIV] by simp
  qed
  with assms show ?thesis unfolding world_ok_def by (auto intro: less_le_trans)
qed

lemma sm_ok_others:
  "\<lbrakk>sm_ok m; scene_step (w_scene (sm_world m)) sc'; set (surfaces sc') = set (surfaces (w_scene (sm_world m)));
    w_next_surface (sm_world m) \<le> n\<rbrakk> \<Longrightarrow>
   sm_ok (m\<lparr>sm_world := (sm_world m)\<lparr>w_scene := sc', w_next_surface := n, w_next_stream := k, w_listener := calls\<rparr>\<rparr>)"
  by (simp add: sm_ok_def world_ok_others)

lemma sm_ok_sink: "sm_ok (sm_listener c (m\<lparr>sm_event_sink := k\<rparr>)) = sm_ok m"
  by (simp add: sm_ok_def)

lemma new_stack_fields: "surfaces (new_SurfaceStack h) = []" "next_tracker (new_SurfaceStack h) = 0"
  by (simp_all add: new_SurfaceStack_def)

lemma sm_ok_reachable: "sm_reachable m \<Longrightarrow> sm_ok m"
proof (induction rule: sm_reachable.induct)
  case (start h n ch k period config)
  then show ?case
    by (simp add: sm_ok_def new_SessionManager_def world_ok_def stack_inv_new new_AnrDetector_def new_stack_fields)
next
  case (create_surface m params i)
  then show ?case by (simp add: create.keeps_ok)
qed (simp_all add: sm_ok_open sm_ok_close sm_ok_release destroy_id.keeps_ok destroy.keeps_ok stream.keeps_ok
      destroy_stream.keeps_ok streams.keeps_ok buffer.keeps_ok unbuffer.keeps_ok conceal.keeps_ok reveal.keeps_ok
      display.keeps_ok sm_ok_others sm_ok_sink sm_set_focus_to_def sm_unset_focus_def)

text \<open>
  C17: in every run in which windows are created with attribute values that \<open>configure\<close> accepts,
  whatever compositors come and go and whatever frames they show, every surface of the scene belongs
  to exactly one session, and every surface of a session is in the scene, once.  The sessions that
  are watched for not responding are exactly the open ones.
\<close>

theorem sessions_own_the_scene:
  assumes "sm_reachable m"
  shows "distinct (surfaces (w_scene (sm_world m))) \<and>
         (\<forall>p. p \<in> set (surfaces (w_scene (sm_world m))) \<longleftrightarrow> (\<exists>i s. sm_objects m i = Some s \<and> p \<in> snd ` set (ses_surfaces s))) \<and>
         (\<forall>i j s t p. sm_objects m i = Some s \<and> sm_objects m j = Some t \<and>
            p \<in> snd ` set (ses_surfaces s) \<and> p \<in> snd ` set (ses_surfaces t) \<longrightarrow> i = j) \<and>
         fst ` set (anr_sessions (sm_anr_detector m)) = set (sm_apps m)"
proof -
  have ok: "sm_ok m" by (rule sm_ok_reachable [OF assms])
  then have "distinct (surfaces (w_scene (sm_world m)))" using stack_invD(1) by (auto simp: sm_ok_def world_ok_def)
  moreover have "p \<in> stack (sm_world m) \<longleftrightarrow> (\<exists>i s. sm_objects m i = Some s \<and> p \<in> snd ` set (ses_surfaces s))" for p
  proof -
    show ?thesis using sm_okD(2) [OF ok] by (auto simp: own_def ran_def)
  qed
  moreover have "i = j" if "sm_objects m i = Some s \<and> sm_objects m j = Some t \<and>
      p \<in> snd ` set (ses_surfaces s) \<and> p \<in> snd ` set (ses_surfaces t)" for i j s t p
  proof (rule ccontr)
    assume "i \<noteq> j"
    then have "own s \<inter> own t = {}" using sm_ok_disjoint [OF ok] that by blast
    with that show False by (auto simp: own_def)
  qed
  moreover have "fst ` set (anr_sessions (sm_anr_detector m)) = set (sm_apps m)" using ok by (simp add: sm_ok_def)
  ultimately show ?thesis by blast
qed

text \<open>
  The identifiers a client holds are well typed: an identifier of a session names a surface or a
  stream, never both, and only identifiers that were handed out; every surface has exactly one
  identifier and exactly the surfaces have a default content.
\<close>

theorem session_identifiers_typed:
  assumes "sm_reachable m" "sm_objects m i = Some s"
  shows "fst ` set (ses_surfaces s) \<inter> fst ` set (ses_streams s) = {} \<and>
         fst ` set (ses_surfaces s) \<union> fst ` set (ses_streams s) \<subseteq> {..<next_surface_id s} \<and>
         fst ` set (default_content_map s) = fst ` set (ses_surfaces s) \<and>
         distinct (map fst (ses_surfaces s)) \<and> distinct (map snd (ses_surfaces s)) \<and> distinct (map fst (ses_streams s))"
proof -
  have "session_wf s" by (rule sm_ok_session [OF sm_ok_reachable [OF assms(1)] assms(2)])
  then show ?thesis unfolding session_wf_def by (simp add: ordered_distinct subset_iff)
qed

text \<open>
  A surface whose parameters have a state, type or orientation that \<open>configure\<close> rejects is put on
  the stack before the rejection: the client gets an error and no identifier for the surface, the session
  does not have it and will not remove it, and it stays on the stack.
\<close>

theorem rejected_surface_stays_on_stack:
  assumes "sm_reachable m" "sm_objects m i = Some s" "\<not> valid_creation params"
    "default_content params = Some k" "map_of (ses_streams s) k = Some q" "par_content_id params = Some k" "par_parent_id params = None"
  shows "\<exists>e s' w'. create_surface params (s, sm_world m) = (Inl e, (s', w')) \<and>
           surfaces (w_scene w') = surfaces (w_scene (sm_world m)) @ [w_next_surface (sm_world m)] \<and>
           ses_surfaces s' = ses_surfaces s \<and> w_next_surface (sm_world m) \<notin> snd ` set (ses_surfaces s)"
proof -
  let ?w = "sm_world m" and ?s = "s\<lparr>next_surface_id := Suc (next_surface_id s)\<rparr>"
  have ok: "world_ok ?w" "own s \<subseteq> stack ?w"
    using sm_okD(1) sm_ok_session(3) sm_ok_reachable [OF assms(1)] assms(2) by blast+
  obtain r s' w' where c: "create_surface params (s, ?w) = (r, (s', w'))" by (metis prod.exhaust)
  let ?w1 = "resize_content q params ?w"
  obtain w2 where w2: "allocate_surface [\<lparr>si_stream = q, si_displacement = \<lparr>disp_dx = 0, disp_dy = 0\<rparr>, si_size = None\<rparr>] params ?w1 =
      (Inr (w_next_surface ?w1), w2)"
    by (simp add: allocate_surface_def new_BasicSurface_def default_stream_def Let_def)
  have "isl r" "surfaces (w_scene w') \<noteq> surfaces (w_scene ?w)"
  proof -
    have fs: "find_stream ?s k = Inr q" "with_parent ?s params = Inr params"
      "content_streams ?s params = Inr [\<lparr>si_stream = q, si_displacement = \<lparr>disp_dx = 0, disp_dy = 0\<rparr>, si_size = None\<rparr>]"
      using assms(5-7) by (simp_all add: find_stream_def with_parent_def content_streams_def)
    let ?w3 = "map_scene (\<lambda>sc. add_surface sc (w_next_surface ?w1) (par_input_mode params)) w2"
    obtain r4 w4 where cf: "configure_new_surface (w_next_surface ?w1) params ?w3 = (r4, w4)" by fastforce
    have "isl r4" using configure_new_surface_effect(2) [of "w_next_surface ?w1" params ?w3] cf assms(3) by simp
    then obtain e where e: "r4 = Inl e" by (auto simp: isl_def)
    have result: "create_surface params (s, ?w) = (Inl e, (?s, w4))"
      by (simp add: create_surface_def next_id_def assms(4) fs w2 cf e Let_def)
    have "surfaces (w_scene w4) = surfaces (w_scene ?w3)"
      using configure_new_surface_effect(1) [of ?w3 "w_next_surface ?w1" params] cf kept_surfaces by fastforce
    moreover have "surfaces (w_scene ?w3) = surfaces (w_scene w2) @ [w_next_surface ?w1]"
      by (simp add: map_scene_def add_surface_def create_rendering_tracker_for_def Let_def scene_notify_def case_prod_unfold)
    moreover have "surfaces (w_scene w2) = surfaces (w_scene ?w)"
      using allocate_surface_effect [OF w2 world_ok_kept [OF ok(1) kept_resize_content]] kept_surfaces [OF kept_resize_content [of ?w q params]]
      by (auto dest: kept_surfaces)
    ultimately show "isl r" "surfaces (w_scene w') \<noteq> surfaces (w_scene ?w)" using result c by auto
  qed
  with c ok(1) show ?thesis
  proof (cases rule: create_surface_cases)
    case (leaked e)
    moreover have "w_next_surface ?w \<notin> stack ?w" using ok(1) by (auto simp: world_ok_def)
    ultimately show ?thesis using c ok(2) unfolding own_def by (intro exI [of _ e] exI [of _ s'] exI [of _ w']) auto
  qed auto
qed

section \<open>An example\<close>

definition empty_heap :: SurfaceHeap where
  "empty_heap = \<lparr>live_surfaces = (\<lambda>_. None),
     streams = (\<lambda>_. new_Stream 0 \<lparr>buffers = (\<lambda>_. None), sink_alive = True, sink_log = []\<rparr> (mk_size 0 0) 0)\<rparr>"

definition first_manager :: SessionManager where
  "first_manager = new_SessionManager \<lparr>w_scene = new_SurfaceStack empty_heap, w_next_surface = 0, w_next_stream = 0,
     w_listener = [], w_make_input_channel = (\<lambda>_. None)\<rparr> new_BroadcastingSessionEventSink (new_AnrDetector 1000)
     \<lparr>cards = [], outputs = []\<rparr>"

definition window_params :: "int option \<Rightarrow> SessionSurfaceParameters" where
  "window_params state =
     \<lparr>par_name = ''w'', par_size = mk_size 10 10, par_top_left = mk_point 0 0, par_output_id = 0, par_state = state,
      par_type = None, par_parent = None, par_aux_rect = None, par_edge_attachment = None, par_min_width = None,
      par_min_height = None, par_max_width = None, par_max_height = None, par_width_inc = None, par_height_inc = None,
      par_min_aspect = None, par_max_aspect = None, par_input_mode = reception_normal, par_preferred_orientation = None,
      par_parent_id = None, par_content_id = Some 0, par_input_shape = None, par_streams = None, par_confine_pointer = None\<rparr>"

definition client_manager :: SessionManager where
  "client_manager =
     snd (on_session (\<lambda>sw. prod.swap (apsnd Inr (create_buffer_stream 0 (mk_size 10 10) 0 sw))) 0
            (fst (open_session 0 42 ''client'' first_manager)))"

definition sample_manager :: SessionManager where
  "sample_manager = snd (on_session (create_surface (window_params None)) 0 client_manager)"

lemma client_manager_reachable: "sm_reachable client_manager"
  unfolding client_manager_def first_manager_def by (intro sm_reachable.intros)

lemma sample_manager_reachable: "sm_reachable sample_manager"
  unfolding sample_manager_def
  by (intro sm_reachable.create_surface client_manager_reachable) (simp add: valid_creation_def window_params_def)

lemmas session_eval =
  client_manager_def first_manager_def new_SessionManager_def open_session_def on_session_def create_buffer_stream_def
  next_id_def sm_listener_def listener_call_def new_ApplicationSession_def update_from_def new_OutputPropertiesCache_def
  insert_session_def put_stream_def map_heap_def map_scene_def new_SurfaceStack_def prod.swap_def Let_def

lemma client_manager_facts:
  "\<exists>s. sm_objects client_manager 0 = Some s \<and> ses_surfaces s = [] \<and> map_of (ses_streams s) 0 = Some 0"
  "surfaces (w_scene (sm_world client_manager)) = []"
  by (simp_all add: session_eval)

lemma sample_manager_stack: "surfaces (w_scene (sm_world sample_manager)) = [0]"
  by (simp add: sample_manager_def session_eval create_surface_def window_params_def default_content_def find_stream_def
    with_parent_def content_streams_def allocate_surface_def new_BasicSurface_def default_stream_def add_surface_def
    create_rendering_tracker_for_def configure_new_surface_def configure_if_set_def adopt_surface_def source_moved_to_def
    properties_for_def scene_notify_def write_surface_def case_prod_unfold resize_content_def)

theorem sessions_own_the_scene_witness:
  "\<exists>i s. sm_objects sample_manager i = Some s \<and> 0 \<in> snd ` set (ses_surfaces s)"
  using sessions_own_the_scene [OF sample_manager_reachable] by (simp add: sample_manager_stack) blast

theorem session_identifiers_typed_witness:
  "\<exists>s. sm_objects client_manager 0 = Some s \<and> fst ` set (ses_surfaces s) \<union> fst ` set (ses_streams s) \<subseteq> {..<next_surface_id s}"
  using client_manager_facts(1) session_identifiers_typed [OF client_manager_reachable, of 0] by blast

theorem rejected_surface_stays_on_stack_witness:
  "\<exists>s e s' w'. sm_objects client_manager 0 = Some s \<and>
     create_surface (window_params (Some 42)) (s, sm_world client_manager) = (Inl e, (s', w')) \<and>
     surfaces (w_scene w') \<noteq> [] \<and> ses_surfaces s' = []"
proof -
  obtain s where s: "sm_objects client_manager 0 = Some s" "ses_surfaces s = []" "map_of (ses_streams s) 0 = Some 0"
    using client_manager_facts(1) by blast
  have "\<not> valid_creation (window_params (Some 42))"
    by (simp add: valid_creation_def window_params_def accepted_value_def)
  with rejected_surface_stays_on_stack [OF client_manager_reachable s(1), of "window_params (Some 42)" 0 0] s show ?thesis
    by (auto simp: window_params_def default_content_def)
qed

end
