(* ===== verification/Window_Events.thy ===== *)
theory Window_Events
  imports Window_Manager Input_Events
begin

text \<open>
  The input events the window manager sees before the clients do: the handlers of
  \<open>BasicWindowManager\<close>, which note the time of the event and the position of the pointer, and those
  of \<open>CanonicalWindowManagerPolicy\<close>.  An event is a record of what the accessors
  \<open>mir_keyboard_event_action\<close> and so on return; coordinates are whole pixels.
\<close>

unbundle bit_operations_syntax

record MirKeyboardEvent =
  key_time :: nat
  key_action :: MirKeyboardAction
  key_scan_code :: int
  key_modifiers :: nat

record MirTouchPoint =
  touch_action :: MirTouchAction
  touch_x :: int
  touch_y :: int

record MirTouchEvent =
  touch_time :: nat
  touch_points :: "MirTouchPoint list"

record MirPointerEvent =
  pointer_time :: nat
  pointer_action :: MirPointerAction
  pointer_modifiers :: nat
  pointer_x :: int
  pointer_y :: int
  pointer_buttons :: nat

definition modifier_mask :: nat where
  "modifier_mask =
     mir_input_event_modifier_alt OR mir_input_event_modifier_shift OR mir_input_event_modifier_sym OR
     mir_input_event_modifier_ctrl OR mir_input_event_modifier_meta"

section \<open>The policy's handlers\<close>

definition returning :: "'a \<Rightarrow> ('s, 'b) outcome \<Rightarrow> ('s, 'a) outcome" where
  "returning a r = and_then r (\<lambda>_ s. (Inr a, s))"

definition handle_key_f11 :: "'f FocusController \<Rightarrow> nat \<Rightarrow> 'f WindowManager \<Rightarrow> ('f WindowManager, bool) outcome" where
  "handle_key_f11 fc modifiers wm =
     (if modifiers = mir_input_event_modifier_alt then returning True (toggle fc mir_window_state_maximized wm)
      else if modifiers = mir_input_event_modifier_shift then returning True (toggle fc mir_window_state_vertmaximized wm)
      else if modifiers = mir_input_event_modifier_ctrl then returning True (toggle fc mir_window_state_horizmaximized wm)
      else (Inr False, wm))"

definition handle_key_f4 :: "'f FocusController \<Rightarrow> nat \<Rightarrow> 'f WindowManager \<Rightarrow> ('f WindowManager, bool) outcome" where
  "handle_key_f4 fc modifiers wm =
     (case fc_focused_session fc (wm_focus wm) of
        None \<Rightarrow> (Inr False, wm)
      | Some session \<Rightarrow>
          if modifiers = mir_input_event_modifier_alt
          then (Inr True, wm\<lparr>wm_focus := session_kill fc session (wm_focus wm)\<rparr>)
          else if modifiers = mir_input_event_modifier_ctrl
          then (case session_default_surface fc (wm_focus wm) session of
                  None \<Rightarrow> (Inr False, wm)
                | Some p \<Rightarrow> returning True (update_surface p surface_request_close wm))
          else (Inr False, wm))"

definition handle_alt_tab :: "'f FocusController \<Rightarrow> 'f WindowManager \<Rightarrow> ('f WindowManager, bool) outcome" where
  "handle_alt_tab fc wm =
     (let wm1 = wm\<lparr>wm_focus := fc_focus_next_session fc (wm_focus wm)\<rparr>
      in (case fc_focused_surface fc (wm_focus wm1) of
            None \<Rightarrow> (Inr True, wm1)
          | Some p \<Rightarrow> returning True (select_active fc (Some p) wm1)))"

definition handle_alt_grave :: "'f FocusController \<Rightarrow> 'f WindowManager \<Rightarrow> ('f WindowManager, bool) outcome" where
  "handle_alt_grave fc wm =
     (case (fc_focused_surface fc (wm_focus wm), fc_focused_session fc (wm_focus wm)) of
        (Some prev, Some app) \<Rightarrow>
          (case session_surface_after fc (wm_focus wm) app prev of
             Inl e \<Rightarrow> (Inl e, wm)
           | Inr next_surface \<Rightarrow> returning True (select_active fc next_surface wm))
      | _ \<Rightarrow> (Inr True, wm))"

definition policy_handle_keyboard_event ::
    "'f FocusController \<Rightarrow> MirKeyboardEvent \<Rightarrow> 'f WindowManager \<Rightarrow> ('f WindowManager, bool) outcome" where
  "policy_handle_keyboard_event fc ev wm =
     (let modifiers = key_modifiers ev AND modifier_mask
      in if key_action ev = mir_keyboard_action_down \<and> key_scan_code ev = KEY_F11 then handle_key_f11 fc modifiers wm
         else if key_action ev = mir_keyboard_action_down \<and> key_scan_code ev = KEY_F4 then handle_key_f4 fc modifiers wm
         else if key_action ev = mir_keyboard_action_down \<and> modifiers = mir_input_event_modifier_alt \<and>
                 key_scan_code ev = KEY_TAB then handle_alt_tab fc wm
         else if key_action ev = mir_keyboard_action_down \<and> modifiers = mir_input_event_modifier_alt \<and>
                 key_scan_code ev = KEY_GRAVE then handle_alt_grave fc wm
         else (Inr False, wm))"

text \<open>
  The loop over the actions of the touch points: \<open>None\<close> for the early return on a lifted finger,
  otherwise whether the gesture is a drag.
\<close>

fun touch_is_drag :: "MirTouchPoint list \<Rightarrow> bool \<Rightarrow> bool option result" where
  "touch_is_drag [] is_drag = Inr (Some is_drag)"
| "touch_is_drag (t # ts) is_drag =
     (case touch_action t of
        mir_touch_action_up \<Rightarrow> Inr None
      | mir_touch_action_down \<Rightarrow> touch_is_drag ts False
      | mir_touch_action_change \<Rightarrow> touch_is_drag ts is_drag
      | mir_touch_actions \<Rightarrow> Inl (fatal_error ''abort''))"

definition policy_handle_touch_event ::
    "'f FocusController \<Rightarrow> MirTouchEvent \<Rightarrow> 'f WindowManager \<Rightarrow> ('f WindowManager, bool) outcome" where
  "policy_handle_touch_event fc ev wm =
     (let count = length (touch_points ev)
      in if count = 0 then (Inl (fatal_error ''division by zero''), wm)
         else
           let cursor = mk_point (sum_list (map touch_x (touch_points ev)) sdiv int count)
                                 (sum_list (map touch_y (touch_points ev)) sdiv int count)
           in (case touch_is_drag (touch_points ev) True of
                 Inl e \<Rightarrow> (Inl e, wm)
               | Inr None \<Rightarrow> (Inr False, wm)
               | Inr (Some is_drag) \<Rightarrow>
                   and_then (if is_drag \<and> count = 4 then returning True (policy_resize fc cursor wm)
                             else if is_drag \<and> count = 3 then returning True (policy_drag fc cursor wm)
                             else (Inr False, wm))
                     (\<lambda>consumes_event wm. (Inr consumes_event, wm\<lparr>wm_old_cursor := cursor\<rparr>))))"

definition policy_handle_pointer_event ::
    "'f FocusController \<Rightarrow> MirPointerEvent \<Rightarrow> 'f WindowManager \<Rightarrow> ('f WindowManager, bool) outcome" where
  "policy_handle_pointer_event fc ev wm =
     (let modifiers = pointer_modifiers ev AND modifier_mask;
          cursor = mk_point (pointer_x ev) (pointer_y ev);
          primary = pointer_buttons ev AND mir_pointer_button_primary \<noteq> 0;
          tertiary = pointer_buttons ev AND mir_pointer_button_tertiary \<noteq> 0
      in and_then
           (if pointer_action ev = mir_pointer_action_button_down then returning (False, False) (click fc cursor wm)
            else if pointer_action ev = mir_pointer_action_motion \<and> modifiers = mir_input_event_modifier_alt
            then and_then (if primary then policy_drag fc cursor wm else (Inr (), wm))
                   (\<lambda>_ wm. if tertiary
                     then and_then (policy_resize fc cursor wm)
                            (\<lambda>_ wm. (Inr (True, lock_surface wm (wm_active_surface wm) \<noteq> None), wm))
                     else (Inr (primary, False), wm))
            else (Inr (False, False), wm))
           (\<lambda>(consumes_event, resize_event) wm.
              (Inr consumes_event, wm\<lparr>wm_resizing := resize_event, wm_old_cursor := cursor\<rparr>)))"

section \<open>The window manager's handlers\<close>

definition wm_handle_keyboard_event ::
    "'f FocusController \<Rightarrow> MirKeyboardEvent \<Rightarrow> 'f WindowManager \<Rightarrow> ('f WindowManager, bool) outcome" where
  "wm_handle_keyboard_event fc ev wm =
     policy_handle_keyboard_event fc ev (wm\<lparr>wm_last_input_event_timestamp := key_time ev\<rparr>)"

definition touch_up_or_down :: "MirTouchEvent \<Rightarrow> bool" where
  "touch_up_or_down ev \<longleftrightarrow>
     list_ex (\<lambda>t. touch_action t = mir_touch_action_up \<or> touch_action t = mir_touch_action_down) (touch_points ev)"

definition wm_handle_touch_event ::
    "'f FocusController \<Rightarrow> MirTouchEvent \<Rightarrow> 'f WindowManager \<Rightarrow> ('f WindowManager, bool) outcome" where
  "wm_handle_touch_event fc ev wm =
     policy_handle_touch_event fc ev
       (if touch_up_or_down ev then wm\<lparr>wm_last_input_event_timestamp := touch_time ev\<rparr> else wm)"

definition pointer_up_or_down :: "MirPointerEvent \<Rightarrow> bool" where
  "pointer_up_or_down ev \<longleftrightarrow>
     pointer_action ev = mir_pointer_action_button_up \<or> pointer_action ev = mir_pointer_action_button_down"

definition wm_handle_pointer_event ::
    "'f FocusController \<Rightarrow> MirPointerEvent \<Rightarrow> 'f WindowManager \<Rightarrow> ('f WindowManager, bool) outcome" where
  "wm_handle_pointer_event fc ev wm =
     policy_handle_pointer_event fc ev
       ((if pointer_up_or_down ev then wm\<lparr>wm_last_input_event_timestamp := pointer_time ev\<rparr> else wm)
          \<lparr>wm_cursor := mk_point (pointer_x ev) (pointer_y ev)\<rparr>)"

section \<open>No handler but these changes the time of the last input\<close>

definition at_time :: "nat \<Rightarrow> ('f WindowManager, 'a) outcome \<Rightarrow> bool" where
  "at_time t r \<longleftrightarrow> wm_last_input_event_timestamp (snd r) = t"

named_theorems time_intros \<open>operations that keep the time of the last input\<close>

lemma at_time_pair [simp]: "at_time t (r, wm) \<longleftrightarrow> wm_last_input_event_timestamp wm = t"
  by (simp add: at_time_def)

lemma at_time_and_then [time_intros]:
  assumes "at_time t r" "\<And>a wm. wm_last_input_event_timestamp wm = t \<Longrightarrow> at_time t (f a wm)"
  shows "at_time t (and_then r f)"
  using assms by (cases r; cases "fst r") (auto simp: at_time_def)

lemma at_time_returning [time_intros]: "at_time t r \<Longrightarrow> at_time t (returning a r)"
  by (simp add: returning_def at_time_and_then)

lemma at_time_with_surface [time_intros]:
  "wm_last_input_event_timestamp wm = t \<Longrightarrow> (\<And>s. at_time t (f s wm)) \<Longrightarrow> at_time t (with_surface p f wm)"
  by (simp add: with_surface_def split: option.split)

lemma time_frame [simp]:
  "wm_last_input_event_timestamp (put_surface p s wm) = wm_last_input_event_timestamp wm"
  "wm_last_input_event_timestamp (set_info p i wm) = wm_last_input_event_timestamp wm"
  "wm_last_input_event_timestamp (set_session_info n ss wm) = wm_last_input_event_timestamp wm"
  by (simp_all add: put_surface_def set_info_def set_session_info_def)

lemma at_time_surface_ops [time_intros]:
  assumes "wm_last_input_event_timestamp wm = t"
  shows "at_time t (update_surface p g wm)" "at_time t (resize_surface p sz wm)"
    "at_time t (configure_surface p attrib v wm)" "at_time t (info_for p wm)" "at_time t (session_info_for n wm)"
    "at_time t (raise_tree fc p wm)"
  using assms
  by (auto simp: update_surface_def resize_surface_def configure_surface_def info_for_def session_info_for_def
      raise_tree_def intro!: at_time_with_surface split: prod.split option.split sum.split)

lemma at_time_move_tree [time_intros]:
  "wm_last_input_event_timestamp wm = t \<Longrightarrow> at_time t (move_tree n p mv wm)"
  "wm_last_input_event_timestamp wm = t \<Longrightarrow> at_time t (move_children n ps mv wm)"
proof (induction n p mv wm and n ps mv wm rule: move_tree_move_children.induct)
  case (4 n c cs movement wm)
  then show ?case by (cases "move_tree n c movement wm"; cases "fst (move_tree n c movement wm)") auto
qed (auto simp: Let_def split: option.split)

lemma at_time_select_active_surface [time_intros]:
  "wm_last_input_event_timestamp wm = t \<Longrightarrow> at_time t (select_active_surface n fc q wm)"
  by (induction n fc q wm rule: select_active_surface.induct) (auto intro!: time_intros split: option.split)

lemma at_time_select_active [time_intros]:
  "wm_last_input_event_timestamp wm = t \<Longrightarrow> at_time t (select_active fc q wm)"
  by (simp add: select_active_def at_time_select_active_surface)

lemma at_time_apply_resize [time_intros]:
  "wm_last_input_event_timestamp wm = t \<Longrightarrow> at_time t (apply_resize p pos sz wm)"
  by (auto simp: apply_resize_def intro!: time_intros)

lemma at_time_moves [time_intros]:
  assumes "wm_last_input_event_timestamp wm = t"
  shows "at_time t (drag_surface q a b wm)" "at_time t (resize_active q a b wm)"
  using assms
  by (auto simp: drag_surface_def resize_active_def start_resize_def Let_def intro!: time_intros
      split: option.split sum.split prod.split)

lemma at_time_handle_set_state [time_intros]:
  "wm_last_input_event_timestamp wm = t \<Longrightarrow> at_time t (handle_set_state p v wm)"
  by (auto simp: handle_set_state_def note_old_state_def Let_def intro!: time_intros)

lemma at_time_toggle [time_intros]: "wm_last_input_event_timestamp wm = t \<Longrightarrow> at_time t (toggle fc v wm)"
  by (auto simp: toggle_def intro!: time_intros split: option.split)

lemma at_time_policy [time_intros]:
  assumes "wm_last_input_event_timestamp wm = t"
  shows "at_time t (click fc c wm)" "at_time t (policy_resize fc c wm)" "at_time t (policy_drag fc c wm)"
  using assms by (auto simp: click_def policy_resize_def policy_drag_def intro!: time_intros split: option.split)

lemma keyboard_event_time: "at_time (key_time ev) (wm_handle_keyboard_event fc ev wm)"
  by (auto simp: wm_handle_keyboard_event_def policy_handle_keyboard_event_def handle_key_f11_def handle_key_f4_def
      handle_alt_tab_def handle_alt_grave_def Let_def intro!: time_intros split: option.split sum.split)

lemma policy_touch_time [time_intros]:
  "wm_last_input_event_timestamp wm = t \<Longrightarrow> at_time t (policy_handle_touch_event fc ev wm)"
  by (auto simp: policy_handle_touch_event_def Let_def intro!: time_intros split: option.split sum.split)

lemma policy_pointer_time [time_intros]:
  "wm_last_input_event_timestamp wm = t \<Longrightarrow> at_time t (policy_handle_pointer_event fc ev wm)"
  by (auto simp: policy_handle_pointer_event_def Let_def intro!: time_intros)

lemma raise_before:
  "at_time t (r, wm') \<Longrightarrow> ts < t \<Longrightarrow> wm_handle_raise_surface fc p ts wm' = (Inr (), wm')"
  by (simp add: wm_handle_raise_surface_def)

text \<open>
  A client cannot take the focus with a request that is older than the user's last input.  After
  a key event, a press or release of a pointer button, or a finger put down or lifted, a raise request
  with an earlier time stamp changes nothing.
\<close>

theorem stale_raise_ignored:
  "(wm_handle_keyboard_event fc kev wm = (r, wm1) \<and> ts < key_time kev \<longrightarrow>
      wm_handle_raise_surface fc p ts wm1 = (Inr (), wm1)) \<and>
   (wm_handle_pointer_event fc pev wm = (r, wm2) \<and> pointer_up_or_down pev \<and> ts < pointer_time pev \<longrightarrow>
      wm_handle_raise_surface fc p ts wm2 = (Inr (), wm2)) \<and>
   (wm_handle_touch_event fc tev wm = (r, wm3) \<and> touch_up_or_down tev \<and> ts < touch_time tev \<longrightarrow>
      wm_handle_raise_surface fc p ts wm3 = (Inr (), wm3))"
proof -
  have "at_time (pointer_time pev) (wm_handle_pointer_event fc pev wm)" if "pointer_up_or_down pev"
    using that by (simp add: wm_handle_pointer_event_def policy_pointer_time)
  moreover have "at_time (touch_time tev) (wm_handle_touch_event fc tev wm)" if "touch_up_or_down tev"
    using that by (simp add: wm_handle_touch_event_def policy_touch_time)
  ultimately show ?thesis using keyboard_event_time [of kev fc wm] by (auto intro: raise_before)
qed

definition sample_key :: MirKeyboardEvent where
  "sample_key = \<lparr>key_time = 20, key_action = mir_keyboard_action_up, key_scan_code = KEY_TAB, key_modifiers = 0\<rparr>"

theorem stale_raise_ignored_witness:
  "wm_handle_keyboard_event sample_fc sample_key (sample_wm 1) =
       (Inr False, (sample_wm 1)\<lparr>wm_last_input_event_timestamp := 20\<rparr>) \<and>
   wm_handle_raise_surface sample_fc 5 10 ((sample_wm 1)\<lparr>wm_last_input_event_timestamp := 20\<rparr>) =
     (Inr (), (sample_wm 1)\<lparr>wm_last_input_event_timestamp := 20\<rparr>)"
proof -
  have k: "wm_handle_keyboard_event sample_fc sample_key (sample_wm 1) =
      (Inr False, (sample_wm 1)\<lparr>wm_last_input_event_timestamp := 20\<rparr>)"
    by (simp add: wm_handle_keyboard_event_def policy_handle_keyboard_event_def sample_key_def)
  show ?thesis
    using k stale_raise_ignored [of sample_fc sample_key "sample_wm 1" "Inr False" _ 10 5] by (simp add: sample_key_def)
qed

text \<open>
  Moving two fingers does not resize the window, whatever is below them: the handler only notes
  where they are and leaves the event to the client.
\<close>

theorem two_finger_drag_ignored:
  assumes "touch_points ev = [t1, t2]" "touch_action t1 = mir_touch_action_change" "touch_action t2 = mir_touch_action_change"
  shows "wm_handle_touch_event fc ev wm =
     (Inr False, wm\<lparr>wm_old_cursor := mk_point ((touch_x t1 + touch_x t2) sdiv 2) ((touch_y t1 + touch_y t2) sdiv 2)\<rparr>)"
  using assms by (simp add: wm_handle_touch_event_def touch_up_or_down_def policy_handle_touch_event_def Let_def)

definition sample_touch :: MirTouchEvent where
  "sample_touch =
     \<lparr>touch_time = 3, touch_points =
        [\<lparr>touch_action = mir_touch_action_change, touch_x = 10, touch_y = 20\<rparr>,
         \<lparr>touch_action = mir_touch_action_change, touch_x = 20, touch_y = 20\<rparr>]\<rparr>"

theorem two_finger_drag_ignored_witness:
  "wm_handle_touch_event sample_fc sample_touch (sample_wm 1) =
     (Inr False, (sample_wm 1)\<lparr>wm_old_cursor := mk_point 15 20\<rparr>)"
  using two_finger_drag_ignored [of sample_touch
      "\<lparr>touch_action = mir_touch_action_change, touch_x = 10, touch_y = 20\<rparr>"
      "\<lparr>touch_action = mir_touch_action_change, touch_x = 20, touch_y = 20\<rparr>" sample_fc "sample_wm 1"]
  by (simp add: sample_touch_def signed_divide_int_def)

end
