(* ===== verification/Shell.thy ===== *)
theory Shell
  imports Sessions Prompt_Sessions Window_Events
begin

text \<open>
  The shell: \<open>AbstractShell\<close> (\<^verbatim>\<open>src/server/shell/abstract_shell.cpp\<close>), which keeps the focus and passes requests on
  to the session manager, the prompt sessions and the window manager, and the window manager for system
  compositors (\<^verbatim>\<open>system_compositor_window_manager.cpp\<close>).

  \<open>shell::WindowManager\<close> is an interface: a record of operations on the whole shell, because a window
  manager calls back into its focus controller, which is the shell; \<open>'w\<close> is what the window manager keeps
  for itself.  Weak pointers to a surface or a session that is gone are null.  The calls on the seat and the
  input targeter are a log beside the confinement regions they set.
\<close>

record ShellSpecification = SurfaceSpecification +
  spec_pixel_format :: "nat option"
  spec_buffer_usage :: "nat option"
  spec_preferred_orientation :: "int option"
  spec_parent_id :: "nat option"
  spec_aux_rect :: "Rectangle option"
  spec_edge_attachment :: "nat option"
  spec_shell_chrome :: "nat option"
  spec_cursor_image :: "nat option"
  spec_stream_cursor :: "(int \<times> Displacement) option"

datatype SeatCall =
    Targeter_set_focus SurfacePtr
  | Targeter_clear_focus
  | Consume_device_state SurfacePtr
  | Set_cursor_image SurfacePtr "nat option"
  | Set_cursor_stream SurfacePtr StreamPtr Displacement

datatype InputEvent =
    Shell_key MirKeyboardEvent | Shell_touch MirTouchEvent | Shell_pointer MirPointerEvent | Shell_other

record 'w Shell =
  sh_sessions :: SessionManager
  sh_prompts :: PromptSessions
  sh_wm :: 'w
  focus_surface :: "SurfacePtr option"
  focus_session :: "nat option"
  confinement_regions :: "Rectangle list"
  focus_observed :: "SurfacePtr list"
  seat_calls :: "SeatCall list"

type_synonym 'w builder = "nat \<Rightarrow> SessionSurfaceParameters \<Rightarrow> 'w Shell \<Rightarrow> ('w Shell, nat) outcome"

record 'w WindowManagerOps =
  wmo_add_session :: "nat \<Rightarrow> 'w Shell \<Rightarrow> 'w Shell"
  wmo_remove_session :: "nat \<Rightarrow> 'w Shell \<Rightarrow> 'w Shell"
  wmo_add_surface :: "nat \<Rightarrow> SessionSurfaceParameters \<Rightarrow> 'w builder \<Rightarrow> 'w Shell \<Rightarrow> ('w Shell, nat) outcome"
  wmo_modify_surface :: "nat \<Rightarrow> SurfacePtr \<Rightarrow> ShellSpecification \<Rightarrow> 'w Shell \<Rightarrow> ('w Shell, unit) outcome"
  wmo_remove_surface :: "nat \<Rightarrow> SurfacePtr \<Rightarrow> 'w Shell \<Rightarrow> ('w Shell, unit) outcome"
  wmo_add_display :: "Rectangle \<Rightarrow> 'w Shell \<Rightarrow> ('w Shell, unit) outcome"
  wmo_remove_display :: "Rectangle \<Rightarrow> 'w Shell \<Rightarrow> ('w Shell, unit) outcome"
  wmo_handle_keyboard_event :: "MirKeyboardEvent \<Rightarrow> 'w Shell \<Rightarrow> ('w Shell, bool) outcome"
  wmo_handle_touch_event :: "MirTouchEvent \<Rightarrow> 'w Shell \<Rightarrow> ('w Shell, bool) outcome"
  wmo_handle_pointer_event :: "MirPointerEvent \<Rightarrow> 'w Shell \<Rightarrow> ('w Shell, bool) outcome"
  wmo_set_surface_attribute :: "nat \<Rightarrow> SurfacePtr \<Rightarrow> MirWindowAttrib \<Rightarrow> int \<Rightarrow> 'w Shell \<Rightarrow> ('w Shell, int) outcome"
  wmo_handle_raise_surface :: "nat \<Rightarrow> SurfacePtr \<Rightarrow> nat \<Rightarrow> 'w Shell \<Rightarrow> ('w Shell, unit) outcome"

abbreviation (input) mir_pointer_confined_to_window :: int where "mir_pointer_confined_to_window \<equiv> 1"

section \<open>The parts the shell works on\<close>

abbreviation sh_world :: "'w Shell \<Rightarrow> SceneWorld" where
  "sh_world sh \<equiv> sm_world (sh_sessions sh)"

definition on_world :: "(SceneWorld \<Rightarrow> SceneWorld) \<Rightarrow> 'w Shell \<Rightarrow> 'w Shell" where
  "on_world f sh = sh\<lparr>sh_sessions := (sh_sessions sh)\<lparr>sm_world := f (sh_world sh)\<rparr>\<rparr>"

definition shell_session :: "(session_state \<Rightarrow> (session_state, 'a) outcome) \<Rightarrow> nat \<Rightarrow> 'w Shell \<Rightarrow> ('w Shell, 'a) outcome" where
  "shell_session f i sh = apsnd (\<lambda>m. sh\<lparr>sh_sessions := m\<rparr>) (on_session f i (sh_sessions sh))"

definition seat_call :: "SeatCall \<Rightarrow> 'w Shell \<Rightarrow> 'w Shell" where
  "seat_call c sh = sh\<lparr>seat_calls := seat_calls sh @ [c]\<rparr>"

definition shell_configure :: "SurfacePtr \<Rightarrow> MirWindowAttrib \<Rightarrow> int \<Rightarrow> 'w Shell \<Rightarrow> 'w Shell" where
  "shell_configure p attrib v = on_world (\<lambda>w. snd (world_configure p attrib v w))"

definition input_bounds :: "BasicSurface \<Rightarrow> Rectangle" where
  "input_bounds s = sf_rect s"

definition focused_surface :: "'w Shell \<Rightarrow> SurfacePtr option" where
  "focused_surface sh =
     (case focus_surface sh of
        None \<Rightarrow> None
      | Some p \<Rightarrow> if live_surfaces (heap (w_scene (sh_world sh))) p = None then None else Some p)"

definition focused_session :: "'w Shell \<Rightarrow> nat option" where
  "focused_session sh =
     (case focus_session sh of
        None \<Rightarrow> None
      | Some i \<Rightarrow> if sm_objects (sh_sessions sh) i = None then None else Some i)"

definition session_default :: "SessionManager \<Rightarrow> nat \<Rightarrow> SurfacePtr option" where
  "session_default m i = (case sm_objects m i of None \<Rightarrow> None | Some s \<Rightarrow> default_surface s)"

section \<open>Focus\<close>

definition confine_to :: "SurfacePtr \<Rightarrow> 'w Shell \<Rightarrow> 'w Shell" where
  "confine_to p sh = sh\<lparr>confinement_regions := [input_bounds (world_surface (sh_world sh) p)]\<rparr>"

definition confined :: "SurfacePtr \<Rightarrow> 'w Shell \<Rightarrow> bool" where
  "confined p sh \<longleftrightarrow> sf_confine_pointer (world_surface (sh_world sh) p) = mir_pointer_confined_to_window"

text \<open>The observer of the focused surface calls this when the surface moves or is resized.\<close>

definition update_focused_surface_confined_region :: "'w Shell \<Rightarrow> 'w Shell" where
  "update_focused_surface_confined_region sh =
     (case focused_surface sh of
        Some p \<Rightarrow> if confined p sh then confine_to p sh else sh
      | None \<Rightarrow> sh)"

definition drop_focus :: "SurfacePtr \<Rightarrow> 'w Shell \<Rightarrow> 'w Shell" where
  "drop_focus p sh =
     (let sh = shell_configure p mir_window_attrib_focus mir_window_focus_state_unfocused sh
      in sh\<lparr>focus_observed := remove1 p (focus_observed sh)\<rparr>)"

definition take_focus :: "SurfacePtr \<Rightarrow> 'w Shell \<Rightarrow> 'w Shell" where
  "take_focus p sh =
     (let sh = (if confined p sh then confine_to p sh else sh);
          sh = seat_call (Consume_device_state p) (seat_call (Targeter_set_focus p) sh);
          sh = shell_configure p mir_window_attrib_focus mir_window_focus_state_focused sh
      in sh\<lparr>focus_observed := focus_observed sh @ [p]\<rparr>)"

definition set_focus_to :: "nat option \<Rightarrow> SurfacePtr option \<Rightarrow> 'w Shell \<Rightarrow> 'w Shell" where
  "set_focus_to session surface sh =
     (let current_focus = focused_surface sh;
          sh = (if surface \<noteq> current_focus
                then
                  let sh = sh\<lparr>focus_surface := surface, confinement_regions := []\<rparr>;
                      sh = (case current_focus of None \<Rightarrow> sh | Some p \<Rightarrow> drop_focus p sh)
                  in (case surface of Some p \<Rightarrow> take_focus p sh | None \<Rightarrow> seat_call Targeter_clear_focus sh)
                else sh);
          current_session = focused_session sh
      in if session \<noteq> current_session
         then
           let sh = sh\<lparr>focus_session := session\<rparr>
           in sh\<lparr>sh_sessions := (case session of
                                   Some i \<Rightarrow> sm_set_focus_to i (sh_sessions sh)
                                 | None \<Rightarrow> sm_unset_focus (sh_sessions sh))\<rparr>
         else sh)"

text \<open>
  The loop of \<open>focus_next_session\<close>.  It ends when it comes back to where it started; a loop that does not
  would use up the fuel.
\<close>

fun next_with_surface :: "nat \<Rightarrow> SessionManager \<Rightarrow> nat option \<Rightarrow> nat option \<Rightarrow> nat option result" where
  "next_with_surface 0 m sentinel successor = Inl (fatal_error ''endless loop'')"
| "next_with_surface (Suc n) m sentinel successor =
     (case successor of
        None \<Rightarrow> Inr None
      | Some i \<Rightarrow>
          if session_default m i \<noteq> None then Inr successor
          else (case sm_successor_of successor m of
                  Inl e \<Rightarrow> Inl e
                | Inr successor' \<Rightarrow>
                    if successor' = sentinel then Inr successor' else next_with_surface n m sentinel successor'))"

definition focus_next_session :: "'w Shell \<Rightarrow> ('w Shell, unit) outcome" where
  "focus_next_session sh =
     (let m = sh_sessions sh
      in case sm_successor_of (focused_session sh) m of
           Inl e \<Rightarrow> (Inl e, sh)
         | Inr successor \<Rightarrow>
             (case next_with_surface (Suc (length (sm_apps m))) m successor successor of
                Inl e \<Rightarrow> (Inl e, sh)
              | Inr successor \<Rightarrow>
                  let surface = (case successor of Some i \<Rightarrow> session_default m i | None \<Rightarrow> None);
                      successor = (if surface = None then None else successor)
                  in (Inr (), set_focus_to successor surface sh)))"

section \<open>Sessions\<close>

definition shell_open_session ::
  "'w WindowManagerOps \<Rightarrow> int \<Rightarrow> int \<Rightarrow> string \<Rightarrow> 'w Shell \<Rightarrow> 'w Shell \<times> nat" where
  "shell_open_session wmo now client_pid name sh =
     (let (m, i) = open_session now client_pid name (sh_sessions sh)
      in (wmo_add_session wmo i (sh\<lparr>sh_sessions := m\<rparr>), i))"

text \<open>The loop that collects the surfaces of a session by \<open>surface_after\<close>, until it meets one again.\<close>

fun collect_surfaces :: "nat \<Rightarrow> SceneWorld \<Rightarrow> ApplicationSession \<Rightarrow> SurfacePtr option \<Rightarrow> SurfacePtr set \<Rightarrow> SurfacePtr set result" where
  "collect_surfaces 0 w s surface found = Inl (fatal_error ''endless loop'')"
| "collect_surfaces (Suc n) w s surface found =
     (case surface of
        None \<Rightarrow> Inr found
      | Some p \<Rightarrow>
          if p \<in> found then Inr found
          else (case surface_after w p s of
                  Inl e \<Rightarrow> Inl e
                | Inr surface' \<Rightarrow> collect_surfaces n w s surface' (insert p found)))"

definition session_surfaces :: "SceneWorld \<Rightarrow> ApplicationSession \<Rightarrow> SurfacePtr set result" where
  "session_surfaces w s = collect_surfaces (Suc (Suc (length (ses_surfaces s)))) w s (default_surface s) {}"

fun remove_all :: "'w WindowManagerOps \<Rightarrow> nat \<Rightarrow> SurfacePtr list \<Rightarrow> 'w Shell \<Rightarrow> ('w Shell, unit) outcome" where
  "remove_all wmo i [] sh = (Inr (), sh)"
| "remove_all wmo i (p # ps) sh = and_then (wmo_remove_surface wmo i p sh) (\<lambda>_. remove_all wmo i ps)"

definition shell_close_session :: "'w WindowManagerOps \<Rightarrow> nat \<Rightarrow> 'w Shell \<Rightarrow> ('w Shell, unit) outcome" where
  "shell_close_session wmo i sh =
     (let sh = sh\<lparr>sh_prompts := remove_session (sh_prompts sh) i\<rparr>
      in case sm_objects (sh_sessions sh) i of
           None \<Rightarrow> (Inl (fatal_error ''null pointer''), sh)
         | Some s \<Rightarrow>
             (case session_surfaces (sh_world sh) s of
                Inl e \<Rightarrow> (Inl e, sh)
              | Inr ps \<Rightarrow>
                  and_then (remove_all wmo i (sorted_list_of_set ps) sh) (\<lambda>_ sh.
                  and_then (apsnd (\<lambda>m. sh\<lparr>sh_sessions := m\<rparr>) (close_session i (sh_sessions sh))) (\<lambda>_ sh.
                    (Inr (), wmo_remove_session wmo i sh)))))"

definition shell_start_prompt_session_for :: "nat \<Rightarrow> int \<Rightarrow> 'w Shell \<Rightarrow> ('w Shell, nat) outcome" where
  "shell_start_prompt_session_for i pid sh =
     apsnd (\<lambda>pm. sh\<lparr>sh_prompts := pm\<rparr>) (start_prompt_session_for (sh_prompts sh) i pid)"

definition shell_add_prompt_provider_for :: "nat \<Rightarrow> nat \<Rightarrow> 'w Shell \<Rightarrow> ('w Shell, unit) outcome" where
  "shell_add_prompt_provider_for ps i sh = apsnd (\<lambda>pm. sh\<lparr>sh_prompts := pm\<rparr>) (add_prompt_provider (sh_prompts sh) ps i)"

definition shell_stop_prompt_session :: "nat \<Rightarrow> 'w Shell \<Rightarrow> 'w Shell" where
  "shell_stop_prompt_session ps sh = sh\<lparr>sh_prompts := stop_prompt_session (sh_prompts sh) ps\<rparr>"

section \<open>Surfaces\<close>

definition shell_create_surface ::
  "'w WindowManagerOps \<Rightarrow> nat \<Rightarrow> SessionSurfaceParameters \<Rightarrow> 'w Shell \<Rightarrow> ('w Shell, nat) outcome" where
  "shell_create_surface wmo i params sh =
     wmo_add_surface wmo i params (\<lambda>i placed_params. shell_session (create_surface placed_params) i) sh"

text \<open>\<open>SurfaceSpecification::is_empty\<close>; the members it does not look at are not here either.\<close>

definition spec_is_empty :: "ShellSpecification \<Rightarrow> bool" where
  "spec_is_empty m \<longleftrightarrow>
     spec_width m = None \<and> spec_height m = None \<and> spec_pixel_format m = None \<and> spec_buffer_usage m = None \<and>
     spec_name m = None \<and> spec_output_id m = None \<and> spec_type m = None \<and> spec_state m = None \<and>
     spec_preferred_orientation m = None \<and> spec_parent_id m = None \<and> spec_aux_rect m = None \<and>
     spec_edge_attachment m = None \<and> spec_min_width m = None \<and> spec_min_height m = None \<and>
     spec_max_width m = None \<and> spec_max_height m = None \<and> spec_width_inc m = None \<and> spec_height_inc m = None \<and>
     spec_min_aspect m = None \<and> spec_max_aspect m = None \<and> spec_streams m = None \<and> spec_parent m = None \<and>
     spec_input_shape m = None \<and> spec_shell_chrome m = None"

definition modify_cursor :: "nat \<Rightarrow> SurfacePtr \<Rightarrow> ShellSpecification \<Rightarrow> 'w Shell \<Rightarrow> ('w Shell, unit) outcome" where
  "modify_cursor i p modifications sh =
     (let sh = (case spec_cursor_image modifications of
                  Some img \<Rightarrow> seat_call (Set_cursor_image p (Some img)) sh
                | None \<Rightarrow> sh)
      in case spec_stream_cursor modifications of
           None \<Rightarrow> (Inr (), sh)
         | Some (stream_id, hotspot) \<Rightarrow>
             if stream_id \<noteq> - 1
             then (case sm_objects (sh_sessions sh) i of
                     None \<Rightarrow> (Inl (fatal_error ''null pointer''), sh)
                   | Some s \<Rightarrow>
                       (case (if stream_id < 0 then Inl (runtime_error ''Invalid BufferStreamId'') else find_stream s (nat stream_id)) of
                          Inl e \<Rightarrow> (Inl e, sh)
                        | Inr q \<Rightarrow> (Inr (), seat_call (Set_cursor_stream p q hotspot) sh)))
             else (Inr (), seat_call (Set_cursor_image p None) sh))"

definition modify_confinement :: "SurfacePtr \<Rightarrow> ShellSpecification \<Rightarrow> 'w Shell \<Rightarrow> 'w Shell" where
  "modify_confinement p modifications sh =
     (if spec_confine_pointer modifications \<noteq> None \<and> focused_surface sh = Some p
      then (if confined p sh then confine_to p sh else sh\<lparr>confinement_regions := []\<rparr>)
      else sh)"

definition shell_modify_surface ::
  "'w WindowManagerOps \<Rightarrow> nat \<Rightarrow> SurfacePtr \<Rightarrow> ShellSpecification \<Rightarrow> 'w Shell \<Rightarrow> ('w Shell, unit) outcome" where
  "shell_modify_surface wmo i p modifications sh =
     (let wm_relevant_mods = modifications\<lparr>spec_streams := None\<rparr>
      in and_then (case spec_streams modifications of
                     None \<Rightarrow> (Inr (), sh)
                   | Some specs \<Rightarrow> shell_session (\<lambda>(s, w). apsnd (Pair s) (ses_configure_streams s p specs w)) i sh) (\<lambda>_ sh.
         and_then (if \<not> spec_is_empty wm_relevant_mods
                   then wmo_modify_surface wmo i p wm_relevant_mods sh else (Inr (), sh)) (\<lambda>_ sh.
         and_then (modify_cursor i p modifications sh) (\<lambda>_ sh. (Inr (), modify_confinement p modifications sh)))))"

definition shell_destroy_surface :: "'w WindowManagerOps \<Rightarrow> nat \<Rightarrow> nat \<Rightarrow> 'w Shell \<Rightarrow> ('w Shell, unit) outcome" where
  "shell_destroy_surface wmo i surface sh =
     (case sm_objects (sh_sessions sh) i of
        None \<Rightarrow> (Inl (fatal_error ''null pointer''), sh)
      | Some s \<Rightarrow>
          (case find_surface s surface of
             Inl e \<Rightarrow> (Inl e, sh)
           | Inr p \<Rightarrow> wmo_remove_surface wmo i p sh))"

definition shell_set_surface_attribute ::
  "'w WindowManagerOps \<Rightarrow> nat \<Rightarrow> SurfacePtr \<Rightarrow> MirWindowAttrib \<Rightarrow> int \<Rightarrow> 'w Shell \<Rightarrow> ('w Shell, int) outcome" where
  "shell_set_surface_attribute wmo i p attrib v sh = wmo_set_surface_attribute wmo i p attrib v sh"

definition shell_get_surface_attribute :: "SurfacePtr \<Rightarrow> MirWindowAttrib \<Rightarrow> 'w Shell \<Rightarrow> int result" where
  "shell_get_surface_attribute p attrib sh = query (world_surface (sh_world sh) p) attrib"

definition shell_raise_surface :: "'w WindowManagerOps \<Rightarrow> nat \<Rightarrow> SurfacePtr \<Rightarrow> nat \<Rightarrow> 'w Shell \<Rightarrow> ('w Shell, unit) outcome" where
  "shell_raise_surface wmo i p timestamp sh = wmo_handle_raise_surface wmo i p timestamp sh"

definition shell_add_display :: "'w WindowManagerOps \<Rightarrow> Rectangle \<Rightarrow> 'w Shell \<Rightarrow> ('w Shell, unit) outcome" where
  "shell_add_display wmo area sh = wmo_add_display wmo area sh"

definition shell_remove_display :: "'w WindowManagerOps \<Rightarrow> Rectangle \<Rightarrow> 'w Shell \<Rightarrow> ('w Shell, unit) outcome" where
  "shell_remove_display wmo area sh = wmo_remove_display wmo area sh"

definition shell_handle :: "'w WindowManagerOps \<Rightarrow> InputEvent \<Rightarrow> 'w Shell \<Rightarrow> ('w Shell, bool) outcome" where
  "shell_handle wmo ev sh =
     (case ev of
        Shell_key kev \<Rightarrow> wmo_handle_keyboard_event wmo kev sh
      | Shell_touch tev \<Rightarrow> wmo_handle_touch_event wmo tev sh
      | Shell_pointer pev \<Rightarrow> wmo_handle_pointer_event wmo pev sh
      | Shell_other \<Rightarrow> (Inr False, sh))"

definition shell_surface_at :: "Point \<Rightarrow> 'w Shell \<Rightarrow> SurfacePtr option" where
  "shell_surface_at cursor sh = surface_at (w_scene (sh_world sh)) cursor"

definition shell_raise :: "SurfacePtr set \<Rightarrow> 'w Shell \<Rightarrow> 'w Shell" where
  "shell_raise ps = on_world (map_scene (\<lambda>sc. raise_set sc ps))"

section \<open>The window manager of a system compositor\<close>

record SystemCompositor =
  output_map :: "(SurfacePtr, int) std_map"
  ready_observers :: "(SurfacePtr \<times> nat) list"

type_synonym sc_shell = "SystemCompositor Shell"

definition on_wm :: "(SystemCompositor \<Rightarrow> SystemCompositor) \<Rightarrow> sc_shell \<Rightarrow> sc_shell" where
  "on_wm f sh = sh\<lparr>sh_wm := f (sh_wm sh)\<rparr>"

definition on_session_removed :: "nat \<Rightarrow> sc_shell \<Rightarrow> sc_shell" where
  "on_session_removed i sh =
     (if focused_session sh = Some i
      then (case sm_successor_of None (sh_sessions sh) of
              Inr (Some next_session) \<Rightarrow> set_focus_to (Some next_session) (session_default (sh_sessions sh) next_session) sh
            | _ \<Rightarrow> set_focus_to None None sh)
      else sh)"

definition on_session_ready :: "nat \<Rightarrow> sc_shell \<Rightarrow> sc_shell" where
  "on_session_ready i sh = set_focus_to (Some i) (session_default (sh_sessions sh) i) sh"

definition sc_add_surface ::
  "nat \<Rightarrow> SessionSurfaceParameters \<Rightarrow> SystemCompositor builder \<Rightarrow> sc_shell \<Rightarrow> (sc_shell, nat) outcome" where
  "sc_add_surface i params build sh =
     (if par_output_id params = 0 then (Inl (runtime_error ''An output ID must be specified''), sh)
      else
        let (_, rect) = place_in_output (sm_display_configuration (sh_sessions sh)) (par_output_id params)
                          (mk_rect (par_top_left params) (par_size params));
            placed_parameters = params\<lparr>par_top_left := top_left rect, par_size := rect_size rect\<rparr>
        in and_then (build i placed_parameters sh) (\<lambda>result sh.
             case sm_objects (sh_sessions sh) i of
               None \<Rightarrow> (Inl (fatal_error ''null pointer''), sh)
             | Some s \<Rightarrow>
                 (case find_surface s result of
                    Inl e \<Rightarrow> (Inl e, sh)
                  | Inr p \<Rightarrow>
                      (Inr result,
                       on_wm (\<lambda>wm. wm\<lparr>ready_observers := ready_observers wm @ [(p, i)],
                                      output_map := map_put p (par_output_id params) (output_map wm)\<rparr>) sh))))"

text \<open>The first frame of a surface: \<open>SurfaceReadyObserver::frame_posted\<close>.\<close>

definition sc_frame_posted :: "SurfacePtr \<Rightarrow> sc_shell \<Rightarrow> sc_shell" where
  "sc_frame_posted p sh =
     (case map_of (ready_observers (sh_wm sh)) p of
        None \<Rightarrow> sh
      | Some i \<Rightarrow> on_wm (\<lambda>wm. wm\<lparr>ready_observers := filter (\<lambda>e. fst e \<noteq> p) (ready_observers wm)\<rparr>) (on_session_ready i sh))"

definition move_and_resize :: "SurfacePtr \<Rightarrow> Rectangle \<Rightarrow> SceneWorld \<Rightarrow> SceneWorld" where
  "move_and_resize p rect w =
     (let w = map_surface (\<lambda>s. surface_move_to s (top_left rect)) p w;
          (s', st') = surface_resize (world_surface w p) (streams (heap (w_scene w))) (rect_size rect)
      in write_surface p s' (map_heap (\<lambda>h. h\<lparr>streams := st'\<rparr>) w))"

definition place_surface :: "SurfacePtr \<Rightarrow> int \<Rightarrow> sc_shell \<Rightarrow> sc_shell" where
  "place_surface p output_id sh =
     (let s = world_surface (sh_world sh) p;
          (placed, rect) = place_in_output (sm_display_configuration (sh_sessions sh)) output_id
                             (mk_rect (top_left (sf_rect s)) (surface_size s))
      in if placed then on_world (move_and_resize p rect) sh else sh)"

definition sc_modify_surface :: "nat \<Rightarrow> SurfacePtr \<Rightarrow> ShellSpecification \<Rightarrow> sc_shell \<Rightarrow> (sc_shell, unit) outcome" where
  "sc_modify_surface i p modifications sh =
     (let sh = (case spec_name modifications of
                  Some title \<Rightarrow> on_world (map_surface (\<lambda>s. surface_rename s title) p) sh
                | None \<Rightarrow> sh)
      in (Inr (), case spec_output_id modifications of
                    Some output_id \<Rightarrow> on_wm (\<lambda>wm. wm\<lparr>output_map := map_put p output_id (output_map wm)\<rparr>) (place_surface p output_id sh)
                  | None \<Rightarrow> sh))"

definition sc_remove_surface :: "nat \<Rightarrow> SurfacePtr \<Rightarrow> sc_shell \<Rightarrow> (sc_shell, unit) outcome" where
  "sc_remove_surface i p sh =
     and_then (shell_session (ses_destroy_surface p) i sh) (\<lambda>_ sh.
       (Inr (), on_wm (\<lambda>wm. wm\<lparr>output_map := map_erase p (output_map wm)\<rparr>) sh))"

definition sc_add_display :: "Rectangle \<Rightarrow> sc_shell \<Rightarrow> (sc_shell, unit) outcome" where
  "sc_add_display area sh =
     (Inr (), fold (\<lambda>(p, output_id) sh.
                      if live_surfaces (heap (w_scene (sh_world sh))) p = None then sh else place_surface p output_id sh)
                (output_map (sh_wm sh)) sh)"

definition sc_set_surface_attribute :: "nat \<Rightarrow> SurfacePtr \<Rightarrow> MirWindowAttrib \<Rightarrow> int \<Rightarrow> sc_shell \<Rightarrow> (sc_shell, int) outcome" where
  "sc_set_surface_attribute i p attrib v sh =
     apsnd (\<lambda>w. on_world (\<lambda>_. w) sh) (world_configure p attrib v (sh_world sh))"

definition SystemCompositorWindowManager :: "SystemCompositor WindowManagerOps" where
  "SystemCompositorWindowManager =
     \<lparr>wmo_add_session = (\<lambda>_ sh. sh), wmo_remove_session = on_session_removed, wmo_add_surface = sc_add_surface,
      wmo_modify_surface = sc_modify_surface, wmo_remove_surface = sc_remove_surface, wmo_add_display = sc_add_display,
      wmo_remove_display = (\<lambda>_ sh. (Inr (), sh)), wmo_handle_keyboard_event = (\<lambda>_ sh. (Inr False, sh)),
      wmo_handle_touch_event = (\<lambda>_ sh. (Inr False, sh)), wmo_handle_pointer_event = (\<lambda>_ sh. (Inr False, sh)),
      wmo_set_surface_attribute = sc_set_surface_attribute, wmo_handle_raise_surface = (\<lambda>_ _ _ sh. (Inr (), sh))\<rparr>"

end
