(* ===== verification/Shell_Focus.thy ===== *)
theory Shell_Focus
  imports Shell
begin

text \<open>
  What the shell guarantees: one focused surface, a fair \<open>focus_next_session\<close>, and what closing a session removes.
\<close>

section \<open>Keyboard focus\<close>

abbreviation sh_live :: "'w Shell \<Rightarrow> SurfacePtr \<Rightarrow> BasicSurface option" where
  "sh_live sh \<equiv> live_surfaces (heap (w_scene (sh_world sh)))"

definition focus_of :: "'w Shell \<Rightarrow> SurfacePtr \<Rightarrow> int option" where
  "focus_of sh p = map_option sf_focus (sh_live sh p)"

definition focus_ok :: "'w Shell \<Rightarrow> bool" where
  "focus_ok sh \<longleftrightarrow>
     (\<forall>p. focus_of sh p = Some mir_window_focus_state_focused \<longleftrightarrow> focused_surface sh = Some p) \<and>
     (\<forall>p. sh_live sh p \<noteq> None \<longrightarrow> count_list (focus_observed sh) p = (if focused_surface sh = Some p then 1 else 0))"

lemma live_configure_focus:
  assumes "v \<in> {0, 1}" "sh_live sh p = Some s"
  shows "sh_live (shell_configure p mir_window_attrib_focus v sh) q =
           (if q = p then Some (snd (set_focus_state s v)) else sh_live sh q)"
    and "sf_focus (snd (set_focus_state s v)) = v"
    and "sf_confine_pointer (snd (set_focus_state s v)) = sf_confine_pointer s" "sf_rect (snd (set_focus_state s v)) = sf_rect s"
  using assms
  by (auto simp: shell_configure_def on_world_def world_configure_def configure_def with_store_def world_surface_def
        surface_of_def write_surface_def map_heap_def map_scene_def set_focus_state_def notify_def)

lemma shell_configure_fields [simp]:
  "focus_surface (shell_configure p a v sh) = focus_surface sh" "focus_session (shell_configure p a v sh) = focus_session sh"
  "confinement_regions (shell_configure p a v sh) = confinement_regions sh" "seat_calls (shell_configure p a v sh) = seat_calls sh"
  "focus_observed (shell_configure p a v sh) = focus_observed sh"
  "sm_objects (sh_sessions (shell_configure p a v sh)) = sm_objects (sh_sessions sh)"
  "sm_apps (sh_sessions (shell_configure p a v sh)) = sm_apps (sh_sessions sh)"
  by (simp_all add: shell_configure_def on_world_def)

lemma drop_focus_facts:
  assumes "sh_live sh p = Some s"
  shows "focus_of (drop_focus p sh) = (focus_of sh)(p := Some 0)"
    "focus_observed (drop_focus p sh) = remove1 p (focus_observed sh)" "focus_surface (drop_focus p sh) = focus_surface sh"
    "sh_live (drop_focus p sh) q = None \<longleftrightarrow> sh_live sh q = None"
    "sh_live sh q = Some t \<Longrightarrow> \<exists>t'. sh_live (drop_focus p sh) q = Some t' \<and> sf_confine_pointer t' = sf_confine_pointer t \<and> sf_rect t' = sf_rect t"
    "confinement_regions (drop_focus p sh) = confinement_regions sh"
  using live_configure_focus [OF _ assms, of 0] assms
  by (auto simp: drop_focus_def focus_of_def fun_eq_iff Let_def)

lemma take_focus_facts:
  assumes "sh_live sh p = Some s"
  shows "focus_of (take_focus p sh) = (focus_of sh)(p := Some 1)"
    "focus_observed (take_focus p sh) = focus_observed sh @ [p]" "focus_surface (take_focus p sh) = focus_surface sh"
    "sh_live (take_focus p sh) q = None \<longleftrightarrow> sh_live sh q = None"
    "confinement_regions (take_focus p sh) =
       (if sf_confine_pointer s = mir_pointer_confined_to_window then [sf_rect s] else confinement_regions sh)"
proof -
  let ?sh = "seat_call (Consume_device_state p) (seat_call (Targeter_set_focus p) (if confined p sh then confine_to p sh else sh))"
  have l: "sh_live ?sh = sh_live sh" by (simp add: seat_call_def confine_to_def)
  then have "sh_live ?sh p = Some s" using assms by simp
  note f = live_configure_focus [OF _ this, of 1]
  have c: "confined p sh \<longleftrightarrow> sf_confine_pointer s = mir_pointer_confined_to_window"
    using assms by (simp add: confined_def world_surface_def surface_of_def)
  show "focus_of (take_focus p sh) = (focus_of sh)(p := Some 1)"
    "sh_live (take_focus p sh) q = None \<longleftrightarrow> sh_live sh q = None"
    using f l assms by (auto simp: take_focus_def focus_of_def fun_eq_iff Let_def)
  show "focus_observed (take_focus p sh) = focus_observed sh @ [p]" "focus_surface (take_focus p sh) = focus_surface sh"
    "confinement_regions (take_focus p sh) =
       (if sf_confine_pointer s = mir_pointer_confined_to_window then [sf_rect s] else confinement_regions sh)"
    using assms by (simp_all add: take_focus_def Let_def seat_call_def confine_to_def c input_bounds_def world_surface_def surface_of_def)
qed

text \<open>The part of \<open>set_focus_to\<close> that is about the surface.\<close>

definition set_focus_surface :: "SurfacePtr option \<Rightarrow> 'w Shell \<Rightarrow> 'w Shell" where
  "set_focus_surface surface sh =
     (if surface \<noteq> focused_surface sh
      then
        let sh' = sh\<lparr>focus_surface := surface, confinement_regions := []\<rparr>;
            sh' = (case focused_surface sh of None \<Rightarrow> sh' | Some p \<Rightarrow> drop_focus p sh')
        in (case surface of Some p \<Rightarrow> take_focus p sh' | None \<Rightarrow> seat_call Targeter_clear_focus sh')
      else sh)"

lemma set_focus_to_surface:
  "\<exists>m fs. set_focus_to session surface sh = (set_focus_surface surface sh)\<lparr>focus_session := fs, sh_sessions := m\<rparr> \<and>
     w_scene (sm_world m) = w_scene (sh_world (set_focus_surface surface sh)) \<and>
     sm_objects m = sm_objects (sh_sessions (set_focus_surface surface sh)) \<and>
     sm_apps m = sm_apps (sh_sessions (set_focus_surface surface sh))"
proof -
  have e: "sh' = sh'\<lparr>focus_session := focus_session sh', sh_sessions := sh_sessions sh'\<rparr>" for sh' :: "'w Shell" by simp
  have s: "w_scene (sm_world (sm_set_focus_to i m)) = w_scene (sm_world m)" "sm_objects (sm_set_focus_to i m) = sm_objects m"
    "sm_apps (sm_set_focus_to i m) = sm_apps m" "w_scene (sm_world (sm_unset_focus m)) = w_scene (sm_world m)"
    "sm_objects (sm_unset_focus m) = sm_objects m" "sm_apps (sm_unset_focus m) = sm_apps m" for i m
    by (simp_all add: sm_set_focus_to_def sm_unset_focus_def sm_listener_def listener_call_def)
  show ?thesis
  proof (cases "session = focused_session (set_focus_surface surface sh)")
    case True
    then have "set_focus_to session surface sh = set_focus_surface surface sh"
      by (simp add: set_focus_to_def set_focus_surface_def Let_def)
    then show ?thesis using e by metis
  next
    case False
    let ?m = "case session of Some i \<Rightarrow> sm_set_focus_to i (sh_sessions (set_focus_surface surface sh))
                        | None \<Rightarrow> sm_unset_focus (sh_sessions (set_focus_surface surface sh))"
    have "set_focus_to session surface sh = (set_focus_surface surface sh)\<lparr>focus_session := session, sh_sessions := ?m\<rparr>"
      using False by (simp add: set_focus_to_def set_focus_surface_def Let_def split: option.split)
    then show ?thesis by (intro exI [of _ ?m] exI [of _ session]) (simp add: s split: option.split)
  qed
qed

lemma focus_ok_set_focus_surface:
  assumes ok: "focus_ok sh" and alive: "\<And>p. surface = Some p \<Longrightarrow> sh_live sh p \<noteq> None"
  defines "sh' \<equiv> set_focus_surface surface sh"
  shows "focus_ok sh'" "focused_surface sh' = surface"
proof -
  have "focus_ok sh' \<and> focused_surface sh' = surface"
  proof (cases "surface = focused_surface sh")
    case True
    then show ?thesis using ok by (simp add: sh'_def set_focus_surface_def)
  next
    case False
    let ?sh1 = "sh\<lparr>focus_surface := surface, confinement_regions := []\<rparr>"
    define sh2 where "sh2 = (case focused_surface sh of None \<Rightarrow> ?sh1 | Some q \<Rightarrow> drop_focus q ?sh1)"
    have 1: "focus_of ?sh1 = focus_of sh" "sh_live ?sh1 = sh_live sh" by (simp_all add: focus_of_def fun_eq_iff)
    have fo: "focus_of sh p = Some 1 \<longleftrightarrow> focused_surface sh = Some p" for p using ok by (simp add: focus_ok_def)
    have co: "sh_live sh p \<noteq> None \<Longrightarrow> count_list (focus_observed sh) p = (if focused_surface sh = Some p then 1 else 0)" for p
      using ok by (simp add: focus_ok_def)
    have 2: "focus_of sh2 p \<noteq> Some 1" "sh_live sh2 p = None \<longleftrightarrow> sh_live sh p = None" "focus_surface sh2 = surface"
      "sh_live sh p \<noteq> None \<Longrightarrow> count_list (focus_observed sh2) p = 0" for p
    proof -
      have "focus_of sh2 p \<noteq> Some 1 \<and> (sh_live sh2 p = None \<longleftrightarrow> sh_live sh p = None) \<and> focus_surface sh2 = surface \<and>
        (sh_live sh p \<noteq> None \<longrightarrow> count_list (focus_observed sh2) p = 0)"
      proof (cases "focused_surface sh")
        case None
        then show ?thesis using fo [of p] co [of p] 1 by (auto simp: sh2_def)
      next
        case (Some q)
        then have "sh_live ?sh1 q \<noteq> None" by (auto simp: focused_surface_def split: option.splits if_splits)
        then obtain s where s: "sh_live ?sh1 q = Some s" by blast
        note d = drop_focus_facts [OF s]
        show ?thesis
          using fo [of p] co [of p] 1 Some d(1-4) by (auto simp: sh2_def count_list_remove1)
      qed
      then show "focus_of sh2 p \<noteq> Some 1" "sh_live sh2 p = None \<longleftrightarrow> sh_live sh p = None" "focus_surface sh2 = surface"
        "sh_live sh p \<noteq> None \<Longrightarrow> count_list (focus_observed sh2) p = 0" by simp_all
    qed
    have sh': "sh' = (case surface of Some p \<Rightarrow> take_focus p sh2 | None \<Rightarrow> seat_call Targeter_clear_focus sh2)"
      unfolding sh'_def set_focus_surface_def sh2_def Let_def using False by simp
    show ?thesis
    proof (cases surface)
      case None
      then show ?thesis
        using 2 by (auto simp: sh' focus_ok_def focused_surface_def seat_call_def focus_of_def)
    next
      case (Some p)
      then obtain s where s: "sh_live sh2 p = Some s" using alive 2(2) by blast
      note t = take_focus_facts [OF s]
      have "focused_surface sh' = surface" using t(3,4) s 2(3) Some by (simp add: sh' focused_surface_def)
      then show ?thesis
        using t 2 s Some by (auto simp: sh' focus_ok_def)
    qed
  qed
  then show "focus_ok sh'" "focused_surface sh' = surface" by simp_all
qed

lemma focus_ok_cong:
  assumes "sh_live x = sh_live y" "focus_surface x = focus_surface y" "focus_observed x = focus_observed y"
  shows "focus_ok x = focus_ok y" "focused_surface x = focused_surface y"
  unfolding focus_ok_def focus_of_def focused_surface_def assms by simp_all

lemma focus_ok_set_focus_to:
  assumes "focus_ok sh" and "\<And>p. surface = Some p \<Longrightarrow> sh_live sh p \<noteq> None"
  shows "focus_ok (set_focus_to session surface sh)" "focused_surface (set_focus_to session surface sh) = surface"
proof -
  obtain m fs where e: "set_focus_to session surface sh = (set_focus_surface surface sh)\<lparr>focus_session := fs, sh_sessions := m\<rparr>"
    and m: "w_scene (sm_world m) = w_scene (sh_world (set_focus_surface surface sh))"
    using set_focus_to_surface [of session surface sh] by blast
  have "sh_live (set_focus_to session surface sh) = sh_live (set_focus_surface surface sh)"
    "focus_surface (set_focus_to session surface sh) = focus_surface (set_focus_surface surface sh)"
    "focus_observed (set_focus_to session surface sh) = focus_observed (set_focus_surface surface sh)"
    by (simp_all add: e m)
  note c = focus_ok_cong [OF this]
  show "focus_ok (set_focus_to session surface sh)" "focused_surface (set_focus_to session surface sh) = surface"
    unfolding c by (rule focus_ok_set_focus_surface [OF assms(1)]; use assms(2) in simp)+
qed

text \<open>
  The runs of the shell as far as the focus is concerned.  \<open>others\<close> is whatever else happens to sessions and
  surfaces: a surface may die, and a new one, at an address nobody remembers, is not focused; nobody else
  sets the focus attribute.
\<close>

inductive focus_reachable :: "'w Shell \<Rightarrow> bool" where
  start: "\<lbrakk>focus_surface sh = None; focus_observed sh = []; \<forall>p s. sh_live sh p = Some s \<longrightarrow> sf_focus s \<noteq> mir_window_focus_state_focused\<rbrakk>
            \<Longrightarrow> focus_reachable sh"
| set_focus: "focus_reachable sh \<Longrightarrow> (\<And>p. surface = Some p \<Longrightarrow> sh_live sh p \<noteq> None) \<Longrightarrow>
            focus_reachable (set_focus_to session surface sh)"
| next_session: "focus_reachable sh \<Longrightarrow> (\<And>i p. session_default (sh_sessions sh) i = Some p \<Longrightarrow> sh_live sh p \<noteq> None) \<Longrightarrow>
            focus_reachable (snd (focus_next_session sh))"
| others: "\<lbrakk>focus_reachable sh; focus_surface sh' = focus_surface sh; focus_observed sh' = focus_observed sh;
            \<And>p s'. sh_live sh' p = Some s' \<Longrightarrow> (\<exists>s. sh_live sh p = Some s \<and> sf_focus s' = sf_focus s) \<or>
              (sf_focus s' \<noteq> mir_window_focus_state_focused \<and> focus_surface sh \<noteq> Some p \<and> p \<notin> set (focus_observed sh))\<rbrakk>
            \<Longrightarrow> focus_reachable sh'"

lemma focus_ok_next:
  assumes "focus_ok sh" and "\<And>i p. session_default (sh_sessions sh) i = Some p \<Longrightarrow> sh_live sh p \<noteq> None"
  shows "focus_ok (snd (focus_next_session sh))"
  using assms
  by (auto simp: focus_next_session_def Let_def intro!: focus_ok_set_focus_to split: sum.split option.split)

lemma focus_ok_others:
  fixes sh sh' :: "'w Shell"
  assumes "focus_ok sh" "focus_surface sh' = focus_surface sh" "focus_observed sh' = focus_observed sh"
    and o': "\<And>p s'. sh_live sh' p = Some s' \<Longrightarrow> (\<exists>s. sh_live sh p = Some s \<and> sf_focus s' = sf_focus s) \<or>
           (sf_focus s' \<noteq> mir_window_focus_state_focused \<and> focus_surface sh \<noteq> Some p \<and> p \<notin> set (focus_observed sh))"
  shows "focus_ok sh'"
  unfolding focus_ok_def
proof (intro conjI allI impI)
  have fo: "focus_of sh p = Some 1 \<longleftrightarrow> focused_surface sh = Some p" for p using assms(1) by (simp add: focus_ok_def)
  have fs: "focused_surface x = Some p \<longleftrightarrow> focus_surface x = Some p \<and> sh_live x p \<noteq> None" for x :: "'w Shell" and p
    by (auto simp: focused_surface_def split: option.splits)
  fix p
  show "focus_of sh' p = Some 1 \<longleftrightarrow> focused_surface sh' = Some p"
    using fo [of p] o' [of p] by (cases "sh_live sh' p") (auto simp: fs focus_of_def assms(2))
  assume a: "sh_live sh' p \<noteq> None"
  then obtain s' where s': "sh_live sh' p = Some s'" by blast
  from o' [OF s'] show "count_list (focus_observed sh') p = (if focused_surface sh' = Some p then 1 else 0)"
    using assms(1) a by (auto simp: focus_ok_def fs assms(2,3) count_list_0_iff)
qed

lemma focus_ok_reachable: "focus_reachable sh \<Longrightarrow> focus_ok sh"
proof (induction rule: focus_reachable.induct)
  case (start sh)
  then show ?case by (auto simp: focus_ok_def focus_of_def focused_surface_def)
next
  case (others sh sh')
  then show ?case using focus_ok_others [of sh sh'] by blast
qed (auto intro: focus_ok_set_focus_to focus_ok_next)


section \<open>The next session\<close>

lemma next_with_surface_cycle:
  assumes "distinct (sm_apps m)" "j < length (sm_apps m)" "d < length (sm_apps m)"
  defines "n \<equiv> length (sm_apps m)"
  shows "next_with_surface (Suc (n - d)) m (Some (sm_apps m ! j)) (Some (sm_apps m ! ((j + d) mod n))) =
           Inr (case find (\<lambda>i. session_default m i \<noteq> None) (drop d (rotate j (sm_apps m))) of
                  Some i \<Rightarrow> Some i | None \<Rightarrow> Some (sm_apps m ! j))"
  using assms(3)
proof (induction "n - d" arbitrary: d)
  case 0
  then show ?case by (simp add: n_def)
next
  case (Suc k)
  let ?apps = "sm_apps m" and ?P = "\<lambda>i. session_default m i \<noteq> None"
  let ?i = "?apps ! ((j + d) mod n)"
  have d: "drop d (rotate j ?apps) = ?i # drop (Suc d) (rotate j ?apps)"
    using Suc.prems by (simp add: Cons_nth_drop_Suc [symmetric] nth_rotate n_def add.commute)
  have "(j + d) mod n < length ?apps" unfolding n_def using assms(2) by (intro mod_less_divisor) linarith
  from successor_of_nth [OF assms(1) this]
  have succ: "sm_successor_of (Some ?i) m = Inr (Some (?apps ! ((j + Suc d) mod n)))"
    by (simp add: sm_successor_of_def n_def mod_Suc_eq)
  show ?case
  proof (cases "?P ?i")
    case True
    then show ?thesis by (simp add: d)
  next
    case False
    show ?thesis
    proof (cases "Suc d < n")
      case True
      have "(j + Suc d) mod n = (if j + Suc d < n then j + Suc d else j + Suc d - n)"
        using True assms(2) unfolding n_def by (cases "j + Suc d < length (sm_apps m)") (simp_all add: le_mod_geq not_less)
      then have "(j + Suc d) mod n \<noteq> j" using True assms(2) by (simp add: n_def split: if_splits)
      then have ne: "?apps ! ((j + Suc d) mod n) \<noteq> ?apps ! j"
        using nth_eq_iff_index_eq [OF assms(1), of "(j + Suc d) mod n" j] mod_less_divisor [of n "j + Suc d"] assms(2)
        unfolding n_def by fastforce
      have "n - d = Suc (n - Suc d)" using True by simp
      then show ?thesis
        using False succ ne Suc.hyps(1) [of "Suc d"] Suc.hyps(2) True by (simp add: d n_def)
    next
      case False': False
      then have "Suc d = n" using Suc.prems by (simp add: n_def)
      then have "(j + Suc d) mod n = j" "drop (Suc d) (rotate j ?apps) = []" using assms(2) by (simp_all add: n_def)
      then show ?thesis using False succ Suc.hyps(2) by (simp add: d)
    qed
  qed
qed

lemma successor_of_None: "apps \<noteq> [] \<Longrightarrow> successor_of None apps = Inr (Some (apps ! (length apps - 1)))"
  by (simp add: successor_of_def last_conv_nth)

text \<open>
  C19: \<open>focus_next_session\<close> always returns: it focuses the first session with a surface, in the order of the
  container, starting behind the focused session and going round to it (from the last session when none is
  focused); when no session has a surface, nothing is focused.
\<close>

theorem focus_next_session_fair:
  assumes "distinct (sm_apps (sh_sessions sh))" and "sm_apps (sh_sessions sh) \<noteq> []"
    and "focused_session sh = None \<and> Suc j = length (sm_apps (sh_sessions sh)) \<or>
         (\<exists>k < length (sm_apps (sh_sessions sh)). focused_session sh = Some (sm_apps (sh_sessions sh) ! k) \<and>
            j = Suc k mod length (sm_apps (sh_sessions sh)))"
  shows "focus_next_session sh =
           (Inr (), case find (\<lambda>i. session_default (sh_sessions sh) i \<noteq> None) (rotate j (sm_apps (sh_sessions sh))) of
                      Some i \<Rightarrow> set_focus_to (Some i) (session_default (sh_sessions sh) i) sh
                    | None \<Rightarrow> set_focus_to None None sh)"
proof -
  let ?m = "sh_sessions sh" and ?apps = "sm_apps (sh_sessions sh)" and ?P = "\<lambda>i. session_default (sh_sessions sh) i \<noteq> None"
  have "j < length ?apps \<and> sm_successor_of (focused_session sh) ?m = Inr (Some (?apps ! j))"
    using assms(3)
  proof (elim disjE conjE exE)
    fix k assume k: "k < length ?apps" "focused_session sh = Some (?apps ! k)" "j = Suc k mod length ?apps"
    then show ?thesis using successor_of_nth [OF assms(1) k(1)] assms(2) by (simp add: sm_successor_of_def)
  next
    assume n: "focused_session sh = None" "Suc j = length ?apps"
    then have "length ?apps - 1 = j" by simp
    then show ?thesis using successor_of_None [OF assms(2)] n by (simp add: sm_successor_of_def)
  qed
  then have j: "j < length ?apps" and succ: "sm_successor_of (focused_session sh) ?m = Inr (Some (?apps ! j))" by simp_all
  have nxt: "next_with_surface (Suc (length ?apps)) ?m (Some (?apps ! j)) (Some (?apps ! j)) =
      Inr (case find ?P (rotate j ?apps) of Some i \<Rightarrow> Some i | None \<Rightarrow> Some (?apps ! j))"
    using next_with_surface_cycle [OF assms(1) j, of 0] j by (simp add: assms(2) del: next_with_surface.simps)
  show ?thesis
  proof (cases "find ?P (rotate j ?apps)")
    case None
    then have "session_default ?m (?apps ! j) = None"
      using j nth_mem [OF j] by (auto simp: find_None_iff)
    then show ?thesis using None succ nxt by (simp add: focus_next_session_def del: next_with_surface.simps)
  next
    case (Some i)
    then have "?P i" by (auto simp: find_Some_iff)
    then show ?thesis using Some succ nxt by (auto simp: focus_next_session_def Let_def simp del: next_with_surface.simps)
  qed
qed

section \<open>Closing a session\<close>

lemma find_split:
  "find P xs = Some x \<Longrightarrow> \<exists>ys zs. xs = ys @ x # zs \<and> P x \<and> (\<forall>y \<in> set ys. \<not> P y)"
proof (induction xs)
  case (Cons a xs)
  show ?case
  proof (cases "P a")
    case True
    with Cons.prems show ?thesis by (intro exI [of _ "[]"] exI [of _ xs]) simp
  next
    case False
    with Cons obtain ys zs where "xs = ys @ x # zs" "P x" "\<forall>y \<in> set ys. \<not> P y" by auto
    with False show ?thesis by (intro exI [of _ "a # ys"] exI [of _ zs]) simp
  qed
qed simp

abbreviation focusable :: "SceneWorld \<Rightarrow> SurfacePtr \<Rightarrow> bool" where
  "focusable w p \<equiv> can_take_focus (sf_type (world_surface w p))"

lemma collect_step:
  "c \<notin> F \<Longrightarrow> surface_after w c s = Inr surface \<Longrightarrow>
     collect_surfaces (Suc n) w s (Some c) F = collect_surfaces n w s surface (insert c F)"
  by simp

lemma collect_focusable:
  assumes "map snd (ses_surfaces s) = xs @ c # ys" "distinct (xs @ c # ys)" "\<exists>p \<in> set (xs @ c # ys). focusable w p"
    and "c = hd (xs @ [c]) \<or> focusable w c" "length ys < n"
  shows "collect_surfaces (Suc n) w s (Some c)
           (if xs = [] then {} else insert (hd xs) {p \<in> set xs. focusable w p}) =
         Inr (insert (hd (xs @ [c])) {p \<in> set (xs @ c # ys). focusable w p})"
  using assms
proof (induction "length ys" arbitrary: xs c ys n rule: less_induct)
  case less
  let ?ok = "focusable w" and ?found = "if xs = [] then {} else insert (hd xs) {p \<in> set xs. focusable w p}"
  have c: "c \<notin> ?found" using less.prems(2) by (cases xs) auto
  have after: "surface_after w c s = Inr (case find ?ok (ys @ xs @ [c]) of Some p \<Rightarrow> Some p
      | None \<Rightarrow> (case ys of [] \<Rightarrow> None | p # _ \<Rightarrow> Some p))"
    by (rule surface_after_cycles [OF less.prems(1)]) (use less.prems(2) in simp)
  obtain n' where n: "n = Suc n'" using less.prems(5) by (cases n) auto
  show ?case
  proof (cases "find ?ok ys")
    case (Some d)
    then obtain ys1 ys2 where ys: "ys = ys1 @ d # ys2" "?ok d" "\<forall>y \<in> set ys1. \<not> ?ok y" using find_split by metis
    have "collect_surfaces (Suc n') w s (Some d)
        (if xs @ c # ys1 = [] then {} else insert (hd (xs @ c # ys1)) {p \<in> set (xs @ c # ys1). ?ok p}) =
      Inr (insert (hd ((xs @ c # ys1) @ [d])) {p \<in> set ((xs @ c # ys1) @ d # ys2). ?ok p})"
      by (rule less.hyps) (use less.prems ys n in auto)
    moreover have "(if xs @ c # ys1 = [] then {} else insert (hd (xs @ c # ys1)) {p \<in> set (xs @ c # ys1). ?ok p}) = insert c ?found"
      using ys less.prems(4) by (cases xs) auto
    moreover have "hd ((xs @ c # ys1) @ [d]) = hd (xs @ [c])" by (cases xs) auto
    moreover have "surface_after w c s = Inr (Some d)" using after Some by (simp add: find_append)
    ultimately show ?thesis using ys(1) unfolding n by (simp add: collect_step [OF c] del: collect_surfaces.simps)
  next
    case None
    then have no: "\<forall>y \<in> set ys. \<not> ?ok y" by (simp add: find_None_iff)
    then have "find ?ok (xs @ [c]) \<noteq> None" using less.prems(3) unfolding find_None_iff by auto
    then obtain e where e1: "find ?ok (xs @ [c]) = Some e" by blast
    from find_split [OF this] obtain ys' zs where "xs @ [c] = ys' @ e # zs" "?ok e" by blast
    then have e: "find ?ok (xs @ [c]) = Some e" "e \<in> set (xs @ [c])" "?ok e" using e1 by (simp_all only: set_append) simp
    have "e \<in> insert c ?found" using e by (cases "xs = []") auto
    moreover have "insert c ?found = insert (hd (xs @ [c])) {p \<in> set (xs @ c # ys). ?ok p}"
      using no less.prems(4) by (cases xs) auto
    moreover have sa: "surface_after w c s = Inr (Some e)" using after None e(1) by (simp add: find_append)
    ultimately show ?thesis unfolding n collect_step [OF c sa] by simp
  qed
qed

lemma collect_none_focusable:
  assumes "map snd (ses_surfaces s) = xs @ c # ys" "distinct (xs @ c # ys)" "\<forall>p \<in> set (xs @ c # ys). \<not> focusable w p" "length ys < n"
  shows "collect_surfaces (Suc n) w s (Some c) (set xs) = Inr (set (xs @ c # ys))"
  using assms
proof (induction ys arbitrary: xs c n)
  case (Cons y ys)
  have "find (focusable w) ((y # ys) @ xs @ [c]) = None" using Cons.prems(3) unfolding find_None_iff by auto
  then have after: "surface_after w c s = Inr (Some y)"
    using surface_after_cycles [OF Cons.prems(1), of w] Cons.prems(2) by simp
  obtain n' where n: "n = Suc n'" using Cons.prems(4) by (cases n) auto
  have "collect_surfaces (Suc n') w s (Some y) (set (xs @ [c])) = Inr (set ((xs @ [c]) @ y # ys))"
    by (rule Cons.IH) (use Cons.prems n in auto)
  then show ?case using after Cons.prems(2) n by simp
next
  case Nil
  obtain n' where n: "n = Suc n'" using Nil.prems(4) by (cases n) auto
  have "find (focusable w) ([] @ xs @ [c]) = None" using Nil.prems(3) unfolding find_None_iff by auto
  then have "surface_after w c s = Inr None"
    using surface_after_cycles [OF Nil.prems(1), of w] Nil.prems(2) by simp
  then show ?case using Nil.prems(2) n by simp
qed

text \<open>
  The surfaces that \<open>close_session\<close> has the window manager remove are meant to be all that the session
  owns.  The collecting loop always ends, but when one of the surfaces can take focus it finds only those that
  can, beside the first one: gloss and tip windows are left behind.  (When none can, it finds them all.)
\<close>

theorem close_session_surfaces:
  assumes "distinct (map snd (ses_surfaces s))" and "ses_surfaces s \<noteq> []"
  shows "session_surfaces w s =
           Inr (if \<exists>p \<in> snd ` set (ses_surfaces s). can_take_focus (sf_type (world_surface w p))
                then insert (snd (hd (ses_surfaces s))) {p \<in> snd ` set (ses_surfaces s). can_take_focus (sf_type (world_surface w p))}
                else snd ` set (ses_surfaces s))"
proof -
  obtain e es where es: "ses_surfaces s = e # es" using assms(2) by (cases "ses_surfaces s") auto
  then have ps: "map snd (ses_surfaces s) = [] @ snd e # map snd es" and d: "distinct ([] @ snd e # map snd es)"
    using assms(1) by simp_all
  have default: "default_surface s = Some (snd e)" by (simp add: default_surface_def es split: prod.split)
  show ?thesis
  proof (cases "\<exists>p \<in> snd ` set (ses_surfaces s). focusable w p")
    case True
    have "collect_surfaces (Suc (Suc (length (ses_surfaces s)))) w s (Some (snd e)) {} =
      Inr (insert (snd e) {p \<in> set (snd e # map snd es). focusable w p})"
      using collect_focusable [OF ps d, of w "Suc (length (ses_surfaces s))"] True es
      by (simp del: collect_surfaces.simps)
    then show ?thesis using True es default by (simp add: session_surfaces_def del: collect_surfaces.simps)
  next
    case False
    have "collect_surfaces (Suc (Suc (length (ses_surfaces s)))) w s (Some (snd e)) {} = Inr (set (snd e # map snd es))"
      using collect_none_focusable [OF ps d, of w "Suc (length (ses_surfaces s))"] False es
      by (simp del: collect_surfaces.simps)
    then show ?thesis using False es default by (simp add: session_surfaces_def del: collect_surfaces.simps)
  qed
qed

lemma set_focus_to_session:
  assumes "\<And>i. session = Some i \<Longrightarrow> sm_objects (sh_sessions sh) i \<noteq> None"
  shows "focused_session (set_focus_to session surface sh) = session"
    and "sm_objects (sh_sessions (set_focus_to session surface sh)) = sm_objects (sh_sessions sh)"
proof -
  let ?sh = "set_focus_surface surface sh"
  have o: "sm_objects (sh_sessions ?sh) = sm_objects (sh_sessions sh)"
    by (simp add: set_focus_surface_def drop_focus_def take_focus_def seat_call_def confine_to_def Let_def split: option.split)
  have m: "sm_objects (sm_set_focus_to i m) = sm_objects m" "sm_objects (sm_unset_focus m) = sm_objects m" for i m
    by (simp_all add: sm_set_focus_to_def sm_unset_focus_def sm_listener_def)
  have e: "set_focus_to session surface sh =
      (if session \<noteq> focused_session ?sh
       then ?sh\<lparr>focus_session := session, sh_sessions := (case session of Some i \<Rightarrow> sm_set_focus_to i (sh_sessions ?sh)
                                | None \<Rightarrow> sm_unset_focus (sh_sessions ?sh))\<rparr>
       else ?sh)"
    by (simp add: set_focus_to_def set_focus_surface_def Let_def split: option.split)
  show "sm_objects (sh_sessions (set_focus_to session surface sh)) = sm_objects (sh_sessions sh)"
    unfolding e by (simp add: o m split: option.split)
  show "focused_session (set_focus_to session surface sh) = session"
    unfolding e using assms by (cases session) (auto simp: focused_session_def o m split: option.splits)
qed

lemma sc_operations [simp]:
  "wmo_remove_session SystemCompositorWindowManager = on_session_removed"
  "wmo_remove_surface SystemCompositorWindowManager = sc_remove_surface"
  by (simp_all add: SystemCompositorWindowManager_def)

lemma on_session_fields:
  assumes "on_session f i m = (r, m')"
  shows "sm_apps m' = sm_apps m" "dom (sm_objects m') = dom (sm_objects m)"
proof -
  have "sm_apps m' = sm_apps m \<and> dom (sm_objects m') = dom (sm_objects m)"
  proof (cases "sm_objects m i")
    case (Some s)
    obtain r' s' w' where "f (s, sm_world m) = (r', (s', w'))" by (metis prod.exhaust)
    with Some assms have "m' = m\<lparr>sm_objects := (sm_objects m)(i \<mapsto> s'), sm_world := w'\<rparr>" by (simp add: on_session_def)
    with Some show ?thesis by auto
  qed (use assms in \<open>simp add: on_session_def\<close>)
  then show "sm_apps m' = sm_apps m" "dom (sm_objects m') = dom (sm_objects m)" by simp_all
qed

lemma sc_remove_fields:
  assumes "sc_remove_surface i p sh = (r, sh')"
  shows "sm_apps (sh_sessions sh') = sm_apps (sh_sessions sh)" "dom (sm_objects (sh_sessions sh')) = dom (sm_objects (sh_sessions sh))"
    "focus_session sh' = focus_session sh"
proof -
  obtain r1 m1 where o: "on_session (ses_destroy_surface p) i (sh_sessions sh) = (r1, m1)" by fastforce
  have "sh_sessions sh' = m1" "focus_session sh' = focus_session sh"
    using assms by (cases r1; simp add: sc_remove_surface_def shell_session_def o on_wm_def; auto)+
  with on_session_fields [OF o] show "sm_apps (sh_sessions sh') = sm_apps (sh_sessions sh)"
    "dom (sm_objects (sh_sessions sh')) = dom (sm_objects (sh_sessions sh))" "focus_session sh' = focus_session sh" by simp_all
qed

lemma remove_all_fields:
  assumes "remove_all SystemCompositorWindowManager i ps sh = (r, sh')"
  shows "sm_apps (sh_sessions sh') = sm_apps (sh_sessions sh) \<and> dom (sm_objects (sh_sessions sh')) = dom (sm_objects (sh_sessions sh)) \<and>
    focus_session sh' = focus_session sh"
  using assms
proof (induction ps arbitrary: sh)
  case (Cons p ps)
  obtain r1 sh1 where r: "sc_remove_surface i p sh = (r1, sh1)" by fastforce
  show ?case
  proof (cases r1)
    case (Inl e)
    then show ?thesis using Cons.prems r sc_remove_fields [OF r] by auto
  next
    case (Inr u)
    then have "remove_all SystemCompositorWindowManager i ps sh1 = (r, sh')"
      using Cons.prems r by simp
    with Cons.IH sc_remove_fields [OF r] show ?thesis by simp
  qed
qed simp

text \<open>
  When the focused session of a system compositor is closed, the focus moves to the session opened last
  among those that are left, or to none when there are none.
\<close>

theorem close_session_moves_focus:
  assumes "shell_close_session SystemCompositorWindowManager i sh = (Inr (), sh')"
    and "set (sm_apps (sh_sessions sh)) \<subseteq> dom (sm_objects (sh_sessions sh))" and "focused_session sh = Some i"
  shows "focused_session sh' = (case remove1 i (sm_apps (sh_sessions sh)) of [] \<Rightarrow> None | apps \<Rightarrow> Some (last apps))"
proof -
  let ?sh0 = "sh\<lparr>sh_prompts := remove_session (sh_prompts sh) i\<rparr>"
  obtain ps sh1 m2 where s: "remove_all SystemCompositorWindowManager i (sorted_list_of_set ps) ?sh0 = (Inr (), sh1)" and
    c: "close_session i (sh_sessions sh1) = (Inr (), m2)" and e: "sh' = on_session_removed i (sh1\<lparr>sh_sessions := m2\<rparr>)"
    using assms(1)
    by (auto simp: shell_close_session_def and_then_def apsnd_def map_prod_def Let_def
        split: option.splits sum.splits prod.splits)
  let ?sh2 = "sh1\<lparr>sh_sessions := m2\<rparr>"
  note r = remove_all_fields [OF s, simplified]
  have m: "sm_apps m2 = remove1 i (sm_apps (sh_sessions sh))" "sm_objects m2 = sm_objects (sh_sessions sh1)"
    using c r by (auto simp: close_session_def Let_def container_remove_session_def sm_listener_def apsnd_def map_prod_def split: if_splits)
  have fs: "focus_session sh = Some i" "i \<in> dom (sm_objects (sh_sessions sh))"
    using assms(3) by (auto simp: focused_session_def split: option.splits if_splits)
  then have f2: "focused_session ?sh2 = Some i"
    using r m by (auto simp: focused_session_def)
  show ?thesis
  proof (cases "remove1 i (sm_apps (sh_sessions sh))")
    case Nil
    then show ?thesis
      using f2 m set_focus_to_session(1) [of None ?sh2] by (simp add: e on_session_removed_def sm_successor_of_def successor_of_def)
  next
    case (Cons a as)
    have "last (a # as) \<in> set (sm_apps (sh_sessions sh))" using Cons last_in_set [of "a # as"] by (metis list.discI notin_set_remove1)
    then have "last (a # as) \<in> dom (sm_objects m2)" unfolding m(2) using assms(2) r by blast
    then have "sm_objects m2 (last (a # as)) \<noteq> None" by (simp add: domIff)
    then show ?thesis
      using f2 m Cons set_focus_to_session(1) [of "Some (last (a # as))" ?sh2]
      by (simp add: e on_session_removed_def sm_successor_of_def successor_of_def)
  qed
qed

section \<open>Pointer confinement\<close>

text \<open>
  A request that changes only the pointer confinement of a window does not reach the window manager,
  because \<open>is_empty\<close> does not look at that member, and so the window keeps its old confinement state.  On the focused
  window the shell then applies the old state: a window that is not confined stays free.
\<close>

theorem confinement_request_ignored:
  assumes "spec_is_empty modifications" and "spec_cursor_image modifications = None" and "spec_stream_cursor modifications = None"
  shows "\<exists>sh'. shell_modify_surface wmo i p modifications sh = (Inr (), sh') \<and>
           sh_sessions sh' = sh_sessions sh \<and> sh_wm sh' = sh_wm sh \<and>
           (spec_confine_pointer modifications = Some mir_pointer_confined_to_window \<and> focused_surface sh = Some p \<and> \<not> confined p sh \<longrightarrow>
              confinement_regions sh' = [])"
proof -
  have "spec_streams modifications = None" "spec_is_empty (modifications\<lparr>spec_streams := None\<rparr>)"
    using assms(1) by (simp_all add: spec_is_empty_def)
  then show ?thesis
    using assms(2,3)
    by (simp add: shell_modify_surface_def modify_cursor_def modify_confinement_def confine_to_def Let_def)
qed

section \<open>Examples\<close>

definition two_windows :: SceneWorld where
  "two_windows = \<lparr>w_scene = new_SurfaceStack (sample_heap\<lparr>live_surfaces :=
       (\<lambda>p. if p = 5 then Some sample_surface else if p = 6 then Some (sample_surface\<lparr>sf_type := mir_window_type_gloss\<rparr>) else None)\<rparr>),
     w_next_surface = 7, w_next_stream = 1, w_listener = [], w_make_input_channel = (\<lambda>_. None)\<rparr>"

definition client_of :: "(nat \<times> SurfacePtr) list \<Rightarrow> ApplicationSession" where
  "client_of ps = (new_ApplicationSession 0 1 ''client'' \<lparr>cards = [], outputs = []\<rparr>)\<lparr>ses_surfaces := ps\<rparr>"

definition two_clients :: SessionManager where
  "two_clients = (new_SessionManager two_windows new_BroadcastingSessionEventSink (new_AnrDetector 1000) \<lparr>cards = [], outputs = []\<rparr>)
     \<lparr>sm_objects := [0 \<mapsto> client_of [], 1 \<mapsto> client_of [(0, 5), (1, 6)]], sm_apps := [0, 1], sm_next := 2\<rparr>"

definition sample_shell :: "nat option \<Rightarrow> sc_shell" where
  "sample_shell focus = \<lparr>sh_sessions = two_clients, sh_prompts = new_PromptSessionManager [], sh_wm = \<lparr>output_map = [], ready_observers = []\<rparr>,
     focus_surface = None, focus_session = focus, confinement_regions = [], focus_observed = [], seat_calls = []\<rparr>"

lemmas shell_eval = sample_shell_def two_clients_def two_windows_def client_of_def new_SessionManager_def new_ApplicationSession_def
  new_SurfaceStack_def

lemma sample_types: "sf_type (world_surface two_windows 5) = 0" "sf_type (world_surface two_windows 6) = mir_window_type_gloss"
  by (simp_all add: two_windows_def world_surface_def surface_of_def new_SurfaceStack_def sample_surface_def new_BasicSurface_def default_stream_def)

theorem surface_after_cycles_witness: "surface_after two_windows 6 (client_of [(0, 6), (1, 6)]) = Inr (Some 6)"
  using surface_after_cycles [of "client_of [(0, 6), (1, 6)]" "[]" 6 "[6]" two_windows] sample_types
  by (simp add: client_of_def can_take_focus_def)


theorem focus_next_session_fair_witness:
  "focus_next_session (sample_shell (Some 0)) = (Inr (), set_focus_to (Some 1) (Some 5) (sample_shell (Some 0)))"
proof -
  have "focused_session (sample_shell (Some 0)) = Some 0" by (simp add: shell_eval focused_session_def)
  moreover have "sm_apps (sh_sessions (sample_shell (Some 0))) = [0, 1]" by (simp add: shell_eval)
  moreover have "session_default (sh_sessions (sample_shell (Some 0))) 1 = Some 5"
    by (simp add: shell_eval session_default_def default_surface_def)
  moreover have "\<exists>k<Suc (Suc 0). [0::nat, Suc 0] ! k = 0 \<and> Suc 0 = Suc k mod Suc (Suc 0)"
    by (rule exI [of _ 0]) simp
  ultimately show ?thesis using focus_next_session_fair [of "sample_shell (Some 0)" 1] by (simp add: rotate1_def rotate_def)
qed

theorem close_session_surfaces_witness: "session_surfaces two_windows (client_of [(0, 5), (1, 6)]) = Inr {5}"
proof -
  have "{p. (p = 5 \<or> p = 6) \<and> can_take_focus (sf_type (world_surface two_windows p))} = {5}"
    using sample_types by (auto simp: can_take_focus_def)
  then show ?thesis
    using close_session_surfaces [of "client_of [(0, 5), (1, 6)]" two_windows] sample_types
    by (simp add: client_of_def can_take_focus_def)
qed

theorem close_session_moves_focus_witness:
  "\<exists>sh'. shell_close_session SystemCompositorWindowManager 0 (sample_shell (Some 0)) = (Inr (), sh') \<and> focused_session sh' = Some 1"
proof -
  let ?sh = "sample_shell (Some 0)"
  have "sm_objects (sh_sessions ?sh) 0 = Some (client_of [])" "sm_apps (sh_sessions ?sh) = [0, 1]"
    by (simp_all add: shell_eval)
  then have "\<exists>sh'. shell_close_session SystemCompositorWindowManager 0 ?sh = (Inr (), sh')"
    by (simp add: shell_close_session_def session_surfaces_def client_of_def default_surface_def new_ApplicationSession_def
        close_session_def Let_def container_remove_session_def sm_listener_def)
  then obtain sh' where sh': "shell_close_session SystemCompositorWindowManager 0 ?sh = (Inr (), sh')" by blast
  have "set (sm_apps (sh_sessions ?sh)) \<subseteq> dom (sm_objects (sh_sessions ?sh))" "focused_session ?sh = Some 0"
    by (simp_all add: shell_eval focused_session_def)
  from close_session_moves_focus [OF sh' this] sh' show ?thesis by (simp add: shell_eval)
qed

definition confine_request :: ShellSpecification where
  "confine_request =
     \<lparr>spec_width = None, spec_height = None, spec_name = None, spec_output_id = None, spec_type = None, spec_state = None,
      spec_min_width = None, spec_min_height = None, spec_max_width = None, spec_max_height = None, spec_width_inc = None,
      spec_height_inc = None, spec_min_aspect = None, spec_max_aspect = None, spec_streams = None, spec_parent = None,
      spec_input_shape = None, spec_confine_pointer = Some mir_pointer_confined_to_window, spec_pixel_format = None,
      spec_buffer_usage = None, spec_preferred_orientation = None, spec_parent_id = None, spec_aux_rect = None,
      spec_edge_attachment = None, spec_shell_chrome = None, spec_cursor_image = None, spec_stream_cursor = None\<rparr>"

theorem confinement_request_ignored_witness:
  "\<exists>sh'. shell_modify_surface SystemCompositorWindowManager 1 5 confine_request (sample_shell None) = (Inr (), sh') \<and>
     sh_sessions sh' = two_clients"
  using confinement_request_ignored [of confine_request SystemCompositorWindowManager 1 5 "sample_shell None"]
  by (auto simp: confine_request_def spec_is_empty_def sample_shell_def)

end
