(* ===== verification/Key_Mapping.thy ===== *)
theory Key_Mapping
  imports Key_Repeat Std_Map
begin

unbundle bit_operations_syntax

text \<open>
  \<open>input::receiver::XKBMapper\<close> (\<^verbatim>\<open>src/client/input/xkb_mapper.cpp\<close>), with which the seat gives key events
  their key code and every input event its modifiers, and \<^verbatim>\<open>src/server/input/input_modifier_utils.cpp\<close>.
  The functions of libxkbcommon are the members of a record of functions; keymaps, keyboard states and compose
  states are values of type variables.  The iteration order of the unordered maps is unspecified in C++;
  here it is that of the keys.

  The lemmas show that the modifiers of the mapper are those of all its keyboards, that every key of a
  finished compose sequence is released as the symbol it was pressed as, and where the modifiers go stale.
\<close>

section \<open>Modifiers\<close>

type_synonym modifiers = "32 word"

abbreviation (input) modifier_none :: modifiers where "modifier_none \<equiv> 1"
abbreviation (input) modifier_alt :: modifiers where "modifier_alt \<equiv> 2"
abbreviation (input) modifier_alt_left :: modifiers where "modifier_alt_left \<equiv> 4"
abbreviation (input) modifier_alt_right :: modifiers where "modifier_alt_right \<equiv> 8"
abbreviation (input) modifier_shift :: modifiers where "modifier_shift \<equiv> 16"
abbreviation (input) modifier_shift_left :: modifiers where "modifier_shift_left \<equiv> 32"
abbreviation (input) modifier_shift_right :: modifiers where "modifier_shift_right \<equiv> 64"
abbreviation (input) modifier_ctrl :: modifiers where "modifier_ctrl \<equiv> 512"
abbreviation (input) modifier_ctrl_left :: modifiers where "modifier_ctrl_left \<equiv> 1024"
abbreviation (input) modifier_ctrl_right :: modifiers where "modifier_ctrl_right \<equiv> 2048"
abbreviation (input) modifier_meta :: modifiers where "modifier_meta \<equiv> 4096"
abbreviation (input) modifier_meta_left :: modifiers where "modifier_meta_left \<equiv> 8192"
abbreviation (input) modifier_meta_right :: modifiers where "modifier_meta_right \<equiv> 16384"
abbreviation (input) modifier_caps_lock :: modifiers where "modifier_caps_lock \<equiv> 32768"
abbreviation (input) modifier_num_lock :: modifiers where "modifier_num_lock \<equiv> 65536"
abbreviation (input) modifier_scroll_lock :: modifiers where "modifier_scroll_lock \<equiv> 131072"

text \<open>The case labels are the key codes of \<^verbatim>\<open>linux/input.h\<close>.\<close>

definition to_modifiers :: "int \<Rightarrow> modifiers" where
  "to_modifiers scan_code =
     (if scan_code = 56 then modifier_alt_left
      else if scan_code = 100 then modifier_alt_right
      else if scan_code = 97 then modifier_ctrl_right
      else if scan_code = 29 then modifier_ctrl_left
      else if scan_code = 58 then modifier_caps_lock
      else if scan_code = 125 then modifier_meta_left
      else if scan_code = 126 then modifier_meta_right
      else if scan_code = 70 then modifier_scroll_lock
      else if scan_code = 69 then modifier_num_lock
      else if scan_code = 42 then modifier_shift_left
      else if scan_code = 54 then modifier_shift_right
      else 0)"

definition add_either :: "modifiers \<Rightarrow> modifiers \<Rightarrow> modifiers \<Rightarrow> modifiers \<Rightarrow> modifiers" where
  "add_either left_key right_key both m = (if m AND left_key \<noteq> 0 \<or> m AND right_key \<noteq> 0 then m OR both else m)"

definition expand_modifiers :: "modifiers \<Rightarrow> modifiers" where
  "expand_modifiers m =
     (if m = 0 then modifier_none
      else
        let m = add_either modifier_alt_left modifier_alt_right modifier_alt m;
            m = add_either modifier_ctrl_left modifier_ctrl_right modifier_ctrl m;
            m = add_either modifier_shift_left modifier_shift_right modifier_shift m
        in add_either modifier_meta_left modifier_meta_right modifier_meta m)"

text \<open>The keysyms are those of \<^verbatim>\<open>xkbcommon-keysyms.h\<close>.\<close>

definition xkb_key_code_to_modifier :: "nat \<Rightarrow> modifiers" where
  "xkb_key_code_to_modifier k =
     (if k = 65506 then modifier_shift_right
      else if k = 65505 then modifier_shift_left
      else if k = 65514 then modifier_alt_right
      else if k = 65513 then modifier_alt_left
      else if k = 65508 then modifier_ctrl_right
      else if k = 65507 then modifier_ctrl_left
      else if k = 65515 then modifier_meta_left
      else if k = 65516 then modifier_meta_right
      else if k = 65509 then modifier_caps_lock
      else if k = 65300 then modifier_scroll_lock
      else 0)"

definition to_xkb_scan_code :: "int \<Rightarrow> int" where
  "to_xkb_scan_code evdev_scan_code = (evdev_scan_code + 8) mod 2 ^ 32"

section \<open>What the mapper uses of libxkbcommon\<close>

datatype ComposeStatus = XKB_COMPOSE_NOTHING | XKB_COMPOSE_COMPOSING | XKB_COMPOSE_COMPOSED | XKB_COMPOSE_CANCELLED

abbreviation (input) XKB_KEY_NoSymbol :: nat where "XKB_KEY_NoSymbol \<equiv> 0"

record ('m, 'x, 'c) Xkb =
  xkb_state_new :: "'m \<Rightarrow> 'x"
  xkb_state_key_get_one_sym :: "'x \<Rightarrow> int \<Rightarrow> nat"
  xkb_state_update_key :: "'x \<Rightarrow> int \<Rightarrow> bool \<Rightarrow> 'x"
  xkb_compose_state_new :: "'c option"
  xkb_compose_state_feed :: "'c \<Rightarrow> nat \<Rightarrow> bool \<times> 'c"
  xkb_compose_state_get_status :: "'c \<Rightarrow> ComposeStatus"
  xkb_compose_state_get_one_sym :: "'c \<Rightarrow> nat"

section \<open>Compose sequences\<close>

record 'c ComposeState =
  compose_state :: 'c
  consumed_keys :: "nat set"
  last_composed_key :: "(nat \<times> nat) option"

definition new_ComposeState :: "'c \<Rightarrow> 'c ComposeState" where
  "new_ComposeState c = \<lparr>compose_state = c, consumed_keys = {}, last_composed_key = None\<rparr>"

definition compose_key_down :: "('m, 'x, 'c) Xkb \<Rightarrow> nat \<Rightarrow> 'c ComposeState \<Rightarrow> nat \<times> 'c ComposeState" where
  "compose_key_down xkb mapped_key cs =
     (let (accepted, c) = xkb_compose_state_feed xkb (compose_state cs) mapped_key;
          cs = cs\<lparr>compose_state := c\<rparr>
      in if \<not> accepted then (mapped_key, cs)
         else case xkb_compose_state_get_status xkb c of
           XKB_COMPOSE_COMPOSED \<Rightarrow>
             let composed_key_sym = xkb_compose_state_get_one_sym xkb c
             in (composed_key_sym, cs\<lparr>last_composed_key := Some (mapped_key, composed_key_sym)\<rparr>)
         | XKB_COMPOSE_COMPOSING \<Rightarrow> (XKB_KEY_NoSymbol, cs\<lparr>consumed_keys := insert mapped_key (consumed_keys cs)\<rparr>)
         | XKB_COMPOSE_CANCELLED \<Rightarrow> (XKB_KEY_NoSymbol, cs\<lparr>consumed_keys := insert mapped_key (consumed_keys cs)\<rparr>)
         | XKB_COMPOSE_NOTHING \<Rightarrow> (mapped_key, cs))"

definition compose_key_other :: "nat \<Rightarrow> MirKeyboardAction \<Rightarrow> 'c ComposeState \<Rightarrow> nat \<times> 'c ComposeState" where
  "compose_key_other mapped_key action cs =
     (case last_composed_key cs of
        Some (k, composed) \<Rightarrow>
          if mapped_key = k
          then (composed, if action = mir_keyboard_action_up then cs\<lparr>last_composed_key := None\<rparr> else cs)
          else if mapped_key \<in> consumed_keys cs
          then (XKB_KEY_NoSymbol, cs\<lparr>consumed_keys := consumed_keys cs - {mapped_key}\<rparr>)
          else (mapped_key, cs)
      | None \<Rightarrow>
          if mapped_key \<in> consumed_keys cs
          then (XKB_KEY_NoSymbol, cs\<lparr>consumed_keys := consumed_keys cs - {mapped_key}\<rparr>)
          else (mapped_key, cs))"

definition compose_update_state ::
  "('m, 'x, 'c) Xkb \<Rightarrow> nat \<Rightarrow> MirKeyboardAction \<Rightarrow> 'c ComposeState \<Rightarrow> nat \<times> 'c ComposeState" where
  "compose_update_state xkb mapped_key action cs =
     (if action = mir_keyboard_action_down then compose_key_down xkb mapped_key cs
      else compose_key_other mapped_key action cs)"

section \<open>The state of one keyboard\<close>

record ('m, 'x) XkbMappingState =
  ms_keymap :: 'm
  ms_state :: 'x
  ms_modifiers :: modifiers

definition new_XkbMappingState :: "('m, 'x, 'c) Xkb \<Rightarrow> 'm \<Rightarrow> ('m, 'x) XkbMappingState" where
  "new_XkbMappingState xkb km = \<lparr>ms_keymap = km, ms_state = xkb_state_new xkb km, ms_modifiers = 0\<rparr>"

definition ms_update_state ::
  "('m, 'x, 'c) Xkb \<Rightarrow> int \<Rightarrow> MirKeyboardAction \<Rightarrow> 'c ComposeState option \<Rightarrow> ('m, 'x) XkbMappingState \<Rightarrow>
     nat \<times> 'c ComposeState option \<times> ('m, 'x) XkbMappingState" where
  "ms_update_state xkb scan_code action compose ms =
     (let key_sym = xkb_state_key_get_one_sym xkb (ms_state ms) scan_code;
          mod_change = xkb_key_code_to_modifier key_sym;
          (key_sym, compose) =
            (case compose of
               None \<Rightarrow> (key_sym, None)
             | Some cs \<Rightarrow> let (k, cs) = compose_update_state xkb key_sym action cs in (k, Some cs));
          ms = (if action = mir_keyboard_action_up
                then ms\<lparr>ms_state := xkb_state_update_key xkb (ms_state ms) scan_code False,
                        ms_modifiers := ms_modifiers ms AND NOT mod_change\<rparr>
                else if action = mir_keyboard_action_down
                then ms\<lparr>ms_state := xkb_state_update_key xkb (ms_state ms) scan_code True,
                        ms_modifiers := ms_modifiers ms OR mod_change\<rparr>
                else ms)
      in (key_sym, compose, ms))"

definition ms_set_key_state ::
  "('m, 'x, 'c) Xkb \<Rightarrow> int list \<Rightarrow> ('m, 'x) XkbMappingState \<Rightarrow> ('m, 'x) XkbMappingState" where
  "ms_set_key_state xkb key_state ms =
     fold (\<lambda>scan_code ms. snd (snd (ms_update_state xkb (to_xkb_scan_code scan_code) mir_keyboard_action_down None ms)))
       key_state (ms\<lparr>ms_state := xkb_state_new xkb (ms_keymap ms), ms_modifiers := modifier_none\<rparr>)"

text \<open>The event, the compose state, the new state and whether the modifiers changed.\<close>

definition ms_update_and_map ::
  "('m, 'x, 'c) Xkb \<Rightarrow> KeyEvent \<Rightarrow> 'c ComposeState option \<Rightarrow> ('m, 'x) XkbMappingState \<Rightarrow>
     KeyEvent \<times> 'c ComposeState option \<times> ('m, 'x) XkbMappingState \<times> bool" where
  "ms_update_and_map xkb kev compose ms =
     (let old_state = ms_modifiers ms;
          (k, compose, ms) = ms_update_state xkb (to_xkb_scan_code (kev_scan_code kev)) (kev_action kev) compose ms
      in (kev\<lparr>kev_key_code := k, kev_modifiers := unat (expand_modifiers (ms_modifiers ms))\<rparr>, compose, ms,
          old_state \<noteq> ms_modifiers ms))"

section \<open>The mapper\<close>

record ('m, 'x, 'c) XKBMapper =
  default_keymap :: "'m option"
  modifier_state :: "modifiers option"
  device_mapping :: "(nat, ('m, 'x) XkbMappingState) std_map"
  device_composing :: "(nat, 'c ComposeState) std_map"

definition new_XKBMapper :: "('m, 'x, 'c) XKBMapper" where
  "new_XKBMapper = \<lparr>default_keymap = None, modifier_state = None, device_mapping = [], device_composing = []\<rparr>"

definition all_modifiers :: "(nat, ('m, 'x) XkbMappingState) std_map \<Rightarrow> modifiers" where
  "all_modifiers mapping = fold (\<lambda>e m. m OR ms_modifiers (snd e)) mapping 0"

definition update_modifier :: "('m, 'x, 'c) XKBMapper \<Rightarrow> ('m, 'x, 'c) XKBMapper" where
  "update_modifier xm =
     xm\<lparr>modifier_state := (if device_mapping xm = [] then None else Some (all_modifiers (device_mapping xm)))\<rparr>"

definition get_keymapping_state ::
  "('m, 'x, 'c) Xkb \<Rightarrow> nat \<Rightarrow> ('m, 'x, 'c) XKBMapper \<Rightarrow> ('m, 'x) XkbMappingState option \<times> ('m, 'x, 'c) XKBMapper" where
  "get_keymapping_state xkb i xm =
     (case map_of (device_mapping xm) i of
        Some ms \<Rightarrow> (Some ms, xm)
      | None \<Rightarrow>
          (case default_keymap xm of
             None \<Rightarrow> (None, xm)
           | Some km \<Rightarrow>
               let ms = new_XkbMappingState xkb km
               in (Some ms, xm\<lparr>device_mapping := map_put i ms (device_mapping xm)\<rparr>)))"

definition get_compose_state ::
  "('m, 'x, 'c) Xkb \<Rightarrow> nat \<Rightarrow> ('m, 'x, 'c) XKBMapper \<Rightarrow> 'c ComposeState option \<times> ('m, 'x, 'c) XKBMapper" where
  "get_compose_state xkb i xm =
     (case map_of (device_composing xm) i of
        Some cs \<Rightarrow> (Some cs, xm)
      | None \<Rightarrow>
          (case xkb_compose_state_new xkb of
             None \<Rightarrow> (None, xm)
           | Some c \<Rightarrow>
               let cs = new_ComposeState c
               in (Some cs, xm\<lparr>device_composing := map_put i cs (device_composing xm)\<rparr>)))"

definition mapper_set_key_state ::
  "('m, 'x, 'c) Xkb \<Rightarrow> nat \<Rightarrow> int list \<Rightarrow> ('m, 'x, 'c) XKBMapper \<Rightarrow> ('m, 'x, 'c) XKBMapper" where
  "mapper_set_key_state xkb i key_state xm =
     (case get_keymapping_state xkb i xm of
        (None, xm) \<Rightarrow> xm
      | (Some ms, xm) \<Rightarrow> xm\<lparr>device_mapping := map_put i (ms_set_key_state xkb key_state ms) (device_mapping xm)\<rparr>)"

definition map_key_event ::
  "('m, 'x, 'c) Xkb \<Rightarrow> KeyEvent \<Rightarrow> ('m, 'x, 'c) XKBMapper \<Rightarrow> KeyEvent \<times> ('m, 'x, 'c) XKBMapper" where
  "map_key_event xkb kev xm =
     (let i = kev_device kev
      in case get_keymapping_state xkb i xm of
           (None, xm) \<Rightarrow> (kev, xm)
         | (Some ms, xm) \<Rightarrow>
             let (compose, xm) = get_compose_state xkb i xm;
                 (kev, compose, ms, changed) = ms_update_and_map xkb kev compose ms;
                 xm = xm\<lparr>device_mapping := map_put i ms (device_mapping xm),
                         device_composing := (case compose of None \<Rightarrow> device_composing xm
                                              | Some cs \<Rightarrow> map_put i cs (device_composing xm))\<rparr>
             in (kev, if changed then update_modifier xm else xm))"

text \<open>\<open>modifiers()\<close>; other input events get their modifiers from the same place, if it is set.\<close>

definition mapper_modifiers :: "('m, 'x, 'c) XKBMapper \<Rightarrow> modifiers" where
  "mapper_modifiers xm =
     (case modifier_state xm of Some m \<Rightarrow> expand_modifiers m | None \<Rightarrow> modifier_none)"

definition map_other_modifiers :: "('m, 'x, 'c) XKBMapper \<Rightarrow> nat \<Rightarrow> nat" where
  "map_other_modifiers xm event_modifiers =
     (case modifier_state xm of Some m \<Rightarrow> unat (expand_modifiers m) | None \<Rightarrow> event_modifiers)"

text \<open>The keymap is compiled first, which fails for names that are no keymap.\<close>

definition set_keymap_for_all_devices :: "'m option \<Rightarrow> ('m, 'x, 'c) XKBMapper \<Rightarrow> (('m, 'x, 'c) XKBMapper, unit) outcome" where
  "set_keymap_for_all_devices compiled xm =
     (case compiled of
        None \<Rightarrow> (Inl (invalid_argument ''Illegal keymap configuration''), xm)
      | Some new_keymap \<Rightarrow> (Inr (), xm\<lparr>default_keymap := Some new_keymap, device_mapping := []\<rparr>))"

definition set_keymap_for_device ::
  "('m, 'x, 'c) Xkb \<Rightarrow> nat \<Rightarrow> 'm option \<Rightarrow> ('m, 'x, 'c) XKBMapper \<Rightarrow> (('m, 'x, 'c) XKBMapper, unit) outcome" where
  "set_keymap_for_device xkb i compiled xm =
     (case compiled of
        None \<Rightarrow> (Inl (invalid_argument ''Illegal keymap configuration''), xm)
      | Some new_keymap \<Rightarrow>
          (Inr (), xm\<lparr>device_mapping := map_put i (new_XkbMappingState xkb new_keymap) (map_erase i (device_mapping xm))\<rparr>))"

definition clear_all_keymaps :: "('m, 'x, 'c) XKBMapper \<Rightarrow> ('m, 'x, 'c) XKBMapper" where
  "clear_all_keymaps xm = update_modifier (xm\<lparr>default_keymap := None, device_mapping := []\<rparr>)"

definition clear_keymap_for_device :: "nat \<Rightarrow> ('m, 'x, 'c) XKBMapper \<Rightarrow> ('m, 'x, 'c) XKBMapper" where
  "clear_keymap_for_device i xm = update_modifier (xm\<lparr>device_mapping := map_erase i (device_mapping xm)\<rparr>)"

section \<open>The modifiers of all keyboards\<close>

lemma fold_or_acc: "fold (\<lambda>e m. m OR f e) es m = m OR fold (\<lambda>e m. m OR f e) es (0 :: modifiers)"
proof (induction es arbitrary: m)
  case (Cons e es)
  then have "fold (\<lambda>e m. m OR f e) es (m OR f e) = (m OR f e) OR fold (\<lambda>e m. m OR f e) es 0"
    "fold (\<lambda>e m. m OR f e) es (f e) = f e OR fold (\<lambda>e m. m OR f e) es 0" by blast+
  then show ?case by (simp add: or.assoc)
qed simp

lemma bit_fold_or: "bit (fold (\<lambda>e m. m OR f e) es (0 :: modifiers)) n \<longleftrightarrow> (\<exists>e \<in> set es. bit (f e) n)"
proof (induction es)
  case (Cons e es)
  have "fold (\<lambda>e m. m OR f e) (e # es) 0 = f e OR fold (\<lambda>e m. m OR f e) es 0"
    using fold_or_acc [of f es "f e"] by simp
  with Cons show ?case by (simp only: bit_or_iff) auto
qed simp

lemma bit_all_modifiers: "bit (all_modifiers mapping) n \<longleftrightarrow> (\<exists>e \<in> set mapping. bit (ms_modifiers (snd e)) n)"
  unfolding all_modifiers_def by (rule bit_fold_or)

text \<open>
  The modifiers are up to date: they are those that some keyboard has, and none without a keyboard.
\<close>

definition modifiers_current :: "('m, 'x, 'c) XKBMapper \<Rightarrow> bool" where
  "modifiers_current xm \<longleftrightarrow>
     ordered (device_mapping xm) \<and>
     (case modifier_state xm of None \<Rightarrow> 0 | Some m \<Rightarrow> m) = all_modifiers (device_mapping xm)"

lemma update_modifier_current [simp]: "ordered (device_mapping xm) \<Longrightarrow> modifiers_current (update_modifier xm)"
  by (simp add: modifiers_current_def update_modifier_def all_modifiers_def)

lemma mem_map_put: "ordered m \<Longrightarrow> e \<in> set (map_put k v m) \<longleftrightarrow> e = (k, v) \<or> (fst e \<noteq> k \<and> e \<in> set m)"
proof (cases e)
  case (Pair a b)
  assume "ordered m"
  then show ?thesis using ordered_map_of [of "map_put k v m" a b] ordered_map_of [of m a b] by (auto simp: Pair)
qed

lemma bex_map_put: "ordered m \<Longrightarrow> (\<exists>e \<in> set (map_put k v m). P e) \<longleftrightarrow> P (k, v) \<or> (\<exists>e \<in> set m. fst e \<noteq> k \<and> P e)"
  by (auto simp del: split_paired_Ex simp: Bex_def mem_map_put)

lemma all_modifiers_put:
  assumes "ordered mapping" and "case map_of mapping i of None \<Rightarrow> ms_modifiers ms = 0 | Some ms' \<Rightarrow> ms_modifiers ms = ms_modifiers ms'"
  shows "all_modifiers (map_put i ms mapping) = all_modifiers mapping"
proof (rule bit_word_eqI)
  fix n
  have "(\<exists>e \<in> set mapping. fst e = i \<and> bit (ms_modifiers (snd e)) n) \<longleftrightarrow> bit (ms_modifiers ms) n"
    using assms(2) ordered_map_of [OF assms(1), of i] by (cases "map_of mapping i") force+
  then show "bit (all_modifiers (map_put i ms mapping)) n \<longleftrightarrow> bit (all_modifiers mapping) n"
    by (simp only: bit_all_modifiers bex_map_put [OF assms(1)] snd_conv) blast
qed

lemma get_keymapping_state_current:
  assumes "modifiers_current xm" "get_keymapping_state xkb i xm = (r, xm')"
  shows "modifiers_current xm'" "r = map_of (device_mapping xm') i" "default_keymap xm' = default_keymap xm"
  using assms all_modifiers_put [where mapping = "device_mapping xm" and i = i]
  by (auto simp: get_keymapping_state_def modifiers_current_def new_XkbMappingState_def Let_def split: option.splits)

lemma get_compose_state_mapping [simp]:
  "device_mapping (snd (get_compose_state xkb i xm)) = device_mapping xm"
  "modifier_state (snd (get_compose_state xkb i xm)) = modifier_state xm"
  by (simp_all add: get_compose_state_def Let_def split: option.splits)

lemma map_key_event_current:
  assumes "modifiers_current xm"
  shows "modifiers_current (snd (map_key_event xkb kev xm))"
proof -
  obtain r xm1 where g: "get_keymapping_state xkb (kev_device kev) xm = (r, xm1)" by (cases "get_keymapping_state xkb (kev_device kev) xm")
  note c = get_keymapping_state_current [OF assms g]
  show ?thesis
  proof (cases r)
    case None
    then show ?thesis using c g by (simp add: map_key_event_def)
  next
    case (Some ms)
    obtain cmp xm2 where gc: "get_compose_state xkb (kev_device kev) xm1 = (cmp, xm2)" by (cases "get_compose_state xkb (kev_device kev) xm1")
    then have x2: "device_mapping xm2 = device_mapping xm1" "modifier_state xm2 = modifier_state xm1"
      using get_compose_state_mapping [of xkb "kev_device kev" xm1] by simp_all
    obtain kev' cmp' ms' ch where u: "ms_update_and_map xkb kev cmp ms = (kev', cmp', ms', ch)" by (metis prod_cases4)
    then have "\<not> ch \<Longrightarrow> ms_modifiers ms' = ms_modifiers ms"
      by (auto simp: ms_update_and_map_def Let_def split: prod.splits)
    then have "\<not> ch \<Longrightarrow> all_modifiers (map_put (kev_device kev) ms' (device_mapping xm1)) = all_modifiers (device_mapping xm1)"
      using c(1) c(2) [symmetric] Some by (intro all_modifiers_put) (auto simp: modifiers_current_def)
    then show ?thesis
      using c(1) g Some gc u x2
      by (cases ch) (simp_all add: map_key_event_def modifiers_current_def update_modifier_def all_modifiers_def Let_def)
  qed
qed

lemma clear_current:
  "modifiers_current (clear_all_keymaps xm)"
  "ordered (device_mapping xm) \<Longrightarrow> modifiers_current (clear_keymap_for_device i xm)"
  by (simp_all add: clear_all_keymaps_def clear_keymap_for_device_def)

text \<open>Changing a keymap forgets the keys of a keyboard, but not its modifiers; only without modifiers it is safe.\<close>

lemma set_keymap_for_all_current:
  "modifiers_current xm \<Longrightarrow> all_modifiers (device_mapping xm) = 0 \<Longrightarrow> modifiers_current (snd (set_keymap_for_all_devices km xm))"
  by (auto simp: modifiers_current_def set_keymap_for_all_devices_def all_modifiers_def split: option.split)

lemma set_keymap_for_device_current:
  assumes "modifiers_current xm" and "case map_of (device_mapping xm) i of None \<Rightarrow> True | Some ms \<Rightarrow> ms_modifiers ms = 0"
  shows "modifiers_current (snd (set_keymap_for_device xkb i km xm))"
proof (cases km)
  case None
  then show ?thesis using assms by (simp add: set_keymap_for_device_def)
next
  case (Some m)
  have o: "ordered (device_mapping xm)" using assms(1) by (simp add: modifiers_current_def)
  have "all_modifiers (map_put i (new_XkbMappingState xkb m) (map_erase i (device_mapping xm))) = all_modifiers (device_mapping xm)"
  proof (rule bit_word_eqI)
    fix n
    have "\<And>ms. (i, ms) \<in> set (device_mapping xm) \<Longrightarrow> ms_modifiers ms = 0" using assms(2) ordered_map_of [OF o] by auto
    then show "bit (all_modifiers (map_put i (new_XkbMappingState xkb m) (map_erase i (device_mapping xm)))) n \<longleftrightarrow>
        bit (all_modifiers (device_mapping xm)) n"
      by (simp only: bit_all_modifiers bex_map_put [OF ordered_erase [OF o]] snd_conv)
        (fastforce simp: map_erase_def new_XkbMappingState_def)
  qed
  then show ?thesis using assms(1) Some by (auto simp: set_keymap_for_device_def modifiers_current_def)
qed

text \<open>
  The runs in which the keymap of a keyboard is changed only while none of its modifier keys is held.
\<close>

inductive mapper_reachable :: "('m, 'x, 'c) Xkb \<Rightarrow> ('m, 'x, 'c) XKBMapper \<Rightarrow> bool" for xkb where
  start: "mapper_reachable xkb new_XKBMapper"
| key: "mapper_reachable xkb xm \<Longrightarrow> mapper_reachable xkb (snd (map_key_event xkb kev xm))"
| all_keymaps: "mapper_reachable xkb xm \<Longrightarrow> all_modifiers (device_mapping xm) = 0 \<Longrightarrow>
    mapper_reachable xkb (snd (set_keymap_for_all_devices km xm))"
| keymap: "mapper_reachable xkb xm \<Longrightarrow> (case map_of (device_mapping xm) i of None \<Rightarrow> True | Some ms \<Rightarrow> ms_modifiers ms = 0) \<Longrightarrow>
    mapper_reachable xkb (snd (set_keymap_for_device xkb i km xm))"
| clear_all: "mapper_reachable xkb xm \<Longrightarrow> mapper_reachable xkb (clear_all_keymaps xm)"
| clear: "mapper_reachable xkb xm \<Longrightarrow> mapper_reachable xkb (clear_keymap_for_device i xm)"

lemma mapper_reachable_current: "mapper_reachable xkb xm \<Longrightarrow> modifiers_current xm"
proof (induction rule: mapper_reachable.induct)
  case start
  then show ?case by (simp add: modifiers_current_def new_XKBMapper_def all_modifiers_def)
next
  case (clear xm i)
  then show ?case by (intro clear_current) (simp add: modifiers_current_def)
qed (simp_all add: map_key_event_current set_keymap_for_all_current set_keymap_for_device_current clear_current)

lemma and_power_bit: "(m :: modifiers) AND 2 ^ k \<noteq> 0 \<longleftrightarrow> bit m k"
  by (simp add: and_exp_eq_0_iff_not_bit)

lemma bit_add_either:
  assumes "l = 2 ^ a" "r = 2 ^ b" "c = 2 ^ k" "k < 32"
  shows "bit (add_either l r c m) n \<longleftrightarrow> bit m n \<or> (n = k \<and> (bit m a \<or> bit m b))"
  using assms(4) unfolding assms(1-3) add_either_def by (auto simp: and_power_bit bit_or_iff bit_exp_iff)

lemma expand_modifiers_bits:
  assumes "m \<noteq> 0"
  shows "bit (expand_modifiers m) n \<longleftrightarrow>
    bit m n \<or> (n = 1 \<and> (bit m 2 \<or> bit m 3)) \<or> (n = 9 \<and> (bit m 10 \<or> bit m 11)) \<or>
    (n = 4 \<and> (bit m 5 \<or> bit m 6)) \<or> (n = 12 \<and> (bit m 13 \<or> bit m 14))"
proof -
  have alt: "bit (add_either 4 8 2 m) n \<longleftrightarrow> bit m n \<or> (n = 1 \<and> (bit m 2 \<or> bit m 3))" for m n
    by (rule bit_add_either) simp_all
  have ctrl: "bit (add_either 1024 2048 512 m) n \<longleftrightarrow> bit m n \<or> (n = 9 \<and> (bit m 10 \<or> bit m 11))" for m n
    by (rule bit_add_either) simp_all
  have shift: "bit (add_either 32 64 16 m) n \<longleftrightarrow> bit m n \<or> (n = 4 \<and> (bit m 5 \<or> bit m 6))" for m n
    by (rule bit_add_either) simp_all
  have meta: "bit (add_either 8192 16384 4096 m) n \<longleftrightarrow> bit m n \<or> (n = 12 \<and> (bit m 13 \<or> bit m 14))" for m n
    by (rule bit_add_either) simp_all
  show ?thesis using assms by (auto simp add: expand_modifiers_def Let_def alt ctrl shift meta)
qed

text \<open>
  The modifiers the mapper reports are those of all its keyboards: a modifier key is reported exactly while
  some keyboard holds it, alt, ctrl, shift and meta are reported exactly when the left or right one is, and
  none is reported exactly when there is no other.
\<close>

theorem mapper_modifiers_union:
  assumes "mapper_reachable xkb xm" and held: "held = (\<lambda>n. \<exists>e \<in> set (device_mapping xm). bit (ms_modifiers (snd e)) n)"
  shows "if \<exists>n. held n
         then \<forall>n. bit (mapper_modifiers xm) n \<longleftrightarrow>
                held n \<or> (n = 1 \<and> (held 2 \<or> held 3)) \<or> (n = 9 \<and> (held 10 \<or> held 11)) \<or>
                (n = 4 \<and> (held 5 \<or> held 6)) \<or> (n = 12 \<and> (held 13 \<or> held 14))
         else mapper_modifiers xm = modifier_none"
proof -
  have cur: "modifiers_current xm" by (rule mapper_reachable_current [OF assms(1)])
  let ?a = "all_modifiers (device_mapping xm)"
  have h: "held n \<longleftrightarrow> bit ?a n" for n by (simp add: held bit_all_modifiers)
  have z: "(\<exists>n. held n) \<longleftrightarrow> ?a \<noteq> 0" using bit_word_eqI [of ?a 0] by (auto simp: h)
  have m: "mapper_modifiers xm = (if ?a = 0 then modifier_none else expand_modifiers ?a)"
    using cur by (auto simp: modifiers_current_def mapper_modifiers_def expand_modifiers_def split: option.splits)
  show ?thesis by (simp only: z m) (simp add: h expand_modifiers_bits)
qed

text \<open>
  A keymap that is set for all devices while a modifier key is held leaves that modifier behind: no keyboard has
  it any more, releasing the key does not take it back, and every pointer and touch event is sent with it.
\<close>

lemma new_state_unchanged:
  assumes "kev_action kev \<noteq> mir_keyboard_action_down"
    and "ms_update_and_map xkb kev cmp (new_XkbMappingState xkb km) = (kev', cmp', ms', changed)"
  shows "\<not> changed"
  using assms by (auto simp: ms_update_and_map_def ms_update_state_def new_XkbMappingState_def Let_def split: prod.splits if_splits)

theorem keymap_change_leaves_modifiers:
  assumes "kev_action kev \<noteq> mir_keyboard_action_down" and "set_keymap_for_all_devices (Some km) xm = (Inr (), xm1)"
  shows "all_modifiers (device_mapping xm1) = 0 \<and> mapper_modifiers xm1 = mapper_modifiers xm \<and>
         mapper_modifiers (snd (map_key_event xkb kev xm1)) = mapper_modifiers xm"
proof -
  let ?i = "kev_device kev" and ?ms = "new_XkbMappingState xkb km"
  have x1: "device_mapping xm1 = []" "modifier_state xm1 = modifier_state xm" "default_keymap xm1 = Some km"
    using assms(2) by (auto simp: set_keymap_for_all_devices_def)
  let ?xm2 = "xm1\<lparr>device_mapping := map_put ?i ?ms (device_mapping xm1)\<rparr>"
  obtain cmp xm3 where gc: "get_compose_state xkb ?i ?xm2 = (cmp, xm3)" by (cases "get_compose_state xkb ?i ?xm2")
  obtain kev' cmp' ms' ch where u: "ms_update_and_map xkb kev cmp ?ms = (kev', cmp', ms', ch)" by (metis prod_cases4)
  have "get_keymapping_state xkb ?i xm1 = (Some ?ms, ?xm2)" using x1 by (simp add: get_keymapping_state_def Let_def)
  moreover have "\<not> ch" by (rule new_state_unchanged [OF assms(1) u])
  moreover have "modifier_state xm3 = modifier_state xm"
    using get_compose_state_mapping(2) [of xkb ?i ?xm2] gc x1 by (simp del: get_compose_state_mapping)
  ultimately have "modifier_state (snd (map_key_event xkb kev xm1)) = modifier_state xm"
    using gc u by (simp add: map_key_event_def Let_def)
  then show ?thesis using x1 by (simp add: mapper_modifiers_def all_modifiers_def)
qed

section \<open>Compose sequences\<close>

text \<open>The events of the other keys between the press of a key and its release.\<close>

fun compose_run :: "('m, 'x, 'c) Xkb \<Rightarrow> (nat \<times> MirKeyboardAction) list \<Rightarrow> 'c ComposeState \<Rightarrow> 'c ComposeState" where
  "compose_run xkb [] cs = cs"
| "compose_run xkb ((k, action) # es) cs = compose_run xkb es (snd (compose_update_state xkb k action cs))"

definition completes :: "('m, 'x, 'c) Xkb \<Rightarrow> nat \<Rightarrow> 'c ComposeState \<Rightarrow> bool" where
  "completes xkb k cs \<longleftrightarrow>
     (let (accepted, c) = xkb_compose_state_feed xkb (compose_state cs) k
      in accepted \<and> xkb_compose_state_get_status xkb c = XKB_COMPOSE_COMPOSED)"

fun none_completes :: "('m, 'x, 'c) Xkb \<Rightarrow> (nat \<times> MirKeyboardAction) list \<Rightarrow> 'c ComposeState \<Rightarrow> bool" where
  "none_completes xkb [] cs \<longleftrightarrow> True"
| "none_completes xkb ((k, action) # es) cs \<longleftrightarrow>
     \<not> (action = mir_keyboard_action_down \<and> completes xkb k cs) \<and>
     none_completes xkb es (snd (compose_update_state xkb k action cs))"

definition composed_as :: "nat \<Rightarrow> 'c ComposeState \<Rightarrow> nat option" where
  "composed_as k cs = (case last_composed_key cs of Some (k', ks) \<Rightarrow> if k = k' then Some ks else None | None \<Rightarrow> None)"

lemma other_key_step:
  assumes "k' \<noteq> k" and "\<not> (action = mir_keyboard_action_down \<and> completes xkb k' cs)"
  shows "composed_as k (snd (compose_update_state xkb k' action cs)) = composed_as k cs"
    "k \<in> consumed_keys (snd (compose_update_state xkb k' action cs)) \<longleftrightarrow> k \<in> consumed_keys cs"
  using assms
  by (auto simp: compose_update_state_def compose_key_down_def compose_key_other_def completes_def composed_as_def Let_def
      split: prod.splits option.splits ComposeStatus.splits if_splits)

lemma other_keys_run:
  assumes "\<forall>e \<in> set es. fst e \<noteq> k" and "none_completes xkb es cs"
  shows "composed_as k (compose_run xkb es cs) = composed_as k cs \<and>
         (k \<in> consumed_keys (compose_run xkb es cs) \<longleftrightarrow> k \<in> consumed_keys cs)"
  using assms
proof (induction xkb es cs rule: compose_run.induct)
  case (2 xkb k' action es cs)
  then show ?case using other_key_step [of k' k action xkb cs] by simp
qed simp

text \<open>
  A key is released as it was pressed: when a key that is not held is pressed, as itself, as the end of a
  compose sequence or swallowed by one, then its release gives the same symbol, whatever other keys do in between
  short of completing another sequence.
\<close>

theorem key_released_as_pressed:
  assumes "k \<notin> consumed_keys cs" and "composed_as k cs = None"
    and "compose_update_state xkb k mir_keyboard_action_down cs = (ks, cs1)"
    and "\<forall>e \<in> set es. fst e \<noteq> k" and "none_completes xkb es cs1"
  shows "fst (compose_update_state xkb k mir_keyboard_action_up (compose_run xkb es cs1)) = ks"
proof -
  have "(composed_as k cs1 = Some ks) \<or> (composed_as k cs1 = None \<and> (if k \<in> consumed_keys cs1 then ks = XKB_KEY_NoSymbol else ks = k))"
    using assms(1-3)
    by (auto simp: compose_update_state_def compose_key_down_def composed_as_def Let_def split: prod.splits ComposeStatus.splits if_splits option.splits)
  with other_keys_run [OF assms(4,5)] show ?thesis
    by (auto simp: compose_update_state_def compose_key_other_def composed_as_def split: option.splits if_splits)
qed

text \<open>
  A key that a compose sequence has swallowed stays swallowed only until its first repeat: the repeat after that,
  and the release, have the symbol of the key itself.
\<close>

theorem swallowed_key_reappears:
  assumes "k \<in> consumed_keys cs" and "composed_as k cs = None"
  shows "\<exists>cs1. compose_update_state xkb k mir_keyboard_action_repeat cs = (XKB_KEY_NoSymbol, cs1) \<and>
           fst (compose_update_state xkb k mir_keyboard_action_repeat cs1) = k \<and>
           fst (compose_update_state xkb k mir_keyboard_action_up cs1) = k"
  using assms by (auto simp: compose_update_state_def compose_key_other_def composed_as_def split: option.splits if_splits)

section \<open>A keyboard\<close>

text \<open>A keymap with one modifier key (scan code 42), a dead key (scan code 40) and letters.\<close>

definition sample_xkb :: "(unit, unit, bool) Xkb" where
  "sample_xkb =
     \<lparr>xkb_state_new = (\<lambda>_. ()), xkb_state_key_get_one_sym = (\<lambda>_ k. if k = 50 then 65505 else nat k),
      xkb_state_update_key = (\<lambda>_ _ _. ()), xkb_compose_state_new = Some False,
      xkb_compose_state_feed = (\<lambda>c k. (True, \<not> c \<and> k = 48)),
      xkb_compose_state_get_status = (\<lambda>c. if c then XKB_COMPOSE_COMPOSING else XKB_COMPOSE_NOTHING),
      xkb_compose_state_get_one_sym = (\<lambda>_. 0)\<rparr>"

definition shift_key :: "MirKeyboardAction \<Rightarrow> KeyEvent" where
  "shift_key action = \<lparr>kev_device = 1, kev_time = 0, kev_cookie = [], kev_action = action, kev_key_code = 0,
     kev_scan_code = 42, kev_modifiers = 0\<rparr>"

definition shifted :: "(unit, unit, bool) XKBMapper" where
  "shifted = snd (map_key_event sample_xkb (shift_key mir_keyboard_action_down)
     (snd (set_keymap_for_all_devices (Some ()) new_XKBMapper)))"

lemma shifted_state:
  "modifier_state shifted = Some modifier_shift_left"
  "device_mapping shifted = [(1, \<lparr>ms_keymap = (), ms_state = (), ms_modifiers = modifier_shift_left\<rparr>)]"
  by (simp_all add: shifted_def map_key_event_def set_keymap_for_all_devices_def new_XKBMapper_def get_keymapping_state_def
      get_compose_state_def sample_xkb_def shift_key_def ms_update_and_map_def ms_update_state_def new_XkbMappingState_def
      to_xkb_scan_code_def xkb_key_code_to_modifier_def update_modifier_def all_modifiers_def new_ComposeState_def
      compose_update_state_def compose_key_down_def Let_def)

theorem mapper_modifiers_union_witness: "bit (mapper_modifiers shifted) 4 \<and> bit (mapper_modifiers shifted) 5"
proof -
  have "mapper_reachable sample_xkb shifted"
    unfolding shifted_def
    by (intro mapper_reachable.key mapper_reachable.all_keymaps mapper_reachable.start)
      (simp add: new_XKBMapper_def all_modifiers_def)
  moreover have "bit (32 :: modifiers) n \<longleftrightarrow> n = 5" for n using bit_exp_iff [of 5 n, where ?'a = "32 word"] by auto
  ultimately show ?thesis using mapper_modifiers_union [of sample_xkb shifted, OF _ refl] by (auto simp: shifted_state split: if_splits)
qed

theorem keymap_change_leaves_modifiers_witness:
  "\<exists>xm. mapper_modifiers (snd (map_key_event sample_xkb (shift_key mir_keyboard_action_up) xm)) = 48 \<and> device_mapping xm = []"
proof -
  let ?xm = "shifted\<lparr>default_keymap := Some (), device_mapping := []\<rparr>"
  have "mapper_modifiers shifted = 48"
    by (simp add: mapper_modifiers_def shifted_state expand_modifiers_def add_either_def)
  then show ?thesis
    using keymap_change_leaves_modifiers [of "shift_key mir_keyboard_action_up" "()" shifted ?xm sample_xkb]
    by (intro exI [of _ ?xm]) (simp add: shift_key_def set_keymap_for_all_devices_def)
qed

theorem key_released_as_pressed_witness:
  "fst (compose_update_state sample_xkb 48 mir_keyboard_action_up
     (compose_run sample_xkb [(30, mir_keyboard_action_down)]
       (snd (compose_update_state sample_xkb 48 mir_keyboard_action_down (new_ComposeState False))))) = XKB_KEY_NoSymbol"
  using key_released_as_pressed [of 48 "new_ComposeState False" sample_xkb _ _ "[(30, mir_keyboard_action_down)]"]
  by (simp add: new_ComposeState_def composed_as_def compose_update_state_def compose_key_down_def sample_xkb_def completes_def)

theorem swallowed_key_reappears_witness:
  "fst (compose_update_state sample_xkb 48 mir_keyboard_action_up
     (snd (compose_update_state sample_xkb 48 mir_keyboard_action_repeat ((new_ComposeState False)\<lparr>consumed_keys := {48}\<rparr>)))) = 48"
  using swallowed_key_reappears [of 48 "(new_ComposeState False)\<lparr>consumed_keys := {48}\<rparr>" sample_xkb]
  by (auto simp: new_ComposeState_def composed_as_def)

end
