(* ===== verification/Input_Seat.thy ===== *)
theory Input_Seat
  imports Key_Mapping Input_Validator Geometry
begin

unbundle bit_operations_syntax

text \<open>
  The seat: \<open>input::SeatInputDeviceTracker\<close> (\<^verbatim>\<open>src/server/input/seat_input_device_tracker.cpp\<close>) behind
  \<open>BasicSeat\<close> (\<^verbatim>\<open>basic_seat.cpp\<close>), with the region of the displays (\<^verbatim>\<open>display_input_region.cpp\<close>).  It
  drops key events that make no sense, keeps the buttons, touch spots and keys of every device and the cursor
  position, and passes the events on.  What it tells the dispatcher, the touch visualiser and the cursor listener is
  a log; the seat observers only report and are left out.

  The cursor is kept in single precision: \<open>fl\<close> is the rounding of the machine, of which the lemmas use only that it
  is exact on integers of at most \<open>2^24\<close>.  The devices are visited in the order of their identifiers; in C++ the order
  is unspecified.
\<close>

section \<open>Events and state\<close>

record PointerEvent =
  pev_device :: nat
  pev_time :: int
  pev_cookie :: "nat list"
  pev_modifiers :: nat
  pev_action :: MirPointerAction
  pev_buttons :: "32 word"
  pev_x :: rat
  pev_y :: rat
  pev_hscroll :: rat
  pev_vscroll :: rat
  pev_relative_x :: rat
  pev_relative_y :: rat

datatype SeatEvent = Key_input KeyEvent | Touch_input TouchEvent | Pointer_input PointerEvent | Not_input nat

record Spot =
  touch_location :: Point
  spot_pressure :: int

record DeviceData =
  dd_buttons :: "32 word"
  dd_spots :: "Spot list"
  dd_scan_codes :: "int list"

datatype SeatOutput = Seat_dispatch SeatEvent | Visualize_touches "Spot list" | Cursor_moved_to rat rat

record ('m, 'x, 'c) Seat =
  cursor_x :: rat
  cursor_y :: rat
  seat_buttons :: "32 word"
  device_data :: "(nat, DeviceData) std_map"
  seat_spots :: "Spot list"
  confined_region :: Rectangles
  input_region :: Rectangles
  key_mapper :: "('m, 'x, 'c) XKBMapper"
  seat_log :: "SeatOutput list"

definition new_Seat :: "('m, 'x, 'c) Seat" where
  "new_Seat = \<lparr>cursor_x = 0, cursor_y = 0, seat_buttons = 0, device_data = [], seat_spots = [], confined_region = [],
     input_region = [], key_mapper = new_XKBMapper, seat_log = []\<rparr>"

definition seat_output :: "SeatOutput \<Rightarrow> ('m, 'x, 'c) Seat \<Rightarrow> ('m, 'x, 'c) Seat" where
  "seat_output out seat = seat\<lparr>seat_log := seat_log seat @ [out]\<rparr>"

section \<open>The displays\<close>

definition set_input_rectangles :: "Rectangles \<Rightarrow> ('m, 'x, 'c) Seat \<Rightarrow> ('m, 'x, 'c) Seat" where
  "set_input_rectangles config seat = seat\<lparr>input_region := config\<rparr>"

definition region_bounding_rectangle :: "('m, 'x, 'c) Seat \<Rightarrow> Rectangle" where
  "region_bounding_rectangle seat = (case input_region seat of [] \<Rightarrow> default_rectangle | r # _ \<Rightarrow> r)"

section \<open>Devices\<close>

definition new_DeviceData :: DeviceData where
  "new_DeviceData = \<lparr>dd_buttons = 0, dd_spots = [], dd_scan_codes = []\<rparr>"

definition update_button_state :: "32 word \<Rightarrow> DeviceData \<Rightarrow> bool \<times> DeviceData" where
  "update_button_state button_state d =
     (if dd_buttons d = button_state then (False, d) else (True, d\<lparr>dd_buttons := button_state\<rparr>))"

definition update_device_spots :: "TouchEvent \<Rightarrow> DeviceData \<Rightarrow> DeviceData" where
  "update_device_spots ev d =
     d\<lparr>dd_spots := map (\<lambda>c. \<lparr>touch_location = mk_point (contact_x c) (contact_y c), spot_pressure = pressure c\<rparr>)
                    (filter (\<lambda>c. contact_action c \<noteq> mir_touch_action_up) (tev_contacts ev))\<rparr>"

definition update_scan_codes :: "KeyEvent \<Rightarrow> DeviceData \<Rightarrow> DeviceData" where
  "update_scan_codes ev d =
     (if kev_action ev = mir_keyboard_action_down then d\<lparr>dd_scan_codes := dd_scan_codes d @ [kev_scan_code ev]\<rparr>
      else if kev_action ev = mir_keyboard_action_up
      then d\<lparr>dd_scan_codes := filter (\<lambda>c. c \<noteq> kev_scan_code ev) (dd_scan_codes d)\<rparr>
      else d)"

definition allowed_scan_code_action :: "KeyEvent \<Rightarrow> DeviceData \<Rightarrow> bool" where
  "allowed_scan_code_action ev d \<longleftrightarrow>
     (let found = kev_scan_code ev \<in> set (dd_scan_codes d)
      in (kev_action ev = mir_keyboard_action_down \<and> \<not> found) \<or> (kev_action ev \<noteq> mir_keyboard_action_down \<and> found))"

definition update_spots :: "('m, 'x, 'c) Seat \<Rightarrow> ('m, 'x, 'c) Seat" where
  "update_spots seat =
     (let spots = concat (map (dd_spots \<circ> snd) (device_data seat))
      in seat_output (Visualize_touches spots) (seat\<lparr>seat_spots := spots\<rparr>))"

definition update_states :: "('m, 'x, 'c) Seat \<Rightarrow> ('m, 'x, 'c) Seat" where
  "update_states seat = seat\<lparr>seat_buttons := fold (\<lambda>item acc. acc OR dd_buttons (snd item)) (device_data seat) 0\<rparr>"

definition seat_add_device :: "nat \<Rightarrow> ('m, 'x, 'c) Seat \<Rightarrow> ('m, 'x, 'c) Seat" where
  "seat_add_device i seat =
     (case map_of (device_data seat) i of
        Some _ \<Rightarrow> seat
      | None \<Rightarrow> seat\<lparr>device_data := map_put i new_DeviceData (device_data seat)\<rparr>)"

definition seat_remove_device :: "nat \<Rightarrow> ('m, 'x, 'c) Seat \<Rightarrow> (('m, 'x, 'c) Seat, unit) outcome" where
  "seat_remove_device i seat =
     (case map_of (device_data seat) i of
        None \<Rightarrow> (Inl (logic_error ''Modifier for unknown device changed''), seat)
      | Some d \<Rightarrow>
          let seat = seat\<lparr>device_data := map_erase i (device_data seat),
                          key_mapper := clear_keymap_for_device i (key_mapper seat)\<rparr>;
              seat = (if dd_buttons d \<noteq> 0 then update_states seat else seat)
          in (Inr (), if dd_spots d \<noteq> [] then update_spots seat else seat))"

section \<open>The cursor\<close>

text \<open>\<open>static_cast<int>(float)\<close>.\<close>

definition truncate_rat :: "rat \<Rightarrow> int" where
  "truncate_rat v = (if 0 \<le> v then \<lfloor>v\<rfloor> else \<lceil>v\<rceil>)"

definition cursor_position :: "('m, 'x, 'c) Seat \<Rightarrow> Point" where
  "cursor_position seat = mk_point (truncate_rat (cursor_x seat)) (truncate_rat (cursor_y seat))"

definition confine_function :: "('m, 'x, 'c) Seat \<Rightarrow> Point \<Rightarrow> Point" where
  "confine_function seat p = confine (confined_region seat) (confine (input_region seat) p)"

definition confine_pointer :: "(rat \<Rightarrow> rat) \<Rightarrow> ('m, 'x, 'c) Seat \<Rightarrow> ('m, 'x, 'c) Seat" where
  "confine_pointer fl seat =
     (let old = cursor_position seat;
          confd = confine_function seat old
      in seat\<lparr>cursor_x := (if pt_x confd \<noteq> pt_x old then fl (of_int (pt_x confd)) else cursor_x seat),
              cursor_y := (if pt_y confd \<noteq> pt_y old then fl (of_int (pt_y confd)) else cursor_y seat)\<rparr>)"

definition update_cursor :: "(rat \<Rightarrow> rat) \<Rightarrow> PointerEvent \<Rightarrow> ('m, 'x, 'c) Seat \<Rightarrow> ('m, 'x, 'c) Seat" where
  "update_cursor fl ev seat =
     (let seat = seat\<lparr>cursor_x := fl (cursor_x seat + pev_relative_x ev), cursor_y := fl (cursor_y seat + pev_relative_y ev)\<rparr>;
          seat = confine_pointer fl seat
      in seat_output (Cursor_moved_to (cursor_x seat) (cursor_y seat)) seat)"

definition seat_set_confinement_regions :: "Rectangles \<Rightarrow> ('m, 'x, 'c) Seat \<Rightarrow> ('m, 'x, 'c) Seat" where
  "seat_set_confinement_regions regions seat = seat\<lparr>confined_region := regions\<rparr>"

definition seat_reset_confinement_regions :: "('m, 'x, 'c) Seat \<Rightarrow> ('m, 'x, 'c) Seat" where
  "seat_reset_confinement_regions seat = seat\<lparr>confined_region := []\<rparr>"

section \<open>Events\<close>

definition put_device :: "nat \<Rightarrow> DeviceData \<Rightarrow> ('m, 'x, 'c) Seat \<Rightarrow> ('m, 'x, 'c) Seat" where
  "put_device i d seat = seat\<lparr>device_data := map_put i d (device_data seat)\<rparr>"

fun event_device :: "SeatEvent \<Rightarrow> nat option" where
  "event_device (Key_input ev) = Some (kev_device ev)"
| "event_device (Touch_input ev) = Some (tev_device ev)"
| "event_device (Pointer_input ev) = Some (pev_device ev)"
| "event_device (Not_input n) = None"

definition filter_input_event :: "SeatEvent \<Rightarrow> ('m, 'x, 'c) Seat \<Rightarrow> bool" where
  "filter_input_event ev seat \<longleftrightarrow>
     (case ev of
        Key_input kev \<Rightarrow>
          (case map_of (device_data seat) (kev_device kev) of
             None \<Rightarrow> True
           | Some d \<Rightarrow> \<not> allowed_scan_code_action kev d)
      | _ \<Rightarrow> False)"

definition update_seat_properties :: "(rat \<Rightarrow> rat) \<Rightarrow> SeatEvent \<Rightarrow> ('m, 'x, 'c) Seat \<Rightarrow> (('m, 'x, 'c) Seat, unit) outcome" where
  "update_seat_properties fl ev seat =
     (case event_device ev of
        None \<Rightarrow> (Inr (), seat)
      | Some i \<Rightarrow>
          (case map_of (device_data seat) i of
             None \<Rightarrow> (Inl (logic_error ''Event of unknown device received''), seat)
           | Some d \<Rightarrow>
               (Inr (),
                case ev of
                  Key_input kev \<Rightarrow> put_device i (update_scan_codes kev d) seat
                | Touch_input tev \<Rightarrow> update_spots (put_device i (update_device_spots tev d) seat)
                | Pointer_input pev \<Rightarrow>
                    let seat = update_cursor fl pev seat;
                        (changed, d) = update_button_state (pev_buttons pev) d;
                        seat = put_device i d seat
                    in if changed then update_states seat else seat
                | Not_input n \<Rightarrow> seat)))"

definition seat_map_event ::
  "('m, 'x, 'c) Xkb \<Rightarrow> SeatEvent \<Rightarrow> ('m, 'x, 'c) Seat \<Rightarrow> SeatEvent \<times> ('m, 'x, 'c) Seat" where
  "seat_map_event xkb ev seat =
     (case ev of
        Key_input kev \<Rightarrow>
          let (kev, xm) = map_key_event xkb kev (key_mapper seat) in (Key_input kev, seat\<lparr>key_mapper := xm\<rparr>)
      | Touch_input tev \<Rightarrow> (Touch_input (tev\<lparr>tev_modifiers := map_other_modifiers (key_mapper seat) (tev_modifiers tev)\<rparr>), seat)
      | Pointer_input pev \<Rightarrow> (Pointer_input (pev\<lparr>pev_modifiers := map_other_modifiers (key_mapper seat) (pev_modifiers pev)\<rparr>), seat)
      | Not_input n \<Rightarrow> (ev, seat))"

definition with_cursor :: "('m, 'x, 'c) Seat \<Rightarrow> SeatEvent \<Rightarrow> SeatEvent" where
  "with_cursor seat ev =
     (case ev of
        Pointer_input pev \<Rightarrow>
          Pointer_input (pev\<lparr>pev_x := cursor_x seat, pev_y := cursor_y seat, pev_buttons := seat_buttons seat\<rparr>)
      | _ \<Rightarrow> ev)"

definition seat_dispatch_event ::
  "('m, 'x, 'c) Xkb \<Rightarrow> (rat \<Rightarrow> rat) \<Rightarrow> SeatEvent \<Rightarrow> ('m, 'x, 'c) Seat \<Rightarrow> (('m, 'x, 'c) Seat, unit) outcome" where
  "seat_dispatch_event xkb fl ev seat =
     (if event_device ev \<noteq> None \<and> filter_input_event ev seat then (Inr (), seat)
      else and_then (update_seat_properties fl ev seat)
             (\<lambda>_ seat. let (ev, seat) = seat_map_event xkb ev seat
                        in (Inr (), seat_output (Seat_dispatch (with_cursor seat ev)) seat)))"

definition create_device_state ::
  "('m, 'x, 'c) Seat \<Rightarrow> 32 word \<times> modifiers \<times> rat \<times> rat \<times> (nat \<times> int list \<times> 32 word) list" where
  "create_device_state seat =
     (seat_buttons seat, mapper_modifiers (key_mapper seat), cursor_x seat, cursor_y seat,
      map (\<lambda>(i, d). (i, dd_scan_codes d, dd_buttons d)) (device_data seat))"

definition seat_set_key_state ::
  "('m, 'x, 'c) Xkb \<Rightarrow> nat \<Rightarrow> int list \<Rightarrow> ('m, 'x, 'c) Seat \<Rightarrow> ('m, 'x, 'c) Seat" where
  "seat_set_key_state xkb i scan_codes seat =
     (let seat = seat\<lparr>key_mapper := mapper_set_key_state xkb i scan_codes (key_mapper seat)\<rparr>
      in case map_of (device_data seat) i of
           None \<Rightarrow> seat
         | Some d \<Rightarrow> put_device i (d\<lparr>dd_scan_codes := scan_codes\<rparr>) seat)"

definition seat_set_pointer_state :: "nat \<Rightarrow> 32 word \<Rightarrow> ('m, 'x, 'c) Seat \<Rightarrow> ('m, 'x, 'c) Seat" where
  "seat_set_pointer_state i buttons seat =
     (case map_of (device_data seat) i of
        None \<Rightarrow> seat
      | Some d \<Rightarrow> put_device i (snd (update_button_state buttons d)) seat)"

definition seat_set_cursor_position :: "rat \<Rightarrow> rat \<Rightarrow> ('m, 'x, 'c) Seat \<Rightarrow> ('m, 'x, 'c) Seat" where
  "seat_set_cursor_position x y seat = seat\<lparr>cursor_x := x, cursor_y := y\<rparr>"

section \<open>What the seat knows of its devices\<close>

definition seat_ok :: "('m, 'x, 'c) Seat \<Rightarrow> bool" where
  "seat_ok seat \<longleftrightarrow>
     ordered (device_data seat) \<and>
     (\<forall>n. bit (seat_buttons seat) n \<longleftrightarrow> (\<exists>e \<in> set (device_data seat). bit (dd_buttons (snd e)) n)) \<and>
     seat_spots seat = concat (map (dd_spots \<circ> snd) (device_data seat))"

lemma update_states_buttons [simp]:
  "bit (seat_buttons (update_states seat)) n \<longleftrightarrow> (\<exists>e \<in> set (device_data seat). bit (dd_buttons (snd e)) n)"
  "device_data (update_states seat) = device_data seat" "seat_spots (update_states seat) = seat_spots seat"
  "seat_log (update_states seat) = seat_log seat" "cursor_x (update_states seat) = cursor_x seat"
  "cursor_y (update_states seat) = cursor_y seat"
  using bit_fold_or [of "\<lambda>e. dd_buttons (snd e)" "device_data seat" n] by (simp_all add: update_states_def)

lemma update_spots_fields [simp]:
  "seat_spots (update_spots seat) = concat (map (dd_spots \<circ> snd) (device_data seat))"
  "device_data (update_spots seat) = device_data seat" "seat_buttons (update_spots seat) = seat_buttons seat"
  by (simp_all add: update_spots_def seat_output_def Let_def)

lemma update_cursor_fields [simp]:
  "device_data (update_cursor fl ev seat) = device_data seat" "seat_buttons (update_cursor fl ev seat) = seat_buttons seat"
  "seat_spots (update_cursor fl ev seat) = seat_spots seat" "key_mapper (update_cursor fl ev seat) = key_mapper seat"
  by (simp_all add: update_cursor_def confine_pointer_def seat_output_def Let_def)

lemma put_device_fields [simp]:
  "device_data (put_device i d seat) = map_put i d (device_data seat)" "seat_buttons (put_device i d seat) = seat_buttons seat"
  "seat_spots (put_device i d seat) = seat_spots seat" "seat_log (put_device i d seat) = seat_log seat"
  "cursor_x (put_device i d seat) = cursor_x seat" "cursor_y (put_device i d seat) = cursor_y seat"
  "key_mapper (put_device i d seat) = key_mapper seat"
  by (simp_all add: put_device_def)

text \<open>A device's data may be replaced by data that differ only in what the seat does not collect.\<close>

lemma bex_put_same:
  assumes "ordered m" "map_of m i = Some d" "P (i, d') = P (i, d)"
  shows "(\<exists>e \<in> set (map_put i d' m). P e) \<longleftrightarrow> (\<exists>e \<in> set m. P e)"
proof -
  have d: "e \<in> set m \<and> fst e = i \<longleftrightarrow> e = (i, d)" for e
    using assms(2) ordered_map_of [OF assms(1), of i] by (cases e) auto
  have "(\<exists>e \<in> set m. P e) \<longleftrightarrow> (\<exists>e. (e \<in> set m \<and> fst e = i) \<and> P e) \<or> (\<exists>e \<in> set m. fst e \<noteq> i \<and> P e)" by blast
  also have "\<dots> \<longleftrightarrow> P (i, d) \<or> (\<exists>e \<in> set m. fst e \<noteq> i \<and> P e)" by (simp only: d) blast
  finally show ?thesis using assms(3) by (simp only: bex_map_put [OF assms(1)])
qed

lemma concat_put_same:
  "ordered m \<Longrightarrow> map_of m i = Some d \<Longrightarrow> f d' = f d \<Longrightarrow> concat (map (f \<circ> snd) (map_put i d' m)) = concat (map (f \<circ> snd) m)"
proof (induction i d' m rule: map_put.induct)
  case (2 k v k' v' m)
  have "k < k' \<Longrightarrow> map_of m k = None"
    using "2.prems"(1) by (fastforce simp: ordered_def map_of_eq_None_iff)
  then show ?case using 2 by (auto simp: ordered_def split: if_splits)
qed simp

lemma seat_ok_put:
  assumes "seat_ok seat" "map_of (device_data seat) i = Some d" "dd_buttons d' = dd_buttons d" "dd_spots d' = dd_spots d"
  shows "seat_ok (put_device i d' seat)"
  using assms bex_put_same [of "device_data seat" i d "\<lambda>e. bit (dd_buttons (snd e)) _" d'] concat_put_same [of "device_data seat" i d dd_spots d']
  by (simp add: seat_ok_def)

lemma seat_ok_cong:
  "seat_ok seat \<Longrightarrow> device_data seat' = device_data seat \<Longrightarrow> seat_buttons seat' = seat_buttons seat \<Longrightarrow>
   seat_spots seat' = seat_spots seat \<Longrightarrow> seat_ok seat'"
  by (simp add: seat_ok_def)

lemma seat_ok_update_properties:
  assumes "seat_ok seat"
  shows "seat_ok (snd (update_seat_properties fl ev seat))"
proof (cases "event_device ev")
  case None
  then show ?thesis using assms by (simp add: update_seat_properties_def)
next
  case (Some i)
  note dev = Some
  show ?thesis
  proof (cases "map_of (device_data seat) i")
    case None
    then show ?thesis using assms dev by (simp add: update_seat_properties_def)
  next
    case (Some d)
    have o: "ordered (device_data seat)" using assms by (simp add: seat_ok_def)
    show ?thesis
    proof (cases ev)
      case (Key_input kev)
      then show ?thesis
        using Some dev seat_ok_put [OF assms Some, of "update_scan_codes kev d"]
        by (simp add: update_seat_properties_def update_scan_codes_def)
    next
      case (Touch_input tev)
      have "seat_ok (update_spots (put_device i (update_device_spots tev d) seat))"
        using assms o bex_put_same [OF o Some, of "\<lambda>e. bit (dd_buttons (snd e)) _" "update_device_spots tev d"]
        by (simp add: seat_ok_def update_device_spots_def)
      then show ?thesis using Some dev Touch_input by (simp add: update_seat_properties_def)
    next
      case (Pointer_input pev)
      let ?s = "update_cursor fl pev seat"
      have s: "seat_ok ?s" by (rule seat_ok_cong [OF assms]) simp_all
      have "seat_ok (put_device i d ?s)" by (rule seat_ok_put [OF s]) (simp_all add: Some)
      moreover have "seat_ok (update_states (put_device i (d\<lparr>dd_buttons := pev_buttons pev\<rparr>) ?s))"
        using s o concat_put_same [of "device_data seat" i d dd_spots "d\<lparr>dd_buttons := pev_buttons pev\<rparr>"] Some
        by (simp add: seat_ok_def)
      ultimately show ?thesis
        using Some dev Pointer_input by (simp add: update_seat_properties_def update_button_state_def Let_def)
    qed (use dev in simp)
  qed
qed

lemma seat_map_event_fields:
  "seat_map_event xkb ev seat = (ev', seat') \<Longrightarrow>
     device_data seat' = device_data seat \<and> seat_buttons seat' = seat_buttons seat \<and> seat_spots seat' = seat_spots seat \<and>
     cursor_x seat' = cursor_x seat \<and> cursor_y seat' = cursor_y seat \<and> seat_log seat' = seat_log seat"
  by (auto simp: seat_map_event_def split: SeatEvent.splits prod.splits)

lemma seat_ok_dispatch:
  assumes "seat_ok seat"
  shows "seat_ok (snd (seat_dispatch_event xkb fl ev seat))"
proof -
  have u: "seat_ok (snd (update_seat_properties fl ev seat))" by (rule seat_ok_update_properties [OF assms])
  obtain r s where rs: "update_seat_properties fl ev seat = (r, s)" by (cases "update_seat_properties fl ev seat")
  obtain ev' s' where m: "seat_map_event xkb ev s = (ev', s')" by (cases "seat_map_event xkb ev s")
  have "seat_ok (seat_output out s')" for out
    using u rs seat_map_event_fields [OF m] by (simp add: seat_ok_def seat_output_def)
  then show ?thesis using assms u rs m by (cases r) (auto simp: seat_dispatch_event_def)
qed

lemma seat_ok_add: "seat_ok seat \<Longrightarrow> seat_ok (seat_add_device i seat)"
proof (cases "map_of (device_data seat) i")
  case None
  assume ok: "seat_ok seat"
  then have o: "ordered (device_data seat)" by (simp add: seat_ok_def)
  have "\<And>d. (i, d) \<notin> set (device_data seat)" using None ordered_map_of [OF o] by simp
  then have "(\<exists>e \<in> set (map_put i new_DeviceData (device_data seat)). bit (dd_buttons (snd e)) n) \<longleftrightarrow>
      (\<exists>e \<in> set (device_data seat). bit (dd_buttons (snd e)) n)" for n
    by (simp only: bex_map_put [OF o]) (fastforce simp: new_DeviceData_def)
  moreover have "concat (map (dd_spots \<circ> snd) (map_put i new_DeviceData m)) = concat (map (dd_spots \<circ> snd) m)"
    if "map_of m i = None" for m
    using that by (induction i new_DeviceData m rule: map_put.induct) (auto simp: new_DeviceData_def split: if_splits)
  ultimately show ?thesis using ok None by (simp add: seat_add_device_def seat_ok_def)
qed (simp add: seat_add_device_def)

lemma seat_ok_remove: "seat_ok seat \<Longrightarrow> seat_ok (snd (seat_remove_device i seat))"
proof (cases "map_of (device_data seat) i")
  case (Some d)
  assume ok: "seat_ok seat"
  then have o: "ordered (device_data seat)" by (simp add: seat_ok_def)
  have d: "\<And>x. (i, x) \<in> set (device_data seat) \<longleftrightarrow> x = d" using Some ordered_map_of [OF o] by auto
  have b: "dd_buttons d = 0 \<Longrightarrow> (\<exists>e \<in> set (map_erase i (device_data seat)). bit (dd_buttons (snd e)) n) \<longleftrightarrow>
      (\<exists>e \<in> set (device_data seat). bit (dd_buttons (snd e)) n)" for n
    using d by (fastforce simp: map_erase_def)
  have s: "concat (map (dd_spots \<circ> snd) (filter (\<lambda>e. fst e \<noteq> i) m)) = concat (map (dd_spots \<circ> snd) m)"
    if "\<And>x. (i, x) \<in> set m \<Longrightarrow> dd_spots x = []" for m
    using that
  proof (induction m)
    case (Cons e m)
    then show ?case by (cases e) (auto simp: Cons.IH)
  qed simp
  have "dd_spots d = [] \<Longrightarrow> concat (map (dd_spots \<circ> snd) (map_erase i (device_data seat))) = concat (map (dd_spots \<circ> snd) (device_data seat))"
    using d s [of "device_data seat"] by (simp add: map_erase_def)
  then show ?thesis using ok o b Some by (auto simp: seat_remove_device_def seat_ok_def Let_def)
qed (simp add: seat_remove_device_def)

text \<open>The runs of a seat in which nobody calls \<open>set_pointer_state\<close>.\<close>

inductive seat_reachable :: "('m, 'x, 'c) Xkb \<Rightarrow> (rat \<Rightarrow> rat) \<Rightarrow> ('m, 'x, 'c) Seat \<Rightarrow> bool" for xkb fl where
  start: "seat_reachable xkb fl new_Seat"
| add_device: "seat_reachable xkb fl seat \<Longrightarrow> seat_reachable xkb fl (seat_add_device i seat)"
| remove_device: "seat_reachable xkb fl seat \<Longrightarrow> seat_reachable xkb fl (snd (seat_remove_device i seat))"
| dispatch: "seat_reachable xkb fl seat \<Longrightarrow> seat_reachable xkb fl (snd (seat_dispatch_event xkb fl ev seat))"
| set_key_state: "seat_reachable xkb fl seat \<Longrightarrow> seat_reachable xkb fl (seat_set_key_state xkb i scan_codes seat)"
| set_cursor: "seat_reachable xkb fl seat \<Longrightarrow> seat_reachable xkb fl (seat_set_cursor_position x y seat)"
| set_confinement: "seat_reachable xkb fl seat \<Longrightarrow> seat_reachable xkb fl (seat_set_confinement_regions rs seat)"
| reset_confinement: "seat_reachable xkb fl seat \<Longrightarrow> seat_reachable xkb fl (seat_reset_confinement_regions seat)"
| displays: "seat_reachable xkb fl seat \<Longrightarrow> seat_reachable xkb fl (set_input_rectangles rs seat)"
| keymap: "seat_reachable xkb fl seat \<Longrightarrow> seat_reachable xkb fl (seat\<lparr>key_mapper := xm\<rparr>)"

lemma seat_ok_set_key_state: "seat_ok seat \<Longrightarrow> seat_ok (seat_set_key_state xkb i scan_codes seat)"
proof (cases "map_of (device_data seat) i")
  case (Some d)
  assume "seat_ok seat"
  then have "seat_ok (seat\<lparr>key_mapper := mapper_set_key_state xkb i scan_codes (key_mapper seat)\<rparr>)" by (simp add: seat_ok_def)
  from seat_ok_put [OF this, of i d "d\<lparr>dd_scan_codes := scan_codes\<rparr>"] show ?thesis
    using Some by (simp add: seat_set_key_state_def)
qed (simp add: seat_set_key_state_def seat_ok_def)

lemma seat_ok_reachable: "seat_reachable xkb fl seat \<Longrightarrow> seat_ok seat"
proof (induction rule: seat_reachable.induct)
  case start
  then show ?case by (simp add: seat_ok_def new_Seat_def)
qed (simp_all add: seat_ok_add seat_ok_remove seat_ok_dispatch seat_ok_set_key_state,
  simp_all add: seat_ok_def seat_set_cursor_position_def seat_set_confinement_regions_def seat_reset_confinement_regions_def
    set_input_rectangles_def)

text \<open>
  C27: In every run the buttons of the seat are those that some device holds, and its touch spots those of all
  devices, also after devices have been added and removed.
\<close>

theorem seat_collects_devices:
  assumes "seat_reachable xkb fl seat"
  shows "(\<forall>n. bit (seat_buttons seat) n \<longleftrightarrow> (\<exists>i d. map_of (device_data seat) i = Some d \<and> bit (dd_buttons d) n)) \<and>
         mset (seat_spots seat) = (\<Sum>(i, d) \<in># mset (device_data seat). mset (dd_spots d))"
proof -
  have ok: "seat_ok seat" by (rule seat_ok_reachable [OF assms])
  then have "\<And>i d. map_of (device_data seat) i = Some d \<longleftrightarrow> (i, d) \<in> set (device_data seat)"
    using ordered_map_of [of "device_data seat"] by (simp add: seat_ok_def)
  moreover have "mset (concat (map (dd_spots \<circ> snd) m)) = (\<Sum>(i, d) \<in># mset m. mset (dd_spots d))" for m :: "(nat, DeviceData) std_map"
    by (induction m) (auto simp: case_prod_beta)
  moreover have "(\<exists>e \<in> set (device_data seat). bit (dd_buttons (snd e)) n) \<longleftrightarrow> (\<exists>i d. (i, d) \<in> set (device_data seat) \<and> bit (dd_buttons d) n)" for n
    by force
  ultimately show ?thesis using ok by (simp add: seat_ok_def)
qed

text \<open>
  \<open>set_pointer_state\<close> writes the buttons of the device but does not collect them: the seat keeps the old ones, and
  the next event of the device with these buttons is sent on without them.
\<close>

theorem pointer_state_not_collected:
  assumes "map_of (device_data seat) (pev_device pev) = Some d"
  shows "\<exists>seat'. seat_dispatch_event xkb fl (Pointer_input pev) (seat_set_pointer_state (pev_device pev) (pev_buttons pev) seat) = (Inr (), seat') \<and>
           seat_buttons seat' = seat_buttons seat \<and>
           (\<exists>pev'. last (seat_log seat') = Seat_dispatch (Pointer_input pev') \<and> pev_buttons pev' = seat_buttons seat)"
proof -
  let ?d = "snd (update_button_state (pev_buttons pev) d)"
  have "seat_set_pointer_state (pev_device pev) (pev_buttons pev) seat = put_device (pev_device pev) ?d seat"
    using assms by (simp add: seat_set_pointer_state_def)
  moreover have "update_button_state (pev_buttons pev) ?d = (False, ?d)" by (simp add: update_button_state_def)
  ultimately show ?thesis
    by (simp add: seat_dispatch_event_def filter_input_event_def update_seat_properties_def seat_map_event_def with_cursor_def
        seat_output_def Let_def)
qed

section \<open>Keys\<close>

definition held_scan_codes :: "nat \<Rightarrow> ('m, 'x, 'c) Seat \<Rightarrow> int set" where
  "held_scan_codes i seat = (case map_of (device_data seat) i of None \<Rightarrow> {} | Some d \<Rightarrow> set (dd_scan_codes d))"

text \<open>The specification: which key events make sense, and what they leave held.\<close>

definition key_makes_sense :: "KeyEvent \<Rightarrow> int set \<Rightarrow> bool" where
  "key_makes_sense kev codes \<longleftrightarrow> (kev_action kev = mir_keyboard_action_down \<longleftrightarrow> kev_scan_code kev \<notin> codes)"

fun keys_after :: "MirKeyboardAction \<Rightarrow> int \<Rightarrow> int set \<Rightarrow> int set" where
  "keys_after mir_keyboard_action_down c codes = insert c codes"
| "keys_after mir_keyboard_action_up c codes = codes - {c}"
| "keys_after _ c codes = codes"

lemma update_scan_codes_set [simp]:
  "set (dd_scan_codes (update_scan_codes kev d)) = keys_after (kev_action kev) (kev_scan_code kev) (set (dd_scan_codes d))"
  by (cases "kev_action kev") (auto simp: update_scan_codes_def)

lemma map_key_event_keeps:
  "map_key_event xkb kev xm = (kev', xm') \<Longrightarrow>
     kev_device kev' = kev_device kev \<and> kev_action kev' = kev_action kev \<and> kev_scan_code kev' = kev_scan_code kev \<and>
     kev_time kev' = kev_time kev \<and> kev_cookie kev' = kev_cookie kev"
  by (auto simp: map_key_event_def ms_update_and_map_def Let_def split: prod.splits option.splits)

text \<open>
  The seat implements the specification of its keys: a key event of a known device that makes sense (a press of a key
  that is not held, or a release or repeat of one that is) is sent on, with the same device, action, scan code and
  time, and changes the held keys accordingly; any other key event changes nothing and is not sent on.
\<close>

theorem seat_keys_refine:
  "\<exists>seat'. seat_dispatch_event xkb fl (Key_input kev) seat = (Inr (), seat') \<and>
     (if map_of (device_data seat) (kev_device kev) \<noteq> None \<and> key_makes_sense kev (held_scan_codes (kev_device kev) seat)
      then held_scan_codes (kev_device kev) seat' =
             keys_after (kev_action kev) (kev_scan_code kev) (held_scan_codes (kev_device kev) seat) \<and>
           (\<exists>kev'. seat_log seat' = seat_log seat @ [Seat_dispatch (Key_input kev')] \<and>
              kev_device kev' = kev_device kev \<and> kev_action kev' = kev_action kev \<and>
              kev_scan_code kev' = kev_scan_code kev \<and> kev_time kev' = kev_time kev)
      else seat' = seat) \<and>
     (\<forall>i. i \<noteq> kev_device kev \<longrightarrow> held_scan_codes i seat' = held_scan_codes i seat)"
proof (cases "map_of (device_data seat) (kev_device kev)")
  case None
  then show ?thesis by (simp add: seat_dispatch_event_def filter_input_event_def)
next
  case (Some d)
  have h: "held_scan_codes (kev_device kev) seat = set (dd_scan_codes d)" using Some by (simp add: held_scan_codes_def)
  have a: "allowed_scan_code_action kev d \<longleftrightarrow> key_makes_sense kev (set (dd_scan_codes d))"
    by (auto simp: allowed_scan_code_action_def key_makes_sense_def)
  show ?thesis
  proof (cases "allowed_scan_code_action kev d")
    case False
    then show ?thesis using Some a h by (simp add: seat_dispatch_event_def filter_input_event_def)
  next
    case True
    let ?s = "put_device (kev_device kev) (update_scan_codes kev d) seat"
    obtain kev' xm where m: "map_key_event xkb kev (key_mapper seat) = (kev', xm)" by (cases "map_key_event xkb kev (key_mapper seat)")
    have "seat_dispatch_event xkb fl (Key_input kev) seat =
        (Inr (), seat_output (Seat_dispatch (Key_input kev')) (?s\<lparr>key_mapper := xm\<rparr>))"
      using True Some m
      by (simp add: seat_dispatch_event_def filter_input_event_def update_seat_properties_def seat_map_event_def with_cursor_def)
    then show ?thesis
      using True a h map_key_event_keeps [OF m] Some by (simp add: held_scan_codes_def seat_output_def)
  qed
qed

section \<open>The cursor\<close>

definition float_exact :: "(rat \<Rightarrow> rat) \<Rightarrow> bool" where
  "float_exact fl \<longleftrightarrow> (\<forall>v. \<bar>v\<bar> \<le> 2 ^ 24 \<longrightarrow> fl (of_int v) = of_int v)"

definition screens_on_desktop :: "Rectangles \<Rightarrow> bool" where
  "screens_on_desktop rs \<longleftrightarrow> (\<forall>r \<in> set rs. \<forall>q \<in> points_of r. \<bar>pt_x q\<bar> \<le> 2 ^ 24 \<and> \<bar>pt_y q\<bar> \<le> 2 ^ 24)"

definition covered :: "Rectangles \<Rightarrow> Point set" where
  "covered rs = (\<Union>r \<in> set rs. points_of r)"

definition near_origin :: "Point \<Rightarrow> bool" where
  "near_origin p \<longleftrightarrow> \<bar>pt_x p\<bar> \<le> 2 ^ 24 \<and> \<bar>pt_y p\<bar> \<le> 2 ^ 24"

lemma confine_nothing: "covered rs = {} \<Longrightarrow> confine rs p = p"
proof -
  have "covered rs = {} \<Longrightarrow> confine_loop p rs ret m = ret" for ret m
  proof (induction rs)
    case (Cons r rs)
    then show ?case by (simp add: covered_def confine_loop_empty)
  qed simp
  then show "covered rs = {} \<Longrightarrow> confine rs p = p" by (simp add: confine_def)
qed

lemma confine_covered:
  assumes "screens_on_desktop rs" "near_origin p" "covered rs \<noteq> {}"
  shows "confine rs p \<in> covered rs"
proof -
  have "\<exists>r\<in>set rs. points_of r \<noteq> {}" using assms(3) by (auto simp: covered_def)
  moreover have "\<forall>r\<in>set rs. \<forall>q\<in>points_of r. \<bar>pt_x q - pt_x p\<bar> < INT_MAX \<and> \<bar>pt_y q - pt_y p\<bar> < INT_MAX"
  proof (intro ballI)
    fix r q assume "r \<in> set rs" "q \<in> points_of r"
    then have "\<bar>pt_x q\<bar> \<le> 2 ^ 24" "\<bar>pt_y q\<bar> \<le> 2 ^ 24" using assms(1) by (auto simp: screens_on_desktop_def)
    with assms(2) show "\<bar>pt_x q - pt_x p\<bar> < INT_MAX \<and> \<bar>pt_y q - pt_y p\<bar> < INT_MAX"
      by (auto simp: near_origin_def INT_MAX_def)
  qed
  ultimately show ?thesis using confine_correct [of rs p] by (simp add: covered_def)
qed

lemma confine_near: "screens_on_desktop rs \<Longrightarrow> near_origin p \<Longrightarrow> near_origin (confine rs p)"
  using confine_covered [of rs p] confine_nothing [of rs p]
  by (cases "covered rs = {}") (auto simp: screens_on_desktop_def near_origin_def covered_def)

lemma truncate_of_int [simp]: "truncate_rat (of_int v) = v"
  by (simp add: truncate_rat_def)

lemma confine_pointer_position:
  assumes "float_exact fl" "near_origin (confine_function seat (cursor_position seat))"
  shows "cursor_position (confine_pointer fl seat) = confine_function seat (cursor_position seat)"
  using assms by (simp add: confine_pointer_def cursor_position_def float_exact_def near_origin_def Let_def)


section \<open>A mouse\<close>

definition sample_seat :: "(unit, unit, bool) Seat" where
  "sample_seat = seat_set_confinement_regions [mk_rect (mk_point 0 0) (mk_size 4 3)] (seat_add_device 7 new_Seat)"

definition mouse_moved :: PointerEvent where
  "mouse_moved = \<lparr>pev_device = 7, pev_time = 0, pev_cookie = [], pev_modifiers = 0, pev_action = mir_pointer_action_button_down,
     pev_buttons = 1, pev_x = 0, pev_y = 0, pev_hscroll = 0, pev_vscroll = 0, pev_relative_x = 10, pev_relative_y = 1/2\<rparr>"

lemmas seat_sample_defs = sample_seat_def mouse_moved_def new_Seat_def seat_add_device_def seat_set_confinement_regions_def

theorem seat_collects_devices_witness:
  "bit (seat_buttons (snd (seat_dispatch_event sample_xkb id (Pointer_input mouse_moved) sample_seat))) 0"
proof -
  let ?s = "snd (seat_dispatch_event sample_xkb id (Pointer_input mouse_moved) sample_seat)"
  have "seat_reachable sample_xkb id ?s"
    unfolding sample_seat_def by (intro seat_reachable.dispatch seat_reachable.set_confinement seat_reachable.add_device seat_reachable.start)
  moreover have "map_of (device_data ?s) 7 = Some \<lparr>dd_buttons = 1, dd_spots = [], dd_scan_codes = []\<rparr>"
    by (simp add: seat_sample_defs seat_dispatch_event_def filter_input_event_def update_seat_properties_def seat_map_event_def
        update_button_state_def new_DeviceData_def update_states_def seat_output_def put_device_def Let_def)
  ultimately show ?thesis using seat_collects_devices [of sample_xkb id ?s] by fastforce
qed

theorem pointer_state_not_collected_witness:
  "\<exists>seat'. seat_dispatch_event sample_xkb id (Pointer_input mouse_moved) (seat_set_pointer_state 7 1 sample_seat) = (Inr (), seat') \<and>
     seat_buttons seat' = 0"
  using pointer_state_not_collected [of sample_seat mouse_moved new_DeviceData sample_xkb id] by (simp add: seat_sample_defs) blast

theorem seat_keys_refine_witness:
  "\<exists>seat'. seat_dispatch_event sample_xkb id (Key_input (shift_key mir_keyboard_action_down)) (seat_add_device 1 sample_seat) = (Inr (), seat') \<and>
     held_scan_codes 1 seat' = {42}"
  using seat_keys_refine [of sample_xkb id "shift_key mir_keyboard_action_down" "seat_add_device 1 sample_seat"]
  by (auto simp: seat_sample_defs shift_key_def held_scan_codes_def key_makes_sense_def new_DeviceData_def)


end
