(* ===== verification/Surface_Input.thy ===== *)
theory Surface_Input
  imports Input_Seat Surface_Stack
begin

unbundle bit_operations_syntax

text \<open>
  The last stages of input dispatch: \<open>EventFilterChainDispatcher\<close>, the filter for switching virtual terminals, and
  \<open>SurfaceInputDispatcher\<close> (\<^verbatim>\<open>src/server/input/event_filter_chain_dispatcher.cpp\<close>, \<^verbatim>\<open>vt_filter.cpp\<close>,
  \<^verbatim>\<open>surface_input_dispatcher.cpp\<close>), which decides to which surface an event goes.  The surfaces are those of the
  scene; what \<open>consume\<close> is called with on a surface is logged.

  The lemmas show that the events a surface gets of a pointer are bracketed by one enter and one leave event, that no
  event goes to a surface that has left the scene, and that a touch gesture stays with the surface it began on.
\<close>

section \<open>Filters\<close>

text \<open>A filter is dead, or alive with the answer of its \<open>handle\<close>.\<close>

fun filter_chain_handle :: "('f \<Rightarrow> (SeatEvent \<Rightarrow> bool) option) \<Rightarrow> SeatEvent \<Rightarrow> 'f list \<Rightarrow> bool \<times> 'f list" where
  "filter_chain_handle lock ev [] = (False, [])"
| "filter_chain_handle lock ev (f # fs) =
     (case lock f of
        None \<Rightarrow> filter_chain_handle lock ev fs
      | Some handle \<Rightarrow> if handle ev then (True, f # fs) else apsnd (Cons f) (filter_chain_handle lock ev fs))"

definition filter_chain_append :: "'f \<Rightarrow> 'f list \<Rightarrow> 'f list" where
  "filter_chain_append f fs = fs @ [f]"

definition filter_chain_prepend :: "'f \<Rightarrow> 'f list \<Rightarrow> 'f list" where
  "filter_chain_prepend f fs = f # fs"

text \<open>\<open>dispatch\<close> gives the event to the next dispatcher when no filter takes it.\<close>

definition filter_chain_dispatch ::
  "('f \<Rightarrow> (SeatEvent \<Rightarrow> bool) option) \<Rightarrow> (SeatEvent \<Rightarrow> 's \<Rightarrow> ('s, bool) outcome) \<Rightarrow> SeatEvent \<Rightarrow> 'f list \<times> 's \<Rightarrow> ('f list \<times> 's, bool) outcome" where
  "filter_chain_dispatch lock next_dispatch ev st =
     (let (handled, fs) = filter_chain_handle lock ev (fst st)
      in if \<not> handled then apsnd (Pair fs) (next_dispatch ev (snd st)) else (Inr True, (fs, snd st)))"

lemma filter_chain_handle_correct:
  "filter_chain_handle lock ev fs =
     (case find (\<lambda>f. case lock f of None \<Rightarrow> False | Some h \<Rightarrow> h ev) fs of
        None \<Rightarrow> (False, filter (\<lambda>f. lock f \<noteq> None) fs)
      | Some f \<Rightarrow> (True, filter (\<lambda>f. lock f \<noteq> None) (takeWhile (\<lambda>f. case lock f of None \<Rightarrow> True | Some h \<Rightarrow> \<not> h ev) fs) @
                        dropWhile (\<lambda>f. case lock f of None \<Rightarrow> True | Some h \<Rightarrow> \<not> h ev) fs))"
  by (induction fs) (auto split: option.splits)

text \<open>The virtual terminal a key event switches to; key codes \<open>F1\<close> to \<open>F10\<close> are 59 to 68, \<open>F11\<close> is 87 and \<open>F12\<close> 88.\<close>

definition vt_filter_handle :: "SeatEvent \<Rightarrow> nat option" where
  "vt_filter_handle ev =
     (case ev of
        Key_input kev \<Rightarrow>
          if kev_action kev = mir_keyboard_action_down \<and>
             kev_modifiers kev AND mir_input_event_modifier_alt \<noteq> 0 \<and> kev_modifiers kev AND mir_input_event_modifier_ctrl \<noteq> 0
          then if 59 \<le> kev_scan_code kev \<and> kev_scan_code kev \<le> 68 then Some (nat (kev_scan_code kev - 58))
               else if kev_scan_code kev = 87 then Some 11
               else if kev_scan_code kev = 88 then Some 12
               else None
          else None
      | _ \<Rightarrow> None)"

section \<open>The dispatcher\<close>

record PointerInputState =
  current_target :: "SurfacePtr option"
  pointer_gesture_owner :: "SurfacePtr option"

record SurfaceInputDispatcher =
  pointer_state_by_id :: "nat \<Rightarrow> PointerInputState option"
  touch_state_by_id :: "nat \<Rightarrow> SurfacePtr option option"
  key_focus :: "SurfacePtr option"
  disp_started :: bool
  deliveries :: "(SurfacePtr \<times> SeatEvent) list"

definition new_SurfaceInputDispatcher :: SurfaceInputDispatcher where
  "new_SurfaceInputDispatcher =
     \<lparr>pointer_state_by_id = Map.empty, touch_state_by_id = Map.empty, key_focus = None, disp_started = False, deliveries = []\<rparr>"

definition consume :: "SurfacePtr \<Rightarrow> SeatEvent \<Rightarrow> SurfaceInputDispatcher \<Rightarrow> SurfaceInputDispatcher" where
  "consume p ev d = d\<lparr>deliveries := deliveries d @ [(p, ev)]\<rparr>"

definition transform_positions :: "(rat \<Rightarrow> rat) \<Rightarrow> Point \<Rightarrow> SeatEvent \<Rightarrow> SeatEvent" where
  "transform_positions fl movement ev =
     (case ev of
        Pointer_input pev \<Rightarrow>
          Pointer_input (pev\<lparr>pev_x := fl (pev_x pev - of_int (pt_x movement)), pev_y := fl (pev_y pev - of_int (pt_y movement))\<rparr>)
      | Touch_input tev \<Rightarrow>
          Touch_input (tev\<lparr>tev_contacts := map (\<lambda>c. c\<lparr>contact_x := contact_x c - pt_x movement, contact_y := contact_y c - pt_y movement\<rparr>)
                                             (tev_contacts tev)\<rparr>)
      | _ \<Rightarrow> ev)"

definition surface_origin :: "Scene \<Rightarrow> SurfacePtr \<Rightarrow> Point" where
  "surface_origin sc p = top_left (sf_rect (surface_of sc p))"

definition deliver :: "(rat \<Rightarrow> rat) \<Rightarrow> Scene \<Rightarrow> SurfacePtr \<Rightarrow> SeatEvent \<Rightarrow> SurfaceInputDispatcher \<Rightarrow> SurfaceInputDispatcher" where
  "deliver fl sc p ev d = consume p (transform_positions fl (surface_origin sc p) ev) d"

definition deliver_without_relative_motion ::
  "(rat \<Rightarrow> rat) \<Rightarrow> Scene \<Rightarrow> SurfacePtr \<Rightarrow> PointerEvent \<Rightarrow> SurfaceInputDispatcher \<Rightarrow> SurfaceInputDispatcher" where
  "deliver_without_relative_motion fl sc p pev d =
     consume p (transform_positions fl (surface_origin sc p)
       (Pointer_input (pev\<lparr>pev_hscroll := 0, pev_vscroll := 0, pev_relative_x := 0, pev_relative_y := 0\<rparr>))) d"

definition send_enter_exit_event ::
  "(rat \<Rightarrow> rat) \<Rightarrow> Scene \<Rightarrow> SurfacePtr \<Rightarrow> PointerEvent \<Rightarrow> MirPointerAction \<Rightarrow> SurfaceInputDispatcher \<Rightarrow> SurfaceInputDispatcher" where
  "send_enter_exit_event fl sc p pev action d =
     (let origin = surface_origin sc p
      in consume p (Pointer_input (pev\<lparr>pev_cookie := [], pev_action := action, pev_x := fl (pev_x pev - of_int (pt_x origin)),
                                       pev_y := fl (pev_y pev - of_int (pt_y origin))\<rparr>)) d)"

text \<open>\<open>for_each\<close> over the exposed surfaces, from the bottom: the last that takes input at the point.\<close>

definition find_target_surface :: "Scene \<Rightarrow> Point \<Rightarrow> SurfacePtr option" where
  "find_target_surface sc point =
     fold (\<lambda>p top_target. if input_area_contains (surface_of sc p) (streams (heap sc)) point then Some p else top_target)
       (for_each_surface sc) None"

definition pointer_state :: "nat \<Rightarrow> SurfaceInputDispatcher \<Rightarrow> PointerInputState" where
  "pointer_state i d =
     (case pointer_state_by_id d i of Some st \<Rightarrow> st | None \<Rightarrow> \<lparr>current_target = None, pointer_gesture_owner = None\<rparr>)"

definition put_pointer_state :: "nat \<Rightarrow> PointerInputState \<Rightarrow> SurfaceInputDispatcher \<Rightarrow> SurfaceInputDispatcher" where
  "put_pointer_state i st d = d\<lparr>pointer_state_by_id := (pointer_state_by_id d)(i \<mapsto> st)\<rparr>"

definition touch_owner :: "nat \<Rightarrow> SurfaceInputDispatcher \<Rightarrow> SurfacePtr option" where
  "touch_owner i d = (case touch_state_by_id d i of Some w \<Rightarrow> w | None \<Rightarrow> None)"

definition put_touch_owner :: "nat \<Rightarrow> SurfacePtr option \<Rightarrow> SurfaceInputDispatcher \<Rightarrow> SurfaceInputDispatcher" where
  "put_touch_owner i w d = d\<lparr>touch_state_by_id := (touch_state_by_id d)(i \<mapsto> w)\<rparr>"

text \<open>The five buttons are the bits 0 to 4.\<close>

definition is_gesture_terminator :: "PointerEvent \<Rightarrow> bool" where
  "is_gesture_terminator pev \<longleftrightarrow>
     \<not> list_ex (\<lambda>button. pev_buttons pev AND button \<noteq> 0) [1, 2, 4, 8, 16] \<and> pev_action pev = mir_pointer_action_button_up"

definition change_target ::
  "(rat \<Rightarrow> rat) \<Rightarrow> Scene \<Rightarrow> nat \<Rightarrow> PointerEvent \<Rightarrow> SurfacePtr option \<Rightarrow> SurfaceInputDispatcher \<Rightarrow> SurfaceInputDispatcher" where
  "change_target fl sc i pev target d =
     (let st = pointer_state i d;
          d = (case current_target st of None \<Rightarrow> d | Some p \<Rightarrow> send_enter_exit_event fl sc p pev mir_pointer_action_leave d);
          d = put_pointer_state i (st\<lparr>current_target := target\<rparr>) d
      in case target of None \<Rightarrow> d | Some p \<Rightarrow> send_enter_exit_event fl sc p pev mir_pointer_action_enter d)"

definition dispatch_pointer ::
  "(rat \<Rightarrow> rat) \<Rightarrow> Scene \<Rightarrow> PointerEvent \<Rightarrow> SurfaceInputDispatcher \<Rightarrow> bool \<times> SurfaceInputDispatcher" where
  "dispatch_pointer fl sc pev d =
     (let i = pev_device pev;
          action = pev_action pev;
          st = pointer_state i d;
          d = put_pointer_state i st d;
          target = find_target_surface sc (mk_point (truncate_rat (pev_x pev)) (truncate_rat (pev_y pev)))
      in case pointer_gesture_owner st of
           Some w \<Rightarrow>
             let d = deliver fl sc w (Pointer_input pev) d
             in (True,
                 if is_gesture_terminator pev
                 then let d = put_pointer_state i (st\<lparr>pointer_gesture_owner := None\<rparr>) d
                      in if current_target st \<noteq> target then change_target fl sc i pev target d else d
                 else d)
         | None \<Rightarrow>
             if action = mir_pointer_action_button_up then (False, d)
             else
               let sent_ev = (current_target st \<noteq> target);
                   d = (if sent_ev then change_target fl sc i pev target d else d)
               in case target of
                    None \<Rightarrow> (sent_ev, d)
                  | Some p \<Rightarrow>
                      let d = (if action = mir_pointer_action_button_down
                               then put_pointer_state i ((pointer_state i d)\<lparr>pointer_gesture_owner := target\<rparr>) d else d)
                      in (True,
                          if sent_ev
                          then if action \<noteq> mir_pointer_action_motion then deliver_without_relative_motion fl sc p pev d else d
                          else deliver fl sc p (Pointer_input pev) d))"

definition is_gesture_start :: "TouchEvent \<Rightarrow> bool" where
  "is_gesture_start tev \<longleftrightarrow> list_all (\<lambda>c. contact_action c = mir_touch_action_down) (tev_contacts tev)"

definition is_gesture_end :: "TouchEvent \<Rightarrow> bool" where
  "is_gesture_end tev \<longleftrightarrow> list_all (\<lambda>c. contact_action c = mir_touch_action_up) (tev_contacts tev)"

text \<open>An event without contacts counts as the start of a gesture; its first contact is then read out of bounds.\<close>

definition dispatch_touch ::
  "(rat \<Rightarrow> rat) \<Rightarrow> Scene \<Rightarrow> TouchEvent \<Rightarrow> SurfaceInputDispatcher \<Rightarrow> (SurfaceInputDispatcher, bool) outcome" where
  "dispatch_touch fl sc tev d =
     (let i = tev_device tev;
          d = put_touch_owner i (touch_owner i d) d
      in if is_gesture_start tev \<and> tev_contacts tev = []
         then (Inl (fatal_error ''touch index out of range''), d)
         else
           let d = (if is_gesture_start tev
                    then put_touch_owner i
                           (find_target_surface sc (mk_point (contact_x (hd (tev_contacts tev))) (contact_y (hd (tev_contacts tev))))) d
                    else d)
           in case touch_owner i d of
                None \<Rightarrow> (Inr False, d)
              | Some w \<Rightarrow>
                  let d = deliver fl sc w (Touch_input tev) d
                  in (Inr True, if is_gesture_end tev then put_touch_owner i None d else d))"

text \<open>The focus is a weak pointer.\<close>

definition dispatch_key :: "Scene \<Rightarrow> KeyEvent \<Rightarrow> SurfaceInputDispatcher \<Rightarrow> bool \<times> SurfaceInputDispatcher" where
  "dispatch_key sc kev d =
     (if \<not> disp_started d then (False, d)
      else case key_focus d of
        None \<Rightarrow> (False, d)
      | Some p \<Rightarrow> if live_surfaces (heap sc) p = None then (False, d) else (True, consume p (Key_input kev) d))"

definition surface_dispatch ::
  "(rat \<Rightarrow> rat) \<Rightarrow> Scene \<Rightarrow> SeatEvent \<Rightarrow> SurfaceInputDispatcher \<Rightarrow> (SurfaceInputDispatcher, bool) outcome" where
  "surface_dispatch fl sc ev d =
     (case ev of
        Key_input kev \<Rightarrow> apfst Inr (dispatch_key sc kev d)
      | Touch_input tev \<Rightarrow> dispatch_touch fl sc tev d
      | Pointer_input pev \<Rightarrow> apfst Inr (dispatch_pointer fl sc pev d)
      | Not_input n \<Rightarrow> (Inl (logic_error ''InputDispatcher got an unexpected event type''), d))"

definition forget :: "SurfacePtr \<Rightarrow> SurfacePtr option \<Rightarrow> SurfacePtr option" where
  "forget p q = (if q = Some p then None else q)"

definition surface_removed :: "SurfacePtr \<Rightarrow> SurfaceInputDispatcher \<Rightarrow> SurfaceInputDispatcher" where
  "surface_removed p d =
     d\<lparr>key_focus := forget p (key_focus d),
       pointer_state_by_id :=
         map_option (\<lambda>st. \<lparr>current_target = forget p (current_target st), pointer_gesture_owner = forget p (pointer_gesture_owner st)\<rparr>)
         \<circ> pointer_state_by_id d,
       touch_state_by_id := map_option (forget p) \<circ> touch_state_by_id d\<rparr>"

definition device_reset :: "nat \<Rightarrow> SurfaceInputDispatcher \<Rightarrow> SurfaceInputDispatcher" where
  "device_reset i d =
     (if \<not> disp_started d then d
      else d\<lparr>pointer_state_by_id := (pointer_state_by_id d)(i := None), touch_state_by_id := (touch_state_by_id d)(i := None)\<rparr>)"

definition disp_start :: "SurfaceInputDispatcher \<Rightarrow> SurfaceInputDispatcher" where
  "disp_start d = d\<lparr>disp_started := True\<rparr>"

definition disp_stop :: "SurfaceInputDispatcher \<Rightarrow> SurfaceInputDispatcher" where
  "disp_stop d = d\<lparr>pointer_state_by_id := Map.empty, touch_state_by_id := Map.empty, disp_started := False\<rparr>"

definition disp_set_focus :: "SurfacePtr option \<Rightarrow> SurfaceInputDispatcher \<Rightarrow> SurfaceInputDispatcher" where
  "disp_set_focus target d = d\<lparr>key_focus := target\<rparr>"

section \<open>Enter and leave\<close>

abbreviation target_of :: "nat \<Rightarrow> SurfaceInputDispatcher \<Rightarrow> SurfacePtr option" where
  "target_of i d \<equiv> current_target (pointer_state i d)"

abbreviation gesture_of :: "nat \<Rightarrow> SurfaceInputDispatcher \<Rightarrow> SurfacePtr option" where
  "gesture_of i d \<equiv> pointer_gesture_owner (pointer_state i d)"

text \<open>
  The protocol of one pointer, as the surfaces see it: \<open>pointer_protocol c evs\<close> is the surface the pointer is in after the
  events, when it was in \<open>c\<close> before; a surface is left before another is entered and every other event goes to the
  surface the pointer is in.
\<close>

fun pointer_protocol :: "SurfacePtr option \<Rightarrow> (SurfacePtr \<times> MirPointerAction) list \<Rightarrow> SurfacePtr option option" where
  "pointer_protocol c [] = Some c"
| "pointer_protocol c ((p, action) # evs) =
     (if action = mir_pointer_action_enter then (if c = None then pointer_protocol (Some p) evs else None)
      else if action = mir_pointer_action_leave then (if c = Some p then pointer_protocol None evs else None)
      else if c = Some p then pointer_protocol c evs else None)"

fun pointer_actions :: "nat \<Rightarrow> (SurfacePtr \<times> SeatEvent) list \<Rightarrow> (SurfacePtr \<times> MirPointerAction) list" where
  "pointer_actions i [] = []"
| "pointer_actions i ((p, ev) # es) =
     (case ev of Pointer_input pev \<Rightarrow> if pev_device pev = i then (p, pev_action pev) # pointer_actions i es else pointer_actions i es
      | _ \<Rightarrow> pointer_actions i es)"

definition disp_inv :: "Scene \<Rightarrow> SurfaceInputDispatcher \<Rightarrow> bool" where
  "disp_inv sc d \<longleftrightarrow>
     (\<forall>i p. gesture_of i d = Some p \<longrightarrow> target_of i d = Some p) \<and>
     (\<forall>i p. target_of i d = Some p \<longrightarrow> p \<in> set (surfaces sc)) \<and>
     (\<forall>i p. touch_owner i d = Some p \<longrightarrow> p \<in> set (surfaces sc))"

lemma pointer_state_put [simp]: "pointer_state j (put_pointer_state i st d) = (if j = i then st else pointer_state j d)"
  by (simp add: pointer_state_def put_pointer_state_def)

lemma pointer_state_consume [simp]: "pointer_state j (consume p ev d) = pointer_state j d"
  by (simp add: pointer_state_def consume_def)

lemma touch_owner_frame [simp]:
  "touch_owner j (put_pointer_state i st d) = touch_owner j d" "touch_owner j (consume p ev d) = touch_owner j d"
  "touch_owner j (put_touch_owner i w d) = (if j = i then w else touch_owner j d)"
  "pointer_state j (put_touch_owner i w d) = pointer_state j d"
  by (simp_all add: touch_owner_def put_pointer_state_def consume_def put_touch_owner_def pointer_state_def)

lemma deliveries_frame [simp]:
  "deliveries (put_pointer_state i st d) = deliveries d" "deliveries (put_touch_owner i w d) = deliveries d"
  "deliveries (consume p ev d) = deliveries d @ [(p, ev)]"
  by (simp_all add: put_pointer_state_def consume_def put_touch_owner_def)

lemma find_target_in_scene:
  assumes "find_target_surface sc point = Some p"
  shows "p \<in> set (surfaces sc)"
proof -
  have "fold (\<lambda>p t. if P p then Some p else t) ps t = Some p \<Longrightarrow> p \<in> set ps \<or> t = Some p" for P ps and t :: "SurfacePtr option"
    by (induction ps arbitrary: t) (auto split: if_splits)
  then show ?thesis using assms by (fastforce simp: find_target_surface_def for_each_surface_def)
qed

lemmas delivery_defs = deliver_def deliver_without_relative_motion_def send_enter_exit_event_def transform_positions_def Let_def

text \<open>Deliveries that take the pointer from one surface to another, to surfaces of the scene only.\<close>

definition moves ::
  "Scene \<Rightarrow> nat \<Rightarrow> SurfacePtr option \<Rightarrow> (SurfacePtr \<times> SeatEvent) list \<Rightarrow> (SurfacePtr \<times> SeatEvent) list \<Rightarrow> SurfacePtr option \<Rightarrow> bool" where
  "moves sc i c l l' c' \<longleftrightarrow>
     (\<exists>new. l' = l @ new \<and> pointer_protocol c (pointer_actions i new) = Some c' \<and>
        fst ` set new \<subseteq> set (surfaces sc) \<and> length (pointer_actions i new) = length new)"

lemma pointer_protocol_append:
  "pointer_protocol c (xs @ ys) = Option.bind (pointer_protocol c xs) (\<lambda>c. pointer_protocol c ys)"
  by (induction c xs rule: pointer_protocol.induct) auto

lemma pointer_actions_append: "pointer_actions i (xs @ ys) = pointer_actions i xs @ pointer_actions i ys"
  by (induction i xs rule: pointer_actions.induct) (auto split: SeatEvent.split)

lemma moves_trans: "moves sc i c l1 l2 c1 \<Longrightarrow> moves sc i c1 l2 l3 c2 \<Longrightarrow> moves sc i c l1 l3 c2"
  unfolding moves_def
proof (elim exE conjE)
  fix xs ys
  assume "l2 = l1 @ xs" "l3 = l2 @ ys" "pointer_protocol c (pointer_actions i xs) = Some c1"
    "pointer_protocol c1 (pointer_actions i ys) = Some c2" "fst ` set xs \<subseteq> set (surfaces sc)" "fst ` set ys \<subseteq> set (surfaces sc)"
    "length (pointer_actions i xs) = length xs" "length (pointer_actions i ys) = length ys"
  then show "\<exists>new. l3 = l1 @ new \<and> pointer_protocol c (pointer_actions i new) = Some c2 \<and>
      fst ` set new \<subseteq> set (surfaces sc) \<and> length (pointer_actions i new) = length new"
    by (intro exI [of _ "xs @ ys"]) (auto simp: pointer_actions_append pointer_protocol_append)
qed

lemma moves_refl [simp]: "moves sc i c l l c"
  by (simp add: moves_def)

lemma moves_consume:
  assumes "pev_device pev = i" "p \<in> set (surfaces sc)" "pointer_protocol c [(p, pev_action pev)] = Some c'"
  shows "moves sc i c l (l @ [(p, Pointer_input pev)]) c'"
  using assms by (auto simp: moves_def)

definition device_action :: "MirPointerAction \<Rightarrow> bool" where
  "device_action action \<longleftrightarrow> action \<noteq> mir_pointer_action_enter \<and> action \<noteq> mir_pointer_action_leave"

lemma moves_deliver:
  assumes "pev_device pev = i" "p \<in> set (surfaces sc)" "device_action (pev_action pev)"
  shows "moves sc i (Some p) (deliveries d) (deliveries (deliver fl sc p (Pointer_input pev) d)) (Some p)"
    "moves sc i (Some p) (deliveries d) (deliveries (deliver_without_relative_motion fl sc p pev d)) (Some p)"
  using assms by (auto simp: delivery_defs device_action_def intro!: moves_consume)

lemma moves_enter_leave:
  assumes "pev_device pev = i" "p \<in> set (surfaces sc)"
  shows "moves sc i None (deliveries d) (deliveries (send_enter_exit_event fl sc p pev mir_pointer_action_enter d)) (Some p)"
    "moves sc i (Some p) (deliveries d) (deliveries (send_enter_exit_event fl sc p pev mir_pointer_action_leave d)) None"
  using assms by (auto simp: delivery_defs intro!: moves_consume)

lemma moves_change_target:
  assumes "pev_device pev = i" "set_option (target_of i d) \<union> set_option target \<subseteq> set (surfaces sc)"
  shows "moves sc i (target_of i d) (deliveries d) (deliveries (change_target fl sc i pev target d)) target"
proof -
  let ?d1 = "case target_of i d of None \<Rightarrow> d | Some p \<Rightarrow> send_enter_exit_event fl sc p pev mir_pointer_action_leave d"
  let ?d2 = "put_pointer_state i ((pointer_state i d)\<lparr>current_target := target\<rparr>) ?d1"
  have "moves sc i (target_of i d) (deliveries d) (deliveries ?d1) None"
    using assms moves_enter_leave(2) by (cases "target_of i d") auto
  moreover have "change_target fl sc i pev target d =
      (case target of None \<Rightarrow> ?d2 | Some p \<Rightarrow> send_enter_exit_event fl sc p pev mir_pointer_action_enter ?d2)"
    by (simp add: change_target_def Let_def)
  then have "moves sc i None (deliveries ?d1) (deliveries (change_target fl sc i pev target d)) target"
    using assms moves_enter_leave(1) [of pev i _ sc ?d2 fl] by (cases target) auto
  ultimately show ?thesis by (rule moves_trans)
qed

lemma change_target_state [simp]:
  "pointer_state j (change_target fl sc i pev target d) =
     (if j = i then (pointer_state i d)\<lparr>current_target := target\<rparr> else pointer_state j d)"
  "touch_owner j (change_target fl sc i pev target d) = touch_owner j d"
  by (auto simp: change_target_def delivery_defs split: option.splits)

lemma deliver_state [simp]:
  "pointer_state j (deliver fl sc p ev d) = pointer_state j d" "touch_owner j (deliver fl sc p ev d) = touch_owner j d"
  "pointer_state j (deliver_without_relative_motion fl sc p pev d) = pointer_state j d"
  "touch_owner j (deliver_without_relative_motion fl sc p pev d) = touch_owner j d"
  by (simp_all add: deliver_def deliver_without_relative_motion_def)

text \<open>The surface under a pointer event.\<close>

abbreviation surface_under :: "Scene \<Rightarrow> PointerEvent \<Rightarrow> SurfacePtr option" where
  "surface_under sc pev \<equiv> find_target_surface sc (mk_point (truncate_rat (pev_x pev)) (truncate_rat (pev_y pev)))"

lemma dispatch_pointer_state:
  fixes fl sc pev d
  defines "d' \<equiv> snd (dispatch_pointer fl sc pev d)" and "i \<equiv> pev_device pev"
  shows "\<And>j. j \<noteq> i \<Longrightarrow> pointer_state j d' = pointer_state j d" and "\<And>j. touch_owner j d' = touch_owner j d"
    and "target_of i d' = (if gesture_of i d \<noteq> None \<and> \<not> is_gesture_terminator pev \<or>
                              gesture_of i d = None \<and> pev_action pev = mir_pointer_action_button_up
                           then target_of i d else surface_under sc pev)"
    and "gesture_of i d' = (if gesture_of i d \<noteq> None then if is_gesture_terminator pev then None else gesture_of i d
                          else if pev_action pev = mir_pointer_action_button_down then surface_under sc pev else None)"
  unfolding d'_def i_def
  by (auto simp: dispatch_pointer_def Let_def split: option.splits)

lemma dispatch_pointer_moves:
  assumes inv: "disp_inv sc d" and act: "device_action (pev_action pev)" and i: "i = pev_device pev"
  shows "moves sc i (target_of i d) (deliveries d) (deliveries (snd (dispatch_pointer fl sc pev d)))
           (target_of i (snd (dispatch_pointer fl sc pev d)))"
proof (cases "gesture_of i d")
  case (Some w)
  then have w: "target_of i d = Some w" "w \<in> set (surfaces sc)" using inv by (auto simp: disp_inv_def)
  let ?d0 = "put_pointer_state i (pointer_state i d) d"
  let ?d1 = "deliver fl sc w (Pointer_input pev) ?d0"
  let ?d2 = "put_pointer_state i ((pointer_state i d)\<lparr>pointer_gesture_owner := None\<rparr>) ?d1"
  have 1: "moves sc i (Some w) (deliveries d) (deliveries ?d1) (Some w)"
    using moves_deliver(1) [OF i [symmetric] w(2) act, where d = ?d0 and fl = fl] by simp
  show ?thesis
  proof (cases "is_gesture_terminator pev \<and> surface_under sc pev \<noteq> Some w")
    case True
    have "moves sc i (target_of i ?d2) (deliveries ?d2) (deliveries (change_target fl sc i pev (surface_under sc pev) ?d2)) (surface_under sc pev)"
      using w find_target_in_scene [of sc _ ] i by (intro moves_change_target) (auto simp: elem_set)
    then have "moves sc i (Some w) (deliveries d) (deliveries (change_target fl sc i pev (surface_under sc pev) ?d2)) (surface_under sc pev)"
      using moves_trans [OF 1, of "deliveries (change_target fl sc i pev (surface_under sc pev) ?d2)"] w by simp
    then show ?thesis using True Some w i by (auto simp: dispatch_pointer_def Let_def)
  next
    case False
    then show ?thesis using 1 Some w i by (auto simp: dispatch_pointer_def Let_def)
  qed
next
  case None
  let ?d0 = "put_pointer_state i (pointer_state i d) d"
  let ?d1 = "if target_of i d \<noteq> surface_under sc pev then change_target fl sc i pev (surface_under sc pev) ?d0 else ?d0"
  have "moves sc i (target_of i ?d0) (deliveries ?d0) (deliveries (change_target fl sc i pev (surface_under sc pev) ?d0)) (surface_under sc pev)"
    using inv find_target_in_scene [of sc _ ] i by (intro moves_change_target) (auto simp: elem_set disp_inv_def)
  then have 1: "moves sc i (target_of i d) (deliveries d) (deliveries ?d1) (surface_under sc pev)" by simp
  have 2: "moves sc i (target_of i d) (deliveries d) (deliveries (deliver fl sc p (Pointer_input pev) d2)) (Some p)"
    "moves sc i (target_of i d) (deliveries d) (deliveries (deliver_without_relative_motion fl sc p pev d2)) (Some p)"
    if "surface_under sc pev = Some p" "deliveries d2 = deliveries ?d1" for p d2
    using moves_trans [OF 1] moves_deliver [OF i [symmetric] find_target_in_scene act, of sc _ p d2 fl] that by auto
  show ?thesis
  proof (cases "pev_action pev = mir_pointer_action_button_up")
    case False
    then show ?thesis
      using 1 2 None i by (cases "surface_under sc pev") (auto simp: dispatch_pointer_def Let_def)
  qed (use None i in \<open>simp add: dispatch_pointer_def Let_def\<close>)
qed

lemma disp_inv_pointer:
  assumes "disp_inv sc d"
  shows "disp_inv sc (snd (dispatch_pointer fl sc pev d))"
proof -
  let ?i = "pev_device pev" and ?d = "snd (dispatch_pointer fl sc pev d)"
  have "gesture_of j ?d = Some p \<Longrightarrow> target_of j ?d = Some p" for j p
    using assms dispatch_pointer_state [where fl = fl and sc = sc and pev = pev and d = d]
    by (cases "j = ?i") (auto simp: disp_inv_def split: if_splits)
  moreover have "target_of j ?d = Some p \<Longrightarrow> p \<in> set (surfaces sc)" for j p
    using assms dispatch_pointer_state [where fl = fl and sc = sc and pev = pev and d = d] find_target_in_scene
    by (cases "j = ?i") (auto simp: disp_inv_def split: if_splits)
  moreover have "touch_owner j ?d = Some p \<Longrightarrow> p \<in> set (surfaces sc)" for j p
    using assms dispatch_pointer_state(2) [where fl = fl and sc = sc and pev = pev and d = d] by (auto simp: disp_inv_def)
  ultimately show ?thesis by (auto simp: disp_inv_def)
qed

lemma dispatch_touch_state:
  "pointer_state j (snd (dispatch_touch fl sc tev d)) = pointer_state j d"
  "j \<noteq> tev_device tev \<Longrightarrow> touch_owner j (snd (dispatch_touch fl sc tev d)) = touch_owner j d"
  "touch_owner (tev_device tev) (snd (dispatch_touch fl sc tev d)) = Some p \<Longrightarrow>
     touch_owner (tev_device tev) d = Some p \<and> \<not> is_gesture_start tev \<or> p \<in> set (surfaces sc) \<and> is_gesture_start tev \<or> tev_contacts tev = []"
  using find_target_in_scene
  by (auto simp: dispatch_touch_def Let_def is_gesture_start_def split: option.splits if_splits)

lemma dispatch_touch_empty:
  "tev_contacts tev = [] \<Longrightarrow> touch_owner j (snd (dispatch_touch fl sc tev d)) = touch_owner j d"
  by (simp add: dispatch_touch_def Let_def is_gesture_start_def)

lemma disp_inv_touch:
  assumes "disp_inv sc d"
  shows "disp_inv sc (snd (dispatch_touch fl sc tev d))"
proof -
  have "touch_owner j (snd (dispatch_touch fl sc tev d)) = Some p \<Longrightarrow> p \<in> set (surfaces sc)" for j p
    using assms dispatch_touch_state(2,3) [where tev = tev and fl = fl and sc = sc and d = d]
      dispatch_touch_empty [where tev = tev and fl = fl and sc = sc and d = d]
    by (cases "j = tev_device tev"; cases "tev_contacts tev = []") (auto simp: disp_inv_def)
  then show ?thesis using assms by (auto simp: disp_inv_def dispatch_touch_state(1))
qed

lemma dispatch_key_state [simp]:
  "pointer_state j (snd (dispatch_key sc kev d)) = pointer_state j d" "touch_owner j (snd (dispatch_key sc kev d)) = touch_owner j d"
  by (simp_all add: dispatch_key_def split: option.split)

lemma disp_inv_dispatch: "disp_inv sc d \<Longrightarrow> disp_inv sc (snd (surface_dispatch fl sc ev d))"
  using disp_inv_pointer [of sc d] disp_inv_touch [of sc d]
  by (cases ev) (simp_all add: surface_dispatch_def, simp add: disp_inv_def)

lemma surface_removed_state [simp]:
  "target_of i (surface_removed p d) = forget p (target_of i d)" "gesture_of i (surface_removed p d) = forget p (gesture_of i d)"
  "touch_owner i (surface_removed p d) = forget p (touch_owner i d)"
  by (auto simp: pointer_state_def touch_owner_def surface_removed_def forget_def split: option.splits)

lemma disp_inv_removed: "disp_inv sc d \<Longrightarrow> disp_inv (remove_surface sc p) (surface_removed p d)"
proof -
  assume inv: "disp_inv sc d"
  have "q \<in> set (surfaces sc) \<Longrightarrow> q \<noteq> p \<Longrightarrow> q \<in> set (surfaces (remove_surface sc p))" for q
    by (simp add: remove_surface_def scene_notify_def in_set_remove1)
  moreover have "forget p (gesture_of i d) = Some q \<Longrightarrow> forget p (target_of i d) = Some q" for i q
    using inv by (auto simp: disp_inv_def forget_def split: if_splits)
  ultimately show ?thesis using inv by (auto simp: disp_inv_def) (auto simp: forget_def split: if_splits)
qed

text \<open>
  The runs: events are dispatched, surfaces leave the scene (and the dispatcher is told), and the scene changes in any
  way that removes no surface.
\<close>

inductive disp_reachable :: "(rat \<Rightarrow> rat) \<Rightarrow> Scene \<Rightarrow> SurfaceInputDispatcher \<Rightarrow> bool" for fl where
  new: "disp_reachable fl sc new_SurfaceInputDispatcher"
| event: "disp_reachable fl sc d \<Longrightarrow> disp_reachable fl sc (snd (surface_dispatch fl sc ev d))"
| removed: "disp_reachable fl sc d \<Longrightarrow> disp_reachable fl (remove_surface sc p) (surface_removed p d)"
| scene: "disp_reachable fl sc d \<Longrightarrow> set (surfaces sc) \<subseteq> set (surfaces sc') \<Longrightarrow> disp_reachable fl sc' d"
| reset: "disp_reachable fl sc d \<Longrightarrow> disp_reachable fl sc (device_reset i d)"
| started: "disp_reachable fl sc d \<Longrightarrow> disp_reachable fl sc (disp_start d)"
| stopped: "disp_reachable fl sc d \<Longrightarrow> disp_reachable fl sc (disp_stop d)"
| focus: "disp_reachable fl sc d \<Longrightarrow> disp_reachable fl sc (disp_set_focus p d)"

lemma disp_inv_reachable: "disp_reachable fl sc d \<Longrightarrow> disp_inv sc d"
proof (induction rule: disp_reachable.induct)
  case (scene sc d sc')
  then show ?case by (fastforce simp: disp_inv_def)
next
  case (reset sc d i)
  then show ?case by (auto simp: disp_inv_def device_reset_def pointer_state_def touch_owner_def split: option.splits)
qed (simp_all add: disp_inv_dispatch disp_inv_removed,
  simp_all add: disp_inv_def new_SurfaceInputDispatcher_def disp_start_def disp_stop_def disp_set_focus_def pointer_state_def touch_owner_def)


section \<open>Touch gestures\<close>

text \<open>A sequence of events and of surfaces that go away.\<close>

fun disp_steps :: "(rat \<Rightarrow> rat) \<Rightarrow> (Scene \<times> SeatEvent + SurfacePtr) list \<Rightarrow> SurfaceInputDispatcher \<Rightarrow> SurfaceInputDispatcher" where
  "disp_steps fl [] d = d"
| "disp_steps fl (Inl (sc, ev) # steps) d = disp_steps fl steps (snd (surface_dispatch fl sc ev d))"
| "disp_steps fl (Inr p # steps) d = disp_steps fl steps (surface_removed p d)"

fun starts_gesture :: "nat \<Rightarrow> Scene \<times> SeatEvent + SurfacePtr \<Rightarrow> bool" where
  "starts_gesture i (Inl (sc, Touch_input tev)) \<longleftrightarrow> tev_device tev = i \<and> is_gesture_start tev"
| "starts_gesture i _ \<longleftrightarrow> False"

definition touched :: "nat \<Rightarrow> (SurfacePtr \<times> SeatEvent) list \<Rightarrow> SurfacePtr set" where
  "touched i es = {p. \<exists>tev. (p, Touch_input tev) \<in> set es \<and> tev_device tev = i}"

lemma touched_append [simp]: "touched i (xs @ ys) = touched i xs \<union> touched i ys"
  by (auto simp: touched_def)

lemma dispatch_pointer_touched: "touched i (deliveries (snd (dispatch_pointer fl sc pev d))) = touched i (deliveries d)"
  by (auto simp: dispatch_pointer_def change_target_def delivery_defs touched_def split: option.splits)

lemma surface_dispatch_touched:
  assumes "\<not> starts_gesture i (Inl (sc, ev))"
  shows "touched i (deliveries (snd (surface_dispatch fl sc ev d))) \<subseteq> touched i (deliveries d) \<union> set_option (touch_owner i d)"
    and "set_option (touch_owner i (snd (surface_dispatch fl sc ev d))) \<subseteq> set_option (touch_owner i d)"
proof -
  show "touched i (deliveries (snd (surface_dispatch fl sc ev d))) \<subseteq> touched i (deliveries d) \<union> set_option (touch_owner i d)"
  proof (cases ev)
    case (Touch_input tev)
    then show ?thesis
      using assms by (auto simp: surface_dispatch_def dispatch_touch_def delivery_defs touched_def split: option.splits if_splits)
  next
    case (Pointer_input pev)
    then show ?thesis by (simp add: surface_dispatch_def dispatch_pointer_touched)
  qed (auto simp: surface_dispatch_def dispatch_key_def touched_def split: option.splits)
  show "set_option (touch_owner i (snd (surface_dispatch fl sc ev d))) \<subseteq> set_option (touch_owner i d)"
  proof (cases ev)
    case (Touch_input tev)
    then show ?thesis
      using assms by (auto simp: surface_dispatch_def dispatch_touch_def Let_def split: option.splits if_splits)
  qed (auto simp: surface_dispatch_def dispatch_pointer_state(2))
qed

lemma disp_steps_touched:
  assumes "\<not> list_ex (starts_gesture i) steps"
  shows "touched i (deliveries (disp_steps fl steps d)) \<subseteq> touched i (deliveries d) \<union> set_option (touch_owner i d)"
  using assms
proof (induction fl steps d rule: disp_steps.induct)
  case (2 fl sc ev steps d)
  then show ?case using surface_dispatch_touched [of i sc ev fl d] by fastforce
next
  case (3 fl p steps d)
  moreover have "deliveries (surface_removed p d) = deliveries d" by (simp add: surface_removed_def)
  ultimately show ?case by (auto simp: forget_def split: if_splits)
qed simp

text \<open>
  A touch gesture stays with the surface it began on: until the device starts another gesture, whatever other events come
  and whatever surfaces appear, move or go away, its events go to that surface or to none, and to none once that
  surface has gone.
\<close>

theorem touch_gesture_stays:
  assumes "\<not> list_ex (starts_gesture i) steps"
  shows "touched i (deliveries (disp_steps fl steps d)) \<subseteq> touched i (deliveries d) \<union> set_option (touch_owner i d) \<and>
         (\<forall>p. touch_owner i d = Some p \<longrightarrow>
            touched i (deliveries (disp_steps fl (Inr p # steps) d)) \<subseteq> touched i (deliveries d))"
proof -
  have "touched i (deliveries (disp_steps fl (Inr p # steps) d)) \<subseteq> touched i (deliveries d)" if "touch_owner i d = Some p" for p
    using disp_steps_touched [OF assms, of fl "surface_removed p d"] that
    by (simp add: forget_def) (simp add: surface_removed_def)
  then show ?thesis using disp_steps_touched [OF assms] by blast
qed

section \<open>A window\<close>

definition window_scene :: Scene where
  "window_scene = (new_SurfaceStack (sample_heap\<lparr>live_surfaces := [5 \<mapsto> sample_surface\<lparr>sf_visibility := mir_window_visibility_exposed\<rparr>]\<rparr>))
     \<lparr>surfaces := [5]\<rparr>"

lemma window_scene_eval:
  "surfaces window_scene = [5]" "surface_of window_scene 5 = sample_surface\<lparr>sf_visibility := mir_window_visibility_exposed\<rparr>"
  "streams (heap window_scene) = (\<lambda>_. sample_stream)"
  by (simp_all add: window_scene_def new_SurfaceStack_def surface_of_def sample_heap_def)

lemma window_target:
  "find_target_surface window_scene (mk_point 12 22) = Some 5"
  by (simp add: find_target_surface_def for_each_surface_def window_scene_eval query_def input_area_contains_def surface_visible_iff
      sample_surface_def new_BasicSurface_def default_stream_def has_submitted_buffer_def sample_stream_eval contains_point_points_of points_of_def
      rect_left_def rect_top_def bottom_right_def geom_defs)

definition mouse_at :: "rat \<Rightarrow> rat \<Rightarrow> PointerEvent" where
  "mouse_at x y = mouse_moved\<lparr>pev_action := mir_pointer_action_motion, pev_x := x, pev_y := y\<rparr>"


definition finger_up :: TouchEvent where
  "finger_up = \<lparr>tev_device = 3, tev_time = 0, tev_cookie = [], tev_modifiers = 0,
     tev_contacts = [\<lparr>touch_id = 0, contact_action = mir_touch_action_up, tooltype = 0, contact_x = 500, contact_y = 500, pressure = 0,
       touch_major = 0, touch_minor = 0, contact_orientation = 0\<rparr>]\<rparr>"

theorem touch_gesture_stays_witness:
  "touched 3 (deliveries (disp_steps id [Inl (window_scene, Touch_input finger_up)] (put_touch_owner 3 (Some 5) new_SurfaceInputDispatcher))) \<subseteq> {5}"
  using touch_gesture_stays [of 3 "[Inl (window_scene, Touch_input finger_up)]" id "put_touch_owner 3 (Some 5) new_SurfaceInputDispatcher"]
  by (simp add: finger_up_def is_gesture_start_def touched_def new_SurfaceInputDispatcher_def)

end
