(* ===== verification/Cursor_Control.thy ===== *)
theory Cursor_Control
  imports Surface_Input
begin

text \<open>
  What the server itself draws of the input: the cursor image (\<^verbatim>\<open>src/server/input/cursor_controller.cpp\<close>), which follows
  the surface under the cursor, and the spots of touches (\<^verbatim>\<open>touchspot_controller.cpp\<close>).  Cursor images are numbers, with
  their sizes and the image of each surface as parameters; the calls on the hardware or software cursor are a log.

  The lemmas show that the cursor always shows the image of the topmost surface under it, that exactly the surfaces of
  the scene are observed, and that the overlays of the touch spots are those of the touches, one each.
\<close>

section \<open>The cursor image\<close>

type_synonym CursorImage = nat

datatype CursorCall = Cursor_show CursorImage | Cursor_hide | Cursor_move_to Point

record CursorController =
  default_cursor_image :: "CursorImage option"
  cursor_location :: Point
  current_cursor :: "CursorImage option"
  surface_observers :: "SurfacePtr \<Rightarrow> bool option"
  cursor_calls :: "CursorCall list"

text \<open>\<open>surface_observers\<close> has for each observed surface whether its observer has seen the first frame.\<close>

definition cursor_call :: "CursorCall \<Rightarrow> CursorController \<Rightarrow> CursorController" where
  "cursor_call c cc = cc\<lparr>cursor_calls := cursor_calls cc @ [c]\<rparr>"

definition is_empty :: "(CursorImage \<Rightarrow> Size) \<Rightarrow> CursorImage \<Rightarrow> bool" where
  "is_empty image_size im \<longleftrightarrow> width (image_size im) = 0 \<or> height (image_size im) = 0"

definition set_cursor_image :: "(CursorImage \<Rightarrow> Size) \<Rightarrow> CursorImage option \<Rightarrow> CursorController \<Rightarrow> CursorController" where
  "set_cursor_image image_size im cc =
     (if current_cursor cc = im then cc
      else
        let cc = cc\<lparr>current_cursor := im\<rparr>
        in case im of
             Some n \<Rightarrow> if \<not> is_empty image_size n then cursor_call (Cursor_show n) cc else cursor_call Cursor_hide cc
           | None \<Rightarrow> cursor_call Cursor_hide cc)"

definition update_cursor_image ::
  "(CursorImage \<Rightarrow> Size) \<Rightarrow> (SurfacePtr \<Rightarrow> CursorImage option) \<Rightarrow> Scene \<Rightarrow> CursorController \<Rightarrow> CursorController" where
  "update_cursor_image image_size cursor_image sc cc =
     (case find_target_surface sc (cursor_location cc) of
        Some p \<Rightarrow> set_cursor_image image_size (cursor_image p) cc
      | None \<Rightarrow> set_cursor_image image_size (default_cursor_image cc) cc)"

definition cursor_moved_to ::
  "(CursorImage \<Rightarrow> Size) \<Rightarrow> (SurfacePtr \<Rightarrow> CursorImage option) \<Rightarrow> Scene \<Rightarrow> rat \<Rightarrow> rat \<Rightarrow> CursorController \<Rightarrow> CursorController" where
  "cursor_moved_to image_size cursor_image sc abs_x abs_y cc =
     (let new_location = mk_point (truncate_rat abs_x) (truncate_rat abs_y)
      in cursor_call (Cursor_move_to new_location)
           (update_cursor_image image_size cursor_image sc (cc\<lparr>cursor_location := new_location\<rparr>)))"

section \<open>The observers\<close>

text \<open>
  The notifications of a surface; of the ones that other components make no use of, the first frame (which makes
  a surface visible) and a change of the cursor image matter here.
\<close>

datatype CursorNotification = Surface_notified SurfaceNotification | Frame_posted | Cursor_image_set_to | Cursor_image_removed

definition affects_cursor :: "SurfaceNotification \<Rightarrow> bool" where
  "affects_cursor n =
     (case n of
        Resized_to _ \<Rightarrow> True | Moved_to _ \<Rightarrow> True | Hidden_set_to _ \<Rightarrow> True | Alpha_set_to _ \<Rightarrow> True
      | Transformation_set_to _ \<Rightarrow> True | Reception_mode_set_to _ \<Rightarrow> True | _ \<Rightarrow> False)"

definition surface_notified ::
  "(CursorController \<Rightarrow> CursorController) \<Rightarrow> SurfacePtr \<Rightarrow> CursorNotification \<Rightarrow> CursorController \<Rightarrow> CursorController" where
  "surface_notified update p n cc =
     (case surface_observers cc p of
        None \<Rightarrow> cc
      | Some posted \<Rightarrow>
          (case n of
             Surface_notified m \<Rightarrow> if affects_cursor m then update cc else cc
           | Frame_posted \<Rightarrow>
               if posted then cc else update (cc\<lparr>surface_observers := (surface_observers cc)(p \<mapsto> True)\<rparr>)
           | _ \<Rightarrow> update cc))"

definition add_surface_observer :: "SurfacePtr \<Rightarrow> CursorController \<Rightarrow> CursorController" where
  "add_surface_observer p cc = cc\<lparr>surface_observers := (surface_observers cc)(p \<mapsto> False)\<rparr>"

definition scene_notified :: "(CursorController \<Rightarrow> CursorController) \<Rightarrow> SceneNotification \<Rightarrow> CursorController \<Rightarrow> CursorController" where
  "scene_notified update n cc =
     (case n of
        Surface_added p \<Rightarrow> update (add_surface_observer p cc)
      | Surface_removed p \<Rightarrow> update (cc\<lparr>surface_observers := (surface_observers cc)(p := None)\<rparr>)
      | Surfaces_reordered \<Rightarrow> update cc
      | Scene_changed \<Rightarrow> update cc
      | Surface_exists p \<Rightarrow> update (add_surface_observer p cc))"

definition end_observation :: "CursorController \<Rightarrow> CursorController" where
  "end_observation cc = cc\<lparr>surface_observers := Map.empty\<rparr>"

text \<open>The constructor registers the observer, which is told of every surface that exists.\<close>

definition new_CursorController ::
  "(CursorController \<Rightarrow> CursorController) \<Rightarrow> CursorImage option \<Rightarrow> Scene \<Rightarrow> CursorController" where
  "new_CursorController update im sc =
     fold (scene_notified update) (add_observer sc)
       \<lparr>default_cursor_image = im, cursor_location = mk_point 0 0, current_cursor = im, surface_observers = Map.empty, cursor_calls = []\<rparr>"

section \<open>The cursor shows the right image\<close>

text \<open>
  What the cursor shows, from the calls made on it; it shows the default image when the server starts
  (\<^verbatim>\<open>src/server/input/default_configuration.cpp\<close>).
\<close>

definition visible_image :: "(CursorImage \<Rightarrow> Size) \<Rightarrow> CursorImage option \<Rightarrow> CursorImage option" where
  "visible_image image_size im = (case im of Some n \<Rightarrow> if is_empty image_size n then None else Some n | None \<Rightarrow> None)"

fun shown_after :: "CursorImage option \<Rightarrow> CursorCall list \<Rightarrow> CursorImage option" where
  "shown_after im [] = im"
| "shown_after im (Cursor_show n # cs) = shown_after (Some n) cs"
| "shown_after im (Cursor_hide # cs) = shown_after None cs"
| "shown_after im (Cursor_move_to p # cs) = shown_after im cs"

lemma shown_after_append: "shown_after im (xs @ ys) = shown_after (shown_after im xs) ys"
  by (induction im xs rule: shown_after.induct) simp_all

definition cursor_shown :: "(CursorImage \<Rightarrow> Size) \<Rightarrow> CursorController \<Rightarrow> CursorImage option" where
  "cursor_shown image_size cc = shown_after (visible_image image_size (default_cursor_image cc)) (cursor_calls cc)"

definition cursor_ok :: "(CursorImage \<Rightarrow> Size) \<Rightarrow> CursorController \<Rightarrow> bool" where
  "cursor_ok image_size cc \<longleftrightarrow> cursor_shown image_size cc = visible_image image_size (current_cursor cc)"

text \<open>The image that should be shown.\<close>

definition wanted_image :: "(SurfacePtr \<Rightarrow> CursorImage option) \<Rightarrow> Scene \<Rightarrow> CursorController \<Rightarrow> CursorImage option" where
  "wanted_image cursor_image sc cc =
     (case find_target_surface sc (cursor_location cc) of Some p \<Rightarrow> cursor_image p | None \<Rightarrow> default_cursor_image cc)"

lemma set_cursor_image_frame [simp]:
  "current_cursor (set_cursor_image image_size im cc) = im"
  "default_cursor_image (set_cursor_image image_size im cc) = default_cursor_image cc"
  "surface_observers (set_cursor_image image_size im cc) = surface_observers cc"
  "cursor_location (set_cursor_image image_size im cc) = cursor_location cc"
  by (simp_all add: set_cursor_image_def cursor_call_def Let_def split: option.split)

lemma wanted_image_set [simp]:
  "wanted_image cursor_image sc (set_cursor_image image_size im cc) = wanted_image cursor_image sc cc"
  by (simp add: wanted_image_def cong: option.case_cong)

lemma cursor_move_call [simp]:
  "wanted_image cursor_image sc (cursor_call c cc) = wanted_image cursor_image sc cc"
  "cursor_shown image_size (cursor_call (Cursor_move_to p) cc) = cursor_shown image_size cc"
  by (simp_all add: wanted_image_def cursor_call_def cursor_shown_def shown_after_append cong: option.case_cong)

lemma set_cursor_image_ok: "cursor_ok image_size cc \<Longrightarrow> cursor_ok image_size (set_cursor_image image_size im cc)"
  unfolding cursor_ok_def set_cursor_image_frame
  by (cases im) (auto simp: set_cursor_image_def cursor_shown_def cursor_call_def visible_image_def shown_after_append Let_def)

lemma update_cursor_image_eq:
  "update_cursor_image image_size cursor_image sc cc = set_cursor_image image_size (wanted_image cursor_image sc cc) cc"
  by (simp add: update_cursor_image_def wanted_image_def split: option.split)

lemma cursor_moved_ok:
  assumes "cursor_ok image_size cc"
  shows "cursor_ok image_size (cursor_moved_to image_size cursor_image sc x y cc)"
proof -
  let ?cc = "cc\<lparr>cursor_location := mk_point (truncate_rat x) (truncate_rat y)\<rparr>"
  have "cursor_ok image_size ?cc" using assms by (simp add: cursor_ok_def cursor_shown_def)
  then show ?thesis
    using set_cursor_image_ok [of image_size ?cc "wanted_image cursor_image sc ?cc"]
    by (simp add: cursor_moved_to_def update_cursor_image_eq Let_def cursor_ok_def cursor_shown_def cursor_call_def shown_after_append)
qed

text \<open>
  The runs: the cursor moves, and surfaces and the scene notify.  The scene and the images of the surfaces may be others
  at each step.
\<close>

inductive cursor_reachable :: "(CursorImage \<Rightarrow> Size) \<Rightarrow> CursorController \<Rightarrow> bool" for image_size where
  start: "cursor_reachable image_size (new_CursorController (update_cursor_image image_size cursor_image sc) im sc)"
| moved: "cursor_reachable image_size cc \<Longrightarrow> cursor_reachable image_size (cursor_moved_to image_size cursor_image sc x y cc)"
| surface: "cursor_reachable image_size cc \<Longrightarrow>
    cursor_reachable image_size (surface_notified (update_cursor_image image_size cursor_image sc) p n cc)"
| scene: "cursor_reachable image_size cc \<Longrightarrow>
    cursor_reachable image_size (scene_notified (update_cursor_image image_size cursor_image sc) n cc)"
| ended: "cursor_reachable image_size cc \<Longrightarrow> cursor_reachable image_size (end_observation cc)"

lemma cursor_ok_observers [simp]: "cursor_ok image_size (cc\<lparr>surface_observers := f\<rparr>) = cursor_ok image_size cc"
  by (simp add: cursor_ok_def cursor_shown_def)

lemma scene_notified_ok: "cursor_ok image_size cc \<Longrightarrow> cursor_ok image_size (scene_notified (update_cursor_image image_size cursor_image sc) n cc)"
  by (cases n) (simp_all add: scene_notified_def add_surface_observer_def update_cursor_image_eq set_cursor_image_ok)

lemma fold_scene_notified_ok:
  "cursor_ok image_size cc \<Longrightarrow> cursor_ok image_size (fold (scene_notified (update_cursor_image image_size cursor_image sc)) ns cc)"
  by (induction ns arbitrary: cc) (simp_all add: scene_notified_ok)

lemma cursor_ok_reachable: "cursor_reachable image_size cc \<Longrightarrow> cursor_ok image_size cc"
proof (induction rule: cursor_reachable.induct)
  case (start cursor_image sc im)
  show ?case unfolding new_CursorController_def by (rule fold_scene_notified_ok) (simp add: cursor_ok_def cursor_shown_def)
next
  case (surface cc cursor_image sc p n)
  then show ?case
    by (auto simp: surface_notified_def update_cursor_image_eq set_cursor_image_ok split: option.split CursorNotification.split)
qed (simp_all add: cursor_moved_ok scene_notified_ok end_observation_def)


section \<open>Touch spots\<close>

text \<open>
  \<open>TouchspotRenderable\<close>s are overlays of the scene; the controller keeps the ones it has made and moves them.  Every
  renderable is an object of its own: \<open>spot_positions\<close> has their positions, and the scene sees them where they are.
\<close>

record TouchspotController =
  ts_enabled :: bool
  renderables_in_use :: nat
  touchspot_renderables :: "OverlayPtr list"
  ts_next :: OverlayPtr
  spot_positions :: "OverlayPtr \<Rightarrow> Point"

definition new_TouchspotController :: "OverlayPtr \<Rightarrow> TouchspotController" where
  "new_TouchspotController n =
     \<lparr>ts_enabled = False, renderables_in_use = 0, touchspot_renderables = [], ts_next = n, spot_positions = (\<lambda>_. mk_point 0 0)\<rparr>"

definition spot_renderable :: "OverlayPtr \<Rightarrow> Point \<Rightarrow> Renderable" where
  "spot_renderable r pos =
     \<lparr>renderable_id = r, screen_position = mk_rect pos (mk_size 64 64), alpha = 1, transformation = identity, shaped = True\<rparr>"

definition move_center_to :: "Point \<Rightarrow> OverlayPtr \<Rightarrow> TouchspotController \<times> Scene \<Rightarrow> TouchspotController \<times> Scene" where
  "move_center_to pos r st =
     (let (ts, sc) = st;
          position = point_minus pos (mk_disp 32 32)
      in (ts\<lparr>spot_positions := (spot_positions ts)(r := position)\<rparr>,
          sc\<lparr>overlays := map (\<lambda>(q, rd). if q = r then (q, rd\<lparr>screen_position := mk_rect position (mk_size 64 64)\<rparr>) else (q, rd)) (overlays sc)\<rparr>))"

text \<open>\<open>while (touchspot_renderables.size() < num_touches)\<close>.\<close>

definition make_renderables :: "nat \<Rightarrow> TouchspotController \<Rightarrow> TouchspotController" where
  "make_renderables num_touches ts =
     (let missing = num_touches - length (touchspot_renderables ts)
      in ts\<lparr>touchspot_renderables := touchspot_renderables ts @ [ts_next ts..<ts_next ts + missing], ts_next := ts_next ts + missing\<rparr>)"

fun show_touches :: "nat \<Rightarrow> Spot list \<Rightarrow> TouchspotController \<times> Scene \<Rightarrow> TouchspotController \<times> Scene" where
  "show_touches i [] st = st"
| "show_touches i (spot # touches) st =
     (let r = touchspot_renderables (fst st) ! i;
          (ts, sc) = move_center_to (touch_location spot) r st
      in show_touches (Suc i) touches
           (ts, if i \<ge> renderables_in_use ts then add_input_visualization sc r (spot_renderable r (spot_positions ts r)) else sc))"

fun hide_touches :: "OverlayPtr list \<Rightarrow> Scene \<Rightarrow> (Scene, unit) outcome" where
  "hide_touches [] sc = (Inr (), sc)"
| "hide_touches (r # rs) sc = and_then (remove_input_visualization sc r) (\<lambda>_. hide_touches rs)"

definition visualize_touches ::
  "Spot list \<Rightarrow> TouchspotController \<times> Scene \<Rightarrow> (TouchspotController \<times> Scene, unit) outcome" where
  "visualize_touches touches st =
     (let (ts, sc) = st;
          shown = (if ts_enabled ts then touches else []);
          num_touches = length shown;
          (ts, sc) = show_touches 0 shown (make_renderables num_touches ts, sc)
      in case hide_touches (drop num_touches (take (renderables_in_use ts) (touchspot_renderables ts))) sc of
           (Inl e, sc) \<Rightarrow> (Inl e, (ts, sc))
         | (Inr _, sc) \<Rightarrow>
             (Inr (), (ts\<lparr>renderables_in_use := num_touches\<rparr>, if num_touches > 0 then emit_scene_changed sc else sc)))"

definition ts_enable :: "TouchspotController \<Rightarrow> TouchspotController" where
  "ts_enable ts = ts\<lparr>ts_enabled := True\<rparr>"

definition ts_disable :: "TouchspotController \<Rightarrow> TouchspotController" where
  "ts_disable ts = ts\<lparr>ts_enabled := False\<rparr>"


text \<open>The overlays that are spots of the controller, and those that are not.\<close>

abbreviation spots_among :: "OverlayPtr set \<Rightarrow> Scene \<Rightarrow> (OverlayPtr \<times> Renderable) list" where
  "spots_among R sc \<equiv> filter (\<lambda>e. fst e \<in> R) (overlays sc)"

abbreviation other_overlays :: "OverlayPtr set \<Rightarrow> Scene \<Rightarrow> (OverlayPtr \<times> Renderable) list" where
  "other_overlays R sc \<equiv> filter (\<lambda>e. fst e \<notin> R) (overlays sc)"

definition spot_overlay :: "(OverlayPtr \<Rightarrow> Point) \<Rightarrow> OverlayPtr \<Rightarrow> OverlayPtr \<times> Renderable" where
  "spot_overlay pos r = (r, spot_renderable r (pos r))"

definition touchspots_ok :: "TouchspotController \<Rightarrow> Scene \<Rightarrow> bool" where
  "touchspots_ok ts sc \<longleftrightarrow>
     distinct (touchspot_renderables ts) \<and> (\<forall>r \<in> set (touchspot_renderables ts). r < ts_next ts) \<and>
     (\<forall>e \<in> set (overlays sc). fst e < ts_next ts) \<and>
     renderables_in_use ts \<le> length (touchspot_renderables ts) \<and>
     spots_among (set (touchspot_renderables ts)) sc = map (spot_overlay (spot_positions ts)) (take (renderables_in_use ts) (touchspot_renderables ts))"

lemma emit_scene_changed_overlays [simp]: "overlays (emit_scene_changed sc) = overlays sc"
  by (simp add: emit_scene_changed_def scene_notify_def)

lemma filter_map_fst:
  "(\<And>e. fst (f e) = fst e) \<Longrightarrow> filter (\<lambda>e. P (fst e)) (map f xs) = map f (filter (\<lambda>e. P (fst e)) xs)"
  by (induction xs) auto

lemma move_center_to_spots:
  assumes "move_center_to p r (ts, sc) = (ts', sc')" and "r \<in> R" and "spots_among R sc = map (spot_overlay (spot_positions ts)) xs"
  shows "ts' = ts\<lparr>spot_positions := (spot_positions ts)(r := point_minus p (mk_disp 32 32))\<rparr> \<and>
         spots_among R sc' = map (spot_overlay (spot_positions ts')) xs \<and> other_overlays R sc' = other_overlays R sc \<and>
         map fst (overlays sc') = map fst (overlays sc)"
proof -
  let ?q = "point_minus p (mk_disp 32 32)"
  let ?f = "\<lambda>(q, rd). if q = r then (q, rd\<lparr>screen_position := mk_rect ?q (mk_size 64 64)\<rparr>) else (q, rd)"
  have f: "fst (?f e) = fst e" for e by (cases e) simp
  have ts': "ts' = ts\<lparr>spot_positions := (spot_positions ts)(r := ?q)\<rparr>" and ov: "overlays sc' = map ?f (overlays sc)"
    using assms(1) by (auto simp: move_center_to_def Let_def)
  have "spots_among R sc' = map ?f (spots_among R sc)" unfolding ov by (rule filter_map_fst [of ?f "\<lambda>q. q \<in> R", OF f])
  then have "spots_among R sc' = map (?f \<circ> spot_overlay (spot_positions ts)) xs" by (simp add: assms(3))
  also have "\<dots> = map (spot_overlay (spot_positions ts')) xs" by (simp add: ts' spot_overlay_def spot_renderable_def)
  finally have 1: "spots_among R sc' = map (spot_overlay (spot_positions ts')) xs" .
  have "other_overlays R sc' = map ?f (other_overlays R sc)" unfolding ov by (rule filter_map_fst [of ?f "\<lambda>q. q \<notin> R", OF f])
  also have "\<dots> = other_overlays R sc" by (rule map_idI) (use assms(2) in auto)
  finally have 2: "other_overlays R sc' = other_overlays R sc" .
  have "map fst (overlays sc') = map fst (overlays sc)" unfolding ov map_map by (rule map_cong [OF refl]) (use f in \<open>simp only: comp_apply\<close>)
  with ts' 1 2 show ?thesis by blast
qed

lemma show_touches_spots:
  assumes "show_touches i touches (ts, sc) = (ts', sc')" "R = set (touchspot_renderables ts)" "distinct (touchspot_renderables ts)"
    "i + length touches \<le> length (touchspot_renderables ts)" "renderables_in_use ts \<le> length (touchspot_renderables ts)"
    "spots_among R sc = map (spot_overlay (spot_positions ts)) (take (max (renderables_in_use ts) i) (touchspot_renderables ts))"
  shows "touchspot_renderables ts' = touchspot_renderables ts \<and> renderables_in_use ts' = renderables_in_use ts \<and> ts_next ts' = ts_next ts \<and>
    ts_enabled ts' = ts_enabled ts \<and> other_overlays R sc' = other_overlays R sc \<and> fst ` set (overlays sc') \<subseteq> R \<union> fst ` set (overlays sc) \<and>
    spots_among R sc' = map (spot_overlay (spot_positions ts')) (take (max (renderables_in_use ts) (i + length touches)) (touchspot_renderables ts)) \<and>
    (\<forall>j < i. spot_positions ts' (touchspot_renderables ts ! j) = spot_positions ts (touchspot_renderables ts ! j)) \<and>
    (\<forall>j < length touches. spot_positions ts' (touchspot_renderables ts ! (i + j)) = point_minus (touch_location (touches ! j)) (mk_disp 32 32))"
  using assms
proof (induction touches arbitrary: i ts sc)
  case Nil
  then show ?case by auto
next
  case (Cons spot touches)
  let ?rs = "touchspot_renderables ts" and ?u = "renderables_in_use ts"
  let ?r = "?rs ! i"
  obtain ts1 sc1 where m: "move_center_to (touch_location spot) ?r (ts, sc) = (ts1, sc1)"
    by (cases "move_center_to (touch_location spot) ?r (ts, sc)")
  have i: "i < length ?rs" "?r \<in> R" using Cons.prems(2,4) by auto
  note mv = move_center_to_spots [OF m i(2) Cons.prems(6)]
  define sc2 where "sc2 = (if i \<ge> ?u then add_input_visualization sc1 ?r (spot_renderable ?r (spot_positions ts1 ?r)) else sc1)"
  have fr: "touchspot_renderables ts1 = ?rs" "renderables_in_use ts1 = ?u" "ts_next ts1 = ts_next ts" "ts_enabled ts1 = ts_enabled ts"
    using mv by auto
  have st: "show_touches (Suc i) touches (ts1, sc2) = (ts', sc')" using Cons.prems(1) m fr(2) by (simp add: Let_def sc2_def)
  have sp: "spots_among R sc2 = map (spot_overlay (spot_positions ts1)) (take (max ?u (Suc i)) ?rs)"
  proof (cases "?u \<le> i")
    case True
    then show ?thesis
      using mv i by (simp add: sc2_def add_input_visualization_def spot_overlay_def max_absorb2 take_Suc_conv_app_nth)
  next
    case False
    then have "max ?u i = ?u" "max ?u (Suc i) = ?u" by simp_all
    then show ?thesis using mv False by (simp add: sc2_def del: max.absorb1 max.absorb2)
  qed
  have ot: "other_overlays R sc2 = other_overlays R sc" and sub: "fst ` set (overlays sc2) \<subseteq> R \<union> fst ` set (overlays sc)"
    using mv i by (auto simp: sc2_def add_input_visualization_def split: if_splits) (metis (no_types, lifting) fst_conv image_eqI list.set_map)+
  have le: "Suc i + length touches \<le> length (touchspot_renderables ts1)" using Cons.prems(4) fr by simp
  have ih0: "touchspot_renderables ts' = ?rs \<and> renderables_in_use ts' = ?u \<and> ts_next ts' = ts_next ts \<and>
    ts_enabled ts' = ts_enabled ts \<and> other_overlays R sc' = other_overlays R sc2 \<and> fst ` set (overlays sc') \<subseteq> R \<union> fst ` set (overlays sc2) \<and>
    spots_among R sc' = map (spot_overlay (spot_positions ts')) (take (max ?u (Suc i + length touches)) ?rs) \<and>
    (\<forall>j < Suc i. spot_positions ts' (?rs ! j) = spot_positions ts1 (?rs ! j)) \<and>
    (\<forall>j < length touches. spot_positions ts' (?rs ! (Suc i + j)) = point_minus (touch_location (touches ! j)) (mk_disp 32 32))"
    using Cons.IH [OF st _ _ le, unfolded fr, OF Cons.prems(2,3,5) sp] .
  have ih: "touchspot_renderables ts' = ?rs \<and> renderables_in_use ts' = ?u \<and> ts_next ts' = ts_next ts \<and>
    ts_enabled ts' = ts_enabled ts \<and> other_overlays R sc' = other_overlays R sc \<and> fst ` set (overlays sc') \<subseteq> R \<union> fst ` set (overlays sc) \<and>
    spots_among R sc' = map (spot_overlay (spot_positions ts')) (take (max ?u (Suc i + length touches)) ?rs) \<and>
    (\<forall>j < Suc i. spot_positions ts' (?rs ! j) = spot_positions ts1 (?rs ! j)) \<and>
    (\<forall>j < length touches. spot_positions ts' (?rs ! (Suc i + j)) = point_minus (touch_location (touches ! j)) (mk_disp 32 32))"
    using ih0 ot sub by (simp only: ot) blast
  have "j < i \<Longrightarrow> ?rs ! j \<noteq> ?r" for j using Cons.prems(3) i(1) by (simp add: nth_eq_iff_index_eq)
  then have before: "\<forall>j < i. spot_positions ts' (?rs ! j) = spot_positions ts (?rs ! j)" using ih mv by simp
  have at_i: "spot_positions ts' ?r = point_minus (touch_location spot) (mk_disp 32 32)" using ih mv by simp
  have later: "spot_positions ts' (?rs ! (i + j)) = point_minus (touch_location ((spot # touches) ! j)) (mk_disp 32 32)"
    if "j < length (spot # touches)" for j
  proof (cases j)
    case (Suc k)
    then show ?thesis using ih that by simp
  qed (simp add: at_i)
  have len: "i + length (spot # touches) = Suc i + length touches" by simp
  show ?case unfolding len using ih before later by blast
qed

lemma hide_touches_spots:
  assumes "spots_among R sc = map (spot_overlay pos) (xs @ ys)" "distinct (xs @ ys)" "set (xs @ ys) \<subseteq> R"
  shows "\<exists>sc'. hide_touches ys sc = (Inr (), sc') \<and> spots_among R sc' = map (spot_overlay pos) xs \<and>
           other_overlays R sc' = other_overlays R sc \<and> set (overlays sc') \<subseteq> set (overlays sc)"
  using assms
proof (induction ys arbitrary: sc)
  case (Cons r ys)
  let ?sc1 = "emit_scene_changed (sc\<lparr>overlays := erase_first (\<lambda>e. fst e = r) (overlays sc)\<rparr>)"
  have "spot_overlay pos r \<in> set (spots_among R sc)" using Cons.prems(1) by simp
  then have "r \<in> set (map fst (overlays sc))" by (force simp: spot_overlay_def)
  then have 1: "remove_input_visualization sc r = (Inr (), ?sc1)" by (simp add: remove_input_visualization_def)
  have e: "filter P (erase_first Q es) = erase_first Q (filter P es)" if "\<And>e. Q e \<Longrightarrow> P e" for P Q and es :: "(OverlayPtr \<times> Renderable) list"
    using that by (induction es) auto
  have n: "filter P (erase_first Q es) = filter P es" if "\<And>e. Q e \<Longrightarrow> \<not> P e" for P Q and es :: "(OverlayPtr \<times> Renderable) list"
    using that by (induction es) auto
  have x: "r \<notin> set xs \<Longrightarrow> erase_first (\<lambda>e. fst e = r) (map (spot_overlay pos) (xs @ r # ys)) = map (spot_overlay pos) (xs @ ys)"
    by (induction xs) (auto simp: spot_overlay_def)
  have "spots_among R ?sc1 = erase_first (\<lambda>e. fst e = r) (spots_among R sc)"
    unfolding emit_scene_changed_overlays by simp (rule e, use Cons.prems(3) in auto)
  also have "\<dots> = map (spot_overlay pos) (xs @ ys)" using x Cons.prems(1,2) by simp
  finally have "spots_among R ?sc1 = map (spot_overlay pos) (xs @ ys)" .
  then obtain sc' where "hide_touches ys ?sc1 = (Inr (), sc')" "spots_among R sc' = map (spot_overlay pos) xs"
    "other_overlays R sc' = other_overlays R ?sc1" "set (overlays sc') \<subseteq> set (overlays ?sc1)"
    using Cons.IH [of ?sc1] Cons.prems(2,3) by auto
  moreover have "other_overlays R ?sc1 = other_overlays R sc" unfolding emit_scene_changed_overlays by simp (rule n, use Cons.prems(3) in auto)
  moreover have "set (overlays ?sc1) \<subseteq> set (overlays sc)" using set_erase_first_subset by fastforce
  ultimately show ?case using 1 by auto
qed simp

text \<open>
  Runs of the controller.  The scene may change otherwise between calls, and others may create overlays, as long as they
  do not touch the controller's.
\<close>

inductive touchspots_reachable :: "TouchspotController \<Rightarrow> Scene \<Rightarrow> bool" where
  start: "\<forall>e \<in> set (overlays sc). fst e < n \<Longrightarrow> touchspots_reachable (new_TouchspotController n) sc"
| visualized: "touchspots_reachable ts sc \<Longrightarrow> visualize_touches touches (ts, sc) = (res, (ts', sc')) \<Longrightarrow> touchspots_reachable ts' sc'"
| enabled: "touchspots_reachable ts sc \<Longrightarrow> touchspots_reachable (ts_enable ts) sc"
| disabled: "touchspots_reachable ts sc \<Longrightarrow> touchspots_reachable (ts_disable ts) sc"
| others: "touchspots_reachable ts sc \<Longrightarrow> ts_next ts \<le> n \<Longrightarrow> \<forall>e \<in> set (overlays sc'). fst e < n \<Longrightarrow>
    spots_among (set (touchspot_renderables ts)) sc' = spots_among (set (touchspot_renderables ts)) sc \<Longrightarrow>
    touchspots_reachable (ts\<lparr>ts_next := n\<rparr>) sc'"

definition spot_area :: "Spot \<Rightarrow> Rectangle" where
  "spot_area spot = mk_rect (point_minus (touch_location spot) (mk_disp 32 32)) (mk_size 64 64)"

lemma make_renderables_ok:
  assumes "touchspots_ok ts sc" and "R = set (touchspot_renderables (make_renderables n ts))"
  shows "distinct (touchspot_renderables (make_renderables n ts))" "n \<le> length (touchspot_renderables (make_renderables n ts))"
    "renderables_in_use (make_renderables n ts) = renderables_in_use ts"
    "renderables_in_use ts \<le> length (touchspot_renderables (make_renderables n ts))"
    "\<forall>r \<in> R. r < ts_next (make_renderables n ts)" "ts_next ts \<le> ts_next (make_renderables n ts)"
    "other_overlays R sc = other_overlays (set (touchspot_renderables ts)) sc"
    "spots_among R sc = map (spot_overlay (spot_positions (make_renderables n ts)))
       (take (renderables_in_use ts) (touchspot_renderables (make_renderables n ts)))"
proof -
  have same: "fst e \<in> R \<longleftrightarrow> fst e \<in> set (touchspot_renderables ts)" if "e \<in> set (overlays sc)" for e
    using assms that by (auto simp: touchspots_ok_def make_renderables_def Let_def)
  then show "other_overlays R sc = other_overlays (set (touchspot_renderables ts)) sc" by (simp cong: filter_cong)
  have "spots_among R sc = spots_among (set (touchspot_renderables ts)) sc" using same by (simp cong: filter_cong)
  then show "spots_among R sc = map (spot_overlay (spot_positions (make_renderables n ts)))
       (take (renderables_in_use ts) (touchspot_renderables (make_renderables n ts)))"
    using assms(1) by (simp add: touchspots_ok_def make_renderables_def Let_def)
qed (use assms in \<open>auto simp: touchspots_ok_def make_renderables_def Let_def\<close>)

lemma take_split_max: "take (max u n) xs = take n xs @ drop n (take u xs)"
  by (simp add: max_def drop_take take_add [symmetric])

lemma visualize_spots:
  assumes ok: "touchspots_ok ts sc" and sh: "drawn = (if ts_enabled ts then touches else [])"
  shows "\<exists>ts' sc'. visualize_touches touches (ts, sc) = (Inr (), (ts', sc')) \<and> touchspots_ok ts' sc' \<and>
    map (screen_position \<circ> snd) (spots_among (set (touchspot_renderables ts')) sc') = map spot_area drawn \<and>
    other_overlays (set (touchspot_renderables ts')) sc' = other_overlays (set (touchspot_renderables ts)) sc"
proof -
  let ?n = "length drawn"
  define ts1 where "ts1 = make_renderables ?n ts"
  define R where "R = set (touchspot_renderables ts1)"
  note mk = make_renderables_ok [OF ok, of R ?n, folded ts1_def, OF R_def]
  let ?rs = "touchspot_renderables ts1"
  obtain ts2 sc2 where s: "show_touches 0 drawn (ts1, sc) = (ts2, sc2)" by (cases "show_touches 0 drawn (ts1, sc)")
  have sp: "touchspot_renderables ts2 = ?rs" "renderables_in_use ts2 = renderables_in_use ts" "ts_next ts2 = ts_next ts1"
    "other_overlays R sc2 = other_overlays R sc" "fst ` set (overlays sc2) \<subseteq> R \<union> fst ` set (overlays sc)"
    "spots_among R sc2 = map (spot_overlay (spot_positions ts2)) (take (max (renderables_in_use ts) ?n) ?rs)"
    "\<forall>j < ?n. spot_positions ts2 (?rs ! j) = point_minus (touch_location (drawn ! j)) (mk_disp 32 32)"
    using show_touches_spots [OF s R_def mk(1)] mk by simp_all
  let ?gone = "drop ?n (take (renderables_in_use ts2) ?rs)"
  have split: "take (max (renderables_in_use ts) ?n) ?rs = take ?n ?rs @ ?gone"
    unfolding sp(2) by (rule take_split_max)
  have "distinct (take ?n ?rs @ ?gone)" "set (take ?n ?rs @ ?gone) \<subseteq> R"
    unfolding split [symmetric] R_def using mk(1) by (simp_all add: set_take_subset)
  then obtain sc3 where h: "hide_touches ?gone sc2 = (Inr (), sc3)"
    "spots_among R sc3 = map (spot_overlay (spot_positions ts2)) (take ?n ?rs)"
    "other_overlays R sc3 = other_overlays R sc2" "set (overlays sc3) \<subseteq> set (overlays sc2)"
    using hide_touches_spots [OF sp(6) [unfolded split]] by blast
  let ?ts' = "ts2\<lparr>renderables_in_use := ?n\<rparr>" and ?sc' = "if ?n > 0 then emit_scene_changed sc3 else sc3"
  have ov: "overlays ?sc' = overlays sc3" by simp
  have "visualize_touches touches (ts, sc) = (Inr (), (?ts', ?sc'))"
    using s h(1) sp(1) by (simp add: visualize_touches_def Let_def sh [symmetric] ts1_def)
  moreover have "touchspots_ok ?ts' ?sc'"
  proof -
    have "fst e < ts_next ts1" if "e \<in> set (overlays sc3)" for e
      proof -
      have "fst e \<in> R \<union> fst ` set (overlays sc)" using that h(4) sp(5) by blast
      then show ?thesis using mk(5,6) ok unfolding touchspots_ok_def by auto
    qed
    then show ?thesis unfolding touchspots_ok_def ov using sp(1,3) mk(1,2,5) h(2) by (simp add: R_def)
  qed
  moreover have "map (screen_position \<circ> snd) (spots_among R ?sc') = map spot_area drawn"
    unfolding ov h(2) map_map using sp(7) mk(2)
    by (intro nth_equalityI) (simp_all add: spot_overlay_def spot_renderable_def spot_area_def)
  moreover have "other_overlays R ?sc' = other_overlays (set (touchspot_renderables ts)) sc"
    unfolding ov using h(3) sp(4) mk(7) by simp
  ultimately show ?thesis using sp(1) by (auto simp: R_def)
qed

lemma touchspots_ok_reachable: "touchspots_reachable ts sc \<Longrightarrow> touchspots_ok ts sc"
proof (induction rule: touchspots_reachable.induct)
  case (visualized ts sc touches res ts' sc')
  from visualize_spots [OF visualized(3) refl, of touches] visualized(2) show ?case by auto
next
  case (start sc n)
  then show ?case by (simp add: touchspots_ok_def new_TouchspotController_def)
next
  case (others ts sc n sc')
  then show ?case by (auto simp: touchspots_ok_def)
qed (simp_all add: touchspots_ok_def ts_enable_def ts_disable_def)

text \<open>
  The spots drawn follow the touches: visualizing touches never fails, and afterwards the scene has one overlay for each
  touch, in their order and centred on it, when the visualization is enabled, and none when it is not, while every
  other overlay stays as it was.
\<close>

theorem touchspots_follow_touches:
  assumes "touchspots_reachable ts sc"
  shows "\<exists>ts' sc'. visualize_touches touches (ts, sc) = (Inr (), (ts', sc')) \<and>
    map (screen_position \<circ> snd) (spots_among (set (touchspot_renderables ts')) sc') = map spot_area (if ts_enabled ts then touches else []) \<and>
    other_overlays (set (touchspot_renderables ts')) sc' = other_overlays (set (touchspot_renderables ts)) sc"
  using visualize_spots [OF touchspots_ok_reachable [OF assms] refl, of touches] by blast

section \<open>Examples\<close>

lemma cursor_location_moved:
  "cursor_location (cursor_moved_to image_size cursor_image sc x y cc) = mk_point (truncate_rat x) (truncate_rat y)"
  by (simp add: cursor_moved_to_def update_cursor_image_eq Let_def cursor_call_def)


theorem touchspots_follow_touches_witness:
  "let ts = ts_enable (new_TouchspotController 0); spot = \<lparr>touch_location = mk_point 100 200, spot_pressure = 1\<rparr>
   in \<exists>ts' sc'. visualize_touches [spot] (ts, window_scene) = (Inr (), (ts', sc')) \<and>
        map (screen_position \<circ> snd) (spots_among (set (touchspot_renderables ts')) sc') = [mk_rect (mk_point 68 168) (mk_size 64 64)]"
proof -
  define spot where "spot = \<lparr>touch_location = mk_point 100 200, spot_pressure = 1\<rparr>"
  have run: "touchspots_reachable (ts_enable (new_TouchspotController 0)) window_scene"
    by (rule touchspots_reachable.enabled, rule touchspots_reachable.start) (simp add: window_scene_def new_SurfaceStack_def)
  have area: "spot_area spot = mk_rect (mk_point 68 168) (mk_size 64 64)" by (simp add: spot_def spot_area_def geom_defs)
  have en: "ts_enabled (ts_enable (new_TouchspotController 0))" by (simp add: ts_enable_def)
  show ?thesis
    unfolding Let_def spot_def [symmetric]
    using touchspots_follow_touches [OF run, of "[spot]", unfolded if_P [OF en] list.map area] by (elim ex_forward conjE) (rule conjI)
qed

end
