(* ===== verification/Display_Changer.thy ===== *)
theory Display_Changer
  imports Display_Config Alarm
begin

text \<open>
  The mediating display changer (\<^verbatim>\<open>src/server/scene/mediating_display_changer.cpp\<close>), which decides which display
  configuration is in use: the base configuration, the one of the focused session, or a preview; and the authorisation
  in front of it (\<^verbatim>\<open>src/server/frontend/authorizing_display_changer.cpp\<close>).

  The display is a parameter: \<open>hw_configure\<close> is \<open>Display::configure\<close>, which sets the configuration or throws and leaves
  some other behind, and \<open>hw_apply_if_preserves\<close> is \<open>apply_if_configuration_preserves_display_buffers\<close>.  What they throw
  is derived from \<open>std::exception\<close>.  The server action queue is a list of closures in the order they were enqueued, of which the main
  loop runs the first while processing is not paused; an exception that leaves one of them or the alarm ends the main loop (\<open>handle_exception\<close> in
  \<^verbatim>\<open>src/server/glib_main_loop.cpp\<close>).  Weak pointers to sessions lock while the session is in \<open>alive\<close>.

  The lemmas show that the display is configured only while the compositor is stopped and that it runs afterwards, that a
  failed change leaves the old configuration in use, and that input is confined to the outputs in use.  Which configuration
  that is, and who decides it, is the subject of \<open>Display_Focus\<close>.
\<close>

section \<open>The state\<close>

type_synonym DisplayClient = nat

record Hardware =
  hw_configure :: "DisplayConfiguration \<Rightarrow> DisplayConfiguration \<Rightarrow> (exn \<times> DisplayConfiguration) option"
  hw_apply_if_preserves :: "DisplayConfiguration \<Rightarrow> DisplayConfiguration \<Rightarrow> (exn \<times> DisplayConfiguration) + bool"

datatype ChangerEvent =
    Compositor_stop
  | Compositor_start
  | Display_configure DisplayConfiguration
  | Initial_configuration DisplayConfiguration
  | Configuration_applied DisplayConfiguration
  | Configuration_failed DisplayConfiguration
  | Catastrophic_configuration_error DisplayConfiguration
  | Base_configuration_updated DisplayConfiguration
  | Session_configuration_applied DisplayClient DisplayConfiguration
  | Session_configuration_removed DisplayClient
  | Send_display_config DisplayClient DisplayConfiguration
  | Send_configuration_failed DisplayClient

datatype ServerAction =
    Apply_for_session DisplayClient DisplayConfiguration
  | Apply_base_for_session DisplayClient
  | Apply_preview DisplayClient DisplayConfiguration
  | Revert_preview DisplayClient
  | Hardware_change DisplayConfiguration
  | Focus_change DisplayClient
  | No_focus
  | Session_stopping DisplayClient
  | Set_base DisplayConfiguration

record MediatingDisplayChanger =
  display_conf :: DisplayConfiguration
  changer_log :: "ChangerEvent list"
  input_rectangles :: "Rectangle list"
  session_container :: "DisplayClient list"
  alive :: "DisplayClient set"
  config_map :: "DisplayClient \<Rightarrow> DisplayConfiguration option"
  focused_session :: "DisplayClient option"
  base_configuration :: DisplayConfiguration
  base_configuration_applied :: bool
  preview_configuration_timeout :: "(AlarmImpl \<times> DisplayClient) option"
  currently_previewing_session :: "DisplayClient option"
  action_queue :: "ServerAction list"
  processing_paused :: bool
  main_loop_exception :: "exn option"

definition changer_event :: "ChangerEvent \<Rightarrow> MediatingDisplayChanger \<Rightarrow> MediatingDisplayChanger" where
  "changer_event e md = md\<lparr>changer_log := changer_log md @ [e]\<rparr>"

definition enqueue_action :: "ServerAction \<Rightarrow> MediatingDisplayChanger \<Rightarrow> MediatingDisplayChanger" where
  "enqueue_action a md = md\<lparr>action_queue := action_queue md @ [a]\<rparr>"

section \<open>Applying a configuration\<close>

definition configuration_has_new_outputs_enabled :: "DisplayConfiguration \<Rightarrow> DisplayConfiguration \<Rightarrow> bool" where
  "configuration_has_new_outputs_enabled existing updated \<longleftrightarrow>
     (let currently_enabled = map out_id (filter used (outputs existing))
      in list_ex (\<lambda>out. used out \<and> out_id out \<notin> set currently_enabled) (outputs updated))"

definition used_rectangles :: "DisplayConfiguration \<Rightarrow> Rectangle list" where
  "used_rectangles conf =
     map (\<lambda>out. mk_rect (out_top_left out) (mode_size (modes out ! current_mode_index out)))
       (filter (\<lambda>out. used out \<and> connected out \<and> power_mode out = mir_power_mode_on \<and> current_mode_index out < length (modes out))
         (outputs conf))"

definition update_input_rectangles :: "DisplayConfiguration \<Rightarrow> MediatingDisplayChanger \<Rightarrow> MediatingDisplayChanger" where
  "update_input_rectangles conf md =
     md\<lparr>input_rectangles := used_rectangles conf\<rparr>"

text \<open>\<open>ApplyNowAndRevertOnScopeExit\<close>: the compositor starts again also when \<open>configure\<close> throws.\<close>

definition configure_with_compositor_stopped ::
  "Hardware \<Rightarrow> DisplayConfiguration \<Rightarrow> MediatingDisplayChanger \<Rightarrow> (MediatingDisplayChanger, unit) outcome" where
  "configure_with_compositor_stopped hw conf md =
     (let md = changer_event (Display_configure conf) (changer_event Compositor_stop md)
      in case hw_configure hw (display_conf md) conf of
           None \<Rightarrow> (Inr (), changer_event Compositor_start (md\<lparr>display_conf := conf\<rparr>))
         | Some (e, c) \<Rightarrow> (Inl e, changer_event Compositor_start (md\<lparr>display_conf := c\<rparr>)))"

definition try_config :: "Hardware \<Rightarrow> DisplayConfiguration \<Rightarrow> MediatingDisplayChanger \<Rightarrow> (MediatingDisplayChanger, unit) outcome" where
  "try_config hw conf md =
     and_then
       (if configuration_has_new_outputs_enabled (display_conf md) conf
        then configure_with_compositor_stopped hw conf md
        else case hw_apply_if_preserves hw (display_conf md) conf of
               Inl (e, c) \<Rightarrow> (Inl e, md\<lparr>display_conf := c\<rparr>)
             | Inr True \<Rightarrow> (Inr (), md\<lparr>display_conf := conf\<rparr>)
             | Inr False \<Rightarrow> configure_with_compositor_stopped hw conf md)
       (\<lambda>_ md. (Inr (),
          (update_input_rectangles conf (changer_event (Configuration_applied conf) md))\<lparr>base_configuration_applied := False\<rparr>))"

definition apply_config :: "Hardware \<Rightarrow> DisplayConfiguration \<Rightarrow> MediatingDisplayChanger \<Rightarrow> (MediatingDisplayChanger, unit) outcome" where
  "apply_config hw conf md =
     (let existing_configuration = display_conf md
      in case try_config hw conf md of
           (Inr _, md) \<Rightarrow> (Inr (), md)
         | (Inl e, md) \<Rightarrow>
             (case configure_with_compositor_stopped hw existing_configuration md of
                (Inl e', md) \<Rightarrow> (Inl e', changer_event (Catastrophic_configuration_error existing_configuration) md)
              | (Inr _, md) \<Rightarrow> (Inl e, changer_event (Configuration_failed conf) md)))"

definition apply_base_config :: "Hardware \<Rightarrow> MediatingDisplayChanger \<Rightarrow> (MediatingDisplayChanger, unit) outcome" where
  "apply_base_config hw md =
     and_then (apply_config hw (base_configuration md) md) (\<lambda>_ md. (Inr (), md\<lparr>base_configuration_applied := True\<rparr>))"

definition send_config_to_all_sessions :: "DisplayConfiguration \<Rightarrow> MediatingDisplayChanger \<Rightarrow> MediatingDisplayChanger" where
  "send_config_to_all_sessions conf md = fold (\<lambda>s. changer_event (Send_display_config s conf)) (session_container md) md"

text \<open>\<open>try { ... } catch (std::exception const&) { session->send_error(...) }\<close>\<close>

definition or_send_error :: "DisplayClient \<Rightarrow> (MediatingDisplayChanger, unit) outcome \<Rightarrow> (MediatingDisplayChanger, unit) outcome" where
  "or_send_error s res = (case res of (Inr _, md) \<Rightarrow> (Inr (), md) | (Inl _, md) \<Rightarrow> (Inr (), changer_event (Send_configuration_failed s) md))"

section \<open>The handlers\<close>

definition focus_change_handler :: "Hardware \<Rightarrow> DisplayClient \<Rightarrow> MediatingDisplayChanger \<Rightarrow> (MediatingDisplayChanger, unit) outcome" where
  "focus_change_handler hw s md =
     (let md = md\<lparr>focused_session := Some s\<rparr>
      in case config_map md s of
           Some conf \<Rightarrow> or_send_error s (apply_config hw conf md)
         | None \<Rightarrow> if \<not> base_configuration_applied md then apply_base_config hw md else (Inr (), md))"

definition no_focus_handler :: "Hardware \<Rightarrow> MediatingDisplayChanger \<Rightarrow> (MediatingDisplayChanger, unit) outcome" where
  "no_focus_handler hw md =
     (let md = md\<lparr>focused_session := None\<rparr>
      in if \<not> base_configuration_applied md then apply_base_config hw md else (Inr (), md))"

definition session_stopping_handler :: "DisplayClient \<Rightarrow> MediatingDisplayChanger \<Rightarrow> MediatingDisplayChanger" where
  "session_stopping_handler s md = md\<lparr>config_map := (config_map md)(s := None)\<rparr>"

definition focused :: "MediatingDisplayChanger \<Rightarrow> DisplayClient option" where
  "focused md = (case focused_session md of Some s \<Rightarrow> if s \<in> alive md then Some s else None | None \<Rightarrow> None)"

definition apply_for_session ::
  "Hardware \<Rightarrow> DisplayClient \<Rightarrow> DisplayConfiguration \<Rightarrow> MediatingDisplayChanger \<Rightarrow> (MediatingDisplayChanger, unit) outcome" where
  "apply_for_session hw s conf md = (if focused md = Some s then or_send_error s (apply_config hw conf md) else (Inr (), md))"

definition apply_base_and_tell :: "Hardware \<Rightarrow> DisplayClient \<Rightarrow> MediatingDisplayChanger \<Rightarrow> (MediatingDisplayChanger, unit) outcome" where
  "apply_base_and_tell hw s md =
     and_then (apply_base_config hw md) (\<lambda>_ md. (Inr (), changer_event (Send_display_config s (base_configuration md)) md))"

fun is_runtime_error :: "exn \<Rightarrow> bool" where
  "is_runtime_error (runtime_error _) = True"
| "is_runtime_error (client_visible_error _) = True"
| "is_runtime_error security_check_error = True"
| "is_runtime_error _ = False"

definition apply_preview ::
  "Hardware \<Rightarrow> DisplayClient \<Rightarrow> DisplayConfiguration \<Rightarrow> MediatingDisplayChanger \<Rightarrow> (MediatingDisplayChanger, unit) outcome" where
  "apply_preview hw s conf md =
     (case apply_config hw conf md of
        (Inr _, md) \<Rightarrow> (Inr (), changer_event (Send_display_config s conf) md)
      | (Inl e, md) \<Rightarrow>
          if is_runtime_error e then (Inr (), changer_event (Send_configuration_failed s) md) else (Inl e, md))"

definition hardware_change ::
  "Hardware \<Rightarrow> (DisplayConfiguration \<Rightarrow> DisplayConfiguration) \<Rightarrow> DisplayConfiguration \<Rightarrow> MediatingDisplayChanger \<Rightarrow> MediatingDisplayChanger" where
  "hardware_change hw policy conf md =
     (let existing_configuration = base_configuration md;
          conf = policy conf;
          md = md\<lparr>base_configuration := conf\<rparr>;
          md = (if base_configuration_applied md
                then case apply_base_config hw md of
                       (Inr _, md) \<Rightarrow> changer_event (Base_configuration_updated conf) md
                     | (Inl _, md) \<Rightarrow> md\<lparr>base_configuration := existing_configuration\<rparr>
                else md);
          md = md\<lparr>config_map := Map.empty\<rparr>
      in send_config_to_all_sessions (base_configuration md) md)"

definition set_base :: "Hardware \<Rightarrow> DisplayConfiguration \<Rightarrow> MediatingDisplayChanger \<Rightarrow> (MediatingDisplayChanger, unit) outcome" where
  "set_base hw conf md =
     (let md = md\<lparr>base_configuration := conf\<rparr>
      in and_then (if base_configuration_applied md then apply_base_config hw md else (Inr (), md))
           (\<lambda>_ md. (Inr (), send_config_to_all_sessions conf (changer_event (Base_configuration_updated conf) md))))"

definition run_action ::
  "Hardware \<Rightarrow> (DisplayConfiguration \<Rightarrow> DisplayConfiguration) \<Rightarrow> ServerAction \<Rightarrow> MediatingDisplayChanger \<Rightarrow> (MediatingDisplayChanger, unit) outcome" where
  "run_action hw policy a md =
     (case a of
        Apply_for_session s conf \<Rightarrow> if s \<in> alive md then apply_for_session hw s conf md else (Inr (), md)
      | Apply_base_for_session s \<Rightarrow> if s \<in> alive md then or_send_error s (apply_base_config hw md) else (Inr (), md)
      | Apply_preview s conf \<Rightarrow> if s \<in> alive md then apply_preview hw s conf md else (Inr (), md)
      | Revert_preview s \<Rightarrow> if s \<in> alive md then apply_base_and_tell hw s md else (Inr (), md)
      | Hardware_change conf \<Rightarrow> (Inr (), hardware_change hw policy conf md)
      | Focus_change s \<Rightarrow> if s \<in> alive md then focus_change_handler hw s md else (Inr (), md)
      | No_focus \<Rightarrow> no_focus_handler hw md
      | Session_stopping s \<Rightarrow> if s \<in> alive md then (Inr (), session_stopping_handler s md) else (Inr (), md)
      | Set_base conf \<Rightarrow> set_base hw conf md)"

section \<open>The main loop\<close>

definition handle_exception :: "(MediatingDisplayChanger, unit) outcome \<Rightarrow> MediatingDisplayChanger" where
  "handle_exception res = (case res of (Inr _, md) \<Rightarrow> md | (Inl e, md) \<Rightarrow> md\<lparr>main_loop_exception := Some e\<rparr>)"

definition process_action :: "Hardware \<Rightarrow> (DisplayConfiguration \<Rightarrow> DisplayConfiguration) \<Rightarrow> MediatingDisplayChanger \<Rightarrow> MediatingDisplayChanger" where
  "process_action hw policy md =
     (case action_queue md of
        [] \<Rightarrow> md
      | a # q \<Rightarrow> if processing_paused md then md else handle_exception (run_action hw policy a (md\<lparr>action_queue := q\<rparr>)))"

definition preview_timed_out :: "Hardware \<Rightarrow> MediatingDisplayChanger \<Rightarrow> MediatingDisplayChanger" where
  "preview_timed_out hw md =
     (case preview_configuration_timeout md of
        None \<Rightarrow> md
      | Some (al, s) \<Rightarrow>
          if alarm_state al = Alarm_pending
          then let md = md\<lparr>preview_configuration_timeout := Some (alarm_dispatch al, s)\<rparr>
               in if s \<in> alive md then handle_exception (apply_base_and_tell hw s md) else md
          else md)"

definition pause_display_config_processing :: "MediatingDisplayChanger \<Rightarrow> MediatingDisplayChanger" where
  "pause_display_config_processing md = md\<lparr>processing_paused := True\<rparr>"

definition resume_display_config_processing :: "MediatingDisplayChanger \<Rightarrow> MediatingDisplayChanger" where
  "resume_display_config_processing md = md\<lparr>processing_paused := False\<rparr>"

section \<open>The requests\<close>

definition configure_display :: "DisplayClient \<Rightarrow> DisplayConfiguration \<Rightarrow> MediatingDisplayChanger \<Rightarrow> MediatingDisplayChanger" where
  "configure_display s conf md =
     (let md = changer_event (Session_configuration_applied s conf) (md\<lparr>config_map := (config_map md)(s \<mapsto> conf)\<rparr>)
      in if focused md \<noteq> Some s then md else enqueue_action (Apply_for_session s conf) md)"

definition remove_session_configuration :: "DisplayClient \<Rightarrow> MediatingDisplayChanger \<Rightarrow> MediatingDisplayChanger" where
  "remove_session_configuration s md =
     (let md = (if config_map md s \<noteq> None
                then changer_event (Session_configuration_removed s) (md\<lparr>config_map := (config_map md)(s := None)\<rparr>)
                else md)
      in if focused md \<noteq> Some s then md else enqueue_action (Apply_base_for_session s) md)"

definition preview_base_configuration ::
  "int \<Rightarrow> DisplayClient \<Rightarrow> DisplayConfiguration \<Rightarrow> int \<Rightarrow> MediatingDisplayChanger \<Rightarrow> (MediatingDisplayChanger, unit) outcome" where
  "preview_base_configuration now s conf timeout md =
     (if preview_configuration_timeout md \<noteq> None
      then (Inl (client_visible_error ''Base display configuration already in progress''), md)
      else
        let al = snd (alarm_reschedule_in now timeout AlarmImpl_new);
            md = md\<lparr>preview_configuration_timeout := Some (al, s), currently_previewing_session := Some s\<rparr>
        in (Inr (), enqueue_action (Apply_preview s conf) md))"

definition set_base_configuration :: "DisplayConfiguration \<Rightarrow> MediatingDisplayChanger \<Rightarrow> MediatingDisplayChanger" where
  "set_base_configuration conf md = enqueue_action (Set_base conf) md"

definition confirm_base_configuration :: "DisplayConfiguration \<Rightarrow> MediatingDisplayChanger \<Rightarrow> MediatingDisplayChanger" where
  "confirm_base_configuration confirmed_conf md =
     set_base_configuration confirmed_conf
       (md\<lparr>preview_configuration_timeout := None, currently_previewing_session := None\<rparr>)"

definition cancel_base_configuration_preview :: "DisplayClient \<Rightarrow> MediatingDisplayChanger \<Rightarrow> (MediatingDisplayChanger, unit) outcome" where
  "cancel_base_configuration_preview s md =
     (case preview_configuration_timeout md of
        Some (al, _) \<Rightarrow>
          if currently_previewing_session md = Some s \<and> s \<in> alive md
          then let md = md\<lparr>preview_configuration_timeout := None, currently_previewing_session := None\<rparr>
               in (Inr (), if fst (alarm_cancel al) then enqueue_action (Revert_preview s) md else md)
          else (Inl (client_visible_error ''No base display configuration preview in progress''), md)
      | None \<Rightarrow> (Inl (client_visible_error ''No base display configuration preview in progress''), md))"

definition configure_for_hardware_change :: "DisplayConfiguration \<Rightarrow> MediatingDisplayChanger \<Rightarrow> MediatingDisplayChanger" where
  "configure_for_hardware_change conf md = enqueue_action (Hardware_change conf) md"

text \<open>The handlers the constructor registers put their work on the queue.\<close>

definition focus_changed :: "DisplayClient \<Rightarrow> MediatingDisplayChanger \<Rightarrow> MediatingDisplayChanger" where
  "focus_changed s md = enqueue_action (Focus_change s) md"

definition focus_lost :: "MediatingDisplayChanger \<Rightarrow> MediatingDisplayChanger" where
  "focus_lost md = enqueue_action No_focus md"

definition session_stopping :: "DisplayClient \<Rightarrow> MediatingDisplayChanger \<Rightarrow> MediatingDisplayChanger" where
  "session_stopping s md = enqueue_action (Session_stopping s) md"

definition new_MediatingDisplayChanger :: "DisplayConfiguration \<Rightarrow> DisplayClient list \<Rightarrow> DisplayClient set \<Rightarrow> MediatingDisplayChanger" where
  "new_MediatingDisplayChanger conf container living =
     update_input_rectangles conf
       \<lparr>display_conf = conf, changer_log = [Initial_configuration conf], input_rectangles = [], session_container = container,
        alive = living, config_map = Map.empty, focused_session = None, base_configuration = conf, base_configuration_applied = True,
        preview_configuration_timeout = None, currently_previewing_session = None, action_queue = [], processing_paused = False,
        main_loop_exception = None\<rparr>"

section \<open>Authorisation\<close>

record AuthorizingDisplayChanger =
  configure_display_is_allowed :: bool
  set_base_configuration_is_allowed :: bool

definition auth_configure ::
  "AuthorizingDisplayChanger \<Rightarrow> DisplayClient \<Rightarrow> DisplayConfiguration \<Rightarrow> MediatingDisplayChanger \<Rightarrow> (MediatingDisplayChanger, unit) outcome" where
  "auth_configure au s conf md =
     (if configure_display_is_allowed au then (Inr (), configure_display s conf md)
      else (Inl (runtime_error ''not authorized to apply display configurations''), md))"

definition auth_remove_session_configuration ::
  "AuthorizingDisplayChanger \<Rightarrow> DisplayClient \<Rightarrow> MediatingDisplayChanger \<Rightarrow> (MediatingDisplayChanger, unit) outcome" where
  "auth_remove_session_configuration au s md =
     (if configure_display_is_allowed au then (Inr (), remove_session_configuration s md)
      else (Inl (runtime_error ''not authorized to remove display configurations''), md))"

definition auth_set_base_configuration ::
  "AuthorizingDisplayChanger \<Rightarrow> DisplayConfiguration \<Rightarrow> MediatingDisplayChanger \<Rightarrow> (MediatingDisplayChanger, unit) outcome" where
  "auth_set_base_configuration au conf md =
     (if set_base_configuration_is_allowed au then (Inr (), set_base_configuration conf md)
      else (Inl (runtime_error ''not authorized to set base display configurations''), md))"

definition auth_preview_base_configuration ::
  "AuthorizingDisplayChanger \<Rightarrow> int \<Rightarrow> DisplayClient \<Rightarrow> DisplayConfiguration \<Rightarrow> int \<Rightarrow> MediatingDisplayChanger \<Rightarrow>
   (MediatingDisplayChanger, unit) outcome" where
  "auth_preview_base_configuration au now s conf timeout md =
     (if set_base_configuration_is_allowed au then preview_base_configuration now s conf timeout md
      else (Inl (client_visible_error ''Not authorized to set base display configuration''), md))"

definition auth_confirm_base_configuration ::
  "AuthorizingDisplayChanger \<Rightarrow> DisplayConfiguration \<Rightarrow> MediatingDisplayChanger \<Rightarrow> (MediatingDisplayChanger, unit) outcome" where
  "auth_confirm_base_configuration au conf md =
     (if set_base_configuration_is_allowed au then (Inr (), confirm_base_configuration conf md)
      else (Inl (runtime_error ''not authorized to set base display configurations''), md))"

definition auth_cancel_base_configuration_preview ::
  "AuthorizingDisplayChanger \<Rightarrow> DisplayClient \<Rightarrow> MediatingDisplayChanger \<Rightarrow> (MediatingDisplayChanger, unit) outcome" where
  "auth_cancel_base_configuration_preview au s md = cancel_base_configuration_preview s md"


section \<open>What is applied\<close>

lemma changer_event_frame [simp]:
  "display_conf (changer_event e md) = display_conf md" "changer_log (changer_event e md) = changer_log md @ [e]"
  "input_rectangles (changer_event e md) = input_rectangles md" "session_container (changer_event e md) = session_container md"
  "alive (changer_event e md) = alive md" "config_map (changer_event e md) = config_map md"
  "focused_session (changer_event e md) = focused_session md" "base_configuration (changer_event e md) = base_configuration md"
  "base_configuration_applied (changer_event e md) = base_configuration_applied md"
  "preview_configuration_timeout (changer_event e md) = preview_configuration_timeout md"
  "currently_previewing_session (changer_event e md) = currently_previewing_session md"
  "action_queue (changer_event e md) = action_queue md" "processing_paused (changer_event e md) = processing_paused md"
  "main_loop_exception (changer_event e md) = main_loop_exception md"
  by (simp_all add: changer_event_def)

text \<open>The part of the state that no configuration of the display touches.\<close>

definition requests_of :: "MediatingDisplayChanger \<Rightarrow> _" where
  "requests_of md = (session_container md, alive md, config_map md, focused_session md, base_configuration md,
     preview_configuration_timeout md, currently_previewing_session md, action_queue md, processing_paused md, main_loop_exception md)"

lemma requests_of_eq:
  "requests_of md' = requests_of md \<longleftrightarrow>
     session_container md' = session_container md \<and> alive md' = alive md \<and> config_map md' = config_map md \<and>
     focused_session md' = focused_session md \<and> base_configuration md' = base_configuration md \<and>
     preview_configuration_timeout md' = preview_configuration_timeout md \<and>
     currently_previewing_session md' = currently_previewing_session md \<and> action_queue md' = action_queue md \<and>
     processing_paused md' = processing_paused md \<and> main_loop_exception md' = main_loop_exception md"
  by (auto simp: requests_of_def)

text \<open>The compositor may only be stopped while it runs, and the display only configured while it does not.\<close>

fun compositor_after :: "bool \<Rightarrow> ChangerEvent list \<Rightarrow> bool option" where
  "compositor_after running [] = Some running"
| "compositor_after running (e # es) =
     (case e of
        Compositor_stop \<Rightarrow> if running then compositor_after False es else None
      | Compositor_start \<Rightarrow> if running then None else compositor_after True es
      | Display_configure _ \<Rightarrow> if running then None else compositor_after False es
      | _ \<Rightarrow> compositor_after running es)"

lemma compositor_after_append:
  "compositor_after r (xs @ ys) = (case compositor_after r xs of None \<Rightarrow> None | Some r' \<Rightarrow> compositor_after r' ys)"
proof (induction xs arbitrary: r)
  case (Cons e xs)
  then show ?case by (cases e) simp_all
qed simp

definition compositor_undisturbed :: "MediatingDisplayChanger \<Rightarrow> MediatingDisplayChanger \<Rightarrow> bool" where
  "compositor_undisturbed md md' \<longleftrightarrow> (\<exists>es. changer_log md' = changer_log md @ es \<and> compositor_after True es = Some True)"

lemma undisturbed_refl [simp]: "compositor_undisturbed md md"
  by (simp add: compositor_undisturbed_def)

lemma undisturbed_trans: "compositor_undisturbed a b \<Longrightarrow> compositor_undisturbed b c \<Longrightarrow> compositor_undisturbed a c"
  by (auto simp: compositor_undisturbed_def compositor_after_append)

definition calm :: "MediatingDisplayChanger \<Rightarrow> bool" where
  "calm md \<longleftrightarrow> (\<forall>c. Catastrophic_configuration_error c \<notin> set (changer_log md))"

lemma calm_before: "compositor_undisturbed md md' \<Longrightarrow> calm md' \<Longrightarrow> calm md"
  by (auto simp: compositor_undisturbed_def calm_def)

lemma configure_stopped_result:
  assumes "configure_with_compositor_stopped hw conf md = (r, md')"
  shows "requests_of md' = requests_of md" "input_rectangles md' = input_rectangles md"
    "base_configuration_applied md' = base_configuration_applied md" "compositor_undisturbed md md'"
    "r = Inr () \<Longrightarrow> display_conf md' = conf" "calm md' \<longleftrightarrow> calm md"
proof -
  let ?md = "changer_event (Display_configure conf) (changer_event Compositor_stop md)"
  have "\<exists>c. md' = changer_event Compositor_start (?md\<lparr>display_conf := c\<rparr>) \<and> (r = Inr () \<longrightarrow> c = conf)"
    using assms by (cases "hw_configure hw (display_conf md) conf") (auto simp: configure_with_compositor_stopped_def Let_def)
  then obtain c where c: "md' = changer_event Compositor_start (?md\<lparr>display_conf := c\<rparr>)" "r = Inr () \<longrightarrow> c = conf" by blast
  have log: "changer_log md' = changer_log md @ [Compositor_stop, Display_configure conf, Compositor_start]" by (simp add: c(1))
  show "requests_of md' = requests_of md" by (simp add: c(1) requests_of_def)
  show "compositor_undisturbed md md'" unfolding compositor_undisturbed_def log by simp
  show "calm md' \<longleftrightarrow> calm md" by (simp add: calm_def log)
  show "input_rectangles md' = input_rectangles md" "base_configuration_applied md' = base_configuration_applied md"
    "r = Inr () \<Longrightarrow> display_conf md' = conf"
    using c(2) by (simp_all add: c(1))
qed

lemma try_config_result:
  assumes "try_config hw conf md = (r, md')"
  shows "requests_of md' = requests_of md" "compositor_undisturbed md md'" "calm md' \<longleftrightarrow> calm md"
    "r = Inr () \<Longrightarrow> display_conf md' = conf \<and> input_rectangles md' = used_rectangles conf \<and> \<not> base_configuration_applied md'"
    "r \<noteq> Inr () \<Longrightarrow> input_rectangles md' = input_rectangles md \<and> base_configuration_applied md' = base_configuration_applied md"
proof -
  obtain r1 md1 where f: "(if configuration_has_new_outputs_enabled (display_conf md) conf then configure_with_compositor_stopped hw conf md
      else case hw_apply_if_preserves hw (display_conf md) conf of
             Inl (e, c) \<Rightarrow> (Inl e, md\<lparr>display_conf := c\<rparr>)
           | Inr True \<Rightarrow> (Inr (), md\<lparr>display_conf := conf\<rparr>)
           | Inr False \<Rightarrow> configure_with_compositor_stopped hw conf md) = (r1, md1)" (is "?first = _")
    by (cases ?first)
  have "(configure_with_compositor_stopped hw conf md = (r1, md1)) \<or> (\<exists>c. md1 = md\<lparr>display_conf := c\<rparr> \<and> (r1 = Inr () \<longrightarrow> c = conf))"
    using f by (auto split: if_splits sum.splits prod.splits bool.splits)
  then have m: "requests_of md1 = requests_of md" "compositor_undisturbed md md1" "calm md1 \<longleftrightarrow> calm md" "r1 = Inr () \<Longrightarrow> display_conf md1 = conf"
    "input_rectangles md1 = input_rectangles md" "base_configuration_applied md1 = base_configuration_applied md"
    using configure_stopped_result [of hw conf md r1 md1]
    by (auto simp: requests_of_def compositor_undisturbed_def calm_def)
  let ?done = "(update_input_rectangles conf (changer_event (Configuration_applied conf) md1))\<lparr>base_configuration_applied := False\<rparr>"
  have res: "(r, md') = (case r1 of Inl e \<Rightarrow> (Inl e, md1) | Inr _ \<Rightarrow> (Inr (), ?done))"
    using assms unfolding try_config_def f by (auto simp: and_then_def split: sum.splits)
  have d: "requests_of ?done = requests_of md1" "changer_log ?done = changer_log md1 @ [Configuration_applied conf]"
    "display_conf ?done = display_conf md1" "input_rectangles ?done = used_rectangles conf" "\<not> base_configuration_applied ?done"
    by (simp_all add: requests_of_def update_input_rectangles_def)
  have u: "compositor_undisturbed md1 ?done" unfolding compositor_undisturbed_def d(2) by simp
  have q: "calm ?done \<longleftrightarrow> calm md1" by (simp add: calm_def d(2))
  show "requests_of md' = requests_of md" using res m(1) d(1) by (auto split: sum.splits)
  show "compositor_undisturbed md md'" using res m(2) undisturbed_trans [OF m(2) u] by (auto split: sum.splits)
  show "calm md' \<longleftrightarrow> calm md" using res m(3) q by (auto split: sum.splits)
  show "r = Inr () \<Longrightarrow> display_conf md' = conf \<and> input_rectangles md' = used_rectangles conf \<and> \<not> base_configuration_applied md'"
    using res m(4) d by (auto split: sum.splits)
  show "r \<noteq> Inr () \<Longrightarrow> input_rectangles md' = input_rectangles md \<and> base_configuration_applied md' = base_configuration_applied md"
    using res m(5,6) by (auto split: sum.splits)
qed

lemma apply_config_result:
  assumes "apply_config hw conf md = (r, md')"
  shows "requests_of md' = requests_of md" "compositor_undisturbed md md'"
    "r = Inr () \<Longrightarrow> display_conf md' = conf \<and> input_rectangles md' = used_rectangles conf \<and> \<not> base_configuration_applied md' \<and> (calm md' \<longleftrightarrow> calm md)"
    "r \<noteq> Inr () \<Longrightarrow> input_rectangles md' = input_rectangles md \<and> base_configuration_applied md' = base_configuration_applied md"
    "r \<noteq> Inr () \<Longrightarrow> calm md' \<Longrightarrow> display_conf md' = display_conf md"
proof -
  obtain r1 md1 where t: "try_config hw conf md = (r1, md1)" by (cases "try_config hw conf md")
  obtain r2 md2 where c: "configure_with_compositor_stopped hw (display_conf md) md1 = (r2, md2)"
    by (cases "configure_with_compositor_stopped hw (display_conf md) md1")
  note t1 = try_config_result [OF t] and c1 = configure_stopped_result [OF c]
  have res: "(r, md') = (case r1 of Inr _ \<Rightarrow> (Inr (), md1)
      | Inl e \<Rightarrow> (case r2 of Inl e' \<Rightarrow> (Inl e', changer_event (Catastrophic_configuration_error (display_conf md)) md2)
                          | Inr _ \<Rightarrow> (Inl e, changer_event (Configuration_failed conf) md2)))"
    using assms t c by (auto simp: apply_config_def Let_def split: sum.splits)
  show "requests_of md' = requests_of md" using res t1(1) c1(1) by (auto simp: requests_of_eq split: sum.splits)
  show "compositor_undisturbed md md'"
    using res undisturbed_trans [OF t1(2) c1(4)] t1(2)
    by (auto simp: compositor_undisturbed_def compositor_after_append split: sum.splits)
  show "r = Inr () \<Longrightarrow> display_conf md' = conf \<and> input_rectangles md' = used_rectangles conf \<and> \<not> base_configuration_applied md' \<and> (calm md' \<longleftrightarrow> calm md)"
    using res t1(3,4) by (auto split: sum.splits)
  show "r \<noteq> Inr () \<Longrightarrow> input_rectangles md' = input_rectangles md \<and> base_configuration_applied md' = base_configuration_applied md"
    using res t1(5) c1(2,3) by (auto split: sum.splits)
  show "r \<noteq> Inr () \<Longrightarrow> calm md' \<Longrightarrow> display_conf md' = display_conf md"
    using res c1(5) by (auto simp: calm_def split: sum.splits)
qed

section \<open>Every run\<close>

text \<open>The hardware may behave differently at each step; the main loop ends with the first exception that reaches it.\<close>

inductive changer_reachable :: "(DisplayConfiguration \<Rightarrow> DisplayConfiguration) \<Rightarrow> MediatingDisplayChanger \<Rightarrow> bool" for policy where
  start: "changer_reachable policy (new_MediatingDisplayChanger conf container living)"
| action: "changer_reachable policy md \<Longrightarrow> main_loop_exception md = None \<Longrightarrow> changer_reachable policy (process_action hw policy md)"
| timed_out: "changer_reachable policy md \<Longrightarrow> main_loop_exception md = None \<Longrightarrow> changer_reachable policy (preview_timed_out hw md)"
| pause: "changer_reachable policy md \<Longrightarrow> changer_reachable policy (pause_display_config_processing md)"
| resume: "changer_reachable policy md \<Longrightarrow> changer_reachable policy (resume_display_config_processing md)"
| configure: "changer_reachable policy md \<Longrightarrow> changer_reachable policy (configure_display s conf md)"
| remove: "changer_reachable policy md \<Longrightarrow> changer_reachable policy (remove_session_configuration s md)"
| preview: "changer_reachable policy md \<Longrightarrow> changer_reachable policy (snd (preview_base_configuration now s conf timeout md))"
| set_base: "changer_reachable policy md \<Longrightarrow> changer_reachable policy (set_base_configuration conf md)"
| confirm: "changer_reachable policy md \<Longrightarrow> changer_reachable policy (confirm_base_configuration conf md)"
| cancel: "changer_reachable policy md \<Longrightarrow> changer_reachable policy (snd (cancel_base_configuration_preview s md))"
| hardware: "changer_reachable policy md \<Longrightarrow> changer_reachable policy (configure_for_hardware_change conf md)"
| focus: "changer_reachable policy md \<Longrightarrow> changer_reachable policy (focus_changed s md)"
| no_focus: "changer_reachable policy md \<Longrightarrow> changer_reachable policy (focus_lost md)"
| stopping: "changer_reachable policy md \<Longrightarrow> changer_reachable policy (session_stopping s md)"
| sessions: "changer_reachable policy md \<Longrightarrow> changer_reachable policy (md\<lparr>session_container := container, alive := living\<rparr>)"

text \<open>
  Unless the hardware has refused even the configuration that was in use, input is confined to the outputs of the
  configuration in use, and the base configuration is in use when it is said to be.
\<close>

definition display_current :: "MediatingDisplayChanger \<Rightarrow> bool" where
  "display_current md \<longleftrightarrow>
     input_rectangles md = used_rectangles (display_conf md) \<and>
     (main_loop_exception md = None \<longrightarrow> base_configuration_applied md \<longrightarrow> display_conf md = base_configuration md)"

text \<open>A step of the main loop that keeps both, from a state in which no exception has reached it.\<close>

definition changes_properly :: "MediatingDisplayChanger \<Rightarrow> MediatingDisplayChanger \<Rightarrow> bool" where
  "changes_properly md md' \<longleftrightarrow>
     compositor_undisturbed md md' \<and> (calm md' \<longrightarrow> calm md \<longrightarrow> display_current md \<longrightarrow> display_current md')"

lemma properly_refl [simp]: "changes_properly md md"
  by (simp add: changes_properly_def)

lemma properly_trans: "changes_properly a b \<Longrightarrow> changes_properly b c \<Longrightarrow> changes_properly a c"
  unfolding changes_properly_def by (meson calm_before undisturbed_trans)

lemma properly_event:
  assumes "\<And>c. e \<noteq> Catastrophic_configuration_error c" and "e \<noteq> Compositor_stop" "e \<noteq> Compositor_start" "\<And>c. e \<noteq> Display_configure c"
  shows "changes_properly md (changer_event e md)"
proof -
  have "compositor_after True [e] = Some True" using assms(2-4) by (cases e) auto
  then show ?thesis by (auto simp: changes_properly_def compositor_undisturbed_def display_current_def)
qed

lemma properly_requests:
  assumes "display_conf md' = display_conf md" "changer_log md' = changer_log md" "input_rectangles md' = input_rectangles md"
    "base_configuration md' = base_configuration md" "base_configuration_applied md' = base_configuration_applied md"
    "main_loop_exception md' = main_loop_exception md"
  shows "changes_properly md md'"
  using assms by (simp add: changes_properly_def compositor_undisturbed_def display_current_def)

lemma properly_apply: "apply_config hw conf md = (r, md') \<Longrightarrow> changes_properly md md'"
  using apply_config_result [of hw conf md r md']
  by (cases "r = Inr ()") (auto simp: changes_properly_def display_current_def requests_of_eq)

lemma apply_base_result:
  assumes "apply_base_config hw md = (r, md')"
  shows "requests_of md' = requests_of md" "changes_properly md md'" "compositor_undisturbed md md'"
    "r = Inr () \<Longrightarrow> display_conf md' = base_configuration md \<and> base_configuration_applied md' \<and> input_rectangles md' = used_rectangles (base_configuration md)"
    "r \<noteq> Inr () \<Longrightarrow> input_rectangles md' = input_rectangles md \<and> base_configuration_applied md' = base_configuration_applied md"
    "r \<noteq> Inr () \<Longrightarrow> calm md' \<Longrightarrow> display_conf md' = display_conf md"
proof -
  obtain r1 md1 where a: "apply_config hw (base_configuration md) md = (r1, md1)" by (cases "apply_config hw (base_configuration md) md")
  note a1 = apply_config_result [OF a]
  have res: "(r, md') = (case r1 of Inl e \<Rightarrow> (Inl e, md1) | Inr _ \<Rightarrow> (Inr (), md1\<lparr>base_configuration_applied := True\<rparr>))"
    using assms a by (auto simp: apply_base_config_def and_then_def split: sum.splits)
  show rq: "requests_of md' = requests_of md" using res a1(1) by (auto simp: requests_of_def split: sum.splits)
  show un: "compositor_undisturbed md md'" using res a1(2) by (auto simp: compositor_undisturbed_def split: sum.splits)
  show ok: "r = Inr () \<Longrightarrow> display_conf md' = base_configuration md \<and> base_configuration_applied md' \<and> input_rectangles md' = used_rectangles (base_configuration md)"
    using res a1(3) by (auto split: sum.splits)
  show no: "r \<noteq> Inr () \<Longrightarrow> input_rectangles md' = input_rectangles md \<and> base_configuration_applied md' = base_configuration_applied md"
    using res a1(4) by (auto split: sum.splits)
  show dis: "r \<noteq> Inr () \<Longrightarrow> calm md' \<Longrightarrow> display_conf md' = display_conf md" using res a1(5) by (auto split: sum.splits)
  show "changes_properly md md'"
    using un rq ok no dis by (cases "r = Inr ()") (auto simp: changes_properly_def display_current_def requests_of_eq)
qed

lemma properly_send_all: "changes_properly md (send_config_to_all_sessions conf md)"
proof -
  have "changes_properly md (fold (\<lambda>s. changer_event (Send_display_config s conf)) ss md)" for ss
  proof (induction ss arbitrary: md)
    case (Cons s ss)
    then show ?case using properly_trans [OF properly_event [of "Send_display_config s conf" md]] by simp
  qed simp
  then show ?thesis by (simp add: send_config_to_all_sessions_def)
qed

lemma properly_or_send_error:
  assumes "changes_properly md md'" shows "changes_properly md (snd (or_send_error s (r, md')))"
  using properly_trans [OF assms properly_event [of "Send_configuration_failed s" md']] assms
  by (auto simp: or_send_error_def split: sum.splits)

lemma properly_focus_change:
  assumes "focus_change_handler hw s md = (r, md')"
  shows "changes_properly md md'"
proof -
  let ?md = "md\<lparr>focused_session := Some s\<rparr>"
  have p: "changes_properly md ?md" by (rule properly_requests) simp_all
  show ?thesis
  proof (cases "config_map md s")
    case None
    then show ?thesis using assms p apply_base_result(2) [of hw ?md r md'] properly_trans [OF p]
      by (auto simp: focus_change_handler_def Let_def split: if_splits)
  next
    case (Some conf)
    obtain r1 md1 where a: "apply_config hw conf ?md = (r1, md1)" by (cases "apply_config hw conf ?md")
    have "md' = snd (or_send_error s (r1, md1))" using assms Some a by (simp add: focus_change_handler_def Let_def)
    then show ?thesis using properly_trans [OF p properly_or_send_error [OF properly_apply [OF a]]] by simp
  qed
qed

lemma properly_no_focus:
  assumes "no_focus_handler hw md = (r, md')" shows "changes_properly md md'"
proof -
  let ?md = "md\<lparr>focused_session := None\<rparr>"
  have p: "changes_properly md ?md" by (rule properly_requests) simp_all
  show ?thesis using assms p apply_base_result(2) [of hw ?md r md'] properly_trans [OF p]
    by (auto simp: no_focus_handler_def Let_def split: if_splits)
qed

lemma properly_base_and_tell: "apply_base_and_tell hw s md = (r, md') \<Longrightarrow> changes_properly md md'"
proof -
  assume a: "apply_base_and_tell hw s md = (r, md')"
  obtain r1 md1 where b: "apply_base_config hw md = (r1, md1)" by (cases "apply_base_config hw md")
  note p = apply_base_result(2) [OF b]
  show ?thesis using a b p properly_trans [OF p properly_event [of "Send_display_config s (base_configuration md1)" md1]]
    by (auto simp: apply_base_and_tell_def and_then_def split: sum.splits)
qed

lemma properly_preview: "apply_preview hw s conf md = (r, md') \<Longrightarrow> changes_properly md md'"
proof -
  assume a: "apply_preview hw s conf md = (r, md')"
  obtain r1 md1 where b: "apply_config hw conf md = (r1, md1)" by (cases "apply_config hw conf md")
  note p = properly_apply [OF b]
  show ?thesis
    using a b p properly_trans [OF p properly_event [of "Send_display_config s conf" md1]]
      properly_trans [OF p properly_event [of "Send_configuration_failed s" md1]]
    by (auto simp: apply_preview_def split: sum.splits if_splits)
qed

text \<open>Setting another base configuration breaks \<open>display_current\<close> until it is applied.\<close>

lemma base_change_result:
  assumes "apply_base_config hw (md\<lparr>base_configuration := conf\<rparr>) = (r, md')"
  shows "compositor_undisturbed md md'" "base_configuration md' = conf" "main_loop_exception md' = main_loop_exception md"
    "r = Inr () \<Longrightarrow> display_current md'"
    "r \<noteq> Inr () \<Longrightarrow> calm md' \<Longrightarrow> display_conf md' = display_conf md"
    "r \<noteq> Inr () \<Longrightarrow> input_rectangles md' = input_rectangles md \<and> base_configuration_applied md' = base_configuration_applied md"
  using apply_base_result [OF assms] by (auto simp: compositor_undisturbed_def requests_of_eq display_current_def)

lemma properly_hardware_change:
  "changes_properly md (hardware_change hw policy conf md)"
proof -
  let ?md = "md\<lparr>base_configuration := policy conf\<rparr>"
  define md1 where "md1 = (if base_configuration_applied md
      then case apply_base_config hw ?md of
             (Inr _, m) \<Rightarrow> changer_event (Base_configuration_updated (policy conf)) m
           | (Inl _, m) \<Rightarrow> m\<lparr>base_configuration := base_configuration md\<rparr>
      else ?md)"
  obtain r m where a: "apply_base_config hw ?md = (r, m)" by (cases "apply_base_config hw ?md")
  note b = base_change_result [OF a]
  have "changes_properly md md1"
  proof (cases "base_configuration_applied md")
    case False
    then show ?thesis by (simp add: md1_def changes_properly_def compositor_undisturbed_def display_current_def)
  next
    case True
    show ?thesis
    proof (cases r)
      case (Inr u)
      have "md1 = changer_event (Base_configuration_updated (policy conf)) m" using True a Inr by (simp add: md1_def)
      moreover have "changes_properly md m" using b Inr by (simp add: changes_properly_def)
      ultimately show ?thesis using properly_trans [OF _ properly_event [of "Base_configuration_updated (policy conf)" m]] by simp
    next
      case (Inl e)
      have m1: "md1 = m\<lparr>base_configuration := base_configuration md\<rparr>" using True a Inl by (simp add: md1_def)
      show ?thesis using b Inl True by (simp add: m1 changes_properly_def compositor_undisturbed_def calm_def display_current_def)
    qed
  qed
  moreover have "changes_properly md1 (md1\<lparr>config_map := Map.empty\<rparr>)" by (rule properly_requests) simp_all
  ultimately have "changes_properly md (md1\<lparr>config_map := Map.empty\<rparr>)" by (rule properly_trans)
  moreover have "hardware_change hw policy conf md = send_config_to_all_sessions (base_configuration md1) (md1\<lparr>config_map := Map.empty\<rparr>)"
    by (simp add: hardware_change_def Let_def md1_def)
  ultimately show ?thesis using properly_trans [OF _ properly_send_all] by simp
qed

lemma properly_set_base:
  assumes "set_base hw conf md = (r, md')"
  shows "changes_properly md (handle_exception (r, md'))"
proof -
  let ?md = "md\<lparr>base_configuration := conf\<rparr>"
  let ?tell = "\<lambda>m. send_config_to_all_sessions conf (changer_event (Base_configuration_updated conf) m)"
  have tell: "changes_properly m (?tell m)" for m
    by (rule properly_trans [OF properly_event properly_send_all]) simp_all
  show ?thesis
  proof (cases "base_configuration_applied md")
    case False
    then have "r = Inr ()" "md' = ?tell ?md" using assms by (auto simp: set_base_def and_then_def Let_def)
    moreover have "changes_properly md ?md" using False by (simp add: changes_properly_def compositor_undisturbed_def display_current_def)
    ultimately show ?thesis using properly_trans [OF _ tell] by (simp add: handle_exception_def)
  next
    case True
    obtain r1 m where a: "apply_base_config hw ?md = (r1, m)" by (cases "apply_base_config hw ?md")
    note b = base_change_result [OF a]
    show ?thesis
    proof (cases r1)
      case (Inr u)
      then have "r = Inr ()" "md' = ?tell m" using assms True a by (auto simp: set_base_def and_then_def Let_def)
      moreover have "changes_properly md m" using b Inr by (simp add: changes_properly_def)
      ultimately show ?thesis using properly_trans [OF _ tell] by (simp add: handle_exception_def)
    next
      case (Inl e)
      then have "r = Inl e" "md' = m" using assms True a by (auto simp: set_base_def and_then_def Let_def)
      then show ?thesis using b Inl
        by (simp add: handle_exception_def changes_properly_def compositor_undisturbed_def calm_def display_current_def)
    qed
  qed
qed

lemma properly_handle: "changes_properly md md' \<Longrightarrow> changes_properly md (handle_exception (r, md'))"
  by (auto simp: handle_exception_def changes_properly_def compositor_undisturbed_def calm_def display_current_def split: sum.splits)

lemma properly_run_action: "changes_properly md (handle_exception (run_action hw policy a md))"
proof (cases a)
  case (Apply_for_session s conf)
  obtain r m where b: "apply_config hw conf md = (r, m)" by (cases "apply_config hw conf md")
  show ?thesis using properly_or_send_error [OF properly_apply [OF b], of s r]
    by (auto simp: Apply_for_session run_action_def apply_for_session_def b handle_exception_def or_send_error_def split: sum.splits)
next
  case (Apply_base_for_session s)
  obtain r m where b: "apply_base_config hw md = (r, m)" by (cases "apply_base_config hw md")
  show ?thesis using properly_or_send_error [OF apply_base_result(2) [OF b], of s r]
    by (auto simp: Apply_base_for_session run_action_def b handle_exception_def or_send_error_def split: sum.splits)
next
  case (Apply_preview s conf)
  then show ?thesis using properly_handle [OF properly_preview] properly_handle [OF properly_refl]
    by (cases "apply_preview hw s conf md") (auto simp: run_action_def)
next
  case (Revert_preview s)
  then show ?thesis using properly_handle [OF properly_base_and_tell] properly_handle [OF properly_refl]
    by (cases "apply_base_and_tell hw s md") (auto simp: run_action_def)
next
  case (Hardware_change conf)
  then show ?thesis using properly_handle [OF properly_hardware_change] by (simp add: run_action_def)
next
  case (Focus_change s)
  then show ?thesis using properly_handle [OF properly_focus_change] properly_handle [OF properly_refl]
    by (cases "focus_change_handler hw s md") (auto simp: run_action_def)
next
  case No_focus
  then show ?thesis using properly_handle [OF properly_no_focus] by (cases "no_focus_handler hw md") (auto simp: run_action_def)
next
  case (Session_stopping s)
  have "changes_properly md (session_stopping_handler s md)" by (rule properly_requests) (simp_all add: session_stopping_handler_def)
  then show ?thesis using properly_handle [of md] properly_refl by (auto simp: Session_stopping run_action_def)
next
  case (Set_base conf)
  then show ?thesis using properly_set_base by (cases "set_base hw conf md") (auto simp: run_action_def)
qed

lemma properly_enqueue: "changes_properly md (enqueue_action a md)"
  by (rule properly_requests) (simp_all add: enqueue_action_def)

definition changer_inv :: "MediatingDisplayChanger \<Rightarrow> bool" where
  "changer_inv md \<longleftrightarrow> compositor_after True (changer_log md) = Some True \<and> (calm md \<longrightarrow> display_current md)"

lemma changer_inv_properly: "changer_inv md \<Longrightarrow> changes_properly md md' \<Longrightarrow> changer_inv md'"
  using calm_before by (auto simp: changer_inv_def changes_properly_def compositor_undisturbed_def compositor_after_append)

lemma properly_process: "changes_properly md (process_action hw policy md)"
proof (cases "action_queue md")
  case (Cons a q)
  have "changes_properly md (md\<lparr>action_queue := q\<rparr>)" by (rule properly_requests) simp_all
  then show ?thesis
    using properly_trans [OF _ properly_run_action [of "md\<lparr>action_queue := q\<rparr>" hw policy a]] by (simp add: process_action_def Cons)
qed (simp add: process_action_def)

lemma properly_timed_out: "changes_properly md (preview_timed_out hw md)"
proof (cases "preview_configuration_timeout md")
  case (Some p)
  obtain al s where p: "p = (al, s)" by (cases p)
  let ?md = "md\<lparr>preview_configuration_timeout := Some (alarm_dispatch al, s)\<rparr>"
  have "changes_properly md ?md" by (rule properly_requests) simp_all
  then show ?thesis
    using properly_trans [OF _ properly_handle [OF properly_base_and_tell], of md ?md hw s]
    by (cases "apply_base_and_tell hw s ?md") (auto simp: preview_timed_out_def Some p Let_def)
qed (simp add: preview_timed_out_def)

lemma properly_configure: "changes_properly md (configure_display s conf md)"
proof -
  let ?m = "md\<lparr>config_map := (config_map md)(s \<mapsto> conf)\<rparr>"
  have "changes_properly md ?m" by (rule properly_requests) simp_all
  then have p: "changes_properly md (changer_event (Session_configuration_applied s conf) ?m)"
    by (rule properly_trans) (rule properly_event, simp_all)
  show ?thesis using p properly_trans [OF p properly_enqueue] by (simp add: configure_display_def Let_def)
qed

lemma properly_remove: "changes_properly md (remove_session_configuration s md)"
proof -
  let ?m = "md\<lparr>config_map := (config_map md)(s := None)\<rparr>"
  define m1 where "m1 = (if config_map md s \<noteq> None then changer_event (Session_configuration_removed s) ?m else md)"
  have "changes_properly md ?m" by (rule properly_requests) simp_all
  then have "changes_properly md (changer_event (Session_configuration_removed s) ?m)"
    by (rule properly_trans) (rule properly_event, simp_all)
  then have p: "changes_properly md m1" by (simp add: m1_def)
  show ?thesis using p properly_trans [OF p properly_enqueue] unfolding remove_session_configuration_def Let_def m1_def [symmetric] by simp
qed

lemma properly_preview_request:
  "changes_properly md (snd (preview_base_configuration now s conf timeout md))"
  by (rule properly_requests) (simp_all add: preview_base_configuration_def enqueue_action_def Let_def)

lemma properly_cancel: "changes_properly md (snd (cancel_base_configuration_preview s md))"
  by (rule properly_requests) (simp_all add: cancel_base_configuration_preview_def enqueue_action_def Let_def split: option.split)

lemma changer_inv_reachable: "changer_reachable policy md \<Longrightarrow> changer_inv md"
proof (induction rule: changer_reachable.induct)
  case (start conf container living)
  then show ?case
    by (simp add: changer_inv_def new_MediatingDisplayChanger_def update_input_rectangles_def display_current_def)
next
  case (confirm md conf)
  let ?m = "md\<lparr>preview_configuration_timeout := None, currently_previewing_session := None\<rparr>"
  have "changes_properly md ?m" by (rule properly_requests) simp_all
  then show ?case using confirm changer_inv_properly [OF _ properly_trans [OF _ properly_enqueue]]
    by (simp add: confirm_base_configuration_def set_base_configuration_def)
next
  case (pause md)
  show ?case by (rule changer_inv_properly [OF pause.IH properly_requests]) (simp_all add: pause_display_config_processing_def)
next
  case (resume md)
  show ?case by (rule changer_inv_properly [OF resume.IH properly_requests]) (simp_all add: resume_display_config_processing_def)
next
  case (sessions md container living)
  show ?case by (rule changer_inv_properly [OF sessions.IH properly_requests]) simp_all
qed (auto intro: changer_inv_properly [OF _ properly_process] changer_inv_properly [OF _ properly_timed_out]
      changer_inv_properly [OF _ properly_configure] changer_inv_properly [OF _ properly_remove]
      changer_inv_properly [OF _ properly_preview_request] changer_inv_properly [OF _ properly_cancel]
      changer_inv_properly [OF _ properly_enqueue]
      simp: set_base_configuration_def configure_for_hardware_change_def focus_changed_def focus_lost_def session_stopping_def)

text \<open>
  C32: In every run, whatever the hardware refuses, the display is configured only while the compositor is stopped and the
  compositor runs again afterwards; and unless the hardware has refused to go back to the configuration in use, the pointer
  is confined to the outputs of the configuration in use, and while the main loop runs the base configuration is in use
  whenever the changer takes it to be.
\<close>

theorem display_changes_are_safe:
  assumes "changer_reachable policy md"
  shows "compositor_after True (changer_log md) = Some True \<and>
    ((\<forall>c. Catastrophic_configuration_error c \<notin> set (changer_log md)) \<longrightarrow>
       input_rectangles md = used_rectangles (display_conf md) \<and>
       (main_loop_exception md = None \<and> base_configuration_applied md \<longrightarrow> display_conf md = base_configuration md))"
  using changer_inv_reachable [OF assms] by (simp add: changer_inv_def calm_def display_current_def)

end
