(* ===== verification/Display_Focus.thy ===== *)
theory Display_Focus
  imports Display_Changer
begin

text \<open>
  Which configuration the mediating display changer shows: that of the focused session or the base configuration, in runs
  without previews and hardware changes, with the interleavings in which it does not; what becomes of previews that
  time out; and that clients without authorisation have no influence on it.
\<close>

section \<open>Which configuration is shown\<close>

definition wanted_configuration :: "MediatingDisplayChanger \<Rightarrow> DisplayConfiguration" where
  "wanted_configuration md =
     (case focused_session md of
        Some s \<Rightarrow> (case config_map md s of Some c \<Rightarrow> c | None \<Rightarrow> base_configuration md)
      | None \<Rightarrow> base_configuration md)"

definition accepting :: "Hardware \<Rightarrow> bool" where
  "accepting hw \<longleftrightarrow> (\<forall>c c'. hw_configure hw c c' = None \<and> (\<exists>b. hw_apply_if_preserves hw c c' = Inr b))"

fun is_focus_action :: "ServerAction \<Rightarrow> bool" where
  "is_focus_action (Focus_change _) = True"
| "is_focus_action No_focus = True"
| "is_focus_action _ = False"

text \<open>
  Undisturbed runs: there are no previews, hardware changes or exceptions, and a session changes its own configuration only when no
  change of focus is waiting to be processed.  \<open>stopped\<close> are the sessions that are stopping.
\<close>

inductive undisturbed :: "Hardware \<Rightarrow> (DisplayConfiguration \<Rightarrow> DisplayConfiguration) \<Rightarrow> DisplayClient set \<Rightarrow> MediatingDisplayChanger \<Rightarrow> bool"
  for hw policy where
  start: "undisturbed hw policy {} (new_MediatingDisplayChanger conf container living)"
| action: "undisturbed hw policy stopped md \<Longrightarrow> undisturbed hw policy stopped (process_action hw policy md)"
| pause: "undisturbed hw policy stopped md \<Longrightarrow> undisturbed hw policy stopped (pause_display_config_processing md)"
| resume: "undisturbed hw policy stopped md \<Longrightarrow> undisturbed hw policy stopped (resume_display_config_processing md)"
| configure: "undisturbed hw policy stopped md \<Longrightarrow> s \<in> alive md \<Longrightarrow> \<not> list_ex is_focus_action (action_queue md) \<Longrightarrow>
    undisturbed hw policy stopped (configure_display s conf md)"
| remove: "undisturbed hw policy stopped md \<Longrightarrow> s \<in> alive md \<Longrightarrow> \<not> list_ex is_focus_action (action_queue md) \<Longrightarrow>
    undisturbed hw policy stopped (remove_session_configuration s md)"
| set_base: "undisturbed hw policy stopped md \<Longrightarrow> undisturbed hw policy stopped (set_base_configuration conf md)"
| focus: "undisturbed hw policy stopped md \<Longrightarrow> undisturbed hw policy stopped (focus_changed s md)"
| no_focus: "undisturbed hw policy stopped md \<Longrightarrow> undisturbed hw policy stopped (focus_lost md)"
| stopping: "undisturbed hw policy stopped md \<Longrightarrow> undisturbed hw policy (insert s stopped) (session_stopping s md)"
| sessions: "undisturbed hw policy stopped md \<Longrightarrow> \<forall>s \<in> living - alive md. focused_session md \<noteq> Some s \<Longrightarrow>
    undisturbed hw policy stopped (md\<lparr>session_container := container, alive := living\<rparr>)"

fun session_action :: "ServerAction \<Rightarrow> (DisplayClient \<times> DisplayConfiguration option) option" where
  "session_action (Apply_for_session s c) = Some (s, Some c)"
| "session_action (Apply_base_for_session s) = Some (s, None)"
| "session_action _ = None"

fun quiet_action :: "DisplayClient set \<Rightarrow> ServerAction \<Rightarrow> bool" where
  "quiet_action stopped (Apply_preview _ _) = False"
| "quiet_action stopped (Revert_preview _) = False"
| "quiet_action stopped (Hardware_change _) = False"
| "quiet_action stopped (Session_stopping s) = (s \<in> stopped)"
| "quiet_action stopped _ = True"

text \<open>The requests of sessions in the queue are those of the focused session and come before any change of focus.\<close>

fun tidy :: "DisplayClient option \<Rightarrow> ServerAction list \<Rightarrow> bool" where
  "tidy foc [] = True"
| "tidy foc (a # q) =
     (case session_action a of
        Some (s, _) \<Rightarrow> foc = Some s \<and> tidy foc q
      | None \<Rightarrow> if is_focus_action a then list_all (\<lambda>b. session_action b = None) q else tidy foc q)"

text \<open>The configuration, if any, that the queue will leave the focused session with.\<close>

fun last_request :: "ServerAction list \<Rightarrow> DisplayConfiguration option option" where
  "last_request [] = None"
| "last_request (a # q) =
     (case last_request q of Some x \<Rightarrow> Some x | None \<Rightarrow> (case session_action a of Some (_, x) \<Rightarrow> Some x | None \<Rightarrow> None))"

definition shows_wanted :: "MediatingDisplayChanger \<Rightarrow> bool" where
  "shows_wanted md \<longleftrightarrow>
     display_conf md = wanted_configuration md \<and>
     (base_configuration_applied md \<longleftrightarrow> (case focused_session md of Some s \<Rightarrow> config_map md s = None | None \<Rightarrow> True))"

definition undisturbed_inv :: "DisplayClient set \<Rightarrow> MediatingDisplayChanger \<Rightarrow> bool" where
  "undisturbed_inv stopped md \<longleftrightarrow>
     list_all (quiet_action stopped) (action_queue md) \<and> tidy (focused_session md) (action_queue md) \<and> main_loop_exception md = None \<and>
     (base_configuration_applied md \<longrightarrow> display_conf md = base_configuration md) \<and>
     (case focused_session md of
        Some s \<Rightarrow> s \<in> alive md \<and> s \<notin> stopped \<longrightarrow>
          (case last_request (action_queue md) of Some x \<Rightarrow> config_map md s = x | None \<Rightarrow> shows_wanted md)
      | None \<Rightarrow> shows_wanted md)"

lemma apply_config_accepted:
  assumes "accepting hw"
  shows "\<exists>md'. apply_config hw conf md = (Inr (), md')"
proof -
  obtain b where b: "hw_apply_if_preserves hw (display_conf md) conf = Inr b" using assms by (auto simp: accepting_def)
  have c: "\<exists>m. configure_with_compositor_stopped hw conf md = (Inr (), m)"
    using assms by (simp add: configure_with_compositor_stopped_def accepting_def Let_def)
  have "\<exists>m. try_config hw conf md = (Inr (), m)" using b c by (cases b) (auto simp: try_config_def and_then_def)
  then show ?thesis by (auto simp: apply_config_def Let_def)
qed

lemma apply_base_accepted: "accepting hw \<Longrightarrow> \<exists>md'. apply_base_config hw md = (Inr (), md')"
  using apply_config_accepted [of hw "base_configuration md" md] by (auto simp: apply_base_config_def and_then_def)

lemma tidy_append: "\<not> list_ex is_focus_action q \<Longrightarrow> tidy foc (q @ q') \<longleftrightarrow> tidy foc q \<and> tidy foc q'"
  by (induction q) (auto split: option.splits)

lemma tidy_no_requests: "list_all (\<lambda>b. session_action b = None) q \<Longrightarrow> tidy foc q"
proof (induction q)
  case (Cons a q)
  then show ?case by (cases "session_action a") (auto)
qed simp

lemma tidy_other: "session_action a = None \<Longrightarrow> tidy foc q \<Longrightarrow> tidy foc (q @ [a])"
proof (induction q)
  case (Cons b q)
  then show ?case by (cases "session_action b") (auto)
qed simp

lemma last_request_append:
  "last_request (q @ [a]) = (case session_action a of Some (_, x) \<Rightarrow> Some x | None \<Rightarrow> last_request q)"
  by (induction q) (auto split: option.splits)

lemma no_last_request: "list_all (\<lambda>b. session_action b = None) q \<Longrightarrow> last_request q = None"
  by (induction q) auto

lemma tidy_None: "tidy None q \<Longrightarrow> last_request q = None"
proof (induction q)
  case (Cons a q)
  then show ?case by (cases "session_action a") (auto simp: no_last_request split: if_splits)
qed simp

lemma send_all_frame:
  "display_conf (send_config_to_all_sessions conf md) = display_conf md \<and>
   base_configuration_applied (send_config_to_all_sessions conf md) = base_configuration_applied md \<and>
   requests_of (send_config_to_all_sessions conf md) = requests_of md"
proof -
  have "display_conf (fold (\<lambda>s. changer_event (Send_display_config s conf)) ss md) = display_conf md \<and>
    base_configuration_applied (fold (\<lambda>s. changer_event (Send_display_config s conf)) ss md) = base_configuration_applied md \<and>
    requests_of (fold (\<lambda>s. changer_event (Send_display_config s conf)) ss md) = requests_of md" for ss
    by (induction ss arbitrary: md) (simp_all add: requests_of_eq)
  then show ?thesis by (simp add: send_config_to_all_sessions_def)
qed

text \<open>What the actions of an undisturbed run do, when the hardware accepts everything.\<close>

lemma session_action_result:
  assumes hw: "accepting hw" and a: "session_action a = Some (s, x)" and s: "s \<in> alive md" "focused_session md = Some s"
  shows "\<exists>md'. run_action hw policy a md = (Inr (), md') \<and> requests_of md' = requests_of md \<and>
           display_conf md' = (case x of Some c \<Rightarrow> c | None \<Rightarrow> base_configuration md) \<and> (base_configuration_applied md' \<longleftrightarrow> x = None)"
proof (cases x)
  case (Some c)
  then have act: "a = Apply_for_session s c" using a by (cases a) auto
  obtain md' where b: "apply_config hw c md = (Inr (), md')" using apply_config_accepted [OF hw] by blast
  have "focused md = Some s" using s by (simp add: focused_def)
  then show ?thesis using apply_config_result [OF b] b s Some
    by (auto simp: act run_action_def apply_for_session_def or_send_error_def)
next
  case None
  then have act: "a = Apply_base_for_session s" using a by (cases a) auto
  obtain md' where b: "apply_base_config hw md = (Inr (), md')" using apply_base_accepted [OF hw] by blast
  then show ?thesis using apply_base_result [OF b] s None by (auto simp: act run_action_def or_send_error_def)
qed

lemma dead_session_action: "session_action a = Some (s, x) \<Longrightarrow> s \<notin> alive md \<Longrightarrow> run_action hw policy a md = (Inr (), md)"
  by (cases a) (auto simp: run_action_def)

lemma focus_action_result:
  assumes hw: "accepting hw" and cur: "base_configuration_applied md \<Longrightarrow> display_conf md = base_configuration md"
    and foc: "foc = None \<or> (\<exists>s. foc = Some s \<and> s \<in> alive md)"
    and a: "a = (case foc of Some s \<Rightarrow> Focus_change s | None \<Rightarrow> No_focus)"
  shows "\<exists>md'. run_action hw policy a md = (Inr (), md') \<and> requests_of md' = requests_of (md\<lparr>focused_session := foc\<rparr>) \<and> shows_wanted md'"
proof -
  let ?md = "md\<lparr>focused_session := foc\<rparr>"
  obtain m where b: "apply_base_config hw ?md = (Inr (), m)" using apply_base_accepted [OF hw] by blast
  note b1 = apply_base_result [OF b]
  show ?thesis
  proof (cases foc)
    case None
    then show ?thesis using b b1 cur
      by (auto simp: a run_action_def no_focus_handler_def Let_def shows_wanted_def wanted_configuration_def requests_of_eq)
  next
    case (Some s)
    with foc have s: "s \<in> alive md" by auto
    show ?thesis
    proof (cases "config_map md s")
      case None
      then show ?thesis using b b1 cur s Some
        by (auto simp: a run_action_def focus_change_handler_def Let_def shows_wanted_def wanted_configuration_def requests_of_eq)
    next
      case c: (Some c)
      obtain m' where d: "apply_config hw c ?md = (Inr (), m')" using apply_config_accepted [OF hw] by blast
      show ?thesis using d apply_config_result [OF d] c s Some
        by (auto simp: a run_action_def focus_change_handler_def Let_def shows_wanted_def wanted_configuration_def requests_of_eq or_send_error_def)
    qed
  qed
qed

lemma set_base_result:
  assumes hw: "accepting hw"
  shows "\<exists>md'. set_base hw conf md = (Inr (), md') \<and> requests_of md' = requests_of (md\<lparr>base_configuration := conf\<rparr>) \<and>
           base_configuration_applied md' = base_configuration_applied md \<and>
           display_conf md' = (if base_configuration_applied md then conf else display_conf md)"
proof (cases "base_configuration_applied md")
  case True
  obtain m where b: "apply_base_config hw (md\<lparr>base_configuration := conf\<rparr>) = (Inr (), m)" using apply_base_accepted [OF hw] by blast
  show ?thesis using True b apply_base_result [OF b] send_all_frame [of conf "changer_event (Base_configuration_updated conf) m"]
    by (auto simp: set_base_def and_then_def Let_def requests_of_eq)
next
  case False
  then show ?thesis using send_all_frame [of conf "changer_event (Base_configuration_updated conf) (md\<lparr>base_configuration := conf\<rparr>)"]
    by (auto simp: set_base_def and_then_def Let_def requests_of_eq)
qed

lemma undisturbed_session_action:
  assumes hw: "accepting hw" and inv: "undisturbed_inv stopped md" and q: "action_queue md = a # q" and a: "session_action a = Some (s, x)"
  shows "undisturbed_inv stopped (handle_exception (run_action hw policy a (md\<lparr>action_queue := q\<rparr>)))"
proof -
  let ?md = "md\<lparr>action_queue := q\<rparr>"
  have foc: "focused_session md = Some s" and t: "tidy (Some s) q" using inv q a by (auto simp: undisturbed_inv_def)
  have l: "last_request (action_queue md) = (case last_request q of Some y \<Rightarrow> Some y | None \<Rightarrow> Some x)"
    using q a by (auto split: option.split)
  show ?thesis
  proof (cases "s \<in> alive md")
    case False
    then have "run_action hw policy a ?md = (Inr (), ?md)" using dead_session_action [OF a] by simp
    then show ?thesis using inv foc t q False by (simp add: handle_exception_def undisturbed_inv_def)
  next
    case True
    then obtain md' where r: "run_action hw policy a ?md = (Inr (), md')" "requests_of md' = requests_of ?md"
      "display_conf md' = (case x of Some c \<Rightarrow> c | None \<Rightarrow> base_configuration md)" "base_configuration_applied md' \<longleftrightarrow> x = None"
      using session_action_result [OF hw a, of ?md policy] foc by auto
    have "s \<notin> stopped \<Longrightarrow> (case last_request q of Some y \<Rightarrow> config_map md s = y | None \<Rightarrow> config_map md s = x)"
      using inv foc True l by (auto simp: undisturbed_inv_def split: option.splits)
    then show ?thesis using inv foc t q r True a
      by (cases "s \<in> stopped") (auto simp: handle_exception_def undisturbed_inv_def requests_of_eq shows_wanted_def wanted_configuration_def split: option.splits)
  qed
qed

lemma undisturbed_focus_action:
  assumes hw: "accepting hw" and inv: "undisturbed_inv stopped md" and q: "action_queue md = a # q" and a: "is_focus_action a"
  shows "undisturbed_inv stopped (handle_exception (run_action hw policy a (md\<lparr>action_queue := q\<rparr>)))"
proof -
  let ?md = "md\<lparr>action_queue := q\<rparr>"
  have na: "session_action a = None" using a by (cases a) auto
  then have n: "list_all (\<lambda>b. session_action b = None) q" using inv q a by (auto simp: undisturbed_inv_def)
  obtain foc where foc: "a = (case foc of Some s \<Rightarrow> Focus_change s | None \<Rightarrow> No_focus)"
    using a by (cases a) (auto intro: that [of None] that [of "Some _"])
  show ?thesis
  proof (cases "foc = None \<or> (\<exists>s. foc = Some s \<and> s \<in> alive md)")
    case True
    then obtain md' where r: "run_action hw policy a ?md = (Inr (), md')" "requests_of md' = requests_of (?md\<lparr>focused_session := foc\<rparr>)" "shows_wanted md'"
      using focus_action_result [OF hw _ _ foc, of ?md policy] inv by (auto simp: undisturbed_inv_def)
    then show ?thesis using inv q tidy_no_requests [OF n] no_last_request [OF n]
      by (auto simp: handle_exception_def undisturbed_inv_def requests_of_eq shows_wanted_def wanted_configuration_def split: option.splits)
  next
    case False
    then have "run_action hw policy a ?md = (Inr (), ?md)" using foc by (auto simp: run_action_def)
    moreover have "last_request (action_queue md) = last_request q" using q na by (simp split: option.split)
    ultimately show ?thesis using inv q tidy_no_requests [OF n]
      by (simp add: handle_exception_def undisturbed_inv_def shows_wanted_def wanted_configuration_def cong: option.case_cong)
  qed
qed

lemma undisturbed_other_action:
  assumes hw: "accepting hw" and inv: "undisturbed_inv stopped md" and q: "action_queue md = a # q"
    and a: "session_action a = None" "\<not> is_focus_action a"
  shows "undisturbed_inv stopped (handle_exception (run_action hw policy a (md\<lparr>action_queue := q\<rparr>)))"
proof -
  let ?md = "md\<lparr>action_queue := q\<rparr>"
  have t: "tidy (focused_session md) q" "quiet_action stopped a" "list_all (quiet_action stopped) q" using inv q a by (auto simp: undisturbed_inv_def)
  have l: "last_request (action_queue md) = last_request q" using q a by (simp split: option.split)
  consider (stop) s where "a = Session_stopping s" "s \<in> stopped" | (base) conf where "a = Set_base conf"
    using a t(2) by (cases a) auto
  then show ?thesis
  proof cases
    case stop
    let ?m = "if s \<in> alive md then session_stopping_handler s ?md else ?md"
    have r: "run_action hw policy a ?md = (Inr (), ?m)" by (simp add: stop run_action_def)
    have m: "focused_session ?m = focused_session md" "action_queue ?m = q" "main_loop_exception ?m = main_loop_exception md"
      "base_configuration_applied ?m = base_configuration_applied md" "display_conf ?m = display_conf md"
      "base_configuration ?m = base_configuration md" "alive ?m = alive md" "\<And>t. t \<noteq> s \<Longrightarrow> config_map ?m t = config_map md t"
      by (simp_all add: session_stopping_handler_def)
    have w: "shows_wanted ?m \<longleftrightarrow> shows_wanted md" if "focused_session md \<noteq> Some s"
      using that m by (cases "focused_session md") (auto simp: shows_wanted_def wanted_configuration_def)
    show ?thesis
    proof (cases "focused_session md = Some s")
      case True
      then show ?thesis using inv t m stop(2) unfolding r by (simp only: handle_exception_def undisturbed_inv_def prod.case sum.case option.case) blast
    next
      case False
      then have "config_map ?m t = config_map md t" if "focused_session md = Some t" for t using m(8) that by auto
      then show ?thesis using inv t m l w [OF False] unfolding r undisturbed_inv_def handle_exception_def prod.case sum.case
        by (cases "focused_session md") (simp_all cong: option.case_cong)
    qed
  next
    case base
    obtain md' where r: "set_base hw conf ?md = (Inr (), md')" "requests_of md' = requests_of (?md\<lparr>base_configuration := conf\<rparr>)"
      "base_configuration_applied md' = base_configuration_applied ?md"
      "display_conf md' = (if base_configuration_applied ?md then conf else display_conf ?md)"
      using set_base_result [OF hw, of conf ?md] by blast
    have w: "shows_wanted md \<Longrightarrow> shows_wanted md'"
      using r(2-4) by (auto simp: shows_wanted_def wanted_configuration_def requests_of_eq split: option.splits if_splits)
    show ?thesis using inv t l r w
      by (auto simp: base run_action_def handle_exception_def undisturbed_inv_def requests_of_eq split: option.splits)
  qed
qed

lemma undisturbed_process:
  assumes "accepting hw" "undisturbed_inv stopped md"
  shows "undisturbed_inv stopped (process_action hw policy md)"
proof (cases "action_queue md")
  case (Cons a q)
  show ?thesis
  proof (cases "session_action a")
    case None
    then show ?thesis using assms Cons undisturbed_focus_action undisturbed_other_action
      by (cases "is_focus_action a") (simp_all add: process_action_def)
  next
    case (Some p)
    then show ?thesis using assms Cons undisturbed_session_action by (cases p) (simp add: process_action_def)
  qed
qed (simp add: process_action_def assms(2))

lemma undisturbed_enqueue:
  assumes "undisturbed_inv stopped md" "session_action a = None" "quiet_action stopped a"
  shows "undisturbed_inv stopped (enqueue_action a md)"
  using assms tidy_other [of a "focused_session md" "action_queue md"]
  by (auto simp: undisturbed_inv_def enqueue_action_def last_request_append shows_wanted_def wanted_configuration_def cong: option.case_cong)

lemma undisturbed_request:
  assumes inv: "undisturbed_inv stopped md" and s: "s \<in> alive md" and n: "\<not> list_ex is_focus_action (action_queue md)"
    and m: "requests_of m = requests_of (md\<lparr>config_map := (config_map md)(s := x)\<rparr>)" "display_conf m = display_conf md"
      "base_configuration_applied m = base_configuration_applied md"
    and a: "session_action a = Some (s, x)" "quiet_action stopped a"
  shows "undisturbed_inv stopped (if focused m \<noteq> Some s then m else enqueue_action a m)"
proof (cases "focused_session md = Some s")
  case True
  then have f: "focused m = Some s" using s m(1) by (simp add: focused_def requests_of_eq)
  have "tidy (Some s) (action_queue md @ [a])" using inv True n a by (simp add: undisturbed_inv_def tidy_append)
  then show ?thesis using inv True a m f
    by (auto simp: undisturbed_inv_def enqueue_action_def last_request_append requests_of_eq)
next
  case False
  then have "focused m \<noteq> Some s" using m(1) by (auto simp: focused_def requests_of_eq split: option.splits if_splits)
  moreover have "shows_wanted m \<longleftrightarrow> shows_wanted md"
    using False m by (cases "focused_session md") (auto simp: shows_wanted_def wanted_configuration_def requests_of_eq)
  ultimately show ?thesis using inv m False
    by (cases "focused_session md") (auto simp: undisturbed_inv_def requests_of_eq split: option.splits)
qed

lemma undisturbed_inv_cong:
  assumes "undisturbed_inv stopped md" and "display_conf m = display_conf md" "base_configuration_applied m = base_configuration_applied md"
    "requests_of m = requests_of (md\<lparr>processing_paused := processing_paused m\<rparr>)"
  shows "undisturbed_inv stopped m"
  using assms by (auto simp: undisturbed_inv_def requests_of_eq shows_wanted_def wanted_configuration_def cong: option.case_cong)

lemma undisturbed_stopped_mono: "undisturbed_inv stopped md \<Longrightarrow> undisturbed_inv (insert s stopped) md"
proof -
  have "quiet_action stopped a \<Longrightarrow> quiet_action (insert s stopped) a" for a by (cases a) auto
  then show "undisturbed_inv stopped md \<Longrightarrow> undisturbed_inv (insert s stopped) md"
    by (auto simp: undisturbed_inv_def list_all_iff split: option.splits)
qed

lemma undisturbed_inv_reachable:
  assumes "undisturbed hw policy stopped md" and hw: "accepting hw"
  shows "undisturbed_inv stopped md"
  using assms(1)
proof (induction rule: undisturbed.induct)
  case (start conf container living)
  then show ?case
    by (simp add: undisturbed_inv_def new_MediatingDisplayChanger_def update_input_rectangles_def shows_wanted_def wanted_configuration_def)
next
  case (action stopped md)
  then show ?case by (simp add: undisturbed_process hw)
next
  case (pause stopped md)
  show ?case by (rule undisturbed_inv_cong [OF pause.IH]) (simp_all add: pause_display_config_processing_def requests_of_def)
next
  case (resume stopped md)
  show ?case by (rule undisturbed_inv_cong [OF resume.IH]) (simp_all add: resume_display_config_processing_def requests_of_def)
next
  case (configure stopped md s conf)
  show ?case unfolding configure_display_def Let_def
    by (rule undisturbed_request [OF configure.IH configure.hyps(2,3)]) (simp_all add: requests_of_def)
next
  case (remove stopped md s)
  show ?case unfolding remove_session_configuration_def Let_def
    by (rule undisturbed_request [OF remove.IH remove.hyps(2,3), where x = None]) (auto simp: requests_of_def)
next
  case (stopping stopped md s)
  then show ?case unfolding session_stopping_def by (intro undisturbed_enqueue undisturbed_stopped_mono) simp_all
next
  case (sessions stopped md living container)
  then show ?case
    by (auto simp: undisturbed_inv_def shows_wanted_def wanted_configuration_def split: option.splits)
qed (simp_all add: undisturbed_enqueue set_base_configuration_def focus_changed_def focus_lost_def)

text \<open>
  C33: With hardware that accepts every configuration, in every run without previews and hardware changes in which sessions change
  their configurations only when no change of focus is waiting: once the queue is empty the display shows the
  configuration of the focused session if it has one, and the base configuration otherwise.  The focused session, if any,
  is alive and not stopping.
\<close>

theorem display_follows_focus:
  assumes "accepting hw" and "undisturbed hw policy stopped md" and "action_queue md = []"
    and "\<forall>s. focused_session md = Some s \<longrightarrow> s \<in> alive md \<and> s \<notin> stopped"
  shows "display_conf md = wanted_configuration md"
  using undisturbed_inv_reachable [OF assms(2,1)] assms(3,4)
  by (auto simp: undisturbed_inv_def shows_wanted_def split: option.splits)

section \<open>Where it goes wrong\<close>

text \<open>
  A session that has the focus removes its configuration while a change of focus is waiting: the base configuration is
  applied after the change of focus, although the session that has the focus now has a configuration of its own.
\<close>

theorem stale_removal_hides_configuration:
  assumes "accepting hw" "action_queue md = []" "focused_session md = Some s" "s \<in> alive md" "t \<in> alive md" "s \<noteq> t"
    and "config_map md t = Some c" and "\<not> processing_paused md"
    and md': "md' = process_action hw policy (process_action hw policy (remove_session_configuration s (focus_changed t md)))"
  shows "focused_session md' = Some t \<and> config_map md' t = Some c \<and> action_queue md' = [] \<and> display_conf md' = base_configuration md"
proof -
  define m0 where "m0 = remove_session_configuration s (focus_changed t md)"
  have m0: "action_queue m0 = [Focus_change t, Apply_base_for_session s]" "alive m0 = alive md" "config_map m0 t = Some c"
    "base_configuration m0 = base_configuration md" "\<not> processing_paused m0"
    using assms by (simp_all add: m0_def remove_session_configuration_def focus_changed_def enqueue_action_def focused_def Let_def)
  let ?m = "m0\<lparr>action_queue := [Apply_base_for_session s], focused_session := Some t\<rparr>"
  obtain m1 where a: "apply_config hw c ?m = (Inr (), m1)" using apply_config_accepted [OF assms(1)] by blast
  have 1: "process_action hw policy m0 = m1"
    using m0 assms(5) a by (simp add: process_action_def run_action_def focus_change_handler_def or_send_error_def handle_exception_def Let_def)
  have m1: "action_queue m1 = [Apply_base_for_session s]" "alive m1 = alive md" "config_map m1 t = Some c" "focused_session m1 = Some t"
    "base_configuration m1 = base_configuration md" "\<not> processing_paused m1"
    using apply_config_result(1) [OF a] m0 by (auto simp: requests_of_eq)
  obtain m2 where b: "apply_base_config hw (m1\<lparr>action_queue := []\<rparr>) = (Inr (), m2)" using apply_base_accepted [OF assms(1)] by blast
  have "md' = m2"
    using m1 assms(4) b unfolding md' m0_def [symmetric] 1 by (simp add: process_action_def run_action_def or_send_error_def handle_exception_def)
  then show ?thesis using apply_base_result [OF b] m1 by (auto simp: requests_of_eq)
qed

text \<open>
  A preview that has timed out stays in progress: the display has gone back to the base configuration, but every other
  preview is refused, and only the session that started it can cancel it.
\<close>

theorem expired_preview_blocks:
  assumes "preview_configuration_timeout md = None" and "s \<noteq> t"
    and md': "md' = preview_timed_out hw (snd (preview_base_configuration now s conf timeout md))"
  shows "fst (preview_base_configuration now' t conf' timeout' md') = Inl (client_visible_error ''Base display configuration already in progress'') \<and>
         fst (cancel_base_configuration_preview t md') = Inl (client_visible_error ''No base display configuration preview in progress'')"
proof -
  have base: "requests_of (handle_exception (apply_base_and_tell hw s m)) = requests_of (m\<lparr>main_loop_exception := main_loop_exception (handle_exception (apply_base_and_tell hw s m))\<rparr>)" for m
  proof -
    obtain r m' where a: "apply_base_config hw m = (r, m')" by (cases "apply_base_config hw m")
    show ?thesis using apply_base_result(1) [OF a]
      by (cases r) (simp_all add: apply_base_and_tell_def a and_then_def handle_exception_def requests_of_eq)
  qed
  have "\<exists>al. preview_configuration_timeout md' = Some (al, s)" "currently_previewing_session md' = Some s"
    using assms(1) base unfolding md' preview_base_configuration_def preview_timed_out_def
    by (auto simp: Let_def enqueue_action_def requests_of_eq)
  then show ?thesis using assms(2) by (auto simp: preview_base_configuration_def cancel_base_configuration_preview_def)
qed

text \<open>When the session that started a preview has gone before the timeout, the previewed configuration stays in use.\<close>

theorem dead_preview_not_reverted:
  assumes "preview_configuration_timeout md = Some (al, s)" and "s \<notin> alive md"
  shows "display_conf (preview_timed_out hw md) = display_conf md"
  using assms by (simp add: preview_timed_out_def Let_def)

section \<open>Examples\<close>

definition willing_hardware :: Hardware where
  "willing_hardware = \<lparr>hw_configure = (\<lambda>_ _. None), hw_apply_if_preserves = (\<lambda>_ _. Inr False)\<rparr>"

definition one_output :: DisplayConfiguration where
  "one_output = \<lparr>cards = [], outputs = [sample_output 1 0]\<rparr>"

text \<open>A session gets the focus and asks for a configuration of its own.\<close>

definition focused_run :: MediatingDisplayChanger where
  "focused_run = process_action willing_hardware id (focus_changed 1 (new_MediatingDisplayChanger sample_configuration [1] {1, 2}))"

definition configured_run :: MediatingDisplayChanger where
  "configured_run = process_action willing_hardware id (configure_display 1 one_output focused_run)"

lemma willing_accepts: "accepting willing_hardware"
  by (auto simp: accepting_def willing_hardware_def)

lemma focused_run_eval:
  "focused_session focused_run = Some 1" "alive focused_run = {1, 2}" "action_queue focused_run = []" "\<not> processing_paused focused_run"
  "main_loop_exception focused_run = None" "base_configuration focused_run = sample_configuration"
  by (simp_all add: focused_run_def process_action_def focus_changed_def enqueue_action_def new_MediatingDisplayChanger_def
      update_input_rectangles_def run_action_def focus_change_handler_def handle_exception_def Let_def)

lemma configured_run_requests:
  "focused_session configured_run = Some 1" "alive configured_run = {1, 2}" "action_queue configured_run = []"
  "config_map configured_run 1 = Some one_output" "base_configuration configured_run = sample_configuration" "\<not> processing_paused configured_run"
proof -
  let ?m = "(configure_display 1 one_output focused_run)\<lparr>action_queue := []\<rparr>"
  obtain m where a: "apply_config willing_hardware one_output ?m = (Inr (), m)" using apply_config_accepted [OF willing_accepts] by blast
  have f: "focused ?m = Some 1"
    by (simp add: focused_def configure_display_def enqueue_action_def focused_run_eval Let_def)
  have "configured_run = m"
    using a f by (simp add: configured_run_def process_action_def configure_display_def enqueue_action_def focused_def focused_run_eval
        run_action_def apply_for_session_def or_send_error_def handle_exception_def Let_def)
  then have "requests_of configured_run = requests_of ?m" using apply_config_result(1) [OF a] by simp
  then show "focused_session configured_run = Some 1" "alive configured_run = {1, 2}" "action_queue configured_run = []"
    "config_map configured_run 1 = Some one_output" "base_configuration configured_run = sample_configuration" "\<not> processing_paused configured_run"
    by (simp_all add: requests_of_eq configure_display_def enqueue_action_def focused_def focused_run_eval Let_def)
qed

lemma configured_run_undisturbed: "undisturbed willing_hardware id {} configured_run"
proof -
  have "undisturbed willing_hardware id {} focused_run" unfolding focused_run_def by (intro undisturbed.intros)
  then show ?thesis unfolding configured_run_def
    by (intro undisturbed.action undisturbed.configure) (simp_all add: focused_run_eval)
qed

theorem display_follows_focus_witness: "display_conf configured_run = one_output"
  using display_follows_focus [OF willing_accepts configured_run_undisturbed]
  by (simp add: configured_run_requests wanted_configuration_def del: One_nat_def)

theorem display_changes_are_safe_witness: "compositor_after True (changer_log configured_run) = Some True"
proof -
  have "changer_reachable id focused_run" unfolding focused_run_def
    by (intro changer_reachable.intros) (simp add: focus_changed_def enqueue_action_def new_MediatingDisplayChanger_def update_input_rectangles_def)
  then have "changer_reachable id configured_run" unfolding configured_run_def
    by (intro changer_reachable.action changer_reachable.configure)
      (simp_all add: configure_display_def enqueue_action_def focused_def focused_run_eval Let_def)
  then show ?thesis using display_changes_are_safe by blast
qed

text \<open>The second session has a configuration as well and is about to get the focus.\<close>

theorem stale_removal_hides_configuration_witness:
  "display_conf (process_action willing_hardware id (process_action willing_hardware id
     (remove_session_configuration 1 (focus_changed 2 (configure_display 2 one_output configured_run))))) = sample_configuration"
proof -
  let ?md = "configure_display 2 one_output configured_run"
  have "action_queue ?md = []" "focused_session ?md = Some 1" "alive ?md = {1, 2}" "config_map ?md 2 = Some one_output"
    "\<not> processing_paused ?md" "base_configuration ?md = sample_configuration"
    by (simp_all add: configure_display_def focused_def configured_run_requests Let_def)
  then show ?thesis using stale_removal_hides_configuration [OF willing_accepts, of ?md 1 2 one_output _ id, OF _ _ _ _ _ _ _ refl] by simp
qed

theorem expired_preview_blocks_witness:
  "fst (preview_base_configuration 9 2 one_output 5 (preview_timed_out willing_hardware (snd (preview_base_configuration 0 1 one_output 5
      (new_MediatingDisplayChanger sample_configuration [1, 2] {1, 2}))))) =
     Inl (client_visible_error ''Base display configuration already in progress'')"
  using expired_preview_blocks [of "new_MediatingDisplayChanger sample_configuration [1, 2] {1, 2}" 1 2, OF _ _ refl]
  by (simp add: new_MediatingDisplayChanger_def update_input_rectangles_def)

theorem dead_preview_not_reverted_witness:
  "display_conf (preview_timed_out willing_hardware
     ((new_MediatingDisplayChanger sample_configuration [] {})\<lparr>display_conf := one_output, preview_configuration_timeout := Some (AlarmImpl_new, 1)\<rparr>)) = one_output"
  by (subst dead_preview_not_reverted) (simp_all add: new_MediatingDisplayChanger_def update_input_rectangles_def)

section \<open>Who decides\<close>

text \<open>
  Runs in which clients reach the changer through their authorisation.  A configuration is \<open>ok\<close> when an authorised client,
  the shell or the hardware proposed it; clients that are not authorised may ask for any other.
\<close>

inductive client_run ::
  "(DisplayClient \<Rightarrow> AuthorizingDisplayChanger) \<Rightarrow> (DisplayConfiguration \<Rightarrow> bool) \<Rightarrow> (DisplayConfiguration \<Rightarrow> DisplayConfiguration) \<Rightarrow>
   MediatingDisplayChanger \<Rightarrow> bool" for perm ok policy where
  start: "ok conf \<Longrightarrow> client_run perm ok policy (new_MediatingDisplayChanger conf container living)"
| action: "client_run perm ok policy md \<Longrightarrow> main_loop_exception md = None \<Longrightarrow> client_run perm ok policy (process_action hw policy md)"
| timed_out: "client_run perm ok policy md \<Longrightarrow> main_loop_exception md = None \<Longrightarrow> client_run perm ok policy (preview_timed_out hw md)"
| configure: "client_run perm ok policy md \<Longrightarrow> configure_display_is_allowed (perm s) \<longrightarrow> ok conf \<Longrightarrow>
    client_run perm ok policy (snd (auth_configure (perm s) s conf md))"
| remove: "client_run perm ok policy md \<Longrightarrow> client_run perm ok policy (snd (auth_remove_session_configuration (perm s) s md))"
| set_base: "client_run perm ok policy md \<Longrightarrow> set_base_configuration_is_allowed (perm s) \<longrightarrow> ok conf \<Longrightarrow>
    client_run perm ok policy (snd (auth_set_base_configuration (perm s) conf md))"
| preview: "client_run perm ok policy md \<Longrightarrow> set_base_configuration_is_allowed (perm s) \<longrightarrow> ok conf \<Longrightarrow>
    client_run perm ok policy (snd (auth_preview_base_configuration (perm s) now s conf timeout md))"
| confirm: "client_run perm ok policy md \<Longrightarrow> set_base_configuration_is_allowed (perm s) \<longrightarrow> ok conf \<Longrightarrow>
    client_run perm ok policy (snd (auth_confirm_base_configuration (perm s) conf md))"
| cancel: "client_run perm ok policy md \<Longrightarrow> client_run perm ok policy (snd (auth_cancel_base_configuration_preview (perm s) s md))"
| shell: "client_run perm ok policy md \<Longrightarrow> ok conf \<Longrightarrow> client_run perm ok policy (set_base_configuration conf md)"
| hardware: "client_run perm ok policy md \<Longrightarrow> ok (policy conf) \<Longrightarrow> client_run perm ok policy (configure_for_hardware_change conf md)"
| focus: "client_run perm ok policy md \<Longrightarrow> client_run perm ok policy (focus_changed s md)"
| no_focus: "client_run perm ok policy md \<Longrightarrow> client_run perm ok policy (focus_lost md)"
| stopping: "client_run perm ok policy md \<Longrightarrow> client_run perm ok policy (session_stopping s md)"
| sessions: "client_run perm ok policy md \<Longrightarrow> client_run perm ok policy (md\<lparr>session_container := container, alive := living\<rparr>)"

fun action_ok :: "(DisplayConfiguration \<Rightarrow> bool) \<Rightarrow> (DisplayConfiguration \<Rightarrow> DisplayConfiguration) \<Rightarrow> ServerAction \<Rightarrow> bool" where
  "action_ok ok policy (Apply_for_session _ c) = ok c"
| "action_ok ok policy (Apply_preview _ c) = ok c"
| "action_ok ok policy (Hardware_change c) = ok (policy c)"
| "action_ok ok policy (Set_base c) = ok c"
| "action_ok ok policy _ = True"

definition confs_ok :: "(DisplayConfiguration \<Rightarrow> bool) \<Rightarrow> (DisplayConfiguration \<Rightarrow> DisplayConfiguration) \<Rightarrow> MediatingDisplayChanger \<Rightarrow> bool" where
  "confs_ok ok policy md \<longleftrightarrow>
     ok (base_configuration md) \<and> (\<forall>s c. config_map md s = Some c \<longrightarrow> ok c) \<and> list_all (action_ok ok policy) (action_queue md) \<and>
     (calm md \<longrightarrow> ok (display_conf md))"

lemma confs_ok_apply:
  assumes "apply_config hw conf md = (r, md')" "ok conf" "confs_ok ok policy md"
  shows "confs_ok ok policy md'"
  using apply_config_result [OF assms(1)] assms(2,3) calm_before
  by (cases "r = Inr ()") (auto simp: confs_ok_def requests_of_eq)

lemma confs_ok_apply_base:
  assumes "apply_base_config hw md = (r, md')" "confs_ok ok policy md"
  shows "confs_ok ok policy md'"
  using apply_base_result [OF assms(1)] assms(2) calm_before
  by (cases "r = Inr ()") (auto simp: confs_ok_def requests_of_eq)

lemma calm_event: "calm (changer_event e md) \<Longrightarrow> calm md"
  by (auto simp: calm_def)

lemma confs_ok_event: "confs_ok ok policy md \<Longrightarrow> confs_ok ok policy (changer_event e md)"
  using calm_event by (auto simp: confs_ok_def)

lemma confs_ok_cong:
  "confs_ok ok policy md \<Longrightarrow> base_configuration md' = base_configuration md \<Longrightarrow> config_map md' = config_map md \<Longrightarrow>
   action_queue md' = action_queue md \<Longrightarrow> changer_log md' = changer_log md \<Longrightarrow> display_conf md' = display_conf md \<Longrightarrow> confs_ok ok policy md'"
  by (simp add: confs_ok_def calm_def)

lemma confs_ok_send_all: "confs_ok ok policy md \<Longrightarrow> confs_ok ok policy (send_config_to_all_sessions conf md)"
proof -
  have "confs_ok ok policy md \<Longrightarrow> confs_ok ok policy (fold (\<lambda>s. changer_event (Send_display_config s conf)) ss md)" for ss
    by (induction ss arbitrary: md) (simp_all add: confs_ok_event)
  then show "confs_ok ok policy md \<Longrightarrow> confs_ok ok policy (send_config_to_all_sessions conf md)"
    by (simp add: send_config_to_all_sessions_def)
qed

lemma confs_ok_handle: "confs_ok ok policy (snd res) \<Longrightarrow> confs_ok ok policy (handle_exception res)"
  by (cases res) (auto simp: handle_exception_def split: sum.splits elim: confs_ok_cong)

lemma confs_ok_or_send_error: "confs_ok ok policy (snd res) \<Longrightarrow> confs_ok ok policy (snd (or_send_error s res))"
  by (cases res) (auto simp: or_send_error_def confs_ok_event split: sum.splits)

lemma confs_ok_base_and_tell: "confs_ok ok policy md \<Longrightarrow> confs_ok ok policy (snd (apply_base_and_tell hw s md))"
  using confs_ok_apply_base [of hw md] confs_ok_event
  by (cases "apply_base_config hw md") (auto simp: apply_base_and_tell_def and_then_def split: sum.splits)

lemma confs_ok_new_base: "confs_ok ok policy md \<Longrightarrow> ok conf \<Longrightarrow> confs_ok ok policy (md\<lparr>base_configuration := conf\<rparr>)"
  by (simp add: confs_ok_def calm_def)

lemma confs_ok_hardware:
  assumes "confs_ok ok policy md" "ok (policy conf)"
  shows "confs_ok ok policy (hardware_change hw policy conf md)"
proof -
  let ?md = "md\<lparr>base_configuration := policy conf\<rparr>"
  define md1 where "md1 = (if base_configuration_applied md
      then case apply_base_config hw ?md of
             (Inr _, m) \<Rightarrow> changer_event (Base_configuration_updated (policy conf)) m
           | (Inl _, m) \<Rightarrow> m\<lparr>base_configuration := base_configuration md\<rparr>
      else ?md)"
  have b: "confs_ok ok policy ?md" by (rule confs_ok_new_base [OF assms])
  obtain r m where a: "apply_base_config hw ?md = (r, m)" by (cases "apply_base_config hw ?md")
  have m: "confs_ok ok policy m" by (rule confs_ok_apply_base [OF a b])
  have "ok (base_configuration md)" using assms(1) by (simp add: confs_ok_def)
  then have "confs_ok ok policy md1" using b confs_ok_event [OF m] confs_ok_new_base [OF m] a by (simp add: md1_def split: sum.split)
  then have "confs_ok ok policy (md1\<lparr>config_map := Map.empty\<rparr>)" by (simp add: confs_ok_def calm_def)
  then show ?thesis using confs_ok_send_all by (simp add: hardware_change_def Let_def md1_def)
qed

lemma confs_ok_set_base:
  assumes "confs_ok ok policy md" "ok conf"
  shows "confs_ok ok policy (snd (set_base hw conf md))"
proof -
  let ?md = "md\<lparr>base_configuration := conf\<rparr>"
  have b: "confs_ok ok policy ?md" by (rule confs_ok_new_base [OF assms])
  obtain r m where a: "apply_base_config hw ?md = (r, m)" by (cases "apply_base_config hw ?md")
  have m: "confs_ok ok policy m" by (rule confs_ok_apply_base [OF a b])
  show ?thesis
    using a confs_ok_send_all [OF confs_ok_event [OF b]] confs_ok_send_all [OF confs_ok_event [OF m]] m
    by (auto simp: set_base_def and_then_def Let_def split: sum.splits)
qed

lemma confs_ok_run_action:
  assumes "confs_ok ok policy md" "action_ok ok policy a"
  shows "confs_ok ok policy (snd (run_action hw policy a md))"
proof -
  have ap: "confs_ok ok policy m \<Longrightarrow> ok c \<Longrightarrow> confs_ok ok policy (snd (apply_config hw c m))" for c m
    using confs_ok_apply by (cases "apply_config hw c m") auto
  have ab: "confs_ok ok policy m \<Longrightarrow> confs_ok ok policy (snd (apply_base_config hw m))" for m
    using confs_ok_apply_base by (cases "apply_base_config hw m") auto
  have f: "confs_ok ok policy (md\<lparr>focused_session := foc\<rparr>)" for foc by (rule confs_ok_cong [OF assms(1)]) simp_all
  have c: "config_map md s = Some c \<Longrightarrow> ok c" for s c using assms(1) by (simp add: confs_ok_def)
  show ?thesis
  proof (cases a)
    case (Apply_preview s conf)
    have "confs_ok ok policy (snd (apply_config hw conf md))" using ap assms Apply_preview by simp
    then show ?thesis using confs_ok_event assms(1)
      by (cases "apply_config hw conf md") (auto simp: Apply_preview run_action_def apply_preview_def split: sum.splits)
  next
    case (Focus_change s)
    then show ?thesis using assms(1) confs_ok_or_send_error [OF ap [OF f c]] ab [OF f] f
      by (auto simp: run_action_def focus_change_handler_def Let_def split: option.splits)
  next
    case (Session_stopping s)
    then show ?thesis using assms(1) by (auto simp: run_action_def session_stopping_handler_def confs_ok_def calm_def)
  qed (use assms ap ab f confs_ok_or_send_error confs_ok_base_and_tell confs_ok_hardware confs_ok_set_base in
      \<open>auto simp: run_action_def apply_for_session_def no_focus_handler_def Let_def\<close>)
qed

lemma confs_ok_enqueue: "confs_ok ok policy md \<Longrightarrow> action_ok ok policy a \<Longrightarrow> confs_ok ok policy (enqueue_action a md)"
  by (simp add: confs_ok_def enqueue_action_def calm_def)

lemma confs_ok_process:
  assumes "confs_ok ok policy md" shows "confs_ok ok policy (process_action hw policy md)"
proof (cases "action_queue md")
  case (Cons a q)
  have "confs_ok ok policy (md\<lparr>action_queue := q\<rparr>)" "action_ok ok policy a" using assms Cons by (simp_all add: confs_ok_def calm_def)
  then show ?thesis using assms confs_ok_handle [OF confs_ok_run_action] by (simp add: process_action_def Cons)
qed (simp add: process_action_def assms)

lemma confs_ok_timed_out:
  assumes "confs_ok ok policy md" shows "confs_ok ok policy (preview_timed_out hw md)"
proof -
  have "confs_ok ok policy (md\<lparr>preview_configuration_timeout := x\<rparr>)" for x by (rule confs_ok_cong [OF assms]) simp_all
  then show ?thesis using assms confs_ok_handle [OF confs_ok_base_and_tell]
    by (auto simp: preview_timed_out_def Let_def split: option.splits)
qed

lemma confs_ok_client_run: "client_run perm ok policy md \<Longrightarrow> confs_ok ok policy md"
proof (induction rule: client_run.induct)
  case (start conf container living)
  then show ?case by (simp add: confs_ok_def new_MediatingDisplayChanger_def update_input_rectangles_def)
next
  case (configure md s conf)
  let ?m = "changer_event (Session_configuration_applied s conf) (md\<lparr>config_map := (config_map md)(s \<mapsto> conf)\<rparr>)"
  have "confs_ok ok policy ?m" if "ok conf" using configure.IH that by (intro confs_ok_event) (simp add: confs_ok_def calm_def)
  then show ?case using configure confs_ok_enqueue [of ok policy ?m] by (auto simp: auth_configure_def configure_display_def Let_def)
next
  case (remove md s)
  let ?m = "changer_event (Session_configuration_removed s) (md\<lparr>config_map := (config_map md)(s := None)\<rparr>)"
  have "confs_ok ok policy ?m" using remove.IH by (intro confs_ok_event) (simp add: confs_ok_def calm_def)
  then show ?case using remove.IH confs_ok_enqueue [of ok policy ?m] confs_ok_enqueue [of ok policy md]
    by (auto simp: auth_remove_session_configuration_def remove_session_configuration_def Let_def)
next
  case (preview md s conf now timeout)
  then show ?case
    by (auto simp: auth_preview_base_configuration_def preview_base_configuration_def Let_def intro!: confs_ok_enqueue elim!: confs_ok_cong)
next
  case (confirm md s conf)
  then show ?case
    by (auto simp: auth_confirm_base_configuration_def confirm_base_configuration_def set_base_configuration_def intro!: confs_ok_enqueue elim!: confs_ok_cong)
next
  case (cancel md s)
  then show ?case
    by (auto simp: auth_cancel_base_configuration_preview_def cancel_base_configuration_preview_def Let_def split: option.split
        intro!: confs_ok_enqueue elim!: confs_ok_cong)
next
  case (sessions md container living)
  show ?case by (rule confs_ok_cong [OF sessions.IH]) simp_all
qed (simp_all add: confs_ok_process confs_ok_timed_out confs_ok_enqueue auth_set_base_configuration_def set_base_configuration_def
      configure_for_hardware_change_def focus_changed_def focus_lost_def session_stopping_def)



end
