(* ===== verification/Display_Protocol.thy ===== *)
theory Display_Protocol
  imports Display_Config
begin

text \<open>
  Display configurations as clients see them: packing into a message (\<^verbatim>\<open>src/server/frontend/protobuf_buffer_packer.cpp\<close>)
  and \<open>unpack_and_sanitize_display_configuration\<close> of \<^verbatim>\<open>src/server/frontend/session_mediator.cpp\<close>, which takes from a client's message what
  the client may choose, and the rest from the base configuration.  A field of a message that is not set has its default value.

  The lemmas show that a client cannot change what the hardware is, and that a configuration a client sends back as it got it
  is taken as it was.
\<close>

section \<open>Messages\<close>

record ProtoDisplayCard =
  pb_card_id :: nat
  pb_max_simultaneous_outputs :: nat

record ProtoDisplayMode =
  pb_horizontal_resolution :: nat
  pb_vertical_resolution :: nat
  pb_refresh_rate :: rat

record ProtoDisplayOutput =
  pb_output_id :: nat
  pb_output_card_id :: nat
  pb_type :: nat
  pb_pixel_formats :: "nat list"
  pb_modes :: "ProtoDisplayMode list"
  pb_preferred_mode :: nat
  pb_physical_width_mm :: nat
  pb_physical_height_mm :: nat
  pb_connected :: bool
  pb_used :: bool
  pb_position_x :: int
  pb_position_y :: int
  pb_current_mode :: nat
  pb_current_format :: nat
  pb_power_mode :: nat
  pb_orientation :: int
  pb_scale_factor :: rat
  pb_form_factor :: nat
  pb_subpixel_arrangement :: nat
  pb_gamma_supported :: nat
  pb_gamma_red :: "nat list"
  pb_gamma_green :: "nat list"
  pb_gamma_blue :: "nat list"
  pb_edid :: "nat list"

record ProtoDisplayConfiguration =
  pb_display_cards :: "ProtoDisplayCard list"
  pb_display_outputs :: "ProtoDisplayOutput list"

text \<open>Conversions to \<open>uint32_t\<close> and to \<open>int32_t\<close>.\<close>

definition as_uint32 :: "int \<Rightarrow> nat" where
  "as_uint32 i = nat (i mod 2 ^ 32)"

definition as_sint32 :: "int \<Rightarrow> int" where
  "as_sint32 i = (i + 2 ^ 31) mod 2 ^ 32 - 2 ^ 31"

text \<open>The bytes of a vector of \<open>uint16_t\<close>, the low one first.\<close>

definition gamma_bytes :: "nat list \<Rightarrow> nat list" where
  "gamma_bytes curve = concat (map (\<lambda>v. [v mod 256, v div 256 mod 256]) curve)"

section \<open>Packing\<close>

definition pack_protobuf_display_card :: "DisplayConfigurationCard \<Rightarrow> ProtoDisplayCard" where
  "pack_protobuf_display_card c = \<lparr>pb_card_id = as_uint32 (dcc_id c), pb_max_simultaneous_outputs = uint32 (max_simultaneous_outputs c)\<rparr>"

definition pack_mode :: "DisplayConfigurationMode \<Rightarrow> ProtoDisplayMode" where
  "pack_mode m =
     \<lparr>pb_horizontal_resolution = as_uint32 (width (mode_size m)), pb_vertical_resolution = as_uint32 (height (mode_size m)),
      pb_refresh_rate = vrefresh_hz m\<rparr>"

definition pack_protobuf_display_output :: "DisplayConfigurationOutput \<Rightarrow> ProtoDisplayOutput" where
  "pack_protobuf_display_output out =
     \<lparr>pb_output_id = as_uint32 (out_id out), pb_output_card_id = as_uint32 (card_id out), pb_type = as_uint32 (out_type out),
      pb_pixel_formats = map uint32 (pixel_formats out), pb_modes = map pack_mode (modes out),
      pb_preferred_mode = uint32 (preferred_mode_index out),
      pb_physical_width_mm = as_uint32 (width (physical_size_mm out)), pb_physical_height_mm = as_uint32 (height (physical_size_mm out)),
      pb_connected = connected out, pb_used = used out,
      pb_position_x = as_sint32 (pt_x (out_top_left out)), pb_position_y = as_sint32 (pt_y (out_top_left out)),
      pb_current_mode = uint32 (current_mode_index out), pb_current_format = uint32 (current_format out),
      pb_power_mode = as_uint32 (power_mode out), pb_orientation = as_sint32 (orientation out), pb_scale_factor = scale out,
      pb_form_factor = as_uint32 (form_factor out), pb_subpixel_arrangement = as_uint32 (subpixel_arrangement out),
      pb_gamma_supported = as_uint32 (gamma_supported out),
      pb_gamma_red = gamma_bytes (fst (gamma out)), pb_gamma_green = gamma_bytes (fst (snd (gamma out))),
      pb_gamma_blue = gamma_bytes (snd (snd (gamma out))),
      pb_edid = (if length (edid out) \<ge> 128 then edid out else [])\<rparr>"

definition pack_protobuf_display_configuration :: "DisplayConfiguration \<Rightarrow> ProtoDisplayConfiguration" where
  "pack_protobuf_display_configuration conf =
     \<lparr>pb_display_cards = map pack_protobuf_display_card (cards conf),
      pb_display_outputs = map pack_protobuf_display_output (outputs conf)\<rparr>"

section \<open>Unpacking\<close>

text \<open>
  The vector has half as many elements as there are bytes, rounded down; all bytes are copied, so that an odd number of
  them writes behind its end.
\<close>

fun convert_string_to_gamma_curve :: "nat list \<Rightarrow> nat list result" where
  "convert_string_to_gamma_curve [] = Inr []"
| "convert_string_to_gamma_curve [b] = Inl (fatal_error ''write past the end of the gamma curve'')"
| "convert_string_to_gamma_curve (b # c # bs) = map_sum id (Cons (b + 256 * c)) (convert_string_to_gamma_curve bs)"

definition GammaCurves :: "nat list \<Rightarrow> nat list \<Rightarrow> nat list \<Rightarrow> (nat list \<times> nat list \<times> nat list) result" where
  "GammaCurves red green blue =
     (if length red \<noteq> length green \<or> length green \<noteq> length blue then Inl (logic_error ''Different gamma LUT sizes'')
      else Inr (red, green, blue))"

definition unpack_gamma :: "ProtoDisplayOutput \<Rightarrow> (nat list \<times> nat list \<times> nat list) result" where
  "unpack_gamma src =
     (case convert_string_to_gamma_curve (pb_gamma_red src) of
        Inl e \<Rightarrow> Inl e
      | Inr red \<Rightarrow>
          (case convert_string_to_gamma_curve (pb_gamma_green src) of
             Inl e \<Rightarrow> Inl e
           | Inr green \<Rightarrow>
               (case convert_string_to_gamma_curve (pb_gamma_blue src) of
                  Inl e \<Rightarrow> Inl e
                | Inr blue \<Rightarrow> GammaCurves red green blue)))"

definition unpack_output :: "ProtoDisplayOutput list \<Rightarrow> DisplayConfigurationOutput \<Rightarrow> DisplayConfigurationOutput result" where
  "unpack_output srcs dest =
     (case find (\<lambda>src. pb_output_id src = as_uint32 (out_id dest)) srcs of
        None \<Rightarrow> Inr dest
      | Some src \<Rightarrow>
          map_sum id
            (\<lambda>g. dest\<lparr>used := pb_used src, out_top_left := mk_point (pb_position_x src) (pb_position_y src),
                      current_mode_index := pb_current_mode src, current_format := pb_current_format src,
                      power_mode := int (pb_power_mode src), orientation := pb_orientation src, scale := pb_scale_factor src,
                      gamma := g\<rparr>)
            (unpack_gamma src))"

fun map_results :: "('a \<Rightarrow> 'b result) \<Rightarrow> 'a list \<Rightarrow> 'b list result" where
  "map_results f [] = Inr []"
| "map_results f (x # xs) = (case f x of Inl e \<Rightarrow> Inl e | Inr y \<Rightarrow> map_sum id (Cons y) (map_results f xs))"

definition unpack_and_sanitize_display_configuration :: "DisplayConfiguration \<Rightarrow> ProtoDisplayConfiguration \<Rightarrow> DisplayConfiguration result" where
  "unpack_and_sanitize_display_configuration base pc =
     map_sum id (\<lambda>outs. base\<lparr>outputs := outs\<rparr>) (map_results (unpack_output (pb_display_outputs pc)) (outputs base))"

section \<open>What a client can change\<close>

lemma map_sum_Inr: "map_sum f g x = Inr y \<longleftrightarrow> (\<exists>z. x = Inr z \<and> y = g z)"
  by (cases x) auto

lemma map_results_Inr: "map_results f xs = Inr ys \<longleftrightarrow> list_all2 (\<lambda>x y. f x = Inr y) xs ys"
proof (induction xs arbitrary: ys)
  case (Cons x xs)
  show ?case
  proof (cases "f x")
    case (Inr y)
    have "map_results f (x # xs) = Inr ys \<longleftrightarrow> (\<exists>zs. ys = y # zs \<and> map_results f xs = Inr zs)"
      using Inr by (cases "map_results f xs") auto
    then show ?thesis using Inr by (cases ys) (auto simp: Cons.IH)
  qed (auto simp: list_all2_Cons1)
qed (auto simp: list_all2_Nil)

text \<open>The description of an output that is not the client's to choose.\<close>

definition hardware_part :: "DisplayConfigurationOutput \<Rightarrow> DisplayConfigurationOutput" where
  "hardware_part out =
     out\<lparr>used := False, out_top_left := mk_point 0 0, current_mode_index := 0, current_format := 0, power_mode := 0, orientation := 0,
         scale := 0, gamma := ([], [], [])\<rparr>"

lemma unpack_output_hardware: "unpack_output srcs dest = Inr out \<Longrightarrow> hardware_part out = hardware_part dest"
  by (cases "find (\<lambda>src. pb_output_id src = as_uint32 (out_id dest)) srcs")
     (auto simp: unpack_output_def hardware_part_def map_sum_Inr)

text \<open>
  C35: Whatever a client sends, the configuration made of it has the cards and outputs of the base configuration, in their order
  and with the identities, modes, formats, sizes and connections the hardware reported; an output the client does not mention
  keeps its settings too.
\<close>

theorem client_cannot_change_hardware:
  assumes "unpack_and_sanitize_display_configuration base pc = Inr conf"
  shows "cards conf = cards base \<and> map hardware_part (outputs conf) = map hardware_part (outputs base) \<and>
    (\<forall>i < length (outputs base). as_uint32 (out_id (outputs base ! i)) \<notin> pb_output_id ` set (pb_display_outputs pc) \<longrightarrow>
       outputs conf ! i = outputs base ! i)"
proof -
  obtain outs where m: "map_results (unpack_output (pb_display_outputs pc)) (outputs base) = Inr outs" and conf: "conf = base\<lparr>outputs := outs\<rparr>"
    using assms by (auto simp: unpack_and_sanitize_display_configuration_def map_sum_Inr)
  have l: "list_all2 (\<lambda>x y. unpack_output (pb_display_outputs pc) x = Inr y) (outputs base) outs" using m by (simp add: map_results_Inr)
  have "list_all2 (\<lambda>x y. hardware_part y = hardware_part x) (outputs base) outs"
    using l by (rule list.rel_mono_strong) (simp add: unpack_output_hardware)
  then have "map hardware_part outs = map hardware_part (outputs base)"
    by (auto simp: list_all2_conv_all_nth intro: nth_equalityI)
  moreover have "outs ! i = outputs base ! i"
    if "i < length (outputs base)" "as_uint32 (out_id (outputs base ! i)) \<notin> pb_output_id ` set (pb_display_outputs pc)" for i
  proof -
    have "find (\<lambda>src. pb_output_id src = as_uint32 (out_id (outputs base ! i))) (pb_display_outputs pc) = None"
      unfolding find_None_iff using that(2) by (metis image_eqI)
    moreover have "unpack_output (pb_display_outputs pc) (outputs base ! i) = Inr (outs ! i)" using l that(1) by (simp add: list_all2_conv_all_nth)
    ultimately show ?thesis by (simp add: unpack_output_def)
  qed
  ultimately show ?thesis by (simp add: conf)
qed

section \<open>A configuration sent back\<close>

lemma convert_gamma_bytes: "\<forall>v \<in> set curve. v < 65536 \<Longrightarrow> convert_string_to_gamma_curve (gamma_bytes curve) = Inr curve"
  by (induction curve) (auto simp: gamma_bytes_def)

text \<open>What the types of the fields guarantee.\<close>

definition settings_fit :: "DisplayConfigurationOutput \<Rightarrow> bool" where
  "settings_fit out \<longleftrightarrow>
     pt_x (out_top_left out) \<in> {- (2 ^ 31) ..< 2 ^ 31} \<and> pt_y (out_top_left out) \<in> {- (2 ^ 31) ..< 2 ^ 31} \<and>
     current_mode_index out < 2 ^ 32 \<and> current_format out < 2 ^ 32 \<and> power_mode out \<in> {0 ..< 2 ^ 32} \<and>
     orientation out \<in> {- (2 ^ 31) ..< 2 ^ 31} \<and>
     (case gamma out of (red, green, blue) \<Rightarrow> length red = length green \<and> length green = length blue \<and>
        (\<forall>v \<in> set red \<union> set green \<union> set blue. v < 65536))"

lemma as_sint32_id: "i \<in> {- (2 ^ 31) ..< 2 ^ 31} \<Longrightarrow> as_sint32 i = i"
  by (simp add: as_sint32_def)

lemma unpack_packed_output:
  assumes "settings_fit out"
    and "find (\<lambda>src. pb_output_id src = as_uint32 (out_id out)) srcs = Some (pack_protobuf_display_output out)"
  shows "unpack_output srcs out = Inr out"
proof -
  obtain r g b where rgb: "gamma out = (r, g, b)" by (cases "gamma out")
  have "unpack_gamma (pack_protobuf_display_output out) = Inr (gamma out)"
    using assms(1) by (auto simp: settings_fit_def rgb unpack_gamma_def pack_protobuf_display_output_def convert_gamma_bytes GammaCurves_def)
  moreover have "mk_point (pt_x p) (pt_y p) = p" for p by simp
  ultimately show ?thesis using assms
    by (auto simp: unpack_output_def settings_fit_def pack_protobuf_display_output_def as_sint32_id uint32_def as_uint32_def)
qed

text \<open>
  C36: A configuration that a client sends back as it got it is taken exactly as it was: the settings survive the conversion to
  the fields of the message, the bytes of the gamma curves included, when the identities of the outputs differ.
\<close>

theorem display_configuration_round_trip:
  assumes "distinct (map (as_uint32 \<circ> out_id) (outputs conf))" and "\<forall>out \<in> set (outputs conf). settings_fit out"
  shows "unpack_and_sanitize_display_configuration conf (pack_protobuf_display_configuration conf) = Inr conf"
proof -
  have f: "find (\<lambda>src. pb_output_id src = as_uint32 (out_id out)) (map pack_protobuf_display_output outs) = Some (pack_protobuf_display_output out)"
    if "out \<in> set outs" "distinct (map (as_uint32 \<circ> out_id) outs)" for out outs
    using that by (induction outs) (auto simp: pack_protobuf_display_output_def image_iff)
  have "map_results (unpack_output (map pack_protobuf_display_output (outputs conf))) (outputs conf) = Inr (outputs conf)"
    unfolding map_results_Inr using assms f unpack_packed_output by (auto simp: list_all2_same)
  then show ?thesis by (simp add: unpack_and_sanitize_display_configuration_def pack_protobuf_display_configuration_def)
qed

text \<open>A curve of an odd number of bytes, which the message type allows, is written behind the end of the vector made for it.\<close>

theorem odd_gamma_curve_overruns:
  "odd (length bytes) \<Longrightarrow> convert_string_to_gamma_curve bytes = Inl (fatal_error ''write past the end of the gamma curve'')"
  by (induction bytes rule: convert_string_to_gamma_curve.induct) auto

section \<open>Examples\<close>

text \<open>A client switches the second output off.\<close>

definition switch_off :: ProtoDisplayConfiguration where
  "switch_off = \<lparr>pb_display_cards = [], pb_display_outputs = [(pack_protobuf_display_output (sample_output 2 5))\<lparr>pb_used := False\<rparr>]\<rparr>"

definition switched_off :: DisplayConfiguration where
  "switched_off = sample_configuration\<lparr>outputs := [sample_output 1 0, (sample_output 2 5)\<lparr>used := False\<rparr>, sample_output 3 20]\<rparr>"

lemma switch_off_result: "unpack_and_sanitize_display_configuration sample_configuration switch_off = Inr switched_off"
  by (simp add: unpack_and_sanitize_display_configuration_def switch_off_def switched_off_def sample_outputs unpack_output_def
      pack_protobuf_display_output_def as_uint32_def unpack_gamma_def GammaCurves_def gamma_bytes_def)
     (simp add: sample_output_def uint32_def as_sint32_def as_uint32_def GammaCurves_def unpack_output_def)

theorem client_cannot_change_hardware_witness:
  "map hardware_part (outputs switched_off) = map hardware_part (outputs sample_configuration) \<and> outputs switched_off ! 0 = sample_output 1 0"
  using client_cannot_change_hardware [OF switch_off_result]
  by (simp add: switched_off_def)

theorem display_configuration_round_trip_witness:
  "unpack_and_sanitize_display_configuration sample_configuration (pack_protobuf_display_configuration sample_configuration) = Inr sample_configuration"
  by (rule display_configuration_round_trip) (auto simp: sample_outputs as_uint32_def settings_fit_def, simp_all add: sample_output_def)

theorem odd_gamma_curve_overruns_witness:
  "convert_string_to_gamma_curve [1, 2, 3] = Inl (fatal_error ''write past the end of the gamma curve'')"
  by (rule odd_gamma_curve_overruns) simp

end
