(* ===== verification/Frontend_Shell.thy ===== *)
theory Frontend_Shell
  imports Shell_Focus Session_Ownership
begin

text \<open>
  What the front end sees of the shell: the persistent names of surfaces (\<^verbatim>\<open>src/server/shell/default_persistent_surface_store.cpp\<close>,
  \<^verbatim>\<open>persistent_surface_store.cpp\<close>) and \<open>FrontendShell\<close> (\<^verbatim>\<open>src/server/shell/frontend_shell.cpp\<close>), which turns the numbers clients use
  into surfaces.

  libuuid is a parameter: \<open>uuid_parse\<close> and \<open>uuid_unparse\<close> convert a UUID from and to its 36 characters, and the UUID that \<open>uuid_generate\<close>
  makes is an argument.  The store compares surfaces by their address; \<open>addr\<close> is where the allocator put each surface, and two
  surfaces may have the same address as long as they are not alive at once.
\<close>

section \<open>Persistent names\<close>

type_synonym Uuid = nat

record UuidLib =
  uuid_parse :: "string \<Rightarrow> Uuid option"
  uuid_unparse :: "Uuid \<Rightarrow> string"

definition new_Id :: "UuidLib \<Rightarrow> string \<Rightarrow> Uuid result" where
  "new_Id lib serialized_form =
     (if length serialized_form \<noteq> 36 then Inl (invalid_argument ''Failed to parse: has invalid length'')
      else case uuid_parse lib serialized_form of
             None \<Rightarrow> Inl (invalid_argument ''Failed to parse'')
           | Some u \<Rightarrow> Inr u)"

definition serialize_to_string :: "UuidLib \<Rightarrow> Uuid \<Rightarrow> string" where
  "serialize_to_string lib u = uuid_unparse lib u"

record SurfaceIdBimap =
  id_to_surface :: "Uuid \<Rightarrow> SurfacePtr option"
  surface_to_id :: "nat \<Rightarrow> Uuid option"

definition new_SurfaceIdBimap :: SurfaceIdBimap where
  "new_SurfaceIdBimap = \<lparr>id_to_surface = Map.empty, surface_to_id = Map.empty\<rparr>"

text \<open>\<open>insert\<close> of a map does nothing when the key is there.\<close>

definition insert_or_retrieve :: "(SurfacePtr \<Rightarrow> nat) \<Rightarrow> Uuid \<Rightarrow> SurfacePtr \<Rightarrow> SurfaceIdBimap \<Rightarrow> Uuid \<times> SurfaceIdBimap" where
  "insert_or_retrieve addr generated p st =
     (case surface_to_id st (addr p) of
        Some u \<Rightarrow> (u, st)
      | None \<Rightarrow>
          (generated,
           st\<lparr>id_to_surface := (if id_to_surface st generated = None then (id_to_surface st)(generated \<mapsto> p) else id_to_surface st),
              surface_to_id := (surface_to_id st)(addr p \<mapsto> generated)\<rparr>))"

definition id_for_surface :: "(SurfacePtr \<Rightarrow> nat) \<Rightarrow> Uuid \<Rightarrow> SurfacePtr \<Rightarrow> SurfaceIdBimap \<Rightarrow> Uuid \<times> SurfaceIdBimap" where
  "id_for_surface addr generated p st = insert_or_retrieve addr generated p st"

definition surface_for_id :: "(SurfacePtr \<Rightarrow> bool) \<Rightarrow> Uuid \<Rightarrow> SurfaceIdBimap \<Rightarrow> SurfacePtr option result" where
  "surface_for_id lives u st =
     (case id_to_surface st u of
        None \<Rightarrow> Inl (out_of_range ''Lookup for surface failed.'')
      | Some p \<Rightarrow> Inr (if lives p then Some p else None))"

text \<open>The states of a store; a UUID that is generated is a new one.\<close>

inductive store_reachable :: "(SurfacePtr \<Rightarrow> nat) \<Rightarrow> SurfaceIdBimap \<Rightarrow> bool" for addr where
  store_new: "store_reachable addr new_SurfaceIdBimap"
| store_id: "store_reachable addr st \<Longrightarrow> id_to_surface st u = None \<Longrightarrow> store_reachable addr (snd (id_for_surface addr u p st))"

lemma store_consistent:
  "store_reachable addr st \<Longrightarrow>
     (\<forall>a u. surface_to_id st a = Some u \<longrightarrow> (\<exists>p. id_to_surface st u = Some p \<and> addr p = a)) \<and>
     (\<forall>u p. id_to_surface st u = Some p \<longrightarrow> surface_to_id st (addr p) = Some u)"
proof (induction rule: store_reachable.induct)
  case (store_id st u p)
  show ?case
  proof (cases "surface_to_id st (addr p)")
    case None
    then have new: "snd (id_for_surface addr u p st) =
        st\<lparr>id_to_surface := (id_to_surface st)(u \<mapsto> p), surface_to_id := (surface_to_id st)(addr p \<mapsto> u)\<rparr>"
      using store_id.hyps(2) by (simp add: id_for_surface_def insert_or_retrieve_def)
    have "addr q \<noteq> addr p" if "id_to_surface st v = Some q" for v q using None store_id.IH that by fastforce
    moreover have "v \<noteq> u" if "surface_to_id st a = Some v" for a v using store_id.IH store_id.hyps(2) that by fastforce
    ultimately show ?thesis unfolding new using store_id.IH by simp
  qed (use store_id.IH in \<open>simp add: id_for_surface_def insert_or_retrieve_def\<close>)
qed (simp add: new_SurfaceIdBimap_def)


text \<open>
  The entries are never removed: when a surface is destroyed and another one is created at its address, the new one is given the
  identifier of the old one, which then leads to no surface at all.
\<close>

lemma reused_address_shares_identifier:
  assumes "surface_to_id st (addr old) = Some u" "id_to_surface st u = Some old"
    and "addr new = addr old" "\<not> lives old"
  shows "id_for_surface addr g new st = (u, st) \<and> surface_for_id lives u st = Inr None"
  using assms by (simp add: id_for_surface_def insert_or_retrieve_def surface_for_id_def)

section \<open>The shell of the front end\<close>

text \<open>Sessions are never null here; their surfaces are looked up by the client's numbers.\<close>

definition session_surface :: "nat \<Rightarrow> nat \<Rightarrow> 'w Shell \<Rightarrow> SurfacePtr result" where
  "session_surface i surface_id sh =
     (case sm_objects (sh_sessions sh) i of
        None \<Rightarrow> Inl (fatal_error ''null pointer'')
      | Some s \<Rightarrow> find_surface s surface_id)"

definition surface_lives :: "'w Shell \<Rightarrow> SurfacePtr \<Rightarrow> bool" where
  "surface_lives sh p \<longleftrightarrow> live_surfaces (heap (w_scene (sh_world sh))) p \<noteq> None"

definition on_surface ::
  "nat \<Rightarrow> nat \<Rightarrow> (SurfacePtr \<Rightarrow> 'w Shell \<Rightarrow> ('w Shell, 'a) outcome) \<Rightarrow> 'w Shell \<Rightarrow> ('w Shell, 'a) outcome" where
  "on_surface i surface_id f sh =
     (case session_surface i surface_id sh of Inl e \<Rightarrow> (Inl e, sh) | Inr p \<Rightarrow> f p sh)"

text \<open>
  \<open>populated_params.type.value()\<close> of a type that is not set is a fatal error, which ends the server.  The number of the parent
  replaces a parent that was given by its persistent name.
\<close>

definition populate_parent :: "nat \<Rightarrow> SessionSurfaceParameters \<Rightarrow> 'w Shell \<Rightarrow> SessionSurfaceParameters result" where
  "populate_parent i params sh =
     (let foreign = (case par_parent params of Some p \<Rightarrow> surface_lives sh p | None \<Rightarrow> False)
      in if foreign \<and> par_type params = None then Inl (fatal_error ''Accessing value of unset optional'')
         else if foreign \<and> par_type params \<noteq> Some mir_window_type_inputmethod
         then Inl (invalid_argument ''Foreign parents may only be set on surfaces of type mir_window_type_inputmethod'')
         else case par_parent_id params of
                None \<Rightarrow> Inr params
              | Some k \<Rightarrow> map_sum id (\<lambda>p. params\<lparr>par_parent := Some p\<rparr>) (session_surface i k sh))"

definition fe_create_surface ::
  "'w WindowManagerOps \<Rightarrow> nat \<Rightarrow> SessionSurfaceParameters \<Rightarrow> 'w Shell \<Rightarrow> ('w Shell, nat) outcome" where
  "fe_create_surface wmo i params sh =
     (case populate_parent i params sh of
        Inl e \<Rightarrow> (Inl e, sh)
      | Inr populated_params \<Rightarrow> shell_create_surface wmo i populated_params sh)"

definition fe_modify_surface ::
  "'w WindowManagerOps \<Rightarrow> nat \<Rightarrow> nat \<Rightarrow> ShellSpecification \<Rightarrow> 'w Shell \<Rightarrow> ('w Shell, unit) outcome" where
  "fe_modify_surface wmo i surface_id modifications =
     on_surface i surface_id (\<lambda>p sh.
       case spec_parent_id modifications of
         None \<Rightarrow> shell_modify_surface wmo i p modifications sh
       | Some k \<Rightarrow>
           (case session_surface i k sh of
              Inl e \<Rightarrow> (Inl e, sh)
            | Inr parent \<Rightarrow> shell_modify_surface wmo i p (modifications\<lparr>spec_parent := Some (Some parent)\<rparr>) sh))"

definition fe_destroy_surface :: "'w WindowManagerOps \<Rightarrow> nat \<Rightarrow> nat \<Rightarrow> 'w Shell \<Rightarrow> ('w Shell, unit) outcome" where
  "fe_destroy_surface wmo i surface_id sh = shell_destroy_surface wmo i surface_id sh"

definition persistent_id_for ::
  "(SurfacePtr \<Rightarrow> nat) \<Rightarrow> UuidLib \<Rightarrow> Uuid \<Rightarrow> nat \<Rightarrow> nat \<Rightarrow> 'w Shell \<Rightarrow> SurfaceIdBimap \<Rightarrow> (SurfaceIdBimap, string) outcome" where
  "persistent_id_for addr lib generated i surface_id sh st =
     (case session_surface i surface_id sh of
        Inl e \<Rightarrow> (Inl e, st)
      | Inr p \<Rightarrow> let (u, st) = id_for_surface addr generated p st in (Inr (serialize_to_string lib u), st))"

definition fe_surface_for_id :: "UuidLib \<Rightarrow> string \<Rightarrow> 'w Shell \<Rightarrow> SurfaceIdBimap \<Rightarrow> SurfacePtr option result" where
  "fe_surface_for_id lib serialized_id sh st =
     (case new_Id lib serialized_id of
        Inl e \<Rightarrow> Inl e
      | Inr u \<Rightarrow> surface_for_id (surface_lives sh) u st)"

definition fe_set_surface_attribute ::
  "'w WindowManagerOps \<Rightarrow> nat \<Rightarrow> nat \<Rightarrow> MirWindowAttrib \<Rightarrow> int \<Rightarrow> 'w Shell \<Rightarrow> ('w Shell, int) outcome" where
  "fe_set_surface_attribute wmo i surface_id attrib v =
     on_surface i surface_id (\<lambda>p. shell_set_surface_attribute wmo i p attrib v)"

definition fe_get_surface_attribute :: "nat \<Rightarrow> nat \<Rightarrow> MirWindowAttrib \<Rightarrow> 'w Shell \<Rightarrow> int result" where
  "fe_get_surface_attribute i surface_id attrib sh =
     (case session_surface i surface_id sh of Inl e \<Rightarrow> Inl e | Inr p \<Rightarrow> shell_get_surface_attribute p attrib sh)"

definition fe_raise_surface :: "'w WindowManagerOps \<Rightarrow> nat \<Rightarrow> nat \<Rightarrow> nat \<Rightarrow> 'w Shell \<Rightarrow> ('w Shell, unit) outcome" where
  "fe_raise_surface wmo i surface_id timestamp =
     on_surface i surface_id (\<lambda>p. shell_raise_surface wmo i p timestamp)"

text \<open>
  A client that names a living surface as parent of a new window without saying of which type the window is ends the server.
\<close>

lemma untyped_foreign_parent_is_fatal:
  assumes "par_parent params = Some p" "surface_lives sh p" "par_type params = None"
  shows "fe_create_surface wmo i params sh = (Inl (fatal_error ''Accessing value of unset optional''), sh)"
  using assms by (simp add: fe_create_surface_def populate_parent_def)

section \<open>Examples\<close>

definition sample_uuids :: UuidLib where
  "sample_uuids =
     \<lparr>uuid_parse = (\<lambda>text. if text = replicate 36 CHR ''7'' then Some 7 else None), uuid_unparse = (\<lambda>_. replicate 36 CHR ''7'')\<rparr>"


end
