(* ===== verification/Client_Messages.thy ===== *)
theory Client_Messages
  imports Frontend_Shell
begin

text \<open>
  The messages in which clients describe windows, and what \<open>SessionMediator::create_surface\<close> and \<open>SessionMediator::modify_surface\<close>
  (\<^verbatim>\<open>src/server/frontend/session_mediator.cpp\<close>) make of them.  An optional field of a message is an \<open>option\<close>.  The numbers of surfaces
  and streams are natural: a negative one is as unknown as any other that was never given out.  The fields that no
  modelled window manager reads (shell chrome of new windows, placement hints and gravities) are left out.
\<close>

record StreamConfiguration =
  sc_id :: nat
  sc_displacement :: Displacement
  sc_width :: "int option"
  sc_height :: "int option"

definition stream_specification :: "StreamConfiguration \<Rightarrow> StreamSpecification" where
  "stream_specification m =
     \<lparr>ss_stream_id = sc_id m, ss_displacement = sc_displacement m,
      ss_size = (case (sc_width m, sc_height m) of (Some w, Some h) \<Rightarrow> Some (mk_size w h) | _ \<Rightarrow> None)\<rparr>"

record SurfaceParameters =
  sp_width :: int
  sp_height :: int
  sp_pixel_format :: nat
  sp_buffer_usage :: nat
  sp_surface_name :: "string option"
  sp_output_id :: "int option"
  sp_type :: "int option"
  sp_state :: "int option"
  sp_pref_orientation :: "int option"
  sp_parent_id :: "nat option"
  sp_parent_persistent_id :: "string option"
  sp_aux_rect :: "Rectangle option"
  sp_edge_attachment :: "nat option"
  sp_min_width :: "int option"
  sp_min_height :: "int option"
  sp_max_width :: "int option"
  sp_max_height :: "int option"
  sp_width_inc :: "int option"
  sp_height_inc :: "int option"
  sp_min_aspect :: "(nat \<times> nat) option"
  sp_max_aspect :: "(nat \<times> nat) option"
  sp_stream :: "StreamConfiguration list"
  sp_input_shape :: "Rectangle list"
  sp_confine_pointer :: "int option"

definition aspect_ratio :: "nat \<times> nat \<Rightarrow> SurfaceAspectRatio" where
  "aspect_ratio a = \<lparr>ar_width = fst a, ar_height = snd a\<rparr>"

definition extract_input_shape_from :: "Rectangle list \<Rightarrow> Rectangle list" where
  "extract_input_shape_from shapes = (if length shapes > 0 then shapes else [])"

text \<open>
  The parameters of a new surface.  Streams or the content are filled in by \<open>create_surface\<close>; the input shape is always set,
  to the empty list when the client gives none.
\<close>

definition surface_creation_parameters :: "SurfaceParameters \<Rightarrow> SurfacePtr option \<Rightarrow> SessionSurfaceParameters" where
  "surface_creation_parameters request parent =
     \<lparr>par_name = value_or (sp_surface_name request) '''', par_size = mk_size (sp_width request) (sp_height request),
      par_top_left = mk_point 0 0, par_output_id = value_or (sp_output_id request) 0,
      par_state = sp_state request, par_type = sp_type request, par_parent = parent,
      par_aux_rect = sp_aux_rect request, par_edge_attachment = sp_edge_attachment request,
      par_min_width = sp_min_width request, par_min_height = sp_min_height request,
      par_max_width = sp_max_width request, par_max_height = sp_max_height request,
      par_width_inc = sp_width_inc request, par_height_inc = sp_height_inc request,
      par_min_aspect = map_option aspect_ratio (sp_min_aspect request),
      par_max_aspect = map_option aspect_ratio (sp_max_aspect request),
      par_input_mode = reception_normal, par_preferred_orientation = sp_pref_orientation request,
      par_parent_id = sp_parent_id request, par_content_id = None,
      par_input_shape = Some (extract_input_shape_from (sp_input_shape request)),
      par_streams = None, par_confine_pointer = sp_confine_pointer request\<rparr>"

record SurfaceSpecificationMessage =
  sm_width :: "int option"
  sm_height :: "int option"
  sm_pixel_format :: "nat option"
  sm_buffer_usage :: "nat option"
  sm_name :: "string option"
  sm_output_id :: "int option"
  sm_type :: "int option"
  sm_state :: "int option"
  sm_preferred_orientation :: "int option"
  sm_parent_id :: "nat option"
  sm_aux_rect :: "Rectangle option"
  sm_edge_attachment :: "nat option"
  sm_min_width :: "int option"
  sm_min_height :: "int option"
  sm_max_width :: "int option"
  sm_max_height :: "int option"
  sm_width_inc :: "int option"
  sm_height_inc :: "int option"
  sm_min_aspect :: "(nat \<times> nat) option"
  sm_max_aspect :: "(nat \<times> nat) option"
  sm_stream :: "StreamConfiguration list"
  sm_input_shape :: "Rectangle list"
  sm_shell_chrome :: "nat option"
  sm_confine_pointer :: "int option"
  sm_cursor_name :: "string option"
  sm_cursor_id :: "nat option"
  sm_hotspot_x :: "int option"
  sm_hotspot_y :: "int option"

text \<open>The stream of a cursor, which needs all three fields.\<close>

definition stream_cursor_of :: "SurfaceSpecificationMessage \<Rightarrow> (nat \<times> Displacement) option" where
  "stream_cursor_of m =
     (case (sm_cursor_id m, sm_hotspot_x m, sm_hotspot_y m) of
        (Some k, Some x, Some y) \<Rightarrow> Some (k, \<lparr>disp_dx = x, disp_dy = y\<rparr>)
      | _ \<Rightarrow> None)"

definition shell_surface_specification :: "(string \<Rightarrow> nat) \<Rightarrow> SurfaceSpecificationMessage \<Rightarrow> ShellSpecification" where
  "shell_surface_specification cursor_image m =
     \<lparr>spec_width = sm_width m, spec_height = sm_height m, spec_name = sm_name m, spec_output_id = sm_output_id m,
      spec_type = sm_type m, spec_state = sm_state m, spec_min_width = sm_min_width m, spec_min_height = sm_min_height m,
      spec_max_width = sm_max_width m, spec_max_height = sm_max_height m, spec_width_inc = sm_width_inc m,
      spec_height_inc = sm_height_inc m, spec_min_aspect = map_option aspect_ratio (sm_min_aspect m),
      spec_max_aspect = map_option aspect_ratio (sm_max_aspect m),
      spec_streams = (if length (sm_stream m) > 0 then Some (map stream_specification (sm_stream m)) else None),
      spec_parent = None,
      spec_input_shape = (if length (sm_input_shape m) > 0 then Some (extract_input_shape_from (sm_input_shape m)) else None),
      spec_confine_pointer = sm_confine_pointer m, spec_pixel_format = sm_pixel_format m, spec_buffer_usage = sm_buffer_usage m,
      spec_preferred_orientation = sm_preferred_orientation m, spec_parent_id = sm_parent_id m,
      spec_aux_rect = sm_aux_rect m, spec_edge_attachment = sm_edge_attachment m, spec_shell_chrome = sm_shell_chrome m,
      spec_cursor_image = map_option cursor_image (sm_cursor_name m),
      spec_stream_cursor = map_option (apfst int) (stream_cursor_of m)\<rparr>"

end
