(* ===== verification/Cookie.thy ===== *)
theory Cookie
  imports Mir_Prelude
begin

text \<open>
  Cookies (\<^verbatim>\<open>src/cookie/authority.cpp\<close>, \<^verbatim>\<open>hmac_cookie.cpp\<close>, \<^verbatim>\<open>const_memcmp.cpp\<close>): the time stamp of an input event with a message
  authentication code, which a client hands back to show that a user's action made it raise a window.  The HMAC
  of the nettle library under the secret of the authority is a parameter, a function from messages to codes, of which the lemmas use that a
  code has the \<open>mac_byte_size\<close> bytes that are asked for.  The bytes of a number are in the order of a little-endian machine.

  The lemmas show that the comparison in constant time is equality, and that an authority accepts exactly the cookies
  it makes itself.
\<close>

unbundle bit_operations_syntax

type_synonym byte = "8 word"

section \<open>Comparing in constant time\<close>

fun differing_bits :: "byte list \<Rightarrow> byte list \<Rightarrow> byte \<Rightarrow> byte" where
  "differing_bits (x # xs) (y # ys) d = differing_bits xs ys (d OR (x XOR y))"
| "differing_bits _ _ d = d"

text \<open>\<open>d\<close> is promoted to \<open>int\<close>, and the shift of a negative number keeps the sign.\<close>

definition const_memcmp :: "byte list \<Rightarrow> byte list \<Rightarrow> int" where
  "const_memcmp b1 b2 =
     (let d = uint (differing_bits b1 b2 0)
      in (1 AND drop_bit 8 (d - 1)) - 1)"

lemma differing_bits_zero: "length xs = length ys \<Longrightarrow> differing_bits xs ys d = 0 \<longleftrightarrow> d = 0 \<and> xs = ys"
proof (induction xs ys d rule: differing_bits.induct)
  case (1 x xs y ys d)
  have "x XOR y = 0 \<longleftrightarrow> x = y" by (metis xor.left_neutral xor.assoc xor_self_eq)
  moreover have "a OR b = 0 \<longleftrightarrow> a = 0 \<and> b = 0" for a b :: byte by (rule or_eq_0_iff)
  ultimately show ?case using 1 by simp
qed auto

lemma const_memcmp_eq_0: "length b1 = length b2 \<Longrightarrow> const_memcmp b1 b2 = 0 \<longleftrightarrow> b1 = b2"
proof -
  assume len: "length b1 = length b2"
  define d where "d = differing_bits b1 b2 0"
  have "(1 AND drop_bit 8 (uint d - 1)) - 1 = (if d = 0 then 0 else - 1)"
  proof (cases "d = 0")
    case False
    then have "uint d \<noteq> 0" by (simp add: uint_0_iff)
    then have "0 \<le> uint d - 1" "uint d - 1 < 2 ^ 8"
      using uint_lt2p [of d] by (simp_all add: order_less_le)
    then have "drop_bit 8 (uint d - 1) = 0" by (simp add: drop_bit_eq_div)
    with False show ?thesis by simp
  qed simp
  then show ?thesis using differing_bits_zero [OF len, of 0] by (simp add: const_memcmp_def d_def)
qed

section \<open>Cookies\<close>

datatype Format = hmac_sha_1_8

definition format_byte :: "Format \<Rightarrow> byte" where
  "format_byte f = (case f of hmac_sha_1_8 \<Rightarrow> 0)"

record HMACCookie =
  ck_timestamp :: "64 word"
  ck_mac :: "byte list"
  ck_format :: Format

definition mac_byte_size :: nat where
  "mac_byte_size = 20"

definition default_blob_size :: nat where
  "default_blob_size = 29"

definition cookie_size_from_format :: "Format \<Rightarrow> nat" where
  "cookie_size_from_format f = (case f of hmac_sha_1_8 \<Rightarrow> default_blob_size)"

text \<open>The bytes \<open>memcpy\<close> copies from and to a \<open>uint64_t\<close>.\<close>

definition timestamp_bytes :: "64 word \<Rightarrow> byte list" where
  "timestamp_bytes t = map (\<lambda>i. ucast (drop_bit (8 * i) t)) [0..<8]"

definition bytes_timestamp :: "byte list \<Rightarrow> 64 word" where
  "bytes_timestamp bs = foldr (\<lambda>b t. ucast b OR push_bit 8 t) bs 0"

definition serialize :: "HMACCookie \<Rightarrow> byte list" where
  "serialize c = format_byte (ck_format c) # timestamp_bytes (ck_timestamp c) @ ck_mac c"

text \<open>\<open>AuthorityNettle\<close>: \<open>hmac\<close> is \<open>hmac_sha1_update\<close> and \<open>hmac_sha1_digest\<close> under its key.\<close>

type_synonym Hmac = "byte list \<Rightarrow> byte list"

definition minimum_secret_size :: nat where
  "minimum_secret_size = 8"

definition new_AuthorityNettle :: "(byte list \<Rightarrow> Hmac) \<Rightarrow> byte list \<Rightarrow> Hmac result" where
  "new_AuthorityNettle hmac_sha1_set_key secret =
     (if length secret < minimum_secret_size then Inl (logic_error ''Secret size is to small'')
      else Inr (hmac_sha1_set_key secret))"

definition calculate_cookie :: "Hmac \<Rightarrow> 64 word \<Rightarrow> byte list" where
  "calculate_cookie hmac timestamp = hmac (timestamp_bytes timestamp)"

definition make_cookie :: "Hmac \<Rightarrow> 64 word \<Rightarrow> HMACCookie" where
  "make_cookie hmac timestamp =
     \<lparr>ck_timestamp = timestamp, ck_mac = calculate_cookie hmac timestamp, ck_format = hmac_sha_1_8\<rparr>"

definition verify_cookie :: "Hmac \<Rightarrow> 64 word \<Rightarrow> HMACCookie \<Rightarrow> bool" where
  "verify_cookie hmac timestamp cookie \<longleftrightarrow>
     (let this_stream = serialize cookie; other_stream = serialize (make_cookie hmac timestamp)
      in length this_stream = length other_stream \<and> const_memcmp this_stream other_stream = 0)"

definition make_cookie_from :: "Hmac \<Rightarrow> byte list \<Rightarrow> HMACCookie result" where
  "make_cookie_from hmac raw_cookie =
     (if length raw_cookie \<noteq> cookie_size_from_format hmac_sha_1_8 then Inl security_check_error
      else if raw_cookie ! 0 \<noteq> format_byte hmac_sha_1_8 then Inl security_check_error
      else
        let timestamp = bytes_timestamp (take 8 (drop 1 raw_cookie));
            mac = take mac_byte_size (drop 9 raw_cookie);
            cookie = \<lparr>ck_timestamp = timestamp, ck_mac = mac, ck_format = hmac_sha_1_8\<rparr>
        in if \<not> verify_cookie hmac timestamp cookie then Inl security_check_error else Inr cookie)"

section \<open>Which cookies are accepted\<close>

lemma length_timestamp_bytes [simp]: "length (timestamp_bytes t) = 8"
  by (simp add: timestamp_bytes_def)

lemma bytes_round_trip:
  assumes "length bs = 8"
  shows "timestamp_bytes (bytes_timestamp bs) = bs"
proof -
  obtain b0 b1 b2 b3 b4 b5 b6 b7 where bs: "bs = [b0, b1, b2, b3, b4, b5, b6, b7]"
    using assms by (auto simp: length_Suc_conv eval_nat_numeral)
  have byte: "(x :: byte) = y \<longleftrightarrow> (\<forall>n < 8. bit x n = bit y n)" for x y by (auto simp: bit_eq_iff dest: bit_imp_le_length)
  have high: "8 \<le> m \<Longrightarrow> \<not> bit (b :: byte) (m + n)" for b m n
    using bit_imp_le_length [of b "m + n"] by auto
  show ?thesis unfolding bs
    by (simp add: bytes_timestamp_def timestamp_bytes_def upt_conv_Cons byte bit_simps high)
qed

lemma timestamp_bit: "n < 64 \<Longrightarrow> bit t n = bit (timestamp_bytes t ! (n div 8)) (n mod 8)"
  using less_mult_imp_div_less [of n 8 8] by (simp add: timestamp_bytes_def bit_simps)

lemma timestamp_round_trip: "bytes_timestamp (timestamp_bytes t) = t"
proof (rule bit_word_eqI)
  fix n assume "n < LENGTH(64)"
  then show "bit (bytes_timestamp (timestamp_bytes t)) n = bit t n"
    by (simp add: timestamp_bit bytes_round_trip)
qed

lemma verify_cookie_iff: "verify_cookie hmac t c \<longleftrightarrow> serialize c = serialize (make_cookie hmac t)"
  unfolding verify_cookie_def Let_def using const_memcmp_eq_0 by auto

lemma make_cookie_from_parts:
  assumes "length bs = 8" "length mac = mac_byte_size"
  shows "make_cookie_from hmac (0 # bs @ mac) =
           (if mac = calculate_cookie hmac (bytes_timestamp bs) then Inr (make_cookie hmac (bytes_timestamp bs))
            else Inl security_check_error)"
  using assms
  by (simp add: make_cookie_from_def cookie_size_from_format_def default_blob_size_def mac_byte_size_def format_byte_def
      verify_cookie_iff serialize_def make_cookie_def Let_def)

lemma cookie_parts:
  assumes "length raw = default_blob_size" "raw ! 0 = 0"
  obtains bs mac where "raw = 0 # bs @ mac" "length bs = 8" "length mac = mac_byte_size"
proof
  show "raw = 0 # take 8 (drop 1 raw) @ drop 9 raw"
    using assms by (cases raw) (auto simp: default_blob_size_def simp flip: drop_drop)
qed (use assms in \<open>auto simp: default_blob_size_def mac_byte_size_def\<close>)

lemma make_cookie_from_rejects:
  "length raw \<noteq> default_blob_size \<or> raw ! 0 \<noteq> 0 \<Longrightarrow> make_cookie_from hmac raw = Inl security_check_error"
  by (auto simp: make_cookie_from_def cookie_size_from_format_def format_byte_def)

lemma serialize_made: "serialize (make_cookie hmac t) = 0 # timestamp_bytes t @ calculate_cookie hmac t"
  by (simp add: serialize_def make_cookie_def format_byte_def)

text \<open>
  C9: An authority accepts exactly the cookies it makes itself: a client can hand back a cookie it was given, and whatever else
  it sends, with another time stamp, code, format or length, is a failed security check.
\<close>

theorem accepted_cookies_are_genuine:
  assumes hmac: "\<And>m. length (hmac m) = mac_byte_size"
  shows "(make_cookie_from hmac raw = Inr c \<longleftrightarrow> raw = serialize c \<and> c = make_cookie hmac (ck_timestamp c)) \<and>
         ((\<forall>t. raw \<noteq> serialize (make_cookie hmac t)) \<longrightarrow> make_cookie_from hmac raw = Inl security_check_error)"
proof (cases "length raw = default_blob_size \<and> raw ! 0 = 0")
  case True
  then obtain bs mac where raw: "raw = 0 # bs @ mac" "length bs = 8" "length mac = mac_byte_size"
    using cookie_parts by blast
  have eq: "raw = serialize (make_cookie hmac t) \<longleftrightarrow> t = bytes_timestamp bs \<and> mac = calculate_cookie hmac t" for t
    using raw(2) by (auto simp: raw(1) serialize_made bytes_round_trip timestamp_round_trip)
  have stamp: "ck_timestamp (make_cookie hmac t) = t" for t by (simp add: make_cookie_def)
  show ?thesis
    unfolding raw(1) make_cookie_from_parts [OF raw(2,3)] using eq [unfolded raw(1)] stamp by (auto split: if_splits) metis+
next
  case False
  have "length (serialize (make_cookie hmac t)) = default_blob_size \<and> serialize (make_cookie hmac t) ! 0 = 0" for t
    by (simp add: serialize_made calculate_cookie_def hmac mac_byte_size_def default_blob_size_def)
  with False make_cookie_from_rejects [of raw hmac] show ?thesis by (metis Inl_Inr_False)
qed

text \<open>A code that sums up the message, eight bytes of it, stands in for the HMAC.\<close>

definition toy_hmac :: Hmac where
  "toy_hmac m = replicate mac_byte_size (foldr (+) m 0)"

theorem accepted_cookies_are_genuine_witness:
  "make_cookie_from toy_hmac (serialize (make_cookie toy_hmac 258)) = Inr (make_cookie toy_hmac 258) \<and>
   make_cookie_from toy_hmac (0 # timestamp_bytes 259 @ calculate_cookie toy_hmac 258) = Inl security_check_error"
proof -
  have len: "\<And>m. length (toy_hmac m) = mac_byte_size" by (simp add: toy_hmac_def)
  have stamp: "ck_timestamp (make_cookie toy_hmac 258) = 258" by (simp add: make_cookie_def)
  have other: "0 # timestamp_bytes 259 @ calculate_cookie toy_hmac 258 \<noteq> serialize (make_cookie toy_hmac t)" for t
  proof
    assume "0 # timestamp_bytes 259 @ calculate_cookie toy_hmac 258 = serialize (make_cookie toy_hmac t)"
    then have "timestamp_bytes 259 = timestamp_bytes t" "calculate_cookie toy_hmac 258 = calculate_cookie toy_hmac t"
      by (simp_all add: serialize_made)
    then have "calculate_cookie toy_hmac 258 = calculate_cookie toy_hmac 259" by (metis timestamp_round_trip)
    then show False by (simp add: calculate_cookie_def toy_hmac_def mac_byte_size_def timestamp_bytes_def upt_conv_Cons)
  qed
  show ?thesis
    using accepted_cookies_are_genuine [of toy_hmac, OF len, of "serialize (make_cookie toy_hmac 258)" "make_cookie toy_hmac 258"]
      accepted_cookies_are_genuine [of toy_hmac, OF len, of "0 # timestamp_bytes 259 @ calculate_cookie toy_hmac 258" "make_cookie toy_hmac 258"] stamp other
    by metis
qed

end
