(* ===== verification/Screencast.thy ===== *)
theory Screencast
  imports Surface_Stack Display_Config Std_Map
begin

text \<open>
  Screencasts (\<^verbatim>\<open>src/server/compositor/compositing_screencast.cpp\<close>, \<^verbatim>\<open>screencast_display_buffer.cpp\<close>): every session is a compositor of
  its own that draws the scene into buffers the client reads.  The GL calls are left out; the buffers an allocator
  returned are a parameter.

  The lemmas show that a capture never fails for a session that has a buffer, that the buffers are used in turn and none is
  lost, that capturing into a buffer of the client uses that buffer, and that the sessions are compositors of the scene.
\<close>

type_synonym ScreencastSessionId = nat

record ScreencastSessionContext =
  sx_compositor :: CompositorID
  capture_region :: Rectangle
  free_queue :: "Buffer list"
  ready_queue :: "Buffer list"
  current_buffer :: "Buffer option"
  last_captured_buffer :: "Buffer option"
  virtual_output :: bool

record CompositingScreencast =
  session_contexts :: "(ScreencastSessionId, ScreencastSessionContext) std_map"
  screencast_scene :: Scene
  next_context :: CompositorID

definition max_screencast_sessions :: nat where
  "max_screencast_sessions = 100"

definition empty_rectangle :: Rectangle where
  "empty_rectangle = mk_rect (mk_point 0 0) (mk_size 0 0)"

definition needs_virtual_output :: "DisplayConfiguration \<Rightarrow> Rectangle \<Rightarrow> bool" where
  "needs_virtual_output conf region \<longleftrightarrow>
     (let disp_rects = map extents (filter connected (outputs conf))
      in empty_rectangle = intersection_with (bounding_rectangle disp_rects) region)"

text \<open>\<open>QueueingSchedule::schedule\<close>, which has no client to send a buffer back to.\<close>

abbreviation schedule_buffer :: "Buffer \<Rightarrow> Buffer list \<Rightarrow> Buffer list" where
  "schedule_buffer b q \<equiv> (if b \<in> set q then erase_first (\<lambda>x. x = b) q else q) @ [b]"

definition next_available_session_id :: "CompositingScreencast \<Rightarrow> ScreencastSessionId result" where
  "next_available_session_id sx =
     (case find (\<lambda>i. map_of (session_contexts sx) i = None) [1..<max_screencast_sessions + 1] of
        Some i \<Rightarrow> Inr i
      | None \<Rightarrow> Inl (runtime_error ''Too many screencast sessions!''))"

text \<open>\<open>allocated\<close> are the \<open>nbuffers\<close> buffers of the allocator.\<close>

definition create_session_context ::
  "DisplayConfiguration \<Rightarrow> Buffer list \<Rightarrow> Rectangle \<Rightarrow> CompositingScreencast \<Rightarrow> ScreencastSessionContext \<times> CompositingScreencast" where
  "create_session_context conf allocated region sx =
     (let c = next_context sx
      in (\<lparr>sx_compositor = c, capture_region = region, free_queue = fold schedule_buffer allocated [], ready_queue = [],
           current_buffer = None, last_captured_buffer = None, virtual_output = needs_virtual_output conf region\<rparr>,
          sx\<lparr>next_context := Suc c, screencast_scene := register_compositor (screencast_scene sx) c\<rparr>))"

definition create_screencast_session ::
  "DisplayConfiguration \<Rightarrow> Buffer list \<Rightarrow> Rectangle \<Rightarrow> Size \<Rightarrow> MirPixelFormat \<Rightarrow> int \<Rightarrow> CompositingScreencast \<Rightarrow>
   (CompositingScreencast, ScreencastSessionId) outcome" where
  "create_screencast_session conf allocated region sz format nbuffers sx =
     (if width sz = 0 \<or> height sz = 0 \<or> width (rect_size region) = 0 \<or> height (rect_size region) = 0 \<or>
         format = mir_pixel_format_invalid \<or> nbuffers < 0
      then (Inl (runtime_error ''Invalid parameters''), sx)
      else case next_available_session_id sx of
             Inl e \<Rightarrow> (Inl e, sx)
           | Inr i \<Rightarrow>
               let (cx, sx) = create_session_context conf allocated region sx
               in (Inr i, sx\<lparr>session_contexts := map_put i cx (session_contexts sx)\<rparr>))"

definition destroy_screencast_session :: "ScreencastSessionId \<Rightarrow> CompositingScreencast \<Rightarrow> CompositingScreencast" where
  "destroy_screencast_session i sx =
     (case map_of (session_contexts sx) i of
        None \<Rightarrow> sx
      | Some cx \<Rightarrow>
          sx\<lparr>session_contexts := map_erase i (session_contexts sx),
             screencast_scene := unregister_compositor (screencast_scene sx) (sx_compositor cx)\<rparr>)"

section \<open>Drawing into a buffer\<close>

definition sx_bind :: "ScreencastSessionContext \<Rightarrow> (ScreencastSessionContext, unit) outcome" where
  "sx_bind cx =
     (case current_buffer cx of
        Some _ \<Rightarrow> (Inr (), cx)
      | None \<Rightarrow>
          (case queueing_next_buffer (free_queue cx) of
             (Inl e, q) \<Rightarrow> (Inl e, cx)
           | (Inr b, q) \<Rightarrow> (Inr (), cx\<lparr>current_buffer := Some b, free_queue := q\<rparr>)))"

definition sx_swap_buffers :: "ScreencastSessionContext \<Rightarrow> ScreencastSessionContext" where
  "sx_swap_buffers cx =
     (case current_buffer cx of
        None \<Rightarrow> cx
      | Some b \<Rightarrow> cx\<lparr>ready_queue := schedule_buffer b (ready_queue cx), current_buffer := None\<rparr>)"

text \<open>\<open>display_buffer_compositor->composite(scene->scene_elements_for(this))\<close>: \<open>overlay\<close> is always false here, so the renderer draws.\<close>

definition sx_composite :: "ScreencastSessionContext \<times> Scene \<Rightarrow> (ScreencastSessionContext \<times> Scene, unit) outcome" where
  "sx_composite st =
     (let (cx, sc) = st
      in case composite_frame sc (sx_compositor cx) (capture_region cx) (\<lambda>_. False) of
           (Inl e, sc) \<Rightarrow> (Inl e, (cx, sc))
         | (Inr _, sc) \<Rightarrow>
             (case sx_bind cx of
                (Inl e, cx) \<Rightarrow> (Inl e, (cx, sc))
              | (Inr _, cx) \<Rightarrow> (Inr (), (sx_swap_buffers cx, sc))))"

definition take_ready :: "ScreencastSessionContext \<Rightarrow> (ScreencastSessionContext, Buffer) outcome" where
  "take_ready cx = (case queueing_next_buffer (ready_queue cx) of (r, q) \<Rightarrow> (r, cx\<lparr>ready_queue := q\<rparr>))"

definition sx_capture :: "ScreencastSessionContext \<times> Scene \<Rightarrow> (ScreencastSessionContext \<times> Scene, Buffer) outcome" where
  "sx_capture st =
     (let (cx, sc) = st;
          cx = (case last_captured_buffer cx of Some b \<Rightarrow> cx\<lparr>free_queue := schedule_buffer b (free_queue cx)\<rparr> | None \<Rightarrow> cx)
      in case sx_composite (cx, sc) of
           (Inl e, st) \<Rightarrow> (Inl e, st)
         | (Inr _, (cx, sc)) \<Rightarrow>
             (case take_ready cx of
                (Inl e, cx) \<Rightarrow> (Inl e, (cx, sc))
              | (Inr b, cx) \<Rightarrow> (Inr b, (cx\<lparr>last_captured_buffer := Some b\<rparr>, sc))))"

fun rotate_queue :: "nat \<Rightarrow> Buffer list \<Rightarrow> Buffer list" where
  "rotate_queue 0 q = q"
| "rotate_queue (Suc n) q = (case q of [] \<Rightarrow> [] | b # bs \<Rightarrow> rotate_queue n (schedule_buffer b bs))"

definition sx_capture_to :: "Buffer \<Rightarrow> ScreencastSessionContext \<times> Scene \<Rightarrow> (ScreencastSessionContext \<times> Scene, unit) outcome" where
  "sx_capture_to b st =
     (let (cx, sc) = st;
          scheduled = length (free_queue cx);
          cx = cx\<lparr>free_queue := rotate_queue scheduled (schedule_buffer b (free_queue cx))\<rparr>
      in case sx_composite (cx, sc) of
           (Inl e, st) \<Rightarrow> (Inl e, st)
         | (Inr _, (cx, sc)) \<Rightarrow>
             (case take_ready cx of
                (Inl e, cx) \<Rightarrow> (Inl e, (cx, sc))
              | (Inr b', cx) \<Rightarrow> (if b \<noteq> b' then Inl (runtime_error ''unable to capture to buffer'') else Inr (), (cx, sc))))"

text \<open>\<open>session_contexts.at(id)\<close> throws when there is none.\<close>

definition on_context ::
  "(ScreencastSessionContext \<times> Scene \<Rightarrow> (ScreencastSessionContext \<times> Scene, 'a) outcome) \<Rightarrow> ScreencastSessionId \<Rightarrow> CompositingScreencast \<Rightarrow>
   (CompositingScreencast, 'a) outcome" where
  "on_context f i sx =
     (case map_of (session_contexts sx) i of
        None \<Rightarrow> (Inl (out_of_range ''unordered_map::at''), sx)
      | Some cx \<Rightarrow>
          (case f (cx, screencast_scene sx) of
             (r, (cx, sc)) \<Rightarrow> (r, sx\<lparr>session_contexts := map_put i cx (session_contexts sx), screencast_scene := sc\<rparr>)))"

definition capture :: "ScreencastSessionId \<Rightarrow> CompositingScreencast \<Rightarrow> (CompositingScreencast, Buffer) outcome" where
  "capture i = on_context sx_capture i"

definition capture_to :: "ScreencastSessionId \<Rightarrow> Buffer \<Rightarrow> CompositingScreencast \<Rightarrow> (CompositingScreencast, unit) outcome" where
  "capture_to i b = on_context (sx_capture_to b) i"

section \<open>The buffers of a session\<close>

text \<open>In the order in which they will be used.\<close>

definition own_buffers :: "ScreencastSessionContext \<Rightarrow> Buffer list" where
  "own_buffers cx = free_queue cx @ (case last_captured_buffer cx of Some b \<Rightarrow> [b] | None \<Rightarrow> [])"

definition context_ok :: "Scene \<Rightarrow> ScreencastSessionContext \<Rightarrow> bool" where
  "context_ok sc cx \<longleftrightarrow>
     sx_compositor cx \<in> registered_compositors sc \<and> distinct (own_buffers cx) \<and> ready_queue cx = [] \<and> current_buffer cx = None"

lemma frame_of_context:
  assumes "scene_reachable sc" "c \<in> registered_compositors sc"
  obtains sc' where "composite_frame sc c area overlay = (Inr (), sc')" "scene_reachable sc'" "same_stack sc sc'"
proof -
  obtain kept occ where "filter_occlusions_from element_renderable (fst (scene_elements_for sc c)) area = (kept, occ)" by fastforce
  from composite_frame_calls [OF assms this] show thesis by (metis that)
qed

lemma sx_composite_takes_next:
  assumes sc: "scene_reachable sc" "sx_compositor cx \<in> registered_compositors sc"
    and cx: "ready_queue cx = []" "current_buffer cx = None" and q: "free_queue cx = b # q"
  shows "\<exists>sc'. sx_composite (cx, sc) = (Inr (), (cx\<lparr>free_queue := q, ready_queue := [b]\<rparr>, sc')) \<and> scene_reachable sc' \<and> same_stack sc sc'"
proof -
  obtain sc' where f: "composite_frame sc (sx_compositor cx) (capture_region cx) (\<lambda>_. False) = (Inr (), sc')" "scene_reachable sc'" "same_stack sc sc'"
    using frame_of_context [OF sc] by metis
  have "cx\<lparr>current_buffer := None\<rparr> = cx" using cx(2) by simp
  then show ?thesis using f cx q
    by (simp add: sx_composite_def sx_bind_def queueing_next_buffer_def sx_swap_buffers_def)
qed

lemma sx_capture_in_turn:
  assumes "scene_reachable sc" "context_ok sc cx" "own_buffers cx \<noteq> []"
  shows "\<exists>cx' sc'. sx_capture (cx, sc) = (Inr (hd (own_buffers cx)), (cx', sc')) \<and> own_buffers cx' = rotate1 (own_buffers cx) \<and>
           sx_compositor cx' = sx_compositor cx \<and> context_ok sc' cx' \<and> scene_reachable sc' \<and> same_stack sc sc'"
proof -
  define cx1 where "cx1 = (case last_captured_buffer cx of Some b \<Rightarrow> cx\<lparr>free_queue := schedule_buffer b (free_queue cx)\<rparr> | None \<Rightarrow> cx)"
  obtain b q where bq: "own_buffers cx = b # q" using assms(3) by (cases "own_buffers cx") auto
  have ok: "sx_compositor cx1 = sx_compositor cx" "ready_queue cx1 = []" "current_buffer cx1 = None" "free_queue cx1 = b # q"
    "sx_compositor cx1 \<in> registered_compositors sc"
    using assms(2) bq by (auto simp: cx1_def context_ok_def own_buffers_def split: option.splits)
  obtain sc' where c: "sx_composite (cx1, sc) = (Inr (), (cx1\<lparr>free_queue := q, ready_queue := [b]\<rparr>, sc'))" "scene_reachable sc'" "same_stack sc sc'"
    using sx_composite_takes_next [OF assms(1) ok(5,2,3,4)] by blast
  let ?cx = "cx1\<lparr>free_queue := q, ready_queue := [], last_captured_buffer := Some b\<rparr>"
  have "sx_capture (cx, sc) = (Inr b, (?cx, sc'))"
    using c(1) by (simp add: sx_capture_def Let_def cx1_def [symmetric] take_ready_def queueing_next_buffer_def)
  moreover have own: "own_buffers ?cx = q @ [b]" by (simp add: own_buffers_def)
  moreover have "distinct (b # q)" using assms(2) by (simp add: context_ok_def bq)
  then have "context_ok sc' ?cx" using ok c(3) own by (simp add: context_ok_def same_stack_def)
  ultimately show ?thesis using c(2,3) ok(1) bq by auto
qed

lemma rotate_queue_append: "distinct (xs @ ys) \<Longrightarrow> rotate_queue (length xs) (xs @ ys) = ys @ xs"
proof (induction xs arbitrary: ys)
  case (Cons x xs)
  have "rotate_queue (length (x # xs)) ((x # xs) @ ys) = rotate_queue (length xs) (xs @ (ys @ [x]))" using Cons.prems by simp
  also have "\<dots> = (ys @ [x]) @ xs" using Cons.prems by (intro Cons.IH) auto
  finally show ?case by simp
qed simp

lemma sx_capture_to_buffer:
  assumes "scene_reachable sc" "context_ok sc cx" "b \<notin> set (own_buffers cx)"
  shows "\<exists>sc'. sx_capture_to b (cx, sc) = (Inr (), (cx, sc')) \<and> context_ok sc' cx \<and> scene_reachable sc' \<and> same_stack sc sc'"
proof -
  have free: "b \<notin> set (free_queue cx)" "distinct (free_queue cx @ [b])" using assms(2,3) by (auto simp: own_buffers_def context_ok_def)
  let ?cx = "cx\<lparr>free_queue := b # free_queue cx\<rparr>"
  have q: "rotate_queue (length (free_queue cx)) (schedule_buffer b (free_queue cx)) = b # free_queue cx"
    using rotate_queue_append [OF free(2)] free(1) by simp
  obtain sc' where c: "sx_composite (?cx, sc) = (Inr (), (?cx\<lparr>free_queue := free_queue cx, ready_queue := [b]\<rparr>, sc'))" "scene_reachable sc'" "same_stack sc sc'"
    using sx_composite_takes_next [OF assms(1), of ?cx b "free_queue cx"] assms(2) by (auto simp: context_ok_def)
  have "cx\<lparr>ready_queue := []\<rparr> = cx" using assms(2) by (simp add: context_ok_def)
  then have "sx_capture_to b (cx, sc) = (Inr (), (cx, sc'))"
    using c(1) by (simp add: sx_capture_to_def Let_def q take_ready_def queueing_next_buffer_def)
  then show ?thesis using c assms(2) by (auto simp: context_ok_def same_stack_def)
qed

lemma sx_capture_without_buffers:
  assumes "scene_reachable sc" "context_ok sc cx" "own_buffers cx = []"
  shows "\<exists>sc'. sx_capture (cx, sc) = (Inl (logic_error ''no buffer scheduled''), (cx, sc')) \<and> scene_reachable sc' \<and> same_stack sc sc'"
proof -
  obtain sc' where f: "composite_frame sc (sx_compositor cx) (capture_region cx) (\<lambda>_. False) = (Inr (), sc')" "scene_reachable sc'" "same_stack sc sc'"
    using frame_of_context [OF assms(1)] assms(2) by (metis context_ok_def)
  then show ?thesis using assms(2,3)
    by (auto simp: sx_capture_def sx_composite_def sx_bind_def queueing_next_buffer_def context_ok_def own_buffers_def split: option.splits)
qed

section \<open>Every run\<close>

inductive screencast_reachable :: "CompositingScreencast \<Rightarrow> bool" where
  start: "scene_reachable sc \<Longrightarrow> \<forall>c \<in> registered_compositors sc. c < n \<Longrightarrow>
    screencast_reachable \<lparr>session_contexts = [], screencast_scene = sc, next_context = n\<rparr>"
| create: "screencast_reachable sx \<Longrightarrow> distinct allocated \<Longrightarrow> nbuffers = int (length allocated) \<Longrightarrow>
    screencast_reachable (snd (create_screencast_session conf allocated region sz format nbuffers sx))"
| destroy: "screencast_reachable sx \<Longrightarrow> screencast_reachable (destroy_screencast_session i sx)"
| capture: "screencast_reachable sx \<Longrightarrow> screencast_reachable (snd (capture i sx))"
| capture_to: "screencast_reachable sx \<Longrightarrow> \<forall>e \<in> set (session_contexts sx). b \<notin> set (own_buffers (snd e)) \<Longrightarrow>
    screencast_reachable (snd (capture_to i b sx))"
| scene: "screencast_reachable sx \<Longrightarrow> scene_step (screencast_scene sx) sc \<Longrightarrow> next_context sx \<le> n \<Longrightarrow>
    \<forall>c \<in> registered_compositors sc. c < n \<Longrightarrow> \<forall>e \<in> set (session_contexts sx). sx_compositor (snd e) \<in> registered_compositors sc \<Longrightarrow>
    screencast_reachable (sx\<lparr>screencast_scene := sc, next_context := n\<rparr>)"

definition screencast_inv :: "CompositingScreencast \<Rightarrow> bool" where
  "screencast_inv sx \<longleftrightarrow>
     ordered (session_contexts sx) \<and> fst ` set (session_contexts sx) \<subseteq> {1..max_screencast_sessions} \<and>
     scene_reachable (screencast_scene sx) \<and> (\<forall>c \<in> registered_compositors (screencast_scene sx). c < next_context sx) \<and>
     (\<forall>i cx. map_of (session_contexts sx) i = Some cx \<longrightarrow> context_ok (screencast_scene sx) cx) \<and>
     (\<forall>i j cx dx. map_of (session_contexts sx) i = Some cx \<longrightarrow> map_of (session_contexts sx) j = Some dx \<longrightarrow>
        sx_compositor cx = sx_compositor dx \<longrightarrow> i = j)"

lemma context_ok_cong: "sx_compositor cx \<in> registered_compositors sc' \<Longrightarrow> context_ok sc cx \<Longrightarrow> context_ok sc' cx"
  by (simp add: context_ok_def)

lemma inv_put_context:
  assumes inv: "screencast_inv sx" and i: "map_of (session_contexts sx) i = Some cx"
    and new: "sx_compositor cx' = sx_compositor cx" "context_ok sc' cx'" "scene_reachable sc'" "same_stack (screencast_scene sx) sc'"
  shows "screencast_inv (sx\<lparr>session_contexts := map_put i cx' (session_contexts sx), screencast_scene := sc'\<rparr>)"
proof -
  have "i \<in> fst ` set (session_contexts sx)" using i map_of_SomeD by force
  moreover have "context_ok sc' dx" if "map_of (session_contexts sx) j = Some dx" for j dx
    using inv that new(4) by (auto simp: screencast_inv_def context_ok_def same_stack_def)
  ultimately show ?thesis using inv i new by (auto simp: screencast_inv_def same_stack_def split: if_splits)
qed

lemma registered_after [simp]:
  "registered_compositors (register_compositor sc c) = insert c (registered_compositors sc)"
  "registered_compositors (unregister_compositor sc c) = registered_compositors sc - {c}"
  by (simp_all add: register_compositor_def unregister_compositor_def update_rendering_tracker_compositors_def split: prod.split)

lemma fold_schedule: "distinct (q @ bs) \<Longrightarrow> fold schedule_buffer bs q = q @ bs"
  by (induction bs arbitrary: q) auto

lemma inv_create:
  assumes inv: "screencast_inv sx" and al: "distinct allocated"
  shows "screencast_inv (snd (create_screencast_session conf allocated region sz format nbuffers sx))"
proof (cases "next_available_session_id sx")
  case (Inl e)
  then show ?thesis using inv by (simp add: create_screencast_session_def)
next
  case (Inr i)
  then have i: "map_of (session_contexts sx) i = None" "1 \<le> i" "i \<le> max_screencast_sessions"
    by (auto simp: next_available_session_id_def find_Some_iff nth_append split: option.splits if_splits)
  let ?c = "next_context sx" and ?sc = "register_compositor (screencast_scene sx) (next_context sx)"
  define cx where "cx = fst (create_session_context conf allocated region sx)"
  let ?sx = "sx\<lparr>next_context := Suc ?c, screencast_scene := ?sc, session_contexts := map_put i cx (session_contexts sx)\<rparr>"
  have cx: "sx_compositor cx = ?c" "own_buffers cx = allocated" "ready_queue cx = []" "current_buffer cx = None"
    using fold_schedule [of "[]" allocated] al by (simp_all add: cx_def create_session_context_def own_buffers_def Let_def)
  have reg: "registered_compositors ?sc = insert ?c (registered_compositors (screencast_scene sx))" by simp
  have r: "scene_reachable ?sc" using inv by (auto simp: screencast_inv_def intro: scene_reachable_call stack_call.register)
  have ok: "context_ok ?sc dx" "sx_compositor dx < ?c" if "map_of (session_contexts sx) j = Some dx" for j dx
    using inv that reg by (auto simp: screencast_inv_def context_ok_def)
  have "context_ok ?sc cx" using cx reg al by (simp add: context_ok_def)
  then have "screencast_inv ?sx"
    using inv i cx(1) ok r reg unfolding screencast_inv_def by (auto split: if_splits) (metis less_irrefl)+
  moreover have "snd (create_screencast_session conf allocated region sz format nbuffers sx) \<in> {sx, ?sx}"
    using Inr by (simp add: create_screencast_session_def create_session_context_def Let_def cx_def)
  ultimately show ?thesis using inv by auto
qed

lemma inv_destroy: "screencast_inv sx \<Longrightarrow> screencast_inv (destroy_screencast_session i sx)"
proof (cases "map_of (session_contexts sx) i")
  case (Some cx)
  assume inv: "screencast_inv sx"
  let ?sc = "unregister_compositor (screencast_scene sx) (sx_compositor cx)"
  have reg: "registered_compositors ?sc = registered_compositors (screencast_scene sx) - {sx_compositor cx}" by simp
  have "scene_reachable ?sc" using inv by (auto simp: screencast_inv_def intro: scene_reachable_call stack_call.unregister)
  moreover have "context_ok ?sc dx" if "map_of (session_contexts sx) j = Some dx" "j \<noteq> i" for j dx
    using inv that reg Some by (auto simp: screencast_inv_def context_ok_def)
  ultimately show ?thesis using inv reg Some
    by (auto simp: screencast_inv_def destroy_screencast_session_def split: if_splits)
qed (simp add: destroy_screencast_session_def)

text \<open>A capture of a session of the screencast: the session's buffers go round, and the other sessions do not notice.\<close>

lemma capture_result:
  assumes inv: "screencast_inv sx" and i: "map_of (session_contexts sx) i = Some cx" and b: "own_buffers cx \<noteq> []"
  shows "\<exists>sx' cx'. capture i sx = (Inr (hd (own_buffers cx)), sx') \<and> screencast_inv sx' \<and>
    map_of (session_contexts sx') = (map_of (session_contexts sx))(i \<mapsto> cx') \<and> own_buffers cx' = rotate1 (own_buffers cx) \<and>
    same_stack (screencast_scene sx) (screencast_scene sx')"
proof -
  have ok: "scene_reachable (screencast_scene sx)" "context_ok (screencast_scene sx) cx" using inv i by (auto simp: screencast_inv_def)
  obtain cx' sc' where c: "sx_capture (cx, screencast_scene sx) = (Inr (hd (own_buffers cx)), (cx', sc'))" "own_buffers cx' = rotate1 (own_buffers cx)"
    "sx_compositor cx' = sx_compositor cx" "context_ok sc' cx'" "scene_reachable sc'" "same_stack (screencast_scene sx) sc'"
    using sx_capture_in_turn [OF ok b] by blast
  let ?sx = "sx\<lparr>session_contexts := map_put i cx' (session_contexts sx), screencast_scene := sc'\<rparr>"
  have "capture i sx = (Inr (hd (own_buffers cx)), ?sx)" using i c(1) by (simp add: capture_def on_context_def)
  moreover have "map_of (session_contexts ?sx) = (map_of (session_contexts sx))(i \<mapsto> cx')" by simp
  ultimately show ?thesis using c(2,6) inv_put_context [OF inv i c(3-6)] by (metis CompositingScreencast.select_convs(2) CompositingScreencast.surjective CompositingScreencast.update_convs(1,2))
qed

lemma inv_capture:
  assumes inv: "screencast_inv sx" shows "screencast_inv (snd (capture i sx))"
proof (cases "map_of (session_contexts sx) i")
  case (Some cx)
  show ?thesis
  proof (cases "own_buffers cx = []")
    case True
    have ok: "scene_reachable (screencast_scene sx)" "context_ok (screencast_scene sx) cx" using inv Some by (auto simp: screencast_inv_def)
    obtain sc' where "sx_capture (cx, screencast_scene sx) = (Inl (logic_error ''no buffer scheduled''), (cx, sc'))" "scene_reachable sc'"
      "same_stack (screencast_scene sx) sc'"
      using sx_capture_without_buffers [OF ok True] by blast
    then show ?thesis using inv_put_context [OF inv Some refl context_ok_cong [OF _ ok(2)]] ok(2) Some
      by (simp add: capture_def on_context_def context_ok_def same_stack_def)
  next
    case False
    then show ?thesis using capture_result [OF inv Some] by auto
  qed
qed (simp add: capture_def on_context_def inv)

lemma capture_to_result:
  assumes inv: "screencast_inv sx" and i: "map_of (session_contexts sx) i = Some cx" and b: "b \<notin> set (own_buffers cx)"
  shows "\<exists>sx'. capture_to i b sx = (Inr (), sx') \<and> screencast_inv sx' \<and> map_of (session_contexts sx') = map_of (session_contexts sx) \<and>
    same_stack (screencast_scene sx) (screencast_scene sx')"
proof -
  have ok: "scene_reachable (screencast_scene sx)" "context_ok (screencast_scene sx) cx" using inv i by (auto simp: screencast_inv_def)
  obtain sc' where c: "sx_capture_to b (cx, screencast_scene sx) = (Inr (), (cx, sc'))" "context_ok sc' cx" "scene_reachable sc'"
    "same_stack (screencast_scene sx) sc'"
    using sx_capture_to_buffer [OF ok b] by blast
  show ?thesis using i c inv_put_context [OF inv i refl c(2-4)] by (simp add: capture_to_def on_context_def fun_upd_idem)
qed

lemma screencast_inv_reachable: "screencast_reachable sx \<Longrightarrow> screencast_inv sx"
proof (induction rule: screencast_reachable.induct)
  case (capture_to sx b i)
  show ?case
  proof (cases "map_of (session_contexts sx) i")
    case (Some cx)
    then have "b \<notin> set (own_buffers cx)" using capture_to.hyps(2) map_of_SomeD by fastforce
    then show ?thesis using capture_to_result [OF capture_to.IH Some, of b] by auto
  qed (simp add: capture_to_def on_context_def capture_to.IH)
next
  case (scene sx sc n)
  then have "scene_reachable sc" by (auto simp: screencast_inv_def intro: scene_reachable.step)
  moreover have "context_ok sc cx" if "map_of (session_contexts sx) i = Some cx" for i cx
    using scene that map_of_SomeD [OF that] by (auto simp: screencast_inv_def context_ok_def)
  ultimately show ?case using scene by (auto simp: screencast_inv_def)
qed (simp_all add: inv_create inv_destroy inv_capture, simp add: screencast_inv_def)

text \<open>
  C37: In every run a capture of a session that has buffers never fails: it returns the buffer that has not been used
  for the longest time, the buffers of the session go round and none is lost, and neither the other sessions nor the stack of surfaces
  change.  Capturing into a buffer that is not one of the session's uses that buffer and leaves the session's own as they were.
\<close>

theorem screencast_buffers_in_turn:
  assumes "screencast_reachable sx" and "map_of (session_contexts sx) i = Some cx" and "own_buffers cx \<noteq> []" and "b \<notin> set (own_buffers cx)"
  shows "(\<exists>sx' cx'. capture i sx = (Inr (hd (own_buffers cx)), sx') \<and> map_of (session_contexts sx') = (map_of (session_contexts sx))(i \<mapsto> cx') \<and>
            own_buffers cx' = rotate1 (own_buffers cx) \<and> surfaces (screencast_scene sx') = surfaces (screencast_scene sx)) \<and>
         (\<exists>sx'. capture_to i b sx = (Inr (), sx') \<and> map_of (session_contexts sx') = map_of (session_contexts sx) \<and>
            surfaces (screencast_scene sx') = surfaces (screencast_scene sx))"
  using capture_result [OF screencast_inv_reachable [OF assms(1)] assms(2,3)]
    capture_to_result [OF screencast_inv_reachable [OF assms(1)] assms(2,4)] by (auto simp: same_stack_def)

text \<open>There are at most a hundred sessions, each a compositor of the scene, and a valid request fails only when there are a hundred.\<close>

theorem screencast_sessions_limited:
  assumes "screencast_reachable sx" and "sz = mk_size 1 1" and "region = mk_rect (mk_point 0 0) sz"
  shows "length (session_contexts sx) \<le> 100 \<and>
    (\<forall>i cx. map_of (session_contexts sx) i = Some cx \<longrightarrow> sx_compositor cx \<in> registered_compositors (screencast_scene sx)) \<and>
    ((\<exists>i sx'. create_screencast_session conf [] region sz 1 0 sx = (Inr i, sx')) \<longleftrightarrow> length (session_contexts sx) < 100)"
proof -
  have inv: "screencast_inv sx" by (rule screencast_inv_reachable [OF assms(1)])
  let ?m = "session_contexts sx"
  have d: "distinct (map fst ?m)" using inv by (simp add: screencast_inv_def ordered_distinct)
  have sub: "fst ` set ?m \<subseteq> {1..100}" using inv by (simp add: screencast_inv_def max_screencast_sessions_def)
  have card: "length ?m = card (fst ` set ?m)" using distinct_card [OF d] by simp
  have le: "length ?m \<le> 100" unfolding card using card_mono [OF _ sub] by simp
  have "(\<exists>i. next_available_session_id sx = Inr i) \<longleftrightarrow> (\<exists>i \<in> {1..100}. i \<notin> fst ` set ?m)"
    by (auto simp: next_available_session_id_def max_screencast_sessions_def find_None_iff find_Some_iff map_of_eq_None_iff split: option.splits)
  also have "\<dots> \<longleftrightarrow> length ?m < 100"
  proof
    assume "\<exists>i \<in> {1..100}. i \<notin> fst ` set ?m"
    then have "fst ` set ?m \<subset> {1..100}" using sub by blast
    then show "length ?m < 100" unfolding card using psubset_card_mono [of "{1..100 :: nat}"] by simp
  next
    assume "length ?m < 100"
    then have "fst ` set ?m \<noteq> {1..100}" unfolding card by auto
    then show "\<exists>i \<in> {1..100}. i \<notin> fst ` set ?m" using sub by blast
  qed
  finally have "(\<exists>i. next_available_session_id sx = Inr i) \<longleftrightarrow> length ?m < 100" .
  then have "(\<exists>i sx'. create_screencast_session conf [] region sz 1 0 sx = (Inr i, sx')) \<longleftrightarrow> length ?m < 100"
    using assms(2,3) by (auto simp: create_screencast_session_def split: sum.splits prod.splits)
  then show ?thesis using le inv by (auto simp: screencast_inv_def context_ok_def)
qed

section \<open>Examples\<close>

definition idle_screencast :: CompositingScreencast where
  "idle_screencast = \<lparr>session_contexts = [], screencast_scene = sample_scene, next_context = 10\<rparr>"

definition spare :: "nat \<Rightarrow> Buffer" where
  "spare n = \<lparr>buf_addr = n, buf_id = IntWrapper (of_nat n), buf_size = mk_size 4 4, buf_format = 1\<rparr>"

definition double_buffered :: CompositingScreencast where
  "double_buffered = snd (create_screencast_session sample_configuration [spare 1, spare 2] (mk_rect (mk_point 0 0) (mk_size 4 4)) (mk_size 4 4) 1 2 idle_screencast)"

lemma idle_reachable: "screencast_reachable idle_screencast"
  unfolding idle_screencast_def by (rule screencast_reachable.start [OF sample_scene_reachable]) (simp add: sample_scene_eval)

lemma double_buffered_session:
  "\<exists>cx. map_of (session_contexts double_buffered) 1 = Some cx \<and> own_buffers cx = [spare 1, spare 2]"
  by (simp add: double_buffered_def create_screencast_session_def next_available_session_id_def idle_screencast_def max_screencast_sessions_def
      create_session_context_def own_buffers_def spare_def Let_def upt_rec)

theorem screencast_buffers_in_turn_witness: "fst (capture 1 double_buffered) = Inr (spare 1)"
proof -
  have "screencast_reachable double_buffered" unfolding double_buffered_def
    by (rule screencast_reachable.create [OF idle_reachable]) (simp_all add: spare_def)
  moreover obtain cx where cx: "map_of (session_contexts double_buffered) 1 = Some cx" "own_buffers cx = [spare 1, spare 2]"
    using double_buffered_session by blast
  ultimately show ?thesis using screencast_buffers_in_turn [of double_buffered 1 cx "spare 3"] by (auto simp: spare_def)
qed

theorem screencast_sessions_limited_witness:
  "\<exists>i sx'. create_screencast_session sample_configuration [] (mk_rect (mk_point 0 0) (mk_size 1 1)) (mk_size 1 1) 1 0 idle_screencast = (Inr i, sx')"
proof -
  have "length (session_contexts idle_screencast) < 100" by (simp add: idle_screencast_def)
  then show ?thesis using screencast_sessions_limited [OF idle_reachable refl refl] by blast
qed

end
