(* ===== verification/Session_Mediator.thy ===== *)
theory Session_Mediator
  imports Client_Messages Cookie Display_Changer Display_Protocol Screencast
begin

text \<open>
  The session mediator (\<^verbatim>\<open>src/server/frontend/session_mediator.cpp\<close>, \<^verbatim>\<open>screencast_buffer_tracker.cpp\<close>), which carries out the requests of
  one client, with what the IPC factory gives it according to the client's authorisation
  (\<^verbatim>\<open>default_ipc_factory.cpp\<close>, \<^verbatim>\<open>unauthorized_screencast.cpp\<close>, \<^verbatim>\<open>no_prompt_shell.cpp\<close>).

  \<open>Server\<close> is what all mediators share: the shell, the persistent names, the display changer, the screencasts and the other mediators.
  The parts that share objects in the program are kept in step: the scene of the screencasts is that of the
  sessions, the display changer and the prompt sessions see the sessions of the session manager, the handlers that the display changer has registered
  there are called, and the streams of a session share its buffers.  The calls on observers and the resource cache
  are left out.  What the platform, the allocator, libuuid and nettle answer during a request is the record \<open>ServerEnv\<close>.
\<close>

record ServerEnv =
  env_now :: int
  env_drop_timeout :: int
  env_addr :: "SurfacePtr \<Rightarrow> nat"
  env_uuid :: UuidLib
  env_generated :: Uuid
  env_hmac :: Hmac
  env_sink_add :: "Buffer \<Rightarrow> exn option"
  env_allocate :: "nat \<Rightarrow> Buffer result"
  env_screencast_buffers :: "Buffer list"
  env_unpack :: "Buffer \<Rightarrow> exn option"
  env_pack :: "Buffer \<Rightarrow> bool \<Rightarrow> exn option"
  env_cursor_image :: "string \<Rightarrow> nat"
  env_client_fd :: "nat \<Rightarrow> int result"
  env_platform_operation :: "nat \<Rightarrow> int list \<Rightarrow> int list result"
  env_translation_supported :: bool

section \<open>The state\<close>

text \<open>
  \<open>connect_handler\<close> is what the connection context was made with: the client and the prompt session whose provider connects
  here.  A null weak pointer in \<open>med_prompt_sessions\<close> is \<open>None\<close>.
\<close>

record Authorization =
  auth_changer :: AuthorizingDisplayChanger
  screencast_is_allowed :: bool
  prompt_session_is_allowed :: bool

record SessionMediator =
  client_pid :: int
  med_authorization :: Authorization
  connect_handler :: "(nat \<times> nat) option"
  weak_session :: "nat option"
  legacy_default_stream_map :: "(nat, nat) std_map"
  screencast_buffer_tracker :: "(ScreencastSessionId, nat set) std_map"
  med_prompt_sessions :: "(nat, nat option) std_map"
  next_prompt_id :: nat

record 'w Server =
  srv_shell :: "'w Shell"
  srv_store :: SurfaceIdBimap
  srv_changer :: MediatingDisplayChanger
  srv_screencasts :: CompositingScreencast
  srv_clients :: "nat \<Rightarrow> SessionMediator option"
  srv_next_client :: nat

type_synonym 'w mediated = "SessionMediator \<times> 'w Server"

definition make_ipc_server :: "Authorization \<Rightarrow> (nat \<times> nat) option \<Rightarrow> SessionMediator" where
  "make_ipc_server creds handler =
     \<lparr>client_pid = 0, med_authorization = creds, connect_handler = handler, weak_session = None, legacy_default_stream_map = [],
      screencast_buffer_tracker = [], med_prompt_sessions = [], next_prompt_id = 0\<rparr>"

abbreviation srv_sessions :: "'w Server \<Rightarrow> SessionManager" where
  "srv_sessions srv \<equiv> sh_sessions (srv_shell srv)"

section \<open>Keeping the parts in step\<close>

text \<open>The display changer is handler \<open>0\<close> of the session manager's event sink.\<close>

definition changer_handler :: nat where
  "changer_handler = 0"

fun deliver_call :: "HandlerCall \<Rightarrow> MediatingDisplayChanger \<Rightarrow> MediatingDisplayChanger" where
  "deliver_call (Sessions.Focus_change h s) md = (if h = changer_handler then focus_changed s md else md)"
| "deliver_call (Sessions.No_focus h) md = (if h = changer_handler then focus_lost md else md)"
| "deliver_call (Sessions.Session_stopping h s) md = (if h = changer_handler then session_stopping s md else md)"

definition see_sessions :: "SessionManager \<Rightarrow> MediatingDisplayChanger \<Rightarrow> MediatingDisplayChanger" where
  "see_sessions m md = md\<lparr>session_container := sm_apps m, alive := dom (sm_objects m)\<rparr>"

definition put_shell :: "'w Shell \<Rightarrow> 'w Server \<Rightarrow> 'w Server" where
  "put_shell sh srv =
     (let old = handler_calls (sm_event_sink (srv_sessions srv));
          calls = drop (length old) (handler_calls (sm_event_sink (sh_sessions sh)))
      in srv\<lparr>srv_shell := sh, srv_changer := fold deliver_call calls (see_sessions (sh_sessions sh) (srv_changer srv))\<rparr>)"

definition pid_of :: "SessionManager \<Rightarrow> nat \<Rightarrow> int" where
  "pid_of m i = (case sm_objects m i of Some s \<Rightarrow> ses_pid s | None \<Rightarrow> 0)"

definition see_prompt_participants :: "'w Shell \<Rightarrow> 'w Shell" where
  "see_prompt_participants sh =
     (let m = sh_sessions sh
      in sh\<lparr>sh_prompts := (sh_prompts sh)\<lparr>app_container := map (\<lambda>i. (i, pid_of m i)) (sm_apps m), live_sessions := dom (sm_objects m)\<rparr>\<rparr>)"

definition on_shell :: "('w Shell \<Rightarrow> ('w Shell, 'a) outcome) \<Rightarrow> 'w mediated \<Rightarrow> ('w mediated, 'a) outcome" where
  "on_shell f mw = apsnd (\<lambda>sh. (fst mw, put_shell sh (snd mw))) (f (see_prompt_participants (srv_shell (snd mw))))"

definition on_changer :: "(MediatingDisplayChanger \<Rightarrow> (MediatingDisplayChanger, 'a) outcome) \<Rightarrow> 'w mediated \<Rightarrow> ('w mediated, 'a) outcome" where
  "on_changer f mw = apsnd (\<lambda>md. (fst mw, (snd mw)\<lparr>srv_changer := md\<rparr>)) (f (srv_changer (snd mw)))"

text \<open>\<open>UnauthorizedScreencast\<close> throws whatever it is asked.\<close>

definition on_screencast :: "(CompositingScreencast \<Rightarrow> (CompositingScreencast, 'a) outcome) \<Rightarrow> 'w mediated \<Rightarrow> ('w mediated, 'a) outcome" where
  "on_screencast f mw =
     (let (m, srv) = mw
      in if \<not> screencast_is_allowed (med_authorization m)
         then (Inl (runtime_error ''Process is not authorized to capture screencasts''), mw)
         else case f ((srv_screencasts srv)\<lparr>screencast_scene := w_scene (sh_world (srv_shell srv))\<rparr>) of
                (r, sx) \<Rightarrow>
                  (r, (m, srv\<lparr>srv_screencasts := sx, srv_shell := on_world (map_scene (\<lambda>_. screencast_scene sx)) (srv_shell srv)\<rparr>)))"

definition on_own_session :: "nat \<Rightarrow> (session_state \<Rightarrow> (session_state, 'a) outcome) \<Rightarrow> 'w mediated \<Rightarrow> ('w mediated, 'a) outcome" where
  "on_own_session i f = on_shell (shell_session f i)"

text \<open>The stream works on the buffers of its session.\<close>

definition on_stream :: "nat \<Rightarrow> (Stream \<Rightarrow> (Stream, 'a) outcome) \<Rightarrow> session_state \<Rightarrow> (session_state, 'a) outcome" where
  "on_stream k f sw =
     (let (s, w) = sw
      in case find_stream s k of
           Inl e \<Rightarrow> (Inl e, sw)
         | Inr q \<Rightarrow>
             let st = world_stream w q
             in case f (st\<lparr>arbiter := (arbiter st)\<lparr>arb_map := ses_buffers s\<rparr>\<rparr>) of
                  (r, st) \<Rightarrow> (r, (s\<lparr>ses_buffers := the_map st\<rparr>, put_stream q st w)))"

section \<open>The session of the client\<close>

definition lock_session :: "'w mediated \<Rightarrow> nat option" where
  "lock_session mw =
     (case weak_session (fst mw) of
        None \<Rightarrow> None
      | Some i \<Rightarrow> if sm_objects (srv_sessions (snd mw)) i = None then None else Some i)"

definition with_session :: "(nat \<Rightarrow> 'w mediated \<Rightarrow> ('w mediated, 'a) outcome) \<Rightarrow> 'w mediated \<Rightarrow> ('w mediated, 'a) outcome" where
  "with_session f mw =
     (case lock_session mw of
        None \<Rightarrow> (Inl (logic_error ''Invalid application session''), mw)
      | Some i \<Rightarrow> f i mw)"

section \<open>Prompt sessions\<close>

definition prompt_insert :: "nat \<Rightarrow> SessionMediator \<Rightarrow> nat \<times> SessionMediator" where
  "prompt_insert ps m =
     (let k = Suc (next_prompt_id m)
      in (k, m\<lparr>next_prompt_id := k, med_prompt_sessions := map_put k (Some ps) (med_prompt_sessions m)\<rparr>))"

text \<open>\<open>sessions[session]\<close> makes an entry for a number that has none.\<close>

definition prompt_fetch :: "'w Shell \<Rightarrow> nat \<Rightarrow> SessionMediator \<Rightarrow> nat option \<times> SessionMediator" where
  "prompt_fetch sh k m =
     (case map_of (med_prompt_sessions m) k of
        None \<Rightarrow> (None, m\<lparr>med_prompt_sessions := map_put k None (med_prompt_sessions m)\<rparr>)
      | Some None \<Rightarrow> (None, m)
      | Some (Some ps) \<Rightarrow> (if ps \<in> prompt_sessions (sh_prompts sh) then Some ps else None, m))"

definition prompt_remove :: "nat \<Rightarrow> SessionMediator \<Rightarrow> SessionMediator" where
  "prompt_remove k m = m\<lparr>med_prompt_sessions := map_erase k (med_prompt_sessions m)\<rparr>"

text \<open>\<open>NoPromptShell\<close>\<close>

definition prompts_disabled :: exn where
  "prompts_disabled = runtime_error ''Prompt sessions disabled''"

definition if_prompts :: "SessionMediator \<Rightarrow> ('w Shell \<Rightarrow> ('w Shell, 'a) outcome) \<Rightarrow> 'w Shell \<Rightarrow> ('w Shell, 'a) outcome" where
  "if_prompts m f sh = (if prompt_session_is_allowed (med_authorization m) then f sh else (Inl prompts_disabled, sh))"

section \<open>Connecting\<close>

text \<open>
  The handler that \<open>prompt_session_connect_handler\<close> made for the provider of another client's prompt session.  It holds that client's
  mediator by a plain pointer.
\<close>

definition handle_client_connect :: "nat \<Rightarrow> 'w mediated \<Rightarrow> ('w mediated, unit) outcome" where
  "handle_client_connect session mw =
     (case connect_handler (fst mw) of
        None \<Rightarrow> (Inr (), mw)
      | Some (owner, k) \<Rightarrow>
          (case srv_clients (snd mw) owner of
             None \<Rightarrow> (Inl (fatal_error ''dangling pointer''), mw)
           | Some om \<Rightarrow>
               let (prompt, om) = prompt_fetch (srv_shell (snd mw)) k om;
                   mw = (fst mw, (snd mw)\<lparr>srv_clients := (srv_clients (snd mw))(owner \<mapsto> om)\<rparr>)
               in case prompt of
                    None \<Rightarrow> (Inl (logic_error ''Invalid prompt session''), mw)
                  | Some ps \<Rightarrow> on_shell (if_prompts om (shell_add_prompt_provider_for ps session)) mw))"

record Connection =
  cn_display_configuration :: ProtoDisplayConfiguration
  cn_coordinate_translation_present :: bool

definition connect :: "'w WindowManagerOps \<Rightarrow> ServerEnv \<Rightarrow> string \<Rightarrow> 'w mediated \<Rightarrow> ('w mediated, Connection) outcome" where
  "connect wmo env application_name mw =
     and_then (on_shell (\<lambda>sh. let (sh, i) = shell_open_session wmo (env_now env) (client_pid (fst mw)) application_name sh in (Inr i, sh)) mw) (\<lambda>session mw.
     and_then (handle_client_connect session ((fst mw)\<lparr>weak_session := Some session\<rparr>, snd mw)) (\<lambda>_ mw.
       (Inr \<lparr>cn_display_configuration = pack_protobuf_display_configuration (base_configuration (srv_changer (snd mw))),
             cn_coordinate_translation_present = env_translation_supported env\<rparr>, mw)))"

section \<open>Surfaces\<close>

record SurfaceReply =
  rs_id :: nat
  rs_size :: Size
  rs_fd :: "int option"
  rs_attributes :: "int list"
  rs_buffer_stream :: "nat option"

definition window_attribs :: "MirWindowAttrib list" where
  "window_attribs =
     [mir_window_attrib_type, mir_window_attrib_state, mir_window_attrib_swapinterval, mir_window_attrib_focus,
      mir_window_attrib_dpi, mir_window_attrib_visibility, mir_window_attrib_preferred_orientation]"

fun query_attributes :: "nat \<Rightarrow> nat \<Rightarrow> MirWindowAttrib list \<Rightarrow> 'w Shell \<Rightarrow> int list result" where
  "query_attributes i surf_id [] sh = Inr []"
| "query_attributes i surf_id (a # as) sh =
     (case fe_get_surface_attribute i surf_id a sh of
        Inl e \<Rightarrow> Inl e
      | Inr v \<Rightarrow> map_sum id (Cons v) (query_attributes i surf_id as sh))"

text \<open>What the client is told of its new surface.\<close>

definition surface_reply :: "nat \<Rightarrow> nat \<Rightarrow> nat option \<Rightarrow> 'w Shell \<Rightarrow> SurfaceReply result" where
  "surface_reply i surf_id legacy_stream sh =
     (case session_surface i surf_id sh of
        Inl e \<Rightarrow> Inl e
      | Inr p \<Rightarrow>
          let surface = world_surface (sh_world sh) p
          in map_sum id (\<lambda>vs. \<lparr>rs_id = surf_id, rs_size = surface_client_size surface,
                               rs_fd = (if surface_supports_input surface then sf_input_channel surface else None),
                               rs_attributes = vs, rs_buffer_stream = legacy_stream\<rparr>)
               (query_attributes i surf_id window_attribs sh))"

text \<open>The content of the surface: the streams of the request, or a stream made for it.\<close>

definition content_for :: "ServerEnv \<Rightarrow> SurfaceParameters \<Rightarrow> nat \<Rightarrow> 'w mediated \<Rightarrow> ('w mediated, nat option) outcome" where
  "content_for env request i mw =
     (if length (sp_stream request) > 0 then (Inr None, mw)
      else and_then (on_own_session i
             (\<lambda>sw. prod.swap (apsnd Inr (create_buffer_stream (env_drop_timeout env)
                                           (mk_size (sp_width request) (sp_height request)) (sp_pixel_format request) sw))) mw)
             (\<lambda>k mw. (Inr (Some k), mw)))"

definition with_content :: "SurfaceParameters \<Rightarrow> nat option \<Rightarrow> SessionSurfaceParameters \<Rightarrow> SessionSurfaceParameters" where
  "with_content request legacy params =
     (case legacy of
        None \<Rightarrow> params\<lparr>par_streams := Some (map stream_specification (sp_stream request))\<rparr>
      | Some k \<Rightarrow> params\<lparr>par_content_id := Some k\<rparr>)"

definition named_parent :: "ServerEnv \<Rightarrow> SurfaceParameters \<Rightarrow> 'w Server \<Rightarrow> SurfacePtr option result" where
  "named_parent env request srv =
     (case sp_parent_persistent_id request of
        None \<Rightarrow> Inr None
      | Some persistent_id \<Rightarrow> fe_surface_for_id (env_uuid env) persistent_id (srv_shell srv) (srv_store srv))"

definition med_create_surface :: "'w WindowManagerOps \<Rightarrow> ServerEnv \<Rightarrow> SurfaceParameters \<Rightarrow> 'w mediated \<Rightarrow> ('w mediated, SurfaceReply) outcome" where
  "med_create_surface wmo env request = with_session (\<lambda>i mw.
     case named_parent env request (snd mw) of
       Inl e \<Rightarrow> (Inl e, mw)
     | Inr parent \<Rightarrow>
         let params = surface_creation_parameters request parent
         in and_then (content_for env request i mw) (\<lambda>legacy mw.
            and_then (on_shell (fe_create_surface wmo i (with_content request legacy params)) mw) (\<lambda>surf_id mw.
              case surface_reply i surf_id legacy (srv_shell (snd mw)) of
                Inl e \<Rightarrow> (Inl e, mw)
              | Inr reply \<Rightarrow>
                  (Inr reply,
                   (case legacy of
                      None \<Rightarrow> fst mw
                    | Some k \<Rightarrow> (fst mw)\<lparr>legacy_default_stream_map := map_put surf_id k (legacy_default_stream_map (fst mw))\<rparr>,
                    snd mw)))))"

definition med_release_surface :: "'w WindowManagerOps \<Rightarrow> nat \<Rightarrow> 'w mediated \<Rightarrow> ('w mediated, unit) outcome" where
  "med_release_surface wmo surf_id = with_session (\<lambda>i mw.
     and_then (on_shell (fe_destroy_surface wmo i surf_id) mw) (\<lambda>_ mw.
       case map_of (legacy_default_stream_map (fst mw)) surf_id of
         None \<Rightarrow> (Inr (), mw)
       | Some k \<Rightarrow>
           and_then (on_own_session i (\<lambda>(s, w). apsnd (\<lambda>s'. (s', w)) (destroy_buffer_stream k s)) mw) (\<lambda>_ mw.
             (Inr (), ((fst mw)\<lparr>legacy_default_stream_map := map_erase surf_id (legacy_default_stream_map (fst mw))\<rparr>, snd mw)))))"

definition med_configure_surface :: "'w WindowManagerOps \<Rightarrow> nat \<Rightarrow> MirWindowAttrib \<Rightarrow> int \<Rightarrow> 'w mediated \<Rightarrow> ('w mediated, int) outcome" where
  "med_configure_surface wmo surf_id attrib ivalue = with_session (\<lambda>i. on_shell (fe_set_surface_attribute wmo i surf_id attrib ivalue))"

definition throw_if_unsuitable_for_cursor :: "nat \<Rightarrow> session_state \<Rightarrow> StreamPtr result" where
  "throw_if_unsuitable_for_cursor k sw =
     (case find_stream (fst sw) k of
        Inl e \<Rightarrow> Inl e
      | Inr q \<Rightarrow>
          if stream_pf (world_stream (snd sw) q) \<noteq> mir_pixel_format_argb_8888
          then Inl (logic_error ''Only argb8888 buffer streams may currently be attached to the cursor'') else Inr q)"

definition cursor_stream :: "nat \<Rightarrow> nat \<Rightarrow> 'w Shell \<Rightarrow> StreamPtr result" where
  "cursor_stream i k sh =
     (case sm_objects (sh_sessions sh) i of
        None \<Rightarrow> Inl (fatal_error ''null pointer'')
      | Some s \<Rightarrow> throw_if_unsuitable_for_cursor k (s, sh_world sh))"

definition med_modify_surface ::
  "'w WindowManagerOps \<Rightarrow> ServerEnv \<Rightarrow> nat \<Rightarrow> SurfaceSpecificationMessage \<Rightarrow> 'w mediated \<Rightarrow> ('w mediated, unit) outcome" where
  "med_modify_surface wmo env surf_id request = with_session (\<lambda>i mw.
     let mods = shell_surface_specification (env_cursor_image env) request;
         modify = on_shell (fe_modify_surface wmo i surf_id mods)
     in case stream_cursor_of request of
          None \<Rightarrow> modify mw
        | Some (k, _) \<Rightarrow> (case cursor_stream i k (srv_shell (snd mw)) of Inl e \<Rightarrow> (Inl e, mw) | Inr _ \<Rightarrow> modify mw))"

datatype CursorSetting = Cursor_name string | Cursor_stream nat Displacement | No_cursor

definition med_configure_cursor :: "ServerEnv \<Rightarrow> nat \<Rightarrow> CursorSetting \<Rightarrow> 'w mediated \<Rightarrow> ('w mediated, unit) outcome" where
  "med_configure_cursor env surf_id setting = with_session (\<lambda>i. on_shell (on_surface i surf_id (\<lambda>p sh.
     case setting of
       Cursor_name name \<Rightarrow> (Inr (), seat_call (Set_cursor_image p (Some (env_cursor_image env name))) sh)
     | Cursor_stream k hotspot \<Rightarrow>
         (case cursor_stream i k sh of
            Inl e \<Rightarrow> (Inl e, sh)
          | Inr q \<Rightarrow> (Inr (), seat_call (Set_cursor_stream p q hotspot) sh))
     | No_cursor \<Rightarrow> (Inr (), seat_call (Set_cursor_image p None) sh))))"

definition med_raise_surface :: "'w WindowManagerOps \<Rightarrow> ServerEnv \<Rightarrow> nat \<Rightarrow> byte list \<Rightarrow> 'w mediated \<Rightarrow> ('w mediated, unit) outcome" where
  "med_raise_surface wmo env surf_id cookie_bytes = with_session (\<lambda>i mw.
     case make_cookie_from (env_hmac env) cookie_bytes of
       Inl e \<Rightarrow> (Inl e, mw)
     | Inr cookie \<Rightarrow> on_shell (fe_raise_surface wmo i surf_id (unat (ck_timestamp cookie))) mw)"

definition med_request_persistent_surface_id :: "ServerEnv \<Rightarrow> nat \<Rightarrow> 'w mediated \<Rightarrow> ('w mediated, string) outcome" where
  "med_request_persistent_surface_id env surf_id = with_session (\<lambda>i mw.
     apsnd (\<lambda>st. (fst mw, (snd mw)\<lparr>srv_store := st\<rparr>))
       (persistent_id_for (env_addr env) (env_uuid env) (env_generated env) i surf_id (srv_shell (snd mw)) (srv_store (snd mw))))"

definition surface_to_screen :: "bool \<Rightarrow> BasicSurface \<Rightarrow> int \<Rightarrow> int \<Rightarrow> Point result" where
  "surface_to_screen supported surface px py =
     (if supported then Inr (point_plus (top_left (sf_rect surface)) \<lparr>disp_dx = px, disp_dy = py\<rparr>)
      else Inl (runtime_error ''Unsupported feature requested''))"

definition med_translate_surface_to_screen :: "ServerEnv \<Rightarrow> nat \<Rightarrow> int \<Rightarrow> int \<Rightarrow> 'w mediated \<Rightarrow> ('w mediated, Point) outcome" where
  "med_translate_surface_to_screen env surf_id px py = with_session (\<lambda>i. on_shell (on_surface i surf_id (\<lambda>p sh.
     (surface_to_screen (env_translation_supported env) (world_surface (sh_world sh) p) px py, sh))))"

section \<open>Streams and buffers\<close>

definition med_create_buffer_stream :: "ServerEnv \<Rightarrow> Size \<Rightarrow> nat \<Rightarrow> 'w mediated \<Rightarrow> ('w mediated, nat) outcome" where
  "med_create_buffer_stream env sz format = with_session (\<lambda>i. on_own_session i
     (\<lambda>sw. prod.swap (apsnd Inr (create_buffer_stream (env_drop_timeout env) sz format sw))))"

definition med_release_buffer_stream :: "nat \<Rightarrow> 'w mediated \<Rightarrow> ('w mediated, unit) outcome" where
  "med_release_buffer_stream k = with_session (\<lambda>i. on_own_session i (\<lambda>(s, w). apsnd (\<lambda>s'. (s', w)) (destroy_buffer_stream k s)))"

text \<open>\<open>Stream::set_scale\<close> does nothing.\<close>

definition configure_stream :: "int option \<Rightarrow> Stream \<Rightarrow> (Stream, unit) outcome" where
  "configure_stream swapinterval st =
     (Inr (), case swapinterval of None \<Rightarrow> st | Some v \<Rightarrow> allow_framedropping st (v = 0))"

definition med_configure_buffer_stream :: "nat \<Rightarrow> int option \<Rightarrow> 'w mediated \<Rightarrow> ('w mediated, unit) outcome" where
  "med_configure_buffer_stream k swapinterval = with_session (\<lambda>i. on_own_session i (on_stream k (configure_stream swapinterval)))"

definition submit_to_stream :: "ServerEnv \<Rightarrow> nat \<Rightarrow> BufferID \<Rightarrow> session_state \<Rightarrow> (session_state, unit) outcome" where
  "submit_to_stream env k buffer_id sw =
     (case find_stream (fst sw) k of
        Inl e \<Rightarrow> (Inl e, sw)
      | Inr _ \<Rightarrow>
          (case get_buffer buffer_id (fst sw) of
             Inl e \<Rightarrow> (Inl e, sw)
           | Inr b \<Rightarrow>
               (case env_unpack env b of
                  Some e \<Rightarrow> (Inl e, sw)
                | None \<Rightarrow> on_stream k (\<lambda>st. submit_buffer (env_now env) st (Some b)) sw)))"

definition med_submit_buffer :: "ServerEnv \<Rightarrow> nat \<Rightarrow> BufferID \<Rightarrow> 'w mediated \<Rightarrow> ('w mediated, unit) outcome" where
  "med_submit_buffer env k buffer_id = with_session (\<lambda>i. on_own_session i (submit_to_stream env k buffer_id))"

text \<open>A request for a buffer names a native format with flags, or a usage with a pixel format.\<close>

record BufferStreamParameters =
  bp_size :: Size
  bp_native_format :: "nat option"
  bp_flags :: "nat option"
  bp_buffer_usage :: "nat option"
  bp_pixel_format :: "nat option"

definition requested_format :: "BufferStreamParameters \<Rightarrow> nat result" where
  "requested_format req =
     (case (bp_flags req, bp_native_format req) of
        (Some _, Some native) \<Rightarrow> Inr native
      | _ \<Rightarrow>
          (case (bp_buffer_usage req, bp_pixel_format req) of
             (Some _, Some pf) \<Rightarrow> Inr pf
           | _ \<Rightarrow> Inl (logic_error ''Invalid buffer request'')))"

definition allocate_one :: "ServerEnv \<Rightarrow> nat option \<Rightarrow> nat \<Rightarrow> BufferStreamParameters \<Rightarrow> session_state \<Rightarrow> (session_state, unit) outcome" where
  "allocate_one env stream_id n req sw =
     (case requested_format req of
        Inl e \<Rightarrow> (Inl e, sw)
      | Inr format \<Rightarrow>
          and_then (case sw of (s, w) \<Rightarrow> apsnd (\<lambda>s'. (s', w)) (create_buffer (env_sink_add env) (env_allocate env n) (bp_size req) format s))
            (\<lambda>buffer_id sw.
               case stream_id of
                 None \<Rightarrow> (Inr (), sw)
               | Some k \<Rightarrow> on_stream k (\<lambda>st. (Inr (), associate_buffer st buffer_id)) sw))"

fun allocate_all :: "ServerEnv \<Rightarrow> nat option \<Rightarrow> nat \<Rightarrow> BufferStreamParameters list \<Rightarrow> session_state \<Rightarrow> (session_state, unit) outcome" where
  "allocate_all env stream_id n [] sw = (Inr (), sw)"
| "allocate_all env stream_id n (req # reqs) sw =
     and_then (allocate_one env stream_id n req sw) (\<lambda>_. allocate_all env stream_id (Suc n) reqs)"

definition med_allocate_buffers :: "ServerEnv \<Rightarrow> nat option \<Rightarrow> BufferStreamParameters list \<Rightarrow> 'w mediated \<Rightarrow> ('w mediated, unit) outcome" where
  "med_allocate_buffers env stream_id reqs = with_session (\<lambda>i. on_own_session i (allocate_all env stream_id 0 reqs))"

text \<open>Whatever is thrown while the buffers are taken from the stream is ignored.\<close>

definition disassociate_all :: "nat option \<Rightarrow> BufferID list \<Rightarrow> session_state \<Rightarrow> session_state" where
  "disassociate_all stream_id ids sw =
     (case stream_id of
        None \<Rightarrow> sw
      | Some k \<Rightarrow> snd (on_stream k (\<lambda>st. (Inr (), fold (\<lambda>b st. disassociate_buffer st b) ids st)) sw))"

fun destroy_buffers :: "BufferID list \<Rightarrow> session_state \<Rightarrow> (session_state, unit) outcome" where
  "destroy_buffers [] sw = (Inr (), sw)"
| "destroy_buffers (b # bs) sw =
     and_then (case sw of (s, w) \<Rightarrow> apsnd (\<lambda>s'. (s', w)) (destroy_buffer b s)) (\<lambda>_. destroy_buffers bs)"

definition med_release_buffers :: "nat option \<Rightarrow> BufferID list \<Rightarrow> 'w mediated \<Rightarrow> ('w mediated, unit) outcome" where
  "med_release_buffers stream_id ids = with_session (\<lambda>i. on_own_session i (\<lambda>sw. destroy_buffers ids (disassociate_all stream_id ids sw)))"

section \<open>Displays\<close>

definition unpack_configuration :: "ProtoDisplayConfiguration \<Rightarrow> 'w mediated \<Rightarrow> DisplayConfiguration result" where
  "unpack_configuration request mw = unpack_and_sanitize_display_configuration (base_configuration (srv_changer (snd mw))) request"

definition changer_request ::
  "(AuthorizingDisplayChanger \<Rightarrow> MediatingDisplayChanger \<Rightarrow> (MediatingDisplayChanger, 'a) outcome) \<Rightarrow> 'w mediated \<Rightarrow> ('w mediated, 'a) outcome" where
  "changer_request f mw = on_changer (f (auth_changer (med_authorization (fst mw)))) mw"

definition with_configuration ::
  "ProtoDisplayConfiguration \<Rightarrow> (DisplayConfiguration \<Rightarrow> 'w mediated \<Rightarrow> ('w mediated, 'a) outcome) \<Rightarrow> 'w mediated \<Rightarrow> ('w mediated, 'a) outcome" where
  "with_configuration request f mw = (case unpack_configuration request mw of Inl e \<Rightarrow> (Inl e, mw) | Inr conf \<Rightarrow> f conf mw)"

definition med_configure_display :: "ProtoDisplayConfiguration \<Rightarrow> 'w mediated \<Rightarrow> ('w mediated, ProtoDisplayConfiguration) outcome" where
  "med_configure_display request = with_session (\<lambda>i. with_configuration request (\<lambda>conf mw.
     and_then (changer_request (\<lambda>au. auth_configure au i conf) mw) (\<lambda>_ mw.
       (Inr (pack_protobuf_display_configuration (base_configuration (srv_changer (snd mw)))), mw))))"

definition med_remove_session_configuration :: "'w mediated \<Rightarrow> ('w mediated, unit) outcome" where
  "med_remove_session_configuration = with_session (\<lambda>i. changer_request (\<lambda>au. auth_remove_session_configuration au i))"

definition med_set_base_display_configuration :: "ProtoDisplayConfiguration \<Rightarrow> 'w mediated \<Rightarrow> ('w mediated, unit) outcome" where
  "med_set_base_display_configuration request = with_session (\<lambda>i. with_configuration request (\<lambda>conf.
     changer_request (\<lambda>au. auth_set_base_configuration au conf)))"

text \<open>The time out is in seconds; the alarms count milliseconds.\<close>

definition med_preview_base_display_configuration ::
  "ServerEnv \<Rightarrow> ProtoDisplayConfiguration \<Rightarrow> int \<Rightarrow> 'w mediated \<Rightarrow> ('w mediated, unit) outcome" where
  "med_preview_base_display_configuration env request seconds = with_session (\<lambda>i. with_configuration request (\<lambda>conf.
     changer_request (\<lambda>au. auth_preview_base_configuration au (env_now env) i conf (1000 * seconds))))"

definition med_confirm_base_display_configuration :: "ProtoDisplayConfiguration \<Rightarrow> 'w mediated \<Rightarrow> ('w mediated, unit) outcome" where
  "med_confirm_base_display_configuration request = with_session (\<lambda>i. with_configuration request (\<lambda>conf.
     changer_request (\<lambda>au. auth_confirm_base_configuration au conf)))"

definition med_cancel_base_display_configuration_preview :: "'w mediated \<Rightarrow> ('w mediated, unit) outcome" where
  "med_cancel_base_display_configuration_preview = with_session (\<lambda>i. changer_request (\<lambda>au. auth_cancel_base_configuration_preview au i))"

section \<open>Screencasts\<close>

definition track_buffer :: "ScreencastSessionId \<Rightarrow> Buffer \<Rightarrow> SessionMediator \<Rightarrow> bool \<times> SessionMediator" where
  "track_buffer k b m =
     (let tracked = (case map_of (screencast_buffer_tracker m) k of Some bs \<Rightarrow> bs | None \<Rightarrow> {})
      in (buf_addr b \<in> tracked, m\<lparr>screencast_buffer_tracker := map_put k (insert (buf_addr b) tracked) (screencast_buffer_tracker m)\<rparr>))"

definition remove_tracked_session :: "ScreencastSessionId \<Rightarrow> SessionMediator \<Rightarrow> SessionMediator" where
  "remove_tracked_session k m = m\<lparr>screencast_buffer_tracker := map_erase k (screencast_buffer_tracker m)\<rparr>"

text \<open>The reply holds the buffer, and whether the client knows it already (\<open>update_msg\<close>).\<close>

definition pack_protobuf_buffer :: "ServerEnv \<Rightarrow> Buffer \<Rightarrow> bool \<Rightarrow> 'w mediated \<Rightarrow> ('w mediated, BufferID \<times> bool) outcome" where
  "pack_protobuf_buffer env b update_msg mw =
     (case env_pack env b update_msg of Some e \<Rightarrow> (Inl e, mw) | None \<Rightarrow> (Inr (buf_id b, update_msg), mw))"

definition capture_and_track :: "ServerEnv \<Rightarrow> ScreencastSessionId \<Rightarrow> bool \<Rightarrow> 'w mediated \<Rightarrow> ('w mediated, BufferID \<times> bool) outcome" where
  "capture_and_track env k always_full mw =
     and_then (on_screencast (capture k) mw) (\<lambda>b mw.
       let (already_tracked, m) = track_buffer k b (fst mw)
       in pack_protobuf_buffer env b (already_tracked \<and> \<not> always_full) (m, snd mw))"

record ScreencastParameters =
  xp_region :: Rectangle
  xp_size :: Size
  xp_pixel_format :: nat
  xp_num_buffers :: "int option"

definition med_create_screencast ::
  "ServerEnv \<Rightarrow> ScreencastParameters \<Rightarrow> 'w mediated \<Rightarrow> ('w mediated, ScreencastSessionId \<times> (BufferID \<times> bool) option) outcome" where
  "med_create_screencast env parameters mw =
     (let nbuffers = (case xp_num_buffers parameters of Some n \<Rightarrow> n | None \<Rightarrow> 1)
      in and_then (on_screencast (create_screencast_session (display_conf (srv_changer (snd mw))) (env_screencast_buffers env)
                                   (xp_region parameters) (xp_size parameters) (xp_pixel_format parameters) nbuffers) mw) (\<lambda>k mw.
           if nbuffers > 0
           then and_then (capture_and_track env k True mw) (\<lambda>packed mw. (Inr (k, Some packed), mw))
           else (Inr (k, None), mw)))"

definition destroy_screencast :: "ScreencastSessionId \<Rightarrow> 'w mediated \<Rightarrow> ('w mediated, unit) outcome" where
  "destroy_screencast k = on_screencast (\<lambda>sx. (Inr (), destroy_screencast_session k sx))"

definition med_release_screencast :: "ScreencastSessionId \<Rightarrow> 'w mediated \<Rightarrow> ('w mediated, unit) outcome" where
  "med_release_screencast k mw =
     and_then (destroy_screencast k mw) (\<lambda>_ mw. (Inr (), (remove_tracked_session k (fst mw), snd mw)))"

definition med_screencast_buffer :: "ServerEnv \<Rightarrow> ScreencastSessionId \<Rightarrow> 'w mediated \<Rightarrow> ('w mediated, BufferID \<times> bool) outcome" where
  "med_screencast_buffer env k = capture_and_track env k False"

text \<open>The pointer to the session is not checked.\<close>

definition med_screencast_to_buffer :: "ScreencastSessionId \<Rightarrow> BufferID \<Rightarrow> 'w mediated \<Rightarrow> ('w mediated, unit) outcome" where
  "med_screencast_to_buffer k buffer_id mw =
     (case lock_session mw of
        None \<Rightarrow> (Inl (fatal_error ''null pointer''), mw)
      | Some i \<Rightarrow>
          (case get_buffer buffer_id (the (sm_objects (srv_sessions (snd mw)) i)) of
             Inl e \<Rightarrow> (Inl e, mw)
           | Inr b \<Rightarrow> on_screencast (capture_to k b) mw))"

fun destroy_tracked :: "ScreencastSessionId list \<Rightarrow> 'w mediated \<Rightarrow> ('w mediated, unit) outcome" where
  "destroy_tracked [] mw = (Inr (), mw)"
| "destroy_tracked (k # ks) mw = and_then (destroy_screencast k mw) (\<lambda>_. destroy_tracked ks)"

definition destroy_screencast_sessions :: "'w mediated \<Rightarrow> ('w mediated, unit) outcome" where
  "destroy_screencast_sessions mw =
     (let ids = map fst (screencast_buffer_tracker (fst mw))
      in and_then (destroy_tracked ids mw) (\<lambda>_ mw. (Inr (), (fold remove_tracked_session ids (fst mw), snd mw))))"

section \<open>Prompt sessions and the rest\<close>

definition med_start_prompt_session :: "int \<Rightarrow> 'w mediated \<Rightarrow> ('w mediated, nat) outcome" where
  "med_start_prompt_session application_pid = with_session (\<lambda>i mw.
     and_then (on_shell (if_prompts (fst mw) (shell_start_prompt_session_for i application_pid)) mw) (\<lambda>ps mw.
       let (k, m) = prompt_insert ps (fst mw) in (Inr k, (m, snd mw))))"

definition med_stop_prompt_session :: "nat \<Rightarrow> 'w mediated \<Rightarrow> ('w mediated, unit) outcome" where
  "med_stop_prompt_session k = with_session (\<lambda>i mw.
     let (prompt, m) = prompt_fetch (srv_shell (snd mw)) k (fst mw)
     in case prompt of
          None \<Rightarrow> (Inl (logic_error ''Invalid prompt session''), (m, snd mw))
        | Some ps \<Rightarrow> on_shell (if_prompts m (\<lambda>sh. (Inr (), shell_stop_prompt_session ps sh))) (prompt_remove k m, snd mw))"

text \<open>Every socket gets a mediator of its own, with the same authorisation rules as any other connection.\<close>

fun open_sockets :: "ServerEnv \<Rightarrow> Authorization \<Rightarrow> nat \<times> nat \<Rightarrow> nat \<Rightarrow> 'w mediated \<Rightarrow> ('w mediated, int list) outcome" where
  "open_sockets env creds handler 0 mw = (Inr [], mw)"
| "open_sockets env creds handler (Suc n) mw =
     (case env_client_fd env (srv_next_client (snd mw)) of
        Inl e \<Rightarrow> (Inl e, mw)
      | Inr fd \<Rightarrow>
          let c = srv_next_client (snd mw);
              srv = (snd mw)\<lparr>srv_clients := (srv_clients (snd mw))(c \<mapsto> make_ipc_server creds (Some handler)), srv_next_client := Suc c\<rparr>
          in and_then (open_sockets env creds handler n (fst mw, srv)) (\<lambda>fds mw. (Inr (fd # fds), mw)))"

definition med_new_fds_for_prompt_providers ::
  "ServerEnv \<Rightarrow> Authorization \<Rightarrow> nat \<Rightarrow> nat \<Rightarrow> int \<Rightarrow> 'w mediated \<Rightarrow> ('w mediated, int list) outcome" where
  "med_new_fds_for_prompt_providers env creds this prompt_id fds_requested = with_session (\<lambda>i mw.
     if fds_requested < 1 \<or> fds_requested > 42 then (Inl (runtime_error ''number of fds requested out of range''), mw)
     else open_sockets env creds (this, prompt_id) (nat fds_requested) mw)"

definition med_pong :: "ServerEnv \<Rightarrow> 'w mediated \<Rightarrow> ('w mediated, unit) outcome" where
  "med_pong env = with_session (\<lambda>i. on_shell (\<lambda>sh.
     apsnd (\<lambda>d. sh\<lparr>sh_sessions := (sh_sessions sh)\<lparr>sm_anr_detector := d\<rparr>\<rparr>) (pong_received (env_now env) i (sm_anr_detector (sh_sessions sh)))))"

definition med_platform_operation :: "ServerEnv \<Rightarrow> nat \<Rightarrow> int list \<Rightarrow> 'w mediated \<Rightarrow> ('w mediated, nat \<times> int list) outcome" where
  "med_platform_operation env opcode data = with_session (\<lambda>i mw.
     (map_sum id (Pair opcode) (env_platform_operation env opcode data), mw))"

definition med_disconnect :: "'w WindowManagerOps \<Rightarrow> 'w mediated \<Rightarrow> ('w mediated, unit) outcome" where
  "med_disconnect wmo = with_session (\<lambda>i mw.
     and_then (on_shell (shell_close_session wmo i) mw) (\<lambda>_ mw.
     and_then (destroy_screencast_sessions mw) (\<lambda>_ mw.
       (Inr (), ((fst mw)\<lparr>weak_session := None\<rparr>, snd mw)))))"

text \<open>The destructor, which the server runs when the connection is gone.\<close>

definition delete_SessionMediator :: "'w WindowManagerOps \<Rightarrow> 'w mediated \<Rightarrow> ('w mediated, unit) outcome" where
  "delete_SessionMediator wmo mw =
     and_then (case lock_session mw of None \<Rightarrow> (Inr (), mw) | Some i \<Rightarrow> on_shell (shell_close_session wmo i) mw)
       (\<lambda>_. destroy_screencast_sessions)"

section \<open>All requests\<close>

datatype Request =
    Connect string
  | Create_surface SurfaceParameters
  | Submit_buffer nat BufferID
  | Allocate_buffers "nat option" "BufferStreamParameters list"
  | Release_buffers "nat option" "BufferID list"
  | Release_surface nat
  | Platform_operation nat "int list"
  | Configure_display ProtoDisplayConfiguration
  | Remove_session_configuration
  | Set_base_display_configuration ProtoDisplayConfiguration
  | Configure_surface nat MirWindowAttrib int
  | Modify_surface nat SurfaceSpecificationMessage
  | Create_screencast ScreencastParameters
  | Screencast_buffer ScreencastSessionId
  | Screencast_to_buffer ScreencastSessionId BufferID
  | Release_screencast ScreencastSessionId
  | Create_buffer_stream Size nat
  | Release_buffer_stream nat
  | Configure_cursor nat CursorSetting
  | New_fds_for_prompt_providers nat int
  | Start_prompt_session int
  | Stop_prompt_session nat
  | Disconnect
  | Pong
  | Configure_buffer_stream nat "int option"
  | Raise_surface nat "byte list"
  | Translate_surface_to_screen nat int int
  | Request_persistent_surface_id nat
  | Preview_base_display_configuration ProtoDisplayConfiguration int
  | Confirm_base_display_configuration ProtoDisplayConfiguration
  | Cancel_base_display_configuration_preview

datatype Reply =
    Void_reply
  | Connection_reply Connection
  | Surface_reply SurfaceReply
  | Number_reply int
  | Stream_reply nat
  | Screencast_reply ScreencastSessionId "(BufferID \<times> bool) option"
  | Buffer_reply "BufferID \<times> bool"
  | Display_reply ProtoDisplayConfiguration
  | Fds_reply "int list"
  | Prompt_reply nat
  | Name_reply string
  | Point_reply Point
  | Platform_reply "nat \<times> int list"

abbreviation replies :: "('a \<Rightarrow> Reply) \<Rightarrow> ('w mediated, 'a) outcome \<Rightarrow> ('w mediated, Reply) outcome" where
  "replies f res \<equiv> apfst (map_sum id f) res"

text \<open>\<open>this\<close> is the number of the client; \<open>creds\<close> is what the authoriser says of the connections it opens.\<close>

fun perform_request :: "'w WindowManagerOps \<Rightarrow> ServerEnv \<Rightarrow> Authorization \<Rightarrow> nat \<Rightarrow> Request \<Rightarrow> 'w mediated \<Rightarrow> ('w mediated, Reply) outcome" where
  "perform_request wmo env creds this (Connect name) mw = replies Connection_reply (connect wmo env name mw)"
| "perform_request wmo env creds this (Create_surface request) mw = replies Surface_reply (med_create_surface wmo env request mw)"
| "perform_request wmo env creds this (Submit_buffer k b) mw = replies (\<lambda>_. Void_reply) (med_submit_buffer env k b mw)"
| "perform_request wmo env creds this (Allocate_buffers k reqs) mw = replies (\<lambda>_. Void_reply) (med_allocate_buffers env k reqs mw)"
| "perform_request wmo env creds this (Release_buffers k ids) mw = replies (\<lambda>_. Void_reply) (med_release_buffers k ids mw)"
| "perform_request wmo env creds this (Release_surface p) mw = replies (\<lambda>_. Void_reply) (med_release_surface wmo p mw)"
| "perform_request wmo env creds this (Platform_operation opcode data) mw = replies Platform_reply (med_platform_operation env opcode data mw)"
| "perform_request wmo env creds this (Configure_display conf) mw = replies Display_reply (med_configure_display conf mw)"
| "perform_request wmo env creds this Remove_session_configuration mw = replies (\<lambda>_. Void_reply) (med_remove_session_configuration mw)"
| "perform_request wmo env creds this (Set_base_display_configuration conf) mw = replies (\<lambda>_. Void_reply) (med_set_base_display_configuration conf mw)"
| "perform_request wmo env creds this (Configure_surface p a v) mw = replies Number_reply (med_configure_surface wmo p a v mw)"
| "perform_request wmo env creds this (Modify_surface p spec) mw = replies (\<lambda>_. Void_reply) (med_modify_surface wmo env p spec mw)"
| "perform_request wmo env creds this (Create_screencast params) mw = replies (\<lambda>(k, b). Screencast_reply k b) (med_create_screencast env params mw)"
| "perform_request wmo env creds this (Screencast_buffer k) mw = replies Buffer_reply (med_screencast_buffer env k mw)"
| "perform_request wmo env creds this (Screencast_to_buffer k b) mw = replies (\<lambda>_. Void_reply) (med_screencast_to_buffer k b mw)"
| "perform_request wmo env creds this (Release_screencast k) mw = replies (\<lambda>_. Void_reply) (med_release_screencast k mw)"
| "perform_request wmo env creds this (Create_buffer_stream sz format) mw = replies Stream_reply (med_create_buffer_stream env sz format mw)"
| "perform_request wmo env creds this (Release_buffer_stream k) mw = replies (\<lambda>_. Void_reply) (med_release_buffer_stream k mw)"
| "perform_request wmo env creds this (Configure_cursor p setting) mw = replies (\<lambda>_. Void_reply) (med_configure_cursor env p setting mw)"
| "perform_request wmo env creds this (New_fds_for_prompt_providers k n) mw = replies Fds_reply (med_new_fds_for_prompt_providers env creds this k n mw)"
| "perform_request wmo env creds this (Start_prompt_session pid) mw = replies Prompt_reply (med_start_prompt_session pid mw)"
| "perform_request wmo env creds this (Stop_prompt_session k) mw = replies (\<lambda>_. Void_reply) (med_stop_prompt_session k mw)"
| "perform_request wmo env creds this Disconnect mw = replies (\<lambda>_. Void_reply) (med_disconnect wmo mw)"
| "perform_request wmo env creds this Pong mw = replies (\<lambda>_. Void_reply) (med_pong env mw)"
| "perform_request wmo env creds this (Configure_buffer_stream k swap) mw = replies (\<lambda>_. Void_reply) (med_configure_buffer_stream k swap mw)"
| "perform_request wmo env creds this (Raise_surface p cookie) mw = replies (\<lambda>_. Void_reply) (med_raise_surface wmo env p cookie mw)"
| "perform_request wmo env creds this (Translate_surface_to_screen p px py) mw = replies Point_reply (med_translate_surface_to_screen env p px py mw)"
| "perform_request wmo env creds this (Request_persistent_surface_id p) mw = replies Name_reply (med_request_persistent_surface_id env p mw)"
| "perform_request wmo env creds this (Preview_base_display_configuration conf seconds) mw =
     replies (\<lambda>_. Void_reply) (med_preview_base_display_configuration env conf seconds mw)"
| "perform_request wmo env creds this (Confirm_base_display_configuration conf) mw = replies (\<lambda>_. Void_reply) (med_confirm_base_display_configuration conf mw)"
| "perform_request wmo env creds this Cancel_base_display_configuration_preview mw =
     replies (\<lambda>_. Void_reply) (med_cancel_base_display_configuration_preview mw)"

end
