(* ===== verification/Client_Isolation.thy ===== *)
theory Client_Isolation
  imports Session_Mediator
begin

text \<open>
  What one client can do to the windows of another, with the window manager of a system compositor: it can take the focus from them and cover them.
\<close>

section \<open>Windows\<close>

text \<open>A surface without the attributes that the server itself sets when the focus moves and when frames are drawn.\<close>

definition bare :: "BasicSurface \<Rightarrow> BasicSurface" where
  "bare s = s\<lparr>sf_focus := 0, sf_visibility := 0, sf_notifications := []\<rparr>"

definition window :: "SurfaceHeap \<Rightarrow> SurfacePtr \<Rightarrow> BasicSurface option" where
  "window h p = map_option bare (live_surfaces h p)"

lemma window_streams [simp]: "window (h\<lparr>streams := st\<rparr>) = window h"
  by (simp add: window_def fun_eq_iff)

lemma window_put_other: "q \<noteq> p \<Longrightarrow> window (h\<lparr>live_surfaces := (live_surfaces h)(p := x)\<rparr>) q = window h q"
  by (simp add: window_def)

lemma bare_configure:
  assumes "attrib = mir_window_attrib_visibility \<or> attrib = mir_window_attrib_focus"
  shows "bare (fst (snd (configure s st attrib v))) = bare s"
  using assms
  by (auto simp: configure_def with_store_def set_visibility_def set_focus_state_def notify_def bare_def split: prod.split)

lemma window_configure_visibility [simp]: "window (configure_visibility t h v) = window h"
proof
  fix p
  show "window (configure_visibility t h v) p = window h p"
    using bare_configure [of mir_window_attrib_visibility "the (live_surfaces h (tr_surface t))" "streams h" v]
    by (auto simp: configure_visibility_def window_def split: option.split prod.split)
qed

definition same_windows :: "Scene \<Rightarrow> Scene \<Rightarrow> bool" where
  "same_windows sc sc' \<longleftrightarrow> surfaces sc' = surfaces sc \<and> window (heap sc') = window (heap sc)"

lemma same_windows_refl [simp]: "same_windows sc sc"
  by (simp add: same_windows_def)

lemma same_windows_trans [trans]: "same_windows a b \<Longrightarrow> same_windows b c \<Longrightarrow> same_windows a c"
  by (simp add: same_windows_def)

lemma window_active_compositors: "window (snd (active_compositors t h cids)) = window h"
  by (simp add: active_compositors_eq)

lemma window_update_trackers: "window (snd (update_trackers cids ts (trk, h))) = window h"
proof (induction cids ts "(trk, h)" arbitrary: trk h rule: update_trackers.induct)
  case (2 cids t ts trk h)
  then show ?case using window_active_compositors [of "trk t" h cids] by (simp add: case_prod_unfold Let_def)
qed simp

lemma same_windows_update: "same_windows sc (update_rendering_tracker_compositors sc)"
  using window_update_trackers [of "registered_compositors sc" "map snd (rendering_trackers sc)" "tracker_at sc" "heap sc"]
  by (simp add: update_rendering_tracker_compositors_def same_windows_def case_prod_unfold Let_def)

lemma same_windows_register: "same_windows sc (register_compositor sc c)" "same_windows sc (unregister_compositor sc c)"
  using same_windows_update [of "sc\<lparr>registered_compositors := insert c (registered_compositors sc)\<rparr>"]
    same_windows_update [of "sc\<lparr>registered_compositors := registered_compositors sc - {c}\<rparr>"]
  by (simp_all add: register_compositor_def unregister_compositor_def same_windows_def)

lemma same_windows_element:
  "same_windows sc (snd (element_rendered e sc))" "same_windows sc (snd (element_occluded e sc))"
  by (cases "(e, sc)" rule: element_rendered.cases; simp add: on_tracker_def rendered_in_def same_windows_def Let_def split: sum.split)
     (cases "(e, sc)" rule: element_occluded.cases; simp add: on_tracker_def occluded_in_def same_windows_def Let_def split: sum.split)

lemma same_windows_perform: "same_windows sc (snd (perform as sc))"
proof (induction as sc rule: perform.induct)
  case (2 e as sc)
  then show ?case using same_windows_element(2) [of sc e] by (auto split: sum.split prod.split intro: same_windows_trans)
next
  case (3 e as sc)
  then show ?case using same_windows_element(1) [of sc e] by (auto split: sum.split prod.split intro: same_windows_trans)
qed simp_all

lemma same_windows_frame: "same_windows sc (snd (composite_frame sc c area overlay))"
  using same_windows_perform [where as = "composite element_renderable area overlay (fst (scene_elements_for sc c))" and sc = "snd (scene_elements_for sc c)"]
  by (simp add: composite_frame_def scene_elements_for_def same_windows_def)

section \<open>What a session leaves alone\<close>

text \<open>Of the windows that exist, those that are not in \<open>mine\<close> stay where they are and as they are.\<close>

definition world_keeps :: "SurfacePtr set \<Rightarrow> SceneWorld \<Rightarrow> SceneWorld \<Rightarrow> bool" where
  "world_keeps mine w w' \<longleftrightarrow>
     w_next_surface w \<le> w_next_surface w' \<and>
     (\<forall>p < w_next_surface w. p \<notin> mine \<longrightarrow>
        (p \<in> set (surfaces (w_scene w')) \<longleftrightarrow> p \<in> set (surfaces (w_scene w))) \<and>
        (window (heap (w_scene w)) p \<noteq> None \<longrightarrow> window (heap (w_scene w')) p = window (heap (w_scene w)) p))"

lemma world_keeps_refl [simp]: "world_keeps mine w w"
  by (simp add: world_keeps_def)

lemma world_keeps_trans:
  assumes "world_keeps mine w w'" "world_keeps mine' w' w''" "mine' \<subseteq> mine \<union> {w_next_surface w ..}"
  shows "world_keeps mine w w''"
  unfolding world_keeps_def
proof (intro conjI allI impI)
  show "w_next_surface w \<le> w_next_surface w''" using assms by (simp add: world_keeps_def)
next
  fix p assume p: "p < w_next_surface w" "p \<notin> mine"
  then have "p \<notin> mine'" "p < w_next_surface w'" using assms by (auto simp: world_keeps_def)
  then show "p \<in> set (surfaces (w_scene w'')) \<longleftrightarrow> p \<in> set (surfaces (w_scene w))"
    and "window (heap (w_scene w)) p \<noteq> None \<Longrightarrow> window (heap (w_scene w'')) p = window (heap (w_scene w)) p"
    using p assms(1,2) unfolding world_keeps_def by auto
qed

lemma world_keeps_scene:
  "same_windows (w_scene w) sc \<Longrightarrow> world_keeps mine w (w\<lparr>w_scene := sc\<rparr>)"
  by (simp add: world_keeps_def same_windows_def)

lemma world_keeps_simps [simp]:
  "world_keeps mine w (listener_call c w)" "world_keeps mine w (put_stream q st w)"
  "world_keeps mine w (w\<lparr>w_next_stream := n\<rparr>)" "world_keeps mine w (map_heap (\<lambda>h. h\<lparr>streams := st'\<rparr>) w)"
  by (simp_all add: world_keeps_def world_defs)

lemma world_keeps_write: "p \<in> mine \<or> w_next_surface w \<le> p \<Longrightarrow> world_keeps mine w (write_surface p s w)"
  by (auto simp: world_keeps_def world_defs window_def)

lemma next_surface_simps [simp]:
  "w_next_surface (listener_call c w) = w_next_surface w" "w_next_surface (put_stream q st w) = w_next_surface w"
  "w_next_surface (map_heap f w) = w_next_surface w" "w_next_surface (map_scene g w) = w_next_surface w"
  "w_next_surface (write_surface p s w) = w_next_surface w"
  by (simp_all add: world_defs)

lemma world_keeps_trans' [trans]: "world_keeps mine w w' \<Longrightarrow> world_keeps mine w' w'' \<Longrightarrow> world_keeps mine w w''"
  by (rule world_keeps_trans) auto

lemma world_keeps_configure: "p \<in> mine \<or> w_next_surface w \<le> p \<Longrightarrow> world_keeps mine w (snd (world_configure p attrib v w))"
  unfolding world_configure_def
  by (auto split: prod.split intro!: world_keeps_trans' [OF _ world_keeps_write])

lemma world_keeps_map_surface: "p \<in> mine \<or> w_next_surface w \<le> p \<Longrightarrow> world_keeps mine w (map_surface f p w)"
  unfolding map_surface_def by (rule world_keeps_write)

text \<open>The focus attribute is not part of a window.\<close>

lemma world_keeps_focus: "world_keeps mine w (snd (world_configure p mir_window_attrib_focus v w))"
proof -
  obtain r s' st' where c: "configure (world_surface w p) (streams (heap (w_scene w))) mir_window_attrib_focus v = (r, (s', st'))"
    by (metis prod.exhaust)
  have "bare s' = bare (world_surface w p)"
    using bare_configure [of mir_window_attrib_focus "world_surface w p" "streams (heap (w_scene w))" v] c by simp
  moreover have "snd (world_configure p mir_window_attrib_focus v w) = write_surface p s' (map_heap (\<lambda>h. h\<lparr>streams := st'\<rparr>) w)"
    by (simp add: world_configure_def c)
  ultimately show ?thesis
    by (auto simp: world_keeps_def world_defs window_def world_surface_def surface_of_def)
qed

definition session_keeps :: "session_state \<Rightarrow> session_state \<Rightarrow> bool" where
  "session_keeps sw sw' \<longleftrightarrow>
     world_keeps (own (fst sw)) (snd sw) (snd sw') \<and> own (fst sw') \<subseteq> own (fst sw) \<union> {w_next_surface (snd sw) ..}"

lemma session_keeps_refl [simp]: "session_keeps sw sw"
  by (simp add: session_keeps_def)

lemma session_keeps_trans: "session_keeps a b \<Longrightarrow> session_keeps b c \<Longrightarrow> session_keeps a c"
  unfolding session_keeps_def
  using world_keeps_trans [of "own (fst a)" "snd a" "snd b" "own (fst b)" "snd c"]
  by (auto simp: world_keeps_def intro: order.trans)

lemma session_keeps_and_then:
  "session_keeps sw (snd res) \<Longrightarrow> (\<And>a sw'. session_keeps sw' (snd (f a sw'))) \<Longrightarrow> session_keeps sw (snd (and_then res f))"
  by (auto simp: and_then_def split: prod.split sum.split intro: session_keeps_trans)

lemma session_keeps_same: "ses_surfaces s' = ses_surfaces s \<Longrightarrow> world_keeps (own s) w w' \<Longrightarrow> session_keeps (s, w) (s', w')"
  by (simp add: session_keeps_def own_def)

section \<open>The operations of a session\<close>

lemma world_keeps_configure_if_set:
  "p \<in> mine \<or> w_next_surface w \<le> p \<Longrightarrow> world_keeps mine w (snd (configure_if_set p attrib v w))"
  using world_keeps_configure [of p mine w attrib]
  by (auto simp: configure_if_set_def and_then_def split: option.split prod.split sum.split) (metis snd_conv)+

lemma next_surface_configure [simp]:
  "w_next_surface (snd (world_configure p attrib v w)) = w_next_surface w"
  "w_next_surface (snd (configure_if_set p attrib v' w)) = w_next_surface w"
  by (auto simp: world_configure_def configure_if_set_def and_then_def split: prod.split option.split sum.split)

lemma world_keeps_add_surface:
  assumes "p \<in> mine"
  shows "world_keeps mine w (map_scene (\<lambda>sc. add_surface sc p mode) w)"
proof -
  have "q \<noteq> p" if "q \<notin> mine" for q using assms that by blast
  then show ?thesis
    using window_active_compositors [of "new_RenderingTracker p" "heap (w_scene w)" "registered_compositors (w_scene w)"]
    by (simp add: world_keeps_def map_scene_def add_surface_def create_rendering_tracker_for_def scene_notify_def window_put_other
        Let_def case_prod_unfold)
qed

lemma world_keeps_remove_surface:
  assumes "p \<in> mine"
  shows "world_keeps mine w (map_scene (\<lambda>sc. remove_surface sc p) w)"
proof -
  have "q \<noteq> p" if "q \<notin> mine" for q using assms that by blast
  then show ?thesis by (simp add: world_keeps_def map_scene_def remove_surface_def scene_notify_def in_set_remove1)
qed

lemma world_keeps_configure_new:
  assumes "p \<in> mine"
  shows "world_keeps mine w (snd (configure_new_surface p params w))"
proof -
  have step: "world_keeps mine w (snd (and_then (configure_if_set p attrib v w) f))"
    if "\<And>w. world_keeps mine w (snd (f () w))" for attrib v f w
    using world_keeps_configure_if_set [of p mine w attrib v] that assms
    by (auto simp: and_then_def split: prod.split sum.split intro: world_keeps_trans')
  show ?thesis unfolding configure_new_surface_def
    by (intro step) (auto split: option.split intro: world_keeps_map_surface [of p] simp: assms)
qed

lemma world_keeps_allocate:
  assumes "allocate_surface infos params w = (r, w')"
  shows "world_keeps mine w w'" "r = Inr p \<Longrightarrow> p = w_next_surface w"
proof -
  have fresh: "world_keeps mine w (w\<lparr>w_next_surface := Suc (w_next_surface w)\<rparr>)" by (simp add: world_keeps_def)
  have "world_keeps (insert (w_next_surface w) mine) (w\<lparr>w_next_surface := Suc (w_next_surface w)\<rparr>)
      (write_surface (w_next_surface w) s (w\<lparr>w_next_surface := Suc (w_next_surface w)\<rparr>))" for s
    by (rule world_keeps_write) simp
  then show "world_keeps mine w w'"
    using world_keeps_trans [OF fresh] assms by (auto simp: allocate_surface_def Let_def split: sum.splits)
  show "r = Inr p \<Longrightarrow> p = w_next_surface w" using assms by (auto simp: allocate_surface_def Let_def split: sum.splits)
qed

lemma world_keeps_resize_content [simp]: "world_keeps mine w (resize_content q params w)"
  by (simp add: resize_content_def)

lemma next_resize_content [simp]: "w_next_surface (resize_content q params w) = w_next_surface w"
  by (simp add: resize_content_def)

lemma values_put: "snd ` set (map_put k v m) \<subseteq> insert v (snd ` set m)"
  by (induction k v m rule: map_put.induct) auto

lemma session_keeps_create: "session_keeps (s, w) (snd (create_surface params (s, w)))"
proof -
  define s1 where "s1 = s\<lparr>next_surface_id := Suc (next_surface_id s)\<rparr>"
  have own: "own s1 = own s" by (simp add: s1_def own_def)
  have new: "session_keeps (s, w)
      (snd (case allocate_surface infos params' (resize_content q params w) of
         (Inl e, w) \<Rightarrow> (Inl e, (s1, w))
       | (Inr p, w) \<Rightarrow>
           let w = map_scene (\<lambda>sc. add_surface sc p (par_input_mode params')) w
           in (case configure_new_surface p params' w of
                 (Inl e, w) \<Rightarrow> (Inl e, (s1, w))
               | (Inr _, w) \<Rightarrow> (Inr i, adopt_surface i p stream_id s1 w))))" for infos params' q i stream_id
  proof -
    obtain r w1 where a: "allocate_surface infos params' (resize_content q params w) = (r, w1)" by fastforce
    have k1: "world_keeps (own s) w w1"
      using world_keeps_allocate(1) [OF a] by (rule world_keeps_trans' [OF world_keeps_resize_content])
    show ?thesis
    proof (cases r)
      case (Inr p)
      then have p: "p = w_next_surface w" using world_keeps_allocate(2) [OF a, of p] by simp
      let ?w2 = "map_scene (\<lambda>sc. add_surface sc p (par_input_mode params')) w1"
      obtain r3 w3 where c: "configure_new_surface p params' ?w2 = (r3, w3)" by fastforce
      have "world_keeps (insert p (own s)) w1 ?w2" by (rule world_keeps_add_surface) simp
      moreover have "world_keeps (insert p (own s)) ?w2 w3"
        using world_keeps_configure_new [of p "insert p (own s)" ?w2 params'] c by simp
      ultimately have "world_keeps (insert p (own s)) w1 w3" by (rule world_keeps_trans')
      then have k3: "world_keeps (own s) w w3" by (rule world_keeps_trans [OF k1]) (auto simp: p)
      have "own (fst (adopt_surface i p stream_id s1 w3)) \<subseteq> insert p (own s)"
        using own values_put [of i p "ses_surfaces s1"] by (simp add: adopt_surface_def case_prod_unfold Let_def own_def)
      moreover have "snd (adopt_surface i p stream_id s1 w3) = listener_call (Surface_created (ses_self s1) p) w3"
        by (simp add: adopt_surface_def case_prod_unfold Let_def)
      ultimately have "session_keeps (s, w) (adopt_surface i p stream_id s1 w3)" "session_keeps (s, w) (s1, w3)"
        using world_keeps_trans' [OF k3 world_keeps_simps(1)] k3 own by (auto simp: session_keeps_def p)
      then show ?thesis by (cases r3) (simp_all add: a Inr c Let_def)
    qed (use k1 own in \<open>simp add: a session_keeps_def\<close>)
  qed
  have early: "session_keeps (s, w) (s1, w)" "session_keeps (s, w) (s1, resize_content q params w)" for q
    by (simp_all add: session_keeps_def own)
  show ?thesis
    using new [unfolded s1_def] early [unfolded s1_def]
    by (auto simp: create_surface_def next_id_def Let_def split: option.split sum.split)
qed

lemma session_keeps_destroy: "session_keeps sw (snd (ses_destroy_surface p sw))"
proof (cases "find (\<lambda>e. snd e = p) (ses_surfaces (fst sw))")
  case (Some e)
  then have "e \<in> set (ses_surfaces (fst sw))" "snd e = p" by (auto simp: find_Some_iff)
  then have "p \<in> own (fst sw)" by (auto simp: own_def)
  then have "world_keeps (own (fst sw)) (snd sw)
      (map_scene (\<lambda>sc. remove_surface sc p) (listener_call (Destroying_surface (ses_self (fst sw)) p) (snd sw)))"
    by (intro world_keeps_trans' [OF world_keeps_simps(1) world_keeps_remove_surface])
  moreover have "own ((fst sw)\<lparr>ses_surfaces := map_erase i (ses_surfaces (fst sw)), default_content_map := m\<rparr>) \<subseteq> own (fst sw)" for i m
    by (auto simp: own_def map_erase_def)
  ultimately show ?thesis
    using Some \<open>snd e = p\<close>
    by (auto simp: ses_destroy_surface_def destroy_entry_def session_keeps_def case_prod_unfold Let_def)
qed (simp add: ses_destroy_surface_def)

lemma session_keeps_create_stream: "session_keeps sw (snd (prod.swap (apsnd Inr (create_buffer_stream t sz format sw))))"
  using world_keeps_trans' [OF world_keeps_simps(3) world_keeps_simps(2)]
  by (cases sw) (auto simp: create_buffer_stream_def next_id_def Let_def intro!: session_keeps_same)

lemma session_keeps_destroy_stream: "session_keeps sw (snd (case sw of (s, w) \<Rightarrow> apsnd (\<lambda>s'. (s', w)) (destroy_buffer_stream k s)))"
  by (cases sw) (auto simp: destroy_buffer_stream_def intro!: session_keeps_same split: option.split)

lemma session_keeps_on_stream: "session_keeps sw (snd (on_stream k f sw))"
  by (cases sw) (auto simp: on_stream_def Let_def intro!: session_keeps_same split: sum.split prod.split)

lemma session_keeps_submit: "session_keeps sw (snd (submit_to_stream env k b sw))"
  by (auto simp: submit_to_stream_def session_keeps_on_stream split: sum.split option.split)

lemma session_keeps_create_buffer:
  "session_keeps sw (snd (case sw of (s, w) \<Rightarrow> apsnd (\<lambda>s'. (s', w)) (create_buffer sink_add allocated sz format s)))"
  by (cases sw) (auto simp: create_buffer_def Let_def sink_event_def intro!: session_keeps_same split: sum.split prod.split)

lemma session_keeps_allocate_all: "session_keeps sw (snd (allocate_all env stream_id n reqs sw))"
proof (induction env stream_id n reqs sw rule: allocate_all.induct)
  case (2 env stream_id n req reqs sw)
  have "session_keeps sw (snd (allocate_one env stream_id n req sw))"
    by (auto simp: allocate_one_def session_keeps_on_stream intro!: session_keeps_and_then session_keeps_create_buffer
        split: sum.split option.split)
  then show ?case using 2 by (auto simp: and_then_def split: prod.split sum.split intro: session_keeps_trans)
qed simp

lemma session_keeps_destroy_buffers: "session_keeps sw (snd (destroy_buffers bs sw))"
proof (induction bs arbitrary: sw)
  case (Cons b bs)
  have "session_keeps sw (snd (case sw of (s, w) \<Rightarrow> apsnd (\<lambda>s'. (s', w)) (destroy_buffer b s)))"
    by (cases sw) (auto simp: destroy_buffer_def intro!: session_keeps_same)
  then show ?case using Cons by (simp add: session_keeps_and_then)
qed simp

lemma session_keeps_release_buffers: "session_keeps sw (snd (destroy_buffers bs (disassociate_all stream_id ids sw)))"
proof (rule session_keeps_trans [OF _ session_keeps_destroy_buffers])
  show "session_keeps sw (disassociate_all stream_id ids sw)"
    by (auto simp: disassociate_all_def session_keeps_on_stream split: option.split)
qed

lemma session_keeps_configure_streams:
  "p \<in> own (fst sw) \<Longrightarrow> session_keeps sw (snd (case sw of (s, w) \<Rightarrow> apsnd (Pair s) (ses_configure_streams s p specs w)))"
  by (cases sw) (auto simp: ses_configure_streams_def intro!: session_keeps_same world_keeps_map_surface split: sum.split)

section \<open>The shell\<close>

definition mine :: "nat \<Rightarrow> 'w Shell \<Rightarrow> SurfacePtr set" where
  "mine i sh = (case sm_objects (sh_sessions sh) i of None \<Rightarrow> {} | Some s \<Rightarrow> own s)"

text \<open>What is done for session \<open>i\<close> leaves the other sessions and their windows alone.\<close>

definition shell_keeps :: "nat \<Rightarrow> 'w Shell \<Rightarrow> 'w Shell \<Rightarrow> bool" where
  "shell_keeps i sh sh' \<longleftrightarrow>
     (\<forall>j. j \<noteq> i \<longrightarrow> sm_objects (sh_sessions sh') j = sm_objects (sh_sessions sh) j) \<and>
     world_keeps (mine i sh) (sh_world sh) (sh_world sh') \<and>
     mine i sh' \<subseteq> mine i sh \<union> {w_next_surface (sh_world sh) ..}"

lemma shell_keeps_refl [simp]: "shell_keeps i sh sh"
  by (simp add: shell_keeps_def)

lemma shell_keeps_trans [trans]:
  assumes "shell_keeps i a b" "shell_keeps i b c"
  shows "shell_keeps i a c"
proof -
  have "world_keeps (mine i a) (sh_world a) (sh_world c)"
    using assms world_keeps_trans by (auto simp: shell_keeps_def)
  moreover have "w_next_surface (sh_world a) \<le> w_next_surface (sh_world b)" using assms by (simp add: shell_keeps_def world_keeps_def)
  ultimately show ?thesis using assms by (fastforce simp: shell_keeps_def)
qed

lemma shell_keeps_and_then:
  "shell_keeps i sh (snd res) \<Longrightarrow> (\<And>a sh'. res = (Inr a, sh') \<Longrightarrow> shell_keeps i sh' (snd (f a sh'))) \<Longrightarrow>
     shell_keeps i sh (snd (and_then res f))"
  by (auto simp: and_then_def split: prod.split sum.split intro: shell_keeps_trans)

lemma shell_keeps_same: "sh_sessions sh' = sh_sessions sh \<Longrightarrow> shell_keeps i sh sh'"
  by (simp add: shell_keeps_def mine_def)

lemma shell_keeps_manager:
  "sm_objects m = sm_objects (sh_sessions sh) \<Longrightarrow> world_keeps (mine i sh) (sh_world sh) (sm_world m) \<Longrightarrow>
     shell_keeps i sh (sh\<lparr>sh_sessions := m\<rparr>)"
  by (simp add: shell_keeps_def mine_def)

lemma shell_keeps_on_world: "world_keeps (mine i sh) (sh_world sh) (f (sh_world sh)) \<Longrightarrow> shell_keeps i sh (on_world f sh)"
  by (simp add: on_world_def shell_keeps_manager)

lemma shell_keeps_session_state:
  assumes "sm_objects (sh_sessions sh) i = Some s" "session_keeps (s, sh_world sh) (s', w')"
  shows "shell_keeps i sh (sh\<lparr>sh_sessions := (sh_sessions sh)\<lparr>sm_objects := (sm_objects (sh_sessions sh))(i \<mapsto> s'), sm_world := w'\<rparr>\<rparr>)"
  using assms by (simp add: shell_keeps_def session_keeps_def mine_def)

lemma shell_session_state:
  assumes "sm_objects (sh_sessions sh) i = Some s"
  shows "snd (shell_session f i sh) =
           sh\<lparr>sh_sessions := (sh_sessions sh)\<lparr>sm_objects := (sm_objects (sh_sessions sh))(i \<mapsto> fst (snd (f (s, sh_world sh)))),
              sm_world := snd (snd (f (s, sh_world sh)))\<rparr>\<rparr>"
  using assms by (simp add: shell_session_def on_session_def case_prod_unfold apsnd_def map_prod_def)

lemma shell_session_null: "sm_objects (sh_sessions sh) i = None \<Longrightarrow> snd (shell_session f i sh) = sh"
  by (simp add: shell_session_def on_session_def)

lemma shell_keeps_session:
  assumes "\<And>s. sm_objects (sh_sessions sh) i = Some s \<Longrightarrow> session_keeps (s, sh_world sh) (snd (f (s, sh_world sh)))"
  shows "shell_keeps i sh (snd (shell_session f i sh))"
proof (cases "sm_objects (sh_sessions sh) i")
  case (Some s)
  then show ?thesis unfolding shell_session_state [OF Some] using assms by (intro shell_keeps_session_state) auto
qed (simp add: shell_session_null)

lemma shell_keeps_configure_focus: "shell_keeps i sh (shell_configure p mir_window_attrib_focus v sh)"
  unfolding shell_configure_def by (rule shell_keeps_on_world) (rule world_keeps_focus)

lemma shell_keeps_drop_focus: "shell_keeps i sh (drop_focus p sh)"
  unfolding drop_focus_def Let_def by (rule shell_keeps_trans [OF shell_keeps_configure_focus shell_keeps_same]) simp

lemma shell_keeps_take_focus: "shell_keeps i sh (take_focus p sh)"
proof -
  let ?sh = "seat_call (Consume_device_state p) (seat_call (Targeter_set_focus p) (if confined p sh then confine_to p sh else sh))"
  have "shell_keeps i sh ?sh" by (rule shell_keeps_same) (simp add: seat_call_def confine_to_def)
  also have "shell_keeps i ?sh (shell_configure p mir_window_attrib_focus mir_window_focus_state_focused ?sh)"
    by (rule shell_keeps_configure_focus)
  finally show ?thesis unfolding take_focus_def Let_def by (rule shell_keeps_trans [OF _ shell_keeps_same]) simp
qed

lemma shell_keeps_set_focus_surface: "shell_keeps i sh (set_focus_surface surface sh)"
proof -
  define sh1 where "sh1 = sh\<lparr>focus_surface := surface, confinement_regions := []\<rparr>"
  define sh2 where "sh2 = (case focused_surface sh of None \<Rightarrow> sh1 | Some p \<Rightarrow> drop_focus p sh1)"
  have "shell_keeps i sh sh1" by (rule shell_keeps_same) (simp add: sh1_def)
  also have "shell_keeps i sh1 sh2" by (simp add: sh2_def shell_keeps_drop_focus split: option.split)
  also have "shell_keeps i sh2 (case surface of Some p \<Rightarrow> take_focus p sh2 | None \<Rightarrow> seat_call Targeter_clear_focus sh2)"
    by (auto simp: shell_keeps_take_focus seat_call_def split: option.split intro: shell_keeps_same)
  finally have "shell_keeps i sh (case surface of Some p \<Rightarrow> take_focus p sh2 | None \<Rightarrow> seat_call Targeter_clear_focus sh2)" .
  then show ?thesis unfolding sh2_def sh1_def by (simp add: set_focus_surface_def Let_def)
qed

lemma shell_keeps_set_focus: "shell_keeps i sh (set_focus_to session surface sh)"
proof -
  let ?sh = "set_focus_surface surface sh"
  have eq: "set_focus_to session surface sh =
      (if session \<noteq> Shell.focused_session ?sh
       then ?sh\<lparr>focus_session := session,
                sh_sessions := (case session of Some i \<Rightarrow> sm_set_focus_to i (sh_sessions ?sh) | None \<Rightarrow> sm_unset_focus (sh_sessions ?sh))\<rparr>
       else ?sh)"
    by (simp add: set_focus_to_def set_focus_surface_def Let_def split: option.split)
  have "shell_keeps i ?sh (set_focus_to session surface sh)"
    unfolding eq
    by (auto simp: shell_keeps_def mine_def sm_set_focus_to_def sm_unset_focus_def sm_listener_def split: option.split)
  with shell_keeps_set_focus_surface show ?thesis by (rule shell_keeps_trans)
qed

section \<open>Window managers\<close>

text \<open>
  A window manager that works for one session at a time: what it does for a session, and with a surface of that session,
  leaves the windows of the others alone.
\<close>

locale considerate_window_manager =
  fixes wmo :: "'w WindowManagerOps"
  assumes add_session: "shell_keeps i sh (wmo_add_session wmo i sh)"
    and remove_session: "shell_keeps i sh (wmo_remove_session wmo i sh)"
    and add_surface: "(\<And>ps sh. shell_keeps i sh (snd (build i ps sh))) \<Longrightarrow> shell_keeps i sh (snd (wmo_add_surface wmo i params build sh))"
    and modify_surface: "p \<in> mine i sh \<Longrightarrow> shell_keeps i sh (snd (wmo_modify_surface wmo i p mods sh))"
    and remove_surface: "shell_keeps i sh (snd (wmo_remove_surface wmo i p sh))"
    and set_surface_attribute: "p \<in> mine i sh \<Longrightarrow> shell_keeps i sh (snd (wmo_set_surface_attribute wmo i p attrib v sh))"
    and handle_raise_surface: "p \<in> mine i sh \<Longrightarrow> shell_keeps i sh (snd (wmo_handle_raise_surface wmo i p t sh))"
begin

lemma keeps_create: "shell_keeps i sh (snd (fe_create_surface wmo i params sh))"
  unfolding fe_create_surface_def shell_create_surface_def
  by (auto split: sum.split intro!: add_surface shell_keeps_session session_keeps_create)

lemma session_surface_mine: "session_surface i k sh = Inr p \<Longrightarrow> p \<in> mine i sh"
  by (auto simp: session_surface_def mine_def find_surface_def own_def image_iff split: option.splits dest!: map_of_SomeD) (metis snd_conv)

lemma keeps_on_surface:
  "(\<And>p sh. p \<in> mine i sh \<Longrightarrow> shell_keeps i sh (snd (f p sh))) \<Longrightarrow> shell_keeps i sh (snd (on_surface i k f sh))"
  unfolding on_surface_def by (auto split: sum.split dest: session_surface_mine)

lemma keeps_destroy: "shell_keeps i sh (snd (fe_destroy_surface wmo i k sh))"
  unfolding fe_destroy_surface_def shell_destroy_surface_def by (auto split: option.split sum.split intro: remove_surface)

lemma keeps_set_attribute: "shell_keeps i sh (snd (fe_set_surface_attribute wmo i k attrib v sh))"
  unfolding fe_set_surface_attribute_def shell_set_surface_attribute_def by (rule keeps_on_surface) (rule set_surface_attribute)

lemma keeps_raise: "shell_keeps i sh (snd (fe_raise_surface wmo i k t sh))"
  unfolding fe_raise_surface_def shell_raise_surface_def by (rule keeps_on_surface) (rule handle_raise_surface)

lemma keeps_modify_shell:
  assumes "p \<in> mine i sh"
  shows "shell_keeps i sh (snd (shell_modify_surface wmo i p mods sh))"
proof -
  have cursor: "shell_keeps i sh (snd (modify_cursor i p mods sh))" for sh
    by (auto simp: modify_cursor_def seat_call_def Let_def split: option.split sum.split prod.split intro!: shell_keeps_same)
  have confinement: "shell_keeps i sh (modify_confinement p mods sh)" for sh
    by (auto simp: modify_confinement_def confine_to_def intro!: shell_keeps_same)
  have wm: "shell_keeps i sh (snd (if \<not> spec_is_empty m then wmo_modify_surface wmo i p m sh else (Inr (), sh)))"
    if "p \<in> mine i sh" for sh m using modify_surface [OF that] by simp
  have streams: "shell_keeps i sh (snd (shell_session (\<lambda>(s, w). apsnd (Pair s) (ses_configure_streams s p specs w)) i sh))" for specs
    using assms session_keeps_configure_streams by (intro shell_keeps_session) (auto simp: mine_def)
  have mine: "p \<in> mine i (snd (shell_session (\<lambda>(s, w). apsnd (Pair s) (ses_configure_streams s p specs w)) i sh))" for specs
    using assms
    by (cases "sm_objects (sh_sessions sh) i")
       (auto simp: shell_session_state shell_session_null mine_def ses_configure_streams_def split: sum.split)
  define first where "first =
    (case spec_streams mods of
       None \<Rightarrow> (Inr (), sh)
     | Some specs \<Rightarrow> shell_session (\<lambda>(s, w). apsnd (Pair s) (ses_configure_streams s p specs w)) i sh)"
  have first: "shell_keeps i sh (snd first)" "p \<in> mine i (snd first)"
    using streams mine assms by (simp_all add: first_def split: option.split)
  have rest: "shell_keeps i sh' (snd (and_then (if \<not> spec_is_empty m then wmo_modify_surface wmo i p m sh' else (Inr (), sh'))
      (\<lambda>_ sh. and_then (modify_cursor i p mods sh) (\<lambda>_ sh. (Inr (), modify_confinement p mods sh)))))" if "p \<in> mine i sh'" for sh' m
    by (intro shell_keeps_and_then wm that cursor) (simp add: confinement)
  have "shell_keeps i sh (snd (and_then first (\<lambda>_ sh. and_then (if \<not> spec_is_empty m then wmo_modify_surface wmo i p m sh else (Inr (), sh))
      (\<lambda>_ sh. and_then (modify_cursor i p mods sh) (\<lambda>_ sh. (Inr (), modify_confinement p mods sh))))))" for m
    by (rule shell_keeps_and_then [OF first(1)], rule rest) (use first(2) in simp)
  then show ?thesis unfolding shell_modify_surface_def Let_def first_def by simp
qed

lemma keeps_modify: "shell_keeps i sh (snd (fe_modify_surface wmo i k mods sh))"
  unfolding fe_modify_surface_def by (rule keeps_on_surface) (auto split: option.split sum.split intro: keeps_modify_shell)

lemma keeps_remove_all: "shell_keeps i sh (snd (remove_all wmo i ps sh))"
  by (induction ps arbitrary: sh) (auto intro: shell_keeps_and_then remove_surface)

lemma keeps_close: "shell_keeps i sh (snd (shell_close_session wmo i sh))"
proof -
  have close: "shell_keeps i sh (snd (apsnd (\<lambda>m. sh\<lparr>sh_sessions := m\<rparr>) (close_session i (sh_sessions sh))))" for sh
    by (auto simp: close_session_def Let_def sm_listener_def apsnd_def map_prod_def split: prod.split intro!: shell_keeps_manager)
  let ?sh = "sh\<lparr>sh_prompts := remove_session (sh_prompts sh) i\<rparr>"
  have start: "shell_keeps i sh ?sh" by (rule shell_keeps_same) simp
  have rest: "shell_keeps i ?sh (snd (and_then (remove_all wmo i ps ?sh) (\<lambda>_ sh.
      and_then (apsnd (\<lambda>m. sh\<lparr>sh_sessions := m\<rparr>) (close_session i (sh_sessions sh))) (\<lambda>_ sh. (Inr (), wmo_remove_session wmo i sh)))))" for ps
    by (intro shell_keeps_and_then keeps_remove_all close) (simp add: remove_session)
  show ?thesis
    using start shell_keeps_trans [OF start rest]
    by (auto simp: shell_close_session_def Let_def split: option.split sum.split)
qed

lemma keeps_open: "shell_keeps (sm_next (sh_sessions sh)) sh (fst (shell_open_session wmo now pid name sh))"
proof -
  obtain m i where m: "open_session now pid name (sh_sessions sh) = (m, i)" by fastforce
  then have "i = sm_next (sh_sessions sh)" "shell_keeps i sh (sh\<lparr>sh_sessions := m\<rparr>)"
    by (auto simp: open_session_def Let_def sm_listener_def shell_keeps_def mine_def new_ApplicationSession_def own_def)
  then show ?thesis using shell_keeps_trans [OF _ add_session] by (simp add: shell_open_session_def m)
qed

end

section \<open>The window manager of a system compositor\<close>

lemma shell_keeps_on_wm: "shell_keeps i sh (on_wm f sh)"
  by (rule shell_keeps_same) (simp add: on_wm_def)

lemma shell_keeps_session_removed: "shell_keeps i sh (on_session_removed j sh)"
  by (auto simp: on_session_removed_def shell_keeps_set_focus split: sum.split option.split)

lemma shell_keeps_place: "p \<in> mine i sh \<Longrightarrow> shell_keeps i sh (place_surface p output_id sh)"
proof -
  assume p: "p \<in> mine i sh"
  have "world_keeps (mine i sh) w (move_and_resize p rect w)" for rect w
    unfolding move_and_resize_def Let_def case_prod_unfold
    by (rule world_keeps_trans' [OF world_keeps_map_surface world_keeps_trans' [OF world_keeps_simps(4) world_keeps_write]]) (use p in simp_all)
  then show ?thesis by (auto simp: place_surface_def Let_def case_prod_unfold intro!: shell_keeps_on_world)
qed

lemma sc_keeps_modify:
  assumes "p \<in> mine i sh"
  shows "shell_keeps i sh (snd (sc_modify_surface i p mods sh))"
proof -
  define sh1 where "sh1 = (case spec_name mods of Some title \<Rightarrow> on_world (map_surface (\<lambda>s. surface_rename s title) p) sh | None \<Rightarrow> sh)"
  have k: "shell_keeps i sh sh1" "p \<in> mine i sh1"
    using assms by (auto simp: sh1_def mine_def on_world_def split: option.splits intro!: shell_keeps_on_world [unfolded on_world_def] world_keeps_map_surface)
  have eq: "snd (sc_modify_surface i p mods sh) =
      (case spec_output_id mods of
         Some k \<Rightarrow> on_wm (\<lambda>wm. wm\<lparr>output_map := map_put p k (output_map wm)\<rparr>) (place_surface p k sh1)
       | None \<Rightarrow> sh1)"
    unfolding sh1_def by (simp add: sc_modify_surface_def Let_def)
  have "shell_keeps i sh1 (snd (sc_modify_surface i p mods sh))"
    unfolding eq using shell_keeps_trans [OF shell_keeps_place [OF k(2)] shell_keeps_on_wm] by (auto split: option.split)
  with k(1) show ?thesis by (rule shell_keeps_trans)
qed

lemma sc_keeps_add:
  assumes "\<And>ps sh. shell_keeps i sh (snd (build i ps sh))"
  shows "shell_keeps i sh (snd (sc_add_surface i params build sh))"
  unfolding sc_add_surface_def case_prod_unfold Let_def
  by (auto intro!: shell_keeps_and_then assms split: option.split sum.split simp: shell_keeps_on_wm)

interpretation sc: considerate_window_manager SystemCompositorWindowManager
proof
  fix i params build p mods attrib v t and sh :: sc_shell
  show "shell_keeps i sh (wmo_add_session SystemCompositorWindowManager i sh)"
    and "shell_keeps i sh (snd (wmo_handle_raise_surface SystemCompositorWindowManager i p t sh))"
    by (simp_all add: SystemCompositorWindowManager_def)
  show "shell_keeps i sh (wmo_remove_session SystemCompositorWindowManager i sh)" by (simp add: shell_keeps_session_removed)
  show "shell_keeps i sh (snd (wmo_add_surface SystemCompositorWindowManager i params build sh))"
    if "\<And>ps sh. shell_keeps i sh (snd (build i ps sh))"
    using sc_keeps_add [where build = build, OF that] by (simp add: SystemCompositorWindowManager_def)
  show "shell_keeps i sh (snd (wmo_modify_surface SystemCompositorWindowManager i p mods sh))" if "p \<in> mine i sh"
    using sc_keeps_modify [OF that] by (simp add: SystemCompositorWindowManager_def)
  show "shell_keeps i sh (snd (wmo_remove_surface SystemCompositorWindowManager i p sh))"
    unfolding sc_operations sc_remove_surface_def
    by (auto intro!: shell_keeps_and_then shell_keeps_session session_keeps_destroy simp: shell_keeps_on_wm)
  show "shell_keeps i sh (snd (wmo_set_surface_attribute SystemCompositorWindowManager i p attrib v sh))" if "p \<in> mine i sh"
  proof -
    have "snd (sc_set_surface_attribute i p attrib v sh) = on_world (\<lambda>_. snd (world_configure p attrib v (sh_world sh))) sh"
      by (simp add: sc_set_surface_attribute_def)
    also have "shell_keeps i sh \<dots>" by (rule shell_keeps_on_world) (use that in \<open>simp add: world_keeps_configure\<close>)
    finally show ?thesis by (simp add: SystemCompositorWindowManager_def)
  qed
qed

section \<open>Screencasts\<close>

lemma same_windows_sx_composite: "same_windows sc (snd (snd (sx_composite (cx, sc))))"
  using same_windows_frame [of sc "sx_compositor cx" "capture_region cx" "\<lambda>_. False"]
  by (auto simp: sx_composite_def split: prod.split sum.split)

lemma same_windows_on_context:
  "(\<And>cx sc. same_windows sc (snd (snd (f (cx, sc))))) \<Longrightarrow> same_windows (screencast_scene sx) (screencast_scene (snd (on_context f k sx)))"
  by (auto simp: on_context_def split: option.split prod.split) (metis snd_conv)

lemma same_windows_capture:
  "same_windows (screencast_scene sx) (screencast_scene (snd (capture k sx)))"
  "same_windows (screencast_scene sx) (screencast_scene (snd (capture_to k b sx)))"
proof -
  have "same_windows sc (snd (snd (sx_capture (cx, sc))))" "same_windows sc (snd (snd (sx_capture_to b (cx, sc))))" for cx sc
    using same_windows_sx_composite [of sc]
    by (auto simp: sx_capture_def sx_capture_to_def Let_def split: prod.split sum.split option.split) (metis snd_conv)+
  then show "same_windows (screencast_scene sx) (screencast_scene (snd (capture k sx)))"
    "same_windows (screencast_scene sx) (screencast_scene (snd (capture_to k b sx)))"
    unfolding capture_def capture_to_def by (auto intro!: same_windows_on_context)
qed

lemma same_windows_screencasts:
  "same_windows (screencast_scene sx) (screencast_scene (snd (create_screencast_session conf bs region sz format n sx)))"
  "same_windows (screencast_scene sx) (screencast_scene (destroy_screencast_session k sx))"
  by (auto simp: create_screencast_session_def create_session_context_def destroy_screencast_session_def same_windows_register Let_def
      split: sum.split option.split)

end
