(* ===== verification/Client_Requests.thy ===== *)
theory Client_Requests
  imports Client_Isolation
begin

text \<open>
  What holds of every request of every client.  The locale \<open>request_frame\<close> follows a relation between the states before and after a step through all
  requests; it is interpreted for the windows of other clients and for what clients without authorisation can reach.
\<close>

section \<open>A relation through all requests\<close>

inductive changer_operation :: "AuthorizingDisplayChanger \<Rightarrow> nat \<Rightarrow> MediatingDisplayChanger \<Rightarrow> MediatingDisplayChanger \<Rightarrow> bool"
  for au i md where
  configuring: "changer_operation au i md (snd (auth_configure au i conf md))"
| removing: "changer_operation au i md (snd (auth_remove_session_configuration au i md))"
| setting_base: "changer_operation au i md (snd (auth_set_base_configuration au conf md))"
| previewing: "changer_operation au i md (snd (auth_preview_base_configuration au now i conf timeout_ms md))"
| confirming: "changer_operation au i md (snd (auth_confirm_base_configuration au conf md))"
| cancelling: "changer_operation au i md (snd (auth_cancel_base_configuration_preview au i md))"

definition put_screencasts :: "CompositingScreencast \<Rightarrow> 'w Server \<Rightarrow> 'w Server" where
  "put_screencasts sx srv =
     srv\<lparr>srv_screencasts := sx, srv_shell := on_world (map_scene (\<lambda>_. screencast_scene sx)) (srv_shell srv)\<rparr>"

locale request_frame =
  fixes wmo :: "'w WindowManagerOps" and i :: nat
    and S :: "'w Shell \<Rightarrow> 'w Shell \<Rightarrow> bool" and R :: "'w mediated \<Rightarrow> 'w mediated \<Rightarrow> bool"
  assumes S_same: "sh_sessions sh' = sh_sessions sh \<Longrightarrow> S sh sh'"
    and S_anr: "S sh (sh\<lparr>sh_sessions := (sh_sessions sh)\<lparr>sm_anr_detector := d\<rparr>\<rparr>)"
    and S_session: "(\<And>s. session_keeps (s, sh_world sh) (f (s, sh_world sh))) \<Longrightarrow>
      S sh (snd (shell_session (\<lambda>sw. (Inr (), f sw)) i sh))"
    and S_open: "i = sm_next (sh_sessions sh) \<Longrightarrow> S sh (fst (shell_open_session wmo now pid name sh))"
    and S_create: "S sh (snd (fe_create_surface wmo i params sh))"
    and S_destroy: "S sh (snd (fe_destroy_surface wmo i k sh))"
    and S_set_attribute: "S sh (snd (fe_set_surface_attribute wmo i k attrib v sh))"
    and S_modify: "S sh (snd (fe_modify_surface wmo i k mods sh))"
    and S_raise: "S sh (snd (fe_raise_surface wmo i k t sh))"
    and S_close: "S sh (snd (shell_close_session wmo i sh))"
    and R_refl: "R mw mw"
    and R_trans: "R a b \<Longrightarrow> R b c \<Longrightarrow> R a c"
    and R_shell: "S (see_prompt_participants (srv_shell srv)) sh \<Longrightarrow> R (m, srv) (m, put_shell sh srv)"
    and R_mediator: "med_authorization m' = med_authorization m \<Longrightarrow> R (m, srv) (m', srv)"
    and R_store: "R (m, srv) (m, srv\<lparr>srv_store := st\<rparr>)"
    and R_clients: "R (m, srv) (m, srv\<lparr>srv_clients := cs, srv_next_client := n\<rparr>)"
    and R_changer: "changer_operation (auth_changer (med_authorization m)) i (srv_changer srv) md \<Longrightarrow> R (m, srv) (m, srv\<lparr>srv_changer := md\<rparr>)"
    and R_screencast: "screencast_is_allowed (med_authorization m) \<Longrightarrow>
      same_windows (w_scene (sh_world (srv_shell srv))) (screencast_scene sx) \<Longrightarrow> R (m, srv) (m, put_screencasts sx srv)"
begin

lemma shell_step: "(\<And>sh. S sh (snd (f sh))) \<Longrightarrow> R mw (snd (on_shell f mw))"
  using R_shell [of "snd mw" _ "fst mw"] by (simp add: on_shell_def)

lemma session_step:
  assumes "\<And>sw. session_keeps sw (snd (f sw))"
  shows "R mw (snd (on_own_session i f mw))"
proof -
  have eq: "snd (shell_session f i sh) = snd (shell_session (\<lambda>sw. (Inr (), snd (f sw))) i sh)" for sh :: "'w Shell"
    by (simp add: shell_session_def on_session_def split: option.split)
  show ?thesis unfolding on_own_session_def by (rule shell_step) (use S_session [of _ "\<lambda>sw. snd (f sw)"] assms eq in auto)
qed

lemma mediator_step: "med_authorization m' = med_authorization (fst mw) \<Longrightarrow> R mw (m', snd mw)"
  using R_mediator [of m' "fst mw" "snd mw"] by simp

lemma and_then_step: "R mw (snd res) \<Longrightarrow> (\<And>a mw'. R mw' (snd (f a mw'))) \<Longrightarrow> R mw (snd (and_then res f))"
  by (auto simp: and_then_def split: prod.split sum.split intro: R_trans)

lemma session_lock_step: "(lock_session mw = Some i \<Longrightarrow> R mw (snd (f i mw))) \<Longrightarrow> lock_session mw = Some i \<or> lock_session mw = None \<Longrightarrow> R mw (snd (with_session f mw))"
  by (auto simp: with_session_def R_refl split: option.split)

lemma screencast_step:
  assumes "\<And>sx. same_windows (screencast_scene sx) (screencast_scene (snd (f sx)))"
  shows "R mw (snd (on_screencast f mw))"
proof -
  obtain m srv where mw: "mw = (m, srv)" by fastforce
  show ?thesis
  proof (cases "screencast_is_allowed (med_authorization m)")
    case True
    let ?sx = "(srv_screencasts srv)\<lparr>screencast_scene := w_scene (sh_world (srv_shell srv))\<rparr>"
    have "snd (on_screencast f mw) = (m, put_screencasts (snd (f ?sx)) srv)"
      using True by (simp add: mw on_screencast_def put_screencasts_def case_prod_unfold)
    then show ?thesis using R_screencast [OF True, of srv "snd (f ?sx)"] assms [of ?sx] by (simp add: mw)
  qed (simp add: mw on_screencast_def R_refl)
qed

lemma changer_step:
  "changer_operation (auth_changer (med_authorization (fst mw))) i (srv_changer (snd mw))
     (snd (f (auth_changer (med_authorization (fst mw))) (srv_changer (snd mw)))) \<Longrightarrow> R mw (snd (changer_request f mw))"
  using R_changer [of "fst mw" "snd mw"] by (simp add: changer_request_def on_changer_def)

lemma configuration_step: "(\<And>conf mw'. R mw' (snd (f conf mw'))) \<Longrightarrow> R mw (snd (with_configuration request f mw))"
  by (auto simp: with_configuration_def R_refl split: sum.split)

lemma tracked_step:
  "R mw (snd (capture_and_track env k full mw))"
proof -
  have pack: "R mw (snd (pack_protobuf_buffer env b u mw))" for b u and mw :: "'w mediated"
    by (auto simp: pack_protobuf_buffer_def R_refl split: option.split)
  have "R mw' (snd (case track_buffer k b (fst mw') of (t, m) \<Rightarrow> pack_protobuf_buffer env b (t \<and> \<not> full) (m, snd mw')))"
    for b and mw' :: "'w mediated"
  proof -
    obtain t m where t: "track_buffer k b (fst mw') = (t, m)" by fastforce
    then have "med_authorization m = med_authorization (fst mw')" by (auto simp: track_buffer_def Let_def)
    then have "R mw' (m, snd mw')" by (rule mediator_step)
    then show ?thesis unfolding t prod.case by (rule R_trans [OF _ pack])
  qed
  then show ?thesis unfolding capture_and_track_def Let_def
    by (intro and_then_step screencast_step same_windows_capture)
qed

lemma destroy_tracked_step: "R mw (snd (destroy_tracked ks mw))"
  by (induction ks arbitrary: mw)
     (auto simp: R_refl destroy_screencast_def intro!: and_then_step screencast_step same_windows_screencasts)

lemma untrack_authorization: "med_authorization (fold remove_tracked_session ks m) = med_authorization m"
  by (induction ks arbitrary: m) (simp_all add: remove_tracked_session_def)

lemma destroy_screencasts_step: "R mw (snd (destroy_screencast_sessions mw))"
  unfolding destroy_screencast_sessions_def Let_def
  by (intro and_then_step destroy_tracked_step) (simp add: mediator_step untrack_authorization)

lemma sockets_step: "R mw (snd (open_sockets env creds handler n mw))"
proof (induction env creds handler n mw rule: open_sockets.induct)
  case (2 env creds handler n mw)
  let ?c = "srv_next_client (snd mw)"
  let ?mw = "(fst mw, (snd mw)\<lparr>srv_clients := (srv_clients (snd mw))(?c \<mapsto> make_ipc_server creds (Some handler)), srv_next_client := Suc ?c\<rparr>)"
  have "R mw ?mw" using R_clients [of "fst mw" "snd mw"] by simp
  moreover have "R ?mw (snd (open_sockets env creds handler n ?mw))" if "env_client_fd env ?c = Inr fd" for fd
    using 2 [OF that refl refl] by simp
  ultimately have "R mw (snd (open_sockets env creds handler n ?mw))" if "env_client_fd env ?c = Inr fd" for fd
    using that R_trans by blast
  then show ?case by (auto simp: Let_def R_refl intro!: and_then_step split: sum.split)
qed (simp add: R_refl)

lemma connect_step:
  assumes "i = sm_next (srv_sessions (snd mw))"
  shows "R mw (snd (connect wmo env name mw))"
proof -
  have prompts: "R mw (snd (on_shell (if_prompts m (shell_add_prompt_provider_for ps session)) mw))" for m ps session and mw :: "'w mediated"
    by (rule shell_step) (auto simp: if_prompts_def shell_add_prompt_provider_for_def intro!: S_same)
  have clients: "R mw (fst mw, (snd mw)\<lparr>srv_clients := cs\<rparr>)" for cs and mw :: "'w mediated"
    using R_clients [where m = "fst mw" and srv = "snd mw" and cs = cs and n = "srv_next_client (snd mw)"] by simp
  have handler: "R mw (snd (handle_client_connect session mw))" for session and mw :: "'w mediated"
    unfolding handle_client_connect_def Let_def case_prod_unfold
    by (auto simp: R_refl split: option.split intro!: clients R_trans [OF clients prompts])
  let ?open = "\<lambda>sh. let (sh, k) = shell_open_session wmo (env_now env) (client_pid (fst mw)) name sh in (Inr k, sh)"
  have "S (see_prompt_participants (srv_shell (snd mw))) (snd (?open (see_prompt_participants (srv_shell (snd mw)))))"
    using S_open [of "see_prompt_participants (srv_shell (snd mw))"] assms
    by (simp add: see_prompt_participants_def Let_def case_prod_unfold)
  then have opened: "R mw (snd (on_shell ?open mw))"
    using R_shell [of "snd mw" _ "fst mw"] by (simp add: on_shell_def)
  have "R mw' (snd (and_then (handle_client_connect session ((fst mw')\<lparr>weak_session := Some session\<rparr>, snd mw')) (\<lambda>_ mw. (Inr (reply mw), mw))))"
    for session reply and mw' :: "'w mediated"
    by (rule R_trans [OF mediator_step and_then_step [OF handler]]) (simp_all add: R_refl)
  then show ?thesis unfolding connect_def by (rule and_then_step [OF opened])
qed

lemmas steps = and_then_step session_lock_step shell_step session_step configuration_step changer_step screencast_step

lemma surface_steps:
  assumes "lock_session mw = Some i \<or> lock_session mw = None"
  shows "R mw (snd (med_create_surface wmo env request mw))" "R mw (snd (med_release_surface wmo k mw))"
    "R mw (snd (med_configure_surface wmo k attrib v mw))" "R mw (snd (med_modify_surface wmo env k spec mw))"
    "R mw (snd (med_configure_cursor env k setting mw))" "R mw (snd (med_raise_surface wmo env k cookie mw))"
    "R mw (snd (med_request_persistent_surface_id env k mw))" "R mw (snd (med_translate_surface_to_screen env k px py mw))"
proof -
  have content: "R mw (snd (content_for env request i mw))" for mw :: "'w mediated"
    by (auto simp: content_for_def R_refl intro!: steps session_keeps_create_stream)
  have seat: "S sh (snd (on_surface i k f sh))" if "\<And>p sh. sh_sessions (snd (f p sh)) = sh_sessions sh"
    for f :: "SurfacePtr \<Rightarrow> 'w Shell \<Rightarrow> ('w Shell, 'x) outcome" and sh
    using that by (auto simp: on_surface_def split: sum.split intro!: S_same)
  show "R mw (snd (med_create_surface wmo env request mw))"
    unfolding med_create_surface_def Let_def
    by (intro session_lock_step assms)
       (auto simp: R_refl split: sum.split option.split intro!: steps content S_create R_mediator)
  show "R mw (snd (med_release_surface wmo k mw))"
    unfolding med_release_surface_def
    by (intro session_lock_step assms)
       (auto simp: R_refl split: option.split intro!: steps S_destroy R_mediator session_keeps_destroy_stream [of "(_, _)", simplified])
  show "R mw (snd (med_configure_surface wmo k attrib v mw))"
    unfolding med_configure_surface_def by (intro session_lock_step assms shell_step S_set_attribute)
  show "R mw (snd (med_modify_surface wmo env k spec mw))"
    unfolding med_modify_surface_def Let_def
    by (intro session_lock_step assms)
       (auto simp: R_refl split: option.split sum.split prod.split intro!: shell_step S_modify)
  show "R mw (snd (med_configure_cursor env k setting mw))"
    unfolding med_configure_cursor_def
    by (intro session_lock_step assms shell_step seat)
       (auto simp: seat_call_def split: CursorSetting.split sum.split)
  show "R mw (snd (med_raise_surface wmo env k cookie mw))"
    unfolding med_raise_surface_def
    by (intro session_lock_step assms) (auto simp: R_refl split: sum.split intro!: shell_step S_raise)
  show "R mw (snd (med_request_persistent_surface_id env k mw))"
    unfolding med_request_persistent_surface_id_def
    using R_store [of "fst mw" "snd mw"] by (intro session_lock_step assms) simp
  show "R mw (snd (med_translate_surface_to_screen env k px py mw))"
    unfolding med_translate_surface_to_screen_def by (intro session_lock_step assms shell_step seat) simp
qed

lemma stream_steps:
  assumes "lock_session mw = Some i \<or> lock_session mw = None"
  shows "R mw (snd (med_create_buffer_stream env sz format mw))" "R mw (snd (med_release_buffer_stream k mw))"
    "R mw (snd (med_configure_buffer_stream k swapinterval mw))" "R mw (snd (med_submit_buffer env k b mw))"
    "R mw (snd (med_allocate_buffers env stream_id reqs mw))" "R mw (snd (med_release_buffers stream_id ids mw))"
  unfolding med_create_buffer_stream_def med_release_buffer_stream_def med_configure_buffer_stream_def med_submit_buffer_def
    med_allocate_buffers_def med_release_buffers_def
  by (intro session_lock_step assms session_step session_keeps_create_stream session_keeps_destroy_stream session_keeps_on_stream
      session_keeps_submit session_keeps_allocate_all session_keeps_release_buffers)+

lemma display_steps:
  assumes "lock_session mw = Some i \<or> lock_session mw = None"
  shows "R mw (snd (med_configure_display conf mw))" "R mw (snd (med_remove_session_configuration mw))"
    "R mw (snd (med_set_base_display_configuration conf mw))" "R mw (snd (med_preview_base_display_configuration env conf seconds mw))"
    "R mw (snd (med_confirm_base_display_configuration conf mw))" "R mw (snd (med_cancel_base_display_configuration_preview mw))"
proof -
  have told: "R mw' (snd (and_then (changer_request (\<lambda>au. auth_configure au i c) mw') (\<lambda>_ mw. (Inr (reply mw), mw))))"
    for c reply and mw' :: "'w mediated"
    by (intro and_then_step changer_step configuring) (simp add: R_refl)
  show "R mw (snd (med_configure_display conf mw))"
    unfolding med_configure_display_def by (intro session_lock_step assms configuration_step told)
  show "R mw (snd (med_remove_session_configuration mw))" "R mw (snd (med_set_base_display_configuration conf mw))"
    "R mw (snd (med_preview_base_display_configuration env conf seconds mw))"
    "R mw (snd (med_confirm_base_display_configuration conf mw))" "R mw (snd (med_cancel_base_display_configuration_preview mw))"
    unfolding med_remove_session_configuration_def med_set_base_display_configuration_def med_preview_base_display_configuration_def
      med_confirm_base_display_configuration_def med_cancel_base_display_configuration_preview_def
    by (intro session_lock_step assms configuration_step changer_step removing setting_base previewing confirming cancelling)+
qed

lemma screencast_steps:
  assumes "lock_session mw = Some i \<or> lock_session mw = None"
  shows "R mw (snd (med_create_screencast env params mw))" "R mw (snd (med_screencast_buffer env k mw))"
    "R mw (snd (med_screencast_to_buffer k b mw))" "R mw (snd (med_release_screencast k mw))"
proof -
  show "R mw (snd (med_create_screencast env params mw))"
    unfolding med_create_screencast_def Let_def
    by (auto simp: R_refl intro!: and_then_step screencast_step same_windows_screencasts tracked_step)
  show "R mw (snd (med_screencast_buffer env k mw))" unfolding med_screencast_buffer_def by (rule tracked_step)
  show "R mw (snd (med_screencast_to_buffer k b mw))"
    by (auto simp: med_screencast_to_buffer_def R_refl split: option.split sum.split intro!: screencast_step same_windows_capture)
  show "R mw (snd (med_release_screencast k mw))"
    unfolding med_release_screencast_def destroy_screencast_def
    by (auto intro!: and_then_step screencast_step same_windows_screencasts R_mediator simp: remove_tracked_session_def)
qed

lemma other_steps:
  assumes "lock_session mw = Some i \<or> lock_session mw = None"
  shows "R mw (snd (med_start_prompt_session pid mw))" "R mw (snd (med_stop_prompt_session k mw))"
    "R mw (snd (med_new_fds_for_prompt_providers env creds this k n mw))" "R mw (snd (med_pong env mw))"
    "R mw (snd (med_platform_operation env opcode data mw))" "R mw (snd (med_disconnect wmo mw))"
proof -
  show "R mw (snd (med_start_prompt_session pid mw))"
    unfolding med_start_prompt_session_def
    by (intro session_lock_step assms and_then_step shell_step)
       (auto simp: if_prompts_def shell_start_prompt_session_for_def prompt_insert_def Let_def intro!: S_same R_mediator)
  show "R mw (snd (med_stop_prompt_session k mw))"
  proof -
    have fetched: "med_authorization m = med_authorization m0" if "prompt_fetch sh k m0 = (p, m)" for sh :: "'w Shell" and m0 p m
      using that by (auto simp: prompt_fetch_def split: option.splits)
    have stop: "R mw' (snd (on_shell (if_prompts m (\<lambda>sh. (Inr (), shell_stop_prompt_session ps sh))) mw'))" for m ps and mw' :: "'w mediated"
      by (rule shell_step) (auto simp: if_prompts_def shell_stop_prompt_session_def intro!: S_same)
    show ?thesis
      unfolding med_stop_prompt_session_def
      by (intro session_lock_step assms)
         (auto dest!: fetched split: prod.split option.split simp: prompt_remove_def
           intro!: R_trans [OF mediator_step stop] mediator_step)
  qed
  show "R mw (snd (med_new_fds_for_prompt_providers env creds this k n mw))"
    unfolding med_new_fds_for_prompt_providers_def
    by (intro session_lock_step assms) (simp add: R_refl sockets_step)
  show "R mw (snd (med_pong env mw))"
    unfolding med_pong_def by (intro session_lock_step assms shell_step) (simp add: S_anr)
  show "R mw (snd (med_platform_operation env opcode data mw))"
    unfolding med_platform_operation_def by (intro session_lock_step assms) (simp add: R_refl)
  show "R mw (snd (med_disconnect wmo mw))"
    unfolding med_disconnect_def
    by (intro session_lock_step assms and_then_step shell_step S_close destroy_screencasts_step) (auto intro!: R_mediator)
qed

lemma request_step:
  assumes "case req of Connect _ \<Rightarrow> i = sm_next (srv_sessions (snd mw)) | _ \<Rightarrow> lock_session mw = Some i \<or> lock_session mw = None"
  shows "R mw (snd (perform_request wmo env creds this req mw))"
  using assms by (cases req) (simp_all add: connect_step surface_steps stream_steps display_steps screencast_steps other_steps)

end

section \<open>The windows of other clients\<close>

sublocale considerate_window_manager \<subseteq> windows: request_frame wmo i "shell_keeps i" "\<lambda>mw mw'. shell_keeps i (srv_shell (snd mw)) (srv_shell (snd mw'))" for i
proof
  show "shell_keeps i sh (sh\<lparr>sh_sessions := (sh_sessions sh)\<lparr>sm_anr_detector := d\<rparr>\<rparr>)" for sh d
    by (rule shell_keeps_manager) simp_all
  show "shell_keeps i sh (snd (shell_session (\<lambda>sw. (Inr (), f sw)) i sh))"
    if "\<And>s. session_keeps (s, sh_world sh) (f (s, sh_world sh))" for sh f
    using that by (intro shell_keeps_session) simp
  show "shell_keeps i (srv_shell (snd (m, srv))) (srv_shell (snd (m, put_shell sh srv)))"
    if "shell_keeps i (see_prompt_participants (srv_shell srv)) sh" for srv sh m
    using shell_keeps_trans [OF shell_keeps_same that] by (simp add: put_shell_def see_prompt_participants_def Let_def)
  show "shell_keeps i (srv_shell (snd (m, srv))) (srv_shell (snd (m, put_screencasts sx srv)))"
    if "same_windows (w_scene (sh_world (srv_shell srv))) (screencast_scene sx)" for srv m sx
    using world_keeps_scene [OF that] by (simp add: put_screencasts_def map_scene_def shell_keeps_on_world)
qed (auto intro: shell_keeps_same shell_keeps_trans keeps_open keeps_create keeps_destroy keeps_set_attribute keeps_modify keeps_raise keeps_close)

text \<open>The session a request acts for: the client's, or the new one when it connects.\<close>

definition acting_session :: "Request \<Rightarrow> 'w mediated \<Rightarrow> nat" where
  "acting_session req mw =
     (case req of
        Connect _ \<Rightarrow> sm_next (srv_sessions (snd mw))
      | _ \<Rightarrow> (case lock_session mw of Some i \<Rightarrow> i | None \<Rightarrow> sm_next (srv_sessions (snd mw))))"

lemma acting_session_cases:
  "case req of Connect _ \<Rightarrow> acting_session req mw = sm_next (srv_sessions (snd mw))
   | _ \<Rightarrow> lock_session mw = Some (acting_session req mw) \<or> lock_session mw = None"
  by (cases req) (auto simp: acting_session_def split: option.split)


section \<open>Clients without authorisation\<close>

definition focus_actions :: "ServerAction list \<Rightarrow> bool" where
  "focus_actions as \<longleftrightarrow>
     list_all (\<lambda>a. case a of ServerAction.Focus_change _ \<Rightarrow> True | ServerAction.No_focus \<Rightarrow> True | ServerAction.Session_stopping _ \<Rightarrow> True | _ \<Rightarrow> False) as"

text \<open>Nothing but the moves of the focus reaches the display changer.\<close>

definition changer_untouched :: "MediatingDisplayChanger \<Rightarrow> MediatingDisplayChanger \<Rightarrow> bool" where
  "changer_untouched md md' \<longleftrightarrow>
     (\<exists>as. focus_actions as \<and> md' = md\<lparr>session_container := session_container md', alive := alive md', action_queue := action_queue md @ as\<rparr>)"

lemma changer_untouched_refl [simp]: "changer_untouched md md"
  by (auto simp: changer_untouched_def focus_actions_def intro!: exI [of _ "[]"])

lemma changer_untouched_trans: "changer_untouched a b \<Longrightarrow> changer_untouched b c \<Longrightarrow> changer_untouched a c"
  unfolding changer_untouched_def
proof (elim exE conjE)
  fix as bs
  assume "focus_actions as" "focus_actions bs"
    and b: "b = a\<lparr>session_container := session_container b, alive := alive b, action_queue := action_queue a @ as\<rparr>"
    and c: "c = b\<lparr>session_container := session_container c, alive := alive c, action_queue := action_queue b @ bs\<rparr>"
  moreover have "action_queue b = action_queue a @ as" by (subst b) simp
  moreover have "c = a\<lparr>session_container := session_container c, alive := alive c, action_queue := action_queue a @ as @ bs\<rparr>"
    by (subst c, subst (1) b) (simp add: calculation(5))
  ultimately show "\<exists>as. focus_actions as \<and> c = a\<lparr>session_container := session_container c, alive := alive c, action_queue := action_queue a @ as\<rparr>"
    by (intro exI [of _ "as @ bs"]) (simp add: focus_actions_def)
qed

lemma changer_untouched_deliver: "changer_untouched md (fold deliver_call calls md)"
proof (induction calls arbitrary: md)
  case (Cons c calls)
  have "changer_untouched md (md\<lparr>action_queue := action_queue md @ [a]\<rparr>)" if "focus_actions [a]" for a
    unfolding changer_untouched_def by (intro exI [of _ "[a]"]) (use that in simp)
  then have "changer_untouched md (deliver_call c md)"
    by (cases c) (auto simp: focus_changed_def focus_lost_def session_stopping_def enqueue_action_def focus_actions_def)
  then show ?case using Cons changer_untouched_trans by auto
qed simp

lemma changer_untouched_put_shell: "changer_untouched (srv_changer srv) (srv_changer (put_shell sh srv))"
proof -
  have "changer_untouched md (see_sessions m md)" for m md
    unfolding changer_untouched_def see_sessions_def by (intro exI [of _ "[]"]) (simp add: focus_actions_def)
  then show ?thesis
    unfolding put_shell_def Let_def using changer_untouched_trans [OF _ changer_untouched_deliver] by simp
qed

definition without_rights :: "Authorization \<Rightarrow> bool" where
  "without_rights au \<longleftrightarrow>
     \<not> configure_display_is_allowed (auth_changer au) \<and> \<not> set_base_configuration_is_allowed (auth_changer au) \<and> \<not> screencast_is_allowed au"

definition no_influence :: "nat \<Rightarrow> 'w mediated \<Rightarrow> 'w mediated \<Rightarrow> bool" where
  "no_influence i mw mw' \<longleftrightarrow>
     med_authorization (fst mw') = med_authorization (fst mw) \<and>
     (without_rights (med_authorization (fst mw)) \<and> currently_previewing_session (srv_changer (snd mw)) \<noteq> Some i \<longrightarrow>
        changer_untouched (srv_changer (snd mw)) (srv_changer (snd mw')) \<and> srv_screencasts (snd mw') = srv_screencasts (snd mw))"

lemma untouched_preview: "changer_untouched md md' \<Longrightarrow> currently_previewing_session md' = currently_previewing_session md"
  unfolding changer_untouched_def by (elim exE conjE, erule ssubst) simp

lemma unauthorized_changer:
  assumes "changer_operation (auth_changer au) i md md'" "without_rights au" "currently_previewing_session md \<noteq> Some i"
  shows "md' = md"
  using assms
  by (auto elim!: changer_operation.cases simp: without_rights_def auth_configure_def auth_remove_session_configuration_def
      auth_set_base_configuration_def auth_preview_base_configuration_def auth_confirm_base_configuration_def
      auth_cancel_base_configuration_preview_def cancel_base_configuration_preview_def split: option.splits)

interpretation unauthorized: request_frame wmo i "\<lambda>_ _. True" "no_influence i" for wmo i
proof
  show "no_influence i a c" if "no_influence i a b" "no_influence i b c" for a b c :: "'a mediated"
    using that by (auto simp: no_influence_def untouched_preview intro: changer_untouched_trans)
  show "no_influence i (m, srv) (m, srv\<lparr>srv_changer := md\<rparr>)"
    if "changer_operation (auth_changer (med_authorization m)) i (srv_changer srv) md" for m and srv :: "'a Server" and md
    using unauthorized_changer [OF that] by (auto simp: no_influence_def)
  show "no_influence i (m, srv) (m, put_shell sh srv)" for m and srv :: "'a Server" and sh
    using changer_untouched_put_shell [of srv sh] by (auto simp: no_influence_def put_shell_def Let_def)
qed (auto simp: no_influence_def put_screencasts_def without_rights_def)

text \<open>
  C3: A client that may neither change displays nor capture screencasts has no influence on either: none of its requests changes a screencast, a configuration, a preview or what is on the
  display, whatever the window manager does.  All that it can cause is that the focus moves or that its session stops.
\<close>

theorem unauthorized_clients_have_no_influence:
  assumes "perform_request wmo env creds this req (m, srv) = (r, (m', srv'))" "without_rights (med_authorization m)"
    and "currently_previewing_session (srv_changer srv) \<noteq> Some (acting_session req (m, srv))"
  shows "srv_screencasts srv' = srv_screencasts srv \<and>
         display_conf (srv_changer srv') = display_conf (srv_changer srv) \<and>
         config_map (srv_changer srv') = config_map (srv_changer srv) \<and>
         base_configuration (srv_changer srv') = base_configuration (srv_changer srv) \<and>
         preview_configuration_timeout (srv_changer srv') = preview_configuration_timeout (srv_changer srv) \<and>
         (\<exists>as. focus_actions as \<and> action_queue (srv_changer srv') = action_queue (srv_changer srv) @ as)"
proof -
  have "no_influence (acting_session req (m, srv)) (m, srv) (m', srv')"
    using unauthorized.request_step [where wmo = wmo and req = req and mw = "(m, srv)", OF acting_session_cases, of env creds this] by (simp add: assms(1))
  then have q: "changer_untouched (srv_changer srv) (srv_changer srv')" and x: "srv_screencasts srv' = srv_screencasts srv"
    using assms(2,3) by (simp_all add: no_influence_def)
  from q obtain as where as: "focus_actions as" and md: "srv_changer srv' = (srv_changer srv)\<lparr>session_container := session_container (srv_changer srv'),
      alive := alive (srv_changer srv'), action_queue := action_queue (srv_changer srv) @ as\<rparr>" by (auto simp: changer_untouched_def)
  have "display_conf (srv_changer srv') = display_conf (srv_changer srv)" "config_map (srv_changer srv') = config_map (srv_changer srv)"
    "base_configuration (srv_changer srv') = base_configuration (srv_changer srv)"
    "preview_configuration_timeout (srv_changer srv') = preview_configuration_timeout (srv_changer srv)"
    "action_queue (srv_changer srv') = action_queue (srv_changer srv) @ as"
    by (subst md, simp)+
  with x as show ?thesis by auto
qed

section \<open>Examples\<close>

definition sample_env :: ServerEnv where
  "sample_env =
     \<lparr>env_now = 0, env_drop_timeout = 100, env_addr = id, env_uuid = sample_uuids, env_generated = 0, env_hmac = toy_hmac,
      env_sink_add = (\<lambda>_. None), env_allocate = (\<lambda>_. Inl (runtime_error ''no memory'')), env_screencast_buffers = [],
      env_unpack = (\<lambda>_. None), env_pack = (\<lambda>_ _. None), env_cursor_image = (\<lambda>_. 0), env_client_fd = (\<lambda>c. Inr (int c)),
      env_platform_operation = (\<lambda>_ _. Inr []), env_translation_supported = False\<rparr>"

definition no_rights :: Authorization where
  "no_rights = \<lparr>auth_changer = \<lparr>configure_display_is_allowed = False, set_base_configuration_is_allowed = False\<rparr>,
     screencast_is_allowed = False, prompt_session_is_allowed = False\<rparr>"

definition sample_mediator :: "nat option \<Rightarrow> SessionMediator" where
  "sample_mediator session = (make_ipc_server no_rights None)\<lparr>weak_session := session\<rparr>"

definition sample_server :: "SystemCompositor Server" where
  "sample_server =
     \<lparr>srv_shell = sample_shell (Some 0), srv_store = new_SurfaceIdBimap,
      srv_changer = new_MediatingDisplayChanger \<lparr>cards = [], outputs = []\<rparr> [0, 1] {0, 1},
      srv_screencasts = \<lparr>session_contexts = [], screencast_scene = w_scene two_windows, next_context = 0\<rparr>,
      srv_clients = (\<lambda>_. None), srv_next_client = 0\<rparr>"

abbreviation asked :: "Request \<Rightarrow> SystemCompositor Server" where
  "asked req \<equiv> snd (snd (perform_request SystemCompositorWindowManager sample_env no_rights 0 req (sample_mediator (Some 0), sample_server)))"

lemma sample_acting: "acting_session Disconnect (sample_mediator (Some 0), sample_server) = 0"
  by (simp add: acting_session_def lock_session_def sample_mediator_def sample_server_def shell_eval)


theorem unauthorized_clients_have_no_influence_witness:
  "srv_screencasts (asked (Create_screencast \<lparr>xp_region = empty_rectangle, xp_size = mk_size 1 1, xp_pixel_format = 1, xp_num_buffers = None\<rparr>)) =
   srv_screencasts sample_server"
  (is "srv_screencasts (asked ?req) = _")
proof -
  obtain r m' srv' where q: "perform_request SystemCompositorWindowManager sample_env no_rights 0 ?req
    (sample_mediator (Some 0), sample_server) = (r, (m', srv'))" by (metis surj_pair)
  show ?thesis
    using unauthorized_clients_have_no_influence [OF q] unfolding q
    by (simp add: without_rights_def no_rights_def sample_mediator_def make_ipc_server_def sample_server_def new_MediatingDisplayChanger_def update_input_rectangles_def)
qed

end
