(* ===== verification/Message_Framing.thy ===== *)
theory Message_Framing
  imports Cookie "HOL-Library.Sublist"
begin

text \<open>
  Messages on a socket (\<^verbatim>\<open>src/server/frontend/socket_messenger.cpp\<close>, \<^verbatim>\<open>socket_connection.cpp\<close>, \<^verbatim>\<open>reordering_message_sender.cpp\<close>,
  \<^verbatim>\<open>src/client/rpc/mir_protobuf_rpc_channel.cpp\<close>).  A message goes out as two bytes that hold its length, then its bytes.  The socket
  is the list of bytes that have arrived; a reader that needs more waits, which is \<open>None\<close>.  File descriptors travel beside the bytes
  and are left out.

  The lemmas show that messages below 64 KiB come out as they went in however the stream is cut up, that longer ones do not,
  and that a sender which is corked and uncorked keeps the order.
\<close>

section \<open>Sending\<close>

definition header_bytes :: "nat \<Rightarrow> byte list" where
  "header_bytes len = [word_of_nat (drop_bit 8 len AND 255), word_of_nat (drop_bit 0 len AND 255)]"

text \<open>\<open>SocketMessenger::send\<close> of the server and \<open>MirProtobufRpcChannel::send_message\<close> of the client write the same bytes.\<close>

definition messenger_send :: "byte list \<Rightarrow> byte list" where
  "messenger_send data = header_bytes (length data) @ data"

definition send_message :: "byte list \<Rightarrow> byte list" where
  "send_message body = (let sz = length body in header_bytes sz @ body)"

section \<open>Receiving\<close>

definition body_size :: "byte \<Rightarrow> byte \<Rightarrow> nat" where
  "body_size high_byte low_byte = push_bit 8 (unat high_byte) + unat low_byte"

text \<open>\<open>on_read_size\<close> with the body that follows.\<close>

fun read_next_message :: "byte list \<Rightarrow> (byte list \<times> byte list) option" where
  "read_next_message (h # l # bytes) =
     (if body_size h l \<le> length bytes then Some (take (body_size h l) bytes, drop (body_size h l) bytes) else None)"
| "read_next_message _ = None"

text \<open>The client reads the size as a big-endian number of 16 bits (\<open>be16toh\<close>).\<close>

definition be16toh :: "byte \<Rightarrow> byte \<Rightarrow> 16 word" where
  "be16toh h l = push_bit 8 (ucast h) OR ucast l"

fun on_data_available :: "byte list \<Rightarrow> (byte list \<times> byte list) option" where
  "on_data_available (h # l # bytes) =
     (let message_size = unat (be16toh h l)
      in if message_size \<le> length bytes then Some (take message_size bytes, drop message_size bytes) else None)"
| "on_data_available _ = None"

lemma read_shorter: "read_next_message bytes = Some (m, rest) \<Longrightarrow> length rest < length bytes"
  by (induction bytes rule: read_next_message.induct) (auto split: if_splits)

function read_messages :: "byte list \<Rightarrow> byte list list \<times> byte list" where
  "read_messages bytes =
     (case read_next_message bytes of
        None \<Rightarrow> ([], bytes)
      | Some (m, rest) \<Rightarrow> (case read_messages rest of (ms, left) \<Rightarrow> (m # ms, left)))"
  by auto
termination by (relation "measure length") (auto dest: read_shorter)

declare read_messages.simps [simp del]

section \<open>Messages come out as they went in\<close>

lemma unat_byte: "unat (word_of_nat n :: byte) = n mod 256"
  by (simp add: unat_of_nat)

lemma and_255: "n AND 255 = n mod 256" for n :: nat
  using take_bit_eq_mask [of 8 n] by (simp add: take_bit_eq_mod mask_eq_exp_minus_1)

lemma header_length [simp]: "length (header_bytes n) = 2"
  by (simp add: header_bytes_def)

lemma header_size: "body_size (header_bytes n ! 0) (header_bytes n ! 1) = n mod 65536"
proof -
  have "n mod 65536 = 256 * (n div 256 mod 256) + n mod 256" using mod_mult2_eq [of n 256 256] by simp
  then show ?thesis by (simp add: header_bytes_def body_size_def push_bit_eq_mult unat_byte and_255 drop_bit_eq_div)
qed

lemma be16toh_size: "unat (be16toh h l) = body_size h l"
proof -
  have h: "unat h < 256" "unat l < 256" using unsigned_less [of h] unsigned_less [of l] by simp_all
  have "be16toh h l = push_bit 8 (ucast h) + ucast l"
  proof -
    have "push_bit 8 (ucast h :: 16 word) AND ucast l = 0"
      by (rule bit_word_eqI) (auto simp: bit_simps dest: bit_imp_le_length)
    then show ?thesis unfolding be16toh_def by (simp add: disjunctive_add_eq_or)
  qed
  also have "unat \<dots> = body_size h l"
    using h by (simp add: body_size_def unat_word_ariths push_bit_eq_mult unsigned_ucast_eq take_bit_eq_mod unsigned_push_bit_eq)
  finally show ?thesis .
qed

text \<open>So both ends read alike.\<close>

lemma client_reads_alike: "on_data_available = read_next_message"
proof
  show "on_data_available bytes = read_next_message bytes" for bytes
    by (cases bytes rule: read_next_message.cases) (simp_all add: be16toh_size Let_def)
qed

lemma read_sent:
  assumes "length m < 65536"
  shows "read_next_message (messenger_send m @ rest) = Some (m, rest)"
proof -
  obtain h l where hl: "header_bytes (length m) = [h, l]" by (simp add: header_bytes_def)
  then show ?thesis using header_size [of "length m"] assms by (simp add: messenger_send_def)
qed

text \<open>A message of 64 KiB or more loses its end to the next one.\<close>

lemma long_messages_are_torn:
  assumes "65536 \<le> length m"
  shows "\<exists>m' rest. read_next_message (messenger_send m) = Some (m', rest) \<and> m' = take (length m mod 65536) m \<and> m' \<noteq> m"
proof -
  obtain h l where hl: "header_bytes (length m) = [h, l]" by (simp add: header_bytes_def)
  have "length m mod 65536 < length m" using assms by (meson le_trans less_le_trans mod_less_divisor zero_less_numeral)
  moreover from this have "take (length m mod 65536) m \<noteq> m" by (metis length_take min.absorb4 nat_neq_iff)
  ultimately show ?thesis using header_size [of "length m"] hl by (simp add: messenger_send_def)
qed

lemma read_append:
  "read_next_message xs = Some (m, rest) \<Longrightarrow> read_next_message (xs @ ys) = Some (m, rest @ ys)"
  by (induction xs rule: read_next_message.induct) (auto split: if_splits)

lemma read_messages_append: "prefix (fst (read_messages xs)) (fst (read_messages (xs @ ys)))"
proof (induction xs rule: read_messages.induct)
  case (1 xs)
  show ?case
  proof (cases "read_next_message xs")
    case (Some mr)
    obtain m rest where mr: "mr = (m, rest)" by fastforce
    note r = Some [unfolded mr]
    show ?thesis using 1 [OF Some mr [symmetric]] read_append [OF r, of ys] r
      by (simp add: read_messages.simps [of xs] read_messages.simps [of "xs @ ys"] case_prod_unfold)
  qed (simp add: read_messages.simps [of xs])
qed

lemma read_all_sent:
  "list_all (\<lambda>m. length m < 65536) ms \<Longrightarrow> read_messages (concat (map messenger_send ms)) = (ms, [])"
  by (induction ms) (simp_all add: read_messages.simps [of "[]"] read_messages.simps [of "messenger_send _ @ _"] read_sent)

text \<open>
  C10: However the socket cuts the stream up, a reader gets the messages that were sent, in order, none torn, merged or lost, as
  long as each is shorter than 64 KiB: from any part of the stream that has arrived it reads the first few of them, and from all of it all.
\<close>

theorem messages_survive_the_stream:
  assumes "concat (map messenger_send ms) = arrived @ underway" "list_all (\<lambda>m. length m < 65536) ms"
  shows "prefix (fst (read_messages arrived)) ms \<and> (underway = [] \<longrightarrow> read_messages arrived = (ms, []))"
  using read_messages_append [of arrived underway] read_all_sent [OF assms(2)] assms(1) by auto

section \<open>Corking\<close>

text \<open>
  \<open>create_surface\<close> corks the sender of the new surface's events until the reply is out.  \<open>sink\<close> holds what has been sent.  \<open>uncork\<close> opens the
  sender under the lock and sends what is buffered after it has let the lock go: the two halves are steps of their own.
\<close>

record ReorderingMessageSender =
  corked :: bool
  buffered_messages :: "byte list list"
  sink :: "byte list list"

definition new_ReorderingMessageSender :: "byte list list \<Rightarrow> ReorderingMessageSender" where
  "new_ReorderingMessageSender sent = \<lparr>corked = True, buffered_messages = [], sink = sent\<rparr>"

definition reordering_send :: "byte list \<Rightarrow> ReorderingMessageSender \<Rightarrow> ReorderingMessageSender" where
  "reordering_send m s =
     (if corked s then s\<lparr>buffered_messages := buffered_messages s @ [m]\<rparr> else s\<lparr>sink := sink s @ [m]\<rparr>)"

definition uncork_open :: "ReorderingMessageSender \<Rightarrow> ReorderingMessageSender" where
  "uncork_open s = s\<lparr>corked := False\<rparr>"

definition uncork_flush :: "ReorderingMessageSender \<Rightarrow> ReorderingMessageSender" where
  "uncork_flush s = s\<lparr>sink := sink s @ buffered_messages s, buffered_messages := []\<rparr>"

definition uncork :: "ReorderingMessageSender \<Rightarrow> ReorderingMessageSender" where
  "uncork s = uncork_flush (uncork_open s)"

lemma sends_corked: "corked s \<Longrightarrow> fold reordering_send ms s = s\<lparr>buffered_messages := buffered_messages s @ ms\<rparr>"
  by (induction ms arbitrary: s) (simp_all add: reordering_send_def)

lemma sends_uncorked: "\<not> corked s \<Longrightarrow> fold reordering_send ms s = s\<lparr>sink := sink s @ ms\<rparr>"
  by (induction ms arbitrary: s) (simp_all add: reordering_send_def)

lemma corking_keeps_order:
  "sink (fold reordering_send after (uncork (fold reordering_send before (new_ReorderingMessageSender sent)))) = sent @ before @ after"
  by (simp add: new_ReorderingMessageSender_def sends_corked sends_uncorked uncork_def uncork_flush_def uncork_open_def)

text \<open>A message sent by another thread between the two halves overtakes the buffered ones.\<close>

lemma uncork_lets_overtake:
  "sink (uncork_flush (reordering_send late (uncork_open (fold reordering_send before (new_ReorderingMessageSender sent))))) = sent @ [late] @ before"
  by (simp add: new_ReorderingMessageSender_def sends_corked reordering_send_def uncork_flush_def uncork_open_def)

section \<open>Examples\<close>

theorem messages_survive_the_stream_witness:
  "prefix (fst (read_messages [0, 2, 7, 8, 0, 1])) [[7, 8], [9 :: byte]]"
proof -
  have "concat (map messenger_send [[7, 8], [9 :: byte]]) = [0, 2, 7, 8, 0, 1] @ [9]"
    by (simp add: messenger_send_def header_bytes_def and_255 drop_bit_eq_div)
  then show ?thesis using messages_survive_the_stream [of "[[7, 8], [9 :: byte]]" "[0, 2, 7, 8, 0, 1]" "[9]"] by simp
qed

end
