(* ===== verification/Message_Processor.thy ===== *)
theory Message_Processor
  imports Client_Requests Message_Framing
begin

text \<open>
  From bytes to requests and back (\<^verbatim>\<open>src/server/frontend/socket_connection.cpp\<close>, \<^verbatim>\<open>protobuf_message_processor.cpp\<close>,
  \<^verbatim>\<open>template_protobuf_message_processor.h\<close>, \<^verbatim>\<open>protobuf_responder.cpp\<close>).  What the generated protobuf code reads from the bytes of an invocation and of its
  parameters, and what boost prints of an exception, is the record \<open>Wire\<close>; the file descriptors of a
  request come with its parameters.  The responses are the list of those sent, each with the number of the
  invocation it answers.  Sending does not fail.

  The lemmas say which requests are answered, and what a client without a session and a closed connection
  leave behind.
\<close>

section \<open>Dispatching an invocation\<close>

record Invocation =
  inv_id :: nat
  inv_method_name :: string
  inv_parameters :: "byte list"
  inv_protocol_version :: "int option"
  inv_side_channel_fds :: int

record Wire =
  parse_invocation :: "byte list \<Rightarrow> Invocation"
  parse_parameters :: "string \<Rightarrow> byte list \<Rightarrow> Request option"
  receive_fds :: "int \<Rightarrow> exn option"
  diagnostic_information :: "exn \<Rightarrow> string"

datatype Response = Result Reply | Error_text string | Structured_error string

fun method_name :: "Request \<Rightarrow> string" where
  "method_name (Connect _) = ''connect''"
| "method_name (Create_surface _) = ''create_surface''"
| "method_name (Submit_buffer _ _) = ''submit_buffer''"
| "method_name (Allocate_buffers _ _) = ''allocate_buffers''"
| "method_name (Release_buffers _ _) = ''release_buffers''"
| "method_name (Release_surface _) = ''release_surface''"
| "method_name (Platform_operation _ _) = ''platform_operation''"
| "method_name (Configure_display _) = ''configure_display''"
| "method_name Remove_session_configuration = ''remove_session_configuration''"
| "method_name (Set_base_display_configuration _) = ''set_base_display_configuration''"
| "method_name (Configure_surface _ _ _) = ''configure_surface''"
| "method_name (Modify_surface _ _) = ''modify_surface''"
| "method_name (Create_screencast _) = ''create_screencast''"
| "method_name (Screencast_buffer _) = ''screencast_buffer''"
| "method_name (Screencast_to_buffer _ _) = ''screencast_to_buffer''"
| "method_name (Release_screencast _) = ''release_screencast''"
| "method_name (Create_buffer_stream _ _) = ''create_buffer_stream''"
| "method_name (Release_buffer_stream _) = ''release_buffer_stream''"
| "method_name (Configure_cursor _ _) = ''configure_cursor''"
| "method_name (New_fds_for_prompt_providers _ _) = ''new_fds_for_prompt_providers''"
| "method_name (Start_prompt_session _) = ''start_prompt_session''"
| "method_name (Stop_prompt_session _) = ''stop_prompt_session''"
| "method_name Disconnect = ''disconnect''"
| "method_name Pong = ''pong''"
| "method_name (Configure_buffer_stream _ _) = ''configure_buffer_stream''"
| "method_name (Raise_surface _ _) = ''raise_surface''"
| "method_name (Translate_surface_to_screen _ _ _) = ''translate_surface_to_screen''"
| "method_name (Request_persistent_surface_id _) = ''request_persistent_surface_id''"
| "method_name (Preview_base_display_configuration _ _) = ''preview_base_display_configuration''"
| "method_name (Confirm_base_display_configuration _) = ''confirm_base_display_configuration''"
| "method_name Cancel_base_display_configuration_preview = ''cancel_base_display_configuration_preview''"

definition method_names :: "string list" where
  "method_names =
     [''connect'', ''create_surface'', ''submit_buffer'', ''allocate_buffers'', ''release_buffers'', ''release_surface'',
      ''platform_operation'', ''configure_display'', ''remove_session_configuration'', ''set_base_display_configuration'',
      ''configure_surface'', ''modify_surface'', ''create_screencast'', ''screencast_buffer'', ''screencast_to_buffer'',
      ''release_screencast'', ''create_buffer_stream'', ''release_buffer_stream'', ''configure_cursor'',
      ''new_fds_for_prompt_providers'', ''start_prompt_session'', ''stop_prompt_session'', ''disconnect'', ''pong'',
      ''configure_buffer_stream'', ''raise_surface'', ''translate_surface_to_screen'', ''request_persistent_surface_id'',
      ''preview_base_display_configuration'', ''confirm_base_display_configuration'', ''cancel_base_display_configuration_preview'']"

text \<open>The two requests that go through the \<open>invoke\<close> of \<^verbatim>\<open>protobuf_message_processor.cpp\<close>, which may answer later.\<close>

definition answers_later :: "string \<Rightarrow> bool" where
  "answers_later name \<longleftrightarrow> name = ''submit_buffer'' \<or> name = ''platform_operation''"

definition error_text :: "(exn \<Rightarrow> string) \<Rightarrow> exn \<Rightarrow> string" where
  "error_text diagnostics x = ''Error processing request: '' @ what x @ [CHR 0x0A] @ ''Internal error details: '' @ diagnostics x"

text \<open>
  What \<open>invoke\<close> sends when the server is done, and whether it throws itself.  On an error that the client is to see, the version for
  later answers fills in the message but does not send it.
\<close>

fun invoke :: "(exn \<Rightarrow> string) \<Rightarrow> bool \<Rightarrow> exn + Reply \<Rightarrow> exn + Response list" where
  "invoke diagnostics later (Inr reply) = Inr [Result reply]"
| "invoke diagnostics later (Inl (fatal_error s)) = Inl (fatal_error s)"
| "invoke diagnostics later (Inl security_check_error) = Inl security_check_error"
| "invoke diagnostics later (Inl (client_visible_error s)) = Inr (if later then [] else [Structured_error s])"
| "invoke diagnostics later (Inl x) = Inr [Error_text (error_text diagnostics x)]"

definition is_fatal :: "exn \<Rightarrow> bool" where
  "is_fatal x \<longleftrightarrow> (\<exists>s. x = fatal_error s)"

lemma is_fatal_code [code, simp]: "is_fatal x = (case x of fatal_error _ \<Rightarrow> True | _ \<Rightarrow> False)"
  by (cases x) (simp_all add: is_fatal_def)

text \<open>Whether to go on reading, and the responses.  A fatal error ends the server and is the only error that is left.\<close>

definition dispatch ::
  "'w WindowManagerOps \<Rightarrow> ServerEnv \<Rightarrow> Authorization \<Rightarrow> nat \<Rightarrow> Wire \<Rightarrow> Invocation \<Rightarrow> 'w mediated \<Rightarrow> ('w mediated, bool \<times> (nat \<times> Response) list) outcome" where
  "dispatch wmo env creds this wire invocation mw =
     (let name = inv_method_name invocation
      in if name \<notin> set method_names then (Inr (False, []), mw)
         else case parse_parameters wire name (inv_parameters invocation) of
                None \<Rightarrow>
                  (if name = ''translate_surface_to_screen''
                   then (Inr (True, [(inv_id invocation, Error_text ''Server does not support the client debugging interface'')]), mw)
                   else (Inr (False, []), mw))
              | Some request \<Rightarrow>
                  (case perform_request wmo env creds this request mw of
                     (r, mw) \<Rightarrow>
                       (case invoke (diagnostic_information wire) (answers_later name) r of
                          Inl x \<Rightarrow> (if is_fatal x then Inl x else Inr (False, []), mw)
                        | Inr responses \<Rightarrow> (Inr (name \<noteq> ''disconnect'', map (Pair (inv_id invocation)) responses), mw))))"

section \<open>The connection\<close>

text \<open>\<open>conn_pid\<close> is \<open>0\<close> until the credentials have been read.  Taking the connection out of \<open>Connections\<close> destroys it and its mediator.\<close>

record 'w SocketConnection =
  conn_open :: bool
  conn_pid :: int
  conn_sent :: "(nat \<times> Response) list"
  conn_mediated :: "'w mediated"

definition remove_connection :: "'w WindowManagerOps \<Rightarrow> 'w SocketConnection \<Rightarrow> ('w SocketConnection, unit) outcome" where
  "remove_connection wmo c =
     (case delete_SessionMediator wmo (conn_mediated c) of
        (Inl _, mw) \<Rightarrow> (Inl (fatal_error ''std::terminate''), c\<lparr>conn_open := False, conn_mediated := mw\<rparr>)
      | (Inr _, mw) \<Rightarrow> (Inr (), c\<lparr>conn_open := False, conn_mediated := mw\<rparr>))"

definition mir_version_number :: "int \<Rightarrow> int \<Rightarrow> int \<Rightarrow> int" where
  "mir_version_number major minor micro = push_bit 22 major + push_bit 12 minor + micro"

definition current_protocol_version :: int where
  "current_protocol_version = mir_version_number 0 4 0"

definition oldest_compatible_protocol_version :: int where
  "oldest_compatible_protocol_version = mir_version_number 0 4 0"

definition next_incompatible_protocol_version :: int where
  "next_incompatible_protocol_version = current_protocol_version + mir_version_number 0 0 1"

definition rejected :: "'w WindowManagerOps \<Rightarrow> exn \<Rightarrow> 'w SocketConnection \<Rightarrow> ('w SocketConnection, unit) outcome" where
  "rejected wmo e c = and_then (remove_connection wmo c) (\<lambda>_ c. (Inl e, c))"

definition set_client_pid :: "int \<Rightarrow> 'w SocketConnection \<Rightarrow> 'w SocketConnection" where
  "set_client_pid pid c =
     (if conn_pid c \<noteq> 0 then c
      else c\<lparr>conn_pid := pid, conn_mediated := apfst (\<lambda>m. m\<lparr>client_pid := pid\<rparr>) (conn_mediated c)\<rparr>)"

definition on_new_message ::
  "'w WindowManagerOps \<Rightarrow> ServerEnv \<Rightarrow> Authorization \<Rightarrow> nat \<Rightarrow> Wire \<Rightarrow> int \<Rightarrow> byte list + string \<Rightarrow> 'w SocketConnection \<Rightarrow> ('w SocketConnection, unit) outcome" where
  "on_new_message wmo env creds this wire pid received c =
     (case received of
        Inr message \<Rightarrow> rejected wmo (runtime_error message) c
      | Inl body \<Rightarrow>
          (let invocation = parse_invocation wire body;
               v = (case inv_protocol_version invocation of Some n \<Rightarrow> n | None \<Rightarrow> - 1)
           in if v < oldest_compatible_protocol_version \<or> v \<ge> next_incompatible_protocol_version
              then rejected wmo (runtime_error ''Unsupported protocol version'') c
              else case (if inv_side_channel_fds invocation > 0 then receive_fds wire (inv_side_channel_fds invocation) else None) of
                     Some e \<Rightarrow> rejected wmo e c
                   | None \<Rightarrow>
                       let c = set_client_pid pid c
                       in case dispatch wmo env creds this wire invocation (conn_mediated c) of
                            (Inl e, mw) \<Rightarrow> (Inl e, c\<lparr>conn_mediated := mw\<rparr>)
                          | (Inr (go_on, responses), mw) \<Rightarrow>
                              let c = c\<lparr>conn_mediated := mw, conn_sent := conn_sent c @ responses\<rparr>
                              in if go_on then (Inr (), c) else remove_connection wmo c))"

text \<open>The messages of a connection, until one closes it.\<close>

fun serve ::
  "'w WindowManagerOps \<Rightarrow> ServerEnv \<Rightarrow> Authorization \<Rightarrow> nat \<Rightarrow> Wire \<Rightarrow> int \<Rightarrow> byte list list \<Rightarrow> 'w SocketConnection \<Rightarrow> ('w SocketConnection, unit) outcome" where
  "serve wmo env creds this wire pid [] c = (Inr (), c)"
| "serve wmo env creds this wire pid (body # bodies) c =
     and_then (on_new_message wmo env creds this wire pid (Inl body) c) (\<lambda>_ c.
       if conn_open c then serve wmo env creds this wire pid bodies c else (Inr (), c))"

section \<open>Clients without a session\<close>

definition needs_session :: "Request \<Rightarrow> bool" where
  "needs_session req =
     (case req of
        Connect _ \<Rightarrow> False | Create_screencast _ \<Rightarrow> False | Screencast_buffer _ \<Rightarrow> False
      | Screencast_to_buffer _ _ \<Rightarrow> False | Release_screencast _ \<Rightarrow> False | _ \<Rightarrow> True)"

lemma method_name_listed: "method_name req \<in> set method_names"
  by (cases req) (simp_all add: method_names_def)

lemmas session_guards = med_create_surface_def med_submit_buffer_def med_allocate_buffers_def med_release_buffers_def med_release_surface_def
  med_platform_operation_def med_configure_display_def med_remove_session_configuration_def med_set_base_display_configuration_def
  med_configure_surface_def med_modify_surface_def med_create_buffer_stream_def med_release_buffer_stream_def med_configure_cursor_def
  med_new_fds_for_prompt_providers_def med_start_prompt_session_def med_stop_prompt_session_def med_disconnect_def med_pong_def
  med_configure_buffer_stream_def med_raise_surface_def med_translate_surface_to_screen_def med_request_persistent_surface_id_def
  med_preview_base_display_configuration_def med_confirm_base_display_configuration_def med_cancel_base_display_configuration_preview_def

lemma no_session: "lock_session mw = None \<Longrightarrow> with_session f mw = (Inl (logic_error ''Invalid application session''), mw)"
  by (simp add: with_session_def)

lemma refused_without_session:
  assumes "needs_session req" "lock_session mw = None"
  shows "perform_request wmo env creds this req mw = (Inl (logic_error ''Invalid application session''), mw)"
  using assms(1) by (cases req) (simp_all add: needs_session_def session_guards no_session [OF assms(2)])

text \<open>
  C7: A client that has not connected, or whose session has been closed, can do nothing but connect or ask for screencasts: every other request changes nothing and is answered by
  exactly one message, the error that its session is invalid; the connection stays open unless it was to be closed.
\<close>

theorem requests_need_a_session:
  assumes "inv_method_name invocation = method_name req" "parse_parameters wire (method_name req) (inv_parameters invocation) = Some req"
    and "needs_session req" "lock_session mw = None"
  shows "dispatch wmo env creds this wire invocation mw =
    (Inr (req \<noteq> Disconnect,
          [(inv_id invocation, Error_text (error_text (diagnostic_information wire) (logic_error ''Invalid application session'')))]), mw)"
proof -
  have "method_name req = ''disconnect'' \<longleftrightarrow> req = Disconnect" by (cases req) simp_all
  then show ?thesis
    using assms method_name_listed [of req] refused_without_session [OF assms(3,4), of wmo env creds this]
    by (simp add: dispatch_def Let_def)
qed

section \<open>Requests are answered\<close>

definition answers :: "Wire \<Rightarrow> byte list \<Rightarrow> (nat \<times> Response) list \<Rightarrow> bool" where
  "answers wire body ps \<longleftrightarrow>
     map fst ps = [inv_id (parse_invocation wire body)] \<or>
     answers_later (inv_method_name (parse_invocation wire body)) \<and> ps = []"

lemma invoke_answers: "invoke diagnostics later r = Inr responses \<Longrightarrow> length responses = 1 \<or> later \<and> responses = []"
  by (cases "(diagnostics, later, r)" rule: invoke.cases) (auto split: if_splits)

lemma dispatch_answers:
  assumes "dispatch wmo env creds this wire invocation mw = (Inr (True, ps), mw')"
  shows "map fst ps = [inv_id invocation] \<or> answers_later (inv_method_name invocation) \<and> ps = []"
proof -
  have "map fst (map (Pair k) responses) = [k] \<or> later \<and> responses = []"
    if "invoke diagnostics later r = Inr responses" for k :: nat and diagnostics later r responses
    using invoke_answers [OF that] by (auto simp: length_Suc_conv)
  with assms show ?thesis
    by (fastforce simp: dispatch_def Let_def split: if_splits option.splits prod.splits sum.splits)
qed

lemma removed_closes: "remove_connection wmo c = (r, c') \<Longrightarrow> \<not> conn_open c'"
  by (auto simp: remove_connection_def split: prod.splits sum.splits)

lemma rejected_closes: "rejected wmo e c = (r, c') \<Longrightarrow> \<not> conn_open c'"
  by (auto simp: rejected_def and_then_def split: prod.splits sum.splits dest: removed_closes)

lemma set_client_pid_sent [simp]: "conn_sent (set_client_pid pid c) = conn_sent c"
  by (simp add: set_client_pid_def)

lemma message_answered:
  assumes "on_new_message wmo env creds this wire pid (Inl body) c = (Inr (), c')" "conn_open c'"
  shows "\<exists>ps. conn_sent c' = conn_sent c @ ps \<and> answers wire body ps"
proof -
  let ?inv = "parse_invocation wire body" and ?c = "set_client_pid pid c"
  have "\<exists>ps mw. dispatch wmo env creds this wire ?inv (conn_mediated ?c) = (Inr (True, ps), mw) \<and> conn_sent c' = conn_sent c @ ps"
    using assms
    by (auto simp: on_new_message_def Let_def dest: removed_closes rejected_closes split: if_splits option.splits prod.splits sum.splits)
  then show ?thesis using dispatch_answers unfolding answers_def by blast
qed

lemma serve_answers:
  assumes "serve wmo env creds this wire pid bodies c = (Inr (), c')" "conn_open c'"
  shows "\<exists>pss. conn_sent c' = conn_sent c @ concat pss \<and> list_all2 (answers wire) bodies pss"
  using assms
proof (induction bodies arbitrary: c)
  case (Cons body bodies)
  obtain r c1 where m: "on_new_message wmo env creds this wire pid (Inl body) c = (r, c1)" by fastforce
  with Cons.prems have r: "r = Inr ()" "conn_open c1" "serve wmo env creds this wire pid bodies c1 = (Inr (), c')"
    by (cases r; auto split: if_splits)+
  from message_answered [OF m [unfolded r(1)] r(2)] Cons.IH [OF r(3) Cons.prems(2)]
  obtain ps pss where "conn_sent c1 = conn_sent c @ ps" "answers wire body ps"
    "conn_sent c' = conn_sent c1 @ concat pss" "list_all2 (answers wire) bodies pss" by blast
  then show ?case by (intro exI [of _ "ps # pss"]) simp
qed simp

text \<open>
  C5: As long as a connection stays open, every message a client sent on it has been answered by exactly one response with its number, and the responses
  are in the order of the messages; only a submitted buffer or a platform operation may go unanswered.
\<close>

theorem open_connections_answer_every_request:
  assumes "serve wmo env creds this wire pid bodies c = (Inr (), c')" "conn_open c'"
  shows "\<exists>pss. conn_sent c' = conn_sent c @ concat pss \<and> list_all2 (answers wire) bodies pss"
  by (rule serve_answers [OF assms])

text \<open>An error that the client is to see does not reach it when the platform throws it: the message is filled in and dropped.\<close>

lemma structured_error_not_sent:
  assumes "inv_method_name invocation = ''platform_operation''"
    and "parse_parameters wire ''platform_operation'' (inv_parameters invocation) = Some (Platform_operation opcode data)"
    and "lock_session mw = Some i" "env_platform_operation env opcode data = Inl (client_visible_error s)"
  shows "dispatch wmo env creds this wire invocation mw = (Inr (True, []), mw)"
  using assms by (simp add: dispatch_def med_platform_operation_def with_session_def answers_later_def method_names_def)

text \<open>A client that asks for a screencast into a buffer before it connects ends the server.\<close>

lemma screencast_to_buffer_unchecked:
  "lock_session mw = None \<Longrightarrow> perform_request wmo env creds this (Screencast_to_buffer k b) mw = (Inl (fatal_error ''null pointer''), mw)"
  by (simp add: med_screencast_to_buffer_def)

section \<open>The end of a connection\<close>

lemma focus_keeps_apps: "sm_apps (sh_sessions (set_focus_to a b sh)) = sm_apps (sh_sessions sh)"
proof -
  have w: "sm_apps (sh_sessions (on_world f sh)) = sm_apps (sh_sessions sh)" for f and sh :: "'a Shell"
    by (simp add: on_world_def)
  show ?thesis
    by (simp add: set_focus_to_def drop_focus_def take_focus_def seat_call_def confine_to_def shell_configure_def
        sm_set_focus_to_def sm_unset_focus_def sm_listener_def w Let_def split: option.split)
qed

lemma closed_session_apps:
  assumes "shell_close_session SystemCompositorWindowManager i sh = (Inr (), sh')"
  shows "sm_apps (sh_sessions sh') = remove1 i (sm_apps (sh_sessions sh))"
proof -
  let ?sh0 = "sh\<lparr>sh_prompts := remove_session (sh_prompts sh) i\<rparr>"
  obtain ps sh1 m2 where s: "remove_all SystemCompositorWindowManager i (sorted_list_of_set ps) ?sh0 = (Inr (), sh1)" and
    c: "close_session i (sh_sessions sh1) = (Inr (), m2)" and e: "sh' = on_session_removed i (sh1\<lparr>sh_sessions := m2\<rparr>)"
    using assms
    by (auto simp: shell_close_session_def and_then_def apsnd_def map_prod_def Let_def split: option.splits sum.splits prod.splits)
  have "sm_apps m2 = remove1 i (sm_apps (sh_sessions sh))"
    using c remove_all_fields [OF s]
    by (auto simp: close_session_def Let_def container_remove_session_def sm_listener_def apsnd_def map_prod_def split: if_splits)
  moreover have "sm_apps (sh_sessions (on_session_removed i sh)) = sm_apps (sh_sessions sh)" for sh
    by (simp add: on_session_removed_def focus_keeps_apps split: sum.split option.split)
  ultimately show ?thesis by (simp add: e)
qed

lemma SessionManager_apps_world: "sm_apps (m\<lparr>sm_world := w\<rparr>) = sm_apps m"
  by simp

lemma put_shell_sessions: "srv_sessions (put_shell sh srv) = sh_sessions sh"
  by (simp add: put_shell_def Let_def)

lemma destroyed_tracked:
  assumes "destroy_tracked ks mw = (Inr (), mw')"
  shows "fst mw' = fst mw \<and> srv_sessions (snd mw') = (srv_sessions (snd mw))\<lparr>sm_world := sh_world (srv_shell (snd mw'))\<rparr> \<and>
    (\<forall>k. map_of (session_contexts (srv_screencasts (snd mw'))) k =
         (if k \<in> set ks then None else map_of (session_contexts (srv_screencasts (snd mw))) k))"
  using assms
proof (induction ks arbitrary: mw)
  case (Cons k ks)
  obtain m srv where mw: "mw = (m, srv)" by fastforce
  let ?sx = "(srv_screencasts srv)\<lparr>screencast_scene := w_scene (sh_world (srv_shell srv))\<rparr>"
  let ?sx' = "destroy_screencast_session k ?sx"
  have allowed: "screencast_is_allowed (med_authorization m)"
    using Cons.prems by (auto simp: mw destroy_screencast_def on_screencast_def split: if_splits)
  let ?mw = "(m, srv\<lparr>srv_screencasts := ?sx', srv_shell := on_world (map_scene (\<lambda>_. screencast_scene ?sx')) (srv_shell srv)\<rparr>)"
  have step: "destroy_tracked ks ?mw = (Inr (), mw')"
    using Cons.prems allowed by (simp add: mw destroy_screencast_def on_screencast_def)
  have "map_of (session_contexts ?sx') x = (if x = k then None else map_of (session_contexts (srv_screencasts srv)) x)" for x
    by (simp add: destroy_screencast_session_def split: option.split)
  with Cons.IH [OF step] show ?case by (auto simp: mw on_world_def)
qed simp

lemma untracked: "map_of (screencast_buffer_tracker (fold remove_tracked_session ks m)) k =
    (if k \<in> set ks then None else map_of (screencast_buffer_tracker m) k)"
  by (induction ks arbitrary: m) (auto simp: remove_tracked_session_def)


section \<open>Examples\<close>

text \<open>A client that sends the same message all the time.\<close>

definition pong_wire :: Wire where
  "pong_wire =
     \<lparr>parse_invocation = (\<lambda>_. \<lparr>inv_id = 7, inv_method_name = ''pong'', inv_parameters = [], inv_protocol_version = Some current_protocol_version,
        inv_side_channel_fds = 0\<rparr>),
      parse_parameters = (\<lambda>_ _. Some Pong), receive_fds = (\<lambda>_. None), diagnostic_information = (\<lambda>_. [])\<rparr>"

definition sample_connection :: "nat option \<Rightarrow> SystemCompositor SocketConnection" where
  "sample_connection session = \<lparr>conn_open = True, conn_pid = 1, conn_sent = [], conn_mediated = (sample_mediator session, sample_server)\<rparr>"

lemma pong_refused:
  "dispatch SystemCompositorWindowManager sample_env no_rights 0 pong_wire (parse_invocation pong_wire body) (sample_mediator None, sample_server) =
   (Inr (True, [(7, Error_text (error_text (\<lambda>_. []) (logic_error ''Invalid application session'')))]), (sample_mediator None, sample_server))"
proof -
  have "lock_session (sample_mediator None, sample_server) = None" by (simp add: lock_session_def sample_mediator_def)
  then show ?thesis by (simp add: dispatch_def pong_wire_def method_names_def med_pong_def with_session_def answers_later_def)
qed

theorem requests_need_a_session_witness:
  "dispatch SystemCompositorWindowManager sample_env no_rights 0 pong_wire (parse_invocation pong_wire []) (sample_mediator None, sample_server) =
   (Inr (True, [(7, Error_text (error_text (\<lambda>_. []) (logic_error ''Invalid application session'')))]), (sample_mediator None, sample_server))"
proof -
  have "lock_session (sample_mediator None, sample_server) = None" by (simp add: lock_session_def sample_mediator_def)
  then show ?thesis
    using requests_need_a_session [where req = Pong and wire = pong_wire and invocation = "parse_invocation pong_wire []"
        and mw = "(sample_mediator None, sample_server)" and wmo = SystemCompositorWindowManager and env = sample_env and creds = no_rights and this = 0]
    by (simp add: pong_wire_def needs_session_def)
qed

theorem open_connections_answer_every_request_witness:
  "\<exists>c' pss. serve SystemCompositorWindowManager sample_env no_rights 0 pong_wire 1 [[1], [2]] (sample_connection None) = (Inr (), c') \<and>
     conn_sent c' = concat pss \<and> list_all2 (answers pong_wire) [[1], [2]] pss"
proof -
  let ?p = "(7, Error_text (error_text (\<lambda>_. []) (logic_error ''Invalid application session'')))"
  have ok: "inv_protocol_version (parse_invocation pong_wire body) = Some oldest_compatible_protocol_version" 
    "oldest_compatible_protocol_version < next_incompatible_protocol_version" "inv_side_channel_fds (parse_invocation pong_wire body) = 0" for body
    by (simp_all add: pong_wire_def oldest_compatible_protocol_version_def current_protocol_version_def next_incompatible_protocol_version_def
        mir_version_number_def)
  have "on_new_message SystemCompositorWindowManager sample_env no_rights 0 pong_wire 1 (Inl body) ((sample_connection None)\<lparr>conn_sent := ps\<rparr>) =
    (Inr (), (sample_connection None)\<lparr>conn_sent := ps @ [?p]\<rparr>)" for body ps
    using ok pong_refused by (simp add: on_new_message_def set_client_pid_def sample_connection_def)
  from this [of _ "[]"] this [of _ "[?p]"]
  have "serve SystemCompositorWindowManager sample_env no_rights 0 pong_wire 1 [[1], [2]] (sample_connection None) =
    (Inr (), (sample_connection None)\<lparr>conn_sent := [?p, ?p]\<rparr>)"
    by (simp add: sample_connection_def)
  from open_connections_answer_every_request [OF this] this show ?thesis by (auto simp: sample_connection_def)
qed

lemma sample_end: "\<exists>c'. remove_connection SystemCompositorWindowManager (sample_connection (Some 0)) = (Inr (), c')"
proof -
  have "sm_objects (sh_sessions (see_prompt_participants (sample_shell (Some 0)))) 0 = Some (client_of [])"
    "sm_apps (sh_sessions (see_prompt_participants (sample_shell (Some 0)))) = [0, 1]"
    by (simp_all add: shell_eval see_prompt_participants_def Let_def)
  then have "\<exists>sh'. shell_close_session SystemCompositorWindowManager 0 (see_prompt_participants (sample_shell (Some 0))) = (Inr (), sh')"
    by (simp add: shell_close_session_def session_surfaces_def client_of_def default_surface_def new_ApplicationSession_def
        close_session_def Let_def container_remove_session_def sm_listener_def)
  moreover have "lock_session (sample_mediator (Some 0), sample_server) = Some 0"
    by (simp add: lock_session_def sample_mediator_def sample_server_def shell_eval)
  moreover have "screencast_buffer_tracker (sample_mediator (Some 0)) = []" by (simp add: sample_mediator_def make_ipc_server_def)
  moreover have "srv_shell sample_server = sample_shell (Some 0)" by (simp add: sample_server_def)
  ultimately show ?thesis
    by (auto simp: remove_connection_def sample_connection_def delete_SessionMediator_def on_shell_def destroy_screencast_sessions_def)
qed


end
