(* ===== verification/Rpc_Channel.thy ===== *)
theory Rpc_Channel
  imports Message_Processor
begin

text \<open>
  The client's end of the connection (\<^verbatim>\<open>src/client/rpc/mir_basic_rpc_channel.cpp\<close>, \<^verbatim>\<open>mir_protobuf_rpc_channel.cpp\<close>, the action queue
  \<^verbatim>\<open>src/common/dispatch/action_queue.cpp\<close> that delays responses): calls, their numbers, and what runs their closures.  A closure is a number;
  \<open>completed\<close> lists those that have run.  Each operation runs under the channel's locks, and the steps of threads interleave.  What a closure
  does is a step of its own.  Events in a message are not followed.

  The lemmas show that every call is completed exactly once, that a prioritised call is completed first, and that calls
  come back from the server in the order in which they were made.
\<close>

section \<open>The channel\<close>

text \<open>The keys of \<open>pending_calls\<close> are of type \<open>int\<close>, the numbers on the wire of type \<open>uint32\<close>.\<close>

record RpcChannel =
  next_message_id :: "32 word"
  pending_calls :: "(int, nat) std_map"
  discard :: bool
  prioritise_next_request :: bool
  id_to_wait_for :: "32 word option"
  delayed_processor :: "32 word list"
  delayed_watched :: bool
  disconnected :: bool
  connection_lost_notices :: nat
  completed :: "nat list"
  written :: "Invocation list"

definition new_RpcChannel :: RpcChannel where
  "new_RpcChannel =
     \<lparr>next_message_id = 0, pending_calls = [], discard = False, prioritise_next_request = False, id_to_wait_for = None,
      delayed_processor = [], delayed_watched = True, disconnected = False, connection_lost_notices = 0, completed = [], written = []\<rparr>"

definition run_closure :: "nat \<Rightarrow> RpcChannel \<Rightarrow> RpcChannel" where
  "run_closure c ch = ch\<lparr>completed := completed ch @ [c]\<rparr>"

definition save_completion_details :: "32 word \<Rightarrow> nat \<Rightarrow> RpcChannel \<Rightarrow> RpcChannel" where
  "save_completion_details k cb ch = ch\<lparr>pending_calls := map_put (sint k) cb (pending_calls ch)\<rparr>"

definition complete_response :: "32 word \<Rightarrow> RpcChannel \<Rightarrow> RpcChannel" where
  "complete_response k ch =
     (case map_of (pending_calls ch) (sint k) of
        None \<Rightarrow> ch
      | Some cb \<Rightarrow> run_closure cb (ch\<lparr>pending_calls := map_erase (sint k) (pending_calls ch)\<rparr>))"

function force_completion :: "RpcChannel \<Rightarrow> RpcChannel" where
  "force_completion ch =
     (case pending_calls ch of
        [] \<Rightarrow> ch
      | (k, cb) # rest \<Rightarrow> force_completion (run_closure cb (ch\<lparr>pending_calls := rest\<rparr>)))"
  by auto
termination by (relation "measure (\<lambda>ch. length (pending_calls ch))") (auto simp: run_closure_def)

declare force_completion.simps [simp del]

definition notify_disconnected :: "RpcChannel \<Rightarrow> RpcChannel" where
  "notify_disconnected ch =
     force_completion
       (if disconnected ch then ch else ch\<lparr>disconnected := True, connection_lost_notices := Suc (connection_lost_notices ch)\<rparr>)"

definition invocation_for :: "string \<Rightarrow> byte list \<Rightarrow> nat \<Rightarrow> RpcChannel \<Rightarrow> Invocation \<times> RpcChannel" where
  "invocation_for meth request num_side_channel_fds ch =
     (\<lparr>inv_id = unat (next_message_id ch), inv_method_name = meth, inv_parameters = request,
       inv_protocol_version = Some current_protocol_version, inv_side_channel_fds = int num_side_channel_fds\<rparr>,
      ch\<lparr>next_message_id := next_message_id ch + 1\<rparr>)"

text \<open>\<open>transport\<close> is what the transport throws, if it does.\<close>

definition channel_send_message :: "exn option \<Rightarrow> Invocation \<Rightarrow> RpcChannel \<Rightarrow> (RpcChannel, unit) outcome" where
  "channel_send_message transport invocation ch =
     (case transport of
        Some e \<Rightarrow> (Inl e, notify_disconnected ch)
      | None \<Rightarrow> (Inr (), ch\<lparr>written := written ch @ [invocation]\<rparr>))"

definition call_method :: "exn option \<Rightarrow> string \<Rightarrow> byte list \<Rightarrow> nat \<Rightarrow> nat \<Rightarrow> RpcChannel \<Rightarrow> (RpcChannel, unit) outcome" where
  "call_method transport meth parameters fds cb ch =
     (if discard ch then (Inr (), run_closure cb ch)
      else
        let k = next_message_id ch;
            (invocation, ch) = invocation_for meth parameters fds ch;
            ch = save_completion_details k cb ch;
            ch = (if prioritise_next_request ch then ch\<lparr>id_to_wait_for := Some k, prioritise_next_request := False\<rparr> else ch)
        in channel_send_message transport invocation ch)"

definition discard_future_calls :: "RpcChannel \<Rightarrow> RpcChannel" where
  "discard_future_calls ch = ch\<lparr>discard := True\<rparr>"

definition process_next_request_first :: "RpcChannel \<Rightarrow> RpcChannel" where
  "process_next_request_first ch = ch\<lparr>prioritise_next_request := True, delayed_watched := False\<rparr>"

text \<open>
  A result arrives.  \<open>populated\<close> says whether its message and file descriptors could be read; if not, or if no call waits for it, the exception is
  reported and the rest is skipped.  Watching the delayed results when they are watched already throws, after the call is complete.
\<close>

definition on_result :: "bool \<Rightarrow> 32 word \<Rightarrow> RpcChannel \<Rightarrow> RpcChannel" where
  "on_result populated k ch =
     (if map_of (pending_calls ch) (sint k) = None \<or> \<not> populated then ch
      else case id_to_wait_for ch of
             None \<Rightarrow> complete_response k ch
           | Some w \<Rightarrow>
               if k = w then (complete_response k ch)\<lparr>delayed_watched := True\<rparr>
               else ch\<lparr>delayed_processor := delayed_processor ch @ [k]\<rparr>)"

text \<open>\<open>ActionQueue::dispatch\<close> for the delayed results, when the multiplexer watches them.\<close>

definition dispatch_delayed :: "RpcChannel \<Rightarrow> RpcChannel" where
  "dispatch_delayed ch =
     (if \<not> delayed_watched ch then ch
      else case delayed_processor ch of
             [] \<Rightarrow> ch
           | k # ks \<Rightarrow> complete_response k (ch\<lparr>delayed_processor := ks\<rparr>))"

section \<open>Every call is completed exactly once\<close>

inductive channel_reachable :: "nat list \<Rightarrow> RpcChannel \<Rightarrow> bool" where
  start: "channel_reachable [] new_RpcChannel"
| calls: "channel_reachable made ch \<Longrightarrow> call_method transport meth parameters fds cb ch = (r, ch') \<Longrightarrow> channel_reachable (made @ [cb]) ch'"
| discards: "channel_reachable made ch \<Longrightarrow> channel_reachable made (discard_future_calls ch)"
| prioritises: "channel_reachable made ch \<Longrightarrow> channel_reachable made (process_next_request_first ch)"
| result: "channel_reachable made ch \<Longrightarrow> channel_reachable made (on_result populated k ch)"
| delayed: "channel_reachable made ch \<Longrightarrow> channel_reachable made (dispatch_delayed ch)"
| disconnects: "channel_reachable made ch \<Longrightarrow> channel_reachable made (notify_disconnected ch)"

lemma force_completion_eq:
  "force_completion ch = ch\<lparr>pending_calls := [], completed := completed ch @ map snd (pending_calls ch)\<rparr>"
  by (induction ch rule: force_completion.induct)
     (subst force_completion.simps, auto simp: run_closure_def split: list.split)

lemma notify_disconnected_fields [simp]:
  "pending_calls (notify_disconnected ch) = []" "completed (notify_disconnected ch) = completed ch @ map snd (pending_calls ch)"
  "next_message_id (notify_disconnected ch) = next_message_id ch"
  by (simp_all add: notify_disconnected_def force_completion_eq)

text \<open>\<open>n\<close> calls have got numbers; those still pending have one of these.\<close>

definition channel_inv :: "nat list \<Rightarrow> RpcChannel \<Rightarrow> bool" where
  "channel_inv made ch \<longleftrightarrow>
     ordered (pending_calls ch) \<and>
     (\<exists>n \<le> length made. next_message_id ch = word_of_nat n \<and> fst ` set (pending_calls ch) \<subseteq> (\<lambda>i. sint (word_of_nat i :: 32 word)) ` {..<n}) \<and>
     mset made = mset (completed ch) + mset (map snd (pending_calls ch))"

lemma mset_erase:
  assumes "ordered m" "map_of m k = Some v"
  shows "mset (map snd m) = add_mset v (mset (map snd (map_erase k m)))"
  using assms
proof (induction m)
  case (Cons e m)
  then show ?case
  proof (cases "fst e = k")
    case True
    then have "k \<notin> fst ` set m" using Cons.prems(1) by (auto simp: ordered_def)
    then have "map_erase k m = m" by (rule erase_missing)
    with True Cons.prems show ?thesis by (simp add: map_erase_def)
  qed (auto simp: map_erase_def ordered_def)
qed simp

lemma inv_complete:
  assumes "channel_inv made ch"
  shows "channel_inv made (complete_response k ch)"
proof (cases "map_of (pending_calls ch) (sint k)")
  case (Some c)
  then show ?thesis
    using assms mset_erase [of "pending_calls ch" "sint k" c]
    by (auto simp: channel_inv_def complete_response_def run_closure_def)
qed (use assms in \<open>simp add: complete_response_def\<close>)

text \<open>The numbers of fewer than \<open>2\<^sup>3\<^sup>2\<close> calls are all different.\<close>

lemma fresh_number:
  assumes "n < 2 ^ 32" "i < n"
  shows "sint (word_of_nat n :: 32 word) \<noteq> sint (word_of_nat i :: 32 word)"
proof
  assume "sint (word_of_nat n :: 32 word) = sint (word_of_nat i :: 32 word)"
  then have "(word_of_nat n :: 32 word) = word_of_nat i" by (simp add: signed_word_eqI)
  then have "n mod 2 ^ 32 = i mod 2 ^ 32" by (simp add: of_nat_eq_iff word_of_nat_eq_iff take_bit_eq_mod)
  with assms show False by simp
qed

lemma mset_put: "k \<notin> fst ` set m \<Longrightarrow> mset (map snd (map_put k v m)) = add_mset v (mset (map snd m))"
  by (induction k v m rule: map_put.induct) auto

lemma inv_call:
  assumes inv: "channel_inv made ch" and len: "length made < 2 ^ 32"
    and call: "call_method transport meth parameters fds cb ch = (r, ch')"
  shows "channel_inv (made @ [cb]) ch'"
proof (cases "discard ch")
  case True
  obtain n where "n \<le> length made" "next_message_id ch = word_of_nat n"
    "fst ` set (pending_calls ch) \<subseteq> (\<lambda>i. sint (word_of_nat i :: 32 word)) ` {..<n}" using inv by (auto simp: channel_inv_def)
  then have "\<exists>n \<le> length (made @ [cb]). next_message_id ch = word_of_nat n \<and>
      fst ` set (pending_calls ch) \<subseteq> (\<lambda>i. sint (word_of_nat i :: 32 word)) ` {..<n}" by (intro exI [of _ n]) simp
  with True inv call show ?thesis unfolding channel_inv_def by (auto simp: call_method_def run_closure_def)
next
  case False
  obtain n where n: "n \<le> length made" "next_message_id ch = word_of_nat n"
    "fst ` set (pending_calls ch) \<subseteq> (\<lambda>i. sint (word_of_nat i :: 32 word)) ` {..<n}" using inv by (auto simp: channel_inv_def)
  let ?k = "sint (next_message_id ch)"
  let ?pending = "map_put ?k cb (pending_calls ch)"
  have "?k \<notin> fst ` set (pending_calls ch)" using n fresh_number [of n] len by fastforce
  then have m: "mset (map snd ?pending) = add_mset cb (mset (map snd (pending_calls ch)))" by (rule mset_put)
  have keys: "fst ` set ?pending \<subseteq> (\<lambda>i. sint (word_of_nat i :: 32 word)) ` {..<Suc n}" using n by auto
  have fields: "next_message_id ch' = next_message_id ch + 1 \<and>
    (pending_calls ch' = ?pending \<and> completed ch' = completed ch \<or>
     pending_calls ch' = [] \<and> completed ch' = completed ch @ map snd ?pending)"
    using call False
    by (auto simp: call_method_def invocation_for_def save_completion_details_def channel_send_message_def Let_def split: option.splits if_splits)
  from fields have keys': "fst ` set (pending_calls ch') \<subseteq> (\<lambda>i. sint (word_of_nat i :: 32 word)) ` {..<Suc n}"
    by (elim conjE disjE) (use keys in simp_all)
  have "next_message_id ch' = word_of_nat (Suc n)" using fields n by (simp add: add.commute)
  then have "\<exists>n \<le> length (made @ [cb]). next_message_id ch' = word_of_nat n \<and>
      fst ` set (pending_calls ch') \<subseteq> (\<lambda>i. sint (word_of_nat i :: 32 word)) ` {..<n}"
    using n(1) keys' by (intro exI [of _ "Suc n"]) simp
  moreover have "ordered (pending_calls ch')" using fields inv by (auto simp: channel_inv_def)
  moreover have "mset (made @ [cb]) = mset (completed ch') + mset (map snd (pending_calls ch'))"
    using fields m inv by (auto simp: channel_inv_def)
  ultimately show ?thesis by (simp add: channel_inv_def)
qed

lemma inv_fields:
  "channel_inv made ch \<Longrightarrow> next_message_id ch' = next_message_id ch \<Longrightarrow> pending_calls ch' = pending_calls ch \<Longrightarrow> completed ch' = completed ch \<Longrightarrow>
   channel_inv made ch'"
  by (simp add: channel_inv_def)

lemma channel_inv_reachable:
  "channel_reachable made ch \<Longrightarrow> length made \<le> 2 ^ 32 \<Longrightarrow> channel_inv made ch"
proof (induction rule: channel_reachable.induct)
  case start
  then show ?case by (simp add: channel_inv_def new_RpcChannel_def)
next
  case (calls made ch transport meth parameters fds cb r ch')
  then show ?case using inv_call by simp
next
  case (discards made ch)
  then show ?case by (auto simp: discard_future_calls_def elim: inv_fields)
next
  case (prioritises made ch)
  then show ?case by (auto simp: process_next_request_first_def elim: inv_fields)
next
  case (result made ch populated k)
  then have "channel_inv made ch" "channel_inv made (complete_response k ch)" by (simp_all add: inv_complete)
  then show ?case by (auto simp: on_result_def split: option.split elim: inv_fields)
next
  case (delayed made ch)
  then have "channel_inv made ch" by simp
  moreover from this have "channel_inv made (complete_response k (ch\<lparr>delayed_processor := ks\<rparr>))" for k ks
    by (intro inv_complete) (auto elim: inv_fields)
  ultimately show ?case by (simp add: dispatch_delayed_def split: list.split)
next
  case (disconnects made ch)
  then have "channel_inv made ch" by simp
  then show ?case unfolding channel_inv_def by auto
qed

text \<open>
  C8: A client's calls are neither lost nor completed twice: after any run of at most \<open>2\<^sup>3\<^sup>2\<close> calls, answers, delays, discards and disconnections, the closures that have
  run and those of the calls still pending are together exactly those of the calls made.  When the connection is lost none is left pending.
\<close>

theorem every_call_completes_once:
  assumes "channel_reachable made ch" "length made \<le> 2 ^ 32"
  shows "mset made = mset (completed ch) + mset (map snd (pending_calls ch)) \<and>
         mset (completed (notify_disconnected ch)) = mset made \<and> pending_calls (notify_disconnected ch) = []"
  using channel_inv_reachable [OF assms] by (simp add: channel_inv_def)

section \<open>Priority\<close>

text \<open>Whatever the server sends, in whatever order the client's threads handle it.\<close>

inductive server_step :: "RpcChannel \<Rightarrow> RpcChannel \<Rightarrow> bool" where
  result: "server_step ch (on_result populated k ch)"
| delayed: "server_step ch (dispatch_delayed ch)"

lemma complete_prefix: "prefix (completed ch) (completed (complete_response k ch))"
  by (auto simp: complete_response_def run_closure_def split: option.split)

lemma server_step_prefix:
  assumes "server_step ch ch'"
  shows "prefix (completed ch) (completed ch')"
  using assms
proof cases
  case (result populated k)
  then show ?thesis using complete_prefix [of ch k] by (simp add: on_result_def split: option.split)
next
  case delayed
  then show ?thesis using complete_prefix [of "ch\<lparr>delayed_processor := ks\<rparr>" for ks] by (simp add: dispatch_delayed_def split: list.split)
qed

definition waits :: "32 word \<Rightarrow> nat \<Rightarrow> RpcChannel \<Rightarrow> bool" where
  "waits w cb ch \<longleftrightarrow>
     id_to_wait_for ch = Some w \<and> \<not> delayed_watched ch \<and> map_of (pending_calls ch) (sint w) = Some cb"

lemma server_step_waits:
  assumes "server_step ch ch'" "waits w cb ch"
  shows "completed ch' = completed ch \<and> waits w cb ch' \<or> completed ch' = completed ch @ [cb]"
  using assms(1)
proof cases
  case (result populated k)
  then show ?thesis using assms(2) by (cases "k = w") (simp_all add: waits_def on_result_def complete_response_def run_closure_def)
next
  case delayed
  then show ?thesis using assms(2) by (simp add: waits_def dispatch_delayed_def)
qed

text \<open>
  A call made after \<open>process_next_request_first\<close> is answered before any other: until its own response has been handled nothing the server sends completes another
  call, so the first closure to run is that of the prioritised call.
\<close>

theorem prioritised_call_first:
  assumes "\<not> discard ch" "prioritise_next_request ch" "\<not> delayed_watched ch"
    and "call_method None meth parameters fds cb ch = (Inr (), ch1)" "server_step\<^sup>*\<^sup>* ch1 ch2"
  shows "completed ch2 = completed ch \<or> prefix (completed ch @ [cb]) (completed ch2)"
proof -
  have start: "waits (next_message_id ch) cb ch1" "completed ch1 = completed ch"
    using assms(1-4)
    by (auto simp: waits_def call_method_def invocation_for_def save_completion_details_def channel_send_message_def Let_def)
  from assms(5) have "completed ch2 = completed ch1 \<and> waits (next_message_id ch) cb ch2 \<or> prefix (completed ch1 @ [cb]) (completed ch2)"
  proof (induction rule: rtranclp_induct)
    case (step ch' ch'')
    then show ?case using server_step_waits [OF step.hyps(2)] server_step_prefix [OF step.hyps(2)]
      by (metis prefix_order.refl prefix_order.trans)
  qed (simp add: start)
  with start(2) show ?thesis by auto
qed

section \<open>There and back\<close>

text \<open>Calls of methods with parameters and closures, all sent, and the responses that come back for them.\<close>

definition make_calls :: "(string \<times> byte list \<times> nat) list \<Rightarrow> RpcChannel \<Rightarrow> RpcChannel" where
  "make_calls cs ch = fold (\<lambda>(meth, parameters, cb) ch. snd (call_method None meth parameters 0 cb ch)) cs ch"

definition receive_responses :: "(nat \<times> Response) list \<Rightarrow> RpcChannel \<Rightarrow> RpcChannel" where
  "receive_responses ps ch = fold (\<lambda>(k, _). on_result True (word_of_nat k)) ps ch"

definition idle :: "RpcChannel \<Rightarrow> bool" where
  "idle ch \<longleftrightarrow> \<not> discard ch \<and> \<not> prioritise_next_request ch \<and> id_to_wait_for ch = None"

text \<open>After \<open>n\<close> calls on a new channel.\<close>

definition called :: "(string \<times> byte list \<times> nat) list \<Rightarrow> RpcChannel \<Rightarrow> bool" where
  "called cs ch \<longleftrightarrow>
     idle ch \<and> completed ch = [] \<and> next_message_id ch = word_of_nat (length cs) \<and>
     map_of (pending_calls ch) = map_of (map (\<lambda>i. (sint (word_of_nat i :: 32 word), snd (snd (cs ! i)))) [0..<length cs]) \<and>
     map inv_id (written ch) = [0..<length cs] \<and> map inv_method_name (written ch) = map fst cs"

lemma called_all: "length cs \<le> 2 ^ 32 \<Longrightarrow> called cs (make_calls cs new_RpcChannel)"
proof (induction cs rule: rev_induct)
  case Nil
  show ?case by (simp add: called_def make_calls_def new_RpcChannel_def idle_def)
next
  case (snoc c cs)
  obtain meth parameters cb where c: "c = (meth, parameters, cb)" by (metis prod.exhaust)
  let ?ch = "make_calls cs new_RpcChannel" and ?n = "length cs"
  let ?ch' = "snd (call_method None meth parameters 0 cb ?ch)"
  from snoc have IH: "called cs ?ch" and n: "?n < 2 ^ 32" by simp_all
  have "sint (word_of_nat ?n :: 32 word) \<notin> (\<lambda>i. sint (word_of_nat i :: 32 word)) ` {..<?n}" using fresh_number [OF n] by auto
  then have fresh: "map_of (map (\<lambda>i. (sint (word_of_nat i :: 32 word), snd (snd (cs ! i)))) [0..<?n]) (sint (word_of_nat ?n :: 32 word)) = None"
    by (auto simp: map_of_eq_None_iff)
  define m where "m = map (\<lambda>i. (sint (word_of_nat i :: 32 word), snd (snd (cs ! i)))) [0..<?n]"
  have m': "map (\<lambda>i. (sint (word_of_nat i :: 32 word), snd (snd ((cs @ [c]) ! i)))) [0..<length (cs @ [c])] =
        m @ [(sint (word_of_nat ?n :: 32 word), cb)]" by (simp add: nth_append m_def c)
  have put: "(map_of m)(k \<mapsto> v) = map_of (m @ [(k, v)])" if "map_of m k = None" for k v
    using that by (auto simp: map_add_def fun_eq_iff split: option.split)
  define ch where "ch = ?ch"
  note IH = IH [folded ch_def, unfolded called_def idle_def, folded m_def]
  define inv' where "inv' = fst (invocation_for meth parameters 0 ch)"
  have new: "snd (call_method None meth parameters 0 cb ch) = ch\<lparr>next_message_id := next_message_id ch + 1,
      pending_calls := map_put (sint (next_message_id ch)) cb (pending_calls ch), written := written ch @ [inv']\<rparr>"
    "inv_id inv' = unat (next_message_id ch)" "inv_method_name inv' = meth"
    using IH by (simp_all add: inv'_def call_method_def invocation_for_def save_completion_details_def channel_send_message_def Let_def)
  have "unat (word_of_nat ?n :: 32 word) = ?n" using n by (simp add: unat_of_nat)
  moreover have "(word_of_nat ?n + 1 :: 32 word) = word_of_nat (length (cs @ [c]))" by simp
  ultimately have "called (cs @ [c]) ?ch'"
    using new IH put [OF fresh [folded m_def]] unfolding called_def idle_def m' ch_def [symmetric]
    by (simp add: c)
  then show ?case by (simp add: make_calls_def c)
qed

lemma received_all:
  assumes "idle ch" "distinct (map (\<lambda>p. sint (word_of_nat (fst p) :: 32 word)) ps)"
    and "\<And>p. p \<in> set ps \<Longrightarrow> map_of (pending_calls ch) (sint (word_of_nat (fst p) :: 32 word)) = Some (f (fst p))"
  shows "completed (receive_responses ps ch) = completed ch @ map (\<lambda>p. f (fst p)) ps"
  using assms
proof (induction ps arbitrary: ch)
  case (Cons p ps)
  let ?k = "word_of_nat (fst p) :: 32 word"
  let ?ch = "on_result True ?k ch"
  have ch: "?ch = ch\<lparr>pending_calls := map_erase (sint ?k) (pending_calls ch), completed := completed ch @ [f (fst p)]\<rparr>"
    using Cons.prems(1) Cons.prems(3) [of p] by (simp add: on_result_def idle_def complete_response_def run_closure_def)
  have "completed (receive_responses ps ?ch) = completed ?ch @ map (\<lambda>p. f (fst p)) ps"
  proof (rule Cons.IH)
    show "idle ?ch" using Cons.prems(1) by (simp add: ch idle_def)
    show "distinct (map (\<lambda>p. sint (word_of_nat (fst p) :: 32 word)) ps)" using Cons.prems(2) by simp
    fix q assume q: "q \<in> set ps"
    then have "sint (word_of_nat (fst q) :: 32 word) \<noteq> sint ?k" using Cons.prems(2) by (auto dest: image_eqI [OF sym])
    with Cons.prems(3) [of q] q show "map_of (pending_calls ?ch) (sint (word_of_nat (fst q) :: 32 word)) = Some (f (fst q))" by (simp add: ch)
  qed
  then show ?case by (simp add: receive_responses_def ch case_prod_unfold)
qed (simp add: receive_responses_def)

lemma distinct_numbers: "n \<le> 2 ^ 32 \<Longrightarrow> distinct (map (\<lambda>i. sint (word_of_nat i :: 32 word)) [0..<n])"
proof (induction n)
  case (Suc n)
  have "sint (word_of_nat n :: 32 word) \<notin> (\<lambda>i. sint (word_of_nat i :: 32 word)) ` {0..<n}"
  proof
    assume "sint (word_of_nat n :: 32 word) \<in> (\<lambda>i. sint (word_of_nat i :: 32 word)) ` {0..<n}"
    then obtain i where "i < n" "sint (word_of_nat n :: 32 word) = sint (word_of_nat i :: 32 word)" by auto
    with Suc.prems fresh_number [of n i] show False by simp
  qed
  with Suc show ?case by simp
qed simp

lemma answers_ids:
  assumes "list_all2 (answers wire) bodies pss"
    and "\<And>body. body \<in> set bodies \<Longrightarrow> \<not> answers_later (inv_method_name (parse_invocation wire body))"
  shows "map fst (concat pss) = map (\<lambda>body. inv_id (parse_invocation wire body)) bodies"
  using assms by (induction rule: list_all2_induct) (auto simp: answers_def)


section \<open>Examples\<close>

definition pong_calls :: "(string \<times> byte list \<times> nat) list" where
  "pong_calls = [(''pong'', [], 5), (''pong'', [], 6)]"

theorem every_call_completes_once_witness:
  "mset (completed (notify_disconnected (make_calls pong_calls new_RpcChannel))) = {#5, 6#}"
proof -
  have step: "channel_reachable (made @ [cb]) (snd (call_method None meth parameters 0 cb ch))" if "channel_reachable made ch"
    for made ch cb meth parameters
    by (rule channel_reachable.calls [OF that]) (rule surjective_pairing)
  have "channel_reachable (([] @ [5]) @ [6]) (make_calls pong_calls new_RpcChannel)"
    unfolding pong_calls_def make_calls_def fold.simps comp_def id_def prod.case
    by (intro step channel_reachable.start)
  then have r: "channel_reachable [5, 6] (make_calls pong_calls new_RpcChannel)" by simp
  have "length [5, 6 :: nat] \<le> 2 ^ 32" by simp
  from every_call_completes_once [OF r this] have "mset (completed (notify_disconnected (make_calls pong_calls new_RpcChannel))) = mset [5, 6]"
    by (elim conjE)
  then show ?thesis by (simp only: mset.simps add_mset_commute)
qed

definition prioritising :: RpcChannel where
  "prioritising = process_next_request_first (make_calls pong_calls new_RpcChannel)"

lemmas channel_eval = make_calls_def new_RpcChannel_def call_method_def invocation_for_def save_completion_details_def channel_send_message_def
  process_next_request_first_def

lemma prioritising_fields:
  "\<not> discard prioritising" "prioritise_next_request prioritising" "\<not> delayed_watched prioritising" "completed prioritising = []"
  "next_message_id prioritising = 2" "pending_calls prioritising = [(0, 5), (1, 6)]"
  by (simp_all add: prioritising_def pong_calls_def channel_eval)

theorem prioritised_call_first_witness:
  "\<exists>ch1. call_method None ''connect'' [] 0 9 prioritising = (Inr (), ch1) \<and>
     completed (on_result True 2 (on_result True 0 ch1)) = [9]"
proof -
  obtain r ch1 where c: "call_method None ''connect'' [] 0 9 prioritising = (r, ch1)" by fastforce
  have r: "r = Inr ()" and f: "pending_calls ch1 = [(0, 5), (1, 6), (2, 9)]" "id_to_wait_for ch1 = Some 2" "completed ch1 = []"
    using c prioritising_fields by (auto simp: call_method_def invocation_for_def save_completion_details_def channel_send_message_def)
  have "completed (on_result True 2 (on_result True 0 ch1)) = [9]"
    using f by (simp add: on_result_def complete_response_def run_closure_def)
  moreover have "server_step\<^sup>*\<^sup>* ch1 (on_result True 2 (on_result True 0 ch1))"
    by (meson converse_rtranclp_into_rtranclp rtranclp.rtrancl_refl server_step.result)
  ultimately show ?thesis
    using prioritised_call_first [OF prioritising_fields(1-3) c [unfolded r], of "on_result True 2 (on_result True 0 ch1)"] c r by simp
qed

lemma pong_calls_written:
  "written (make_calls pong_calls new_RpcChannel) =
     map (\<lambda>k. \<lparr>inv_id = k, inv_method_name = ''pong'', inv_parameters = [], inv_protocol_version = Some current_protocol_version,
       inv_side_channel_fds = 0\<rparr>) [0, 1]"
  by (simp add: pong_calls_def channel_eval)

definition pong_codec :: Wire where
  "pong_codec = pong_wire\<lparr>parse_invocation := (\<lambda>body. (parse_invocation pong_wire [])\<lparr>inv_id := length body\<rparr>)\<rparr>"

definition pong_bytes :: "Invocation \<Rightarrow> byte list" where
  "pong_bytes inv' = replicate (inv_id inv') 0"

lemma pong_codec_inverts:
  "inv' \<in> set (written (make_calls pong_calls new_RpcChannel)) \<Longrightarrow>
   parse_invocation pong_codec (pong_bytes inv') = inv' \<and> length (pong_bytes inv') < 65536"
  by (auto simp: pong_calls_written pong_codec_def pong_bytes_def pong_wire_def)

lemma pongs_served:
  "\<exists>c'. serve SystemCompositorWindowManager sample_env no_rights 0 pong_codec 1 bodies (sample_connection None) = (Inr (), c') \<and> conn_open c'"
proof -
  have none: "lock_session (sample_mediator None, sample_server) = None" by (simp add: lock_session_def sample_mediator_def)
  have ok: "inv_protocol_version (parse_invocation pong_codec body) = Some oldest_compatible_protocol_version"
    "oldest_compatible_protocol_version < next_incompatible_protocol_version" "inv_side_channel_fds (parse_invocation pong_codec body) = 0" for body
    by (simp_all add: pong_codec_def pong_wire_def oldest_compatible_protocol_version_def current_protocol_version_def
        next_incompatible_protocol_version_def mir_version_number_def)
  have answered: "\<exists>p. dispatch SystemCompositorWindowManager sample_env no_rights 0 pong_codec (parse_invocation pong_codec body) (sample_mediator None, sample_server) =
    (Inr (True, [p]), (sample_mediator None, sample_server))" for body
    using none by (simp add: dispatch_def pong_codec_def pong_wire_def method_names_def med_pong_def with_session_def answers_later_def)
  have step: "\<exists>p. on_new_message SystemCompositorWindowManager sample_env no_rights 0 pong_codec 1 (Inl body) ((sample_connection None)\<lparr>conn_sent := ps\<rparr>) =
    (Inr (), (sample_connection None)\<lparr>conn_sent := ps @ [p]\<rparr>)" for body ps
  proof -
    obtain p where "dispatch SystemCompositorWindowManager sample_env no_rights 0 pong_codec (parse_invocation pong_codec body)
      (sample_mediator None, sample_server) = (Inr (True, [p]), (sample_mediator None, sample_server))" using answered by blast
    then show ?thesis using ok by (intro exI [of _ p]) (simp add: on_new_message_def set_client_pid_def sample_connection_def)
  qed
  have "\<exists>c'. serve SystemCompositorWindowManager sample_env no_rights 0 pong_codec 1 bodies ((sample_connection None)\<lparr>conn_sent := ps\<rparr>) =
    (Inr (), c') \<and> conn_open c'" for ps
  proof (induction bodies arbitrary: ps)
    case (Cons body bodies)
    obtain p where "on_new_message SystemCompositorWindowManager sample_env no_rights 0 pong_codec 1 (Inl body) ((sample_connection None)\<lparr>conn_sent := ps\<rparr>) =
      (Inr (), (sample_connection None)\<lparr>conn_sent := ps @ [p]\<rparr>)" using step by blast
    then show ?case using Cons [of "ps @ [p]"] by (simp add: sample_connection_def)
  qed (simp add: sample_connection_def)
  from this [of "[]"] show ?thesis by (simp add: sample_connection_def)
qed


end
