(* ===== verification/Spec2Isabelle.thy ===== *)
theory Spec2Isabelle
  imports Surface_Stack Prompt_Sessions Display_Config Input_Validator Buffer_Vault Frame_Clock Key_Repeat Session_Ownership Shell_Focus Cursor_Control Display_Focus Display_Protocol Rpc_Channel
begin

text \<open>
  A verification development of the Mir display server.

  \<^bold>\<open>The program.\<close>  Mir is a display server.  Clients draw into buffers and submit them to a
  \<^emph>\<open>stream\<close>; a \<^emph>\<open>surface\<close> (a window) shows one or more streams; the \<^emph>\<open>scene\<close> is a stack of
  surfaces.  Each display has a \<^emph>\<open>compositor\<close> that asks the scene for the elements to draw, drops
  those that are covered, draws the rest and tells every surface whether it was seen.  The shell
  places, resizes and focuses the windows, and the display configuration says which outputs are used
  and where they are.  Input devices feed events into a pipeline that ends at the surfaces.
  The development models this server core: the state every component keeps, all
  the operations that change it, and how the components call one another.

  \<^bold>\<open>Conventions.\<close>  A class is a record (a \<open>datatype\<close> where it is polymorphic), a method a function
  that takes the object and returns it updated.  A method that may throw returns \<open>exn + 'a\<close> beside
  the object, so that what was written before the throw stays.  Observers, sinks and listeners
  are logs of the calls made on them.  A shared object is an address in a heap: the streams and the
  surfaces, so that two layers, or the scene and the window manager, see the same one.  Mutexes
  are not modelled: every operation runs under its component's lock, so an interleaving of threads
  is a sequence of operations, which is what the step relations range over.  \<open>int\<close> is unbounded
  except where the code relies on its limits; unsigned counters that may wrap are words.

  \<^bold>\<open>From the buffer to the screen.\<close>
  \<^item> \<open>Mir_Prelude\<close>: exceptions, sequencing of throwing calls, the list idioms of the standard
    library.  \<open>Identifiers\<close>: \<^verbatim>\<open>int_wrapper.h\<close> with its order.
  \<^item> \<open>Geometry\<close>: \<^verbatim>\<open>include/core/mir/geometry\<close>, \<^verbatim>\<open>src/core/geometry\<close>.  Intersection, overlap,
    bounding rectangle, \<open>confine\<close> and the comparison of collections against sets of pixels.
  \<^item> \<open>Buffer_Map\<close>, \<open>Schedules\<close>, \<open>Arbiter\<close>, \<open>Buffer_Stream\<close>: \<^verbatim>\<open>src/server/compositor\<close>
    (\<^verbatim>\<open>buffer_map.cpp\<close>, \<^verbatim>\<open>queueing_schedule.cpp\<close>, \<^verbatim>\<open>dropping_schedule.cpp\<close>,
    \<^verbatim>\<open>multi_monitor_arbiter.cpp\<close>, \<^verbatim>\<open>stream.cpp\<close>, \<^verbatim>\<open>temporary_buffers.cpp\<close>).  The contract of a schedule is
    the locale \<open>schedule_contract\<close>, interpreted for both schedules and for the virtual call; the
    arbiter's and the stream's lemmas use it.  The runs of a stream are \<open>stream_reachable\<close>; in them a
    buffer is owned by the server exactly while it waits or is on screen, a held buffer never
    goes back to the client, and once a frame has been submitted the compositor always gets one.
  \<^item> \<open>Alarm\<close>, \<open>Frame_Dropping\<close>: \<open>AlarmImpl\<close> of \<^verbatim>\<open>src/server/glib_main_loop.cpp\<close> with the contract
    \<open>alarm_contract\<close>, and \<^verbatim>\<open>timeout_frame_dropping_policy_factory.cpp\<close>: the assertion of its handler
    never fails.
  \<^item> \<open>Pixel_Format\<close>, \<open>Occlusion\<close>: \<^verbatim>\<open>src/platform/graphics/pixel_format_utils.cpp\<close>,
    \<^verbatim>\<open>src/server/compositor/occlusion.cpp\<close> and \<^verbatim>\<open>default_display_buffer_compositor.cpp\<close>: culling changes
    no visible pixel.
  \<^item> \<open>Basic_Surface\<close>: \<^verbatim>\<open>src/server/scene/basic_surface.cpp\<close>: attributes, layers, input area, resize.
  \<^item> \<open>Surface_Stack\<close>: \<^verbatim>\<open>src/server/scene/surface_stack.cpp\<close> and \<^verbatim>\<open>rendering_tracker.cpp\<close>.  The runs of the
    scene are \<open>scene_reachable\<close>, with one invariant; the locale \<open>element_call\<close> is what \<open>rendered\<close>
    and \<open>occluded\<close> of a scene element have in common, and \<open>composite_frame_visibility\<close> follows one
    frame through scene, culling and trackers.

  \<^bold>\<open>Sessions and windows.\<close>
  \<^item> \<open>Prompt_Sessions\<close>: \<^verbatim>\<open>src/server/scene/prompt_session_impl.cpp\<close>, \<^verbatim>\<open>prompt_session_container.cpp\<close>,
    \<^verbatim>\<open>prompt_session_manager_impl.cpp\<close>; runs \<open>prompt_reachable\<close>.
  \<^item> \<open>Output_Cache\<close>, \<open>Anr_Detector\<close>, \<open>Sessions\<close>, \<open>Session_Ownership\<close>: \<^verbatim>\<open>src/server/scene\<close>
    (\<^verbatim>\<open>output_properties_cache.cpp\<close>, \<^verbatim>\<open>surface_event_source.cpp\<close>,
    \<^verbatim>\<open>timeout_application_not_responding_detector.cpp\<close>, \<^verbatim>\<open>application_session.cpp\<close>,
    \<^verbatim>\<open>default_session_container.cpp\<close>, \<^verbatim>\<open>session_manager.cpp\<close>, \<^verbatim>\<open>surface_allocator.cpp\<close>).  The locale
    \<open>session_operation\<close> is what every operation of a session keeps; it is interpreted for all of
    them, and with it every surface of the scene belongs to exactly one session.
  \<^item> \<open>Shell\<close>, \<open>Shell_Focus\<close>: \<^verbatim>\<open>src/server/shell/abstract_shell.cpp\<close> and
    \<^verbatim>\<open>system_compositor_window_manager.cpp\<close>: at most one surface has the focus, switching between sessions
    visits each of them, and closing a session removes its surfaces.
  \<^item> \<open>Window_Info\<close>, \<open>Window_Manager\<close>, \<open>Window_Events\<close>: \<^verbatim>\<open>src/server/shell\<close>
    (\<^verbatim>\<open>window_management_info.cpp\<close>, \<^verbatim>\<open>basic_window_manager.cpp\<close>, \<^verbatim>\<open>canonical_window_manager.cpp\<close>,
    \<^verbatim>\<open>surface_ready_observer.cpp\<close>): the constraints of a resize, the handlers of the canonical
    policy and the input events.  Trees of windows move as a whole; maximising and restoring is a
    round trip; stale raise requests are ignored.  Several lemmas state where the handlers do
    not do what their comments or names say.

  \<^bold>\<open>Displays.\<close>
  \<^item> \<open>Display_Config\<close>: \<^verbatim>\<open>src/platform/graphics/display_configuration.cpp\<close>,
    \<^verbatim>\<open>overlapping_output_grouping.cpp\<close>, \<^verbatim>\<open>src/server/graphics/default_display_configuration_policy.cpp\<close>,
    \<^verbatim>\<open>src/server/shell/graphics_display_layout.cpp\<close>: the groups are the connected components of
    overlapping outputs, the policies give valid layouts.
  \<^item> \<open>Display_Changer\<close>, \<open>Display_Focus\<close>: \<^verbatim>\<open>src/server/scene/mediating_display_changer.cpp\<close> and
    \<^verbatim>\<open>src/server/frontend/authorizing_display_changer.cpp\<close>.  The hardware is a parameter, the action queue of
    the server a list of closures.  The display is configured only while nothing is composited; the
    configuration in use is that of the focused session or the base configuration; clients without
    authorisation have no influence on it.
  \<^item> \<open>Display_Protocol\<close>: the messages of display configurations (\<^verbatim>\<open>protobuf_buffer_packer.cpp\<close>,
    \<^verbatim>\<open>session_mediator.cpp\<close>): a round trip that changes nothing a client may not change.
  \<^item> \<open>Screencast\<close>: \<^verbatim>\<open>src/server/compositor/compositing_screencast.cpp\<close> and
    \<^verbatim>\<open>screencast_display_buffer.cpp\<close>: the buffers of a screencast are used in turn, and each screencast is a
    compositor of the scene.

  \<^bold>\<open>Input.\<close>  An event passes the seat, the key repeat, the filters and the surface dispatcher.
  \<^item> \<open>Input_Events\<close>, \<open>Input_Validator\<close>, \<open>Key_Repeat\<close>: \<^verbatim>\<open>src/server/input/validator.cpp\<close> makes any
    sequence of touch events well formed; \<^verbatim>\<open>key_repeat_dispatcher.cpp\<close> repeats exactly the held keys.
  \<^item> \<open>Key_Mapping\<close>, \<open>Input_Seat\<close>: \<^verbatim>\<open>src/client/input/xkb_mapper.cpp\<close>, \<^verbatim>\<open>seat_input_device_tracker.cpp\<close>,
    \<^verbatim>\<open>basic_seat.cpp\<close>, \<^verbatim>\<open>display_input_region.cpp\<close>.  libxkbcommon is a record of functions and the rounding of
    single precision a function; the cursor stays on the displays and within its confinement.
  \<^item> \<open>Surface_Input\<close>, \<open>Cursor_Control\<close>: \<^verbatim>\<open>event_filter_chain_dispatcher.cpp\<close>, \<^verbatim>\<open>vt_filter.cpp\<close>,
    \<^verbatim>\<open>surface_input_dispatcher.cpp\<close>, \<^verbatim>\<open>cursor_controller.cpp\<close>, \<^verbatim>\<open>touchspot_controller.cpp\<close>, over the scene
    of \<open>Surface_Stack\<close>: enter and leave events bracket what a surface gets, a gesture stays where it
    began, and the cursor shows the image of the surface below it.

  \<^bold>\<open>The front end.\<close>  A client's bytes become requests, which the mediator of the connection carries out.
  \<^item> \<open>Cookie\<close>: \<^verbatim>\<open>src/cookie\<close>: the proof of a user's action that comes with a request to raise a window.  Exactly
    the cookies the authority makes are accepted; the HMAC is a parameter.
  \<^item> \<open>Frontend_Shell\<close>, \<open>Client_Messages\<close>: \<^verbatim>\<open>src/server/shell/frontend_shell.cpp\<close>,
    \<^verbatim>\<open>default_persistent_surface_store.cpp\<close>, \<^verbatim>\<open>persistent_surface_store.cpp\<close> and the messages of
    \<^verbatim>\<open>src/protobuf/mir_protobuf.proto\<close>: persistent names of surfaces are a round trip.  libuuid is a parameter.
  \<^item> \<open>Session_Mediator\<close>: \<^verbatim>\<open>src/server/frontend/session_mediator.cpp\<close> with \<^verbatim>\<open>default_ipc_factory.cpp\<close>,
    \<^verbatim>\<open>unauthorized_screencast.cpp\<close>, \<^verbatim>\<open>no_prompt_shell.cpp\<close> and \<^verbatim>\<open>screencast_buffer_tracker.cpp\<close>: all requests
    (\<open>perform_request\<close>) over one state, \<open>Server\<close>, of shell, sessions, scene, display changer, screencasts, prompt sessions and
    the other mediators.  What the platform answers is the record \<open>ServerEnv\<close>.
  \<^item> \<open>Client_Isolation\<close>, \<open>Client_Requests\<close>: what holds of every request of every client.  The locale
    \<open>considerate_window_manager\<close> is what a window manager has to promise, interpreted for the system compositor's;
    \<open>request_frame\<close> follows a relation through all requests, once for the windows of other clients (a \<open>sublocale\<close>) and once for
    clients without rights.  Clients cannot touch each other's windows, and clients without authorisation influence neither displays nor screencasts.
  \<^item> \<open>Message_Framing\<close>, \<open>Message_Processor\<close>: \<^verbatim>\<open>socket_messenger.cpp\<close>, \<^verbatim>\<open>socket_connection.cpp\<close>,
    \<^verbatim>\<open>reordering_message_sender.cpp\<close>, \<^verbatim>\<open>protobuf_message_processor.cpp\<close>: messages survive the stream, every request on an open
    connection is answered once and in order, and a closed connection leaves no session and no screencast behind.  What protobuf reads is the record \<open>Wire\<close>.

  \<^bold>\<open>The client library.\<close>
  \<^item> \<open>Rpc_Channel\<close>: \<^verbatim>\<open>src/client/rpc/mir_basic_rpc_channel.cpp\<close>, \<^verbatim>\<open>mir_protobuf_rpc_channel.cpp\<close>: every call is completed
    exactly once, and calls make the round trip through the server in order.
  \<^item> \<open>Std_Map\<close>, \<open>Client_Buffers\<close>, \<open>Buffer_Vault\<close>: \<^verbatim>\<open>src/client/buffer.cpp\<close>, \<^verbatim>\<open>buffer_vault.cpp\<close>: which side
    owns each buffer of a stream, and that every promise is kept.
  \<^item> \<open>Frame_Clock\<close>: \<^verbatim>\<open>src/client/frame_clock.cpp\<close>.

  \<^bold>\<open>Fuel.\<close>  The recursions over the children and the parents of a window run with fuel, one more
  than the number of known windows; \<open>move_tree_moves\<close> shows that it is enough for windows that form a
  tree.  The searches of the shell for the next session and for the surfaces of a session
  (\<open>next_with_surface\<close>, \<open>collect_surfaces\<close>) run with the number of sessions or surfaces, which
  \<open>focus_next_session_fair\<close> and \<open>close_session_surfaces\<close> show to be enough.  All other loops are structural
  recursions or have a termination proof.

  \<^bold>\<open>Not modelled.\<close>  Graphics platforms, renderers and GL (driver calls); the transports
  (socket I/O, credentials, file descriptors and generated code); reports and logging; the C API of the client library
  over the modelled RPC channel, buffers and frame clock; input devices below the seat; the threads of the multi-threaded compositor; tests and
  examples.  Parameters of the model are the GLib clock, the display hardware, libxkbcommon, the rounding of
  floating point, protobuf, the HMAC of nettle, libuuid, the channels and buffers the platform allocates.
\<close>

end
